(* ===== verification/Fq_Base.thy ===== *)
theory Fq_Base
  imports Main "HOL-Library.AList" "HOL-Library.Char_ord" "HOL-Library.List_Lexorder"
    "HOL-Library.State_Monad" "HOL-Library.Word"
begin

text \<open>
  The prelude of the fair-queue development: Go error values, Go byte strings, decimal
  notation, and the association-list form of the coordinator's hashes and sorted sets. Every theory
  of the development imports it.
\<close>

named_theorems validator_simps \<open>what each validator accepts, as plain conditions\<close>

subsection \<open>Go error values\<close>

text \<open>
  A Go \<open>error\<close> is observed by the program only through \<open>err == nil\<close> and
  \<open>errors.Is(err, sentinel)\<close>.  It is modelled as \<open>None\<close> (nil) or \<open>Some\<close> of the list of
  sentinels in its wrap tree; an \<open>errors.New\<close> or \<open>fmt.Errorf\<close> value that wraps no
  sentinel is \<open>Some []\<close>.  Message texts are not modelled.
\<close>

datatype sentinel =
    ErrInvalidMessage | ErrInvalidModel | ErrInvalidPrepareResult | ErrInvalidRecoveryPage
  | ErrInvalidRecoveryState | ErrInvalidOperationRecord | ErrOperatorConfirmation
  | ErrDependencyUnavailable | ErrUnsupportedTopology | ErrResourceNotReady
  | ErrFenceMismatch | ErrAuthoritativeWriterMismatch | ErrAuthoritativeStateCorrupt
  | ErrRecoveryOwnerStale | ErrCoordinationCorrupt | ErrPublishUnroutable
  | ErrPublishUnconfirmed | ErrSchedulerTokenSource | ErrRuntimeShuttingDown
  | ErrRuntimeNotFound | ErrPublisherGateClosed | ErrPublisherNotDrained
  | ErrContextCanceled | ErrDeadlineExceeded | ErrStalePublisherSource | ErrRecoveryOperatorRequired

type_synonym goerr = "sentinel list option"

abbreviation nil_err :: goerr where
  "nil_err \<equiv> None"

definition plain_err :: goerr where
  "plain_err = Some []"

definition wraps :: "sentinel \<Rightarrow> goerr" where
  "wraps s = Some [s]"

definition errors_is :: "goerr \<Rightarrow> sentinel \<Rightarrow> bool" where
  "errors_is e s = (case e of None \<Rightarrow> False | Some ss \<Rightarrow> s \<in> set ss)"

fun errors_join :: "goerr list \<Rightarrow> goerr" where
  "errors_join [] = None"
| "errors_join (None # es) = errors_join es"
| "errors_join (Some ss # es) =
     Some (ss @ (case errors_join es of None \<Rightarrow> [] | Some ts \<Rightarrow> ts))"

text \<open>\<open>if err := f(); err != nil { return fmt.Errorf("%w: %v", s, err) }\<close>\<close>

definition as_sentinel :: "sentinel \<Rightarrow> goerr \<Rightarrow> goerr" where
  "as_sentinel s e = (if e = None then None else wraps s)"

text \<open>\<open>if cond { return e }\<close>\<close>

definition fail_when :: "bool \<Rightarrow> goerr \<Rightarrow> goerr" where
  "fail_when b e = (if b then e else None)"

text \<open>A body of successive checks with early return: the first non-nil error.\<close>

fun first_err :: "goerr list \<Rightarrow> goerr" where
  "first_err [] = None"
| "first_err (None # es) = first_err es"
| "first_err (Some ss # es) = Some ss"

text \<open>
  A function returning \<open>(T, error)\<close>: \<open>Inl\<close> carries the error.  \<open>check_err e k\<close> is
  \<open>if err := e; err != nil { return zero, err }\<close> followed by \<open>k\<close>.
\<close>

type_synonym 'a result = "sentinel list + 'a"

definition check_err :: "goerr \<Rightarrow> 'a result \<Rightarrow> 'a result" where
  "check_err e k = (case e of Some ss \<Rightarrow> Inl ss | None \<Rightarrow> k)"

definition err_of :: "'a result \<Rightarrow> goerr" where
  "err_of r = (case r of Inl ss \<Rightarrow> Some ss | Inr _ \<Rightarrow> None)"

lemma check_err_Inr [simp]: "check_err e k = Inr x \<longleftrightarrow> e = None \<and> k = Inr x"
  by (cases e) (simp_all add: check_err_def)

lemma check_err_nil [simp]: "check_err None k = k"
  by (simp add: check_err_def)

lemma err_of_None: "err_of r = None \<longleftrightarrow> (\<exists>x. r = Inr x)"
  by (cases r) (simp_all add: err_of_def)

lemma first_err_Cons:
  "first_err (e # es) = (case e of None \<Rightarrow> first_err es | Some ss \<Rightarrow> Some ss)"
  by (cases e) simp_all

lemma first_err_None [simp]: "first_err es = None \<longleftrightarrow> (\<forall>e\<in>set es. e = None)"
  by (induction es rule: first_err.induct) auto

lemma errors_is_None [simp]: "\<not> errors_is None s"
  by (simp add: errors_is_def)

lemma errors_is_Some [simp]: "errors_is (Some ss) s \<longleftrightarrow> s \<in> set ss"
  by (simp add: errors_is_def)

lemma errors_is_join: "errors_is (errors_join es) s \<longleftrightarrow> (\<exists>e\<in>set es. errors_is e s)"
proof (induction es rule: errors_join.induct)
  case (3 ss es)
  then show ?case by (cases "errors_join es") auto
qed simp_all

lemma errors_join_None [simp]: "errors_join es = None \<longleftrightarrow> (\<forall>e\<in>set es. e = None)"
  by (induction es rule: errors_join.induct) auto

lemma as_sentinel_None [simp]: "as_sentinel s e = None \<longleftrightarrow> e = None"
  by (simp add: as_sentinel_def wraps_def)

lemma fail_when_None [simp]: "fail_when b e = None \<longleftrightarrow> b \<longrightarrow> e = None"
  by (simp add: fail_when_def)

lemma wraps_not_None [simp]: "wraps s \<noteq> None" "plain_err \<noteq> None"
  by (simp_all add: wraps_def plain_err_def)

lemma errors_is_simps [simp]:
  "\<not> errors_is plain_err s" "errors_is (wraps t) s \<longleftrightarrow> t = s"
  by (auto simp: errors_is_def plain_err_def wraps_def)

subsection \<open>Go strings\<close>

text \<open>
  A Go string is a byte sequence; \<^typ>\<open>string\<close> is a list of 8-bit characters, so
  \<open>length\<close> is Go's \<open>len\<close>.
\<close>

abbreviation byte_of :: "char \<Rightarrow> nat" where
  "byte_of c \<equiv> of_char c"

text \<open>A separator that occurs in neither prefix determines the split.\<close>

lemma append_sep_inject:
  "x \<notin> set xs \<Longrightarrow> x \<notin> set ys \<Longrightarrow> xs @ x # xs' = ys @ x # ys' \<longleftrightarrow> xs = ys \<and> xs' = ys'"
proof (induction xs arbitrary: ys)
  case Nil
  then show ?case by (cases ys) auto
next
  case (Cons a xs)
  then show ?case by (cases ys) auto
qed

definition is_lower_hex_char :: "char \<Rightarrow> bool" where
  "is_lower_hex_char c \<longleftrightarrow> c \<in> set ''0123456789abcdef''"

text \<open>\<open>^[0-9a-f]{n}$\<close>: the Go patterns \<open>lowerHex32Pattern\<close>, \<open>lowerHex64Pattern\<close>, the
  Lua functions \<open>fq_hex\<close> and \<open>lower_hex\<close>.\<close>

definition lower_hex :: "nat \<Rightarrow> string \<Rightarrow> bool" where
  "lower_hex n s \<longleftrightarrow> length s = n \<and> list_all is_lower_hex_char s"

lemma lower_hex_length: "lower_hex n s \<Longrightarrow> length s = n"
  by (simp add: lower_hex_def)

lemma lower_hex_not_Nil: "lower_hex n s \<Longrightarrow> 0 < n \<Longrightarrow> s \<noteq> []"
  by (auto simp: lower_hex_def)

subsection \<open>Decimal notation\<close>

text \<open>\<open>strconv.FormatUint(n, 10)\<close> and the digit loop of \<open>strconv.ParseUint\<close>.\<close>

definition digit_char :: "nat \<Rightarrow> char" where
  "digit_char d = char_of (48 + d)"

fun format_uint :: "nat \<Rightarrow> string" where
  "format_uint n =
     (if n < 10 then [digit_char n] else format_uint (n div 10) @ [digit_char (n mod 10)])"

declare format_uint.simps [simp del]

definition is_digit :: "char \<Rightarrow> bool" where
  "is_digit c \<longleftrightarrow> 48 \<le> byte_of c \<and> byte_of c \<le> 57"

definition digits_value :: "string \<Rightarrow> nat" where
  "digits_value s = foldl (\<lambda>acc c. 10 * acc + (byte_of c - 48)) 0 s"

lemma digits_value_snoc:
  "digits_value (s @ [c]) = 10 * digits_value s + (byte_of c - 48)"
  by (simp add: digits_value_def)

lemma byte_of_digit_char: "d < 10 \<Longrightarrow> byte_of (digit_char d) = 48 + d"
  by (simp add: digit_char_def)

lemma is_digit_digit_char: "d < 10 \<Longrightarrow> is_digit (digit_char d)"
  by (simp add: is_digit_def byte_of_digit_char)

lemma digit_char_of_digit: "is_digit c \<Longrightarrow> digit_char (byte_of c - 48) = c"
  by (simp add: is_digit_def digit_char_def)

lemma digit_char_0: "digit_char 0 = CHR ''0''"
  by code_simp

lemma format_uint_digits: "list_all is_digit (format_uint n)"
  by (induction n rule: format_uint.induct)
    (subst format_uint.simps, simp add: is_digit_digit_char)

lemma digits_value_format_uint: "digits_value (format_uint n) = n"
proof (induction n rule: format_uint.induct)
  case (1 n)
  show ?case
  proof (cases "n < 10")
    case True
    then show ?thesis
      by (subst format_uint.simps) (simp add: digits_value_def byte_of_digit_char)
  next
    case False
    with 1 show ?thesis
      by (subst format_uint.simps) (simp add: digits_value_snoc byte_of_digit_char)
  qed
qed

lemma format_uint_not_Nil: "format_uint n \<noteq> []"
  by (subst format_uint.simps) simp

lemma format_uint_hd: "0 < n \<Longrightarrow> hd (format_uint n) \<noteq> CHR ''0''"
proof (induction n rule: format_uint.induct)
  case (1 n)
  show ?case
  proof (cases "n < 10")
    case True
    have "byte_of (digit_char n) = 48 + n" using True by (rule byte_of_digit_char)
    then have "digit_char n \<noteq> CHR ''0''" using 1(2) by auto
    with True show ?thesis by (subst format_uint.simps) simp
  next
    case False
    with 1 show ?thesis
      by (subst format_uint.simps) (simp add: format_uint_not_Nil)
  qed
qed

lemma digits_value_pos: "s \<noteq> [] \<Longrightarrow> list_all is_digit s \<Longrightarrow> hd s \<noteq> CHR ''0'' \<Longrightarrow> 0 < digits_value s"
proof (induction s rule: rev_induct)
  case Nil
  then show ?case by simp
next
  case (snoc c s)
  show ?case
  proof (cases s)
    case Nil
    with snoc.prems have "is_digit c" "c \<noteq> CHR ''0''" by simp_all
    from \<open>is_digit c\<close> have "digit_char (byte_of c - 48) = c" by (rule digit_char_of_digit)
    with \<open>c \<noteq> CHR ''0''\<close> have "digit_char (byte_of c - 48) \<noteq> digit_char 0"
      by (simp add: digit_char_0)
    then have "byte_of c - 48 \<noteq> 0" by metis
    with Nil \<open>is_digit c\<close> show ?thesis by (simp add: digits_value_def is_digit_def)
  next
    case (Cons a as)
    with snoc.prems have "s \<noteq> []" "list_all is_digit s" "hd s \<noteq> CHR ''0''" by simp_all
    with snoc.IH have "0 < digits_value s" by blast
    then show ?thesis by (simp add: digits_value_snoc)
  qed
qed

text \<open>A canonical decimal string is the notation of its value: no leading zero is lost.\<close>

lemma format_uint_digits_value:
  "s \<noteq> [] \<Longrightarrow> list_all is_digit s \<Longrightarrow> hd s \<noteq> CHR ''0'' \<Longrightarrow> format_uint (digits_value s) = s"
proof (induction s rule: rev_induct)
  case Nil
  then show ?case by simp
next
  case (snoc c s)
  have c: "is_digit c" using snoc.prems by simp
  then have d: "byte_of c - 48 < 10" unfolding is_digit_def by linarith
  show ?case
  proof (cases s)
    case Nil
    then have "digits_value (s @ [c]) = byte_of c - 48" by (simp add: digits_value_def)
    with d c Nil show ?thesis by (subst format_uint.simps) (simp add: digit_char_of_digit)
  next
    case (Cons a as)
    with snoc.prems have s: "s \<noteq> []" "list_all is_digit s" "hd s \<noteq> CHR ''0''" by simp_all
    then have pos: "0 < digits_value s" by (rule digits_value_pos)
    from snoc.IH s have IH: "format_uint (digits_value s) = s" by blast
    from pos d c IH show ?thesis
      by (subst format_uint.simps) (simp add: digits_value_snoc digit_char_of_digit)
  qed
qed

end
