(* ===== verification/Fq_Text.thy ===== *)
theory Fq_Text
  imports Fq_Base
begin

text \<open>
  The identity and text validators of \<open>internal/fairqueue/config.go\<close> (lines 195 to 326):
  resources, tenants, task types, task IDs, cursors, high-water marks, and the SHA-256
  names derived from them.  The digest itself (\<open>crypto/sha256\<close>) is the parameter \<open>H\<close>, the
  lower-case hex digest of a byte string.
\<close>

subsection \<open>UTF-8 and control characters\<close>

text \<open>
  \<open>utf8.ValidString\<close> together with \<open>for _, character := range value\<close>: the runes of a
  byte sequence, or \<open>None\<close> where it is not UTF-8 (overlong forms, surrogates and code
  points above U+10FFFF are invalid).
\<close>

definition utf8_cont :: "nat \<Rightarrow> bool" where
  "utf8_cont b \<longleftrightarrow> 128 \<le> b \<and> b \<le> 191"

definition utf8_second_ok :: "nat \<Rightarrow> nat \<Rightarrow> bool" where
  "utf8_second_ok b c \<longleftrightarrow>
     (if b = 224 then 160 \<le> c \<and> c \<le> 191
      else if b = 237 then 128 \<le> c \<and> c \<le> 159
      else if b = 240 then 144 \<le> c \<and> c \<le> 191
      else if b = 244 then 128 \<le> c \<and> c \<le> 143
      else utf8_cont c)"

fun utf8_runes :: "nat list \<Rightarrow> nat list option" where
  "utf8_runes [] = Some []"
| "utf8_runes (b # bs) =
     (if b < 128 then map_option (Cons b) (utf8_runes bs)
      else if 194 \<le> b \<and> b \<le> 223 then
        (case bs of
           c1 # r \<Rightarrow>
             (if utf8_cont c1
              then map_option (Cons ((b - 192) * 64 + (c1 - 128))) (utf8_runes r) else None)
         | _ \<Rightarrow> None)
      else if 224 \<le> b \<and> b \<le> 239 then
        (case bs of
           c1 # c2 # r \<Rightarrow>
             (if utf8_second_ok b c1 \<and> utf8_cont c2
              then map_option (Cons ((b - 224) * 4096 + (c1 - 128) * 64 + (c2 - 128)))
                     (utf8_runes r)
              else None)
         | _ \<Rightarrow> None)
      else if 240 \<le> b \<and> b \<le> 244 then
        (case bs of
           c1 # c2 # c3 # r \<Rightarrow>
             (if utf8_second_ok b c1 \<and> utf8_cont c2 \<and> utf8_cont c3
              then map_option (Cons ((b - 240) * 262144 + (c1 - 128) * 4096
                     + (c2 - 128) * 64 + (c3 - 128))) (utf8_runes r)
              else None)
         | _ \<Rightarrow> None)
      else None)"

definition runes :: "string \<Rightarrow> nat list option" where
  "runes s = utf8_runes (map byte_of s)"

definition valid_utf8 :: "string \<Rightarrow> bool" where
  "valid_utf8 s \<longleftrightarrow> runes s \<noteq> None"

text \<open>\<open>unicode.IsControl\<close>: category Cc, all of it in Latin-1.\<close>

definition is_control :: "nat \<Rightarrow> bool" where
  "is_control r \<longleftrightarrow> r < 32 \<or> (127 \<le> r \<and> r \<le> 159)"

text \<open>\<open>unicode.IsSpace\<close>, as \<open>strings.TrimSpace\<close> uses it.\<close>

definition is_space :: "nat \<Rightarrow> bool" where
  "is_space r \<longleftrightarrow> (9 \<le> r \<and> r \<le> 13) \<or> r = 32 \<or> r = 133 \<or> r = 160 \<or> r = 5760
     \<or> (8192 \<le> r \<and> r \<le> 8202) \<or> r = 8232 \<or> r = 8233 \<or> r = 8239 \<or> r = 8287 \<or> r = 12288"

text \<open>\<open>strings.TrimSpace(s) != s\<close> for valid UTF-8: the first or the last rune is a space.\<close>

definition has_surrounding_space :: "string \<Rightarrow> bool" where
  "has_surrounding_space s =
     (case runes s of
        Some (r # rs) \<Rightarrow> is_space r \<or> is_space (last (r # rs))
      | _ \<Rightarrow> False)"

lemma utf8_runes_ascii: "list_all (\<lambda>b. b < 128) bs \<Longrightarrow> utf8_runes bs = Some bs"
  by (induction bs) simp_all

text \<open>One decoding step: a rune is an ASCII byte or a group of bytes from 128 on.\<close>

lemma utf8_second_ok_cont: "utf8_second_ok b c \<Longrightarrow> 128 \<le> c"
  by (simp add: utf8_second_ok_def utf8_cont_def split: if_splits)

lemma utf8_runes_step:
  assumes "utf8_runes (b # bs) = Some rs"
  obtains p r x rs' where "b # bs = p @ r" "p \<noteq> []" "rs = x # rs'" "utf8_runes r = Some rs'"
    "(p = [b] \<and> x = b) \<or> (\<forall>y\<in>set p. 128 \<le> y)"
proof -
  consider "b < 128" | "194 \<le> b \<and> b \<le> 223" | "224 \<le> b \<and> b \<le> 239" | "240 \<le> b \<and> b \<le> 244"
    using assms by (cases "b < 128"; cases "194 \<le> b \<and> b \<le> 223";
        cases "224 \<le> b \<and> b \<le> 239"; cases "240 \<le> b \<and> b \<le> 244") simp_all
  then show ?thesis
  proof cases
    case 1
    with assms obtain rs' where "utf8_runes bs = Some rs'" "rs = b # rs'" by auto
    then show ?thesis using that [of "[b]" bs b rs'] by simp
  next
    case 2
    with assms obtain c1 r rs' x where "bs = c1 # r" "utf8_cont c1" "utf8_runes r = Some rs'" "rs = x # rs'"
      by (auto split: list.splits if_splits)
    with 2 show ?thesis using that [of "[b, c1]" r x rs'] by (simp add: utf8_cont_def)
  next
    case 3
    with assms obtain c1 c2 r rs' x where "bs = c1 # c2 # r" "utf8_second_ok b c1" "utf8_cont c2"
      "utf8_runes r = Some rs'" "rs = x # rs'"
      by (auto split: list.splits if_splits)
    with 3 show ?thesis using that [of "[b, c1, c2]" r x rs'] utf8_second_ok_cont
      by (simp add: utf8_cont_def)
  next
    case 4
    with assms obtain c1 c2 c3 r rs' x where "bs = c1 # c2 # c3 # r" "utf8_second_ok b c1"
      "utf8_cont c2" "utf8_cont c3" "utf8_runes r = Some rs'" "rs = x # rs'"
      by (auto split: list.splits if_splits)
    with 4 show ?thesis using that [of "[b, c1, c2, c3]" r x rs'] utf8_second_ok_cont
      by (simp add: utf8_cont_def)
  qed
qed

text \<open>A byte below 128 is a rune of its own wherever it stands in valid UTF-8.\<close>

lemma utf8_runes_ascii_member:
  "utf8_runes bs = Some rs \<Longrightarrow> b \<in> set bs \<Longrightarrow> b < 128 \<Longrightarrow> b \<in> set rs"
proof (induction bs arbitrary: rs rule: length_induct)
  case (1 bs)
  then obtain b' bs' where bs: "bs = b' # bs'" by (cases bs) auto
  from 1(2) [unfolded bs] obtain p r x rs' where step: "b' # bs' = p @ r" "p \<noteq> []" "rs = x # rs'"
    "utf8_runes r = Some rs'" "(p = [b'] \<and> x = b') \<or> (\<forall>y\<in>set p. 128 \<le> y)"
    by (rule utf8_runes_step)
  from step(1,2) bs have len: "length r < length bs"
    by (metis length_append length_greater_0_conv less_add_same_cancel2)
  have "b \<in> set p \<or> b \<in> set r" using 1(3) bs step(1) by (metis Un_iff set_append)
  then show ?case
  proof
    assume "b \<in> set p"
    with step(5) 1(4) have "b = x" by auto
    with step(3) show ?thesis by simp
  next
    assume "b \<in> set r"
    with 1(1) len step(4) 1(4) have "b \<in> set rs'" by blast
    with step(3) show ?thesis by simp
  qed
qed

subsection \<open>Bounded text\<close>

definition validate_bounded_text :: "string \<Rightarrow> nat \<Rightarrow> bool \<Rightarrow> goerr" where
  "validate_bounded_text value max_bytes allow_empty =
     first_err [
       fail_when ((\<not> allow_empty \<and> value = []) \<or> length value > max_bytes) plain_err,
       fail_when (\<not> valid_utf8 value) plain_err,
       fail_when (case runes value of None \<Rightarrow> False | Some rs \<Rightarrow> list_ex (\<lambda>r. r = 0 \<or> is_control r) rs)
         plain_err]"

definition max_resource_bytes :: nat where "max_resource_bytes = 120"
definition max_tenant_bytes :: nat where "max_tenant_bytes = 480"
definition max_task_id_bytes :: nat where "max_task_id_bytes = 128"
definition max_cursor_bytes :: nat where "max_cursor_bytes = 512"
definition max_high_water_bytes :: nat where "max_high_water_bytes = 191"
definition max_recovery_page_size :: int where "max_recovery_page_size = 10000"

lemmas text_bounds = max_resource_bytes_def max_tenant_bytes_def max_task_id_bytes_def
  max_cursor_bytes_def max_high_water_bytes_def max_recovery_page_size_def

lemma validate_bounded_text_None [validator_simps]:
  "validate_bounded_text v m e = None \<longleftrightarrow>
     (v = [] \<longrightarrow> e) \<and> length v \<le> m \<and> (\<exists>rs. runes v = Some rs \<and> list_all (\<lambda>r. \<not> is_control r) rs)"
  by (auto simp: validate_bounded_text_def valid_utf8_def list_all_iff list_ex_iff is_control_def
      split: option.splits)

lemma bounded_text_no_control:
  assumes "validate_bounded_text v m e = None" and "c \<in> set v" and "byte_of c < 128"
  shows "\<not> is_control (byte_of c)"
proof -
  from assms(1) obtain rs where rs: "utf8_runes (map byte_of v) = Some rs"
    and ok: "list_all (\<lambda>r. \<not> is_control r) rs"
    by (auto simp: validate_bounded_text_None runes_def)
  from assms(2) have "byte_of c \<in> set (map byte_of v)" by auto
  with rs assms(3) have "byte_of c \<in> set rs" by (blast intro: utf8_runes_ascii_member)
  with ok show ?thesis by (simp add: list_all_iff)
qed

lemma bounded_text_no_nul:
  assumes "validate_bounded_text v m e = None"
  shows "CHR 0x00 \<notin> set v"
  using bounded_text_no_control [OF assms, of "CHR 0x00"] by (auto simp: is_control_def)

subsection \<open>Canonical ASCII identifiers\<close>

definition is_alnum_lower :: "char \<Rightarrow> bool" where
  "is_alnum_lower c \<longleftrightarrow> is_digit c \<or> (97 \<le> byte_of c \<and> byte_of c \<le> 122)"

definition is_ident_char :: "char \<Rightarrow> bool" where
  "is_ident_char c \<longleftrightarrow> is_alnum_lower c \<or> c \<in> set ''._-''"

text \<open>\<open>resourcePattern\<close>: \<open>^[a-z0-9][a-z0-9._-]{0,119}$\<close>\<close>

definition resource_pattern :: "string \<Rightarrow> bool" where
  "resource_pattern s = (case s of
     [] \<Rightarrow> False
   | c # cs \<Rightarrow> is_alnum_lower c \<and> length cs \<le> 119 \<and> list_all is_ident_char cs)"

text \<open>\<open>taskTypePattern\<close>: \<open>^[a-z][a-z0-9._-]{0,63}$\<close>\<close>

definition task_type_pattern :: "string \<Rightarrow> bool" where
  "task_type_pattern s = (case s of
     [] \<Rightarrow> False
   | c # cs \<Rightarrow> 97 \<le> byte_of c \<and> byte_of c \<le> 122 \<and> length cs \<le> 63 \<and> list_all is_ident_char cs)"

definition validate_resource :: "string \<Rightarrow> goerr" where
  "validate_resource r =
     fail_when (length r = 0 \<or> length r > max_resource_bytes \<or> \<not> resource_pattern r) plain_err"

definition validate_tenant_id :: "string \<Rightarrow> goerr" where
  "validate_tenant_id t = validate_bounded_text t max_tenant_bytes False"

definition validate_task_type :: "string \<Rightarrow> goerr" where
  "validate_task_type t = fail_when (\<not> task_type_pattern t) plain_err"

definition validate_task_id_shape :: "string \<Rightarrow> goerr" where
  "validate_task_id_shape t = validate_bounded_text t max_task_id_bytes False"

definition validate_task_id :: "string \<Rightarrow> goerr" where
  "validate_task_id t = validate_task_id_shape t"

definition validate_page_limit :: "int \<Rightarrow> goerr" where
  "validate_page_limit n = fail_when (n \<le> 0 \<or> n > max_recovery_page_size) plain_err"

definition validate_cursor :: "string \<Rightarrow> goerr" where
  "validate_cursor c = validate_bounded_text c max_cursor_bytes True"

definition validate_high_water :: "string \<Rightarrow> goerr" where
  "validate_high_water h =
     first_err [
       validate_bounded_text h max_high_water_bytes False,
       fail_when (has_surrounding_space h) plain_err,
       fail_when (list_ex (\<lambda>c. byte_of c < 32 \<or> byte_of c > 126) h) plain_err]"

text \<open>
  \<open>ValidateRAGIndexTaskID\<close>: the shape, no leading zero, digits only, and
  \<open>strconv.ParseUint(taskID, 10, 63)\<close>, which fails from \<open>2 ^ 63\<close> on.
\<close>

definition max_int64 :: nat where "max_int64 = 9223372036854775807"

definition parse_uint63 :: "string \<Rightarrow> nat option" where
  "parse_uint63 s = (if digits_value s < 2 ^ 63 then Some (digits_value s) else None)"

definition validate_rag_index_task_id :: "string \<Rightarrow> bool" where
  "validate_rag_index_task_id t =
     (if validate_task_id_shape t \<noteq> None \<or> t = ''0'' \<or> hd t = CHR ''0'' then False
      else if \<not> list_all is_digit t then False
      else case parse_uint63 t of
             None \<Rightarrow> False
           | Some v \<Rightarrow> v > 0 \<and> v \<le> max_int64)"

lemma validate_resource_None [validator_simps]:
  "validate_resource r = None \<longleftrightarrow> resource_pattern r"
  by (auto simp: validate_resource_def resource_pattern_def text_bounds split: list.splits)

lemma is_ident_char_no_nul: "is_ident_char c \<Longrightarrow> c \<noteq> CHR 0x00"
  by (auto simp: is_ident_char_def is_alnum_lower_def is_digit_def)

lemma validate_resource_no_nul:
  assumes "validate_resource r = None"
  shows "CHR 0x00 \<notin> set r"
proof -
  from assms obtain c cs where r: "r = c # cs" and "is_alnum_lower c" and "list_all is_ident_char cs"
    by (auto simp: validate_resource_None resource_pattern_def split: list.splits)
  then have "list_all is_ident_char r" by (simp add: is_ident_char_def)
  then show ?thesis using is_ident_char_no_nul by (auto simp: list_all_iff)
qed

end
