(* ===== verification/Fq_Names.thy ===== *)
theory Fq_Names
  imports Fq_Text
begin

text \<open>
  Names derived from identities (\<open>config.go\<close>, lines 277 to 326) and the Lua twin of the
  high-water validator (\<open>redis.go\<close>, lines 62 to 70).  The Go digest \<open>crypto/sha256\<close> is
  the parameter \<open>H :: string \<Rightarrow> string\<close>: the lower-case hex digest of its argument.
\<close>

subsection \<open>Digest names\<close>

definition tenant_hash :: "(string \<Rightarrow> string) \<Rightarrow> string \<Rightarrow> string \<Rightarrow> string result" where
  "tenant_hash H resource tenant =
     check_err (validate_resource resource)
       (check_err (validate_tenant_id tenant)
         (Inr (H (resource @ [CHR 0x00] @ tenant))))"

definition tenant_queue_name :: "(string \<Rightarrow> string) \<Rightarrow> string \<Rightarrow> string \<Rightarrow> string result" where
  "tenant_queue_name H resource tenant =
     (case tenant_hash H resource tenant of
        Inl e \<Rightarrow> Inl e
      | Inr h \<Rightarrow> Inr (''bkcrab.fair.q.'' @ resource @ ''.'' @ h))"

definition tenant_routing_key :: "(string \<Rightarrow> string) \<Rightarrow> string \<Rightarrow> string \<Rightarrow> string result" where
  "tenant_routing_key H resource tenant =
     (case tenant_hash H resource tenant of
        Inl e \<Rightarrow> Inl e
      | Inr h \<Rightarrow> Inr (resource @ ''.'' @ h))"

definition dead_letter_queue_name :: "string \<Rightarrow> string result" where
  "dead_letter_queue_name resource =
     check_err (validate_resource resource) (Inr (''bkcrab.fair.dlq.'' @ resource))"

definition stable_reservation_token ::
  "(string \<Rightarrow> string) \<Rightarrow> string \<Rightarrow> string \<Rightarrow> 64 word \<Rightarrow> string result" where
  "stable_reservation_token H resource task_id claim_generation =
     check_err (validate_resource resource)
       (check_err (validate_task_id_shape task_id)
         (check_err
            (fail_when (claim_generation = 0 \<or> unat claim_generation > max_int64) plain_err)
            (Inr (''r:'' @ H (resource @ [CHR 0x00] @ task_id @ [CHR 0x00]
                                @ format_uint (unat claim_generation))))))"

text \<open>\<open>stableReservationPattern\<close>: \<open>^r:[0-9a-f]{64}$\<close>\<close>

definition stable_reservation_pattern :: "string \<Rightarrow> bool" where
  "stable_reservation_pattern s \<longleftrightarrow> take 2 s = ''r:'' \<and> lower_hex 64 (drop 2 s)"

text \<open>The bytes that are digested.\<close>

definition tenant_preimage :: "string \<Rightarrow> string \<Rightarrow> string" where
  "tenant_preimage resource tenant = resource @ CHR 0x00 # tenant"

definition stable_preimage :: "string \<Rightarrow> string \<Rightarrow> 64 word \<Rightarrow> string" where
  "stable_preimage resource task_id g =
     resource @ CHR 0x00 # task_id @ CHR 0x00 # format_uint (unat g)"

lemma tenant_hash_Inr [validator_simps]:
  "tenant_hash H r t = Inr h \<longleftrightarrow>
     validate_resource r = None \<and> validate_tenant_id t = None \<and> h = H (tenant_preimage r t)"
  by (auto simp: tenant_hash_def tenant_preimage_def)

lemma stable_reservation_token_Inr [validator_simps]:
  "stable_reservation_token H r t g = Inr tok \<longleftrightarrow>
     validate_resource r = None \<and> validate_task_id_shape t = None \<and> g \<noteq> 0 \<and> unat g \<le> max_int64
     \<and> tok = ''r:'' @ H (stable_preimage r t g)"
  by (auto simp: stable_reservation_token_def stable_preimage_def)

lemma tenant_preimage_inject:
  assumes "validate_resource r = None" and "validate_resource r' = None"
    and "tenant_preimage r t = tenant_preimage r' t'"
  shows "r = r' \<and> t = t'"
  using assms(3) validate_resource_no_nul [OF assms(1)] validate_resource_no_nul [OF assms(2)]
  by (simp add: tenant_preimage_def append_sep_inject)

lemma format_uint_inject: "format_uint m = format_uint n \<longleftrightarrow> m = n"
  by (metis digits_value_format_uint)

lemma stable_preimage_inject:
  assumes "validate_resource r = None" and "validate_resource r' = None"
    and "validate_task_id_shape t = None" and "validate_task_id_shape t' = None"
    and "stable_preimage r t g = stable_preimage r' t' g'"
  shows "r = r' \<and> t = t' \<and> g = g'"
proof -
  have t: "CHR 0x00 \<notin> set t" "CHR 0x00 \<notin> set t'"
    using assms(3,4) by (auto simp: validate_task_id_shape_def dest: bounded_text_no_nul)
  from assms(5) validate_resource_no_nul [OF assms(1)] validate_resource_no_nul [OF assms(2)]
  have "r = r'" and
    rest: "t @ CHR 0x00 # format_uint (unat g) = t' @ CHR 0x00 # format_uint (unat g')"
    by (simp_all add: stable_preimage_def append_sep_inject)
  from rest t have "t = t'" and "format_uint (unat g) = format_uint (unat g')"
    by (simp_all add: append_sep_inject)
  then show ?thesis using \<open>r = r'\<close> by (simp add: format_uint_inject word_unat_eq_iff)
qed

text \<open>A stable reservation token names exactly one claim. Two accepted claims (resource,
  task ID, claim generation) that get the same token are the same claim, unless SHA-256
  collides on their two encodings; and a token built from a 64-digit digest always matches
  the token pattern that the coordinator's operations require.\<close>

theorem stable_token_identifies_claim:
  assumes "stable_reservation_token H r t g = Inr tok"
    and "stable_reservation_token H r' t' g' = Inr tok'"
    and "inj_on H {stable_preimage r t g, stable_preimage r' t' g'}"
    and "lower_hex 64 (H (stable_preimage r t g))"
  shows "(tok = tok' \<longleftrightarrow> r = r' \<and> t = t' \<and> g = g') \<and> stable_reservation_pattern tok"
proof -
  note v = assms(1,2) [unfolded stable_reservation_token_Inr]
  have "H (stable_preimage r t g) = H (stable_preimage r' t' g') \<longleftrightarrow>
      stable_preimage r t g = stable_preimage r' t' g'"
    by (rule inj_on_eq_iff [OF assms(3)]) simp_all
  with v have "tok = tok' \<longleftrightarrow> stable_preimage r t g = stable_preimage r' t' g'" by simp
  moreover have "stable_preimage r t g = stable_preimage r' t' g' \<longleftrightarrow> r = r' \<and> t = t' \<and> g = g'"
    using stable_preimage_inject [of r r' t t' g g'] v by metis
  moreover have "stable_reservation_pattern tok"
    using conjunct2 [OF conjunct2 [OF conjunct2 [OF conjunct2 [OF v(1)]]]] assms(4)
    by (simp add: stable_reservation_pattern_def)
  ultimately show ?thesis by simp
qed

subsection \<open>High-water marks: Go and Lua\<close>

text \<open>The Lua validator \<open>fq_high_water\<close> that every recovery script applies to stored marks.\<close>

definition lua_fq_high_water :: "string \<Rightarrow> bool" where
  "lua_fq_high_water value =
     (if length value > 191 then False
      else if value \<noteq> [] \<and> (byte_of (hd value) = 32 \<or> byte_of (last value) = 32) then False
      else list_all (\<lambda>c. \<not> (byte_of c < 32 \<or> byte_of c > 126)) value)"

lemma printable_runes:
  assumes "list_all (\<lambda>c. 32 \<le> byte_of c \<and> byte_of c \<le> 126) s"
  shows "runes s = Some (map byte_of s)"
  using assms unfolding runes_def
  by (intro utf8_runes_ascii) (auto simp: list_all_iff)

lemma printable_not_control:
  "list_all (\<lambda>c. 32 \<le> byte_of c \<and> byte_of c \<le> 126) s \<Longrightarrow>
   list_all (\<lambda>r. \<not> is_control r) (map byte_of s)"
  by (auto simp: list_all_iff is_control_def)

lemma printable_surrounding_space:
  assumes "list_all (\<lambda>c. 32 \<le> byte_of c \<and> byte_of c \<le> 126) s"
  shows "has_surrounding_space s \<longleftrightarrow> s \<noteq> [] \<and> (byte_of (hd s) = 32 \<or> byte_of (last s) = 32)"
proof (cases s)
  case Nil
  then show ?thesis by (simp add: has_surrounding_space_def runes_def)
next
  case (Cons c cs)
  have sp: "is_space r \<longleftrightarrow> r = 32" if "32 \<le> r" "r \<le> 126" for r :: nat
    using that by (auto simp: is_space_def)
  have "32 \<le> byte_of (last s) \<and> byte_of (last s) \<le> 126"
    using assms Cons by (metis last_in_set list.discI list_all_iff)
  moreover have "32 \<le> byte_of c \<and> byte_of c \<le> 126" using assms Cons by simp
  moreover have "last (byte_of c # map byte_of cs) = byte_of (last s)"
    using Cons by (simp add: last_map)
  moreover have "has_surrounding_space s \<longleftrightarrow> is_space (byte_of c)
      \<or> is_space (last (byte_of c # map byte_of cs))"
    using printable_runes [OF assms] Cons by (simp add: has_surrounding_space_def)
  ultimately show ?thesis using sp Cons by simp
qed

text \<open>The Go validator \<open>ValidateHighWater\<close> and the Lua validator \<open>fq_high_water\<close> accept the
  same non-empty marks, so a mark the journal stores is never refused by a script as
  corrupt, and the only other mark Lua accepts is the empty, not yet captured one.\<close>

theorem high_water_go_lua_agree:
  "validate_high_water h = None \<longleftrightarrow> lua_fq_high_water h \<and> h \<noteq> []"
proof -
  let ?print = "list_all (\<lambda>c. 32 \<le> byte_of c \<and> byte_of c \<le> 126) h"
  have ex: "list_ex (\<lambda>c. byte_of c < 32 \<or> byte_of c > 126) h \<longleftrightarrow> \<not> ?print"
    by (auto simp: list_ex_iff list_all_iff not_le)
  have lua: "lua_fq_high_water h \<longleftrightarrow> length h \<le> 191 \<and> ?print
      \<and> \<not> (h \<noteq> [] \<and> (byte_of (hd h) = 32 \<or> byte_of (last h) = 32))"
    by (auto simp: lua_fq_high_water_def list_all_iff not_less)
  show ?thesis
  proof (cases ?print)
    case True
    then show ?thesis
      using printable_runes [OF True] printable_not_control [OF True]
        printable_surrounding_space [OF True]
      by (auto simp: validate_high_water_def lua ex validate_bounded_text_None text_bounds)
  next
    case False
    then show ?thesis by (simp add: validate_high_water_def lua ex)
  qed
qed

subsection \<open>Index task IDs\<close>

lemma format_uint_length: "n < 10 ^ k \<Longrightarrow> 0 < k \<Longrightarrow> length (format_uint n) \<le> k"
proof (induction k arbitrary: n)
  case 0
  then show ?case by simp
next
  case (Suc k)
  show ?case
  proof (cases "n < 10")
    case True
    then show ?thesis by (subst format_uint.simps) simp
  next
    case False
    with Suc.prems have k: "0 < k" by (cases k) simp_all
    have "n div 10 < 10 ^ k" using Suc.prems(1) by (simp add: less_mult_imp_div_less mult.commute)
    with Suc.IH k have "length (format_uint (n div 10)) \<le> k" by blast
    with False show ?thesis by (subst format_uint.simps) simp
  qed
qed

lemma digits_printable: "list_all is_digit s \<Longrightarrow> list_all (\<lambda>c. 32 \<le> byte_of c \<and> byte_of c \<le> 126) s"
  by (auto simp: list_all_iff is_digit_def)

lemma decimal_task_id_shape:
  assumes "n \<le> max_int64"
  shows "validate_task_id_shape (format_uint n) = None"
proof -
  note p = digits_printable [OF format_uint_digits [of n]]
  have "n < 10 ^ 19" using assms by (simp add: max_int64_def)
  then have "length (format_uint n) \<le> 19" by (rule format_uint_length) simp
  then show ?thesis
    using printable_runes [OF p] printable_not_control [OF p]
    by (simp add: validate_task_id_shape_def validate_bounded_text_None text_bounds format_uint_not_Nil)
qed

text \<open>\<open>ValidateRAGIndexTaskID\<close> accepts exactly the canonical base-10 notation of the
  positive signed BIGINT values: every such number's notation is accepted, and an accepted
  string is the notation of its value.\<close>

theorem rag_index_task_id_canonical:
  "validate_rag_index_task_id s \<longleftrightarrow> (\<exists>n. 1 \<le> n \<and> n \<le> max_int64 \<and> s = format_uint n)"
proof
  assume ok: "validate_rag_index_task_id s"
  then have s: "s \<noteq> []" "list_all is_digit s" "hd s \<noteq> CHR ''0''"
    and v: "digits_value s < 2 ^ 63" "0 < digits_value s"
    by (auto simp: validate_rag_index_task_id_def validate_task_id_shape_def parse_uint63_def
        validate_bounded_text_None split: if_splits)
  from s have "s = format_uint (digits_value s)" by (simp add: format_uint_digits_value)
  moreover from v have "1 \<le> digits_value s" "digits_value s \<le> max_int64"
    by (simp_all add: max_int64_def)
  ultimately show "\<exists>n. 1 \<le> n \<and> n \<le> max_int64 \<and> s = format_uint n" by blast
next
  assume "\<exists>n. 1 \<le> n \<and> n \<le> max_int64 \<and> s = format_uint n"
  then obtain n where n: "1 \<le> n" "n \<le> max_int64" and s: "s = format_uint n" by blast
  have d: "list_all is_digit s" by (simp add: s format_uint_digits)
  have hd: "hd s \<noteq> CHR ''0''" using n format_uint_hd [of n] by (simp add: s)
  have val: "digits_value s = n" by (simp add: s digits_value_format_uint)
  have shape: "validate_task_id_shape s = None"
    using n s by (simp add: decimal_task_id_shape)
  show "validate_rag_index_task_id s"
    using d hd val shape n
    by (auto simp: validate_rag_index_task_id_def parse_uint63_def max_int64_def)
qed

subsection \<open>Witness\<close>

text \<open>A digest that separates the two encodings at hand.\<close>

definition sample_digest :: "string \<Rightarrow> string" where
  "sample_digest s = replicate 64 (if last s = CHR ''1'' then CHR ''a'' else CHR ''b'')"

lemma sample_shapes:
  "validate_resource ''rag-index'' = None" "validate_task_id_shape ''7'' = None"
  by (simp_all add: validate_resource_None resource_pattern_def is_alnum_lower_def is_digit_def
      is_ident_char_def validate_task_id_shape_def validate_bounded_text_None text_bounds
      runes_def is_control_def)

theorem stable_token_identifies_claim_witness:
  "\<exists>tok tok'. stable_reservation_token sample_digest ''rag-index'' ''7'' 1 = Inr tok
     \<and> stable_reservation_token sample_digest ''rag-index'' ''7'' 2 = Inr tok'
     \<and> tok \<noteq> tok' \<and> stable_reservation_pattern tok"
proof -
  let ?p = "stable_preimage ''rag-index'' ''7'' 1" and ?q = "stable_preimage ''rag-index'' ''7'' 2"
  have p: "format_uint 1 = ''1''" "format_uint (Suc 0) = ''1''" "format_uint 2 = ''2''" by code_simp+
  have dp: "sample_digest ?p = replicate 64 CHR ''a''" and dq: "sample_digest ?q = replicate 64 CHR ''b''"
    by (simp_all add: sample_digest_def stable_preimage_def p)
  have t1: "stable_reservation_token sample_digest ''rag-index'' ''7'' 1 = Inr (''r:'' @ sample_digest ?p)"
    and t2: "stable_reservation_token sample_digest ''rag-index'' ''7'' 2 = Inr (''r:'' @ sample_digest ?q)"
    by (simp_all add: stable_reservation_token_Inr sample_shapes max_int64_def)
  have inj: "inj_on sample_digest {?p, ?q}"
    unfolding inj_on_def by (auto simp: dp dq)
  have hex: "lower_hex 64 (sample_digest ?p)"
    by (simp add: dp lower_hex_def is_lower_hex_char_def list_all_iff)
  show ?thesis
    using stable_token_identifies_claim [OF t1 t2 inj hex] t1 t2 by (simp add: dp dq)
qed

end
