(* ===== verification/Fq_Config.thy ===== *)
theory Fq_Config
  imports Fq_Names
begin

text \<open>
  Capacity limits, resource configuration and the resource registry (\<open>config.go\<close>, lines 38
  to 194), and the reservation decision (\<open>policy.go\<close>).  Go's \<open>int\<close> and \<open>time.Duration\<close>
  are 64-bit; the code here only compares them, so they are \<^typ>\<open>int\<close>.  Durations are in
  nanoseconds.
\<close>

subsection \<open>Capacity limits\<close>

record capacity_limits =
  global_concurrency :: int
  per_user_base :: int
  per_user_burst :: int
  borrow_enabled :: bool

definition validate_limits :: "capacity_limits \<Rightarrow> goerr" where
  "validate_limits l =
     first_err [
       fail_when (global_concurrency l \<le> 0) plain_err,
       fail_when (per_user_base l \<le> 0) plain_err,
       fail_when (per_user_burst l \<le> 0) plain_err,
       fail_when (per_user_base l > per_user_burst l) plain_err,
       fail_when (per_user_burst l > global_concurrency l) plain_err]"

lemma validate_limits_None [validator_simps]:
  "validate_limits l = None \<longleftrightarrow>
     0 < per_user_base l \<and> per_user_base l \<le> per_user_burst l
     \<and> per_user_burst l \<le> global_concurrency l"
  by (auto simp: validate_limits_def)

subsection \<open>Resource configuration\<close>

definition max_resource_duration :: int where
  "max_resource_duration = 24 * 3600 * 1000000000"

text \<open>\<open>ValidateTaskID\<close> is the registered validator function, nil when absent.\<close>

record resource_config =
  rc_key :: string
  rc_validate_task_id :: "(string \<Rightarrow> bool) option"
  local_workers :: int
  rc_global :: int
  rc_base :: int
  rc_burst :: int
  rc_borrow :: bool
  reconcile_interval :: int
  expired_running_sweep_interval :: int
  reconcile_page_size :: int
  reservation_ttl :: int
  reservation_heartbeat :: int
  prepare_timeout :: int
  provisional_ttl :: int
  processing_turn_ttl :: int
  recovery_drain_timeout :: int
  dispatch_interval :: int
  publish_attempt_timeout :: int

definition capacity_limits_of :: "resource_config \<Rightarrow> capacity_limits" where
  "capacity_limits_of c = \<lparr> global_concurrency = rc_global c, per_user_base = rc_base c,
     per_user_burst = rc_burst c, borrow_enabled = rc_borrow c \<rparr>"

definition duration_ok :: "int \<Rightarrow> goerr" where
  "duration_ok d = fail_when (d \<le> 0 \<or> d > max_resource_duration) plain_err"

lemma duration_ok_None [validator_simps]: "duration_ok d = None \<longleftrightarrow> 0 < d \<and> d \<le> max_resource_duration"
  by (auto simp: duration_ok_def)

definition validate_resource_config :: "resource_config \<Rightarrow> goerr" where
  "validate_resource_config c =
     first_err ([
       validate_resource (rc_key c),
       fail_when (rc_validate_task_id c = None) plain_err,
       fail_when (local_workers c \<le> 0) plain_err,
       validate_limits (capacity_limits_of c),
       validate_page_limit (reconcile_page_size c)]
     @ map duration_ok [
         reconcile_interval c, expired_running_sweep_interval c, reservation_ttl c,
         reservation_heartbeat c, prepare_timeout c, provisional_ttl c, processing_turn_ttl c,
         recovery_drain_timeout c, dispatch_interval c, publish_attempt_timeout c]
     @ [fail_when (reservation_heartbeat c \<ge> reservation_ttl c) plain_err,
       fail_when (prepare_timeout c \<ge> provisional_ttl c) plain_err,
       fail_when (provisional_ttl c \<ge> recovery_drain_timeout c) plain_err,
       fail_when (processing_turn_ttl c \<ge> recovery_drain_timeout c) plain_err,
       fail_when (publish_attempt_timeout c \<ge> recovery_drain_timeout c) plain_err])"

text \<open>The facts of an accepted configuration that the scheduler and the runtime rely on.\<close>

lemma validate_resource_configD:
  assumes "validate_resource_config c = None"
  shows "validate_resource (rc_key c) = None" and "rc_validate_task_id c \<noteq> None"
    and "0 < local_workers c" and "validate_limits (capacity_limits_of c) = None"
    and "0 < prepare_timeout c" and "prepare_timeout c < provisional_ttl c"
    and "provisional_ttl c < recovery_drain_timeout c"
    and "processing_turn_ttl c < recovery_drain_timeout c"
    and "publish_attempt_timeout c < recovery_drain_timeout c"
    and "recovery_drain_timeout c \<le> max_resource_duration"
    and "reservation_heartbeat c < reservation_ttl c"
    and "0 < publish_attempt_timeout c" and "0 < processing_turn_ttl c" and "0 < provisional_ttl c"
    and "0 < reservation_ttl c" and "reservation_ttl c \<le> max_resource_duration"
  using assms by (auto simp: validate_resource_config_def duration_ok_None)

subsection \<open>Registry\<close>

type_synonym registry = "string \<rightharpoonup> resource_config"

fun registry_add :: "registry \<Rightarrow> resource_config list \<Rightarrow> registry result" where
  "registry_add m [] = Inr m"
| "registry_add m (c # cs) =
     check_err (validate_resource_config c)
       (if m (rc_key c) \<noteq> None then Inl [] else registry_add (m(rc_key c \<mapsto> c)) cs)"

definition new_registry :: "resource_config list \<Rightarrow> registry result" where
  "new_registry cs = registry_add Map.empty cs"

definition registry_lookup :: "registry option \<Rightarrow> string \<Rightarrow> resource_config option" where
  "registry_lookup r k = (case r of None \<Rightarrow> None | Some m \<Rightarrow> m k)"

lemma map_add_keyed:
  "k \<notin> f ` set cs \<Longrightarrow>
   m(k \<mapsto> c) ++ map_of (map (\<lambda>c. (f c, c)) cs) = (m ++ map_of (map (\<lambda>c. (f c, c)) cs))(k \<mapsto> c)"
  by (rule map_add_upd_left) (auto simp: dom_map_of_conv_image_fst)

lemma registry_add_Inr:
  "registry_add m cs = Inr m' \<longleftrightarrow>
     list_all (\<lambda>c. validate_resource_config c = None) cs \<and> distinct (map rc_key cs)
     \<and> (\<forall>c\<in>set cs. m (rc_key c) = None) \<and> m' = m ++ map_of (map (\<lambda>c. (rc_key c, c)) cs)"
proof (induction cs arbitrary: m)
  case Nil
  then show ?case by auto
next
  case (Cons c cs)
  show ?case
  proof (cases "rc_key c \<in> rc_key ` set cs")
    case True
    then obtain c' where "c' \<in> set cs" "rc_key c' = rc_key c" by auto
    then have "\<not> (\<forall>x\<in>set cs. (m(rc_key c \<mapsto> c)) (rc_key x) = None)" by force
    then have "registry_add (m(rc_key c \<mapsto> c)) cs \<noteq> Inr m'" unfolding Cons.IH by blast
    with True show ?thesis by simp
  next
    case False
    then have "rc_key x \<noteq> rc_key c" if "x \<in> set cs" for x
      using that by (metis image_eqI)
    then have others: "(\<forall>x\<in>set cs. (m(rc_key c \<mapsto> c)) (rc_key x) = None)
        \<longleftrightarrow> (\<forall>x\<in>set cs. m (rc_key x) = None)" by simp
    define R where "R = m ++ map_of (map (\<lambda>c. (rc_key c, c)) (c # cs))"
    have eq: "m(rc_key c \<mapsto> c) ++ map_of (map (\<lambda>c. (rc_key c, c)) cs) = R"
      unfolding R_def by (simp add: map_add_keyed [OF False])
    have "registry_add m (c # cs) = Inr m' \<longleftrightarrow> validate_resource_config c = None
        \<and> m (rc_key c) = None \<and> registry_add (m(rc_key c \<mapsto> c)) cs = Inr m'" by simp
    also have "\<dots> \<longleftrightarrow> validate_resource_config c = None \<and> m (rc_key c) = None
        \<and> list_all (\<lambda>c. validate_resource_config c = None) cs \<and> distinct (map rc_key cs)
        \<and> (\<forall>x\<in>set cs. m (rc_key x) = None) \<and> m' = R" by (simp only: Cons.IH others eq)
    finally show ?thesis unfolding R_def [symmetric] using False by auto
  qed
qed

text \<open>\<open>NewRegistry\<close> succeeds exactly on valid configurations with pairwise distinct keys,
  and the registry then looks up each of them under its key and nothing else.\<close>

theorem new_registry_lookup:
  "new_registry cs = Inr m \<longleftrightarrow>
     list_all (\<lambda>c. validate_resource_config c = None) cs \<and> distinct (map rc_key cs)
     \<and> (\<forall>k. registry_lookup (Some m) k = List.find (\<lambda>c. rc_key c = k) cs)"
proof -
  have find: "map_of (map (\<lambda>c. (rc_key c, c)) cs) k = List.find (\<lambda>c. rc_key c = k) cs" for k
    by (induction cs) auto
  show ?thesis
    by (auto simp: new_registry_def registry_add_Inr registry_lookup_def find fun_eq_iff)
qed

subsection \<open>The reservation decision\<close>

record capacity_snapshot =
  global_count :: int
  tenant_count :: int
  active_tenants :: int

datatype decision =
    Regular | Borrowed | DeniedGlobalFull | DeniedTenantBurst | DeniedCompetition | DeniedBorrowOff

definition granted :: "decision \<Rightarrow> bool" where
  "granted d \<longleftrightarrow> d = Regular \<or> d = Borrowed"

definition decide_reservation :: "capacity_limits \<Rightarrow> capacity_snapshot \<Rightarrow> decision result" where
  "decide_reservation limits snap =
     check_err (validate_limits limits)
       (if global_count snap < 0 \<or> tenant_count snap < 0 then Inl []
        else if tenant_count snap > global_count snap then Inl []
        else if active_tenants snap \<le> 0 then Inl []
        else if global_count snap \<ge> global_concurrency limits then Inr DeniedGlobalFull
        else if tenant_count snap \<ge> per_user_burst limits then Inr DeniedTenantBurst
        else if tenant_count snap < per_user_base limits then Inr Regular
        else if \<not> borrow_enabled limits then Inr DeniedBorrowOff
        else if active_tenants snap = 1 then Inr Borrowed
        else Inr DeniedCompetition)"

text \<open>What the reservation policy promises. On valid limits and a consistent snapshot it
  always decides; a grant keeps both the global and the tenant count within their limits
  after the reservation is taken; a tenant below its base share is refused only when the
  resource is globally full; and capacity above the base share is lent only to a tenant that
  is alone and only when borrowing is on.\<close>

theorem decide_reservation_contract:
  assumes "validate_limits limits = None"
    and "0 \<le> tenant_count snap" and "tenant_count snap \<le> global_count snap"
    and "1 \<le> active_tenants snap"
  shows "\<exists>d. decide_reservation limits snap = Inr d
    \<and> (granted d \<longrightarrow> global_count snap + 1 \<le> global_concurrency limits
                    \<and> tenant_count snap + 1 \<le> per_user_burst limits)
    \<and> (tenant_count snap < per_user_base limits \<longrightarrow>
         (if global_count snap < global_concurrency limits then d = Regular else d = DeniedGlobalFull))
    \<and> (d = Borrowed \<longleftrightarrow> borrow_enabled limits \<and> active_tenants snap = 1
         \<and> per_user_base limits \<le> tenant_count snap \<and> tenant_count snap < per_user_burst limits
         \<and> global_count snap < global_concurrency limits)"
  using assms(2-4) assms(1) [unfolded validate_limits_None]
  by (auto simp: decide_reservation_def granted_def assms(1))

theorem decide_reservation_contract_witness:
  "decide_reservation
     \<lparr> global_concurrency = 4, per_user_base = 1, per_user_burst = 3, borrow_enabled = True \<rparr>
     \<lparr> global_count = 2, tenant_count = 1, active_tenants = 1 \<rparr> = Inr Borrowed"
proof -
  let ?l = "\<lparr> global_concurrency = 4, per_user_base = 1, per_user_burst = 3, borrow_enabled = True \<rparr>"
  let ?s = "\<lparr> global_count = 2, tenant_count = 1, active_tenants = 1 \<rparr>"
  have h: "validate_limits ?l = None" by (simp add: validate_limits_None)
  show ?thesis using decide_reservation_contract [OF h, of ?s] by auto
qed

end
