(* ===== verification/Fq_Message.thy ===== *)
theory Fq_Message
  imports Fq_Config
begin

text \<open>
  The wire identity of \<open>model.go\<close> (lines 68 to 320): dispatch tokens, messages, the strict
  decoder with its duplicate-field walk, stable header facts and dispatch candidates.
  The JSON grammar itself is \<open>encoding/json\<close>: the parameter
  \<open>J :: string \<Rightarrow> json list option\<close> gives the sequence of top-level values of a text, or
  \<open>None\<close> for a syntax error.
\<close>

subsection \<open>Tokens and messages\<close>

record dispatch_token =
  dt_resource :: string
  dt_task_id :: string
  dt_generation :: "64 word"

definition validate_dispatch_token :: "dispatch_token \<Rightarrow> goerr" where
  "validate_dispatch_token t =
     first_err [
       as_sentinel ErrInvalidMessage (validate_resource (dt_resource t)),
       as_sentinel ErrInvalidMessage (validate_task_id (dt_task_id t)),
       fail_when (dt_generation t = 0 \<or> unat (dt_generation t) > max_int64) (wraps ErrInvalidMessage)]"

record message =
  msg_version :: int
  msg_resource :: string
  msg_tenant :: string
  msg_task_type :: string
  msg_task_id :: string
  msg_token :: dispatch_token

definition validate_message :: "message \<Rightarrow> goerr" where
  "validate_message m =
     first_err [
       fail_when (msg_version m \<noteq> 1) (wraps ErrInvalidMessage),
       as_sentinel ErrInvalidMessage (validate_resource (msg_resource m)),
       as_sentinel ErrInvalidMessage (validate_tenant_id (msg_tenant m)),
       as_sentinel ErrInvalidMessage (validate_task_type (msg_task_type m)),
       as_sentinel ErrInvalidMessage (validate_task_id (msg_task_id m)),
       validate_dispatch_token (msg_token m),
       fail_when (dt_resource (msg_token m) \<noteq> msg_resource m \<or> dt_task_id (msg_token m) \<noteq> msg_task_id m)
         (wraps ErrInvalidMessage)]"

definition registry_validate_message :: "registry option \<Rightarrow> message \<Rightarrow> goerr" where
  "registry_validate_message r m =
     (case validate_message m of
        Some e \<Rightarrow> Some e
      | None \<Rightarrow>
          (case registry_lookup r (msg_resource m) of
             None \<Rightarrow> plain_err
           | Some c \<Rightarrow>
               (case validate_task_id_shape (msg_task_id m) of
                  Some e \<Rightarrow> Some e
                | None \<Rightarrow>
                    (case rc_validate_task_id c of
                       None \<Rightarrow> plain_err
                     | Some v \<Rightarrow> fail_when (\<not> v (msg_task_id m)) plain_err))))"

lemma validate_dispatch_token_None [validator_simps]:
  "validate_dispatch_token t = None \<longleftrightarrow>
     validate_resource (dt_resource t) = None \<and> validate_task_id (dt_task_id t) = None
     \<and> dt_generation t \<noteq> 0 \<and> unat (dt_generation t) \<le> max_int64"
  by (auto simp: validate_dispatch_token_def)

lemma validate_message_None [validator_simps]:
  "validate_message m = None \<longleftrightarrow>
     msg_version m = 1 \<and> validate_resource (msg_resource m) = None
     \<and> validate_tenant_id (msg_tenant m) = None \<and> validate_task_type (msg_task_type m) = None
     \<and> validate_task_id (msg_task_id m) = None \<and> validate_dispatch_token (msg_token m) = None
     \<and> dt_resource (msg_token m) = msg_resource m \<and> dt_task_id (msg_token m) = msg_task_id m"
  by (auto simp: validate_message_def)

subsection \<open>JSON values and the duplicate-field walk\<close>

datatype json =
    JNull | JBool bool | JNum string | JStr string | JArr "json list" | JObj "(string \<times> json) list"

text \<open>The tokens \<open>json.Decoder.Token\<close> yields for a value; keys are string tokens.\<close>

datatype jtok = TObjOpen | TObjClose | TArrOpen | TArrClose | TStr string | TAtom

fun json_tokens :: "json \<Rightarrow> jtok list" where
  "json_tokens JNull = [TAtom]"
| "json_tokens (JBool b) = [TAtom]"
| "json_tokens (JNum s) = [TAtom]"
| "json_tokens (JStr s) = [TStr s]"
| "json_tokens (JArr vs) = TArrOpen # concat (map json_tokens vs) @ [TArrClose]"
| "json_tokens (JObj fs) =
     TObjOpen # concat (map (\<lambda>(k, v). TStr k # json_tokens v) fs) @ [TObjClose]"

text \<open>
  \<open>walkUniqueJSONValue\<close> reads one value off the token stream and returns what is left, or
  \<open>None\<close> for an error.  \<open>decoder.More()\<close> is true while the next token is not a closing
  delimiter.  The object and array loops are \<open>walk_object\<close> and \<open>walk_array\<close>; the fuel bounds
  the number of calls, and \<open>walk_unique_enough\<close> shows how much is enough.
\<close>

definition decoder_more :: "jtok list \<Rightarrow> bool" where
  "decoder_more ts = (case ts of [] \<Rightarrow> False | t # _ \<Rightarrow> t \<noteq> TObjClose \<and> t \<noteq> TArrClose)"

fun walk_unique :: "nat \<Rightarrow> jtok list \<Rightarrow> jtok list option"
  and walk_object :: "nat \<Rightarrow> string list \<Rightarrow> jtok list \<Rightarrow> jtok list option"
  and walk_array :: "nat \<Rightarrow> jtok list \<Rightarrow> jtok list option" where
  "walk_unique 0 ts = None"
| "walk_unique (Suc n) ts =
     (case ts of
        [] \<Rightarrow> None
      | t # ts' \<Rightarrow>
          (case t of
             TObjOpen \<Rightarrow> walk_object n [] ts'
           | TArrOpen \<Rightarrow> walk_array n ts'
           | TObjClose \<Rightarrow> None
           | TArrClose \<Rightarrow> None
           | _ \<Rightarrow> Some ts'))"
| "walk_object 0 seen ts = None"
| "walk_object (Suc n) seen ts =
     (if decoder_more ts then
        (case ts of
           TStr key # ts' \<Rightarrow>
             (if key \<in> set seen then None
              else case walk_unique n ts' of
                     None \<Rightarrow> None
                   | Some rest \<Rightarrow> walk_object n (key # seen) rest)
         | _ \<Rightarrow> None)
      else
        (case ts of
           TObjClose # ts' \<Rightarrow> Some ts'
         | _ \<Rightarrow> None))"
| "walk_array 0 ts = None"
| "walk_array (Suc n) ts =
     (if decoder_more ts then
        (case walk_unique n ts of
           None \<Rightarrow> None
         | Some rest \<Rightarrow> walk_array n rest)
      else
        (case ts of
           TArrClose # ts' \<Rightarrow> Some ts'
         | _ \<Rightarrow> None))"

text \<open>\<open>rejectDuplicateJSONFields\<close>: the walk of the first value, then \<open>requireJSONEOF\<close>.\<close>

definition reject_duplicate_fields :: "(string \<Rightarrow> json list option) \<Rightarrow> string \<Rightarrow> goerr" where
  "reject_duplicate_fields J raw =
     (case J raw of
        Some [v] \<Rightarrow>
          (case walk_unique (2 * length (json_tokens v)) (json_tokens v) of
             Some [] \<Rightarrow> None
           | _ \<Rightarrow> plain_err)
      | _ \<Rightarrow> plain_err)"

text \<open>The specification: no object of the value, at any depth, repeats a field.\<close>

fun unique_fields :: "json \<Rightarrow> bool" where
  "unique_fields (JArr vs) \<longleftrightarrow> (\<forall>v\<in>set vs. unique_fields v)"
| "unique_fields (JObj fs) \<longleftrightarrow> distinct (map fst fs) \<and> (\<forall>kv\<in>set fs. unique_fields (snd kv))"
| "unique_fields _ \<longleftrightarrow> True"

lemma json_tokens_more: "decoder_more (json_tokens v @ ts)"
  by (cases v) (simp_all add: decoder_more_def)

lemma json_tokens_pos: "0 < length (json_tokens v)"
  by (cases v) simp_all

definition walks_as :: "json \<Rightarrow> bool" where
  "walks_as v \<longleftrightarrow> (\<forall>n ts. 2 * length (json_tokens v) \<le> n \<longrightarrow>
     walk_unique n (json_tokens v @ ts) = (if unique_fields v then Some ts else None))"

lemma walk_fuel_split: "2 * (a + b) + 1 \<le> Suc m \<Longrightarrow> 0 < a \<Longrightarrow> 2 * b + 1 \<le> (m :: nat)"
  by arith

lemma walk_array_spec:
  assumes "\<forall>v\<in>set vs. walks_as v"
    and "2 * length (concat (map json_tokens vs)) + 1 \<le> n"
  shows "walk_array n (concat (map json_tokens vs) @ TArrClose # ts)
     = (if \<forall>v\<in>set vs. unique_fields v then Some ts else None)"
  using assms
proof (induction vs arbitrary: n)
  case Nil
  then show ?case by (cases n) (simp_all add: decoder_more_def)
next
  case (Cons v vs)
  then obtain m where n: "n = Suc m" by (cases n) auto
  have v: "walk_unique m (json_tokens v @ concat (map json_tokens vs) @ TArrClose # ts) =
      (if unique_fields v then Some (concat (map json_tokens vs) @ TArrClose # ts) else None)"
    using Cons.prems n by (simp add: walks_as_def)
  have "walk_array m (concat (map json_tokens vs) @ TArrClose # ts)
      = (if \<forall>v\<in>set vs. unique_fields v then Some ts else None)"
  proof (rule Cons.IH)
    show "\<forall>v\<in>set vs. walks_as v" using Cons.prems by simp
    show "2 * length (concat (map json_tokens vs)) + 1 \<le> m"
      by (rule walk_fuel_split [OF _ json_tokens_pos [of v]]) (use Cons.prems(2) n in simp)
  qed
  then show ?case using v n by (simp add: json_tokens_more)
qed

lemma walk_object_spec:
  assumes "\<forall>kv\<in>set fs. walks_as (snd kv)"
    and "2 * length (concat (map (\<lambda>(k, v). TStr k # json_tokens v) fs)) + 1 \<le> n"
  shows "walk_object n seen (concat (map (\<lambda>(k, v). TStr k # json_tokens v) fs) @ TObjClose # ts)
     = (if distinct (map fst fs) \<and> set (map fst fs) \<inter> set seen = {}
           \<and> (\<forall>kv\<in>set fs. unique_fields (snd kv)) then Some ts else None)"
  using assms
proof (induction fs arbitrary: n seen)
  case Nil
  then show ?case by (cases n) (simp_all add: decoder_more_def)
next
  case (Cons kv fs)
  obtain k v where kv: "kv = (k, v)" by (cases kv)
  from Cons.prems obtain m where n: "n = Suc m" by (cases n) auto
  let ?rest = "concat (map (\<lambda>(k, v). TStr k # json_tokens v) fs) @ TObjClose # ts"
  have v: "walk_unique m (json_tokens v @ ?rest) = (if unique_fields v then Some ?rest else None)"
    using Cons.prems n kv by (simp add: walks_as_def)
  have "walk_object m (k # seen) ?rest =
      (if distinct (map fst fs) \<and> set (map fst fs) \<inter> set (k # seen) = {}
          \<and> (\<forall>kv\<in>set fs. unique_fields (snd kv)) then Some ts else None)"
    using Cons.prems n kv json_tokens_pos [of v] by (intro Cons.IH) auto
  then show ?case using v n kv by (auto simp: decoder_more_def)
qed

lemma walks_as_all: "walks_as v"
proof (induction v rule: unique_fields.induct)
  case (1 vs)
  show ?case unfolding walks_as_def
  proof (intro allI impI)
    fix n ts
    assume n: "2 * length (json_tokens (JArr vs)) \<le> n"
    then obtain m where m: "n = Suc m" by (cases n) auto
    have "walk_array m (concat (map json_tokens vs) @ TArrClose # ts)
        = (if \<forall>v\<in>set vs. unique_fields v then Some ts else None)"
      using 1 n m by (intro walk_array_spec) auto
    then show "walk_unique n (json_tokens (JArr vs) @ ts)
        = (if unique_fields (JArr vs) then Some ts else None)"
      using m by simp
  qed
next
  case (2 fs)
  show ?case unfolding walks_as_def
  proof (intro allI impI)
    fix n ts
    assume n: "2 * length (json_tokens (JObj fs)) \<le> n"
    then obtain m where m: "n = Suc m" by (cases n) auto
    have "walk_object m [] (concat (map (\<lambda>(k, v). TStr k # json_tokens v) fs) @ TObjClose # ts)
        = (if distinct (map fst fs) \<and> set (map fst fs) \<inter> set [] = {}
             \<and> (\<forall>kv\<in>set fs. unique_fields (snd kv)) then Some ts else None)"
      using 2 n m by (intro walk_object_spec) auto
    then show "walk_unique n (json_tokens (JObj fs) @ ts)
        = (if unique_fields (JObj fs) then Some ts else None)"
      using m by simp
  qed
qed (auto simp: walks_as_def numeral_2_eq_2 dest!: Suc_le_D)

text \<open>C1: the duplicate-field check of the strict decoder is exact. A body passes it iff it is
  one JSON value and no object in it, at any nesting depth, has two fields of one name; the
  walk always comes to an answer (the fuel of twice the number of tokens never runs out).\<close>

theorem duplicate_field_walk_exact:
  "reject_duplicate_fields J raw = None \<longleftrightarrow> (\<exists>v. J raw = Some [v] \<and> unique_fields v)"
proof -
  have "walk_unique (2 * length (json_tokens v)) (json_tokens v)
      = (if unique_fields v then Some [] else None)" for v
    using walks_as_all [of v, unfolded walks_as_def, rule_format, of "2 * length (json_tokens v)" "[]"]
    by simp
  then show ?thesis
    by (auto simp: reject_duplicate_fields_def plain_err_def split: option.splits list.splits)
qed

subsection \<open>The strict decoder\<close>

definition root_fields :: "string list" where
  "root_fields = [''version'', ''resource'', ''tenant_id'', ''task_type'', ''task_id'', ''dispatch_token'']"

definition token_fields :: "string list" where
  "token_fields = [''resource'', ''task_id'', ''generation'']"

text \<open>\<open>json.Unmarshal\<close> into a \<open>map[string]json.RawMessage\<close>: an object, or null for the nil map.\<close>

definition json_fields :: "json \<Rightarrow> (string \<times> json) list option" where
  "json_fields v = (case v of JObj fs \<Rightarrow> Some fs | JNull \<Rightarrow> Some [] | _ \<Rightarrow> None)"

definition validate_exact_fields :: "json \<Rightarrow> goerr" where
  "validate_exact_fields v =
     (case json_fields v of
        None \<Rightarrow> plain_err
      | Some root \<Rightarrow>
          if \<not> list_all (\<lambda>kv. fst kv \<in> set root_fields) root then plain_err
          else case map_of root ''dispatch_token'' of
                 None \<Rightarrow> None
               | Some tok \<Rightarrow>
                   (case json_fields tok of
                      None \<Rightarrow> plain_err
                    | Some tfs \<Rightarrow>
                        fail_when (\<not> list_all (\<lambda>kv. fst kv \<in> set token_fields) tfs) plain_err))"

text \<open>
  \<open>decoder.Decode(&wire)\<close>: an absent or null field keeps the zero value, a value of another
  type is an error, an integer literal must fit the field.
\<close>

definition decode_string :: "json option \<Rightarrow> string option" where
  "decode_string v = (case v of None \<Rightarrow> Some [] | Some JNull \<Rightarrow> Some []
     | Some (JStr s) \<Rightarrow> Some s | _ \<Rightarrow> None)"

definition decode_uint64 :: "json option \<Rightarrow> 64 word option" where
  "decode_uint64 v = (case v of None \<Rightarrow> Some 0 | Some JNull \<Rightarrow> Some 0
     | Some (JNum s) \<Rightarrow>
         (if s \<noteq> [] \<and> list_all is_digit s \<and> digits_value s < 2 ^ 64
          then Some (of_nat (digits_value s)) else None)
     | _ \<Rightarrow> None)"

definition decode_int :: "json option \<Rightarrow> int option" where
  "decode_int v = (case v of None \<Rightarrow> Some 0 | Some JNull \<Rightarrow> Some 0
     | Some (JNum s) \<Rightarrow>
         (case s of
            [] \<Rightarrow> None
          | c # ds \<Rightarrow>
              if c = CHR ''-'' then
                (if ds \<noteq> [] \<and> list_all is_digit ds \<and> digits_value ds \<le> 2 ^ 63
                 then Some (- int (digits_value ds)) else None)
              else if list_all is_digit s \<and> digits_value s < 2 ^ 63
              then Some (int (digits_value s)) else None)
     | _ \<Rightarrow> None)"

definition decode_token :: "json option \<Rightarrow> dispatch_token option" where
  "decode_token v =
     (case (case v of None \<Rightarrow> Some [] | Some j \<Rightarrow> json_fields j) of
        None \<Rightarrow> None
      | Some fs \<Rightarrow>
          (case (decode_string (map_of fs ''resource''), decode_string (map_of fs ''task_id''),
                 decode_uint64 (map_of fs ''generation'')) of
             (Some r, Some t, Some g) \<Rightarrow>
               Some \<lparr> dt_resource = r, dt_task_id = t, dt_generation = g \<rparr>
           | _ \<Rightarrow> None))"

definition decode_wire :: "json \<Rightarrow> message option" where
  "decode_wire v =
     (case json_fields v of
        None \<Rightarrow> None
      | Some fs \<Rightarrow>
          (case (decode_int (map_of fs ''version''), decode_string (map_of fs ''resource''),
                 decode_string (map_of fs ''tenant_id''), decode_string (map_of fs ''task_type''),
                 decode_string (map_of fs ''task_id''), decode_token (map_of fs ''dispatch_token'')) of
             (Some ver, Some r, Some te, Some ty, Some t, Some tok) \<Rightarrow>
               Some \<lparr> msg_version = ver, msg_resource = r, msg_tenant = te, msg_task_type = ty,
                       msg_task_id = t, msg_token = tok \<rparr>
           | _ \<Rightarrow> None))"

definition max_message_bytes :: nat where "max_message_bytes = 65536"

definition strict_decode_message :: "(string \<Rightarrow> json list option) \<Rightarrow> string \<Rightarrow> message result" where
  "strict_decode_message J raw =
     (if length raw = 0 \<or> length raw > max_message_bytes then Inl [ErrInvalidMessage]
      else check_err (as_sentinel ErrInvalidMessage (reject_duplicate_fields J raw))
        (case J raw of
           Some (v # _) \<Rightarrow>
             check_err (as_sentinel ErrInvalidMessage (validate_exact_fields v))
               (case decode_wire v of
                  None \<Rightarrow> Inl [ErrInvalidMessage]
                | Some m \<Rightarrow> check_err (validate_message m) (Inr m))
         | _ \<Rightarrow> Inl [ErrInvalidMessage]))"

text \<open>\<open>Message.MarshalJSON\<close>: the fields of the two structs in declaration order.\<close>

definition token_json :: "dispatch_token \<Rightarrow> json" where
  "token_json t = JObj [(''resource'', JStr (dt_resource t)), (''task_id'', JStr (dt_task_id t)),
     (''generation'', JNum (format_uint (unat (dt_generation t))))]"

definition message_json :: "message \<Rightarrow> json" where
  "message_json m = JObj [(''version'', JNum (format_uint (nat (msg_version m)))),
     (''resource'', JStr (msg_resource m)), (''tenant_id'', JStr (msg_tenant m)),
     (''task_type'', JStr (msg_task_type m)), (''task_id'', JStr (msg_task_id m)),
     (''dispatch_token'', token_json (msg_token m))]"

definition marshal_message :: "message \<Rightarrow> json result" where
  "marshal_message m = check_err (validate_message m) (Inr (message_json m))"

lemma decode_uint64_format: "decode_uint64 (Some (JNum (format_uint (unat (g :: 64 word))))) = Some g"
proof -
  have "unat g < 2 ^ LENGTH(64)" by (rule unsigned_less)
  then have "unat g < 2 ^ 64" by simp
  then show ?thesis
    by (simp add: decode_uint64_def format_uint_not_Nil format_uint_digits digits_value_format_uint)
qed

lemma decode_int_format: "n < 2 ^ 63 \<Longrightarrow> decode_int (Some (JNum (format_uint n))) = Some (int n)"
proof -
  assume n: "n < 2 ^ 63"
  obtain c ds where s: "format_uint n = c # ds" using format_uint_not_Nil [of n] by (cases "format_uint n") auto
  have d: "list_all is_digit (c # ds)" using format_uint_digits [of n] s by simp
  then have "c \<noteq> CHR ''-''" by (auto simp: is_digit_def)
  then show ?thesis using s d n digits_value_format_uint [of n] by (simp add: decode_int_def)
qed

lemma decode_token_json: "decode_token (Some (token_json t)) = Some t"
  by (simp add: decode_token_def token_json_def json_fields_def decode_string_def decode_uint64_format)

lemma strict_decode_message_Inr:
  "strict_decode_message J raw = Inr m \<longleftrightarrow>
     0 < length raw \<and> length raw \<le> max_message_bytes \<and>
     (\<exists>v. J raw = Some [v] \<and> unique_fields v \<and> validate_exact_fields v = None \<and> decode_wire v = Some m)
     \<and> validate_message m = None"
  by (auto simp: strict_decode_message_def duplicate_field_walk_exact split: option.splits list.splits)

lemma message_json_decodes:
  assumes "J raw = Some [message_json m]" and "0 < length raw" and "length raw \<le> max_message_bytes"
    and "validate_message m = None"
  shows "strict_decode_message J raw = Inr m"
proof -
  have ver: "msg_version m = 1" using assms by (simp add: validate_message_None)
  have uniq: "unique_fields (message_json m)" by (simp add: message_json_def token_json_def)
  have exact: "validate_exact_fields (message_json m) = None"
    by (simp add: validate_exact_fields_def message_json_def token_json_def json_fields_def
        root_fields_def token_fields_def)
  have "decode_wire (message_json m) = Some m"
    using ver decode_int_format [of 1]
    by (simp add: decode_wire_def message_json_def json_fields_def decode_string_def decode_token_json)
  with assms uniq exact show ?thesis by (auto simp: strict_decode_message_Inr)
qed

text \<open>C2: the wire format round-trips. What \<open>MarshalJSON\<close> writes for a valid message is
  accepted by the strict decoder, within the size bound, and decodes to the same message;
  an invalid message cannot be marshalled at all.\<close>

theorem message_wire_roundtrip:
  assumes "J raw = Some [message_json m]"
    and "0 < length raw" and "length raw \<le> max_message_bytes"
  shows "(if validate_message m = None
          then marshal_message m = Inr (message_json m) \<and> strict_decode_message J raw = Inr m
          else err_of (marshal_message m) = validate_message m
               \<and> (\<forall>m'. strict_decode_message J raw = Inr m' \<longrightarrow> m' \<noteq> m))"
  using message_json_decodes [of J raw m] assms
  by (auto simp: marshal_message_def strict_decode_message_Inr check_err_def err_of_def
      split: option.splits)

definition sample_token :: dispatch_token where
  "sample_token = \<lparr> dt_resource = ''rag'', dt_task_id = ''7'', dt_generation = 3 \<rparr>"

definition sample_message :: message where
  "sample_message = \<lparr> msg_version = 1, msg_resource = ''rag'', msg_tenant = ''u1'',
     msg_task_type = ''index'', msg_task_id = ''7'', msg_token = sample_token \<rparr>"

lemma sample_message_valid: "validate_message sample_message = None"
  by (simp add: sample_message_def sample_token_def validate_message_None validate_dispatch_token_None
      validate_resource_None resource_pattern_def is_alnum_lower_def is_digit_def is_ident_char_def
      validate_tenant_id_def validate_task_id_def validate_task_id_shape_def validate_bounded_text_None
      text_bounds runes_def is_control_def validate_task_type_def task_type_pattern_def max_int64_def)

theorem message_wire_roundtrip_witness:
  "strict_decode_message (\<lambda>_. Some [message_json sample_message]) ''x'' = Inr sample_message"
  using message_wire_roundtrip [of "\<lambda>_. Some [message_json sample_message]" "''x''" sample_message]
  by (simp add: sample_message_valid max_message_bytes_def)

subsection \<open>Dispatch candidates and stable header facts\<close>

record dispatch_candidate =
  cand_message :: message
  cand_guard :: string

definition validate_candidate :: "dispatch_candidate \<Rightarrow> goerr" where
  "validate_candidate c =
     first_err [
       validate_message (cand_message c),
       fail_when (cand_guard c = [] \<or> length (cand_guard c) > 65536 \<or> \<not> valid_utf8 (cand_guard c))
         (wraps ErrInvalidModel)]"

record header_facts =
  hf_version :: "int option"
  hf_resource :: "string option"
  hf_task_id :: "string option"
  hf_generation :: "int option"

definition validate_header_facts :: "header_facts \<Rightarrow> goerr" where
  "validate_header_facts f =
     first_err [
       (case hf_resource f of None \<Rightarrow> None
        | Some r \<Rightarrow> as_sentinel ErrInvalidModel (validate_bounded_text r max_resource_bytes False)),
       (case hf_task_id f of None \<Rightarrow> None
        | Some t \<Rightarrow> as_sentinel ErrInvalidModel (validate_bounded_text t max_task_id_bytes False))]"

text \<open>\<open>Token()\<close> returns \<open>(token, ok)\<close>; its callers look at the token only when \<open>ok\<close>.\<close>

definition header_token :: "header_facts \<Rightarrow> dispatch_token option" where
  "header_token f =
     (case (hf_resource f, hf_task_id f, hf_generation f) of
        (Some r, Some t, Some g) \<Rightarrow>
          if g \<le> 0 then None
          else let tok = \<lparr> dt_resource = r, dt_task_id = t, dt_generation = word_of_int g \<rparr>
               in if validate_dispatch_token tok = None then Some tok else None
      | _ \<Rightarrow> None)"

definition header_matches_token :: "header_facts \<Rightarrow> dispatch_token \<Rightarrow> bool" where
  "header_matches_token f t \<longleftrightarrow> header_token f = Some t"

definition complete_v1_token :: "header_facts \<Rightarrow> dispatch_token option" where
  "complete_v1_token f =
     (case hf_version f of
        None \<Rightarrow> None
      | Some v \<Rightarrow> if v \<noteq> 1 then None else header_token f)"

end
