(* ===== verification/Fq_Prepare.thy ===== *)
theory Fq_Prepare
  imports Fq_Message
begin

text \<open>
  The delivery boundary of \<open>model.go\<close> (lines 322 to 561): prepare requests with their
  independently validated transport facts, and the prepare results that decide what happens
  to a delivery.
\<close>

subsection \<open>Prepare requests\<close>

record prepare_request =
  prq_message :: "message option"
  prq_body :: "message option"
  prq_header_token :: "dispatch_token option"
  prq_header_facts :: header_facts
  prq_resource :: string
  prq_tenant_hash :: string
  prq_attempt_id :: string
  prq_raw_body :: string
  prq_raw_omitted :: bool
  prq_raw_size :: int
  prq_raw_sha256 :: string
  prq_decode_code :: string
  prq_header_code :: string
  prq_property_code :: string

text \<open>\<open>reasonCodePattern\<close>: \<open>^[a-z][a-z0-9._-]{0,127}$\<close>\<close>

definition reason_code_pattern :: "string \<Rightarrow> bool" where
  "reason_code_pattern s = (case s of
     [] \<Rightarrow> False
   | c # cs \<Rightarrow> 97 \<le> byte_of c \<and> byte_of c \<le> 122 \<and> length cs \<le> 127 \<and> list_all is_ident_char cs)"

definition validate_optional_reason_code :: "string \<Rightarrow> goerr" where
  "validate_optional_reason_code v =
     (if v = [] then None
      else fail_when (length v > 128 \<or> \<not> reason_code_pattern v) (wraps ErrInvalidModel))"

definition max_raw_delivery_bytes :: nat where "max_raw_delivery_bytes = 1048576"

text \<open>The local \<open>canExecute\<close> of \<open>PrepareRequest.Validate\<close>.\<close>

definition can_execute :: "(string \<Rightarrow> string) \<Rightarrow> prepare_request \<Rightarrow> bool" where
  "can_execute H r =
     (case (prq_body r, prq_header_token r) of
        (Some b, Some t) \<Rightarrow>
          complete_v1_token (prq_header_facts r) = Some t \<and> lower_hex 32 (prq_attempt_id r)
          \<and> prq_decode_code r = [] \<and> prq_header_code r = [] \<and> prq_property_code r = []
          \<and> msg_token b = t \<and> msg_resource b = prq_resource r
          \<and> tenant_hash H (msg_resource b) (msg_tenant b) = Inr (prq_tenant_hash r)
      | _ \<Rightarrow> False)"

definition validate_prepare_request ::
  "(string \<Rightarrow> json list option) \<Rightarrow> (string \<Rightarrow> string) \<Rightarrow> prepare_request \<Rightarrow> goerr" where
  "validate_prepare_request J H r =
     first_err [
       as_sentinel ErrInvalidModel (validate_resource (prq_resource r)),
       fail_when (\<not> lower_hex 64 (prq_tenant_hash r)) (wraps ErrInvalidModel),
       fail_when (length (prq_raw_body r) > max_raw_delivery_bytes) (wraps ErrInvalidModel),
       (if prq_raw_omitted r then
          fail_when (prq_raw_body r \<noteq> [] \<or> prq_raw_size r \<le> int max_raw_delivery_bytes
            \<or> \<not> lower_hex 64 (prq_raw_sha256 r) \<or> prq_message r \<noteq> None \<or> prq_body r \<noteq> None
            \<or> prq_decode_code r = []) (wraps ErrInvalidModel)
        else fail_when (prq_raw_size r \<noteq> 0 \<or> prq_raw_sha256 r \<noteq> []) (wraps ErrInvalidModel)),
       fail_when (prq_attempt_id r \<noteq> [] \<and> \<not> lower_hex 32 (prq_attempt_id r)) (wraps ErrInvalidModel),
       validate_optional_reason_code (prq_decode_code r),
       validate_optional_reason_code (prq_header_code r),
       validate_optional_reason_code (prq_property_code r),
       validate_header_facts (prq_header_facts r),
       (case prq_body r of
          Some b \<Rightarrow> first_err [
            validate_message b,
            fail_when (prq_raw_omitted r \<or> prq_raw_body r = []
              \<or> length (prq_raw_body r) > max_message_bytes \<or> prq_decode_code r \<noteq> [])
              (wraps ErrInvalidModel),
            fail_when (strict_decode_message J (prq_raw_body r) \<noteq> Inr b) (wraps ErrInvalidModel)]
        | None \<Rightarrow> fail_when (prq_decode_code r = []) (wraps ErrInvalidModel)),
       (case prq_header_token r of
          Some t \<Rightarrow> first_err [
            validate_dispatch_token t,
            fail_when (header_token (prq_header_facts r) \<noteq> Some t) (wraps ErrInvalidModel),
            fail_when ((complete_v1_token (prq_header_facts r) \<noteq> None) \<noteq> (prq_header_code r = []))
              (wraps ErrInvalidModel)]
        | None \<Rightarrow> fail_when (prq_header_code r = []) (wraps ErrInvalidModel)),
       fail_when ((prq_attempt_id r \<noteq> []) \<noteq> (prq_property_code r = [])) (wraps ErrInvalidModel),
       (case prq_message r of
          None \<Rightarrow> fail_when (can_execute H r) (wraps ErrInvalidModel)
        | Some m \<Rightarrow> first_err [
            fail_when (\<not> can_execute H r) (wraps ErrInvalidModel),
            fail_when (Some (strict_decode_message J (prq_raw_body r)) \<noteq> map_option Inr (prq_body r))
              (wraps ErrInvalidModel),
            validate_message m,
            fail_when (prq_body r \<noteq> Some m \<or> prq_header_token r \<noteq> Some (msg_token m)
              \<or> msg_resource m \<noteq> prq_resource r) (wraps ErrInvalidModel)])]"

lemma prepare_request_exec:
  "validate_prepare_request J H r = None \<Longrightarrow> \<not> can_execute H r \<Longrightarrow> prq_message r = None"
  by (auto simp: validate_prepare_request_def split: option.splits)

text \<open>C3: a validated delivery carries an executable message exactly when its independent
  transport facts (body, headers, properties, queue context) are all canonical and agree, and
  then the message is the decoded body; so neither a forged header nor a delivery from another
  tenant's queue can reach execution, and no canonical delivery is demoted to repair.\<close>

theorem prepare_request_message_exact:
  assumes "validate_prepare_request J H r = None"
  shows "prq_message r = (if can_execute H r then prq_body r else None)
    \<and> (\<forall>m. prq_message r = Some m \<longrightarrow>
          strict_decode_message J (prq_raw_body r) = Inr m \<and> validate_message m = None
          \<and> header_token (prq_header_facts r) = Some (msg_token m)
          \<and> msg_resource m = prq_resource r
          \<and> tenant_hash H (prq_resource r) (msg_tenant m) = Inr (prq_tenant_hash r))"
proof (cases "prq_message r")
  case None
  with assms have "\<not> can_execute H r" by (simp add: validate_prepare_request_def)
  with None show ?thesis by simp
next
  case (Some m)
  with assms have e: "can_execute H r" and b: "prq_body r = Some m"
    and t: "prq_header_token r = Some (msg_token m)" and v: "validate_message m = None"
    and d: "strict_decode_message J (prq_raw_body r) = Inr m"
    by (auto simp: validate_prepare_request_def)
  from e b t have "complete_v1_token (prq_header_facts r) = Some (msg_token m)"
    and res: "msg_resource m = prq_resource r"
    and hash: "tenant_hash H (prq_resource r) (msg_tenant m) = Inr (prq_tenant_hash r)"
    by (auto simp: can_execute_def)
  then have "header_token (prq_header_facts r) = Some (msg_token m)"
    by (auto simp: complete_v1_token_def split: option.splits if_splits)
  with Some e b v d res hash show ?thesis by simp
qed

text \<open>A canonical delivery of the sample message, for the witnesses.\<close>

definition sample_request :: prepare_request where
  "sample_request = \<lparr> prq_message = Some sample_message, prq_body = Some sample_message,
     prq_header_token = Some sample_token,
     prq_header_facts = \<lparr> hf_version = Some 1, hf_resource = Some ''rag'', hf_task_id = Some ''7'',
       hf_generation = Some 3 \<rparr>,
     prq_resource = ''rag'', prq_tenant_hash = replicate 64 CHR ''a'',
     prq_attempt_id = replicate 32 CHR ''0'', prq_raw_body = ''x'', prq_raw_omitted = False,
     prq_raw_size = 0, prq_raw_sha256 = [], prq_decode_code = [], prq_header_code = [],
     prq_property_code = [] \<rparr>"

definition sample_json :: "string \<Rightarrow> json list option" where
  "sample_json raw = Some [message_json sample_message]"

definition sample_hash :: "string \<Rightarrow> string" where
  "sample_hash s = replicate 64 CHR ''a''"

lemma sample_decode: "strict_decode_message sample_json ''x'' = Inr sample_message"
  using message_json_decodes [of sample_json "''x''" sample_message]
  by (simp add: sample_json_def sample_message_valid max_message_bytes_def)

lemma sample_token_valid: "validate_dispatch_token sample_token = None"
  using sample_message_valid by (simp add: validate_message_None sample_message_def)

lemma sample_resource_valid: "validate_resource ''rag'' = None"
  using sample_message_valid by (simp add: validate_message_None sample_message_def)

lemma sample_header: "header_token (prq_header_facts sample_request) = Some sample_token"
  using sample_token_valid
  by (simp add: header_token_def sample_request_def sample_token_def)

lemma sample_complete: "complete_v1_token (prq_header_facts sample_request) = Some sample_token"
  using sample_header by (simp add: complete_v1_token_def sample_request_def)

lemma sample_tenant_hash:
  "tenant_hash sample_hash ''rag'' (msg_tenant sample_message) = Inr (replicate 64 CHR ''a'')"
  using sample_message_valid
  by (simp add: tenant_hash_def sample_hash_def validate_message_None sample_message_def)

lemma sample_hex: "lower_hex n (replicate n CHR ''a'')" "lower_hex n (replicate n CHR ''0'')"
  by (simp_all add: lower_hex_def is_lower_hex_char_def list_all_iff)

lemmas sample_facts = sample_complete [unfolded sample_request_def, simplified]
  sample_header [unfolded sample_request_def, simplified]
  sample_tenant_hash sample_hex sample_message_valid sample_token_valid sample_resource_valid
  sample_decode

lemma sample_can_execute: "can_execute sample_hash sample_request"
  using sample_facts
  by (simp add: can_execute_def sample_request_def sample_message_def)

lemma sample_header_facts_valid: "validate_header_facts (prq_header_facts sample_request) = None"
  using sample_token_valid
  by (auto simp: validate_header_facts_def sample_request_def sample_token_def validate_dispatch_token_None
      validate_resource_None validate_task_id_def validate_task_id_shape_def validate_bounded_text_None
      text_bounds runes_def is_control_def split: if_splits)

lemma sample_request_valid: "validate_prepare_request sample_json sample_hash sample_request = None"
  using sample_facts sample_can_execute sample_header_facts_valid
  unfolding validate_prepare_request_def
  by (simp add: sample_request_def validate_optional_reason_code_def max_raw_delivery_bytes_def
      max_message_bytes_def sample_message_def)

theorem prepare_request_message_exact_witness:
  "prq_message sample_request = Some sample_message
   \<and> header_token (prq_header_facts sample_request) = Some (msg_token sample_message)"
  using prepare_request_message_exact [OF sample_request_valid] sample_can_execute
  by (simp add: sample_request_def)

subsection \<open>Prepare results\<close>

datatype disposition =
    PClaimed | PCapacityDeferred | PTransientInfrastructure | PDuplicateStaleTerminal
  | PRepairedTerminal | PRepairedRetry | PPoison | POtherDisposition string

datatype delivery_action =
    PromoteThenAckRun | AckRelease | NackRequeue | ConfirmDLQThenAck | OtherAction string

datatype canonical_effect =
    EffectNone | ClaimCommitted | TerminalRepairCommitted | RetryRepairCommitted
  | PoisonRepairSettled | OtherEffect string

record claim_ref =
  claim_tenant :: string
  claim_task_id :: string
  claim_generation :: "64 word"

definition validate_claim :: "claim_ref \<Rightarrow> goerr" where
  "validate_claim c =
     first_err [
       validate_tenant_id (claim_tenant c),
       validate_task_id (claim_task_id c),
       fail_when (claim_generation c = 0 \<or> unat (claim_generation c) > max_int64)
         (wraps ErrInvalidModel)]"

record prepare_result =
  pr_disposition :: disposition
  pr_action :: delivery_action
  pr_effect :: canonical_effect
  pr_claim :: "claim_ref option"

definition prepare_result_matrix ::
  "disposition \<Rightarrow> (delivery_action \<times> canonical_effect) option" where
  "prepare_result_matrix d =
     (case d of
        PClaimed \<Rightarrow> Some (PromoteThenAckRun, ClaimCommitted)
      | PCapacityDeferred \<Rightarrow> Some (NackRequeue, EffectNone)
      | PTransientInfrastructure \<Rightarrow> Some (NackRequeue, EffectNone)
      | PDuplicateStaleTerminal \<Rightarrow> Some (AckRelease, EffectNone)
      | PRepairedTerminal \<Rightarrow> Some (AckRelease, TerminalRepairCommitted)
      | PRepairedRetry \<Rightarrow> Some (AckRelease, RetryRepairCommitted)
      | PPoison \<Rightarrow> Some (ConfirmDLQThenAck, PoisonRepairSettled)
      | POtherDisposition _ \<Rightarrow> None)"

text \<open>\<open>prepared\<close> tells whether the \<open>PreparedTask\<close> is non-nil.\<close>

definition validate_prepare_result :: "prepare_result \<Rightarrow> bool \<Rightarrow> goerr" where
  "validate_prepare_result r prepared =
     (case prepare_result_matrix (pr_disposition r) of
        None \<Rightarrow> wraps ErrInvalidPrepareResult
      | Some (want_action, want_effect) \<Rightarrow>
          first_err [
            fail_when (pr_action r \<noteq> want_action) (wraps ErrInvalidPrepareResult),
            (if pr_disposition r = PPoison
             then fail_when (pr_effect r \<noteq> EffectNone \<and> pr_effect r \<noteq> PoisonRepairSettled)
                    (wraps ErrInvalidPrepareResult)
             else fail_when (pr_effect r \<noteq> want_effect) (wraps ErrInvalidPrepareResult)),
            (if pr_disposition r = PClaimed
             then fail_when (\<not> prepared \<or> (case pr_claim r of None \<Rightarrow> True | Some c \<Rightarrow> validate_claim c \<noteq> None))
                    (wraps ErrInvalidPrepareResult)
             else fail_when (prepared \<or> pr_claim r \<noteq> None) (wraps ErrInvalidPrepareResult))])"

definition validate_result_for ::
  "(string \<Rightarrow> json list option) \<Rightarrow> (string \<Rightarrow> string) \<Rightarrow> prepare_result \<Rightarrow> prepare_request
   \<Rightarrow> bool \<Rightarrow> goerr" where
  "validate_result_for J H r request prepared =
     first_err [
       as_sentinel ErrInvalidPrepareResult (validate_prepare_request J H request),
       validate_prepare_result r prepared,
       fail_when (prq_message request = None \<and> pr_disposition r \<noteq> PPoison) (wraps ErrInvalidPrepareResult),
       (if pr_disposition r \<noteq> PClaimed then None
        else fail_when
          (case (prq_message request, pr_claim r) of
             (Some m, Some c) \<Rightarrow>
               claim_tenant c \<noteq> msg_tenant m \<or> claim_task_id c \<noteq> msg_task_id m
               \<or> claim_generation c \<noteq> dt_generation (msg_token m)
           | _ \<Rightarrow> True) (wraps ErrInvalidPrepareResult))]"

text \<open>An accepted prepare result fixes the fate of its delivery. The action is the one its
  disposition prescribes; runnable work comes with the claimed disposition and with no other,
  and then the claim is that of the delivery's own executable message; and a delivery whose
  transport facts are not canonical can only be dead-lettered, never acknowledged, requeued
  or run.\<close>

theorem prepare_result_fixes_delivery:
  assumes "validate_result_for J H r request prepared = None"
  shows "(\<exists>e. prepare_result_matrix (pr_disposition r) = Some (pr_action r, e))
    \<and> (prepared \<longleftrightarrow> pr_action r = PromoteThenAckRun)
    \<and> (prepared \<longleftrightarrow> (\<exists>m. prq_message request = Some m \<and> pr_claim r =
          Some \<lparr> claim_tenant = msg_tenant m, claim_task_id = msg_task_id m,
                 claim_generation = dt_generation (msg_token m) \<rparr>))
    \<and> (\<not> can_execute H request \<longrightarrow> pr_action r = ConfirmDLQThenAck)"
proof -
  have req: "validate_prepare_request J H request = None"
    and res: "validate_prepare_result r prepared = None"
    and rep: "prq_message request = None \<longrightarrow> pr_disposition r = PPoison"
    and own: "pr_disposition r = PClaimed \<longrightarrow>
      (case (prq_message request, pr_claim r) of
         (Some m, Some c) \<Rightarrow> claim_tenant c = msg_tenant m \<and> claim_task_id c = msg_task_id m
           \<and> claim_generation c = dt_generation (msg_token m)
       | _ \<Rightarrow> False)"
    using assms by (auto simp: validate_result_for_def split: option.splits)
  have claim: "pr_disposition r = PClaimed \<longrightarrow> (\<exists>m c. prq_message request = Some m \<and> pr_claim r = Some c
      \<and> claim_tenant c = msg_tenant m \<and> claim_task_id c = msg_task_id m
      \<and> claim_generation c = dt_generation (msg_token m))"
    using own by (auto split: option.splits)
  have exec: "\<not> can_execute H request \<longrightarrow> prq_message request = None"
    using prepare_request_exec [OF req] by simp
  show ?thesis
    using res rep claim exec
    by (cases "pr_disposition r")
      (auto simp: validate_prepare_result_def prepare_result_matrix_def)
qed

definition sample_result :: prepare_result where
  "sample_result = \<lparr> pr_disposition = PClaimed, pr_action = PromoteThenAckRun,
     pr_effect = ClaimCommitted,
     pr_claim = Some \<lparr> claim_tenant = ''u1'', claim_task_id = ''7'', claim_generation = 3 \<rparr> \<rparr>"

lemma sample_result_valid:
  "validate_result_for sample_json sample_hash sample_result sample_request True = None"
  using sample_request_valid sample_message_valid
  by (simp add: validate_result_for_def validate_prepare_result_def prepare_result_matrix_def
      sample_result_def validate_claim_def sample_request_def sample_message_def sample_token_def
      validate_message_None max_int64_def)

theorem prepare_result_fixes_delivery_witness:
  "validate_result_for sample_json sample_hash sample_result sample_request True = None
   \<and> pr_action sample_result = PromoteThenAckRun"
  using prepare_result_fixes_delivery [OF sample_result_valid] sample_result_valid by simp

end
