(* ===== verification/Fq_Store.thy ===== *)
theory Fq_Store
  imports Fq_Config Fq_Message "HOL-Library.Product_Lexorder" "HOL-Library.Multiset"
begin

text \<open>
  The coordination state of one resource and the Lua helpers shared by the ready-path scripts
  (\<open>redisRuntimeLuaCommon\<close> in \<open>redis_runtime.go\<close>).  The sixteen keys of \<open>redisKeyspace\<close> and the
  tenant in-flight keys become the fields of the record \<open>coord\<close>: a hash is a map or, where its
  length is read, an association list; a set is a set; the ring is a list; a sorted set is an
  association list from members to integer scores (milliseconds).  A key that is absent is the
  empty collection; a key that holds a value of an unexpected type is in \<open>wrong_type\<close>.
\<close>

subsection \<open>Decimal strings in Lua\<close>

definition positive_decimal :: "string \<Rightarrow> bool" where
  "positive_decimal v =
     (case v of [] \<Rightarrow> False | c # cs \<Rightarrow> is_digit c \<and> c \<noteq> CHR ''0'' \<and> list_all is_digit cs)"

definition positive_int64 :: "string \<Rightarrow> bool" where
  "positive_int64 v =
     (if \<not> positive_decimal v \<or> length v > 19 then False
      else length v < 19 \<or> v \<le> ''9223372036854775807'')"

lemma digits_value_Cons:
  "digits_value (c # cs) = (byte_of c - 48) * 10 ^ length cs + digits_value cs"
proof (induction cs rule: rev_induct)
  case Nil
  then show ?case by (simp add: digits_value_def)
next
  case (snoc x xs)
  have "digits_value (c # xs @ [x]) = 10 * digits_value (c # xs) + (byte_of x - 48)"
    using digits_value_snoc [of "c # xs" x] by simp
  with snoc show ?case by (simp add: digits_value_snoc algebra_simps)
qed

lemma digits_value_less: "list_all is_digit s \<Longrightarrow> digits_value s < 10 ^ length s"
proof (induction s)
  case Nil
  then show ?case by (simp add: digits_value_def)
next
  case (Cons c cs)
  then have "byte_of c - 48 \<le> 9" and "digits_value cs < 10 ^ length cs"
    by (auto simp: is_digit_def)
  moreover from this(1) have "(byte_of c - 48) * 10 ^ length cs \<le> 9 * 10 ^ length cs"
    by (rule mult_le_mono1)
  ultimately have "(byte_of c - 48) * 10 ^ length cs + digits_value cs < 9 * 10 ^ length cs + 10 ^ length cs"
    by linarith
  then show ?case by (simp add: digits_value_Cons)
qed

lemma digit_less_iff:
  "is_digit c \<Longrightarrow> is_digit d \<Longrightarrow> c < d \<longleftrightarrow> byte_of c - 48 < byte_of d - (48 :: nat)"
  by (auto simp: is_digit_def less_char_def)

text \<open>On digit strings of one length, Lua's string order is the numeric order.\<close>

lemma digits_le_iff:
  "length s = length t \<Longrightarrow> list_all is_digit s \<Longrightarrow> list_all is_digit t \<Longrightarrow>
   s \<le> t \<longleftrightarrow> digits_value s \<le> digits_value t"
proof (induction s t rule: list_induct2)
  case Nil
  then show ?case by simp
next
  case (Cons c cs d ds)
  let ?m = "byte_of c - 48" and ?n = "byte_of d - (48 :: nat)"
  have dig: "is_digit c" "is_digit d" using Cons.prems by simp_all
  have lt: "digits_value cs < 10 ^ length ds" "digits_value ds < 10 ^ length ds"
    using Cons.prems Cons.hyps digits_value_less [of cs] digits_value_less [of ds] by simp_all
  have eq: "c = d \<longleftrightarrow> ?m = ?n"
    using digit_char_of_digit [OF dig(1)] digit_char_of_digit [OF dig(2)] by metis
  consider "?m = ?n" | "?m < ?n" | "?n < ?m" by linarith
  then show ?case
  proof cases
    case 1
    with eq have "c = d" by simp
    with Cons show ?thesis by (simp add: digits_value_Cons)
  next
    case 2
    then have less: "c < d" using digit_less_iff [OF dig] by simp
    from 2 have "(?m + 1) * 10 ^ length ds \<le> ?n * 10 ^ length ds" by (intro mult_le_mono1) simp
    with lt(1) have "digits_value (c # cs) \<le> digits_value (d # ds)"
      using Cons.hyps by (simp add: digits_value_Cons)
    with less show ?thesis by simp
  next
    case 3
    then have less: "d < c" using digit_less_iff [OF dig(2,1)] by simp
    from 3 have "(?n + 1) * 10 ^ length ds \<le> ?m * 10 ^ length ds" by (intro mult_le_mono1) simp
    with lt(2) have "digits_value (d # ds) < digits_value (c # cs)"
      using Cons.hyps by (simp add: digits_value_Cons)
    with less show ?thesis by auto
  qed
qed

lemma format_uint_length_le: "n < 10 ^ k \<Longrightarrow> 0 < k \<Longrightarrow> length (format_uint n) \<le> k"
proof (induction k arbitrary: n)
  case 0
  then show ?case by simp
next
  case (Suc k)
  show ?case
  proof (cases "n < 10")
    case True
    then show ?thesis by (subst format_uint.simps) simp
  next
    case False
    with Suc.prems have "0 < k" by (cases k) auto
    moreover have "n div 10 < 10 ^ k" using Suc.prems by (simp add: less_mult_imp_div_less)
    ultimately have "length (format_uint (n div 10)) \<le> k" using Suc.IH by blast
    with False show ?thesis by (subst format_uint.simps) simp
  qed
qed

lemma positive_decimal_iff:
  "positive_decimal s \<longleftrightarrow> s \<noteq> [] \<and> list_all is_digit s \<and> hd s \<noteq> CHR ''0''"
  by (cases s) (auto simp: positive_decimal_def)

lemma positive_decimal_format: "positive_decimal s \<Longrightarrow> format_uint (digits_value s) = s \<and> 0 < digits_value s"
  by (simp add: positive_decimal_iff format_uint_digits_value digits_value_pos)

lemma max_int64_digits: "digits_value ''9223372036854775807'' = max_int64" "list_all is_digit ''9223372036854775807''"
  by (simp_all add: digits_value_def max_int64_def is_digit_def)

text \<open>The validator, which compares decimal strings byte by byte, accepts exactly the canonical
  notations of the positive 63-bit integers.\<close>

lemma positive_int64_iff:
  "positive_int64 s \<longleftrightarrow> (\<exists>n. 0 < n \<and> n \<le> max_int64 \<and> s = format_uint n)"
proof
  assume "positive_int64 s"
  then have dec: "positive_decimal s" and len: "length s \<le> 19"
    and le: "length s < 19 \<or> s \<le> ''9223372036854775807''"
    by (auto simp: positive_int64_def split: if_splits)
  have dig: "list_all is_digit s" using dec by (simp add: positive_decimal_iff)
  have "digits_value s \<le> max_int64"
  proof (cases "length s < 19")
    case True
    then have "(10 :: nat) ^ length s \<le> 10 ^ 18" by (intro power_increasing) simp_all
    with digits_value_less [OF dig] show ?thesis by (simp add: max_int64_def)
  next
    case False
    with len have "length s = length ''9223372036854775807''" by simp
    with False le digits_le_iff [OF this dig max_int64_digits(2)] max_int64_digits(1)
    show ?thesis by simp
  qed
  with positive_decimal_format [OF dec] show "\<exists>n. 0 < n \<and> n \<le> max_int64 \<and> s = format_uint n"
    by metis
next
  assume "\<exists>n. 0 < n \<and> n \<le> max_int64 \<and> s = format_uint n"
  then obtain n where n: "0 < n" "n \<le> max_int64" and s: "s = format_uint n" by blast
  have dec: "positive_decimal s"
    using n(1) s by (simp add: positive_decimal_iff format_uint_not_Nil format_uint_digits format_uint_hd)
  have "n < 10 ^ 19" using n(2) by (simp add: max_int64_def)
  then have len: "length s \<le> 19" unfolding s by (rule format_uint_length_le) simp
  have "s \<le> ''9223372036854775807''" if "length s = 19"
  proof -
    have "length s = length ''9223372036854775807''" using that by simp
    then show ?thesis
      using digits_le_iff [OF _ _ max_int64_digits(2), of s] max_int64_digits(1) n(2) s
      by (simp add: digits_value_format_uint format_uint_digits)
  qed
  with dec len show "positive_int64 s" by (cases "length s = 19") (simp_all add: positive_int64_def)
qed

lemma positive_int64_format: "0 < n \<Longrightarrow> n \<le> max_int64 \<Longrightarrow> positive_int64 (format_uint n)"
  by (auto simp: positive_int64_iff)

lemma positive_int64_value:
  assumes "positive_int64 g"
  shows "format_uint (digits_value g) = g" "0 < digits_value g" "digits_value g \<le> max_int64"
  using assms by (auto simp: positive_int64_iff digits_value_format_uint)

lemma positive_int64_inject:
  "positive_int64 g \<Longrightarrow> positive_int64 h \<Longrightarrow> digits_value g = digits_value h \<longleftrightarrow> g = h"
  by (metis positive_int64_value(1))

lemma positive_int64_maximal:
  assumes "positive_int64 g"
  shows "length g = 19 \<and> g \<ge> ''9223372036854775807'' \<longleftrightarrow> digits_value g = max_int64"
proof -
  have dig: "list_all is_digit g"
    using assms format_uint_digits [of "digits_value g"] by (simp add: positive_int64_value)
  show ?thesis
  proof
    assume l: "length g = 19 \<and> g \<ge> ''9223372036854775807''"
    then have "length ''9223372036854775807'' = length g" by simp
    with l digits_le_iff [OF this max_int64_digits(2) dig] max_int64_digits(1)
      positive_int64_value(3) [OF assms]
    show "digits_value g = max_int64" by simp
  next
    assume "digits_value g = max_int64"
    then have "g = format_uint max_int64" using positive_int64_value(1) [OF assms] by simp
    moreover have "format_uint max_int64 = ''9223372036854775807''"
      using format_uint_digits_value [OF _ max_int64_digits(2)] max_int64_digits(1) by simp
    ultimately show "length g = 19 \<and> g \<ge> ''9223372036854775807''" by simp
  qed
qed

subsection \<open>Sorted sets\<close>

type_synonym zset = "(string \<times> int) list"

definition zscore :: "zset \<Rightarrow> string \<Rightarrow> int option" where
  "zscore z m = map_of z m"

definition zadd :: "int \<Rightarrow> string \<Rightarrow> zset \<Rightarrow> zset" where
  "zadd s m z = AList.update m s z"

definition zrem :: "string \<Rightarrow> zset \<Rightarrow> zset" where
  "zrem m z = AList.delete m z"

definition zcard :: "zset \<Rightarrow> nat" where
  "zcard z = length z"

text \<open>Members in the order of \<open>ZRANGE\<close>: by score, then bytewise.\<close>

definition zmembers :: "zset \<Rightarrow> string list" where
  "zmembers z = map fst (sort_key (\<lambda>(m, s). (s, m)) z)"

text \<open>\<open>ZRANGEBYSCORE key -inf now LIMIT 0 limit\<close>\<close>

definition zexpired :: "int \<Rightarrow> nat \<Rightarrow> zset \<Rightarrow> string list" where
  "zexpired now limit z = take limit (zmembers (filter (\<lambda>(m, s). s \<le> now) z))"

definition zwf :: "zset \<Rightarrow> bool" where
  "zwf z \<longleftrightarrow> distinct (map fst z)"

lemma zscore_zadd [simp]: "zscore (zadd s m z) m' = (if m' = m then Some s else zscore z m')"
  by (simp add: zscore_def zadd_def update_conv')

lemma zscore_zrem [simp]: "zscore (zrem m z) m' = (if m' = m then None else zscore z m')"
  by (simp add: zscore_def zrem_def delete_conv')

lemma zwf_zadd [simp]: "zwf z \<Longrightarrow> zwf (zadd s m z)"
  by (simp add: zwf_def zadd_def distinct_update)

lemma zwf_zrem [simp]: "zwf z \<Longrightarrow> zwf (zrem m z)"
  by (simp add: zwf_def zrem_def distinct_delete)

lemma zwf_Nil [simp]: "zwf []" "zscore [] m = None"
  by (simp_all add: zwf_def zscore_def)

lemma zset_iff: "zwf z \<Longrightarrow> (m, s) \<in> set z \<longleftrightarrow> zscore z m = Some s"
  by (simp add: zwf_def zscore_def map_of_eq_Some_iff)

lemma zmembers_set [simp]: "set (zmembers z) = {m. zscore z m \<noteq> None}"
proof -
  have "set (zmembers z) = fst ` set z" by (simp add: zmembers_def)
  also have "\<dots> = {m. zscore z m \<noteq> None}" by (auto simp: zscore_def map_of_eq_None_iff)
  finally show ?thesis .
qed

lemma length_zmembers [simp]: "length (zmembers z) = zcard z"
  by (simp add: zmembers_def zcard_def)

lemma distinct_zmembers [simp]: "zwf z \<Longrightarrow> distinct (zmembers z)"
proof -
  assume "zwf z"
  moreover have "mset (map fst (sort_key (\<lambda>(m, s). (s, m)) z)) = mset (map fst z)"
    by simp
  ultimately show ?thesis
    unfolding zmembers_def zwf_def using mset_eq_imp_distinct_iff by blast
qed

lemma zscore_filter: "zwf z \<Longrightarrow> zscore (filter (\<lambda>(m, s). P m s) z) m =
   (case zscore z m of Some s \<Rightarrow> if P m s then Some s else None | None \<Rightarrow> None)"
  by (induction z) (auto simp: zwf_def zscore_def map_of_eq_None_iff [symmetric] split: option.splits)

lemma zwf_filter [simp]: "zwf z \<Longrightarrow> zwf (filter p z)"
  by (simp add: zwf_def distinct_map_filter)

lemma zexpired_in: "zwf z \<Longrightarrow> m \<in> set (zexpired now limit z) \<Longrightarrow> \<exists>s. zscore z m = Some s \<and> s \<le> now"
  unfolding zexpired_def
  by (drule in_set_takeD) (auto simp: zscore_filter split: option.splits if_splits)

lemma distinct_zexpired [simp]: "zwf z \<Longrightarrow> distinct (zexpired now limit z)"
  by (simp add: zexpired_def)

lemma zcard_card: "zwf z \<Longrightarrow> zcard z = card {m. zscore z m \<noteq> None}"
  using distinct_card [OF distinct_zmembers] by (metis length_zmembers zmembers_set)

lemma zset_finite [simp]: "finite {m. \<exists>s. zscore z m = Some s}"
  using finite_set [of "zmembers z"] by simp

end
