(* ===== verification/Fq_Keys.thy ===== *)
theory Fq_Keys
  imports Fq_Store
begin

text \<open>
  The Redis key space of a resource (\<open>buildRedisKeyspace\<close> and \<open>tenantInflight\<close> in
  \<open>redis.go\<close>), and why every key can be treated as a collection of its own.
\<close>

subsection \<open>The key space\<close>

record keyspace =
  ks_root :: string
  ks_control :: string
  ks_recovery_lock :: string
  ks_progress :: string
  ks_ring :: string
  ks_ring_members :: string
  ks_active_users :: string
  ks_known_users :: string
  ks_activation_generation :: string
  ks_processing_turns :: string
  ks_turn_to_tenant :: string
  ks_turn_to_generation :: string
  ks_tenant_to_turn :: string
  ks_global_inflight :: string
  ks_provisional :: string
  ks_stable_index :: string
  ks_reservation_metadata :: string

definition keyspace_all :: "keyspace \<Rightarrow> string list" where
  "keyspace_all k =
     [ks_control k, ks_recovery_lock k, ks_progress k, ks_ring k, ks_ring_members k,
      ks_active_users k, ks_known_users k, ks_activation_generation k,
      ks_processing_turns k, ks_turn_to_tenant k, ks_turn_to_generation k, ks_tenant_to_turn k,
      ks_global_inflight k, ks_provisional k, ks_stable_index k, ks_reservation_metadata k]"

definition redis_maximum_prefix_bytes :: nat where "redis_maximum_prefix_bytes = 512"
definition max_redis_key_bytes :: nat where "max_redis_key_bytes = 4096"

definition validate_redis_key_prefix :: "string \<Rightarrow> goerr" where
  "validate_redis_key_prefix p =
     first_err [
       fail_when (p = [] \<or> has_surrounding_space p \<or> length p > redis_maximum_prefix_bytes \<or> \<not> valid_utf8 p)
         (wraps ErrInvalidModel),
       fail_when (list_ex (\<lambda>c. c \<in> set ''{}*?[]'' \<or> c = CHR 0x5C) p) (wraps ErrInvalidModel),
       fail_when (case runes p of None \<Rightarrow> False | Some rs \<Rightarrow> list_ex (\<lambda>r. r = 0 \<or> is_control r) rs)
         (wraps ErrInvalidModel)]"

definition keyspace_root :: "string \<Rightarrow> string \<Rightarrow> string" where
  "keyspace_root prefix resource = prefix @ ''fair:{'' @ resource @ ''}:''"

definition keys_of_root :: "string \<Rightarrow> keyspace" where
  "keys_of_root root = \<lparr>
     ks_root = root,
     ks_control = root @ ''resource'',
     ks_recovery_lock = root @ ''recovery_lock'',
     ks_progress = root @ ''recovery_progress'',
     ks_ring = root @ ''ring'',
     ks_ring_members = root @ ''ring_members'',
     ks_active_users = root @ ''active_users'',
     ks_known_users = root @ ''known_users'',
     ks_activation_generation = root @ ''activation_gen'',
     ks_processing_turns = root @ ''processing_turns'',
     ks_turn_to_tenant = root @ ''turn_to_tenant'',
     ks_turn_to_generation = root @ ''turn_to_generation'',
     ks_tenant_to_turn = root @ ''tenant_to_turn'',
     ks_global_inflight = root @ ''inflight'',
     ks_provisional = root @ ''provisional'',
     ks_stable_index = root @ ''inflight:stable_index'',
     ks_reservation_metadata = root @ ''reservation_meta'' \<rparr>"

definition build_redis_keyspace :: "string \<Rightarrow> string \<Rightarrow> keyspace result" where
  "build_redis_keyspace prefix resource =
     check_err (validate_redis_key_prefix prefix)
       (check_err (as_sentinel ErrInvalidModel (validate_resource resource))
         (let keys = keys_of_root (keyspace_root prefix resource)
          in if list_ex (\<lambda>k. length k > max_redis_key_bytes) (keyspace_all keys)
             then Inl [ErrInvalidModel] else Inr keys))"

definition tenant_key_prefix :: "keyspace \<Rightarrow> string" where
  "tenant_key_prefix k = ks_root k @ ''inflight:tenant:''"

definition tenant_inflight_key ::
  "(string \<Rightarrow> string) \<Rightarrow> keyspace \<Rightarrow> string \<Rightarrow> string \<Rightarrow> string result" where
  "tenant_inflight_key H k resource tenant =
     (case tenant_hash H resource tenant of
        Inl _ \<Rightarrow> Inl [ErrInvalidModel]
      | Inr h \<Rightarrow>
          (let key = tenant_key_prefix k @ h
           in if length key > max_redis_key_bytes then Inl [ErrInvalidModel] else Inr key))"

lemma resource_no_brace: "validate_resource r = None \<Longrightarrow> CHR ''}'' \<notin> set r"
proof -
  assume "validate_resource r = None"
  then have "list_all is_ident_char r"
    by (auto simp: validate_resource_None resource_pattern_def is_ident_char_def split: list.splits)
  moreover have "\<not> is_ident_char CHR ''}''"
    by (simp add: is_ident_char_def is_alnum_lower_def is_digit_def)
  ultimately show ?thesis by (auto simp: list_all_iff)
qed

lemma keyspace_root_inject:
  assumes "validate_resource r = None" and "validate_resource r' = None"
    and "keyspace_root p r @ x = keyspace_root p r' @ y"
  shows "r = r' \<and> x = y"
proof -
  from assms(3) have "r @ CHR ''}'' # '':'' @ x = r' @ CHR ''}'' # '':'' @ y"
    by (simp add: keyspace_root_def)
  then show ?thesis
    using append_sep_inject [OF resource_no_brace [OF assms(1)] resource_no_brace [OF assms(2)]] by simp
qed

text \<open>The coordination keys never alias. Within a resource the sixteen keys are pairwise
  distinct and differ from every tenant's in-flight key; two resources under one prefix share
  no key; and two tenants share an in-flight key only if the digest of their names collides.
  So each key can be treated as a collection of its own.\<close>

theorem keyspace_no_alias:
  assumes "build_redis_keyspace prefix resource = Inr k"
    and "build_redis_keyspace prefix resource' = Inr k'"
    and "tenant_inflight_key H k resource tenant = Inr tk"
    and "tenant_inflight_key H k' resource' tenant' = Inr tk'"
  shows "distinct (tk # keyspace_all k)
    \<and> (resource \<noteq> resource' \<longrightarrow> set (tk # keyspace_all k) \<inter> set (tk' # keyspace_all k') = {})
    \<and> (tk = tk' \<longrightarrow> tenant_hash H resource tenant = tenant_hash H resource' tenant')"
proof -
  let ?root = "keyspace_root prefix resource" and ?root' = "keyspace_root prefix resource'"
  have k: "k = keys_of_root ?root" "k' = keys_of_root ?root'"
    and v: "validate_resource resource = None" "validate_resource resource' = None"
    using assms(1,2) by (auto simp: build_redis_keyspace_def Let_def split: if_splits)
  obtain h h' where h: "tenant_hash H resource tenant = Inr h" "tenant_hash H resource' tenant' = Inr h'"
    and tk: "tk = ?root @ ''inflight:tenant:'' @ h" "tk' = ?root' @ ''inflight:tenant:'' @ h'"
    using assms(3,4) k
    by (auto simp: tenant_inflight_key_def tenant_key_prefix_def keys_of_root_def Let_def
        split: sum.splits if_splits)
  have dist: "distinct (tk # keyspace_all k)"
    by (simp add: k tk keys_of_root_def keyspace_all_def)
  have shape: "\<exists>x. a = ?root @ x" if "a \<in> set (tk # keyspace_all k)" for a
    using that by (auto simp: k tk keys_of_root_def keyspace_all_def)
  have shape': "\<exists>x. a = ?root' @ x" if "a \<in> set (tk' # keyspace_all k')" for a
    using that by (auto simp: k tk keys_of_root_def keyspace_all_def)
  have apart: "resource \<noteq> resource' \<longrightarrow> set (tk # keyspace_all k) \<inter> set (tk' # keyspace_all k') = {}"
    using shape shape' keyspace_root_inject [OF v] by (metis disjoint_iff)
  have "tk = tk' \<longrightarrow> tenant_hash H resource tenant = tenant_hash H resource' tenant'"
    using tk h keyspace_root_inject [OF v, of prefix] by auto
  with dist apart show ?thesis by blast
qed

definition hex_digest :: "string \<Rightarrow> string" where
  "hex_digest s = replicate 63 CHR ''0'' @ (if length s < 7 then ''a'' else ''b'')"

lemma bkcrab_prefix_valid: "validate_redis_key_prefix ''bk:'' = None"
  by (simp add: validate_redis_key_prefix_def has_surrounding_space_def runes_def is_space_def
      valid_utf8_def redis_maximum_prefix_bytes_def is_control_def)

lemma sample_names_valid:
  "validate_resource ''rag'' = None" "validate_resource ''mail'' = None"
  "validate_tenant_id ''u1'' = None" "validate_tenant_id ''user2'' = None"
  by (simp_all add: validate_resource_None resource_pattern_def is_alnum_lower_def is_digit_def
      is_ident_char_def validate_tenant_id_def validate_bounded_text_None text_bounds runes_def is_control_def)

lemma sample_keyspaces:
  "build_redis_keyspace ''bk:'' ''rag'' = Inr (keys_of_root ''bk:fair:{rag}:'')"
  "build_redis_keyspace ''bk:'' ''mail'' = Inr (keys_of_root ''bk:fair:{mail}:'')"
  by (simp_all add: build_redis_keyspace_def bkcrab_prefix_valid sample_names_valid keyspace_root_def
      Let_def keys_of_root_def keyspace_all_def max_redis_key_bytes_def)

lemma sample_tenant_keys:
  "tenant_inflight_key hex_digest (keys_of_root ''bk:fair:{rag}:'') ''rag'' ''u1'' =
     Inr (''bk:fair:{rag}:inflight:tenant:'' @ hex_digest ''123456'')"
  "tenant_inflight_key hex_digest (keys_of_root ''bk:fair:{mail}:'') ''mail'' ''user2'' =
     Inr (''bk:fair:{mail}:inflight:tenant:'' @ hex_digest ''1234567'')"
  by (simp_all add: tenant_inflight_key_def tenant_hash_def sample_names_valid hex_digest_def
      tenant_key_prefix_def keys_of_root_def Let_def max_redis_key_bytes_def)

theorem keyspace_no_alias_witness:
  "set (keyspace_all (keys_of_root ''bk:fair:{rag}:''))
     \<inter> set (keyspace_all (keys_of_root ''bk:fair:{mail}:'')) = {}"
  using keyspace_no_alias [OF sample_keyspaces sample_tenant_keys] by auto

end
