(* ===== verification/Fq_Coord.thy ===== *)
theory Fq_Coord
  imports Fq_Keys
begin

text \<open>
  The coordination state of a resource and what all ready-path operations share: the READY
  fence check of the Lua scripts, and the Go side of a script call in \<open>redis_runtime.go\<close>
  (argument validation, transport, result codes).
\<close>

subsection \<open>The coordination state\<close>

datatype redis_key =
    KControl | KProgress | KRing | KRingMembers | KActiveUsers | KKnownUsers | KActivationGen
  | KProcessingTurns | KTurnToTenant | KTurnToGeneration | KTenantToTurn | KGlobalInflight
  | KProvisional | KStableIndex | KReservationMeta | KTenantInflight string

text \<open>
  A reservation's metadata is kept as the JSON value its text decodes to, \<open>None\<close> when
  \<open>cjson.decode\<close> fails on it.
\<close>

text \<open>The recovery lock: absent, a value that is not a string, or a string with the time at which the key
  expires, if any.\<close>

datatype lock_value = LockAbsent | LockWrongType | LockHeld string "int option"

record coord =
  control :: "(string \<times> string) list"
  progress :: "(string \<times> string) list"
  recovery_lock :: lock_value
  wrong_type :: "redis_key set"
  ring :: "string list"
  ring_members :: "string set"
  active_users :: "string set"
  known_users :: "string set"
  activation_gen :: "string \<rightharpoonup> string"
  processing_turns :: zset
  turn_to_tenant :: "string \<rightharpoonup> string"
  turn_to_generation :: "string \<rightharpoonup> string"
  tenant_to_turn :: "string \<rightharpoonup> string"
  global_inflight :: zset
  provisional :: zset
  stable_index :: zset
  tenant_inflight :: "string \<Rightarrow> zset"
  reservation_meta :: "(string \<times> json option) list"

type_synonym reply = "string list"
type_synonym script = "coord \<Rightarrow> coord \<times> reply"

abbreviation OK :: string where "OK \<equiv> ''OK''"
abbreviation EMPTY :: string where "EMPTY \<equiv> ''EMPTY''"
abbreviation NOT_READY :: string where "NOT_READY \<equiv> ''FQ_NOT_READY''"
abbreviation FENCE :: string where "FENCE \<equiv> ''FQ_FENCE_MISMATCH''"
abbreviation CORRUPT :: string where "CORRUPT \<equiv> ''FQ_COORDINATION_CORRUPT''"
abbreviation INVALID :: string where "INVALID \<equiv> ''FQ_INVALID_STATE''"

text \<open>\<open>type_is(key, expected)\<close>: absent or of the expected type.\<close>

definition types_ok :: "coord \<Rightarrow> redis_key list \<Rightarrow> bool" where
  "types_ok c ks \<longleftrightarrow> list_all (\<lambda>k. k \<notin> wrong_type c) ks"

lemma types_ok_empty [simp]: "wrong_type c = {} \<Longrightarrow> types_ok c ks"
  by (simp add: types_ok_def list_all_iff)

subsection \<open>The READY fence\<close>

definition special_kind :: "string \<Rightarrow> bool" where
  "special_kind v \<longleftrightarrow> v = ''RABBIT_REPAIR'' \<or> v = ''WRITER_REBIND'' \<or> v = ''FORCE_REBUILD''"

fun canonical_control :: "string option list \<Rightarrow> bool" where
  "canonical_control [Some v1, Some v2, Some v3, Some v4, Some v5, Some v6, Some v7, Some v8] =
     (if \<not> lower_hex 32 v4 \<or> \<not> positive_int64 v5 \<or> \<not> lower_hex 64 v6
         \<or> (v7 = [] \<and> v8 \<noteq> ''NONE'')
         \<or> (v7 \<noteq> [] \<and> (\<not> lower_hex 32 v7 \<or> \<not> special_kind v8))
      then False
      else if v1 = ''READY'' then v2 = ''NONE'' \<and> v3 = []
      else if v1 \<noteq> ''RECOVERING'' then False
      else if v2 = ''NORMAL'' then v3 = []
      else if \<not> special_kind v2 then False
      else lower_hex 32 v3)"
| "canonical_control _ = False"

definition hmget :: "(string \<times> string) list \<Rightarrow> string list \<Rightarrow> string option list" where
  "hmget h fs = map (map_of h) fs"

definition control_fields :: "string list" where
  "control_fields = [''state'', ''operation_kind'', ''operation_id'', ''epoch'',
     ''protocol_version'', ''writer_fingerprint'', ''last_completed_operation_id'',
     ''last_completed_operation_kind'']"

text \<open>The part of the check that \<open>check_ready\<close> and the observe script share: the control hash
  exists, is canonical and READY, and no recovery progress is left.\<close>

definition read_control :: "coord \<Rightarrow> string + string list" where
  "read_control c =
     (if KControl \<notin> wrong_type c \<and> control c = [] then Inl NOT_READY
      else if KControl \<in> wrong_type c then Inl CORRUPT
      else let values = hmget (control c) control_fields
           in if \<not> canonical_control values then Inl CORRUPT
              else if values ! 0 = Some ''RECOVERING'' then Inl NOT_READY
              else if progress c \<noteq> [] \<or> KProgress \<in> wrong_type c then Inl CORRUPT
              else Inr (map the values))"

definition check_ready :: "string \<Rightarrow> string \<Rightarrow> coord \<Rightarrow> string" where
  "check_ready epoch writer c =
     (case read_control c of
        Inl code \<Rightarrow> code
      | Inr values \<Rightarrow>
          if values ! 4 \<noteq> ''1'' \<or> values ! 3 \<noteq> epoch \<or> values ! 5 \<noteq> writer then FENCE else OK)"

definition lua_observe_ready :: "string \<Rightarrow> script" where
  "lua_observe_ready writer c =
     (c, case read_control c of
           Inl code \<Rightarrow> [code]
         | Inr values \<Rightarrow>
             if values ! 4 \<noteq> ''1'' \<or> values ! 5 \<noteq> writer then [FENCE]
             else [OK, values ! 3, values ! 5])"

text \<open>A script body runs only behind the fence check.\<close>

definition fenced :: "string \<Rightarrow> string \<Rightarrow> script \<Rightarrow> script" where
  "fenced epoch writer body c =
     (let ready = check_ready epoch writer c
      in if ready \<noteq> OK then (c, [ready]) else body c)"

definition lua_check_ready :: "string \<Rightarrow> string \<Rightarrow> script" where
  "lua_check_ready epoch writer c = (c, [check_ready epoch writer c])"

definition lua_ensure_known :: "string \<Rightarrow> string \<Rightarrow> string \<Rightarrow> script" where
  "lua_ensure_known epoch writer tenant = fenced epoch writer (\<lambda>c.
     if \<not> types_ok c [KKnownUsers] then (c, [CORRUPT])
     else (c\<lparr> known_users := insert tenant (known_users c) \<rparr>, [OK]))"

lemma check_ready_codes: "check_ready e w c \<in> {OK, NOT_READY, FENCE, CORRUPT}"
  by (auto simp: check_ready_def read_control_def Let_def split: sum.splits if_splits)

lemma fenced_not_ready: "check_ready e w c \<noteq> OK \<Longrightarrow> fenced e w body c = (c, [check_ready e w c])"
  by (simp add: fenced_def)

lemma fenced_ready [simp]: "check_ready e w c = OK \<Longrightarrow> fenced e w body c = body c"
  by (simp add: fenced_def)

subsection \<open>The Go side of a script call\<close>

record resource_fence =
  fence_epoch :: string
  fence_writer :: string

definition validate_fence :: "resource_fence \<Rightarrow> goerr" where
  "validate_fence f =
     fail_when (\<not> lower_hex 32 (fence_epoch f) \<or> \<not> lower_hex 64 (fence_writer f))
       (wraps ErrInvalidRecoveryState)"

text \<open>
  How a call of the Redis client ends: with the script's reply, or with an error after which the
  script has been executed or not.  The error classes are those \<open>runRuntimeScript\<close> tells apart.
\<close>

datatype net_error = NetCanceled | NetDeadline | NetTopology | NetScriptFault | NetOther

datatype transport = Delivered | Lost bool net_error

definition runtime_net_error :: "net_error \<Rightarrow> sentinel list" where
  "runtime_net_error e =
     (case e of
        NetCanceled \<Rightarrow> [ErrDependencyUnavailable, ErrContextCanceled]
      | NetDeadline \<Rightarrow> [ErrDependencyUnavailable, ErrDeadlineExceeded]
      | NetTopology \<Rightarrow> [ErrUnsupportedTopology]
      | NetScriptFault \<Rightarrow> [ErrCoordinationCorrupt]
      | NetOther \<Rightarrow> [ErrDependencyUnavailable])"

type_synonym 'a coord_op = "coord \<Rightarrow> 'a result \<times> coord"

definition run_runtime_script :: "transport \<Rightarrow> script \<Rightarrow> reply coord_op" where
  "run_runtime_script net s c =
     (case net of
        Delivered \<Rightarrow> (case s c of (c', values) \<Rightarrow> (Inr values, c'))
      | Lost executed e \<Rightarrow> (Inl (runtime_net_error e), if executed then fst (s c) else c))"

definition redis_script_error :: "string \<Rightarrow> sentinel list" where
  "redis_script_error code =
     (if code = NOT_READY then [ErrResourceNotReady]
      else if code = FENCE \<or> code = INVALID then [ErrFenceMismatch]
      else if code = ''FQ_RECOVERY_OWNER_STALE'' then [ErrRecoveryOwnerStale]
      else [ErrCoordinationCorrupt])"

definition redis_runtime_result_error :: "reply \<Rightarrow> goerr" where
  "redis_runtime_result_error values =
     (case values of
        [] \<Rightarrow> wraps ErrCoordinationCorrupt
      | code # _ \<Rightarrow> if code \<noteq> OK then Some (redis_script_error code) else None)"

definition redis_runtime_expect_ok :: "reply \<Rightarrow> goerr" where
  "redis_runtime_expect_ok values =
     (if length values \<noteq> 1 then wraps ErrCoordinationCorrupt else redis_runtime_result_error values)"

text \<open>\<open>strconv.ParseInt\<close> and \<open>strconv.ParseUint\<close>, base 10, 64 bits\<close>

definition parse_uint64 :: "string \<Rightarrow> 64 word option" where
  "parse_uint64 s =
     (if s \<noteq> [] \<and> list_all is_digit s \<and> digits_value s < 2 ^ 64
      then Some (word_of_nat (digits_value s)) else None)"

definition parse_int64 :: "string \<Rightarrow> int option" where
  "parse_int64 s =
     (let (neg, ds) = (case s of [] \<Rightarrow> (False, [])
                       | c # cs \<Rightarrow> if c = CHR ''-'' then (True, cs)
                                  else if c = CHR ''+'' then (False, cs) else (False, s));
          v = (if neg then - int (digits_value ds) else int (digits_value ds))
      in if ds \<noteq> [] \<and> list_all is_digit ds \<and> - (2 ^ 63) \<le> v \<and> v < 2 ^ 63 then Some v else None)"

definition redis_result_uint64 :: "string \<Rightarrow> 64 word option" where
  "redis_result_uint64 s =
     (case parse_uint64 s of None \<Rightarrow> None | Some g \<Rightarrow> if g > 0 then Some g else None)"

lemma redis_result_uint64_format:
  assumes "0 < n" and "n \<le> max_int64"
  shows "redis_result_uint64 (format_uint n) = Some (word_of_nat n)" "unat (word_of_nat n :: 64 word) = n"
proof -
  have n: "n < 2 ^ 64" using assms(2) by (simp add: max_int64_def)
  then show u: "unat (word_of_nat n :: 64 word) = n" by (simp add: unsigned_of_nat take_bit_nat_eq_self)
  with assms(1) have "(word_of_nat n :: 64 word) > 0" by (metis unsigned_0 word_neq_0_conv less_numeral_extra(3))
  with n show "redis_result_uint64 (format_uint n) = Some (word_of_nat n)"
    by (simp add: redis_result_uint64_def parse_uint64_def format_uint_not_Nil format_uint_digits
        digits_value_format_uint)
qed

lemma positive_int64_go:
  "positive_int64 s \<longleftrightarrow>
     (\<exists>g. redis_result_uint64 s = Some g \<and> unat g \<le> max_int64 \<and> format_uint (unat g) = s)"
proof
  assume "positive_int64 s"
  then show "\<exists>g. redis_result_uint64 s = Some g \<and> unat g \<le> max_int64 \<and> format_uint (unat g) = s"
    using redis_result_uint64_format by (auto simp: positive_int64_iff)
next
  assume "\<exists>g. redis_result_uint64 s = Some g \<and> unat g \<le> max_int64 \<and> format_uint (unat g) = s"
  then obtain g where g: "redis_result_uint64 s = Some g" "unat g \<le> max_int64" "format_uint (unat g) = s"
    by blast
  from g(1) have "g > 0" by (auto simp: redis_result_uint64_def split: option.splits if_splits)
  then have "0 < unat g" by (metis unsigned_eq_0_iff neq0_conv less_irrefl)
  with g show "positive_int64 s" using positive_int64_format by metis
qed

text \<open>The generations that the Lua scripts accept from the store, by comparing decimal strings
  byte by byte, are exactly those that the Go side parses to a value in 1..MaxInt64 and prints
  back unchanged. So a generation survives the trip from a script to a \<open>ProcessingTurn\<close> and back
  to \<open>RotateOrDeactivate\<close>, where it is compared as a string.\<close>

theorem stored_generation_roundtrip:
  "positive_int64 s \<longleftrightarrow>
     (\<exists>g. redis_result_uint64 s = Some g \<and> unat g \<le> max_int64 \<and> format_uint (unat g) = s)"
  by (rule positive_int64_go)

definition redis_runtime_ttl_ms :: "int \<Rightarrow> int result" where
  "redis_runtime_ttl_ms ttl =
     (if ttl \<le> 0 \<or> ttl > max_resource_duration then Inl [ErrInvalidModel]
      else let ms = ttl div 1000000;
               ms = (if ttl mod 1000000 \<noteq> 0 then ms + 1 else ms)
           in Inr (if ms \<le> 0 then 1 else ms))"

definition valid_runtime_fence :: "string \<Rightarrow> string \<Rightarrow> resource_fence \<Rightarrow> keyspace result" where
  "valid_runtime_fence prefix resource fence =
     (case build_redis_keyspace prefix resource of
        Inl e \<Rightarrow> Inl e
      | Inr k \<Rightarrow> check_err (as_sentinel ErrInvalidModel (validate_fence fence)) (Inr k))"

definition valid_runtime_tenant ::
  "string \<Rightarrow> string \<Rightarrow> resource_fence \<Rightarrow> string \<Rightarrow> keyspace result" where
  "valid_runtime_tenant prefix resource fence tenant =
     (case valid_runtime_fence prefix resource fence of
        Inl e \<Rightarrow> Inl e
      | Inr k \<Rightarrow> check_err (as_sentinel ErrInvalidModel (validate_tenant_id tenant)) (Inr k))"

definition valid_runtime_reservation ::
  "(string \<Rightarrow> string) \<Rightarrow> string \<Rightarrow> string \<Rightarrow> resource_fence \<Rightarrow> string \<Rightarrow> (keyspace \<times> string) result" where
  "valid_runtime_reservation H prefix resource fence tenant =
     (case valid_runtime_tenant prefix resource fence tenant of
        Inl e \<Rightarrow> Inl e
      | Inr k \<Rightarrow> (case tenant_inflight_key H k resource tenant of
                     Inl e \<Rightarrow> Inl e
                   | Inr tk \<Rightarrow> Inr (k, tk)))"

text \<open>Validate the arguments, run the script, then read the reply.\<close>

definition redis_call ::
  "transport \<Rightarrow> 'k result \<Rightarrow> ('k \<Rightarrow> script) \<Rightarrow> ('k \<Rightarrow> reply \<Rightarrow> 'a result) \<Rightarrow> 'a coord_op" where
  "redis_call net args s parse c =
     (case args of
        Inl e \<Rightarrow> (Inl e, c)
      | Inr k \<Rightarrow>
          (case run_runtime_script net (s k) c of
             (Inl e, c') \<Rightarrow> (Inl e, c')
           | (Inr values, c') \<Rightarrow> (parse k values, c')))"

definition expect_ok :: "reply \<Rightarrow> unit result" where
  "expect_ok values = check_err (redis_runtime_expect_ok values) (Inr ())"

definition observe_ready_fence :: "transport \<Rightarrow> string \<Rightarrow> string \<Rightarrow> string \<Rightarrow> resource_fence coord_op" where
  "observe_ready_fence net prefix resource expected_writer =
     redis_call net
       (check_err (fail_when (\<not> lower_hex 64 expected_writer) (wraps ErrInvalidModel))
         (build_redis_keyspace prefix resource))
       (\<lambda>_. lua_observe_ready expected_writer)
       (\<lambda>_ values. check_err (redis_runtime_result_error values)
          (case values of
             [_, epoch, writer] \<Rightarrow>
               (let fence = \<lparr> fence_epoch = epoch, fence_writer = writer \<rparr>
                in if validate_fence fence \<noteq> None then Inl [ErrCoordinationCorrupt] else Inr fence)
           | _ \<Rightarrow> Inl [ErrCoordinationCorrupt]))"

definition check_ready_fence :: "transport \<Rightarrow> string \<Rightarrow> string \<Rightarrow> resource_fence \<Rightarrow> unit coord_op" where
  "check_ready_fence net prefix resource fence =
     redis_call net (valid_runtime_fence prefix resource fence)
       (\<lambda>_. lua_check_ready (fence_epoch fence) (fence_writer fence)) (\<lambda>_. expect_ok)"

definition ensure_known_tenant ::
  "transport \<Rightarrow> string \<Rightarrow> string \<Rightarrow> resource_fence \<Rightarrow> string \<Rightarrow> unit coord_op" where
  "ensure_known_tenant net prefix resource fence tenant =
     redis_call net (valid_runtime_tenant prefix resource fence tenant)
       (\<lambda>_. lua_ensure_known (fence_epoch fence) (fence_writer fence) tenant) (\<lambda>_. expect_ok)"

end
