(* ===== verification/Fq_Turns.thy ===== *)
theory Fq_Turns
  imports Fq_Coord
begin

text \<open>
  The fair ring: \<open>redisActivateScript\<close>, \<open>redisNextTurnScript\<close> and \<open>redisRotateScript\<close> with their
  Go callers, the ring invariant, and the abstract fair queue they implement.
\<close>

subsection \<open>The scripts\<close>

definition ring_keys :: "redis_key list" where
  "ring_keys = [KRing, KRingMembers, KActiveUsers, KKnownUsers, KActivationGen, KProcessingTurns,
     KTurnToTenant, KTurnToGeneration, KTenantToTurn]"

definition generation_unusable :: "string option \<Rightarrow> bool" where
  "generation_unusable g =
     (case g of None \<Rightarrow> False
      | Some v \<Rightarrow> \<not> positive_int64 v \<or> length v > 19 \<or> (length v = 19 \<and> v \<ge> ''9223372036854775807''))"

text \<open>\<open>HINCRBY key tenant 1\<close>\<close>

definition hincr :: "string option \<Rightarrow> string" where
  "hincr g = format_uint ((case g of None \<Rightarrow> 0 | Some v \<Rightarrow> digits_value v) + 1)"

text \<open>\<open>LPOS key tenant COUNT n\<close>, of which only emptiness is used\<close>

definition lpos :: "string \<Rightarrow> string list \<Rightarrow> nat list" where
  "lpos t xs = filter (\<lambda>i. xs ! i = t) [0..<length xs]"

definition lua_activate :: "string \<Rightarrow> string \<Rightarrow> string \<Rightarrow> script" where
  "lua_activate epoch writer tenant = fenced epoch writer (\<lambda>c.
     if \<not> types_ok c ring_keys then (c, [CORRUPT])
     else if generation_unusable (activation_gen c tenant) then (c, [CORRUPT])
     else
       let turn = tenant_to_turn c tenant;
           member = tenant \<in> ring_members c;
           positions = take 2 (lpos tenant (ring c))
       in if (member \<and> positions = []) \<or> (turn \<noteq> None \<and> member) then (c, [CORRUPT])
       else if (case turn of None \<Rightarrow> False
                | Some tok \<Rightarrow> zscore (processing_turns c) tok = None
                    \<or> turn_to_tenant c tok \<noteq> Some tenant \<or> turn_to_generation c tok = None)
            then (c, [CORRUPT])
       else
         let c = c\<lparr> known_users := insert tenant (known_users c),
                    activation_gen := (activation_gen c)(tenant \<mapsto> hincr (activation_gen c tenant)),
                    active_users := insert tenant (active_users c) \<rparr>
         in if turn = None \<and> \<not> member
            then (c\<lparr> ring_members := insert tenant (ring_members c),
                     ring := (if positions = [] then ring c @ [tenant] else ring c) \<rparr>, [OK])
            else (c, [OK]))"

datatype scan = ScanCorrupt | ScanNone nat | ScanFound nat string string

text \<open>The candidate loop: \<open>n\<close> counts the discarded ring entries before the current one.\<close>

fun scan_ring :: "coord \<Rightarrow> nat \<Rightarrow> string list \<Rightarrow> scan" where
  "scan_ring c n [] = ScanNone n"
| "scan_ring c n (candidate # rest) =
     (if candidate \<notin> known_users c then ScanCorrupt
      else
        let member = candidate \<in> ring_members c;
            active = candidate \<in> active_users c
        in case tenant_to_turn c candidate of
             Some existing \<Rightarrow>
               if member \<or> \<not> active \<or> zscore (processing_turns c) existing = None
                 \<or> turn_to_tenant c existing \<noteq> Some candidate
                 \<or> (case turn_to_generation c existing of None \<Rightarrow> True | Some g \<Rightarrow> \<not> positive_int64 g)
               then ScanCorrupt
               else scan_ring c (n + 1) rest
           | None \<Rightarrow>
               if active then
                 (case activation_gen c candidate of
                    None \<Rightarrow> ScanCorrupt
                  | Some generation \<Rightarrow>
                      if \<not> positive_int64 generation then ScanCorrupt
                      else ScanFound n candidate generation)
               else if member then ScanCorrupt
               else scan_ring c (n + 1) rest)"

definition lua_next_turn ::
  "string \<Rightarrow> string \<Rightarrow> string \<Rightarrow> int \<Rightarrow> nat \<Rightarrow> int \<Rightarrow> script" where
  "lua_next_turn epoch writer token ttl scan_limit now = fenced epoch writer (\<lambda>c.
     if \<not> types_ok c ring_keys then (c, [CORRUPT])
     else if zscore (processing_turns c) token \<noteq> None \<or> turn_to_tenant c token \<noteq> None
       \<or> turn_to_generation c token \<noteq> None then (c, [INVALID])
     else if ring c = [] then
       (c, if ring_members c \<noteq> {} then [CORRUPT] else [EMPTY])
     else
       let scan_count = min (length (ring c)) scan_limit
       in case scan_ring c 0 (take scan_count (ring c)) of
            ScanCorrupt \<Rightarrow> (c, [CORRUPT])
          | ScanNone discarded \<Rightarrow>
              if length (ring c) \<le> scan_count \<and> ring_members c \<noteq> {} then (c, [CORRUPT])
              else (c\<lparr> ring := drop discarded (ring c) \<rparr>, [EMPTY])
          | ScanFound discarded tenant generation \<Rightarrow>
              let expiry = now + ttl
              in (c\<lparr> ring := drop (discarded + 1) (ring c),
                     ring_members := ring_members c - {tenant},
                     processing_turns := zadd expiry token (processing_turns c),
                     turn_to_tenant := (turn_to_tenant c)(token \<mapsto> tenant),
                     turn_to_generation := (turn_to_generation c)(token \<mapsto> generation),
                     tenant_to_turn := (tenant_to_turn c)(tenant \<mapsto> token) \<rparr>,
                  [OK, tenant, generation]))"

definition lua_rotate ::
  "string \<Rightarrow> string \<Rightarrow> string \<Rightarrow> string \<Rightarrow> bool \<Rightarrow> int \<Rightarrow> script" where
  "lua_rotate epoch writer token observed has_ready now = fenced epoch writer (\<lambda>c.
     if \<not> types_ok c ring_keys then (c, [CORRUPT])
     else
       case (turn_to_tenant c token, turn_to_generation c token, zscore (processing_turns c) token) of
         (Some tenant, Some turn_gen, Some expiry) \<Rightarrow>
           if tenant_to_turn c tenant \<noteq> Some token \<or> turn_gen \<noteq> observed then (c, [INVALID])
           else if expiry \<le> now then (c, [INVALID])
           else if (case activation_gen c tenant of None \<Rightarrow> True | Some g \<Rightarrow> \<not> positive_int64 g)
             \<or> tenant \<notin> active_users c \<or> tenant \<notin> known_users c then (c, [CORRUPT])
           else if tenant \<in> ring_members c then (c, [CORRUPT])
           else
             let positions = take 1 (lpos tenant (ring c));
                 requeue = has_ready \<or> activation_gen c tenant \<noteq> Some observed;
                 c = c\<lparr> processing_turns := zrem token (processing_turns c),
                        turn_to_tenant := (turn_to_tenant c)(token := None),
                        turn_to_generation := (turn_to_generation c)(token := None),
                        tenant_to_turn := (tenant_to_turn c)(tenant := None) \<rparr>
             in if requeue
                then (c\<lparr> active_users := insert tenant (active_users c),
                         ring_members := insert tenant (ring_members c),
                         ring := (if positions = [] then ring c @ [tenant] else ring c) \<rparr>, [OK])
                else (c\<lparr> active_users := active_users c - {tenant} \<rparr>, [OK])
       | _ \<Rightarrow> (c, [INVALID]))"

lemma lpos_Nil [simp]: "lpos t xs = [] \<longleftrightarrow> t \<notin> set xs"
  by (auto simp: lpos_def filter_empty_conv in_set_conv_nth)

lemma lpos_once:
  assumes "distinct xs" and "i < length xs"
  shows "lpos (xs ! i) xs = [i]"
proof -
  have "filter (\<lambda>j. xs ! j = xs ! i) [0..<length xs] = filter (\<lambda>j. j = i) [0..<length xs]"
    using assms by (intro filter_cong) (auto simp: nth_eq_iff_index_eq)
  also have "\<dots> = [i]"
    using assms(2) upt_add_eq_append [of 0 i "length xs - i"] by (simp add: upt_conv_Cons)
  finally show ?thesis by (simp add: lpos_def)
qed

lemma take_lpos_Nil [simp]: "0 < n \<Longrightarrow> take n (lpos t xs) = [] \<longleftrightarrow> t \<notin> set xs"
  by simp

subsection \<open>The Go operations\<close>

record processing_turn =
  turn_token :: string
  turn_tenant :: string
  turn_observed :: "64 word"

definition validate_turn_token :: "string \<Rightarrow> goerr" where
  "validate_turn_token t = fail_when (\<not> lower_hex 32 t) (wraps ErrInvalidModel)"

definition validate_turn :: "processing_turn \<Rightarrow> goerr" where
  "validate_turn t =
     fail_when (validate_turn_token (turn_token t) \<noteq> None \<or> validate_tenant_id (turn_tenant t) \<noteq> None
       \<or> turn_observed t = 0) (wraps ErrInvalidModel)"

text \<open>\<open>Activate\<close> and \<open>EnsureActive\<close> are both \<open>ensureRuntimeActive\<close>.\<close>

definition ensure_runtime_active ::
  "transport \<Rightarrow> string \<Rightarrow> string \<Rightarrow> resource_fence \<Rightarrow> string \<Rightarrow> unit coord_op" where
  "ensure_runtime_active net prefix resource fence tenant =
     redis_call net (valid_runtime_tenant prefix resource fence tenant)
       (\<lambda>_. lua_activate (fence_epoch fence) (fence_writer fence) tenant) (\<lambda>_. expect_ok)"

definition redis_runtime_turn_scan_batch :: nat where "redis_runtime_turn_scan_batch = 128"

definition next_turn_args ::
  "string \<Rightarrow> string \<Rightarrow> resource_fence \<Rightarrow> string \<Rightarrow> int \<Rightarrow> int result" where
  "next_turn_args prefix resource fence token ttl =
     (case valid_runtime_fence prefix resource fence of
        Inl e \<Rightarrow> Inl e
      | Inr _ \<Rightarrow> check_err (as_sentinel ErrInvalidModel (validate_turn_token token))
                  (redis_runtime_ttl_ms ttl))"

definition parse_next_turn :: "string \<Rightarrow> reply \<Rightarrow> processing_turn option result" where
  "parse_next_turn token values =
     (case values of
        [] \<Rightarrow> Inl [ErrCoordinationCorrupt]
      | code # rest \<Rightarrow>
          if code = EMPTY then (if rest \<noteq> [] then Inl [ErrCoordinationCorrupt] else Inr None)
          else if code \<noteq> OK then Inl (redis_script_error code)
          else (case rest of
                  [tenant, generation] \<Rightarrow>
                    (case redis_result_uint64 generation of
                       None \<Rightarrow> Inl [ErrCoordinationCorrupt]
                     | Some g \<Rightarrow>
                         let turn = \<lparr> turn_token = token, turn_tenant = tenant, turn_observed = g \<rparr>
                         in if validate_turn turn \<noteq> None then Inl [ErrCoordinationCorrupt]
                            else Inr (Some turn))
                | _ \<Rightarrow> Inl [ErrCoordinationCorrupt]))"

definition next_turn ::
  "transport \<Rightarrow> int \<Rightarrow> string \<Rightarrow> string \<Rightarrow> resource_fence \<Rightarrow> string \<Rightarrow> int
   \<Rightarrow> processing_turn option coord_op" where
  "next_turn net now prefix resource fence token ttl =
     redis_call net (next_turn_args prefix resource fence token ttl)
       (\<lambda>ttl_ms. lua_next_turn (fence_epoch fence) (fence_writer fence) token ttl_ms
          redis_runtime_turn_scan_batch now)
       (\<lambda>_. parse_next_turn token)"

definition rotate_or_deactivate ::
  "transport \<Rightarrow> int \<Rightarrow> string \<Rightarrow> string \<Rightarrow> resource_fence \<Rightarrow> string \<Rightarrow> 64 word \<Rightarrow> bool
   \<Rightarrow> unit coord_op" where
  "rotate_or_deactivate net now prefix resource fence token observed has_ready =
     redis_call net
       (case valid_runtime_fence prefix resource fence of
          Inl e \<Rightarrow> Inl e
        | Inr k \<Rightarrow> check_err (fail_when (validate_turn_token token \<noteq> None \<or> observed = 0
                      \<or> unat observed > max_int64) (wraps ErrInvalidModel)) (Inr k))
       (\<lambda>_. lua_rotate (fence_epoch fence) (fence_writer fence) token (format_uint (unat observed))
          has_ready now)
       (\<lambda>_. expect_ok)"

subsection \<open>The ring invariant\<close>

text \<open>What every reachable READY state satisfies: the ring lists its members once; a tenant is
  active exactly when it waits in the ring or holds a turn, never both; the four turn
  collections agree; and all stored generations are canonical and do not run ahead.\<close>

definition ring_ok :: "coord \<Rightarrow> bool" where
  "ring_ok c \<longleftrightarrow> distinct (ring c) \<and> set (ring c) = ring_members c
     \<and> active_users c = ring_members c \<union> dom (tenant_to_turn c)
     \<and> ring_members c \<inter> dom (tenant_to_turn c) = {}
     \<and> active_users c \<subseteq> known_users c
     \<and> (\<forall>t\<in>known_users c. validate_tenant_id t = None)"

definition turns_ok :: "coord \<Rightarrow> bool" where
  "turns_ok c \<longleftrightarrow> zwf (processing_turns c)
     \<and> (\<forall>tok. zscore (processing_turns c) tok = None \<longleftrightarrow> turn_to_tenant c tok = None)
     \<and> (\<forall>tok. turn_to_generation c tok = None \<longleftrightarrow> turn_to_tenant c tok = None)
     \<and> (\<forall>tok t. turn_to_tenant c tok = Some t \<longleftrightarrow> tenant_to_turn c t = Some tok)
     \<and> (\<forall>tok t. tenant_to_turn c t = Some tok \<longrightarrow> lower_hex 32 tok)"

definition gens_ok :: "coord \<Rightarrow> bool" where
  "gens_ok c \<longleftrightarrow>
     (\<forall>t\<in>active_users c. activation_gen c t \<noteq> None)
     \<and> (\<forall>t g. activation_gen c t = Some g \<longrightarrow> positive_int64 g)
     \<and> (\<forall>tok g t. turn_to_generation c tok = Some g \<longrightarrow> tenant_to_turn c t = Some tok \<longrightarrow>
          positive_int64 g \<and> (\<exists>g'. activation_gen c t = Some g' \<and> digits_value g \<le> digits_value g'))"

definition turn_inv :: "coord \<Rightarrow> bool" where
  "turn_inv c \<longleftrightarrow> wrong_type c = {} \<and> ring_ok c \<and> turns_ok c \<and> gens_ok c"

subsection \<open>Each script on the invariant\<close>

lemma turn_invD:
  assumes "turn_inv c"
  shows "wrong_type c = {}" "distinct (ring c)" "set (ring c) = ring_members c"
    "active_users c = ring_members c \<union> dom (tenant_to_turn c)"
    "ring_members c \<inter> dom (tenant_to_turn c) = {}"
    "active_users c \<subseteq> known_users c" "\<forall>t\<in>known_users c. validate_tenant_id t = None"
    "zwf (processing_turns c)"
    "\<And>tok. zscore (processing_turns c) tok = None \<longleftrightarrow> turn_to_tenant c tok = None"
    "\<And>tok. turn_to_generation c tok = None \<longleftrightarrow> turn_to_tenant c tok = None"
    "\<And>tok t. turn_to_tenant c tok = Some t \<longleftrightarrow> tenant_to_turn c t = Some tok"
    "\<And>tok t. tenant_to_turn c t = Some tok \<Longrightarrow> lower_hex 32 tok"
    "\<And>t. t \<in> active_users c \<Longrightarrow> activation_gen c t \<noteq> None"
    "\<And>t g. activation_gen c t = Some g \<Longrightarrow> positive_int64 g"
    "\<And>tok g t. turn_to_generation c tok = Some g \<Longrightarrow> tenant_to_turn c t = Some tok \<Longrightarrow>
       positive_int64 g \<and> (\<exists>g'. activation_gen c t = Some g' \<and> digits_value g \<le> digits_value g')"
  using assms unfolding turn_inv_def ring_ok_def turns_ok_def gens_ok_def by blast+

definition activations_of :: "coord \<Rightarrow> string \<Rightarrow> nat" where
  "activations_of c t = (case activation_gen c t of None \<Rightarrow> 0 | Some g \<Rightarrow> digits_value g)"

lemma generation_unusable_iff:
  "turn_inv c \<Longrightarrow> generation_unusable (activation_gen c t) \<longleftrightarrow> activations_of c t = max_int64"
  using turn_invD(14) [of c t] positive_int64_maximal positive_int64_value(3)
  by (fastforce simp: generation_unusable_def activations_of_def max_int64_def positive_int64_def split: option.splits)

lemma hincr_value: "digits_value (hincr (activation_gen c t)) = activations_of c t + 1"
  by (simp add: hincr_def activations_of_def digits_value_format_uint split: option.splits)

lemma activations_le: "turn_inv c \<Longrightarrow> activations_of c t \<le> max_int64"
  using turn_invD(14) [of c t] positive_int64_value(3)
  by (auto simp: activations_of_def split: option.splits)

lemma hincr_positive:
  "turn_inv c \<Longrightarrow> activations_of c t \<noteq> max_int64 \<Longrightarrow> positive_int64 (hincr (activation_gen c t))"
  using activations_le [of c t] 
  by (auto simp: hincr_def activations_of_def intro!: positive_int64_format split: option.splits)

lemma lua_activate_ready:
  assumes "turn_inv c" and "check_ready e w c = OK"
  shows "lua_activate e w t c =
    (if activations_of c t = max_int64 then (c, [CORRUPT])
     else (c\<lparr> known_users := insert t (known_users c),
              activation_gen := (activation_gen c)(t \<mapsto> hincr (activation_gen c t)),
              active_users := insert t (active_users c),
              ring_members := (if tenant_to_turn c t = None then insert t (ring_members c) else ring_members c),
              ring := (if t \<in> active_users c then ring c else ring c @ [t]) \<rparr>, [OK]))"
proof -
  note inv = turn_invD [OF assms(1)]
  have 1: "t \<in> ring_members c \<longleftrightarrow> t \<in> set (ring c)" using inv(3) by simp
  have 2: "tenant_to_turn c t \<noteq> None \<Longrightarrow> t \<notin> ring_members c" using inv(5) by auto
  have 3: "tenant_to_turn c t = Some tok \<Longrightarrow> zscore (processing_turns c) tok \<noteq> None
     \<and> turn_to_tenant c tok = Some t \<and> turn_to_generation c tok \<noteq> None" for tok
    using inv(9,10,11) by (metis option.distinct(1))
  have 4: "t \<in> active_users c \<longleftrightarrow> t \<in> ring_members c \<or> tenant_to_turn c t \<noteq> None"
    using inv(4) by auto
  show ?thesis
    using 1 2 3 4 assms inv(1)
    by (cases "tenant_to_turn c t"; cases "t \<in> ring_members c")
      (auto simp: lua_activate_def generation_unusable_iff Let_def insert_absorb)
qed

text \<open>What a successful activation leaves\<close>

definition activated :: "string \<Rightarrow> coord \<Rightarrow> coord" where
  "activated t c = c\<lparr> known_users := insert t (known_users c),
     activation_gen := (activation_gen c)(t \<mapsto> hincr (activation_gen c t)),
     active_users := insert t (active_users c),
     ring_members := (if tenant_to_turn c t = None then insert t (ring_members c) else ring_members c),
     ring := (if t \<in> active_users c then ring c else ring c @ [t]) \<rparr>"

lemma activated_inv:
  assumes "turn_inv c" and "activations_of c t \<noteq> max_int64" and "validate_tenant_id t = None"
  shows "turn_inv (activated t c)"
proof -
  note inv = turn_invD [OF assms(1)]
  have g: "positive_int64 (hincr (activation_gen c t))" using hincr_positive assms(1,2) by blast
  have le: "activation_gen c t = Some g' \<Longrightarrow> digits_value g' \<le> digits_value (hincr (activation_gen c t))" for g'
    using hincr_value [of c t] by (simp add: activations_of_def)
  let ?c = "activated t c"
  have "ring_ok ?c" using assms inv by (auto simp: activated_def ring_ok_def)
  moreover have "turns_ok ?c" using assms inv by (auto simp: activated_def turns_ok_def)
  moreover have "gens_ok ?c"
    unfolding gens_ok_def
  proof (intro conjI allI ballI impI)
    fix tok h u assume "turn_to_generation ?c tok = Some h" "tenant_to_turn ?c u = Some tok"
    then have "turn_to_generation c tok = Some h" "tenant_to_turn c u = Some tok" by (simp_all add: activated_def)
    from inv(15) [OF this] obtain g' where "positive_int64 h" "activation_gen c u = Some g'"
      "digits_value h \<le> digits_value g'" by blast
    with le [of g'] show "positive_int64 h"
      and "\<exists>g'. activation_gen ?c u = Some g' \<and> digits_value h \<le> digits_value g'"
      by (auto simp: activated_def)
  next
    fix u assume "u \<in> active_users ?c"
    then show "activation_gen ?c u \<noteq> None" using inv(13) by (auto simp: activated_def)
  next
    fix u g assume "activation_gen ?c u = Some g"
    then show "positive_int64 g" using inv(14) g by (auto simp: activated_def split: if_splits)
  qed
  ultimately show ?thesis using inv(1) by (simp add: turn_inv_def activated_def)
qed

lemma lua_activate_inv:
  assumes "turn_inv c" and "check_ready e w c = OK" and "validate_tenant_id t = None"
  shows "turn_inv (fst (lua_activate e w t c))"
  using assms activated_inv [OF assms(1) _ assms(3)]
  by (cases "activations_of c t = max_int64") (simp_all add: lua_activate_ready activated_def)

lemma lua_next_turn_ready:
  assumes "turn_inv c" and "check_ready e w c = OK" and "0 < limit"
  shows "lua_next_turn e w tok ttl limit now c =
    (if turn_to_tenant c tok \<noteq> None then (c, [INVALID])
     else case ring c of
       [] \<Rightarrow> (c, [EMPTY])
     | t # ts \<Rightarrow> (c\<lparr> ring := ts, ring_members := ring_members c - {t},
            processing_turns := zadd (now + ttl) tok (processing_turns c),
            turn_to_tenant := (turn_to_tenant c)(tok \<mapsto> t),
            turn_to_generation := (turn_to_generation c)(tok \<mapsto> the (activation_gen c t)),
            tenant_to_turn := (tenant_to_turn c)(t \<mapsto> tok) \<rparr>,
          [OK, t, the (activation_gen c t)]))"
proof (cases "ring c")
  case Nil
  with assms turn_invD [OF assms(1)] show ?thesis
    by (auto simp: lua_next_turn_def)
next
  case (Cons t ts)
  note inv = turn_invD [OF assms(1)]
  have "t \<in> ring_members c" using Cons inv(3) by auto
  then have t: "t \<in> known_users c" "t \<in> active_users c" "tenant_to_turn c t = None"
    using inv(4-6) by auto
  obtain g where g: "activation_gen c t = Some g" "positive_int64 g"
    using inv(13,14) t(2) by blast
  obtain n where n: "min (length (ring c)) limit = Suc n"
    using Cons assms(3) by (cases "min (length (ring c)) limit") auto
  then have "scan_ring c 0 (take (min (length (ring c)) limit) (ring c)) = ScanFound 0 t g"
    unfolding n using Cons t g by simp
  with assms inv(1,9,10) Cons g show ?thesis
    by (simp add: lua_next_turn_def)
qed

lemma lua_next_turn_inv:
  assumes "turn_inv c" and "check_ready e w c = OK" and "0 < limit" and "lower_hex 32 tok"
  shows "turn_inv (fst (lua_next_turn e w tok ttl limit now c))"
proof (cases "turn_to_tenant c tok \<noteq> None \<or> ring c = []")
  case True
  with assms show ?thesis by (auto simp: lua_next_turn_ready)
next
  case False
  note inv = turn_invD [OF assms(1)]
  let ?c = "fst (lua_next_turn e w tok ttl limit now c)"
  from False obtain t ts where r: "ring c = t # ts" by (cases "ring c") auto
  then have "t \<in> ring_members c" using inv(3) by auto
  then have t: "t \<in> known_users c" "t \<in> active_users c" "tenant_to_turn c t = None"
    using inv(4-6) by auto
  have fresh: "tenant_to_turn c u \<noteq> Some tok" for u using False inv(11) by (metis option.distinct(1))
  have new: "?c = c\<lparr> ring := ts, ring_members := ring_members c - {t},
            processing_turns := zadd (now + ttl) tok (processing_turns c),
            turn_to_tenant := (turn_to_tenant c)(tok \<mapsto> t),
            turn_to_generation := (turn_to_generation c)(tok \<mapsto> the (activation_gen c t)),
            tenant_to_turn := (tenant_to_turn c)(t \<mapsto> tok) \<rparr>"
    using False assms r by (simp add: lua_next_turn_ready)
  have ts: "t \<notin> set ts" "distinct ts" "insert t (set ts) = ring_members c" using inv(2,3) r by auto
  have "ring_ok ?c"
    using inv(4-7) ts t unfolding new ring_ok_def by auto
  moreover have "turns_ok ?c"
    using inv(8-12) t(3) fresh assms(4) unfolding new turns_ok_def by auto
  moreover have "gens_ok ?c"
    using inv(13-15) t fresh unfolding new gens_ok_def by (auto simp: inv(11)) 
  ultimately show ?thesis
    using inv(1) by (simp add: turn_inv_def new)
qed

definition settle_turn :: "string \<Rightarrow> string \<Rightarrow> bool \<Rightarrow> coord \<Rightarrow> coord" where
  "settle_turn tok t requeue c = c\<lparr>
     processing_turns := zrem tok (processing_turns c),
     turn_to_tenant := (turn_to_tenant c)(tok := None),
     turn_to_generation := (turn_to_generation c)(tok := None),
     tenant_to_turn := (tenant_to_turn c)(t := None),
     active_users := (if requeue then active_users c else active_users c - {t}),
     ring_members := (if requeue then insert t (ring_members c) else ring_members c),
     ring := (if requeue then ring c @ [t] else ring c) \<rparr>"

lemma settle_turn_inv:
  assumes "turn_inv c" and "turn_to_tenant c tok = Some t"
  shows "turn_inv (settle_turn tok t requeue c)"
proof -
  note inv = turn_invD [OF assms(1)]
  have t: "tenant_to_turn c t = Some tok" using assms inv(11) by simp
  have uniq: "tenant_to_turn c u = Some tok \<longleftrightarrow> u = t" for u
    using assms(2) inv(11) by (metis option.inject)
  have uniq': "tenant_to_turn c t = Some x \<longleftrightarrow> x = tok" for x using t by auto
  have out: "t \<notin> ring_members c" "t \<in> active_users c" using t inv(4,5) by auto
  let ?c = "settle_turn tok t requeue c"
  have "ring_ok ?c"
    using inv(2-7) out unfolding settle_turn_def ring_ok_def by auto
  moreover have "turns_ok ?c"
    using inv(8-12) uniq uniq' unfolding settle_turn_def turns_ok_def by auto
  moreover have "gens_ok ?c"
    using inv(13-15) unfolding settle_turn_def gens_ok_def by auto
  ultimately show ?thesis
    using inv(1) by (simp add: turn_inv_def settle_turn_def)
qed

lemma lua_rotate_ready:
  assumes "turn_inv c" and "check_ready e w c = OK"
  shows "lua_rotate e w tok obs has_ready now c =
    (case turn_to_tenant c tok of
       None \<Rightarrow> (c, [INVALID])
     | Some t \<Rightarrow>
         if turn_to_generation c tok \<noteq> Some obs \<or> the (zscore (processing_turns c) tok) \<le> now
         then (c, [INVALID])
         else (settle_turn tok t (has_ready \<or> activation_gen c t \<noteq> Some obs) c, [OK]))"
proof (cases "turn_to_tenant c tok")
  case None
  with assms turn_invD(1,9,10) [OF assms(1)] show ?thesis by (simp add: lua_rotate_def)
next
  case (Some t)
  note inv = turn_invD [OF assms(1)]
  have t: "tenant_to_turn c t = Some tok" using Some inv(11) by simp
  have out: "t \<notin> ring_members c" "t \<in> active_users c" "t \<in> known_users c" "t \<notin> set (ring c)"
    using t inv(3-6) by auto
  obtain x g where "zscore (processing_turns c) tok = Some x" "turn_to_generation c tok = Some g"
    using Some inv(9,10) by (metis option.exhaust option.distinct(1))
  moreover obtain ag where "activation_gen c t = Some ag" "positive_int64 ag"
    using out(2) inv(13,14) by blast
  ultimately show ?thesis
    using Some t out assms inv(1)
    by (auto simp: lua_rotate_def settle_turn_def Let_def insert_absorb)
qed

lemma lua_rotate_inv:
  "turn_inv c \<Longrightarrow> check_ready e w c = OK \<Longrightarrow> turn_inv (fst (lua_rotate e w tok obs has_ready now c))"
  by (auto simp: lua_rotate_ready settle_turn_inv split: option.splits)

subsection \<open>The fair queue the ring implements\<close>

record fair_queue =
  waiting :: "string list"
  holding :: "string \<rightharpoonup> string \<times> nat \<times> int"
  activations :: "string \<Rightarrow> nat"

definition abs_queue :: "coord \<Rightarrow> fair_queue" where
  "abs_queue c = \<lparr>
     waiting = ring c,
     holding = (\<lambda>tok. case turn_to_tenant c tok of None \<Rightarrow> None
        | Some t \<Rightarrow> Some (t, digits_value (the (turn_to_generation c tok)), the (zscore (processing_turns c) tok))),
     activations = activations_of c \<rparr>"

definition fq_busy :: "fair_queue \<Rightarrow> string \<Rightarrow> bool" where
  "fq_busy q t \<longleftrightarrow> t \<in> set (waiting q) \<or> (\<exists>tok g x. holding q tok = Some (t, g, x))"

definition fq_activate :: "string \<Rightarrow> fair_queue \<Rightarrow> fair_queue" where
  "fq_activate t q = q\<lparr>
     waiting := (if fq_busy q t then waiting q else waiting q @ [t]),
     activations := (activations q)(t := activations q t + 1) \<rparr>"

definition fq_next :: "string \<Rightarrow> int \<Rightarrow> fair_queue \<Rightarrow> fair_queue \<times> (string \<times> nat) option" where
  "fq_next tok expiry q =
     (case waiting q of
        [] \<Rightarrow> (q, None)
      | t # ts \<Rightarrow> (q\<lparr> waiting := ts, holding := (holding q)(tok \<mapsto> (t, activations q t, expiry)) \<rparr>,
                   Some (t, activations q t)))"

definition fq_settle :: "string \<Rightarrow> bool \<Rightarrow> fair_queue \<Rightarrow> fair_queue" where
  "fq_settle tok requeue q =
     (case holding q tok of
        None \<Rightarrow> q
      | Some (t, g, x) \<Rightarrow> q\<lparr> holding := (holding q)(tok := None),
          waiting := (if requeue \<or> activations q t \<noteq> g then waiting q @ [t] else waiting q) \<rparr>)"

lemma abs_activate:
  assumes "turn_inv c" and "check_ready e w c = OK" and "activations_of c t \<noteq> max_int64"
  shows "abs_queue (fst (lua_activate e w t c)) = fq_activate t (abs_queue c)"
proof -
  note inv = turn_invD [OF assms(1)]
  have "fq_busy (abs_queue c) t \<longleftrightarrow> t \<in> active_users c"
  proof
    assume "fq_busy (abs_queue c) t"
    then show "t \<in> active_users c" using inv(3,4,11)
      by (fastforce simp: fq_busy_def abs_queue_def split: option.splits)
  next
    assume "t \<in> active_users c"
    then consider "t \<in> set (ring c)" | tok where "tenant_to_turn c t = Some tok"
      using inv(3,4) by auto
    then show "fq_busy (abs_queue c) t"
    proof cases
      case 2
      then have "turn_to_tenant c tok = Some t" using inv(11) by simp
      then have "\<exists>g x. holding (abs_queue c) tok = Some (t, g, x)" by (simp add: abs_queue_def)
      then show ?thesis unfolding fq_busy_def by blast
    qed (simp add: fq_busy_def abs_queue_def)
  qed
  with assms show ?thesis
    by (auto simp: lua_activate_ready abs_queue_def fq_activate_def activations_of_def fun_eq_iff
        hincr_value [unfolded activations_of_def] split: option.split)
qed

lemma abs_next:
  assumes "turn_inv c" and "check_ready e w c = OK" and "0 < limit" and "turn_to_tenant c tok = None"
  shows "abs_queue (fst (lua_next_turn e w tok ttl limit now c)) = fst (fq_next tok (now + ttl) (abs_queue c))"
    "snd (lua_next_turn e w tok ttl limit now c) =
       (case snd (fq_next tok (now + ttl) (abs_queue c)) of
          None \<Rightarrow> [EMPTY] | Some (t, g) \<Rightarrow> [OK, t, format_uint g])"
proof -
  note inv = turn_invD [OF assms(1)]
  let ?run = "lua_next_turn e w tok ttl limit now c" and ?q = "fq_next tok (now + ttl) (abs_queue c)"
  have "abs_queue (fst ?run) = fst ?q \<and> snd ?run = (case snd ?q of None \<Rightarrow> [EMPTY]
      | Some (t, g) \<Rightarrow> [OK, t, format_uint g])"
  proof (cases "ring c")
    case Nil
    with assms show ?thesis by (simp add: lua_next_turn_ready abs_queue_def fq_next_def)
  next
    case (Cons t ts)
    then have "t \<in> active_users c" using inv(3,4) by auto
    then obtain g where g: "activation_gen c t = Some g" "positive_int64 g" using inv(13,14) by blast
    have "holding (abs_queue (fst ?run)) = holding (fst ?q)"
      using Cons g assms
      by (auto simp: lua_next_turn_ready abs_queue_def fq_next_def activations_of_def fun_eq_iff
          split: option.split)
    with Cons g assms show ?thesis
      by (simp add: lua_next_turn_ready abs_queue_def fq_next_def activations_of_def positive_int64_value fun_eq_iff)
  qed
  then show "abs_queue (fst ?run) = fst ?q" "snd ?run = (case snd ?q of None \<Rightarrow> [EMPTY]
      | Some (t, g) \<Rightarrow> [OK, t, format_uint g])" by blast+
qed

lemma abs_settle:
  assumes "turn_inv c" and "turn_to_tenant c tok = Some t"
  shows "abs_queue (settle_turn tok t (requeue \<or> activation_gen c t \<noteq> turn_to_generation c tok) c)
    = fq_settle tok requeue (abs_queue c)"
proof -
  note inv = turn_invD [OF assms(1)]
  have t: "tenant_to_turn c t = Some tok" using assms(2) inv(11) by simp
  then have "t \<in> active_users c" using inv(4) by auto
  then obtain ag where ag: "activation_gen c t = Some ag" "positive_int64 ag" using inv(13,14) by blast
  obtain g where g: "turn_to_generation c tok = Some g" using assms(2) inv(10) by (metis option.exhaust option.distinct(1))
  with t inv(15) have "positive_int64 g" by blast
  with ag g have "activation_gen c t \<noteq> turn_to_generation c tok \<longleftrightarrow> digits_value ag \<noteq> digits_value g"
    by (simp add: positive_int64_inject)
  with ag g assms show ?thesis
    by (auto simp: abs_queue_def fq_settle_def settle_turn_def activations_of_def fun_eq_iff
        split: option.split)
qed

end
