(* ===== verification/Fq_Reservations.thy ===== *)
theory Fq_Reservations
  imports Fq_Coord
begin

text \<open>
  Capacity reservations: \<open>redisAcquireProvisionalScript\<close>, \<open>redisBindReservationScript\<close>,
  \<open>redisStableWriteScript\<close> and \<open>redisReleaseReservationScript\<close> of \<open>redis_runtime.go\<close>, with the
  Lua helpers they share.  The Lua function \<open>sha256\<close> is the parameter \<open>H\<close>.
\<close>

subsection \<open>Reservation metadata\<close>

text \<open>A decoded Lua table: the last of several equal names wins; a JSON array has no string names.\<close>

definition lua_field :: "json \<Rightarrow> string \<Rightarrow> json option" where
  "lua_field v name = (case v of JObj fs \<Rightarrow> map_of (rev fs) name | _ \<Rightarrow> None)"

definition lua_names :: "json \<Rightarrow> string list" where
  "lua_names v = (case v of JObj fs \<Rightarrow> remdups (map fst fs) | _ \<Rightarrow> [])"

definition valid_tenant_key ::
  "(string \<Rightarrow> string) \<Rightarrow> string \<Rightarrow> string \<Rightarrow> string \<Rightarrow> string \<Rightarrow> bool" where
  "valid_tenant_key H key prefix resource tenant =
     (if length key \<noteq> length prefix + 64 then False
      else if take (length prefix) key \<noteq> prefix then False
      else let suffix = drop (length prefix) key
           in lower_hex 64 suffix \<and> suffix = H (tenant_preimage resource tenant))"

record resv_meta =
  meta_tenant :: string
  meta_tenant_key :: string
  meta_decision :: "string option"

abbreviation kindP :: string where "kindP \<equiv> ''P''"
abbreviation kindS :: string where "kindS \<equiv> ''S''"

text \<open>The argument is the result of \<open>HGET\<close>: \<open>None\<close> when the field is absent.\<close>

definition parse_meta ::
  "(string \<Rightarrow> string) \<Rightarrow> json option option \<Rightarrow> string \<Rightarrow> string \<Rightarrow> string \<Rightarrow> resv_meta option" where
  "parse_meta H raw kind prefix resource =
     (case raw of
        Some (Some v) \<Rightarrow>
          (case (lua_field v ''tenant'', lua_field v ''tenant_key'') of
             (Some (JStr tenant), Some (JStr key)) \<Rightarrow>
               if tenant = [] \<or> lua_field v ''kind'' \<noteq> Some (JStr kind)
                 \<or> \<not> valid_tenant_key H key prefix resource tenant then None
               else if list_ex (\<lambda>n. n \<notin> {''tenant'', ''tenant_key'', ''kind'', ''decision''}) (lua_names v)
               then None
               else if kind = kindP then
                 (if length (lua_names v) \<noteq> 4 then None
                  else case lua_field v ''decision'' of
                         Some (JStr d) \<Rightarrow>
                           if d = ''regular'' \<or> d = ''borrowed''
                           then Some \<lparr> meta_tenant = tenant, meta_tenant_key = key, meta_decision = Some d \<rparr>
                           else None
                       | _ \<Rightarrow> None)
               else if length (lua_names v) \<noteq> 3 \<or> lua_field v ''decision'' \<noteq> None then None
               else Some \<lparr> meta_tenant = tenant, meta_tenant_key = key, meta_decision = None \<rparr>
           | _ \<Rightarrow> None)
      | _ \<Rightarrow> None)"

text \<open>\<open>cjson.encode\<close> of the two metadata tables\<close>

definition provisional_meta :: "string \<Rightarrow> string \<Rightarrow> string \<Rightarrow> json option" where
  "provisional_meta tenant key decision =
     Some (JObj [(''tenant'', JStr tenant), (''tenant_key'', JStr key), (''kind'', JStr kindP),
                 (''decision'', JStr decision)])"

definition stable_meta :: "string \<Rightarrow> string \<Rightarrow> json option" where
  "stable_meta tenant key =
     Some (JObj [(''tenant'', JStr tenant), (''tenant_key'', JStr key), (''kind'', JStr kindS)])"

definition hget :: "(string \<times> json option) list \<Rightarrow> string \<Rightarrow> json option option" where
  "hget h f = map_of h f"

definition same_score :: "int option \<Rightarrow> int option \<Rightarrow> bool" where
  "same_score l r \<longleftrightarrow> l \<noteq> None \<and> r \<noteq> None \<and> l = r"

text \<open>\<open>p:\<close> and 32, or \<open>r:\<close> and 64 lower-case hex digits\<close>

definition token_kind :: "string \<Rightarrow> string option" where
  "token_kind tok =
     (if take 2 tok = ''p:'' \<and> lower_hex 32 (drop 2 tok) then Some kindP
      else if take 2 tok = ''r:'' \<and> lower_hex 64 (drop 2 tok) then Some kindS
      else None)"

subsection \<open>The reservation closure\<close>

text \<open>The consistency check of one token, as in the loops of \<open>reservation_closure\<close> and of the
  expiry sweep: its kind and metadata, or \<open>None\<close> where the script answers corrupt.\<close>

definition reservation_entry ::
  "(string \<Rightarrow> string) \<Rightarrow> string \<Rightarrow> string \<Rightarrow> coord \<Rightarrow> string \<Rightarrow> (string \<times> resv_meta) option" where
  "reservation_entry H prefix resource c tok =
     (let g = zscore (global_inflight c) tok; p = zscore (provisional c) tok;
          s = zscore (stable_index c) tok
      in case token_kind tok of
           None \<Rightarrow> None
         | Some k \<Rightarrow>
             if (if k = kindP then \<not> same_score g p \<or> s \<noteq> None else p \<noteq> None \<or> s \<noteq> Some 0) then None
             else case parse_meta H (hget (reservation_meta c) tok) k prefix resource of
                    None \<Rightarrow> None
                  | Some m \<Rightarrow>
                      if KTenantInflight (meta_tenant_key m) \<in> wrong_type c
                        \<or> tenant_inflight c (meta_tenant_key m) = []
                        \<or> \<not> same_score g (zscore (tenant_inflight c (meta_tenant_key m)) tok)
                      then None else Some (k, m))"

definition reservation_shape_count :: "coord \<Rightarrow> nat option" where
  "reservation_shape_count c =
     (if zcard (global_inflight c) \<noteq> zcard (provisional c) + zcard (stable_index c)
        \<or> length (reservation_meta c) \<noteq> zcard (global_inflight c)
        \<or> length (filter (\<lambda>(m, s). s = 0) (stable_index c)) \<noteq> zcard (stable_index c)
      then None else Some (zcard (global_inflight c)))"

fun all_some :: "('a \<Rightarrow> 'b option) \<Rightarrow> 'a list \<Rightarrow> 'b list option" where
  "all_some f [] = Some []"
| "all_some f (x # xs) =
     (case f x of None \<Rightarrow> None
      | Some y \<Rightarrow> (case all_some f xs of None \<Rightarrow> None | Some ys \<Rightarrow> Some (y # ys)))"

definition zscore_of :: "zset \<Rightarrow> string \<Rightarrow> int" where
  "zscore_of z m = (case zscore z m of None \<Rightarrow> 0 | Some s \<Rightarrow> s)"

text \<open>The result is the number of unexpired reservations, of the resource and of the tenant.\<close>

definition reservation_closure ::
  "(string \<Rightarrow> string) \<Rightarrow> string \<Rightarrow> string \<Rightarrow> int \<Rightarrow> string \<Rightarrow> nat \<Rightarrow> coord \<Rightarrow> (nat \<times> nat) option" where
  "reservation_closure H prefix resource now current maximum c =
     (case reservation_shape_count c of
        None \<Rightarrow> None
      | Some all_count \<Rightarrow>
          if all_count > maximum then None
          else
            let tokens = zmembers (global_inflight c)
            in case all_some (\<lambda>tok. map_option (\<lambda>(k, m). (meta_tenant_key m, zscore_of (global_inflight c) tok > now))
                      (reservation_entry H prefix resource c tok)) tokens of
                 None \<Rightarrow> None
               | Some entries \<Rightarrow>
                   let count = (\<lambda>key. length (filter (\<lambda>(k, live). k = key) entries))
                   in if list_ex (\<lambda>key. zcard (tenant_inflight c key) \<noteq> count key) (remdups (map fst entries))
                        \<or> zcard (tenant_inflight c current) \<noteq> count current
                      then None
                      else Some (length (filter snd entries),
                                 length (filter (\<lambda>(k, live). k = current \<and> live) entries)))"

subsection \<open>The scripts\<close>

definition drop_reservation :: "string \<Rightarrow> string \<Rightarrow> string \<Rightarrow> coord \<Rightarrow> coord" where
  "drop_reservation kind key tok c = c\<lparr>
     global_inflight := zrem tok (global_inflight c),
     tenant_inflight := (tenant_inflight c)(key := zrem tok (tenant_inflight c key)),
     provisional := (if kind = kindP then zrem tok (provisional c) else provisional c),
     stable_index := (if kind = kindP then stable_index c else zrem tok (stable_index c)),
     reservation_meta := AList.delete tok (reservation_meta c) \<rparr>"

definition resv_keys :: "string \<Rightarrow> redis_key list" where
  "resv_keys key = [KGlobalInflight, KTenantInflight key, KProvisional, KStableIndex, KReservationMeta]"

definition lua_decide :: "capacity_limits \<Rightarrow> nat \<Rightarrow> nat \<Rightarrow> nat \<Rightarrow> string" where
  "lua_decide limits all_count mine active_count =
     (if int all_count \<ge> global_concurrency limits then ''denied-global-full''
      else if int mine \<ge> per_user_burst limits then ''denied-tenant-burst''
      else if int mine < per_user_base limits then ''regular''
      else if \<not> borrow_enabled limits then ''denied-borrow-disabled''
      else if active_count = 1 then ''borrowed''
      else ''denied-competing-active-tenant'')"

definition add_provisional :: "int \<Rightarrow> string \<Rightarrow> string \<Rightarrow> string \<Rightarrow> string \<Rightarrow> coord \<Rightarrow> coord" where
  "add_provisional expiry tok tenant key decision c = c\<lparr>
     global_inflight := zadd expiry tok (global_inflight c),
     tenant_inflight := (tenant_inflight c)(key := zadd expiry tok (tenant_inflight c key)),
     provisional := zadd expiry tok (provisional c),
     reservation_meta := AList.update tok (provisional_meta tenant key decision) (reservation_meta c) \<rparr>"

definition add_stable :: "int \<Rightarrow> string \<Rightarrow> string \<Rightarrow> string \<Rightarrow> coord \<Rightarrow> coord" where
  "add_stable expiry tok tenant key c = c\<lparr>
     global_inflight := zadd expiry tok (global_inflight c),
     tenant_inflight := (tenant_inflight c)(key := zadd expiry tok (tenant_inflight c key)),
     stable_index := zadd 0 tok (stable_index c),
     reservation_meta := AList.update tok (stable_meta tenant key) (reservation_meta c) \<rparr>"

definition lua_acquire ::
  "(string \<Rightarrow> string) \<Rightarrow> string \<Rightarrow> string \<Rightarrow> string \<Rightarrow> string \<Rightarrow> string \<Rightarrow> int \<Rightarrow> capacity_limits
   \<Rightarrow> string \<Rightarrow> string \<Rightarrow> nat \<Rightarrow> nat \<Rightarrow> int \<Rightarrow> script" where
  "lua_acquire H epoch writer tenant key token ttl limits prefix resource batch maximum now =
   fenced epoch writer (\<lambda>c.
     if \<not> types_ok c ([KActiveUsers, KKnownUsers] @ resv_keys key) then (c, [CORRUPT])
     else if tenant \<notin> active_users c \<or> tenant \<notin> known_users c then (c, [CORRUPT])
     else
       case reservation_closure H prefix resource now key maximum c of
         None \<Rightarrow> (c, [CORRUPT])
       | Some (all_count, mine) \<Rightarrow>
           let expired = zexpired now batch (global_inflight c)
           in case all_some (reservation_entry H prefix resource c) expired of
                None \<Rightarrow> (c, [CORRUPT])
              | Some entries \<Rightarrow>
                  let c = fold (\<lambda>(tok, kind, m). drop_reservation kind (meta_tenant_key m) tok)
                            (zip expired entries) c;
                      g = zscore (global_inflight c) token; t = zscore (tenant_inflight c key) token;
                      p = zscore (provisional c) token; s = zscore (stable_index c) token;
                      raw = hget (reservation_meta c) token
                  in if g \<noteq> None \<or> t \<noteq> None \<or> p \<noteq> None \<or> s \<noteq> None \<or> raw \<noteq> None then
                       (case parse_meta H raw kindP prefix resource of
                          None \<Rightarrow> (c, [CORRUPT])
                        | Some m \<Rightarrow>
                            if meta_tenant m \<noteq> tenant \<or> meta_tenant_key m \<noteq> key then (c, [INVALID])
                            else if \<not> same_score g t \<or> \<not> same_score g p \<or> s \<noteq> None then (c, [CORRUPT])
                            else if the p \<le> now then (c, [INVALID])
                            else (c, [the (meta_decision m)]))
                     else
                       let active_count = card (active_users c)
                       in if mine > all_count \<or> active_count < 1 then (c, [CORRUPT])
                          else
                            let decision = lua_decide limits all_count mine active_count
                            in if decision \<noteq> ''regular'' \<and> decision \<noteq> ''borrowed'' then (c, [decision])
                               else (add_provisional (now + ttl) token tenant key decision c, [decision]))"

text \<open>The five lookups that bind, stable write and release make for a token of a tenant.\<close>

definition entry_any :: "coord \<Rightarrow> string \<Rightarrow> string \<Rightarrow> bool" where
  "entry_any c key tok \<longleftrightarrow>
     zscore (global_inflight c) tok \<noteq> None \<or> zscore (tenant_inflight c key) tok \<noteq> None
     \<or> zscore (provisional c) tok \<noteq> None \<or> zscore (stable_index c) tok \<noteq> None
     \<or> hget (reservation_meta c) tok \<noteq> None"

definition provisional_full :: "coord \<Rightarrow> string \<Rightarrow> string \<Rightarrow> bool" where
  "provisional_full c key tok \<longleftrightarrow>
     same_score (zscore (global_inflight c) tok) (zscore (tenant_inflight c key) tok)
     \<and> same_score (zscore (global_inflight c) tok) (zscore (provisional c) tok)
     \<and> zscore (stable_index c) tok = None \<and> hget (reservation_meta c) tok \<noteq> None"

definition stable_full :: "coord \<Rightarrow> string \<Rightarrow> string \<Rightarrow> bool" where
  "stable_full c key tok \<longleftrightarrow>
     same_score (zscore (global_inflight c) tok) (zscore (tenant_inflight c key) tok)
     \<and> zscore (provisional c) tok = None \<and> zscore (stable_index c) tok = Some 0
     \<and> hget (reservation_meta c) tok \<noteq> None"

definition owned_by :: "resv_meta \<Rightarrow> string \<Rightarrow> string \<Rightarrow> bool" where
  "owned_by m tenant key \<longleftrightarrow> meta_tenant m = tenant \<and> meta_tenant_key m = key"

definition lua_bind ::
  "(string \<Rightarrow> string) \<Rightarrow> string \<Rightarrow> string \<Rightarrow> string \<Rightarrow> string \<Rightarrow> string \<Rightarrow> string \<Rightarrow> int
   \<Rightarrow> string \<Rightarrow> string \<Rightarrow> int \<Rightarrow> script" where
  "lua_bind H epoch writer tenant key prov stok ttl prefix resource now = fenced epoch writer (\<lambda>c.
     if \<not> types_ok c (resv_keys key) then (c, [CORRUPT])
     else
       let p_any = entry_any c key prov;
           p_meta = parse_meta H (hget (reservation_meta c) prov) kindP prefix resource;
           s_any = entry_any c key stok;
           s_meta = parse_meta H (hget (reservation_meta c) stok) kindS prefix resource
       in if p_any \<and> (\<not> provisional_full c key prov \<or> p_meta = None) then (c, [CORRUPT])
          else if (case p_meta of None \<Rightarrow> False | Some m \<Rightarrow> \<not> owned_by m tenant key) then (c, [INVALID])
          else if s_any \<and> (\<not> stable_full c key stok \<or> s_meta = None) then (c, [CORRUPT])
          else if (case s_meta of None \<Rightarrow> False | Some m \<Rightarrow> \<not> owned_by m tenant key) then (c, [INVALID])
          else if p_any \<and> s_any then (c, [CORRUPT])
          else if \<not> p_any \<and> \<not> s_any then (c, [INVALID])
          else if (p_any \<and> the (zscore (global_inflight c) prov) \<le> now)
            \<or> (s_any \<and> the (zscore (global_inflight c) stok) \<le> now) then (c, [INVALID])
          else if s_any then (c, [OK])
          else (add_stable (now + ttl) stok tenant key (drop_reservation kindP key prov c), [OK]))"

definition lua_stable_write ::
  "(string \<Rightarrow> string) \<Rightarrow> string \<Rightarrow> string \<Rightarrow> string \<Rightarrow> string \<Rightarrow> string \<Rightarrow> int \<Rightarrow> bool
   \<Rightarrow> string \<Rightarrow> string \<Rightarrow> int \<Rightarrow> script" where
  "lua_stable_write H epoch writer tenant key stok ttl allow_create prefix resource now =
   fenced epoch writer (\<lambda>c.
     if \<not> types_ok c (resv_keys key) then (c, [CORRUPT])
     else
       let found = entry_any c key stok;
           meta = parse_meta H (hget (reservation_meta c) stok) kindS prefix resource
       in if found \<and> (\<not> stable_full c key stok \<or> meta = None) then (c, [CORRUPT])
          else if (case meta of None \<Rightarrow> False | Some m \<Rightarrow> \<not> owned_by m tenant key) then (c, [INVALID])
          else if \<not> found \<and> \<not> allow_create then (c, [CORRUPT])
          else if found \<and> \<not> allow_create \<and> the (zscore (global_inflight c) stok) \<le> now then (c, [INVALID])
          else (add_stable (now + ttl) stok tenant key c, [OK]))"

definition lua_release ::
  "(string \<Rightarrow> string) \<Rightarrow> string \<Rightarrow> string \<Rightarrow> string \<Rightarrow> string \<Rightarrow> string \<Rightarrow> string \<Rightarrow> string \<Rightarrow> string \<Rightarrow> script" where
  "lua_release H epoch writer tenant key token kind prefix resource = fenced epoch writer (\<lambda>c.
     if \<not> types_ok c (resv_keys key) then (c, [CORRUPT])
     else if \<not> entry_any c key token then (c, [OK])
     else
       let g = zscore (global_inflight c) token; p = zscore (provisional c) token;
           s = zscore (stable_index c) token
       in case parse_meta H (hget (reservation_meta c) token) kind prefix resource of
            None \<Rightarrow> (c, [CORRUPT])
          | Some m \<Rightarrow>
              if \<not> owned_by m tenant key then (c, [INVALID])
              else if \<not> same_score g (zscore (tenant_inflight c key) token) then (c, [CORRUPT])
              else if (if kind = kindP then \<not> same_score g p \<or> s \<noteq> None else p \<noteq> None \<or> s \<noteq> Some 0)
                then (c, [CORRUPT])
              else (drop_reservation kind key token c, [OK]))"

text \<open>\<open>ZRANGEBYLEX key min + LIMIT 0 n\<close> on equal scores: the members above an exclusive bound, bytewise.\<close>

definition zrange_lex :: "string \<Rightarrow> nat \<Rightarrow> zset \<Rightarrow> string list" where
  "zrange_lex after n z = take n (filter (\<lambda>m. after = [] \<or> after < m) (sort (map fst z)))"

definition stable_row ::
  "(string \<Rightarrow> string) \<Rightarrow> string \<Rightarrow> string \<Rightarrow> coord \<Rightarrow> string \<Rightarrow> string list option" where
  "stable_row H prefix resource c tok =
     (if \<not> (take 2 tok = ''r:'' \<and> lower_hex 64 (drop 2 tok)) then None
      else case (zscore (global_inflight c) tok, parse_meta H (hget (reservation_meta c) tok) kindS prefix resource) of
             (Some g, Some m) \<Rightarrow>
               if g \<le> 0 \<or> zscore (provisional c) tok \<noteq> None \<or> zscore (stable_index c) tok \<noteq> Some 0
                 \<or> KTenantInflight (meta_tenant_key m) \<in> wrong_type c
                 \<or> \<not> same_score (Some g) (zscore (tenant_inflight c (meta_tenant_key m)) tok)
               then None else Some [tok, meta_tenant m, format_uint (nat g)]
           | _ \<Rightarrow> None)"

definition lua_list_stable ::
  "(string \<Rightarrow> string) \<Rightarrow> string \<Rightarrow> string \<Rightarrow> string \<Rightarrow> nat \<Rightarrow> string \<Rightarrow> string \<Rightarrow> script" where
  "lua_list_stable H epoch writer cursor requested prefix resource = fenced epoch writer (\<lambda>c. (c,
     if \<not> types_ok c [KGlobalInflight, KProvisional, KStableIndex, KReservationMeta] then [CORRUPT]
     else if reservation_shape_count c = None then [CORRUPT]
     else
       let tokens = zrange_lex cursor (requested + 1) (stable_index c);
           more = length tokens > requested;
           returned = (if more then take requested tokens else tokens);
           next_cursor = (if more then tokens ! (requested - 1) else [])
       in case all_some (stable_row H prefix resource c) returned of
            None \<Rightarrow> [CORRUPT]
          | Some rows \<Rightarrow>
              [OK, if more then ''0'' else ''1'', next_cursor, format_uint (length returned)] @ concat rows))"

subsection \<open>The Go operations\<close>

definition decision_code :: "decision \<Rightarrow> string" where
  "decision_code d =
     (case d of Regular \<Rightarrow> ''regular'' | Borrowed \<Rightarrow> ''borrowed''
      | DeniedGlobalFull \<Rightarrow> ''denied-global-full'' | DeniedTenantBurst \<Rightarrow> ''denied-tenant-burst''
      | DeniedCompetition \<Rightarrow> ''denied-competing-active-tenant''
      | DeniedBorrowOff \<Rightarrow> ''denied-borrow-disabled'')"

definition all_decisions :: "decision list" where
  "all_decisions = [Regular, Borrowed, DeniedGlobalFull, DeniedTenantBurst, DeniedCompetition, DeniedBorrowOff]"

definition parse_decision :: "reply \<Rightarrow> decision result" where
  "parse_decision values =
     (case values of
        [code] \<Rightarrow> (case find (\<lambda>d. decision_code d = code) all_decisions of
                     Some d \<Rightarrow> Inr d | None \<Rightarrow> Inl (redis_script_error code))
      | _ \<Rightarrow> Inl [ErrCoordinationCorrupt])"

definition redis_runtime_reservation_cleanup_batch :: nat where
  "redis_runtime_reservation_cleanup_batch = 128"

definition max_recovery_page_limit :: int where
  "max_recovery_page_limit = max_recovery_page_size"

definition acquire_provisional ::
  "(string \<Rightarrow> string) \<Rightarrow> transport \<Rightarrow> int \<Rightarrow> string \<Rightarrow> string \<Rightarrow> resource_fence \<Rightarrow> string \<Rightarrow> string
   \<Rightarrow> capacity_limits \<Rightarrow> int \<Rightarrow> decision coord_op" where
  "acquire_provisional H net now prefix resource fence tenant attempt limits ttl =
     redis_call net
       (case valid_runtime_reservation H prefix resource fence tenant of
          Inl e \<Rightarrow> Inl e
        | Inr (k, tk) \<Rightarrow>
            check_err (fail_when (\<not> lower_hex 32 attempt) (wraps ErrInvalidModel))
              (check_err (as_sentinel ErrInvalidModel (validate_limits limits))
                (check_err (fail_when (global_concurrency limits > max_recovery_page_limit) (wraps ErrInvalidModel))
                  (case redis_runtime_ttl_ms ttl of Inl e \<Rightarrow> Inl e | Inr ms \<Rightarrow> Inr (k, tk, ms)))))
       (\<lambda>(k, tk, ms). lua_acquire H (fence_epoch fence) (fence_writer fence) tenant tk (''p:'' @ attempt) ms
          limits (tenant_key_prefix k) resource redis_runtime_reservation_cleanup_batch
          (nat max_recovery_page_limit) now)
       (\<lambda>_. parse_decision)"

definition bind_reservation ::
  "(string \<Rightarrow> string) \<Rightarrow> transport \<Rightarrow> int \<Rightarrow> string \<Rightarrow> string \<Rightarrow> resource_fence \<Rightarrow> string \<Rightarrow> string
   \<Rightarrow> string \<Rightarrow> int \<Rightarrow> unit coord_op" where
  "bind_reservation H net now prefix resource fence tenant attempt stable_token ttl =
     redis_call net
       (case valid_runtime_reservation H prefix resource fence tenant of
          Inl e \<Rightarrow> Inl e
        | Inr (k, tk) \<Rightarrow>
            check_err (fail_when (\<not> lower_hex 32 attempt \<or> \<not> stable_reservation_pattern stable_token)
                (wraps ErrInvalidModel))
              (case redis_runtime_ttl_ms ttl of Inl e \<Rightarrow> Inl e | Inr ms \<Rightarrow> Inr (k, tk, ms)))
       (\<lambda>(k, tk, ms). lua_bind H (fence_epoch fence) (fence_writer fence) tenant tk (''p:'' @ attempt)
          stable_token ms (tenant_key_prefix k) resource now)
       (\<lambda>_. expect_ok)"

text \<open>\<open>RenewStable\<close> is \<open>allow_create = False\<close>, \<open>EnsureReadyStableInflight\<close> is \<open>True\<close>.\<close>

definition write_ready_stable ::
  "(string \<Rightarrow> string) \<Rightarrow> transport \<Rightarrow> int \<Rightarrow> string \<Rightarrow> string \<Rightarrow> resource_fence \<Rightarrow> string \<Rightarrow> string
   \<Rightarrow> int \<Rightarrow> bool \<Rightarrow> unit coord_op" where
  "write_ready_stable H net now prefix resource fence tenant stable_token ttl allow_create =
     redis_call net
       (case valid_runtime_reservation H prefix resource fence tenant of
          Inl e \<Rightarrow> Inl e
        | Inr (k, tk) \<Rightarrow>
            check_err (fail_when (\<not> stable_reservation_pattern stable_token) (wraps ErrInvalidModel))
              (case redis_runtime_ttl_ms ttl of Inl e \<Rightarrow> Inl e | Inr ms \<Rightarrow> Inr (k, tk, ms)))
       (\<lambda>(k, tk, ms). lua_stable_write H (fence_epoch fence) (fence_writer fence) tenant tk
          stable_token ms allow_create (tenant_key_prefix k) resource now)
       (\<lambda>_. expect_ok)"

definition release_token :: "string \<Rightarrow> (string \<times> string) result" where
  "release_token token =
     (if lower_hex 32 token then Inr (''p:'' @ token, kindP)
      else if length token = 34 \<and> take 2 token = ''p:'' \<and> lower_hex 32 (drop 2 token) then Inr (token, kindP)
      else if stable_reservation_pattern token then Inr (token, kindS)
      else Inl [ErrInvalidModel])"

definition release ::
  "(string \<Rightarrow> string) \<Rightarrow> transport \<Rightarrow> string \<Rightarrow> string \<Rightarrow> resource_fence \<Rightarrow> string \<Rightarrow> string \<Rightarrow> unit coord_op" where
  "release H net prefix resource fence tenant token =
     redis_call net
       (case valid_runtime_reservation H prefix resource fence tenant of
          Inl e \<Rightarrow> Inl e
        | Inr (k, tk) \<Rightarrow> (case release_token token of Inl e \<Rightarrow> Inl e | Inr (tok, kind) \<Rightarrow> Inr (k, tk, tok, kind)))
       (\<lambda>(k, tk, tok, kind). lua_release H (fence_epoch fence) (fence_writer fence) tenant tk tok kind
          (tenant_key_prefix k) resource)
       (\<lambda>_. expect_ok)"

record 'a recovery_page =
  page_items :: "'a list"
  page_next :: string
  page_done :: bool

definition validate_page :: "('a \<Rightarrow> goerr) \<Rightarrow> 'a recovery_page \<Rightarrow> string \<Rightarrow> int \<Rightarrow> goerr" where
  "validate_page validate_item p after limit =
     first_err [
       as_sentinel ErrInvalidRecoveryPage (validate_page_limit limit),
       as_sentinel ErrInvalidRecoveryPage (validate_cursor after),
       as_sentinel ErrInvalidRecoveryPage (validate_cursor (page_next p)),
       fail_when (int (length (page_items p)) > limit) (wraps ErrInvalidRecoveryPage),
       as_sentinel ErrInvalidRecoveryPage (first_err (map validate_item (page_items p))),
       (if page_done p then fail_when (page_next p \<noteq> []) (wraps ErrInvalidRecoveryPage)
        else fail_when (page_next p = [] \<or> page_next p = after) (wraps ErrInvalidRecoveryPage))]"

record reservation_ref =
  ref_tenant :: string
  ref_stable_token :: string
  ref_expires_ms :: int

definition validate_reservation_ref :: "reservation_ref \<Rightarrow> goerr" where
  "validate_reservation_ref r =
     first_err [validate_tenant_id (ref_tenant r),
       fail_when (\<not> stable_reservation_pattern (ref_stable_token r) \<or> ref_expires_ms r \<le> 0)
         (wraps ErrInvalidModel)]"

fun parse_reservation_rows :: "string list \<Rightarrow> reservation_ref list option" where
  "parse_reservation_rows [] = Some []"
| "parse_reservation_rows (tok # tenant # expires # rest) =
     (case parse_int64 expires of
        None \<Rightarrow> None
      | Some e \<Rightarrow>
          let item = \<lparr> ref_tenant = tenant, ref_stable_token = tok, ref_expires_ms = e \<rparr>
          in if validate_reservation_ref item \<noteq> None then None
             else map_option ((#) item) (parse_reservation_rows rest))"
| "parse_reservation_rows _ = None"

definition parse_stable_page ::
  "string \<Rightarrow> int \<Rightarrow> reply \<Rightarrow> reservation_ref recovery_page result" where
  "parse_stable_page cursor limit values =
     check_err (redis_runtime_result_error values)
       (case values of
          _ # done_raw # next # count_raw # rows \<Rightarrow>
            (case parse_int64 count_raw of
               None \<Rightarrow> Inl [ErrCoordinationCorrupt]
             | Some n \<Rightarrow>
                 if n < 0 \<or> n > limit \<or> int (length rows) \<noteq> n * 3 then Inl [ErrCoordinationCorrupt]
                 else if done_raw \<noteq> ''0'' \<and> done_raw \<noteq> ''1'' then Inl [ErrCoordinationCorrupt]
                 else (case parse_reservation_rows rows of
                         None \<Rightarrow> Inl [ErrCoordinationCorrupt]
                       | Some items \<Rightarrow>
                           let page = \<lparr> page_items = items, page_next = next, page_done = (done_raw = ''1'') \<rparr>
                           in if validate_page validate_reservation_ref page cursor limit \<noteq> None
                              then Inl [ErrCoordinationCorrupt] else Inr page))
        | _ \<Rightarrow> Inl [ErrCoordinationCorrupt])"

definition list_ready_stable ::
  "(string \<Rightarrow> string) \<Rightarrow> transport \<Rightarrow> string \<Rightarrow> string \<Rightarrow> resource_fence \<Rightarrow> string \<Rightarrow> int
   \<Rightarrow> reservation_ref recovery_page coord_op" where
  "list_ready_stable H net prefix resource fence cursor limit =
     redis_call net
       (case valid_runtime_fence prefix resource fence of
          Inl e \<Rightarrow> Inl e
        | Inr k \<Rightarrow>
            check_err (as_sentinel ErrInvalidModel (validate_page_limit limit))
              (check_err (fail_when (validate_cursor cursor \<noteq> None
                   \<or> (cursor \<noteq> [] \<and> \<not> stable_reservation_pattern cursor)) (wraps ErrInvalidModel)) (Inr k)))
       (\<lambda>k. lua_list_stable H (fence_epoch fence) (fence_writer fence) cursor (nat limit)
          (tenant_key_prefix k) resource)
       (\<lambda>_. parse_stable_page cursor limit)"

end
