(* ===== verification/Fq_Resv_Inv.thy ===== *)
theory Fq_Resv_Inv
  imports Fq_Reservations
begin

text \<open>
  The reservation invariant: metadata, the global set, the tenant sets and the two indexes
  describe the same reservations.  Under it the consistency checks of the scripts succeed, each
  script has a simple result, and each script keeps it.
\<close>

subsection \<open>The reservation invariant\<close>

definition resv_inv :: "(string \<Rightarrow> string) \<Rightarrow> string \<Rightarrow> string \<Rightarrow> coord \<Rightarrow> bool" where
  "resv_inv H prefix resource c \<longleftrightarrow>
     wrong_type c = {} \<and> zwf (global_inflight c) \<and> zwf (provisional c) \<and> zwf (stable_index c)
     \<and> (\<forall>k. zwf (tenant_inflight c k)) \<and> distinct (map fst (reservation_meta c))
     \<and> (\<forall>tok. hget (reservation_meta c) tok \<noteq> None \<longrightarrow> reservation_entry H prefix resource c tok \<noteq> None)
     \<and> (\<forall>tok. hget (reservation_meta c) tok = None \<longrightarrow>
          zscore (global_inflight c) tok = None \<and> zscore (provisional c) tok = None
          \<and> zscore (stable_index c) tok = None)
     \<and> (\<forall>tok k. zscore (tenant_inflight c k) tok \<noteq> None \<longrightarrow>
          (\<exists>kind m. reservation_entry H prefix resource c tok = Some (kind, m) \<and> meta_tenant_key m = k))"

lemma kinds_distinct [simp]: "kindP \<noteq> kindS" "kindS \<noteq> kindP"
  by simp_all

lemma token_kind_cases:
  "token_kind tok = Some k \<Longrightarrow> k = kindP \<or> k = kindS"
  by (auto simp: token_kind_def split: if_splits)

text \<open>An entry depends only on the lookups at its token; the emptiness test is redundant.\<close>

definition entry_at ::
  "(string \<Rightarrow> string) \<Rightarrow> string \<Rightarrow> string \<Rightarrow> string \<Rightarrow> int option \<Rightarrow> int option \<Rightarrow> int option
   \<Rightarrow> json option option \<Rightarrow> (string \<Rightarrow> int option) \<Rightarrow> (string \<times> resv_meta) option" where
  "entry_at H prefix resource tok g p s raw tens =
     (case token_kind tok of None \<Rightarrow> None
      | Some k \<Rightarrow>
          (case parse_meta H raw k prefix resource of None \<Rightarrow> None
           | Some m \<Rightarrow>
               if g \<noteq> None \<and> tens (meta_tenant_key m) = g
                 \<and> p = (if k = kindP then g else None) \<and> s = (if k = kindP then None else Some 0)
               then Some (k, m) else None))"

lemma reservation_entry_at:
  assumes "wrong_type c = {}"
  shows "reservation_entry H prefix resource c tok =
    entry_at H prefix resource tok (zscore (global_inflight c) tok) (zscore (provisional c) tok)
      (zscore (stable_index c) tok) (hget (reservation_meta c) tok)
      (\<lambda>k. zscore (tenant_inflight c k) tok)"
proof (cases "token_kind tok")
  case None
  then show ?thesis by (simp add: reservation_entry_def entry_at_def Let_def)
next
  case (Some k)
  show ?thesis
  proof (cases "parse_meta H (hget (reservation_meta c) tok) k prefix resource")
    case None
    with Some show ?thesis by (simp add: reservation_entry_def entry_at_def Let_def)
  next
    case (Some m)
    have "zscore (tenant_inflight c (meta_tenant_key m)) tok \<noteq> None \<Longrightarrow> tenant_inflight c (meta_tenant_key m) \<noteq> []"
      by auto
    with Some \<open>token_kind tok = Some k\<close> assms show ?thesis
      unfolding reservation_entry_def entry_at_def Let_def same_score_def
      by (cases "k = kindP"; cases "zscore (global_inflight c) tok";
          cases "zscore (tenant_inflight c (meta_tenant_key m)) tok") auto
  qed
qed

lemma entry_at_Some:
  "entry_at H prefix resource tok g p s raw tens = Some (k, m) \<longleftrightarrow>
     token_kind tok = Some k \<and> parse_meta H raw k prefix resource = Some m \<and> g \<noteq> None
     \<and> tens (meta_tenant_key m) = g \<and> p = (if k = kindP then g else None)
     \<and> s = (if k = kindP then None else Some 0)"
  unfolding entry_at_def
  by (cases "token_kind tok"; cases "parse_meta H raw k prefix resource") (auto split: option.splits)

lemma hget_update [simp]: "hget (AList.update f v h) f' = (if f' = f then Some v else hget h f')"
  by (simp add: hget_def update_conv')

lemma hget_delete [simp]: "hget (AList.delete f h) f' = (if f' = f then None else hget h f')"
  by (simp add: hget_def delete_conv')

lemma parse_meta_None [simp]: "parse_meta H None k prefix resource = None"
  by (simp add: parse_meta_def)

lemma drop_reservation_simps [simp]:
  "wrong_type (drop_reservation kind key tok c) = wrong_type c"
  "global_inflight (drop_reservation kind key tok c) = zrem tok (global_inflight c)"
  "tenant_inflight (drop_reservation kind key tok c) = (tenant_inflight c)(key := zrem tok (tenant_inflight c key))"
  "provisional (drop_reservation kind key tok c) = (if kind = kindP then zrem tok (provisional c) else provisional c)"
  "stable_index (drop_reservation kind key tok c) = (if kind = kindP then stable_index c else zrem tok (stable_index c))"
  "reservation_meta (drop_reservation kind key tok c) = AList.delete tok (reservation_meta c)"
  by (simp_all add: drop_reservation_def)

lemma add_provisional_simps [simp]:
  "wrong_type (add_provisional x tok tenant key d c) = wrong_type c"
  "global_inflight (add_provisional x tok tenant key d c) = zadd x tok (global_inflight c)"
  "tenant_inflight (add_provisional x tok tenant key d c) = (tenant_inflight c)(key := zadd x tok (tenant_inflight c key))"
  "provisional (add_provisional x tok tenant key d c) = zadd x tok (provisional c)"
  "stable_index (add_provisional x tok tenant key d c) = stable_index c"
  "reservation_meta (add_provisional x tok tenant key d c) =
     AList.update tok (provisional_meta tenant key d) (reservation_meta c)"
  by (simp_all add: add_provisional_def)

lemma add_stable_simps [simp]:
  "wrong_type (add_stable x tok tenant key c) = wrong_type c"
  "global_inflight (add_stable x tok tenant key c) = zadd x tok (global_inflight c)"
  "tenant_inflight (add_stable x tok tenant key c) = (tenant_inflight c)(key := zadd x tok (tenant_inflight c key))"
  "provisional (add_stable x tok tenant key c) = provisional c"
  "stable_index (add_stable x tok tenant key c) = zadd 0 tok (stable_index c)"
  "reservation_meta (add_stable x tok tenant key c) =
     AList.update tok (stable_meta tenant key) (reservation_meta c)"
  by (simp_all add: add_stable_def)

lemma entry_of_other:
  assumes "wrong_type c = {}" and "tok' \<noteq> tok"
  shows "reservation_entry H prefix resource (drop_reservation kind key tok c) tok' = reservation_entry H prefix resource c tok'"
    "reservation_entry H prefix resource (add_provisional x tok tenant key d c) tok' = reservation_entry H prefix resource c tok'"
    "reservation_entry H prefix resource (add_stable x tok tenant key c) tok' = reservation_entry H prefix resource c tok'"
  using assms by (auto simp: reservation_entry_at fun_upd_def intro!: arg_cong [where f = "entry_at _ _ _ _ _ _ _ _"])

lemma resv_invD:
  assumes "resv_inv H prefix resource c"
  shows "wrong_type c = {}" "zwf (global_inflight c)" "zwf (provisional c)" "zwf (stable_index c)"
    "\<And>k. zwf (tenant_inflight c k)" "distinct (map fst (reservation_meta c))"
    "\<And>tok. hget (reservation_meta c) tok \<noteq> None \<Longrightarrow> reservation_entry H prefix resource c tok \<noteq> None"
    "\<And>tok. hget (reservation_meta c) tok = None \<Longrightarrow> zscore (global_inflight c) tok = None"
    "\<And>tok. hget (reservation_meta c) tok = None \<Longrightarrow> zscore (provisional c) tok = None"
    "\<And>tok. hget (reservation_meta c) tok = None \<Longrightarrow> zscore (stable_index c) tok = None"
    "\<And>tok k. zscore (tenant_inflight c k) tok \<noteq> None \<Longrightarrow>
       \<exists>kind m. reservation_entry H prefix resource c tok = Some (kind, m) \<and> meta_tenant_key m = k"
  using assms unfolding resv_inv_def by blast+

lemma entry_facts:
  assumes "wrong_type c = {}" and "reservation_entry H prefix resource c tok = Some (k, m)"
  shows "token_kind tok = Some k" "parse_meta H (hget (reservation_meta c) tok) k prefix resource = Some m"
    "zscore (global_inflight c) tok \<noteq> None"
    "zscore (tenant_inflight c (meta_tenant_key m)) tok = zscore (global_inflight c) tok"
    "zscore (provisional c) tok = (if k = kindP then zscore (global_inflight c) tok else None)"
    "zscore (stable_index c) tok = (if k = kindP then None else Some 0)"
    "hget (reservation_meta c) tok \<noteq> None"
proof -
  note e = assms(2) [unfolded reservation_entry_at [OF assms(1)] entry_at_Some]
  show "token_kind tok = Some k" "parse_meta H (hget (reservation_meta c) tok) k prefix resource = Some m"
    "zscore (global_inflight c) tok \<noteq> None"
    "zscore (tenant_inflight c (meta_tenant_key m)) tok = zscore (global_inflight c) tok"
    "zscore (provisional c) tok = (if k = kindP then zscore (global_inflight c) tok else None)"
    "zscore (stable_index c) tok = (if k = kindP then None else Some 0)"
    using e by blast+
  show "hget (reservation_meta c) tok \<noteq> None"
    using e by (cases "hget (reservation_meta c) tok") simp_all
qed

lemma entry_global:
  assumes "resv_inv H prefix resource c"
  shows "zscore (global_inflight c) tok = None \<longleftrightarrow> hget (reservation_meta c) tok = None"
    "reservation_entry H prefix resource c tok = None \<longleftrightarrow> hget (reservation_meta c) tok = None"
proof -
  note inv = resv_invD [OF assms]
  have *: "hget (reservation_meta c) tok = None" if "reservation_entry H prefix resource c tok = None"
    using inv(7) that by blast
  have **: "reservation_entry H prefix resource c tok = None" if "hget (reservation_meta c) tok = None"
    using that by (auto simp: reservation_entry_at [OF inv(1)] entry_at_def split: option.splits)
  show "reservation_entry H prefix resource c tok = None \<longleftrightarrow> hget (reservation_meta c) tok = None"
    using * ** by blast
  show "zscore (global_inflight c) tok = None \<longleftrightarrow> hget (reservation_meta c) tok = None"
    using * inv(8) entry_facts(3) [OF inv(1)] by (metis not_None_eq surj_pair)
qed

lemma drop_reservation_inv:
  assumes "resv_inv H prefix resource c" and "reservation_entry H prefix resource c tok = Some (kind, m)"
  shows "resv_inv H prefix resource (drop_reservation kind (meta_tenant_key m) tok c)"
proof -
  note inv = resv_invD [OF assms(1)]
  note e = entry_facts [OF inv(1) assms(2)]
  let ?d = "drop_reservation kind (meta_tenant_key m) tok c"
  have other: "t \<noteq> tok \<Longrightarrow> reservation_entry H prefix resource ?d t = reservation_entry H prefix resource c t" for t
    by (rule entry_of_other(1) [OF inv(1)])
  have uniq: "zscore (tenant_inflight c k) tok \<noteq> None \<Longrightarrow> k = meta_tenant_key m" for k
    using inv(11) [of k tok] assms(2) by auto
  show ?thesis
    unfolding resv_inv_def
  proof (intro conjI allI impI)
    fix t assume "hget (reservation_meta ?d) t \<noteq> None"
    then show "reservation_entry H prefix resource ?d t \<noteq> None"
      using other inv(7) by (simp split: if_splits)
  next
    fix t k assume a: "zscore (tenant_inflight ?d k) t \<noteq> None"
    then have "t \<noteq> tok" using uniq by (auto split: if_splits)
    moreover from a have "zscore (tenant_inflight c k) t \<noteq> None" by (auto split: if_splits)
    ultimately show "\<exists>kind' m'. reservation_entry H prefix resource ?d t = Some (kind', m') \<and> meta_tenant_key m' = k"
      using inv(11) other by simp
  qed (use inv(1-6,8-10) e in \<open>auto simp: distinct_delete split: if_splits\<close>)
qed

lemma provisional_meta_parse:
  assumes "tenant \<noteq> []" and "valid_tenant_key H key prefix resource tenant" and "d = ''regular'' \<or> d = ''borrowed''"
  shows "parse_meta H (Some (provisional_meta tenant key d)) kindP prefix resource =
    Some \<lparr> meta_tenant = tenant, meta_tenant_key = key, meta_decision = Some d \<rparr>"
  using assms by (simp add: parse_meta_def provisional_meta_def lua_field_def lua_names_def)

lemma stable_meta_parse:
  assumes "tenant \<noteq> []" and "valid_tenant_key H key prefix resource tenant"
  shows "parse_meta H (Some (stable_meta tenant key)) kindS prefix resource =
    Some \<lparr> meta_tenant = tenant, meta_tenant_key = key, meta_decision = None \<rparr>"
  using assms by (simp add: parse_meta_def stable_meta_def lua_field_def lua_names_def)

lemma add_provisional_entry:
  assumes "resv_inv H prefix resource c" and "hget (reservation_meta c) tok = None"
    and "token_kind tok = Some kindP" and "tenant \<noteq> []" and "valid_tenant_key H key prefix resource tenant"
    and "d = ''regular'' \<or> d = ''borrowed''"
  shows "reservation_entry H prefix resource (add_provisional x tok tenant key d c) tok =
    Some (kindP, \<lparr> meta_tenant = tenant, meta_tenant_key = key, meta_decision = Some d \<rparr>)"
  using resv_invD(1,10) [OF assms(1)] assms(2-) provisional_meta_parse [OF assms(4-6)]
  by (simp add: reservation_entry_at entry_at_Some)

lemma add_stable_entry:
  assumes "resv_inv H prefix resource c" and "zscore (provisional c) tok = None"
    and "token_kind tok = Some kindS" and "tenant \<noteq> []" and "valid_tenant_key H key prefix resource tenant"
  shows "reservation_entry H prefix resource (add_stable x tok tenant key c) tok =
    Some (kindS, \<lparr> meta_tenant = tenant, meta_tenant_key = key, meta_decision = None \<rparr>)"
  using resv_invD(1) [OF assms(1)] assms(2-) stable_meta_parse [OF assms(4,5)]
  by (simp add: reservation_entry_at entry_at_Some)

lemma add_provisional_inv:
  assumes "resv_inv H prefix resource c" and "hget (reservation_meta c) tok = None"
    and "token_kind tok = Some kindP" and "tenant \<noteq> []" and "valid_tenant_key H key prefix resource tenant"
    and "d = ''regular'' \<or> d = ''borrowed''"
  shows "resv_inv H prefix resource (add_provisional x tok tenant key d c)"
proof -
  note inv = resv_invD [OF assms(1)]
  let ?d = "add_provisional x tok tenant key d c"
  note e = add_provisional_entry [OF assms, of x]
  have other: "t \<noteq> tok \<Longrightarrow> reservation_entry H prefix resource ?d t = reservation_entry H prefix resource c t" for t
    by (rule entry_of_other(2) [OF inv(1)])
  have none: "zscore (tenant_inflight c k) tok = None" for k
    using inv(11) [of k tok] entry_global(2) [OF assms(1)] assms(2) by (metis option.distinct(1))
  show ?thesis
    unfolding resv_inv_def
  proof (intro conjI allI impI)
    fix t assume "hget (reservation_meta ?d) t \<noteq> None"
    then show "reservation_entry H prefix resource ?d t \<noteq> None"
      using other inv(7) e by (cases "t = tok") simp_all
  next
    fix t k assume a: "zscore (tenant_inflight ?d k) t \<noteq> None"
    show "\<exists>kind' m'. reservation_entry H prefix resource ?d t = Some (kind', m') \<and> meta_tenant_key m' = k"
    proof (cases "t = tok")
      case True
      with a none have "k = key" by (auto split: if_splits)
      with True e show ?thesis by simp
    next
      case False
      with a have "zscore (tenant_inflight c k) t \<noteq> None" by (auto split: if_splits)
      with False other inv(11) show ?thesis by simp
    qed
  qed (use inv(1-6,8-10) in \<open>auto simp: distinct_update split: if_splits\<close>)
qed

lemma add_stable_inv:
  assumes "resv_inv H prefix resource c"
    and "token_kind tok = Some kindS" and "tenant \<noteq> []" and "valid_tenant_key H key prefix resource tenant"
    and "\<And>k m. reservation_entry H prefix resource c tok = Some (k, m) \<Longrightarrow> meta_tenant_key m = key"
  shows "resv_inv H prefix resource (add_stable x tok tenant key c)"
proof -
  note inv = resv_invD [OF assms(1)]
  let ?d = "add_stable x tok tenant key c"
  have "zscore (provisional c) tok = None"
  proof (cases "reservation_entry H prefix resource c tok")
    case None
    with entry_global(2) [OF assms(1)] inv(9) show ?thesis by blast
  next
    case (Some km)
    then obtain k m where km: "reservation_entry H prefix resource c tok = Some (k, m)" by (cases km) auto
    from entry_facts(1) [OF inv(1) km] assms(2) have "k = kindS" by simp
    then show ?thesis using entry_facts(5) [OF inv(1) km] by simp
  qed
  note e = add_stable_entry [OF assms(1) this assms(2-4), of x]
  have other: "t \<noteq> tok \<Longrightarrow> reservation_entry H prefix resource ?d t = reservation_entry H prefix resource c t" for t
    by (rule entry_of_other(3) [OF inv(1)])
  have only: "zscore (tenant_inflight c k) tok \<noteq> None \<Longrightarrow> k = key" for k
    using inv(11) [of k tok] assms(5) by blast
  show ?thesis
    unfolding resv_inv_def
  proof (intro conjI allI impI)
    fix t assume "hget (reservation_meta ?d) t \<noteq> None"
    then show "reservation_entry H prefix resource ?d t \<noteq> None"
      using other inv(7) e by (cases "t = tok") simp_all
  next
    fix t k assume a: "zscore (tenant_inflight ?d k) t \<noteq> None"
    show "\<exists>kind' m'. reservation_entry H prefix resource ?d t = Some (kind', m') \<and> meta_tenant_key m' = k"
    proof (cases "t = tok")
      case True
      with a only have "k = key" by (auto split: if_splits)
      with True e show ?thesis by simp
    next
      case False
      with a have "zscore (tenant_inflight c k) t \<noteq> None" by (auto split: if_splits)
      with False other inv(11) show ?thesis by simp
    qed
  qed (use inv(1-6,8-10) in \<open>auto simp: distinct_update split: if_splits\<close>)
qed

subsection \<open>Counts\<close>

definition live_count :: "int \<Rightarrow> zset \<Rightarrow> nat" where
  "live_count now z = length (filter (\<lambda>(m, s). s > now) z)"

lemma live_count_card:
  assumes "zwf z"
  shows "live_count now z = card {m. \<exists>s. zscore z m = Some s \<and> s > now}"
proof -
  have "{m. \<exists>s. zscore z m = Some s \<and> s > now} = fst ` set (filter (\<lambda>(m, s). s > now) z)"
    using zset_iff [OF assms] by force
  also have "card \<dots> = card (set (filter (\<lambda>(m, s). s > now) z))"
    using assms by (intro card_image) (auto simp: zwf_def distinct_map inj_on_def)
  also have "\<dots> = live_count now z"
    unfolding live_count_def using assms by (intro distinct_card) (simp add: zwf_def distinct_map)
  finally show ?thesis by simp
qed

lemma live_count_le: "live_count now z \<le> zcard z"
  by (simp add: live_count_def zcard_def)

lemma all_some_map: "(\<And>x. x \<in> set xs \<Longrightarrow> f x = Some (g x)) \<Longrightarrow> all_some f xs = Some (map g xs)"
  by (induction xs) auto

lemma all_some_nth: "all_some f xs = Some ys \<Longrightarrow> length ys = length xs \<and> (\<forall>i<length xs. f (xs ! i) = Some (ys ! i))"
  by (induction xs arbitrary: ys) (auto simp: nth_Cons split: option.splits nat.splits)

lemma count_map_distinct: "distinct xs \<Longrightarrow> length (filter P (map f xs)) = card {x \<in> set xs. P (f x)}"
  by (simp add: filter_map comp_def distinct_length_filter Int_def conj_commute)

lemma card_zscore_dom: "zwf z \<Longrightarrow> card {m. zscore z m \<noteq> None} = zcard z"
  by (simp add: zcard_card)

lemma shape_count:
  assumes "resv_inv H prefix resource c"
  shows "reservation_shape_count c = Some (zcard (global_inflight c))"
proof -
  note inv = resv_invD [OF assms]
  let ?G = "{m. zscore (global_inflight c) m \<noteq> None}" and ?P = "{m. zscore (provisional c) m \<noteq> None}"
    and ?S = "{m. zscore (stable_index c) m \<noteq> None}"
  have cases: "(m \<in> ?G \<longleftrightarrow> m \<in> ?P \<or> m \<in> ?S) \<and> \<not> (m \<in> ?P \<and> m \<in> ?S)
     \<and> (m \<in> ?S \<longrightarrow> zscore (stable_index c) m = Some 0)" for m
  proof (cases "reservation_entry H prefix resource c m")
    case None
    with entry_global(2) [OF assms] inv(8-10) show ?thesis by simp
  next
    case (Some km)
    then obtain k e where "reservation_entry H prefix resource c m = Some (k, e)" by (cases km) auto
    from entry_facts [OF inv(1) this] show ?thesis by auto
  qed
  have "?G = ?P \<union> ?S" "?P \<inter> ?S = {}" using cases by blast+
  moreover have "finite ?P" "finite ?S" using zset_finite by simp_all
  ultimately have "card ?G = card ?P + card ?S" by (simp add: card_Un_disjoint)
  then have 1: "zcard (global_inflight c) = zcard (provisional c) + zcard (stable_index c)"
    by (simp only: card_zscore_dom [OF inv(2)] card_zscore_dom [OF inv(3)] card_zscore_dom [OF inv(4)])
  have "card (fst ` set (reservation_meta c)) = length (reservation_meta c)"
    using inv(6) by (metis distinct_card length_map set_map)
  moreover have "fst ` set (reservation_meta c) = ?G"
    using entry_global(1) [OF assms] by (auto simp: hget_def map_of_eq_None_iff)
  ultimately have 2: "length (reservation_meta c) = zcard (global_inflight c)"
    by (simp only: card_zscore_dom [OF inv(2)])
  have "filter (\<lambda>(m, s). s = 0) (stable_index c) = stable_index c"
  proof (rule filter_True, clarify)
    fix m s assume "(m, s) \<in> set (stable_index c)"
    then have "zscore (stable_index c) m = Some s" using zset_iff [OF inv(4)] by simp
    with cases [of m] show "s = 0" by simp
  qed
  with 1 2 show ?thesis by (simp add: reservation_shape_count_def zcard_def)
qed

lemma closure_count:
  assumes "resv_inv H prefix resource c" and "zcard (global_inflight c) \<le> maximum"
  shows "reservation_closure H prefix resource now key maximum c =
    Some (live_count now (global_inflight c), live_count now (tenant_inflight c key))"
proof -
  note inv = resv_invD [OF assms(1)]
  let ?z = "global_inflight c" and ?toks = "zmembers (global_inflight c)"
  let ?key = "\<lambda>tok. meta_tenant_key (snd (the (reservation_entry H prefix resource c tok)))"
  let ?f = "\<lambda>tok. (?key tok, zscore_of ?z tok > now)"
  have entry: "reservation_entry H prefix resource c tok \<noteq> None" if "tok \<in> set ?toks" for tok
    using that entry_global [OF assms(1)] by auto
  have all: "all_some (\<lambda>tok. map_option (\<lambda>(k, m). (meta_tenant_key m, zscore_of ?z tok > now))
      (reservation_entry H prefix resource c tok)) ?toks = Some (map ?f ?toks)"
  proof (rule all_some_map)
    fix tok assume "tok \<in> set ?toks"
    then obtain km where "reservation_entry H prefix resource c tok = Some km" using entry by blast
    then show "map_option (\<lambda>(k, m). (meta_tenant_key m, zscore_of ?z tok > now))
      (reservation_entry H prefix resource c tok) = Some (?f tok)" by (simp add: split_beta)
  qed
  have dist: "distinct ?toks" using inv(2) by simp
  have mem: "zscore (tenant_inflight c k) tok = (if tok \<in> set ?toks \<and> ?key tok = k then zscore ?z tok else None)" for k tok
  proof (cases "reservation_entry H prefix resource c tok")
    case None
    then show ?thesis using inv(11) [of k tok] entry_global [OF assms(1)]
      by (metis (mono_tags, lifting) mem_Collect_eq option.distinct(1) zmembers_set)
  next
    case (Some km)
    then obtain kd m where km: "reservation_entry H prefix resource c tok = Some (kd, m)" by (cases km) auto
    note e = entry_facts [OF inv(1) km]
    show ?thesis
      using e(3,4) km inv(11) [of k tok]
      by (cases "meta_tenant_key m = k"; cases "zscore (tenant_inflight c k) tok") auto
  qed
  have count: "length (filter (\<lambda>(k, live). k = key') (map ?f ?toks)) = zcard (tenant_inflight c key')" for key'
  proof -
    have "length (filter (\<lambda>(k, live). k = key') (map ?f ?toks)) = card {tok \<in> set ?toks. ?key tok = key'}"
      by (subst count_map_distinct [OF dist]) simp
    also have "{tok \<in> set ?toks. ?key tok = key'} = {tok. zscore (tenant_inflight c key') tok \<noteq> None}"
      using mem [of key'] by (auto split: if_splits)
    finally show ?thesis by (simp only: card_zscore_dom [OF inv(5)])
  qed
  have live: "length (filter snd (map ?f ?toks)) = live_count now ?z"
  proof -
    have "length (filter snd (map ?f ?toks)) = card {tok \<in> set ?toks. zscore_of ?z tok > now}"
      by (subst count_map_distinct [OF dist]) simp
    also have "{tok \<in> set ?toks. zscore_of ?z tok > now} = {m. \<exists>s. zscore ?z m = Some s \<and> s > now}"
      by (auto simp: zscore_of_def split: option.splits)
    finally show ?thesis by (simp only: live_count_card [OF inv(2)])
  qed
  have mine: "length (filter (\<lambda>(k, l). k = key \<and> l) (map ?f ?toks)) = live_count now (tenant_inflight c key)"
  proof -
    have "length (filter (\<lambda>(k, l). k = key \<and> l) (map ?f ?toks)) =
        card {tok \<in> set ?toks. ?key tok = key \<and> zscore_of ?z tok > now}"
      by (subst count_map_distinct [OF dist]) simp
    also have "{tok \<in> set ?toks. ?key tok = key \<and> zscore_of ?z tok > now}
        = {m. \<exists>s. zscore (tenant_inflight c key) m = Some s \<and> s > now}"
      by (auto simp: mem [of key] zscore_of_def split: option.splits if_splits)
    finally show ?thesis by (simp only: live_count_card [OF inv(5)])
  qed
  show ?thesis
    using assms(2) shape_count [OF assms(1)] all count live mine
    by (simp add: reservation_closure_def Let_def list_ex_iff del: filter_map)
qed

lemma live_count_zadd:
  assumes "zwf z" and "zscore z m = None"
  shows "live_count now (zadd s m z) = live_count now z + (if s > now then 1 else 0)"
proof -
  let ?L = "{k. \<exists>x. zscore z k = Some x \<and> x > now}"
  have "?L \<subseteq> {k. \<exists>x. zscore z k = Some x}" by blast
  then have "finite ?L" by (rule finite_subset) simp
  moreover have "m \<notin> ?L" using assms(2) by simp
  moreover have "{k. \<exists>x. zscore (zadd s m z) k = Some x \<and> x > now} = (if s > now then insert m ?L else ?L)"
    using assms(2) by auto
  ultimately show ?thesis using assms(1) by (simp add: live_count_card)
qed

lemma live_count_zrem:
  assumes "zwf z" and "case zscore z m of None \<Rightarrow> True | Some s \<Rightarrow> s \<le> now"
  shows "live_count now (zrem m z) = live_count now z"
proof -
  have "{k. \<exists>x. zscore (zrem m z) k = Some x \<and> x > now} = {k. \<exists>x. zscore z k = Some x \<and> x > now}"
    using assms(2) by (auto split: if_splits)
  then show ?thesis using assms(1) by (simp only: live_count_card zwf_zrem)
qed

text \<open>The fields of the ring, which no reservation script writes.\<close>

definition same_turns :: "coord \<Rightarrow> coord \<Rightarrow> bool" where
  "same_turns c d \<longleftrightarrow> control d = control c \<and> progress d = progress c \<and> recovery_lock d = recovery_lock c
     \<and> wrong_type d = wrong_type c \<and> ring d = ring c \<and> ring_members d = ring_members c
     \<and> active_users d = active_users c \<and> known_users d = known_users c
     \<and> activation_gen d = activation_gen c \<and> processing_turns d = processing_turns c
     \<and> turn_to_tenant d = turn_to_tenant c \<and> turn_to_generation d = turn_to_generation c
     \<and> tenant_to_turn d = tenant_to_turn c"

lemma same_turns_refl [simp]: "same_turns c c"
  by (simp add: same_turns_def)

lemma same_turns_trans: "same_turns c d \<Longrightarrow> same_turns d e \<Longrightarrow> same_turns c e"
  by (simp add: same_turns_def)

lemma same_turns_writes [simp]:
  "same_turns c (drop_reservation kind key tok c)"
  "same_turns c (add_provisional x tok tenant key d c)"
  "same_turns c (add_stable x tok tenant key c)"
  by (simp_all add: same_turns_def drop_reservation_def add_provisional_def add_stable_def)

definition sweep :: "string list \<Rightarrow> (string \<times> resv_meta) list \<Rightarrow> coord \<Rightarrow> coord" where
  "sweep toks entries c =
     fold (\<lambda>(tok, kind, m). drop_reservation kind (meta_tenant_key m) tok) (zip toks entries) c"

lemma sweep_simps [simp]:
  "sweep [] es c = c"
  "sweep (t # ts) ((k, m) # es) c = sweep ts es (drop_reservation k (meta_tenant_key m) t c)"
  by (simp_all add: sweep_def)

lemma all_some_cong: "(\<And>x. x \<in> set xs \<Longrightarrow> f x = g x) \<Longrightarrow> all_some f xs = all_some g xs"
  by (induction xs) (auto split: option.split)

text \<open>Removing a set of expired reservations, one by one.\<close>

lemma sweep_correct:
  assumes "resv_inv H prefix resource c" and "distinct toks"
    and "all_some (reservation_entry H prefix resource c) toks = Some entries"
  shows "resv_inv H prefix resource (sweep toks entries c) \<and> same_turns c (sweep toks entries c)
    \<and> (\<forall>t. hget (reservation_meta (sweep toks entries c)) t =
            (if t \<in> set toks then None else hget (reservation_meta c) t))
    \<and> (\<forall>t. zscore (global_inflight (sweep toks entries c)) t =
            (if t \<in> set toks then None else zscore (global_inflight c) t))
    \<and> (\<forall>t. t \<notin> set toks \<longrightarrow>
            reservation_entry H prefix resource (sweep toks entries c) t = reservation_entry H prefix resource c t)
    \<and> ((\<forall>t\<in>set toks. \<exists>s. zscore (global_inflight c) t = Some s \<and> s \<le> now) \<longrightarrow>
        live_count now (global_inflight (sweep toks entries c)) = live_count now (global_inflight c)
        \<and> (\<forall>k. live_count now (tenant_inflight (sweep toks entries c) k) = live_count now (tenant_inflight c k)))"
  using assms
proof (induction toks arbitrary: c entries)
  case Nil
  then show ?case by simp
next
  case (Cons t ts)
  from Cons.prems(3) obtain k m es where e: "reservation_entry H prefix resource c t = Some (k, m)"
    and es: "all_some (reservation_entry H prefix resource c) ts = Some es" and entries: "entries = (k, m) # es"
    by (auto split: option.splits)
  note inv = resv_invD [OF Cons.prems(1)]
  let ?d = "drop_reservation k (meta_tenant_key m) t c"
  have d: "resv_inv H prefix resource ?d" by (rule drop_reservation_inv [OF Cons.prems(1) e])
  have other: "x \<noteq> t \<Longrightarrow> reservation_entry H prefix resource ?d x = reservation_entry H prefix resource c x" for x
    by (rule entry_of_other(1) [OF inv(1)])
  have "all_some (reservation_entry H prefix resource ?d) ts = all_some (reservation_entry H prefix resource c) ts"
    by (intro all_some_cong, rule other) (use Cons.prems(2) in auto)
  with es have es': "all_some (reservation_entry H prefix resource ?d) ts = Some es" by simp
  have IH: "resv_inv H prefix resource (sweep ts es ?d)" "same_turns ?d (sweep ts es ?d)"
    "\<And>x. hget (reservation_meta (sweep ts es ?d)) x = (if x \<in> set ts then None else hget (reservation_meta ?d) x)"
    "\<And>x. zscore (global_inflight (sweep ts es ?d)) x = (if x \<in> set ts then None else zscore (global_inflight ?d) x)"
    "\<And>x. x \<notin> set ts \<Longrightarrow> reservation_entry H prefix resource (sweep ts es ?d) x = reservation_entry H prefix resource ?d x"
    "\<forall>t\<in>set ts. \<exists>s. zscore (global_inflight ?d) t = Some s \<and> s \<le> now \<Longrightarrow>
        live_count now (global_inflight (sweep ts es ?d)) = live_count now (global_inflight ?d)
        \<and> (\<forall>k. live_count now (tenant_inflight (sweep ts es ?d) k) = live_count now (tenant_inflight ?d k))"
    using Cons.IH [OF d _ es'] Cons.prems(2) by simp_all
  have live: "live_count now (global_inflight ?d) = live_count now (global_inflight c)
     \<and> (\<forall>k. live_count now (tenant_inflight ?d k) = live_count now (tenant_inflight c k))"
    if "zscore (global_inflight c) t = Some s" "s \<le> now" for s
    using that entry_facts(4) [OF inv(1) e] inv(2,5) by (simp add: live_count_zrem)
  have "\<forall>t\<in>set (t # ts). \<exists>s. zscore (global_inflight c) t = Some s \<and> s \<le> now \<Longrightarrow>
      \<forall>t\<in>set ts. \<exists>s. zscore (global_inflight ?d) t = Some s \<and> s \<le> now"
    using Cons.prems(2) by auto
  then have "\<forall>t\<in>set (t # ts). \<exists>s. zscore (global_inflight c) t = Some s \<and> s \<le> now \<Longrightarrow>
      live_count now (global_inflight (sweep ts es ?d)) = live_count now (global_inflight c)
        \<and> (\<forall>k. live_count now (tenant_inflight (sweep ts es ?d) k) = live_count now (tenant_inflight c k))"
    using IH(6) live by fastforce
  moreover have "same_turns c (sweep ts es ?d)" using IH(2) same_turns_writes(1) same_turns_trans by blast
  ultimately show ?case
    using IH(1,3,4,5) other Cons.prems(2) by (simp add: entries)
qed

lemma entries_exist:
  assumes "resv_inv H prefix resource c" and "\<And>t. t \<in> set toks \<Longrightarrow> zscore (global_inflight c) t \<noteq> None"
  shows "\<exists>entries. all_some (reservation_entry H prefix resource c) toks = Some entries"
proof -
  have "all_some (reservation_entry H prefix resource c) toks =
    Some (map (\<lambda>t. the (reservation_entry H prefix resource c t)) toks)"
    using assms(2) entry_global [OF assms(1)] by (intro all_some_map) auto
  then show ?thesis ..
qed

definition swept :: "(string \<Rightarrow> string) \<Rightarrow> string \<Rightarrow> string \<Rightarrow> nat \<Rightarrow> int \<Rightarrow> coord \<Rightarrow> coord" where
  "swept H prefix resource batch now c =
     (let expired = zexpired now batch (global_inflight c)
      in case all_some (reservation_entry H prefix resource c) expired of
           None \<Rightarrow> c | Some entries \<Rightarrow> sweep expired entries c)"

lemma swept_facts:
  assumes "resv_inv H prefix resource c"
  shows "resv_inv H prefix resource (swept H prefix resource batch now c)"
    "same_turns c (swept H prefix resource batch now c)"
    "live_count now (global_inflight (swept H prefix resource batch now c)) = live_count now (global_inflight c)"
    "live_count now (tenant_inflight (swept H prefix resource batch now c) k) = live_count now (tenant_inflight c k)"
    "\<exists>entries. all_some (reservation_entry H prefix resource c) (zexpired now batch (global_inflight c)) = Some entries
       \<and> swept H prefix resource batch now c = sweep (zexpired now batch (global_inflight c)) entries c"
    "reservation_entry H prefix resource (swept H prefix resource batch now c) t =
       (if t \<in> set (zexpired now batch (global_inflight c)) then None else reservation_entry H prefix resource c t)"
proof -
  let ?toks = "zexpired now batch (global_inflight c)" and ?d = "swept H prefix resource batch now c"
  note inv = resv_invD [OF assms]
  have exp: "\<forall>t\<in>set ?toks. \<exists>s. zscore (global_inflight c) t = Some s \<and> s \<le> now"
    using zexpired_in [OF inv(2)] by blast
  then obtain es where es: "all_some (reservation_entry H prefix resource c) ?toks = Some es"
    using entries_exist [OF assms, of ?toks] by force
  then have d: "?d = sweep ?toks es c" by (simp add: swept_def Let_def)
  note sw = sweep_correct [OF assms distinct_zexpired [OF inv(2)] es, of now, folded d]
  show d': "resv_inv H prefix resource ?d" "same_turns c ?d" using sw by blast+
  show "live_count now (global_inflight ?d) = live_count now (global_inflight c)"
    "live_count now (tenant_inflight ?d k) = live_count now (tenant_inflight c k)"
    using sw exp by blast+
  show "\<exists>entries. all_some (reservation_entry H prefix resource c) ?toks = Some entries \<and> ?d = sweep ?toks entries c"
    using es d by blast
  show "reservation_entry H prefix resource ?d t =
       (if t \<in> set ?toks then None else reservation_entry H prefix resource c t)"
    using sw entry_global(2) [OF d'(1)] by auto
qed

definition call_ok :: "(string \<Rightarrow> string) \<Rightarrow> string \<Rightarrow> string \<Rightarrow> string \<Rightarrow> string \<Rightarrow> bool" where
  "call_ok H prefix resource tenant key \<longleftrightarrow> tenant \<noteq> [] \<and> valid_tenant_key H key prefix resource tenant"

lemma no_entry:
  assumes "resv_inv H prefix resource c" and "reservation_entry H prefix resource c tok = None"
  shows "zscore (global_inflight c) tok = None" "zscore (provisional c) tok = None"
    "zscore (stable_index c) tok = None" "zscore (tenant_inflight c key) tok = None"
    "hget (reservation_meta c) tok = None"
proof -
  note inv = resv_invD [OF assms(1)]
  show h: "hget (reservation_meta c) tok = None" using assms(2) entry_global(2) [OF assms(1)] by simp
  show "zscore (global_inflight c) tok = None" "zscore (provisional c) tok = None"
    "zscore (stable_index c) tok = None" using inv(8-10) h by blast+
  show "zscore (tenant_inflight c key) tok = None"
    using inv(11) [of key tok] assms(2) by (cases "zscore (tenant_inflight c key) tok") auto
qed

lemma lua_acquire_ready:
  assumes "resv_inv H prefix resource c" and "check_ready e w c = OK"
    and "tenant \<in> active_users c" and "tenant \<in> known_users c" and "finite (active_users c)"
    and "token_kind token = Some kindP" and "zcard (global_inflight c) \<le> maximum"
  shows "lua_acquire H e w tenant key token ttl limits prefix resource batch maximum now c =
    (let d = swept H prefix resource batch now c
     in case reservation_entry H prefix resource d token of
          Some (k, m) \<Rightarrow>
            if \<not> owned_by m tenant key \<or> the (zscore (global_inflight d) token) \<le> now then (d, [INVALID])
            else (d, [the (meta_decision m)])
        | None \<Rightarrow>
            let dec = lua_decide limits (live_count now (global_inflight c))
                        (live_count now (tenant_inflight c key)) (card (active_users c))
            in if dec \<noteq> ''regular'' \<and> dec \<noteq> ''borrowed'' then (d, [dec])
               else (add_provisional (now + ttl) token tenant key dec d, [dec]))"
proof -
  note inv = resv_invD [OF assms(1)]
  let ?d = "swept H prefix resource batch now c"
  note sw = swept_facts [OF assms(1), where batch = batch and now = now]
  note dinv = resv_invD [OF sw(1)]
  obtain es where es: "all_some (reservation_entry H prefix resource c) (zexpired now batch (global_inflight c)) = Some es"
    and d: "?d = sweep (zexpired now batch (global_inflight c)) es c" using sw(5) by blast
  have active: "active_users ?d = active_users c" using sw(2) by (simp add: same_turns_def)
  have card: "card (active_users c) \<ge> 1" using assms(3,5) by (simp add: card_gt_0_iff Suc_le_eq) blast
  have mine: "live_count now (tenant_inflight c key) \<le> live_count now (global_inflight c)"
  proof -
    have "{m. \<exists>s. zscore (tenant_inflight c key) m = Some s \<and> s > now}
        \<subseteq> {m. \<exists>s. zscore (global_inflight c) m = Some s \<and> s > now}"
    proof clarify
      fix m s assume a: "zscore (tenant_inflight c key) m = Some s" "s > now"
      then obtain k x where x: "reservation_entry H prefix resource c m = Some (k, x)" "meta_tenant_key x = key"
        using inv(11) [of key m] by auto
      with entry_facts(4) [OF inv(1) x(1)] a
      show "\<exists>s. zscore (global_inflight c) m = Some s \<and> s > now" by (metis (no_types))
    qed
    moreover have "finite {m. \<exists>s. zscore (global_inflight c) m = Some s \<and> s > now}"
      by (rule finite_subset [OF _ zset_finite [of "global_inflight c"]]) blast
    ultimately show ?thesis using inv(2,5) by (simp add: live_count_card card_mono)
  qed
  show ?thesis
  proof (cases "reservation_entry H prefix resource ?d token")
    case None
    note n = no_entry [OF sw(1) None]
    have "(let g = zscore (global_inflight ?d) token; t = zscore (tenant_inflight ?d key) token;
               p = zscore (provisional ?d) token; s = zscore (stable_index ?d) token;
               raw = hget (reservation_meta ?d) token
           in g \<noteq> None \<or> t \<noteq> None \<or> p \<noteq> None \<or> s \<noteq> None \<or> raw \<noteq> None) = False"
      using n by simp
    have "active_users c \<noteq> {}" using assms(3) by blast
    with assms inv(1) None n es mine card active closure_count [OF assms(1,7), of now key] show ?thesis
      unfolding lua_acquire_def fenced_ready [OF assms(2)] Let_def
      by (simp add: d [unfolded sweep_def] sweep_def)
  next
    case (Some km)
    then obtain k m where km: "reservation_entry H prefix resource ?d token = Some (k, m)" by (cases km) auto
    note f = entry_facts [OF dinv(1) km]
    have k: "k = kindP" using f(1) assms(6) by simp
    obtain g where g: "zscore (global_inflight ?d) token = Some g" using f(3) by blast
    show ?thesis
      using assms inv(1) km f g k es closure_count [OF assms(1,7), of now key]
      unfolding lua_acquire_def fenced_ready [OF assms(2)] Let_def
      by (auto simp: d [unfolded sweep_def] sweep_def owned_by_def same_score_def)
  qed
qed

lemma entry_any_iff:
  assumes "resv_inv H prefix resource c"
  shows "entry_any c key tok \<longleftrightarrow> reservation_entry H prefix resource c tok \<noteq> None"
proof (cases "reservation_entry H prefix resource c tok")
  case None
  with no_entry [OF assms None] show ?thesis by (simp add: entry_any_def)
next
  case (Some km)
  then have "hget (reservation_meta c) tok \<noteq> None" using entry_global(2) [OF assms, of tok] by simp
  with Some show ?thesis by (simp add: entry_any_def)
qed

lemma entry_full:
  assumes "resv_inv H prefix resource c" and "reservation_entry H prefix resource c tok = Some (k, m)"
  shows "k = kindP \<Longrightarrow> provisional_full c key tok \<longleftrightarrow> zscore (tenant_inflight c key) tok \<noteq> None"
    "k = kindS \<Longrightarrow> stable_full c key tok \<longleftrightarrow> zscore (tenant_inflight c key) tok \<noteq> None"
    "zscore (tenant_inflight c key) tok \<noteq> None \<longleftrightarrow> key = meta_tenant_key m"
proof -
  note inv = resv_invD [OF assms(1)]
  note e = entry_facts [OF inv(1) assms(2)]
  have other: "zscore (tenant_inflight c key) tok \<noteq> None \<Longrightarrow> key = meta_tenant_key m"
    using inv(11) [of key tok] assms(2) by auto
  show t: "zscore (tenant_inflight c key) tok \<noteq> None \<longleftrightarrow> key = meta_tenant_key m"
    using other e(3,4) by auto
  show "k = kindP \<Longrightarrow> provisional_full c key tok \<longleftrightarrow> zscore (tenant_inflight c key) tok \<noteq> None"
    using t e by (auto simp: provisional_full_def same_score_def)
  show "k = kindS \<Longrightarrow> stable_full c key tok \<longleftrightarrow> zscore (tenant_inflight c key) tok \<noteq> None"
    using t e by (auto simp: stable_full_def same_score_def)
qed

lemma parse_meta_tenant_key:
  "parse_meta H raw k prefix resource = Some m \<Longrightarrow> valid_tenant_key H (meta_tenant_key m) prefix resource (meta_tenant m)"
  by (auto simp: parse_meta_def split: option.splits json.splits if_splits)

lemma valid_tenant_key_unique:
  "valid_tenant_key H key prefix resource tenant \<Longrightarrow> valid_tenant_key H key' prefix resource tenant \<Longrightarrow> key = key'"
  by (auto simp: valid_tenant_key_def Let_def split: if_splits) (metis append_take_drop_id)

text \<open>In a consistent store, a tenant's own key decides ownership.\<close>

lemma owned_by_tenant:
  assumes "resv_inv H prefix resource c" and "reservation_entry H prefix resource c tok = Some (k, m)"
    and "valid_tenant_key H key prefix resource tenant" and "meta_tenant m = tenant"
  shows "meta_tenant_key m = key"
  using parse_meta_tenant_key [OF entry_facts(2) [OF resv_invD(1) [OF assms(1)] assms(2)]] assms(3,4)
    valid_tenant_key_unique by metis

lemma lua_release_ready:
  assumes "resv_inv H prefix resource c" and "check_ready e w c = OK"
    and "token_kind tok = Some kind"
  shows "lua_release H e w tenant key tok kind prefix resource c =
    (case reservation_entry H prefix resource c tok of
       None \<Rightarrow> (c, [OK])
     | Some (k, m) \<Rightarrow> if \<not> owned_by m tenant key then (c, [INVALID])
                     else (drop_reservation kind key tok c, [OK]))"
proof (cases "reservation_entry H prefix resource c tok")
  case None
  with assms resv_invD(1) [OF assms(1)] show ?thesis
    by (simp add: lua_release_def entry_any_iff [OF assms(1)])
next
  case (Some km)
  then obtain k m where km: "reservation_entry H prefix resource c tok = Some (k, m)" by (cases km) auto
  note f = entry_facts [OF resv_invD(1) [OF assms(1)] km]
  have "k = kind" using f(1) assms(3) by simp
  with f km assms resv_invD(1) [OF assms(1)] show ?thesis
    by (auto simp: lua_release_def entry_any_iff [OF assms(1)] same_score_def owned_by_def)
qed

lemma lua_release_inv:
  assumes "resv_inv H prefix resource c" and "check_ready e w c = OK" and "token_kind tok = Some kind"
  shows "resv_inv H prefix resource (fst (lua_release H e w tenant key tok kind prefix resource c))"
    "same_turns c (fst (lua_release H e w tenant key tok kind prefix resource c))"
proof -
  have *: "k = kind" if "reservation_entry H prefix resource c tok = Some (k, m)" for k m
    using entry_facts(1) [OF resv_invD(1) [OF assms(1)] that] assms(3) by simp
  show "resv_inv H prefix resource (fst (lua_release H e w tenant key tok kind prefix resource c))"
    using assms(1) drop_reservation_inv [OF assms(1)] *
    by (auto simp: lua_release_ready [OF assms] owned_by_def split: option.splits)
  show "same_turns c (fst (lua_release H e w tenant key tok kind prefix resource c))"
    by (auto simp: lua_release_ready [OF assms] split: option.splits)
qed

lemma lua_stable_write_ready:
  assumes "resv_inv H prefix resource c" and "check_ready e w c = OK" and "token_kind tok = Some kindS"
  shows "lua_stable_write H e w tenant key tok ttl allow prefix resource now c =
    (case reservation_entry H prefix resource c tok of
       None \<Rightarrow> if allow then (add_stable (now + ttl) tok tenant key c, [OK]) else (c, [CORRUPT])
     | Some (k, m) \<Rightarrow>
         if meta_tenant_key m \<noteq> key then (c, [CORRUPT])
         else if meta_tenant m \<noteq> tenant then (c, [INVALID])
         else if \<not> allow \<and> the (zscore (global_inflight c) tok) \<le> now then (c, [INVALID])
         else (add_stable (now + ttl) tok tenant key c, [OK]))"
proof (cases "reservation_entry H prefix resource c tok")
  case None
  then have "hget (reservation_meta c) tok = None" using entry_global(2) [OF assms(1)] by simp
  with None assms resv_invD(1) [OF assms(1)] show ?thesis
    by (simp add: lua_stable_write_def entry_any_iff [OF assms(1)])
next
  case (Some km)
  then obtain k m where km: "reservation_entry H prefix resource c tok = Some (k, m)" by (cases km) auto
  note f = entry_full [OF assms(1) km, where key = key]
  note p = entry_facts(2) [OF resv_invD(1) [OF assms(1)] km]
  have "k = kindS" using entry_facts(1) [OF resv_invD(1) [OF assms(1)] km] assms(3) by simp
  with f p km assms resv_invD(1) [OF assms(1)] show ?thesis
    by (auto simp: lua_stable_write_def entry_any_iff [OF assms(1)] owned_by_def)
qed

lemma lua_stable_write_inv:
  assumes "resv_inv H prefix resource c" and "check_ready e w c = OK" and "token_kind tok = Some kindS"
    and "call_ok H prefix resource tenant key"
  shows "resv_inv H prefix resource (fst (lua_stable_write H e w tenant key tok ttl allow prefix resource now c))"
    "same_turns c (fst (lua_stable_write H e w tenant key tok ttl allow prefix resource now c))"
  using assms add_stable_inv [OF assms(1,3)]
  by (auto simp: lua_stable_write_ready [OF assms(1-3)] call_ok_def split: option.splits)

lemma lua_bind_ready:
  assumes "resv_inv H prefix resource c" and "check_ready e w c = OK"
    and "token_kind prov = Some kindP" and "token_kind tok = Some kindS"
    and "call_ok H prefix resource tenant key"
  shows "lua_bind H e w tenant key prov tok ttl prefix resource now c =
    (let g = (\<lambda>t. the (zscore (global_inflight c) t))
     in case (reservation_entry H prefix resource c prov, reservation_entry H prefix resource c tok) of
       (None, None) \<Rightarrow> (c, [INVALID])
     | (Some (_, m), None) \<Rightarrow>
         if meta_tenant_key m \<noteq> key then (c, [CORRUPT])
         else if meta_tenant m \<noteq> tenant \<or> g prov \<le> now then (c, [INVALID])
         else (add_stable (now + ttl) tok tenant key (drop_reservation kindP key prov c), [OK])
     | (None, Some (_, m)) \<Rightarrow>
         if meta_tenant_key m \<noteq> key then (c, [CORRUPT])
         else if meta_tenant m \<noteq> tenant \<or> g tok \<le> now then (c, [INVALID]) else (c, [OK])
     | (Some (_, m), Some (_, n)) \<Rightarrow>
         if meta_tenant_key m = key \<and> meta_tenant m \<noteq> tenant then (c, [INVALID])
         else if meta_tenant_key m \<noteq> key \<or> meta_tenant_key n \<noteq> key then (c, [CORRUPT])
         else if meta_tenant n \<noteq> tenant then (c, [INVALID]) else (c, [CORRUPT]))"
proof -
  note wt = resv_invD(1) [OF assms(1)]
  have kP: "k = kindP" if "reservation_entry H prefix resource c prov = Some (k, m)" for k m
    using entry_facts(1) [OF wt that] assms(3) by simp
  have kS: "k = kindS" if "reservation_entry H prefix resource c tok = Some (k, m)" for k m
    using entry_facts(1) [OF wt that] assms(4) by simp
  have none: "hget (reservation_meta c) t = None" if "reservation_entry H prefix resource c t = None" for t
    using that entry_global(2) [OF assms(1)] by simp
  note full = entry_full [OF assms(1)]
  show ?thesis
  proof (cases "reservation_entry H prefix resource c prov"; cases "reservation_entry H prefix resource c tok")
    assume "reservation_entry H prefix resource c prov = None" "reservation_entry H prefix resource c tok = None"
    with none show ?thesis
      using assms(2) wt by (simp add: lua_bind_def entry_any_iff [OF assms(1)])
  next
    fix km assume a: "reservation_entry H prefix resource c prov = None" "reservation_entry H prefix resource c tok = Some km"
    then obtain k m where km: "reservation_entry H prefix resource c tok = Some (k, m)" by (cases km) auto
    with kS full [OF km, where key = key] entry_facts(2) [OF wt km] none [OF a(1)] a(1) assms(2) wt show ?thesis
      by (auto simp: lua_bind_def entry_any_iff [OF assms(1)] owned_by_def)
  next
    fix km assume a: "reservation_entry H prefix resource c prov = Some km" "reservation_entry H prefix resource c tok = None"
    then obtain k m where km: "reservation_entry H prefix resource c prov = Some (k, m)" by (cases km) auto
    with kP full [OF km, where key = key] entry_facts(2) [OF wt km] none [OF a(2)] a(2) assms(2) wt show ?thesis
      by (auto simp: lua_bind_def entry_any_iff [OF assms(1)] owned_by_def)
  next
    fix km ln assume "reservation_entry H prefix resource c prov = Some km" "reservation_entry H prefix resource c tok = Some ln"
    then obtain k m l n where km: "reservation_entry H prefix resource c prov = Some (k, m)"
      and ln: "reservation_entry H prefix resource c tok = Some (l, n)" by (cases km; cases ln) auto
    from kP [OF km] kS [OF ln] full [OF km, where key = key] full [OF ln, where key = key]
      entry_facts(2) [OF wt km] entry_facts(2) [OF wt ln] km ln assms(2) wt
    show ?thesis
      by (auto simp: lua_bind_def entry_any_iff [OF assms(1)] owned_by_def)
  qed
qed

lemma lua_bind_inv:
  assumes "resv_inv H prefix resource c" and "check_ready e w c = OK"
    and "token_kind prov = Some kindP" and "token_kind tok = Some kindS"
    and "call_ok H prefix resource tenant key"
  shows "resv_inv H prefix resource (fst (lua_bind H e w tenant key prov tok ttl prefix resource now c))
    \<and> same_turns c (fst (lua_bind H e w tenant key prov tok ttl prefix resource now c))"
proof (cases "reservation_entry H prefix resource c tok")
  case (Some km)
  then show ?thesis
    using assms(1) by (cases km) (auto simp: lua_bind_ready [OF assms] Let_def split: option.splits)
next
  case None
  note wt = resv_invD(1) [OF assms(1)]
  have ne: "tok \<noteq> prov" using assms(3,4) by auto
  have step: "resv_inv H prefix resource (add_stable (now + ttl) tok tenant key (drop_reservation kindP key prov c))"
    if p: "reservation_entry H prefix resource c prov = Some (k, m)" and key: "meta_tenant_key m = key" for k m
  proof -
    have k: "k = kindP" using entry_facts(1) [OF wt p] assms(3) by simp
    have d: "resv_inv H prefix resource (drop_reservation kindP key prov c)"
      using drop_reservation_inv [OF assms(1) p] k key by simp
    have "reservation_entry H prefix resource (drop_reservation kindP key prov c) tok = None"
      using None entry_of_other(1) [OF wt ne] by simp
    then show ?thesis
      using assms(4,5) by (intro add_stable_inv [OF d]) (auto simp: call_ok_def)
  qed
  have "same_turns c (add_stable x tok tenant key (drop_reservation kindP key prov c))" for x
    using same_turns_trans same_turns_writes by blast
  with step None assms(1) show ?thesis
    by (auto simp: lua_bind_ready [OF assms] Let_def split: option.splits)
qed

lemma lua_decide_granted:
  "lua_decide limits n m a = ''regular'' \<or> lua_decide limits n m a = ''borrowed'' \<Longrightarrow>
   int n < global_concurrency limits \<and> int m < per_user_burst limits"
  by (auto simp: lua_decide_def split: if_splits)

lemma lua_acquire_inv:
  assumes "resv_inv H prefix resource c" and "check_ready e w c = OK"
    and "token_kind token = Some kindP" and "call_ok H prefix resource tenant key"
    and "finite (active_users c)"
  shows "resv_inv H prefix resource
      (fst (lua_acquire H e w tenant key token ttl limits prefix resource batch maximum now c))
    \<and> same_turns c (fst (lua_acquire H e w tenant key token ttl limits prefix resource batch maximum now c))"
proof (cases "tenant \<in> active_users c \<and> tenant \<in> known_users c \<and> zcard (global_inflight c) \<le> maximum")
  case True
  let ?d = "swept H prefix resource batch now c"
  note sw = swept_facts [OF assms(1), where batch = batch and now = now]
  have add: "resv_inv H prefix resource (add_provisional x token tenant key dec ?d)"
    "same_turns c (add_provisional x token tenant key dec ?d)"
    if "reservation_entry H prefix resource ?d token = None" "dec = ''regular'' \<or> dec = ''borrowed''" for x dec
    using add_provisional_inv [OF sw(1)] no_entry(5) [OF sw(1) that(1)] that(2) assms(3,4)
      same_turns_trans [OF sw(2)] same_turns_writes(2)
    by (simp_all add: call_ok_def)
  from True sw(1,2) add show ?thesis
    by (auto simp: lua_acquire_ready [OF assms(1,2) _ _ assms(5,3)] Let_def split: option.splits)
next
  case False
  have "zcard (global_inflight c) > maximum \<Longrightarrow> reservation_closure H prefix resource now key maximum c = None"
    using shape_count [OF assms(1)] by (simp add: reservation_closure_def)
  with False have "lua_acquire H e w tenant key token ttl limits prefix resource batch maximum now c = (c, [CORRUPT])"
    using assms(2) by (auto simp: lua_acquire_def)
  with assms(1) show ?thesis by simp
qed

end
