(* ===== verification/Fq_Ready.thy ===== *)
theory Fq_Ready
  imports Fq_Turns Fq_Resv_Inv
begin

text \<open>
  \<open>redisReapExpiredScript\<close>, which works on turns and reservations alike, and the READY life of
  a resource as a whole: the operations that may interleave, the states they reach, and what
  holds in all of them.
\<close>

subsection \<open>The expiry reaper\<close>

text \<open>The check of one expired provisional reservation: its tenant key, or corrupt.\<close>

definition reap_provisional_check ::
  "(string \<Rightarrow> string) \<Rightarrow> string \<Rightarrow> string \<Rightarrow> int \<Rightarrow> coord \<Rightarrow> string \<Rightarrow> resv_meta option" where
  "reap_provisional_check H prefix resource now c tok =
     (if take 2 tok \<noteq> ''p:'' \<or> \<not> lower_hex 32 (drop 2 tok) then None
      else case (zscore (provisional c) tok, parse_meta H (hget (reservation_meta c) tok) kindP prefix resource) of
             (Some score, Some m) \<Rightarrow>
               if score > now \<or> \<not> same_score (Some score) (zscore (global_inflight c) tok)
                 \<or> zscore (stable_index c) tok \<noteq> None
                 \<or> KTenantInflight (meta_tenant_key m) \<in> wrong_type c
                 \<or> \<not> same_score (Some score) (zscore (tenant_inflight c (meta_tenant_key m)) tok)
               then None else Some m
           | _ \<Rightarrow> None)"

text \<open>The check of one expired turn: its tenant, or corrupt.\<close>

definition reap_turn_check :: "int \<Rightarrow> coord \<Rightarrow> string \<Rightarrow> string option" where
  "reap_turn_check now c tok =
     (if \<not> lower_hex 32 tok then None
      else case (zscore (processing_turns c) tok, turn_to_tenant c tok, turn_to_generation c tok) of
             (Some score, Some tenant, Some generation) \<Rightarrow>
               if score > now \<or> \<not> positive_int64 generation \<or> tenant_to_turn c tenant \<noteq> Some tok
                 \<or> tenant \<notin> active_users c \<or> tenant \<notin> known_users c
                 \<or> (case activation_gen c tenant of None \<Rightarrow> True | Some g \<Rightarrow> \<not> positive_int64 g)
                 \<or> tenant \<in> ring_members c
               then None else Some tenant
           | _ \<Rightarrow> None)"

definition reap_turn :: "string \<Rightarrow> string \<Rightarrow> bool \<Rightarrow> coord \<Rightarrow> coord" where
  "reap_turn tok tenant has_position c = c\<lparr>
     processing_turns := zrem tok (processing_turns c),
     turn_to_tenant := (turn_to_tenant c)(tok := None),
     turn_to_generation := (turn_to_generation c)(tok := None),
     tenant_to_turn := (tenant_to_turn c)(tenant := None),
     ring_members := insert tenant (ring_members c),
     ring := (if has_position then ring c else ring c @ [tenant]) \<rparr>"

definition lua_reap ::
  "(string \<Rightarrow> string) \<Rightarrow> string \<Rightarrow> string \<Rightarrow> nat \<Rightarrow> string \<Rightarrow> string \<Rightarrow> int \<Rightarrow> script" where
  "lua_reap H epoch writer limit prefix resource now = fenced epoch writer (\<lambda>c.
     if \<not> types_ok c [KProcessingTurns, KTurnToTenant, KTurnToGeneration, KTenantToTurn, KRing,
          KRingMembers, KActiveUsers, KActivationGen, KGlobalInflight, KProvisional, KStableIndex,
          KReservationMeta, KKnownUsers] then (c, [CORRUPT])
     else
       let provisionals = zexpired now limit (provisional c);
           remaining = limit - length provisionals;
           turns = (if remaining > 0 then zexpired now remaining (processing_turns c) else [])
       in case (all_some (reap_provisional_check H prefix resource now c) provisionals,
                all_some (reap_turn_check now c) turns) of
            (Some metas, Some tenants) \<Rightarrow>
              let positions = map (\<lambda>t. lpos t (ring c) \<noteq> []) tenants;
                  c = fold (\<lambda>(tok, m). drop_reservation kindP (meta_tenant_key m) tok)
                        (zip provisionals metas) c;
                  c = fold (\<lambda>(tok, tenant, has_position). reap_turn tok tenant has_position)
                        (zip turns (zip tenants positions)) c
              in (c, [OK, format_uint (length provisionals), format_uint (length turns),
                      format_uint (zcard (provisional c)), format_uint (zcard (processing_turns c))])
          | _ \<Rightarrow> (c, [CORRUPT]))"

record cleanup_result =
  removed_provisionals :: int
  removed_turns :: int
  remaining_provisionals :: int
  remaining_turns :: int

definition validate_cleanup :: "cleanup_result \<Rightarrow> goerr" where
  "validate_cleanup r =
     fail_when (removed_provisionals r < 0 \<or> removed_turns r < 0 \<or> remaining_provisionals r < 0
       \<or> remaining_turns r < 0) (wraps ErrInvalidModel)"

definition parse_cleanup :: "reply \<Rightarrow> cleanup_result result" where
  "parse_cleanup values =
     check_err (redis_runtime_result_error values)
       (case values of
          [_, a, b, p, t] \<Rightarrow>
            (case (parse_int64 a, parse_int64 b, parse_int64 p, parse_int64 t) of
               (Some a, Some b, Some p, Some t) \<Rightarrow>
                 if a < 0 \<or> b < 0 \<or> p < 0 \<or> t < 0 then Inl [ErrCoordinationCorrupt]
                 else let r = \<lparr> removed_provisionals = a, removed_turns = b,
                                remaining_provisionals = p, remaining_turns = t \<rparr>
                      in if validate_cleanup r \<noteq> None then Inl [ErrCoordinationCorrupt] else Inr r
             | _ \<Rightarrow> Inl [ErrCoordinationCorrupt])
        | _ \<Rightarrow> Inl [ErrCoordinationCorrupt])"

definition reap_expired ::
  "(string \<Rightarrow> string) \<Rightarrow> transport \<Rightarrow> int \<Rightarrow> string \<Rightarrow> string \<Rightarrow> resource_fence \<Rightarrow> int \<Rightarrow> cleanup_result coord_op" where
  "reap_expired H net now prefix resource fence limit =
     redis_call net
       (case valid_runtime_fence prefix resource fence of
          Inl e \<Rightarrow> Inl e
        | Inr k \<Rightarrow> check_err (as_sentinel ErrInvalidModel (validate_page_limit limit)) (Inr k))
       (\<lambda>k. lua_reap H (fence_epoch fence) (fence_writer fence) (nat limit) (tenant_key_prefix k) resource now)
       (\<lambda>_. parse_cleanup)"

definition same_resv :: "coord \<Rightarrow> coord \<Rightarrow> bool" where
  "same_resv c d \<longleftrightarrow> wrong_type d = wrong_type c \<and> global_inflight d = global_inflight c
     \<and> provisional d = provisional c \<and> stable_index d = stable_index c
     \<and> tenant_inflight d = tenant_inflight c \<and> reservation_meta d = reservation_meta c"

lemma same_resv_refl [simp]: "same_resv c c"
  by (simp add: same_resv_def)

lemma same_resv_trans: "same_resv c d \<Longrightarrow> same_resv d e \<Longrightarrow> same_resv c e"
  by (simp add: same_resv_def)

lemma same_resv_entry:
  assumes "same_resv c d"
  shows "reservation_entry H prefix resource d tok = reservation_entry H prefix resource c tok"
proof -
  have eqs: "wrong_type d = wrong_type c" "global_inflight d = global_inflight c"
    "provisional d = provisional c" "stable_index d = stable_index c"
    "tenant_inflight d = tenant_inflight c" "reservation_meta d = reservation_meta c"
    using assms by (simp_all add: same_resv_def)
  show ?thesis unfolding reservation_entry_def eqs ..
qed

lemma same_resv_inv: "same_resv c d \<Longrightarrow> resv_inv H prefix resource d = resv_inv H prefix resource c"
  using same_resv_entry [of c d] by (simp add: same_resv_def resv_inv_def)

lemma same_turns_inv: "same_turns c d \<Longrightarrow> turn_inv d = turn_inv c"
  by (simp add: same_turns_def turn_inv_def ring_ok_def turns_ok_def gens_ok_def)

definition keeps_control :: "coord \<Rightarrow> coord \<Rightarrow> bool" where
  "keeps_control c d \<longleftrightarrow> control d = control c \<and> progress d = progress c \<and> recovery_lock d = recovery_lock c
     \<and> wrong_type d = wrong_type c"

lemma keeps_control_ready:
  assumes "keeps_control c d"
  shows "check_ready e w d = check_ready e w c"
proof -
  have eqs: "control d = control c" "progress d = progress c" "wrong_type d = wrong_type c"
    using assms by (simp_all add: keeps_control_def)
  show ?thesis unfolding check_ready_def read_control_def eqs ..
qed

lemma same_turns_control: "same_turns c d \<Longrightarrow> keeps_control c d"
  by (simp add: keeps_control_def same_turns_def)

lemma settle_turn_same [simp]: "same_resv c (settle_turn tok t requeue c)" "keeps_control c (settle_turn tok t requeue c)"
  by (simp_all add: same_resv_def keeps_control_def settle_turn_def)

lemma keeps_control_trans: "keeps_control c d \<Longrightarrow> keeps_control d e \<Longrightarrow> keeps_control c e"
  by (simp add: keeps_control_def)

text \<open>Returning several held turns to the ring.\<close>

definition requeue_turns :: "string list \<Rightarrow> coord \<Rightarrow> coord" where
  "requeue_turns toks c = fold (\<lambda>tok d. settle_turn tok (the (turn_to_tenant c tok)) True d) toks c"

lemma requeue_turns_simps [simp]: "requeue_turns [] c = c"
  by (simp add: requeue_turns_def)

lemma requeue_turns_Cons:
  "tok \<notin> set toks \<Longrightarrow> requeue_turns (tok # toks) c =
     requeue_turns toks (settle_turn tok (the (turn_to_tenant c tok)) True c)"
proof -
  assume "tok \<notin> set toks"
  then have "fold (\<lambda>u d. settle_turn u (the (turn_to_tenant c u)) True d) toks d =
    fold (\<lambda>u d. settle_turn u (the (turn_to_tenant (settle_turn tok x True c) u)) True d) toks d" for d x
    by (intro fold_cong) (auto simp: settle_turn_def)
  then show ?thesis by (simp add: requeue_turns_def)
qed

lemma requeue_turns_correct:
  assumes "turn_inv c" and "distinct toks" and "\<forall>tok\<in>set toks. turn_to_tenant c tok \<noteq> None"
  shows "turn_inv (requeue_turns toks c) \<and> same_resv c (requeue_turns toks c)
    \<and> keeps_control c (requeue_turns toks c)
    \<and> ring (requeue_turns toks c) = ring c @ map (\<lambda>tok. the (turn_to_tenant c tok)) toks
    \<and> active_users (requeue_turns toks c) = active_users c
    \<and> known_users (requeue_turns toks c) = known_users c
    \<and> activation_gen (requeue_turns toks c) = activation_gen c
    \<and> (\<forall>tok. turn_to_tenant (requeue_turns toks c) tok = (if tok \<in> set toks then None else turn_to_tenant c tok))
    \<and> (\<forall>tok. turn_to_generation (requeue_turns toks c) tok = (if tok \<in> set toks then None else turn_to_generation c tok))
    \<and> (\<forall>tok. zscore (processing_turns (requeue_turns toks c)) tok =
          (if tok \<in> set toks then None else zscore (processing_turns c) tok))"
  using assms
proof (induction toks arbitrary: c)
  case Nil
  then show ?case by (simp add: keeps_control_def)
next
  case (Cons tok toks)
  then obtain t where t: "turn_to_tenant c tok = Some t" by auto
  let ?d = "settle_turn tok t True c"
  have inv: "turn_inv ?d" by (rule settle_turn_inv [OF Cons.prems(1) t])
  have dist: "tok \<notin> set toks" "distinct toks" using Cons.prems(2) by simp_all
  have rest: "\<forall>u\<in>set toks. turn_to_tenant ?d u \<noteq> None"
    using Cons.prems(3) dist by (auto simp: settle_turn_def)
  have map: "map (\<lambda>u. the (turn_to_tenant ?d u)) toks = map (\<lambda>u. the (turn_to_tenant c u)) toks"
    using dist by (auto simp: settle_turn_def)
  have d: "ring ?d = ring c @ [t]" "active_users ?d = active_users c" "known_users ?d = known_users c"
    "activation_gen ?d = activation_gen c" "turn_to_tenant ?d = (turn_to_tenant c)(tok := None)"
    "turn_to_generation ?d = (turn_to_generation c)(tok := None)"
    "zscore (processing_turns ?d) u = (if u = tok then None else zscore (processing_turns c) u)" for u
    by (simp_all add: settle_turn_def)
  note IH = Cons.IH [OF inv dist(2) rest]
  have res: "requeue_turns (tok # toks) c = requeue_turns toks ?d"
    using requeue_turns_Cons [OF dist(1)] t by simp
  have "same_resv c (requeue_turns toks ?d)" "keeps_control c (requeue_turns toks ?d)"
    using IH settle_turn_same same_resv_trans keeps_control_trans by blast+
  with IH show ?case unfolding res using t map dist by (simp add: d)
qed

lemma reap_turn_settle: "t \<in> active_users c \<Longrightarrow> reap_turn tok t False c = settle_turn tok t True c"
  by (simp add: reap_turn_def settle_turn_def)

lemma fold_reap_turns:
  assumes "turn_inv c" and "distinct toks" and "\<forall>tok\<in>set toks. turn_to_tenant c tok \<noteq> None"
  shows "fold (\<lambda>(tok, t, p). reap_turn tok t p)
      (zip toks (zip (map (\<lambda>tok. the (turn_to_tenant c tok)) toks) (map (\<lambda>_. False) toks))) c
    = requeue_turns toks c"
  using assms
proof (induction toks arbitrary: c)
  case Nil
  then show ?case by simp
next
  case (Cons tok toks)
  then obtain t where t: "turn_to_tenant c tok = Some t" by auto
  let ?d = "settle_turn tok t True c"
  have inv: "turn_inv ?d" by (rule settle_turn_inv [OF Cons.prems(1) t])
  have dist: "tok \<notin> set toks" "distinct toks" using Cons.prems(2) by simp_all
  have rest: "\<forall>u\<in>set toks. turn_to_tenant ?d u \<noteq> None"
    using Cons.prems(3) dist by (auto simp: settle_turn_def)
  have "map (\<lambda>u. the (turn_to_tenant ?d u)) toks = map (\<lambda>u. the (turn_to_tenant c u)) toks"
    using dist by (auto simp: settle_turn_def)
  moreover have "reap_turn tok t False c = ?d"
    using t turn_invD(4,11) [OF Cons.prems(1)] by (intro reap_turn_settle) auto
  ultimately show ?case
    using Cons.IH [OF inv dist(2) rest] t requeue_turns_Cons [OF dist(1), of c] by (simp del: map_eq_conv)
qed

definition reap_ps :: "nat \<Rightarrow> int \<Rightarrow> coord \<Rightarrow> string list" where
  "reap_ps limit now c = zexpired now limit (provisional c)"

definition reap_ts :: "nat \<Rightarrow> int \<Rightarrow> coord \<Rightarrow> string list" where
  "reap_ts limit now c = zexpired now (limit - length (reap_ps limit now c)) (processing_turns c)"

lemma zexpired_0 [simp]: "zexpired now 0 z = []"
  by (simp add: zexpired_def)

lemma reap_provisional_check_ready:
  assumes "resv_inv H prefix resource c" and "tok \<in> set (reap_ps limit now c)"
  shows "\<exists>m. reap_provisional_check H prefix resource now c tok = Some m
    \<and> reservation_entry H prefix resource c tok = Some (kindP, m)"
proof -
  note inv = resv_invD [OF assms(1)]
  obtain s where s: "zscore (provisional c) tok = Some s" "s \<le> now"
    using zexpired_in [OF inv(3)] assms(2) unfolding reap_ps_def by blast
  have "reservation_entry H prefix resource c tok \<noteq> None"
    using no_entry(2) [OF assms(1), of tok] s(1) by (metis option.distinct(1))
  then obtain k m where km: "reservation_entry H prefix resource c tok = Some (k, m)" by auto
  note e = entry_facts [OF inv(1) km]
  have k: "k = kindP" using e(5) s(1) by (auto split: if_splits)
  have "take 2 tok = ''p:'' \<and> lower_hex 32 (drop 2 tok)"
    using e(1) k by (auto simp: token_kind_def split: if_splits)
  with s e k km inv(1) show ?thesis by (auto simp: reap_provisional_check_def same_score_def)
qed

lemma reap_turn_check_ready:
  assumes "turn_inv c" and "tok \<in> set (reap_ts limit now c)"
  shows "\<exists>t. reap_turn_check now c tok = Some t \<and> turn_to_tenant c tok = Some t"
proof -
  note inv = turn_invD [OF assms(1)]
  obtain s where s: "zscore (processing_turns c) tok = Some s" "s \<le> now"
    using zexpired_in [OF inv(8)] assms(2) unfolding reap_ts_def by blast
  obtain t where t: "turn_to_tenant c tok = Some t" using inv(9) [of tok] s(1) by auto
  obtain g where g: "turn_to_generation c tok = Some g" using inv(10) [of tok] t by auto
  have tt: "tenant_to_turn c t = Some tok" using t inv(11) by simp
  have act: "t \<in> active_users c" "t \<in> known_users c" "t \<notin> ring_members c" using tt inv(4-6) by auto
  obtain ag where "activation_gen c t = Some ag" "positive_int64 ag" using act(1) inv(13,14) by blast
  moreover have "positive_int64 g" using inv(15) [OF g tt] by blast
  moreover have "lower_hex 32 tok" by (rule inv(12) [OF tt])
  ultimately show ?thesis using s t g tt act by (simp add: reap_turn_check_def)
qed

lemma sweep_provisional:
  "fold (\<lambda>(tok, m). drop_reservation kindP (meta_tenant_key m) tok) (zip toks metas) c =
   sweep toks (map (\<lambda>m. (kindP, m)) metas) c"
proof (induction toks arbitrary: metas c)
  case (Cons tok toks)
  then show ?case by (cases metas) (simp_all add: sweep_def)
qed simp

definition reaped :: "(string \<Rightarrow> string) \<Rightarrow> string \<Rightarrow> string \<Rightarrow> nat \<Rightarrow> int \<Rightarrow> coord \<Rightarrow> coord" where
  "reaped H prefix resource limit now c =
     requeue_turns (reap_ts limit now c)
       (sweep (reap_ps limit now c)
         (map (\<lambda>tok. the (reservation_entry H prefix resource c tok)) (reap_ps limit now c)) c)"

lemma lua_reap_ready:
  assumes "turn_inv c" and "resv_inv H prefix resource c" and "check_ready e w c = OK"
  shows "lua_reap H e w limit prefix resource now c =
    (reaped H prefix resource limit now c,
     [OK, format_uint (length (reap_ps limit now c)), format_uint (length (reap_ts limit now c)),
      format_uint (zcard (provisional (reaped H prefix resource limit now c))),
      format_uint (zcard (processing_turns (reaped H prefix resource limit now c)))])"
proof -
  note inv = turn_invD [OF assms(1)] and rinv = resv_invD [OF assms(2)]
  let ?ps = "reap_ps limit now c" and ?ts = "reap_ts limit now c"
  let ?metas = "map (\<lambda>tok. snd (the (reservation_entry H prefix resource c tok))) ?ps"
  let ?tenants = "map (\<lambda>tok. the (turn_to_tenant c tok)) ?ts"
  let ?mid = "sweep ?ps (map (\<lambda>m. (kindP, m)) ?metas) c"
  have ps: "all_some (reap_provisional_check H prefix resource now c) ?ps = Some ?metas"
    using reap_provisional_check_ready [OF assms(2)] by (intro all_some_map) fastforce
  have ts: "all_some (reap_turn_check now c) ?ts = Some ?tenants"
    using reap_turn_check_ready [OF assms(1)] by (intro all_some_map) fastforce
  have metas: "map (\<lambda>m. (kindP, m)) ?metas = map (\<lambda>tok. the (reservation_entry H prefix resource c tok)) ?ps"
    using reap_provisional_check_ready [OF assms(2)] by fastforce
  have dps: "distinct ?ps" "distinct ?ts" using inv(8) rinv(3) by (simp_all add: reap_ps_def reap_ts_def)
  have all: "all_some (reservation_entry H prefix resource c) ?ps = Some (map (\<lambda>m. (kindP, m)) ?metas)"
    unfolding metas using reap_provisional_check_ready [OF assms(2)] by (intro all_some_map) fastforce
  note sw = sweep_correct [OF assms(2) dps(1) all]
  have same: "same_turns c ?mid" using sw by blast
  have pos: "map (\<lambda>t. lpos t (ring c) \<noteq> []) ?tenants = map (\<lambda>_. False) ?ts"
  proof (unfold map_map comp_def, rule map_cong [OF refl])
    fix tok assume "tok \<in> set ?ts"
    then obtain t where t: "turn_to_tenant c tok = Some t" using reap_turn_check_ready [OF assms(1)] by blast
    then have "t \<in> dom (tenant_to_turn c)" using inv(11) by auto
    with t show "(lpos (the (turn_to_tenant c tok)) (ring c) \<noteq> []) = False"
      using inv(3,5) by auto
  qed
  have tsm: "map (\<lambda>tok. the (turn_to_tenant ?mid tok)) ?ts = ?tenants"
    using same by (simp add: same_turns_def)
  have "\<forall>tok\<in>set ?ts. turn_to_tenant ?mid tok \<noteq> None"
    using same reap_turn_check_ready [OF assms(1)] by (fastforce simp: same_turns_def)
  from fold_reap_turns [OF _ dps(2) this] same_turns_inv [OF same] assms(1)
  have fold: "fold (\<lambda>(tok, t, p). reap_turn tok t p) (zip ?ts (zip ?tenants (map (\<lambda>_. False) ?ts))) ?mid
      = requeue_turns ?ts ?mid"
    by (simp only: tsm)
  have turns: "(if limit - length ?ps > 0 then zexpired now (limit - length ?ps) (processing_turns c) else []) = ?ts"
    by (simp add: reap_ts_def)
  have if_ps: "zexpired now limit (provisional c) = ?ps" by (simp add: reap_ps_def)
  have types: "types_ok c ks" for ks using inv(1) by simp
  show ?thesis
    unfolding lua_reap_def fenced_ready [OF assms(3)] reaped_def Let_def if_ps turns ps ts
      option.case prod.case pos sweep_provisional fold metas
    by (simp add: types fold [unfolded metas])
qed

lemma lua_reap_inv:
  assumes "turn_inv c" and "resv_inv H prefix resource c" and "check_ready e w c = OK"
  shows "turn_inv (reaped H prefix resource limit now c)" "resv_inv H prefix resource (reaped H prefix resource limit now c)"
    "keeps_control c (reaped H prefix resource limit now c)"
    "ring (reaped H prefix resource limit now c) =
       ring c @ map (\<lambda>tok. the (turn_to_tenant c tok)) (reap_ts limit now c)"
    "active_users (reaped H prefix resource limit now c) = active_users c"
    "known_users (reaped H prefix resource limit now c) = known_users c"
    "activation_gen (reaped H prefix resource limit now c) = activation_gen c"
    "turn_to_tenant (reaped H prefix resource limit now c) tok =
       (if tok \<in> set (reap_ts limit now c) then None else turn_to_tenant c tok)"
    "turn_to_generation (reaped H prefix resource limit now c) tok =
       (if tok \<in> set (reap_ts limit now c) then None else turn_to_generation c tok)"
    "reservation_entry H prefix resource (reaped H prefix resource limit now c) t =
       (if t \<in> set (reap_ps limit now c) then None else reservation_entry H prefix resource c t)"
    "zscore (processing_turns (reaped H prefix resource limit now c)) tok =
       (if tok \<in> set (reap_ts limit now c) then None else zscore (processing_turns c) tok)"
    "zscore (global_inflight (reaped H prefix resource limit now c)) tok =
       (if tok \<in> set (reap_ps limit now c) then None else zscore (global_inflight c) tok)"
proof -
  note inv = turn_invD [OF assms(1)] and rinv = resv_invD [OF assms(2)]
  let ?ps = "reap_ps limit now c" and ?ts = "reap_ts limit now c"
  let ?es = "map (\<lambda>tok. the (reservation_entry H prefix resource c tok)) ?ps"
  let ?mid = "sweep ?ps ?es c" and ?d = "reaped H prefix resource limit now c"
  have dps: "distinct ?ps" "distinct ?ts" using inv(8) rinv(3) by (simp_all add: reap_ps_def reap_ts_def)
  have all: "all_some (reservation_entry H prefix resource c) ?ps = Some ?es"
    using reap_provisional_check_ready [OF assms(2)] by (intro all_some_map) fastforce
  note sw = sweep_correct [OF assms(2) dps(1) all, of now]
  have same: "same_turns c ?mid" and rmid: "resv_inv H prefix resource ?mid" using sw by blast+
  have tmid: "turn_inv ?mid" using same_turns_inv [OF same] assms(1) by simp
  have "\<forall>tok\<in>set ?ts. turn_to_tenant ?mid tok \<noteq> None"
    using same reap_turn_check_ready [OF assms(1)] by (fastforce simp: same_turns_def)
  note rq = requeue_turns_correct [OF tmid dps(2) this, folded reaped_def]
  have sr: "same_resv ?mid ?d" using rq by blast
  show "turn_inv ?d" using rq by blast
  show "resv_inv H prefix resource ?d" using same_resv_inv [OF sr] rmid by simp
  show "keeps_control c ?d" using rq same_turns_control [OF same] keeps_control_trans by blast
  show "ring ?d = ring c @ map (\<lambda>tok. the (turn_to_tenant c tok)) ?ts"
    "active_users ?d = active_users c" "known_users ?d = known_users c" "activation_gen ?d = activation_gen c"
    "turn_to_tenant ?d tok = (if tok \<in> set ?ts then None else turn_to_tenant c tok)"
    "turn_to_generation ?d tok = (if tok \<in> set ?ts then None else turn_to_generation c tok)"
    "zscore (processing_turns ?d) tok = (if tok \<in> set ?ts then None else zscore (processing_turns c) tok)"
    using rq same by (simp_all add: same_turns_def)
  show "reservation_entry H prefix resource ?d t =
       (if t \<in> set ?ps then None else reservation_entry H prefix resource c t)"
    using same_resv_entry [OF sr] sw entry_global(2) [OF rmid] by auto
  show "zscore (global_inflight ?d) tok = (if tok \<in> set ?ps then None else zscore (global_inflight c) tok)"
    using sr sw by (simp add: same_resv_def)
qed

end
