(* ===== verification/Fq_Reach.thy ===== *)
theory Fq_Reach
  imports Fq_Ready
begin

text \<open>
  The calls that run while a resource is READY, by any number of clients over an unreliable
  network; the states they reach; and what a single call can do to the ring and to the
  generations.
\<close>

subsection \<open>READY operations and the states they reach\<close>

text \<open>The calls of the Go interface \<open>Coordinator\<close> that run while a resource is READY.\<close>

datatype ready_call =
    CallKnown string
  | CallActivate string
  | CallNextTurn string int
  | CallRotate string "64 word" bool
  | CallAcquire string string capacity_limits int
  | CallBind string string string int
  | CallStable string string int bool
  | CallRelease string string
  | CallReap int
  | CallList string int
  | CallCheck

definition ready_call_state ::
  "(string \<Rightarrow> string) \<Rightarrow> string \<Rightarrow> string \<Rightarrow> resource_fence \<Rightarrow> transport \<Rightarrow> int \<Rightarrow> ready_call \<Rightarrow> coord \<Rightarrow> coord" where
  "ready_call_state H prefix resource fence net now call c =
     (case call of
        CallKnown tenant \<Rightarrow> snd (ensure_known_tenant net prefix resource fence tenant c)
      | CallActivate tenant \<Rightarrow> snd (ensure_runtime_active net prefix resource fence tenant c)
      | CallNextTurn token ttl \<Rightarrow> snd (next_turn net now prefix resource fence token ttl c)
      | CallRotate token observed has_ready \<Rightarrow>
          snd (rotate_or_deactivate net now prefix resource fence token observed has_ready c)
      | CallAcquire tenant attempt limits ttl \<Rightarrow>
          snd (acquire_provisional H net now prefix resource fence tenant attempt limits ttl c)
      | CallBind tenant attempt stable_token ttl \<Rightarrow>
          snd (bind_reservation H net now prefix resource fence tenant attempt stable_token ttl c)
      | CallStable tenant stable_token ttl allow \<Rightarrow>
          snd (write_ready_stable H net now prefix resource fence tenant stable_token ttl allow c)
      | CallRelease tenant token \<Rightarrow> snd (release H net prefix resource fence tenant token c)
      | CallReap limit \<Rightarrow> snd (reap_expired H net now prefix resource fence limit c)
      | CallList cursor limit \<Rightarrow> snd (list_ready_stable H net prefix resource fence cursor limit c)
      | CallCheck \<Rightarrow> snd (check_ready_fence net prefix resource fence c))"

text \<open>A READY resource without tenants, as a finished recovery of an unused resource leaves it.\<close>

definition fresh_ready :: "coord \<Rightarrow> bool" where
  "fresh_ready c \<longleftrightarrow> (\<exists>values. read_control c = Inr values) \<and> wrong_type c = {}
     \<and> ring c = [] \<and> ring_members c = {} \<and> active_users c = {} \<and> known_users c = {}
     \<and> activation_gen c = Map.empty \<and> processing_turns c = [] \<and> turn_to_tenant c = Map.empty
     \<and> turn_to_generation c = Map.empty \<and> tenant_to_turn c = Map.empty
     \<and> global_inflight c = [] \<and> provisional c = [] \<and> stable_index c = []
     \<and> tenant_inflight c = (\<lambda>_. []) \<and> reservation_meta c = []"

text \<open>Any number of clients with any fences and arguments, at any times, over an unreliable network.\<close>

inductive reachable :: "(string \<Rightarrow> string) \<Rightarrow> string \<Rightarrow> string \<Rightarrow> coord \<Rightarrow> bool"
  for H prefix resource where
  reachable_start: "fresh_ready c \<Longrightarrow> reachable H prefix resource c"
| reachable_call: "reachable H prefix resource c \<Longrightarrow>
    reachable H prefix resource (ready_call_state H prefix resource fence net now call c)"

inductive_cases reachable_cases: "reachable H prefix resource c"

definition digest_hex :: "(string \<Rightarrow> string) \<Rightarrow> bool" where
  "digest_hex H \<longleftrightarrow> (\<forall>s. lower_hex 64 (H s))"

definition tenant_prefix_of :: "string \<Rightarrow> string \<Rightarrow> string" where
  "tenant_prefix_of prefix resource = keyspace_root prefix resource @ ''inflight:tenant:''"

definition ready_inv :: "(string \<Rightarrow> string) \<Rightarrow> string \<Rightarrow> string \<Rightarrow> coord \<Rightarrow> bool" where
  "ready_inv H prefix resource c \<longleftrightarrow> turn_inv c
     \<and> resv_inv H (tenant_prefix_of prefix resource) resource c \<and> finite (known_users c)"

lemma redis_call_state:
  "snd (redis_call net args s parse c) = c
   \<or> (\<exists>k. args = Inr k \<and> snd (redis_call net args s parse c) = fst (s k c))"
  by (cases args; cases net; cases "s (projr args) c")
    (auto simp: redis_call_def run_runtime_script_def)

lemma fenced_cases: "fst (fenced e w body c) = c \<or> check_ready e w c = OK"
  by (simp add: fenced_def Let_def)

lemma script_not_ready:
  assumes "check_ready e w c \<noteq> OK"
  shows "fst (lua_ensure_known e w t c) = c" "fst (lua_activate e w t c) = c"
    "fst (lua_next_turn e w tok ttl lim now c) = c" "fst (lua_rotate e w tok obs hr now c) = c"
    "fst (lua_acquire H e w t key tok ttl limits p r b m now c) = c"
    "fst (lua_bind H e w t key prov tok ttl p r now c) = c"
    "fst (lua_stable_write H e w t key tok ttl allow p r now c) = c"
    "fst (lua_release H e w t key tok kind p r c) = c"
    "fst (lua_reap H e w n p r now c) = c"
  using assms
  by (simp_all add: lua_ensure_known_def lua_activate_def lua_next_turn_def lua_rotate_def
      lua_acquire_def lua_bind_def lua_stable_write_def lua_release_def lua_reap_def fenced_not_ready)

lemma list_state: "fst (lua_list_stable H e w cur n p r c) = c" "fst (lua_check_ready e w c) = c"
  by (simp_all add: lua_list_stable_def lua_check_ready_def fenced_def Let_def)

text \<open>What the argument validators of the Go side establish.\<close>

lemma valid_runtime_fence_Inr:
  "valid_runtime_fence prefix resource fence = Inr k \<Longrightarrow>
     tenant_key_prefix k = tenant_prefix_of prefix resource \<and> validate_fence fence = None
     \<and> validate_resource resource = None"
  by (auto simp: valid_runtime_fence_def build_redis_keyspace_def tenant_key_prefix_def
      tenant_prefix_of_def keys_of_root_def Let_def split: sum.splits if_splits)

lemma valid_runtime_tenant_Inr:
  "valid_runtime_tenant prefix resource fence tenant = Inr k \<Longrightarrow>
     valid_runtime_fence prefix resource fence = Inr k \<and> validate_tenant_id tenant = None"
  by (auto simp: valid_runtime_tenant_def split: sum.splits)

lemma tenant_id_not_Nil: "validate_tenant_id t = None \<Longrightarrow> t \<noteq> []"
  by (auto simp: validate_tenant_id_def validate_bounded_text_None)

lemma valid_runtime_reservation_Inr:
  assumes "valid_runtime_reservation H prefix resource fence tenant = Inr (k, tk)" and "digest_hex H"
  shows "call_ok H (tenant_prefix_of prefix resource) resource tenant tk
    \<and> tenant_key_prefix k = tenant_prefix_of prefix resource \<and> validate_tenant_id tenant = None"
proof -
  have t: "valid_runtime_tenant prefix resource fence tenant = Inr k"
    and tk: "tenant_inflight_key H k resource tenant = Inr tk"
    using assms(1) by (auto simp: valid_runtime_reservation_def split: sum.splits)
  have p: "tenant_key_prefix k = tenant_prefix_of prefix resource" "validate_tenant_id tenant = None"
    using valid_runtime_tenant_Inr [OF t] valid_runtime_fence_Inr by blast+
  have key: "tk = tenant_key_prefix k @ H (tenant_preimage resource tenant)"
    using tk by (auto simp: tenant_inflight_key_def tenant_hash_def tenant_preimage_def Let_def
        split: sum.splits if_splits)
  have hex: "lower_hex 64 (H (tenant_preimage resource tenant))" using assms(2) by (simp add: digest_hex_def)
  show ?thesis
    using p hex lower_hex_length [OF hex] tenant_id_not_Nil [OF p(2)]
    by (simp add: call_ok_def valid_tenant_key_def key p(1) Let_def)
qed

lemma token_kind_attempt: "lower_hex 32 a \<Longrightarrow> token_kind (''p:'' @ a) = Some kindP"
  by (simp add: token_kind_def)

lemma token_kind_stable: "stable_reservation_pattern s \<Longrightarrow> token_kind s = Some kindS"
  by (auto simp: token_kind_def stable_reservation_pattern_def)

lemma release_token_kind: "release_token t = Inr (tok, kind) \<Longrightarrow> token_kind tok = Some kind"
  using token_kind_attempt token_kind_stable
  by (auto simp: release_token_def split: if_splits) (auto simp: token_kind_def)

lemma turn_scripts_same_resv:
  assumes "turn_inv c" and "check_ready e w c = OK"
  shows "same_resv c (fst (lua_activate e w t c))"
    "0 < limit \<Longrightarrow> same_resv c (fst (lua_next_turn e w tok ttl limit now c))"
    "same_resv c (fst (lua_rotate e w tok obs hr now c))"
    "same_resv c (fst (lua_ensure_known e w t c))"
  using assms turn_invD(1) [OF assms(1)]
  by (auto simp: lua_activate_ready lua_next_turn_ready lua_rotate_ready lua_ensure_known_def same_resv_def
      settle_turn_def split: list.split option.split)

lemma finite_active: "turn_inv c \<Longrightarrow> finite (known_users c) \<Longrightarrow> finite (active_users c)"
  using turn_invD(6) finite_subset by blast

lemma turn_scripts_known:
  assumes "turn_inv c" and "check_ready e w c = OK" and "finite (known_users c)"
  shows "finite (known_users (fst (lua_activate e w t c)))"
    "0 < limit \<Longrightarrow> finite (known_users (fst (lua_next_turn e w tok ttl limit now c)))"
    "finite (known_users (fst (lua_rotate e w tok obs hr now c)))"
    "finite (known_users (fst (lua_ensure_known e w t c)))"
  using assms turn_invD(1) [OF assms(1)]
  by (auto simp: lua_activate_ready lua_next_turn_ready lua_rotate_ready lua_ensure_known_def
      settle_turn_def split: list.split option.split)

lemma lua_ensure_known_inv:
  assumes "turn_inv c" and "check_ready e w c = OK" and "validate_tenant_id t = None"
  shows "turn_inv (fst (lua_ensure_known e w t c))"
  using turn_invD [OF assms(1)] assms(2,3)
  by (auto simp: lua_ensure_known_def turn_inv_def ring_ok_def turns_ok_def gens_ok_def)

text \<open>The script behind each call, with what the argument validators have established.\<close>

inductive ready_script ::
  "(string \<Rightarrow> string) \<Rightarrow> string \<Rightarrow> string \<Rightarrow> int \<Rightarrow> string \<Rightarrow> string \<Rightarrow> ready_call \<Rightarrow> script \<Rightarrow> bool"
  for H p resource now e w where
  "validate_tenant_id t = None \<Longrightarrow>
     ready_script H p resource now e w (CallKnown t) (lua_ensure_known e w t)"
| "validate_tenant_id t = None \<Longrightarrow>
     ready_script H p resource now e w (CallActivate t) (lua_activate e w t)"
| "lower_hex 32 tok \<Longrightarrow> 0 < limit \<Longrightarrow>
     ready_script H p resource now e w (CallNextTurn tok ttl) (lua_next_turn e w tok ms limit now)"
| "ready_script H p resource now e w (CallRotate tok obs has_ready)
     (lua_rotate e w tok (format_uint (unat obs)) has_ready now)"
| "call_ok H p resource t key \<Longrightarrow> token_kind tok = Some kindP \<Longrightarrow>
     ready_script H p resource now e w (CallAcquire t a limits ttl)
       (lua_acquire H e w t key tok ms limits p resource batch maximum now)"
| "call_ok H p resource t key \<Longrightarrow> token_kind prov = Some kindP \<Longrightarrow> token_kind tok = Some kindS \<Longrightarrow>
     ready_script H p resource now e w (CallBind t a s ttl) (lua_bind H e w t key prov tok ms p resource now)"
| "call_ok H p resource t key \<Longrightarrow> token_kind tok = Some kindS \<Longrightarrow>
     ready_script H p resource now e w (CallStable t s ttl allow)
       (lua_stable_write H e w t key tok ms allow p resource now)"
| "call_ok H p resource t key \<Longrightarrow> token_kind tok = Some kind \<Longrightarrow>
     ready_script H p resource now e w (CallRelease t s) (lua_release H e w t key tok kind p resource)"
| "ready_script H p resource now e w (CallReap n) (lua_reap H e w limit p resource now)"

lemma ready_call_cases:
  assumes "digest_hex H"
  shows "ready_call_state H prefix resource fence net now call c = c
    \<or> (\<exists>s. ready_script H (tenant_prefix_of prefix resource) resource now (fence_epoch fence) (fence_writer fence) call s
         \<and> ready_call_state H prefix resource fence net now call c = fst (s c))"
    (is "?d = c \<or> (\<exists>s. ?script s \<and> ?d = fst (s c))")
proof -
  have close: "snd (redis_call net args s parse c) = c \<or>
      (\<exists>s'. ?script s' \<and> snd (redis_call net args s parse c) = fst (s' c))"
    if "\<And>k. args = Inr k \<Longrightarrow> ?script (s k) \<or> fst (s k c) = c"
    for args :: "'k result" and s and parse :: "'k \<Rightarrow> reply \<Rightarrow> 'b result"
    using redis_call_state [of net args s parse c] that by metis
  note valid = valid_runtime_reservation_Inr [OF _ assms]
  show ?thesis
  proof (cases call)
    case (CallKnown t)
    show ?thesis unfolding ready_call_state_def CallKnown ready_call.case ensure_known_tenant_def
      by (rule close [unfolded CallKnown]) (auto intro: ready_script.intros dest: valid_runtime_tenant_Inr)
  next
    case (CallActivate t)
    show ?thesis unfolding ready_call_state_def CallActivate ready_call.case ensure_runtime_active_def
      by (rule close [unfolded CallActivate]) (auto intro: ready_script.intros dest: valid_runtime_tenant_Inr)
  next
    case (CallNextTurn token ttl)
    show ?thesis unfolding ready_call_state_def CallNextTurn ready_call.case next_turn_def
      by (rule close [unfolded CallNextTurn]) (auto intro!: ready_script.intros simp: redis_runtime_turn_scan_batch_def
        next_turn_args_def validate_turn_token_def split: sum.splits)
  next
    case (CallRotate token observed has_ready)
    show ?thesis unfolding ready_call_state_def CallRotate ready_call.case rotate_or_deactivate_def
      by (rule close [unfolded CallRotate]) (auto intro: ready_script.intros)
  next
    case (CallAcquire t a limits ttl)
    show ?thesis unfolding ready_call_state_def CallAcquire ready_call.case acquire_provisional_def
      by (rule close [unfolded CallAcquire]) (auto intro!: ready_script.intros token_kind_attempt dest!: valid
        split: sum.splits simp del: append.simps)
  next
    case (CallBind t a s ttl)
    show ?thesis unfolding ready_call_state_def CallBind ready_call.case bind_reservation_def
      by (rule close [unfolded CallBind]) (auto intro!: ready_script.intros token_kind_attempt token_kind_stable dest!: valid
        split: sum.splits simp del: append.simps)
  next
    case (CallStable t s ttl allow)
    show ?thesis unfolding ready_call_state_def CallStable ready_call.case write_ready_stable_def
      by (rule close [unfolded CallStable]) (auto intro!: ready_script.intros token_kind_stable dest!: valid split: sum.splits)
  next
    case (CallRelease t token)
    show ?thesis unfolding ready_call_state_def CallRelease ready_call.case release_def
      by (rule close [unfolded CallRelease]) (auto intro!: ready_script.intros release_token_kind dest!: valid split: sum.splits)
  next
    case (CallReap n)
    show ?thesis unfolding ready_call_state_def CallReap ready_call.case reap_expired_def
      by (rule close [unfolded CallReap]) (auto intro!: ready_script.intros dest!: valid_runtime_fence_Inr split: sum.splits)
  next
    case (CallList cursor n)
    show ?thesis unfolding ready_call_state_def CallList ready_call.case list_ready_stable_def
      by (rule close [unfolded CallList]) (auto simp: list_state)
  next
    case CallCheck
    show ?thesis unfolding ready_call_state_def CallCheck ready_call.case check_ready_fence_def
      by (rule close [unfolded CallCheck]) (auto simp: list_state)
  qed
qed

lemma ready_script_not_ready: "ready_script H p resource now e w call s \<Longrightarrow> check_ready e w c \<noteq> OK \<Longrightarrow> fst (s c) = c"
  by (cases rule: ready_script.cases) (auto simp: script_not_ready)

text \<open>The scripts on reservations keep their invariant and write nothing else.\<close>

lemma ready_script_resv:
  assumes "ready_script H p resource now e w call s" and "turn_inv c" and "resv_inv H p resource c"
    and "finite (known_users c)" and "check_ready e w c = OK"
    and "case call of CallAcquire _ _ _ _ \<Rightarrow> True | CallBind _ _ _ _ \<Rightarrow> True | CallStable _ _ _ _ \<Rightarrow> True
       | CallRelease _ _ \<Rightarrow> True | _ \<Rightarrow> False"
  shows "resv_inv H p resource (fst (s c)) \<and> same_turns c (fst (s c))"
  using assms(1)
proof (cases rule: ready_script.cases)
  case 5
  then show ?thesis using lua_acquire_inv [OF assms(3,5)] finite_active [OF assms(2,4)] by simp
next
  case 6
  then show ?thesis using lua_bind_inv [OF assms(3,5)] by simp
next
  case 7
  then show ?thesis using lua_stable_write_inv [OF assms(3,5)] by simp
next
  case 8
  then show ?thesis using lua_release_inv [OF assms(3,5)] by simp
qed (use assms(6) in simp_all)

lemma ready_script_inv:
  assumes "ready_script H p resource now e w call s" and "turn_inv c" and "resv_inv H p resource c"
    and "finite (known_users c)" and "check_ready e w c = OK"
  shows "turn_inv (fst (s c)) \<and> resv_inv H p resource (fst (s c)) \<and> finite (known_users (fst (s c)))"
proof -
  have resv: ?thesis if "case call of CallAcquire _ _ _ _ \<Rightarrow> True | CallBind _ _ _ _ \<Rightarrow> True
      | CallStable _ _ _ _ \<Rightarrow> True | CallRelease _ _ \<Rightarrow> True | _ \<Rightarrow> False"
    using ready_script_resv [OF assms that] same_turns_inv [of c "fst (s c)"] assms(2,4)
    by (simp add: same_turns_def)
  from assms(1) show ?thesis
  proof (cases rule: ready_script.cases)
    case 1
    then show ?thesis
      using lua_ensure_known_inv [OF assms(2,5)] same_resv_inv [OF turn_scripts_same_resv(4) [OF assms(2,5)]] assms(3)
        turn_scripts_known(4) [OF assms(2,5,4)] by simp
  next
    case 2
    then show ?thesis
      using lua_activate_inv [OF assms(2,5)] same_resv_inv [OF turn_scripts_same_resv(1) [OF assms(2,5)]] assms(3)
        turn_scripts_known(1) [OF assms(2,5,4)] by simp
  next
    case 3
    then show ?thesis
      using lua_next_turn_inv [OF assms(2,5)] same_resv_inv [OF turn_scripts_same_resv(2) [OF assms(2,5)]] assms(3)
        turn_scripts_known(2) [OF assms(2,5,4)] by simp
  next
    case 4
    then show ?thesis
      using lua_rotate_inv [OF assms(2,5)] same_resv_inv [OF turn_scripts_same_resv(3) [OF assms(2,5)]] assms(3)
        turn_scripts_known(3) [OF assms(2,5,4)] by simp
  next
    case 9
    then show ?thesis
      using lua_reap_ready [OF assms(2,3,5)] lua_reap_inv [OF assms(2,3,5)] assms(4) by simp
  qed (use resv in simp_all)
qed

lemma ready_call_inv:
  assumes "ready_inv H prefix resource c" and "digest_hex H"
  shows "ready_inv H prefix resource (ready_call_state H prefix resource fence net now call c)"
  using ready_call_cases [OF assms(2), of prefix resource fence net now call c] assms(1)
    ready_script_inv ready_script_not_ready
  unfolding ready_inv_def by metis

lemma fresh_ready_inv: "fresh_ready c \<Longrightarrow> ready_inv H prefix resource c"
  by (auto simp: fresh_ready_def ready_inv_def turn_inv_def ring_ok_def turns_ok_def gens_ok_def resv_inv_def hget_def)

lemma reachable_inv: "reachable H prefix resource c \<Longrightarrow> digest_hex H \<Longrightarrow> ready_inv H prefix resource c"
  by (induction rule: reachable.induct) (simp_all add: fresh_ready_inv ready_call_inv)

subsection \<open>What one call can do to the ring\<close>

text \<open>A step that hands out a turn, and to whom.\<close>

definition grants_turn :: "string \<Rightarrow> coord \<Rightarrow> coord \<Rightarrow> bool" where
  "grants_turn t c d \<longleftrightarrow> (\<exists>tok. turn_to_tenant c tok = None \<and> turn_to_tenant d tok = Some t)"

text \<open>Either the ring only grows at its end, or its head receives a fresh turn.\<close>

definition ring_step :: "coord \<Rightarrow> coord \<Rightarrow> bool" where
  "ring_step c d \<longleftrightarrow>
     ((\<exists>s. ring d = ring c @ s) \<and> (\<forall>tok. turn_to_tenant d tok = None \<or> turn_to_tenant d tok = turn_to_tenant c tok))
     \<or> (\<exists>x xs tok. ring c = x # xs \<and> ring d = xs \<and> turn_to_tenant c tok = None
          \<and> turn_to_tenant d = (turn_to_tenant c)(tok \<mapsto> x))"

lemma ring_step_refl [simp]: "ring_step c c"
  by (simp add: ring_step_def)

lemma same_turns_ring_step: "same_turns c d \<Longrightarrow> ring_step c d"
  by (simp add: ring_step_def same_turns_def)

lemma turn_scripts_ring_step:
  assumes "turn_inv c" and "check_ready e w c = OK"
  shows "ring_step c (fst (lua_activate e w t c))"
    "0 < limit \<Longrightarrow> ring_step c (fst (lua_next_turn e w tok ttl limit now c))"
    "ring_step c (fst (lua_rotate e w tok obs hr now c))"
    "ring_step c (fst (lua_ensure_known e w t c))"
proof -
  show "ring_step c (fst (lua_activate e w t c))"
    using assms by (auto simp: lua_activate_ready ring_step_def)
  show "ring_step c (fst (lua_rotate e w tok obs hr now c))"
    using assms by (auto simp: lua_rotate_ready ring_step_def settle_turn_def split: option.split)
  show "ring_step c (fst (lua_ensure_known e w t c))"
    using assms turn_invD(1) [OF assms(1)] by (auto simp: lua_ensure_known_def ring_step_def)
  assume "0 < limit"
  then show "ring_step c (fst (lua_next_turn e w tok ttl limit now c))"
    using assms by (cases "ring c") (auto simp: lua_next_turn_ready ring_step_def)
qed

lemma ready_script_ring_step:
  assumes "ready_script H p resource now e w call s" and "turn_inv c" and "resv_inv H p resource c"
    and "finite (known_users c)" and "check_ready e w c = OK"
  shows "ring_step c (fst (s c))"
proof -
  have resv: ?thesis if "case call of CallAcquire _ _ _ _ \<Rightarrow> True | CallBind _ _ _ _ \<Rightarrow> True
      | CallStable _ _ _ _ \<Rightarrow> True | CallRelease _ _ \<Rightarrow> True | _ \<Rightarrow> False"
    using ready_script_resv [OF assms that] same_turns_ring_step by blast
  have reap: "ring_step c (fst (lua_reap H e w n p resource now c))" for n
    using lua_reap_ready [OF assms(2,3,5)] lua_reap_inv [OF assms(2,3,5)] by (auto simp: ring_step_def)
  from assms(1) show ?thesis
    by (cases rule: ready_script.cases)
      (use resv reap turn_scripts_ring_step [OF assms(2,5)] in simp_all)
qed

lemma ready_call_step:
  assumes "ready_inv H prefix resource c" and "digest_hex H"
  shows "ring_step c (ready_call_state H prefix resource fence net now call c)"
  using ready_call_cases [OF assms(2), of prefix resource fence net now call c] assms(1)
    ready_script_ring_step ready_script_not_ready ring_step_refl
  unfolding ready_inv_def by metis

text \<open>Deactivation: only by settling a turn that has seen the tenant's latest activation.\<close>

lemma ready_script_active:
  assumes "ready_script H p resource now e w call s" and "turn_inv c" and "resv_inv H p resource c"
    and "finite (known_users c)" and "check_ready e w c = OK"
    and "t \<in> active_users c" and "t \<notin> active_users (fst (s c))"
  shows "\<exists>tok obs. call = CallRotate tok obs False \<and> tenant_to_turn c t = Some tok
    \<and> turn_to_generation c tok = activation_gen c t \<and> activation_gen c t = Some (format_uint (unat obs))"
proof -
  have resv: "active_users (fst (s c)) = active_users c" if "case call of CallAcquire _ _ _ _ \<Rightarrow> True
      | CallBind _ _ _ _ \<Rightarrow> True | CallStable _ _ _ _ \<Rightarrow> True | CallRelease _ _ \<Rightarrow> True | _ \<Rightarrow> False"
    using ready_script_resv [OF assms(1-5) that] by (simp add: same_turns_def)
  have reap: "active_users (fst (lua_reap H e w n p resource now c)) = active_users c" for n
    using lua_reap_ready [OF assms(2,3,5)] lua_reap_inv [OF assms(2,3,5)] by simp
  from assms(1) show ?thesis
  proof (cases rule: ready_script.cases)
    case (4 tok obs has_ready)
    with assms(2,5-7) turn_invD(11) [OF assms(2)] show ?thesis
      by (auto simp: lua_rotate_ready settle_turn_def split: option.splits if_splits)
  qed (use assms(2,5-7) resv reap in \<open>auto simp: lua_ensure_known_def lua_activate_ready lua_next_turn_ready
        split: list.splits if_splits\<close>)
qed

lemma ready_call_active:
  assumes "ready_inv H prefix resource c" and "digest_hex H"
    and "t \<in> active_users c" and "t \<notin> active_users (ready_call_state H prefix resource fence net now call c)"
  shows "\<exists>tok obs. call = CallRotate tok obs False \<and> tenant_to_turn c t = Some tok
    \<and> turn_to_generation c tok = activation_gen c t \<and> activation_gen c t = Some (format_uint (unat obs))"
  using ready_call_cases [OF assms(2), of prefix resource fence net now call c] assms(1,3,4)
    ready_script_active ready_script_not_ready
  unfolding ready_inv_def by metis

subsection \<open>Runs\<close>

type_synonym ready_event = "resource_fence \<times> transport \<times> int \<times> ready_call"

definition event_state ::
  "(string \<Rightarrow> string) \<Rightarrow> string \<Rightarrow> string \<Rightarrow> ready_event \<Rightarrow> coord \<Rightarrow> coord" where
  "event_state H prefix resource ev c =
     (case ev of (fence, net, now, call) \<Rightarrow> ready_call_state H prefix resource fence net now call c)"

fun run_events ::
  "(string \<Rightarrow> string) \<Rightarrow> string \<Rightarrow> string \<Rightarrow> ready_event list \<Rightarrow> coord \<Rightarrow> coord" where
  "run_events H prefix resource [] c = c"
| "run_events H prefix resource (ev # evs) c = run_events H prefix resource evs (event_state H prefix resource ev c)"

fun trace_of ::
  "(string \<Rightarrow> string) \<Rightarrow> string \<Rightarrow> string \<Rightarrow> ready_event list \<Rightarrow> coord \<Rightarrow> (coord \<times> coord) list" where
  "trace_of H prefix resource [] c = []"
| "trace_of H prefix resource (ev # evs) c =
     (c, event_state H prefix resource ev c) # trace_of H prefix resource evs (event_state H prefix resource ev c)"

definition granting :: "coord \<times> coord \<Rightarrow> bool" where
  "granting s \<longleftrightarrow> (\<exists>t. grants_turn t (fst s) (snd s))"

definition position :: "string \<Rightarrow> coord \<Rightarrow> nat" where
  "position t c = length (takeWhile (\<lambda>u. u \<noteq> t) (ring c))"

lemma event_inv:
  "ready_inv H prefix resource c \<Longrightarrow> digest_hex H \<Longrightarrow> ready_inv H prefix resource (event_state H prefix resource ev c)"
  by (cases ev) (simp add: event_state_def ready_call_inv)

lemma event_step:
  "ready_inv H prefix resource c \<Longrightarrow> digest_hex H \<Longrightarrow> ring_step c (event_state H prefix resource ev c)"
  by (cases ev) (simp add: event_state_def ready_call_step)

lemma ring_step_position:
  assumes "ring_step c d" and "t \<in> set (ring c)" and "\<not> grants_turn t c d"
  shows "t \<in> set (ring d) \<and> position t d + (if granting (c, d) then 1 else 0) = position t c"
  using assms(1) unfolding ring_step_def
proof (elim disjE conjE exE)
  fix s assume s: "ring d = ring c @ s"
    and old: "\<forall>tok. turn_to_tenant d tok = None \<or> turn_to_tenant d tok = turn_to_tenant c tok"
  have "takeWhile (\<lambda>u. u \<noteq> t) (ring c @ s) = takeWhile (\<lambda>u. u \<noteq> t) (ring c)"
    using assms(2) by (simp add: takeWhile_append1)
  moreover have "\<not> granting (c, d)"
    using old by (auto simp: granting_def grants_turn_def) (metis option.distinct(1))
  ultimately show ?thesis using assms(2) s by (simp add: position_def)
next
  fix x xs tok assume r: "ring c = x # xs" "ring d = xs" "turn_to_tenant c tok = None"
    "turn_to_tenant d = (turn_to_tenant c)(tok \<mapsto> x)"
  then have "grants_turn x c d" by (auto simp: grants_turn_def)
  with assms(3) have "x \<noteq> t" "granting (c, d)" by (auto simp: granting_def)
  with assms(2) r show ?thesis by (simp add: position_def)
qed

lemma waiting_run:
  assumes "ready_inv H prefix resource c" and "digest_hex H" and "t \<in> set (ring c)"
    and "\<forall>s\<in>set (trace_of H prefix resource evs c). \<not> grants_turn t (fst s) (snd s)"
  shows "t \<in> set (ring (run_events H prefix resource evs c))
    \<and> position t (run_events H prefix resource evs c)
        + length (filter granting (trace_of H prefix resource evs c)) = position t c"
  using assms
proof (induction evs arbitrary: c)
  case Nil
  then show ?case by simp
next
  case (Cons ev evs)
  let ?d = "event_state H prefix resource ev c"
  have "t \<in> set (ring ?d) \<and> position t ?d + (if granting (c, ?d) then 1 else 0) = position t c"
    using ring_step_position [OF event_step [OF Cons.prems(1,2)] Cons.prems(3)] Cons.prems(4) by simp
  moreover have "t \<in> set (ring (run_events H prefix resource evs ?d))
    \<and> position t (run_events H prefix resource evs ?d)
        + length (filter granting (trace_of H prefix resource evs ?d)) = position t ?d"
    if "t \<in> set (ring ?d)"
    using Cons.IH [OF event_inv [OF Cons.prems(1,2)] Cons.prems(2) that] Cons.prems(4) by simp
  ultimately show ?case by auto
qed

text \<open>Generations only grow, and the one a turn has observed is fixed while it is held.\<close>

definition gen_step :: "coord \<Rightarrow> coord \<Rightarrow> bool" where
  "gen_step c d \<longleftrightarrow> (\<forall>t. activations_of c t \<le> activations_of d t)
     \<and> (\<forall>tok. turn_to_tenant c tok \<noteq> None \<longrightarrow> turn_to_tenant d tok \<noteq> None \<longrightarrow>
          turn_to_generation d tok = turn_to_generation c tok)"

lemma ready_script_gen_step:
  assumes "ready_script H p resource now e w call s" and "turn_inv c" and "resv_inv H p resource c"
    and "finite (known_users c)" and "check_ready e w c = OK"
  shows "gen_step c (fst (s c))"
proof -
  have resv: ?thesis if "case call of CallAcquire _ _ _ _ \<Rightarrow> True | CallBind _ _ _ _ \<Rightarrow> True
      | CallStable _ _ _ _ \<Rightarrow> True | CallRelease _ _ \<Rightarrow> True | _ \<Rightarrow> False"
    using ready_script_resv [OF assms that] by (simp add: gen_step_def same_turns_def activations_of_def)
  have reap: "gen_step c (fst (lua_reap H e w n p resource now c))" for n
    using lua_reap_ready [OF assms(2,3,5)] lua_reap_inv [OF assms(2,3,5)]
    by (simp add: gen_step_def activations_of_def)
  have act: "gen_step c (fst (lua_activate e w t c))" for t
    using hincr_value [of c t]
    by (auto simp: lua_activate_ready [OF assms(2,5)] gen_step_def activations_of_def)
  from assms(1) show ?thesis
    by (cases rule: ready_script.cases)
      (use assms(2,5) resv reap act in \<open>auto simp: lua_ensure_known_def lua_next_turn_ready lua_rotate_ready
        settle_turn_def gen_step_def activations_of_def split: list.split option.split\<close>)
qed

lemma event_gen_step:
  assumes "ready_inv H prefix resource c" and "digest_hex H"
  shows "gen_step c (event_state H prefix resource ev c)"
proof -
  obtain fence net now call where ev: "ev = (fence, net, now, call)" by (cases ev) auto
  have refl: "gen_step c c" by (simp add: gen_step_def)
  from ready_call_cases [OF assms(2), of prefix resource fence net now call c] refl assms(1)
    ready_script_gen_step ready_script_not_ready
  show ?thesis unfolding ready_inv_def ev event_state_def prod.case by metis
qed

text \<open>An active tenant whose held turn, if any, has not seen its latest activation.\<close>

definition woken :: "string \<Rightarrow> coord \<Rightarrow> bool" where
  "woken t c \<longleftrightarrow> t \<in> active_users c \<and>
     (\<forall>tok g. tenant_to_turn c t = Some tok \<longrightarrow> turn_to_generation c tok = Some g \<longrightarrow>
        digits_value g < activations_of c t)"

lemma woken_step:
  assumes "ready_inv H prefix resource c" and "digest_hex H" and "woken t c"
    and "\<not> grants_turn t c (event_state H prefix resource ev c)"
  shows "woken t (event_state H prefix resource ev c)"
proof -
  let ?d = "event_state H prefix resource ev c"
  have c: "turn_inv c" and d: "turn_inv ?d"
    using assms(1) event_inv [OF assms(1,2)] by (simp_all add: ready_inv_def)
  note gen = event_gen_step [OF assms(1,2), of ev] and ring = event_step [OF assms(1,2), of ev]
  have "t \<in> active_users ?d"
  proof (rule ccontr)
    assume "t \<notin> active_users ?d"
    moreover obtain fence net now call where ev: "ev = (fence, net, now, call)" by (cases ev) auto
    ultimately have "\<exists>tok. tenant_to_turn c t = Some tok \<and> turn_to_generation c tok = activation_gen c t
        \<and> activation_gen c t \<noteq> None"
      using ready_call_active [OF assms(1,2), where t = t and fence = fence and net = net
          and now = now and call = call] assms(3)
      by (simp add: woken_def event_state_def) blast
    with assms(3) show False by (auto simp: woken_def activations_of_def)
  qed
  moreover have "digits_value g < activations_of ?d t"
    if tok: "tenant_to_turn ?d t = Some tok" and g: "turn_to_generation ?d tok = Some g" for tok g
  proof -
    have dt: "turn_to_tenant ?d tok = Some t" using tok turn_invD(11) [OF d] by simp
    with assms(4) have "turn_to_tenant c tok \<noteq> None" by (auto simp: grants_turn_def)
    with ring dt have ct: "turn_to_tenant c tok = Some t"
      unfolding ring_step_def by (metis fun_upd_apply option.distinct(1))
    have "turn_to_generation c tok = Some g" using gen ct dt g by (simp add: gen_step_def)
    moreover have "tenant_to_turn c t = Some tok" using ct turn_invD(11) [OF c] by simp
    ultimately have "digits_value g < activations_of c t" using assms(3) by (simp add: woken_def)
    also have "\<dots> \<le> activations_of ?d t" using gen by (simp add: gen_step_def)
    finally show ?thesis .
  qed
  ultimately show ?thesis by (simp add: woken_def)
qed

lemma woken_run:
  assumes "ready_inv H prefix resource c" and "digest_hex H" and "woken t c"
    and "\<forall>s\<in>set (trace_of H prefix resource evs c). \<not> grants_turn t (fst s) (snd s)"
  shows "woken t (run_events H prefix resource evs c)
    \<and> ready_inv H prefix resource (run_events H prefix resource evs c)"
  using assms
proof (induction evs arbitrary: c)
  case (Cons ev evs)
  then show ?case using woken_step event_inv by simp
qed simp

lemma activate_wakes:
  assumes "turn_inv c" and "check_ready e w c = OK" and "snd (lua_activate e w t c) = [OK]"
  shows "woken t (fst (lua_activate e w t c))"
proof -
  note inv = turn_invD [OF assms(1)]
  have n: "activations_of c t \<noteq> max_int64" using assms(3) by (auto simp: lua_activate_ready [OF assms(1,2)])
  have "digits_value g < activations_of c t + 1"
    if "tenant_to_turn c t = Some tok" "turn_to_generation c tok = Some g" for tok g
    using inv(15) [OF that(2,1)] by (auto simp: activations_of_def)
  then show ?thesis
    using n hincr_value [of c t] by (auto simp: lua_activate_ready [OF assms(1,2)] woken_def activations_of_def)
qed

end
