(* ===== verification/Fq_Samples.thy ===== *)
theory Fq_Samples
  imports Fq_Reach
begin

text \<open>Concrete reachable coordination states on which the properties are applied: a fresh
  resource with two waiting tenants, the same resource after one turn has been taken, and the same
  state with a provisional reservation. Everything here is about particular values; no property
  rests on it except through its witness.\<close>

subsection \<open>A sample resource\<close>

definition sample_fence :: resource_fence where
  "sample_fence = \<lparr> fence_epoch = replicate 32 CHR ''0'', fence_writer = replicate 64 CHR ''a'' \<rparr>"

definition sample_control :: "(string \<times> string) list" where
  "sample_control = [(''state'', ''READY''), (''operation_kind'', ''NONE''), (''operation_id'', []),
     (''epoch'', replicate 32 CHR ''0''), (''protocol_version'', ''1''),
     (''writer_fingerprint'', replicate 64 CHR ''a''), (''last_completed_operation_id'', []),
     (''last_completed_operation_kind'', ''NONE'')]"

definition sample_start :: coord where
  "sample_start = \<lparr> control = sample_control, progress = [], recovery_lock = LockAbsent, wrong_type = {}, ring = [],
     ring_members = {}, active_users = {}, known_users = {}, activation_gen = Map.empty,
     processing_turns = [], turn_to_tenant = Map.empty, turn_to_generation = Map.empty,
     tenant_to_turn = Map.empty, global_inflight = [], provisional = [], stable_index = [],
     tenant_inflight = (\<lambda>_. []), reservation_meta = [] \<rparr>"

lemma sample_hexes:
  "lower_hex 32 (replicate 32 CHR ''0'')" "lower_hex 64 (replicate 64 CHR ''a'')"
  "lower_hex 32 (replicate 32 CHR ''1'')" "lower_hex 64 (replicate 64 CHR ''b'')"
  by (simp_all add: lower_hex_def is_lower_hex_char_def list_all_iff)

lemma hex_digest_hex: "digest_hex hex_digest"
  by (auto simp: digest_hex_def hex_digest_def lower_hex_def is_lower_hex_char_def list_all_iff)

lemma format_uint_small: "n < 10 \<Longrightarrow> format_uint n = [digit_char n]"
  by (subst format_uint.simps) simp

lemma sample_ready: "check_ready (fence_epoch sample_fence) (fence_writer sample_fence) sample_start = OK"
  "fresh_ready sample_start"
proof -
  have one: "positive_int64 ''1''" by (simp add: positive_int64_def positive_decimal_def is_digit_def)
  have rc: "read_control sample_start = Inr [''READY'', ''NONE'', [], replicate 32 CHR ''0'', ''1'',
      replicate 64 CHR ''a'', [], ''NONE'']"
    using one sample_hexes
    by (simp add: read_control_def sample_start_def sample_control_def hmget_def control_fields_def)
  then show "check_ready (fence_epoch sample_fence) (fence_writer sample_fence) sample_start = OK"
    by (simp add: check_ready_def sample_fence_def)
  show "fresh_ready sample_start"
    unfolding fresh_ready_def using rc by (simp add: sample_start_def)
qed

lemma sample_fence_valid:
  "valid_runtime_fence ''bk:'' ''rag'' sample_fence = Inr (keys_of_root ''bk:fair:{rag}:'')"
  using sample_hexes by (simp add: valid_runtime_fence_def sample_keyspaces validate_fence_def sample_fence_def
   )

lemma sample_tenants_valid:
  "valid_runtime_tenant ''bk:'' ''rag'' sample_fence ''u1'' = Inr (keys_of_root ''bk:fair:{rag}:'')"
  "valid_runtime_tenant ''bk:'' ''rag'' sample_fence ''user2'' = Inr (keys_of_root ''bk:fair:{rag}:'')"
  by (simp_all add: valid_runtime_tenant_def sample_fence_valid sample_names_valid)

definition sample_event :: "ready_call \<Rightarrow> ready_event" where
  "sample_event call = (sample_fence, Delivered, 1000, call)"

definition sample_state :: "ready_call list \<Rightarrow> coord" where
  "sample_state calls = run_events hex_digest ''bk:'' ''rag'' (map sample_event calls) sample_start"

lemma delivered_state: "args = Inr k \<Longrightarrow> snd (redis_call Delivered args s parse c) = fst (s k c)"
  by (cases "s k c") (simp add: redis_call_def run_runtime_script_def)

abbreviation sample_epoch :: string where "sample_epoch \<equiv> fence_epoch sample_fence"
abbreviation sample_writer :: string where "sample_writer \<equiv> fence_writer sample_fence"

lemma sample_activate_state:
  assumes "valid_runtime_tenant ''bk:'' ''rag'' sample_fence t = Inr k"
  shows "event_state hex_digest ''bk:'' ''rag'' (sample_event (CallActivate t)) c =
    fst (lua_activate sample_epoch sample_writer t c)"
  using delivered_state [OF assms]
  by (simp add: event_state_def sample_event_def ready_call_state_def ensure_runtime_active_def)

lemma sample_reachable: "reachable hex_digest ''bk:'' ''rag'' (sample_state calls)"
proof -
  have "reachable hex_digest ''bk:'' ''rag'' c \<Longrightarrow>
      reachable hex_digest ''bk:'' ''rag'' (run_events hex_digest ''bk:'' ''rag'' evs c)" for evs c
    by (induction evs arbitrary: c) (auto simp: event_state_def intro: reachable_call)
  then show ?thesis
    unfolding sample_state_def using reachable_start [OF sample_ready(2)] by blast
qed

lemma sample_inv: "ready_inv hex_digest ''bk:'' ''rag'' (sample_state calls)"
  by (rule reachable_inv [OF sample_reachable hex_digest_hex])

definition two_waiting :: coord where
  "two_waiting = sample_start\<lparr> ring := [''u1'', ''user2''], ring_members := {''u1'', ''user2''},
     active_users := {''u1'', ''user2''}, known_users := {''u1'', ''user2''},
     activation_gen := [''u1'' \<mapsto> ''1'', ''user2'' \<mapsto> ''1''] \<rparr>"

lemma sample_start_inv: "turn_inv sample_start"
  using fresh_ready_inv [OF sample_ready(2), of hex_digest "''bk:''" "''rag''"] by (simp add: ready_inv_def)

lemma digit_one: "format_uint 1 = ''1''" "format_uint (Suc 0) = ''1''" "format_uint 2 = ''2''"
  by code_simp+

lemma two_waiting_state: "sample_state [CallActivate ''u1'', CallActivate ''user2''] = two_waiting"
proof -
  let ?one = "fst (lua_activate sample_epoch sample_writer ''u1'' sample_start)"
  have one: "?one = sample_start\<lparr> ring := [''u1''], ring_members := {''u1''}, active_users := {''u1''},
      known_users := {''u1''}, activation_gen := [''u1'' \<mapsto> ''1''] \<rparr>"
    using digit_one unfolding lua_activate_ready [OF sample_start_inv sample_ready(1)]
    by (simp add: activations_of_def hincr_def max_int64_def sample_start_def)
  have inv: "turn_inv ?one"
    using lua_activate_inv [OF sample_start_inv sample_ready(1)] sample_names_valid by blast
  have ready: "check_ready sample_epoch sample_writer ?one = OK"
    using sample_ready(1) keeps_control_ready [of sample_start ?one] unfolding one
    by (simp add: keeps_control_def)
  have "fst (lua_activate sample_epoch sample_writer ''user2'' ?one) = two_waiting"
    using digit_one unfolding lua_activate_ready [OF inv ready] unfolding one
    by (simp add: activations_of_def hincr_def max_int64_def sample_start_def two_waiting_def insert_commute)
  then show ?thesis
    by (simp add: sample_state_def sample_activate_state [OF sample_tenants_valid(1)]
        sample_activate_state [OF sample_tenants_valid(2)])
qed

lemma two_waiting_facts:
  "reachable hex_digest ''bk:'' ''rag'' two_waiting" "turn_inv two_waiting"
  "check_ready sample_epoch sample_writer two_waiting = OK"
proof -
  show "reachable hex_digest ''bk:'' ''rag'' two_waiting"
    using sample_reachable [of "[CallActivate ''u1'', CallActivate ''user2'']"] by (simp add: two_waiting_state)
  then show "turn_inv two_waiting" using reachable_inv hex_digest_hex by (auto simp: ready_inv_def)
  show "check_ready sample_epoch sample_writer two_waiting = OK"
    using sample_ready(1) keeps_control_ready [of sample_start two_waiting]
    by (simp add: keeps_control_def two_waiting_def)
qed

definition one_holding :: coord where
  "one_holding = two_waiting\<lparr> ring := [''user2''], ring_members := {''user2''},
     processing_turns := [(replicate 32 CHR ''1'', 31000)],
     turn_to_tenant := [replicate 32 CHR ''1'' \<mapsto> ''u1''],
     turn_to_generation := [replicate 32 CHR ''1'' \<mapsto> ''1''],
     tenant_to_turn := [''u1'' \<mapsto> replicate 32 CHR ''1''] \<rparr>"

definition sample_next :: ready_call where
  "sample_next = CallNextTurn (replicate 32 CHR ''1'') 30000000000"

lemma sample_ttl: "redis_runtime_ttl_ms 30000000000 = Inr 30000"
  by (simp add: redis_runtime_ttl_ms_def max_resource_duration_def Let_def)

lemma scan_batch_pos: "0 < redis_runtime_turn_scan_batch"
  by (simp add: redis_runtime_turn_scan_batch_def)

lemma one_holding_step: "event_state hex_digest ''bk:'' ''rag'' (sample_event sample_next) two_waiting = one_holding"
proof -
  have "next_turn_args ''bk:'' ''rag'' sample_fence (replicate 32 CHR ''1'') 30000000000 = Inr 30000"
    using sample_hexes by (simp add: next_turn_args_def sample_fence_valid validate_turn_token_def sample_ttl)
  from delivered_state [OF this]
  have "event_state hex_digest ''bk:'' ''rag'' (sample_event sample_next) two_waiting =
    fst (lua_next_turn sample_epoch sample_writer (replicate 32 CHR ''1'') 30000 redis_runtime_turn_scan_batch
      1000 two_waiting)"
    by (simp add: event_state_def sample_event_def sample_next_def ready_call_state_def next_turn_def)
  also have "\<dots> = one_holding"
    unfolding lua_next_turn_ready [OF two_waiting_facts(2,3) scan_batch_pos]
    by (simp add: one_holding_def two_waiting_def sample_start_def zadd_def)
  finally show ?thesis .
qed

lemma one_holding_facts:
  "reachable hex_digest ''bk:'' ''rag'' one_holding" "turn_inv one_holding"
  "check_ready sample_epoch sample_writer one_holding = OK"
proof -
  show "reachable hex_digest ''bk:'' ''rag'' one_holding"
    using reachable_call [OF two_waiting_facts(1), of sample_fence Delivered 1000 sample_next] one_holding_step
    by (simp add: event_state_def sample_event_def)
  then show "turn_inv one_holding" using reachable_inv hex_digest_hex by (auto simp: ready_inv_def)
  show "check_ready sample_epoch sample_writer one_holding = OK"
    using two_waiting_facts(3) keeps_control_ready [of two_waiting one_holding]
    by (simp add: keeps_control_def one_holding_def)
qed

end
