(* ===== verification/Fq_Ready_Props.thy ===== *)
theory Fq_Ready_Props
  imports Fq_Samples
begin

text \<open>The properties of the ready-path coordinator (\<^verbatim>\<open>redis_runtime.go\<close>) over its reachable
  states: consistency, fairness, exactly-once settlement of turns, fencing, and the admission policy
  of reservations.\<close>

subsection \<open>Results of the Go operations on consistent states\<close>

lemma redis_call_delivered:
  "args = Inr k \<Longrightarrow> redis_call Delivered args s parse c = (parse k (snd (s k c)), fst (s k c))"
  by (cases "s k c") (simp add: redis_call_def run_runtime_script_def)

lemma expect_ok_codes [simp]:
  "expect_ok [OK] = Inr ()" "expect_ok [INVALID] = Inl [ErrFenceMismatch]"
  "expect_ok [CORRUPT] = Inl [ErrCoordinationCorrupt]" "expect_ok [FENCE] = Inl [ErrFenceMismatch]"
  "expect_ok [NOT_READY] = Inl [ErrResourceNotReady]"
  by (simp_all add: expect_ok_def redis_runtime_expect_ok_def redis_runtime_result_error_def
      redis_script_error_def check_err_def wraps_def)

lemma parse_decision_code [simp]: "parse_decision [decision_code d] = Inr d"
  by (cases d) (simp_all add: parse_decision_def all_decisions_def decision_code_def)

lemma decision_code_granted:
  "decision_code d = ''regular'' \<or> decision_code d = ''borrowed'' \<longleftrightarrow> granted d"
  by (cases d) (simp_all add: decision_code_def granted_def)

lemma lua_decide_policy:
  assumes "validate_limits limits = None" and "mine \<le> n" and "1 \<le> a"
  shows "\<exists>d. decide_reservation limits \<lparr> global_count = int n, tenant_count = int mine, active_tenants = int a \<rparr> = Inr d
    \<and> lua_decide limits n mine a = decision_code d"
  using assms by (auto simp: decide_reservation_def lua_decide_def decision_code_def)

lemma live_tenant_le:
  assumes "resv_inv H prefix resource c"
  shows "live_count now (tenant_inflight c key) \<le> live_count now (global_inflight c)"
proof -
  note inv = resv_invD [OF assms]
  have "{m. \<exists>s. zscore (tenant_inflight c key) m = Some s \<and> s > now}
      \<subseteq> {m. \<exists>s. zscore (global_inflight c) m = Some s \<and> s > now}"
  proof clarify
    fix m s assume a: "zscore (tenant_inflight c key) m = Some s" "s > now"
    then obtain k x where x: "reservation_entry H prefix resource c m = Some (k, x)" "meta_tenant_key x = key"
      using inv(11) [of key m] by auto
    with entry_facts(4) [OF inv(1) x(1)] a
    show "\<exists>s. zscore (global_inflight c) m = Some s \<and> s > now" by (metis (no_types))
  qed
  moreover have "finite {m. \<exists>s. zscore (global_inflight c) m = Some s \<and> s > now}"
    by (rule finite_subset [OF _ zset_finite [of "global_inflight c"]]) blast
  ultimately show ?thesis using inv(2,5) by (simp add: live_count_card card_mono)
qed

lemma redis_ttl_positive: "redis_runtime_ttl_ms ttl = Inr ms \<Longrightarrow> 0 < ms"
  by (auto simp: redis_runtime_ttl_ms_def Let_def split: if_splits)

text \<open>A first acquire: the decision is the policy's, on the unexpired reservations.\<close>

lemma acquire_decides:
  assumes inv: "turn_inv c" "resv_inv H p resource c" "finite (known_users c)" and ready: "check_ready e w c = OK"
    and tenant: "tenant \<in> active_users c" and tok: "token_kind token = Some kindP"
    and key: "call_ok H p resource tenant key"
    and room: "zcard (global_inflight c) \<le> maximum" and fresh: "reservation_entry H p resource c token = None"
    and limits: "validate_limits limits = None" and ttl: "0 < ttl"
  shows "\<exists>d. decide_reservation limits \<lparr> global_count = int (live_count now (global_inflight c)),
        tenant_count = int (live_count now (tenant_inflight c key)),
        active_tenants = int (card (active_users c)) \<rparr> = Inr d
    \<and> snd (lua_acquire H e w tenant key token ttl limits p resource batch maximum now c) = [decision_code d]
    \<and> (let c' = fst (lua_acquire H e w tenant key token ttl limits p resource batch maximum now c)
       in if granted d
          then live_count now (global_inflight c') = live_count now (global_inflight c) + 1
            \<and> live_count now (tenant_inflight c' key) = live_count now (tenant_inflight c key) + 1
            \<and> reservation_entry H p resource c' token =
                Some (kindP, \<lparr> meta_tenant = tenant, meta_tenant_key = key, meta_decision = Some (decision_code d) \<rparr>)
            \<and> zscore (global_inflight c') token = Some (now + ttl)
          else live_count now (global_inflight c') = live_count now (global_inflight c)
            \<and> live_count now (tenant_inflight c' key) = live_count now (tenant_inflight c key)
            \<and> reservation_entry H p resource c' token = None)"
proof -
  let ?d = "swept H p resource batch now c"
  note sw = swept_facts [OF inv(2), where batch = batch and now = now]
  have fin: "finite (active_users c)" by (rule finite_active [OF inv(1,3)])
  have known: "tenant \<in> known_users c" using turn_invD(6) [OF inv(1)] tenant by blast
  have n: "reservation_entry H p resource ?d token = None" using sw(6) [of token] fresh by simp
  have "active_users c \<noteq> {}" using tenant by blast
  with fin have "1 \<le> card (active_users c)" by (simp add: card_gt_0_iff Suc_le_eq)
  from lua_decide_policy [OF limits live_tenant_le [OF inv(2)] this]
  obtain d where d: "decide_reservation limits \<lparr> global_count = int (live_count now (global_inflight c)),
        tenant_count = int (live_count now (tenant_inflight c key)), active_tenants = int (card (active_users c)) \<rparr> = Inr d"
    and lua: "lua_decide limits (live_count now (global_inflight c)) (live_count now (tenant_inflight c key))
        (card (active_users c)) = decision_code d"
    by blast
  have run: "lua_acquire H e w tenant key token ttl limits p resource batch maximum now c =
     (if granted d then add_provisional (now + ttl) token tenant key (decision_code d) ?d else ?d, [decision_code d])"
    unfolding lua_acquire_ready [OF inv(2) ready tenant known fin tok room]
    using n lua decision_code_granted [of d] by (auto simp: Let_def)
  have "live_count now (zadd (now + ttl) token (global_inflight ?d)) = live_count now (global_inflight c) + 1"
    "live_count now (zadd (now + ttl) token (tenant_inflight ?d key)) = live_count now (tenant_inflight c key) + 1"
    using no_entry [OF sw(1) n] resv_invD(2,5) [OF sw(1)] ttl sw(3,4) by (simp_all add: live_count_zadd)
  moreover have "granted d \<Longrightarrow> reservation_entry H p resource (add_provisional (now + ttl) token tenant key (decision_code d) ?d) token
      = Some (kindP, \<lparr> meta_tenant = tenant, meta_tenant_key = key, meta_decision = Some (decision_code d) \<rparr>)"
    using add_provisional_entry [OF sw(1) no_entry(5) [OF sw(1) n] tok] key decision_code_granted [of d]
    by (simp add: call_ok_def)
  ultimately show ?thesis
    using d n sw(3,4) by (simp add: run Let_def)
qed

subsection \<open>Properties of the ring\<close>

lemma reachable_parts:
  assumes "reachable H prefix resource c" and "digest_hex H"
  shows "turn_inv c" "resv_inv H (tenant_prefix_of prefix resource) resource c" "finite (known_users c)"
  using reachable_inv [OF assms] by (simp_all add: ready_inv_def)

text \<open>C4: whatever clients do while a resource is READY, its coordination state stays
  consistent. The ring lists each waiting tenant once and its members are the set
  \<open>ring_members\<close>; a tenant is active exactly when it waits or holds a turn, and never both; a
  turn belongs to one tenant and a tenant has one turn; and every reservation is provisional
  or stable, not both, and counted once.\<close>

theorem reachable_coordination_consistent:
  assumes "reachable H prefix resource c" and "digest_hex H"
  shows "distinct (ring c) \<and> set (ring c) = ring_members c
    \<and> active_users c = ring_members c \<union> dom (tenant_to_turn c)
    \<and> ring_members c \<inter> dom (tenant_to_turn c) = {}
    \<and> (\<forall>tok t. turn_to_tenant c tok = Some t \<longleftrightarrow> tenant_to_turn c t = Some tok)
    \<and> (\<forall>tok. zscore (global_inflight c) tok = None \<or>
          (zscore (provisional c) tok = None) \<noteq> (zscore (stable_index c) tok = None))
    \<and> reservation_shape_count c = Some (zcard (global_inflight c))
    \<and> ready_inv H prefix resource c"
proof -
  note p = reachable_parts [OF assms]
  note r = resv_invD [OF p(2)]
  have one: "zscore (global_inflight c) tok = None \<or>
      (zscore (provisional c) tok = None) \<noteq> (zscore (stable_index c) tok = None)" for tok
  proof (cases "reservation_entry H (tenant_prefix_of prefix resource) resource c tok")
    case None
    then show ?thesis using no_entry(1) [OF p(2)] by blast
  next
    case (Some km)
    then obtain k m where "reservation_entry H (tenant_prefix_of prefix resource) resource c tok = Some (k, m)"
      by (cases km) auto
    from entry_facts [OF r(1) this] show ?thesis by simp
  qed
  show ?thesis
    using turn_invD [OF p(1)] shape_count [OF p(2)] reachable_inv [OF assms] one
    by (intro conjI allI) blast+
qed

theorem reachable_coordination_consistent_witness:
  "set (ring one_holding) = {''user2''} \<and> dom (tenant_to_turn one_holding) = {''u1''}
   \<and> active_users one_holding = {''u1'', ''user2''}"
  using reachable_coordination_consistent [OF one_holding_facts(1) hex_digest_hex]
  by (auto simp: one_holding_def two_waiting_def)

text \<open>C5: the ring scripts implement a first-in first-out queue of tenants. Activating appends a
  tenant that neither waits nor holds a turn, and counts the activation; a turn goes to the
  head with the number of activations seen so far; and settling a turn sends its tenant to the
  back of the queue if it has work left or was activated since, and else drops it.\<close>

theorem ring_refines_fair_queue:
  assumes "reachable H prefix resource c" and "digest_hex H" and "check_ready e w c = OK"
  shows "(activations_of c t < max_int64 \<longrightarrow>
      snd (lua_activate e w t c) = [OK]
      \<and> abs_queue (fst (lua_activate e w t c)) = fq_activate t (abs_queue c))
    \<and> (0 < limit \<and> turn_to_tenant c tok = None \<longrightarrow>
      abs_queue (fst (lua_next_turn e w tok ttl limit now c)) = fst (fq_next tok (now + ttl) (abs_queue c))
      \<and> snd (lua_next_turn e w tok ttl limit now c) =
          (case snd (fq_next tok (now + ttl) (abs_queue c)) of
             None \<Rightarrow> [EMPTY] | Some (t, g) \<Rightarrow> [OK, t, format_uint g]))
    \<and> (snd (lua_rotate e w tok obs has_ready now c) = [OK] \<longrightarrow>
      abs_queue (fst (lua_rotate e w tok obs has_ready now c)) = fq_settle tok has_ready (abs_queue c))"
proof -
  note t = reachable_parts(1) [OF assms(1,2)]
  have "abs_queue (fst (lua_rotate e w tok obs has_ready now c)) = fq_settle tok has_ready (abs_queue c)"
    if ok: "snd (lua_rotate e w tok obs has_ready now c) = [OK]"
  proof -
    obtain u where u: "turn_to_tenant c tok = Some u" "turn_to_generation c tok = Some obs"
      "fst (lua_rotate e w tok obs has_ready now c) = settle_turn tok u (has_ready \<or> activation_gen c u \<noteq> Some obs) c"
      using ok by (auto simp: lua_rotate_ready [OF t assms(3)] split: option.splits if_splits)
    with abs_settle [OF t u(1), of has_ready] show ?thesis by simp
  qed
  then show ?thesis
    using abs_activate [OF t assms(3)] abs_next [OF t assms(3)]
    by (auto simp: lua_activate_ready [OF t assms(3)])
qed

theorem ring_refines_fair_queue_witness:
  "abs_queue (fst (lua_next_turn sample_epoch sample_writer ''x'' 5 1 9 two_waiting)) =
     fst (fq_next ''x'' 14 (abs_queue two_waiting))"
  using ring_refines_fair_queue [OF two_waiting_facts(1) hex_digest_hex two_waiting_facts(3),
      of "''u1''" 1 "''x''" 5 9]
  by (simp add: two_waiting_def sample_start_def)

text \<open>C6: bounded waiting. Whatever a set of clients does, with whatever fences, arguments, clock
  readings and network failures, a tenant that waits in the ring is overtaken by no one: with
  every turn that is handed out it moves up by exactly one place, and nothing else moves it.
  So at most as many turns are granted before its own as there were tenants ahead of it.\<close>

theorem bounded_waiting:
  assumes "reachable H prefix resource c" and "digest_hex H" and "t \<in> set (ring c)"
    and "\<forall>s\<in>set (trace_of H prefix resource evs c). \<not> grants_turn t (fst s) (snd s)"
  shows "t \<in> set (ring (run_events H prefix resource evs c))
    \<and> position t (run_events H prefix resource evs c)
        + length (filter granting (trace_of H prefix resource evs c)) = position t c"
  using waiting_run [OF reachable_inv [OF assms(1,2)] assms(2-4)] .

theorem bounded_waiting_witness:
  "''user2'' \<in> set (ring (run_events hex_digest ''bk:'' ''rag'' [sample_event sample_next] two_waiting))
   \<and> position ''user2'' two_waiting = 1
   \<and> length (filter granting (trace_of hex_digest ''bk:'' ''rag'' [sample_event sample_next] two_waiting)) = 1"
proof -
  have step: "\<forall>s\<in>set (trace_of hex_digest ''bk:'' ''rag'' [sample_event sample_next] two_waiting).
      \<not> grants_turn ''user2'' (fst s) (snd s)"
    by (auto simp: one_holding_step grants_turn_def) (simp add: one_holding_def two_waiting_def sample_start_def split: if_splits)
  have pos: "position ''user2'' two_waiting = 1" "position ''user2'' one_holding = 0"
    by (simp_all add: position_def two_waiting_def one_holding_def)
  have waits: "''user2'' \<in> set (ring two_waiting)" by (simp add: two_waiting_def)
  from bounded_waiting [OF two_waiting_facts(1) hex_digest_hex waits step]
  show ?thesis by (simp add: pos one_holding_step split: if_splits)
qed

text \<open>C7: no activation is lost. After a successful activation the tenant stays active, in the
  ring or holding a turn, through any later calls, until it is granted a new turn: a turn taken
  before the activation cannot deactivate it, even when its holder reports an empty queue,
  and neither can a lost reply or the expiry reaper.\<close>

theorem activation_not_lost:
  assumes "reachable H prefix resource c" and "digest_hex H" and "check_ready e w c = OK"
    and "snd (lua_activate e w t c) = [OK]" and "validate_tenant_id t = None"
    and "\<forall>s\<in>set (trace_of H prefix resource evs (fst (lua_activate e w t c))). \<not> grants_turn t (fst s) (snd s)"
  shows "let d = run_events H prefix resource evs (fst (lua_activate e w t c))
    in t \<in> active_users d \<and> (t \<in> set (ring d) \<or> tenant_to_turn d t \<noteq> None)"
proof -
  let ?c = "fst (lua_activate e w t c)"
  note p = reachable_parts [OF assms(1,2)]
  have "ready_inv H prefix resource ?c"
    using lua_activate_inv [OF p(1) assms(3,5)] same_resv_inv [OF turn_scripts_same_resv(1) [OF p(1) assms(3)]]
      turn_scripts_known(1) [OF p(1) assms(3) p(3)] p(2)
    by (simp add: ready_inv_def)
  from woken_run [OF this assms(2) activate_wakes [OF p(1) assms(3,4)] assms(6)]
  have w: "woken t (run_events H prefix resource evs ?c)"
    and i: "turn_inv (run_events H prefix resource evs ?c)" by (simp_all add: ready_inv_def)
  from w turn_invD(3,4) [OF i] show ?thesis by (auto simp: woken_def Let_def)
qed

text \<open>The tenant of the held turn is activated again; then the holder settles the turn without
  work left.\<close>

definition sample_settle :: ready_call where
  "sample_settle = CallRotate (replicate 32 CHR ''1'') 1 False"


definition woken_holder :: coord where
  "woken_holder = one_holding\<lparr> activation_gen := [''u1'' \<mapsto> ''2'', ''user2'' \<mapsto> ''1''] \<rparr>"

lemma woken_holder_step: "lua_activate sample_epoch sample_writer ''u1'' one_holding = (woken_holder, [OK])"
proof -
  have "digits_value ''1'' = 1" by (simp add: digits_value_def)
  then show ?thesis
    using digit_one unfolding lua_activate_ready [OF one_holding_facts(2,3)]
    by (simp add: activations_of_def hincr_def max_int64_def one_holding_def two_waiting_def sample_start_def
        woken_holder_def insert_commute fun_upd_twist numeral_2_eq_2)
qed

lemma woken_holder_facts:
  "turn_inv woken_holder" "check_ready sample_epoch sample_writer woken_holder = OK"
proof -
  show "turn_inv woken_holder"
    using lua_activate_inv [OF one_holding_facts(2,3) sample_names_valid(3)] by (simp add: woken_holder_step)
  show "check_ready sample_epoch sample_writer woken_holder = OK"
    using one_holding_facts(3) keeps_control_ready [of one_holding woken_holder]
    by (simp add: keeps_control_def woken_holder_def)
qed

lemma settle_step:
  "event_state hex_digest ''bk:'' ''rag'' (sample_event sample_settle) woken_holder =
    settle_turn (replicate 32 CHR ''1'') ''u1'' True woken_holder"
proof -
  let ?args = "case valid_runtime_fence ''bk:'' ''rag'' sample_fence of
          Inl e \<Rightarrow> Inl e
        | Inr k \<Rightarrow> check_err (fail_when (validate_turn_token (replicate 32 CHR ''1'') \<noteq> None \<or> (1 :: 64 word) = 0
                      \<or> unat (1 :: 64 word) > max_int64) (wraps ErrInvalidModel)) (Inr k)"
  have args: "?args = Inr (keys_of_root ''bk:fair:{rag}:'')"
    using sample_hexes by (simp add: sample_fence_valid validate_turn_token_def max_int64_def)
  have "event_state hex_digest ''bk:'' ''rag'' (sample_event sample_settle) woken_holder =
    fst (lua_rotate sample_epoch sample_writer (replicate 32 CHR ''1'') (format_uint (unat (1 :: 64 word))) False 1000
      woken_holder)"
    using delivered_state [OF args]
    unfolding event_state_def sample_event_def sample_settle_def ready_call_state_def rotate_or_deactivate_def
      ready_call.case prod.case .
  also have "\<dots> = settle_turn (replicate 32 CHR ''1'') ''u1'' True woken_holder"
    unfolding lua_rotate_ready [OF woken_holder_facts]
    using digit_one by (simp add: woken_holder_def one_holding_def two_waiting_def sample_start_def zscore_def)
  finally show ?thesis .
qed

theorem activation_not_lost_witness:
  "''u1'' \<in> active_users (run_events hex_digest ''bk:'' ''rag'' [sample_event sample_settle]
     (fst (lua_activate sample_epoch sample_writer ''u1'' one_holding)))"
proof -
  have none: "\<forall>s\<in>set (trace_of hex_digest ''bk:'' ''rag'' [sample_event sample_settle]
      (fst (lua_activate sample_epoch sample_writer ''u1'' one_holding))). \<not> grants_turn ''u1'' (fst s) (snd s)"
    by (auto simp: woken_holder_step settle_step grants_turn_def settle_turn_def)
  have ok: "snd (lua_activate sample_epoch sample_writer ''u1'' one_holding) = [OK]" by (simp add: woken_holder_step)
  from activation_not_lost [OF one_holding_facts(1) hex_digest_hex one_holding_facts(3) ok sample_names_valid(3) none]
  show ?thesis by (simp add: Let_def)
qed

lemma expect_ok_Inr: "expect_ok v = Inr u \<longleftrightarrow> v = [OK]"
  by (cases v) (auto simp: expect_ok_def redis_runtime_expect_ok_def redis_runtime_result_error_def check_err_def
      wraps_def split: option.splits)

lemma redis_call_ok:
  assumes "redis_call net args s (\<lambda>_. expect_ok) c = (Inr u, d)"
  shows "net = Delivered \<and> (\<exists>k. args = Inr k \<and> s k c = (d, [OK]))"
  using assms by (cases args; cases net; cases "s (projr args) c")
    (auto simp: redis_call_def run_runtime_script_def expect_ok_Inr)

lemma fenced_ok: "fenced e w body c = (d, OK # r) \<Longrightarrow> check_ready e w c = OK"
  by (auto simp: fenced_def Let_def split: if_splits)

lemma lua_ok_ready:
  "lua_rotate e w tok obs hr now c = (d, [OK]) \<Longrightarrow> check_ready e w c = OK"
  "lua_bind H e w t key prov tok ttl p r now c = (d, [OK]) \<Longrightarrow> check_ready e w c = OK"
  "lua_stable_write H e w t key tok ttl allow p r now c = (d, [OK]) \<Longrightarrow> check_ready e w c = OK"
  "lua_release H e w t key tok kind p r c = (d, [OK]) \<Longrightarrow> check_ready e w c = OK"
  unfolding lua_rotate_def lua_bind_def lua_stable_write_def lua_release_def by (erule fenced_ok)+

lemma keeps_control_turn_scripts:
  "turn_inv c \<Longrightarrow> check_ready e w c = OK \<Longrightarrow> keeps_control c (fst (lua_rotate e w tok obs hr now c))"
  by (auto simp: lua_rotate_ready split: option.split) (simp_all add: keeps_control_def)

text \<open>C8: a turn is settled at most once, and only by its holder in time.
  \<open>RotateOrDeactivate\<close> succeeds only for the turn with the generation its holder observed, before
  the turn expires; it ends the turn, and any later attempt with that token, by whomever and
  with whatever verdict, is refused with a fence mismatch and changes nothing.\<close>

theorem turn_settled_once:
  assumes "reachable H prefix resource c" and "digest_hex H"
    and "rotate_or_deactivate Delivered now prefix resource fence tok obs has_ready c = (Inr (), d)"
  shows "(\<exists>t expiry. turn_to_tenant c tok = Some t \<and> tenant_to_turn c t = Some tok
        \<and> turn_to_generation c tok = Some (format_uint (unat obs))
        \<and> zscore (processing_turns c) tok = Some expiry \<and> now < expiry \<and> tenant_to_turn d t = None)
    \<and> turn_to_tenant d tok = None
    \<and> rotate_or_deactivate Delivered now' prefix resource fence tok obs has_ready' d = (Inl [ErrFenceMismatch], d)"
proof -
  let ?e = "fence_epoch fence" and ?w = "fence_writer fence" and ?g = "format_uint (unat obs)"
  note t = reachable_parts(1) [OF assms(1,2)]
  from redis_call_ok [OF assms(3) [unfolded rotate_or_deactivate_def]]
  obtain k where args: "(case valid_runtime_fence prefix resource fence of
          Inl e \<Rightarrow> Inl e
        | Inr k \<Rightarrow> check_err (fail_when (validate_turn_token tok \<noteq> None \<or> obs = 0
                      \<or> unat obs > max_int64) (wraps ErrInvalidModel)) (Inr k)) = Inr k"
    and run: "lua_rotate ?e ?w tok ?g has_ready now c = (d, [OK])" by blast
  have ready: "check_ready ?e ?w c = OK" by (rule lua_ok_ready(1) [OF run])
  from run obtain u where u: "turn_to_tenant c tok = Some u" "turn_to_generation c tok = Some ?g"
    "now < the (zscore (processing_turns c) tok)"
    "d = settle_turn tok u (has_ready \<or> activation_gen c u \<noteq> Some ?g) c"
    by (auto simp: lua_rotate_ready [OF t ready] split: option.splits if_splits)
  have d: "turn_inv d" "check_ready ?e ?w d = OK" "turn_to_tenant d tok = None" "tenant_to_turn d u = None"
    using settle_turn_inv [OF t u(1)] keeps_control_ready [OF settle_turn_same(2)] ready
    by (simp_all add: u(4) settle_turn_def)
  obtain x where "zscore (processing_turns c) tok = Some x" using turn_invD(9) [OF t, of tok] u(1) by auto
  moreover have "lua_rotate ?e ?w tok ?g has_ready' now' d = (d, [INVALID])"
    by (simp add: lua_rotate_ready [OF d(1,2)] d(3))
  then have "rotate_or_deactivate Delivered now' prefix resource fence tok obs has_ready' d = (Inl [ErrFenceMismatch], d)"
    unfolding rotate_or_deactivate_def redis_call_delivered [OF args] by simp
  ultimately show ?thesis
    using u turn_invD(11) [OF t] d by auto
qed

text \<open>What the fields of the control hash say: it is missing, or all its fields are well formed and it is in a state; and the
  resource is READY under a fence.\<close>

definition control_missing :: "coord \<Rightarrow> bool" where
  "control_missing c \<longleftrightarrow> KControl \<notin> wrong_type c \<and> control c = []"

definition control_says :: "string \<Rightarrow> coord \<Rightarrow> bool" where
  "control_says s c \<longleftrightarrow> KControl \<notin> wrong_type c \<and> map_of (control c) ''state'' = Some s \<and>
     (\<exists>kind operation epoch version writer last last_kind.
       map_of (control c) ''operation_kind'' = Some kind \<and> map_of (control c) ''operation_id'' = Some operation \<and>
       map_of (control c) ''epoch'' = Some epoch \<and> map_of (control c) ''protocol_version'' = Some version \<and>
       map_of (control c) ''writer_fingerprint'' = Some writer \<and> map_of (control c) ''last_completed_operation_id'' = Some last \<and>
       map_of (control c) ''last_completed_operation_kind'' = Some last_kind \<and>
       lower_hex 32 epoch \<and> positive_int64 version \<and> lower_hex 64 writer \<and>
       (last = [] \<and> last_kind = ''NONE'' \<or> last \<noteq> [] \<and> lower_hex 32 last \<and> special_kind last_kind) \<and>
       (s = ''READY'' \<and> kind = ''NONE'' \<and> operation = [] \<or>
        s = ''RECOVERING'' \<and> kind = ''NORMAL'' \<and> operation = [] \<or>
        s = ''RECOVERING'' \<and> special_kind kind \<and> lower_hex 32 operation))"

definition progress_left :: "coord \<Rightarrow> bool" where
  "progress_left c \<longleftrightarrow> progress c \<noteq> [] \<or> KProgress \<in> wrong_type c"

definition ready_under :: "resource_fence \<Rightarrow> coord \<Rightarrow> bool" where
  "ready_under fence c \<longleftrightarrow> control_says ''READY'' c \<and> \<not> progress_left c \<and> map_of (control c) ''protocol_version'' = Some ''1''
     \<and> map_of (control c) ''epoch'' = Some (fence_epoch fence) \<and> map_of (control c) ''writer_fingerprint'' = Some (fence_writer fence)"

lemma normal_not_special: "\<not> special_kind ''NORMAL''"
  by (simp add: special_kind_def)

lemma canonical_some: "canonical_control xs \<Longrightarrow> None \<notin> set xs"
  by (cases xs rule: canonical_control.cases) simp_all

lemma canonical_says:
  assumes "KControl \<notin> wrong_type c"
  shows "canonical_control (hmget (control c) control_fields) \<longleftrightarrow> control_says ''READY'' c \<or> control_says ''RECOVERING'' c"
proof -
  let ?m = "map_of (control c)"
  have fields: "hmget (control c) control_fields = [?m ''state'', ?m ''operation_kind'', ?m ''operation_id'', ?m ''epoch'',
     ?m ''protocol_version'', ?m ''writer_fingerprint'', ?m ''last_completed_operation_id'', ?m ''last_completed_operation_kind'']"
    by (simp add: hmget_def control_fields_def)
  show ?thesis
  proof (cases "None \<in> set (hmget (control c) control_fields)")
    case True
    have "\<not> canonical_control (hmget (control c) control_fields)"
      using True canonical_some by blast
    moreover have "\<not> control_says s c" for s using True unfolding fields control_says_def by auto
    ultimately show ?thesis by blast
  next
    case False
    then obtain v1 v2 v3 v4 v5 v6 v7 v8 where v: "?m ''state'' = Some v1" "?m ''operation_kind'' = Some v2" "?m ''operation_id'' = Some v3"
      "?m ''epoch'' = Some v4" "?m ''protocol_version'' = Some v5" "?m ''writer_fingerprint'' = Some v6"
      "?m ''last_completed_operation_id'' = Some v7" "?m ''last_completed_operation_kind'' = Some v8"
      unfolding fields by (simp add: eq_commute [of None]) blast
    have "control_says s c \<longleftrightarrow> s = v1 \<and> lower_hex 32 v4 \<and> positive_int64 v5 \<and> lower_hex 64 v6 \<and>
       (v7 = [] \<and> v8 = ''NONE'' \<or> v7 \<noteq> [] \<and> lower_hex 32 v7 \<and> special_kind v8) \<and>
       (s = ''READY'' \<and> v2 = ''NONE'' \<and> v3 = [] \<or> s = ''RECOVERING'' \<and> v2 = ''NORMAL'' \<and> v3 = [] \<or>
        s = ''RECOVERING'' \<and> special_kind v2 \<and> lower_hex 32 v3)" for s
      unfolding control_says_def v using assms by (simp only: option.inject ex_simps simp_thms not_False_eq_True) blast
    then show ?thesis unfolding fields v canonical_control.simps using normal_not_special by (cases "v1 = ''READY''") auto
  qed
qed

lemma check_ready_says:
  "check_ready (fence_epoch fence) (fence_writer fence) c =
     (if control_missing c \<or> control_says ''RECOVERING'' c then NOT_READY
      else if control_says ''READY'' c \<and> \<not> progress_left c then (if ready_under fence c then OK else FENCE) else CORRUPT)"
proof -
  let ?v = "hmget (control c) control_fields"
  have state: "?v ! 0 = Some s" if "control_says s c" for s using that by (simp add: control_says_def hmget_def control_fields_def)
  have missing: "\<not> control_says s c" if "control_missing c" for s using that by (auto simp: control_says_def control_missing_def)
  show ?thesis
  proof (cases "KControl \<in> wrong_type c \<or> control c = []")
    case True
    then show ?thesis by (auto simp: check_ready_def read_control_def control_missing_def control_says_def)
  next
    case present: False
    show ?thesis
    proof (cases "control_says ''READY'' c")
      case True
      have fields: "?v ! 4 = map_of (control c) ''protocol_version''" "?v ! 3 = map_of (control c) ''epoch''"
        "?v ! 5 = map_of (control c) ''writer_fingerprint''" "length ?v = 8" by (simp_all add: hmget_def control_fields_def)
      have set: "map_of (control c) ''protocol_version'' \<noteq> None" "map_of (control c) ''epoch'' \<noteq> None" "map_of (control c) ''writer_fingerprint'' \<noteq> None"
        using True by (auto simp: control_says_def)
      have "\<not> control_says ''RECOVERING'' c" using True by (simp add: control_says_def)
      then show ?thesis
        using present True canonical_says [of c] state [OF True] fields set
        by (auto simp: check_ready_def read_control_def control_missing_def progress_left_def ready_under_def)
    next
      case False
      then show ?thesis
        using present canonical_says [of c] state [of "''RECOVERING''"]
        by (cases "control_says ''RECOVERING'' c") (auto simp: check_ready_def read_control_def control_missing_def)
    qed
  qed
qed

text \<open>C9: the fence protects the whole state. When the resource is not READY under the fence a
  caller presents, no READY operation changes anything, whatever its other arguments; and a delivered check of the fence and a
  delivered activation with valid arguments fail with the error of the check that failed: \<open>ErrResourceNotReady\<close> when the control hash
  is missing or says that the resource is recovering, \<open>ErrFenceMismatch\<close> when it says READY, without a trace of a recovery, for
  another epoch, writer or protocol, and \<open>ErrCoordinationCorrupt\<close> when it is not well formed or progress is left beside READY.\<close>

theorem fence_blocks_everything:
  assumes "digest_hex H" and "\<not> ready_under fence c"
  shows "ready_call_state H prefix resource fence net now call c = c
    \<and> (valid_runtime_tenant prefix resource fence t = Inr k \<longrightarrow>
        (\<exists>e. fst (ensure_runtime_active Delivered prefix resource fence t c) = Inl [e]
          \<and> fst (check_ready_fence Delivered prefix resource fence c) = Inl [e]
          \<and> e = (if control_missing c \<or> control_says ''RECOVERING'' c then ErrResourceNotReady
                 else if control_says ''READY'' c \<and> \<not> progress_left c then ErrFenceMismatch
                 else ErrCoordinationCorrupt)))"
proof -
  let ?r = "check_ready (fence_epoch fence) (fence_writer fence) c"
  have blocked: "?r \<noteq> OK" using assms(2) by (simp add: check_ready_says)
  have "ready_call_state H prefix resource fence net now call c = c"
    using ready_call_cases [OF assms(1), of prefix resource fence net now call c] ready_script_not_ready [OF _ blocked]
    by auto
  moreover have "fst (ensure_runtime_active Delivered prefix resource fence t c) = expect_ok [?r]"
    "fst (check_ready_fence Delivered prefix resource fence c) = expect_ok [?r]" if v: "valid_runtime_tenant prefix resource fence t = Inr k"
    using blocked valid_runtime_tenant_Inr [OF v]
    by (simp_all add: ensure_runtime_active_def redis_call_delivered [OF v] lua_activate_def fenced_not_ready
        check_ready_fence_def redis_call_delivered [of _ k] lua_check_ready_def)
  ultimately show ?thesis using assms(2) by (simp add: check_ready_says)
qed

theorem fence_blocks_everything_witness:
  "ready_call_state hex_digest ''bk:'' ''rag'' (sample_fence\<lparr> fence_epoch := replicate 32 CHR ''f'' \<rparr>) Delivered 0
     (CallActivate ''u1'') two_waiting = two_waiting
   \<and> fst (check_ready_fence Delivered ''bk:'' ''rag'' (sample_fence\<lparr> fence_epoch := replicate 32 CHR ''f'' \<rparr>) two_waiting)
       = Inl [ErrFenceMismatch]"
proof -
  let ?fence = "sample_fence\<lparr> fence_epoch := replicate 32 CHR ''f'' \<rparr>"
  have epoch: "map_of (control two_waiting) ''epoch'' = Some (replicate 32 CHR ''0'')"
    by (simp add: two_waiting_def sample_start_def sample_control_def)
  have other: "\<not> ready_under ?fence two_waiting" by (simp add: ready_under_def epoch)
  have "ready_under sample_fence two_waiting"
    using two_waiting_facts(3) check_ready_says [of sample_fence two_waiting] by (simp add: sample_fence_def split: if_splits)
  then have says: "control_says ''READY'' two_waiting" "\<not> progress_left two_waiting" by (simp_all add: ready_under_def)
  then have "\<not> control_missing two_waiting" "\<not> control_says ''RECOVERING'' two_waiting"
    by (auto simp: control_says_def control_missing_def)
  moreover have "valid_runtime_tenant ''bk:'' ''rag'' ?fence ''u1'' = Inr (keys_of_root ''bk:fair:{rag}:'')"
  proof -
    have "lower_hex 32 (replicate 32 CHR ''f'')" by (simp add: lower_hex_def is_lower_hex_char_def list_all_iff)
    then have "valid_runtime_fence ''bk:'' ''rag'' ?fence = Inr (keys_of_root ''bk:fair:{rag}:'')"
      using sample_hexes by (simp add: valid_runtime_fence_def sample_keyspaces validate_fence_def sample_fence_def)
    then show ?thesis by (simp add: valid_runtime_tenant_def sample_names_valid)
  qed
  ultimately show ?thesis
    using fence_blocks_everything [OF hex_digest_hex other, of "''bk:''" "''rag''" Delivered 0 "CallActivate ''u1''"] says by simp
qed

lemma sample_rotate_args:
  "(case valid_runtime_fence ''bk:'' ''rag'' sample_fence of
          Inl e \<Rightarrow> Inl e
        | Inr k \<Rightarrow> check_err (fail_when (validate_turn_token (replicate 32 CHR ''1'') \<noteq> None \<or> (1 :: 64 word) = 0
                      \<or> unat (1 :: 64 word) > max_int64) (wraps ErrInvalidModel)) (Inr k))
    = Inr (keys_of_root ''bk:fair:{rag}:'')"
  using sample_hexes by (simp add: sample_fence_valid validate_turn_token_def max_int64_def)

lemma sample_rotate:
  "rotate_or_deactivate Delivered 1000 ''bk:'' ''rag'' sample_fence (replicate 32 CHR ''1'') 1 True one_holding
    = (Inr (), settle_turn (replicate 32 CHR ''1'') ''u1'' True one_holding)"
  unfolding rotate_or_deactivate_def redis_call_delivered [OF sample_rotate_args]
    lua_rotate_ready [OF one_holding_facts(2,3)]
  using digit_one by (simp add: one_holding_def two_waiting_def sample_start_def zscore_def)

theorem turn_settled_once_witness:
  "fst (rotate_or_deactivate Delivered 2000 ''bk:'' ''rag'' sample_fence (replicate 32 CHR ''1'') 1 False
     (settle_turn (replicate 32 CHR ''1'') ''u1'' True one_holding)) = Inl [ErrFenceMismatch]"
  using turn_settled_once [OF one_holding_facts(1) hex_digest_hex sample_rotate, of 2000 False] by simp

subsection \<open>Properties of reservations\<close>

definition acquire_args_ok ::
  "(string \<Rightarrow> string) \<Rightarrow> string \<Rightarrow> string \<Rightarrow> resource_fence \<Rightarrow> string \<Rightarrow> string \<Rightarrow> capacity_limits \<Rightarrow> int
   \<Rightarrow> string \<Rightarrow> int \<Rightarrow> bool" where
  "acquire_args_ok H prefix resource fence tenant attempt limits ttl key ms \<longleftrightarrow>
     (\<exists>k. valid_runtime_reservation H prefix resource fence tenant = Inr (k, key))
     \<and> lower_hex 32 attempt \<and> validate_limits limits = None
     \<and> global_concurrency limits \<le> max_recovery_page_limit \<and> redis_runtime_ttl_ms ttl = Inr ms"

text \<open>C10: the acquire script takes the decision of the Go policy. For an active tenant, with an attempt
  id not in use, \<open>AcquireProvisional\<close> returns what \<open>DecideReservation\<close> says on the numbers of
  unexpired reservations of the resource and of the tenant and on the number of active
  tenants; a grant adds exactly one unexpired reservation, so neither the global limit nor the
  tenant's burst limit is ever exceeded; and a denial takes no capacity.\<close>

theorem acquire_follows_policy:
  assumes "reachable H prefix resource c" and "digest_hex H"
    and "check_ready (fence_epoch fence) (fence_writer fence) c = OK" and "tenant \<in> active_users c"
    and "acquire_args_ok H prefix resource fence tenant attempt limits ttl key ms"
    and "int (zcard (global_inflight c)) \<le> max_recovery_page_limit"
    and "reservation_entry H (tenant_prefix_of prefix resource) resource c (''p:'' @ attempt) = None"
  shows "\<exists>d c'. acquire_provisional H Delivered now prefix resource fence tenant attempt limits ttl c = (Inr d, c')
    \<and> decide_reservation limits \<lparr> global_count = int (live_count now (global_inflight c)),
         tenant_count = int (live_count now (tenant_inflight c key)),
         active_tenants = int (card (active_users c)) \<rparr> = Inr d
    \<and> live_count now (global_inflight c') = live_count now (global_inflight c) + (if granted d then 1 else 0)
    \<and> live_count now (tenant_inflight c' key) = live_count now (tenant_inflight c key) + (if granted d then 1 else 0)
    \<and> (granted d \<longrightarrow> int (live_count now (global_inflight c')) \<le> global_concurrency limits
        \<and> int (live_count now (tenant_inflight c' key)) \<le> per_user_burst limits
        \<and> zscore (global_inflight c') (''p:'' @ attempt) = Some (now + ms))"
proof -
  let ?e = "fence_epoch fence" and ?w = "fence_writer fence" and ?p = "tenant_prefix_of prefix resource"
  let ?tok = "''p:'' @ attempt"
  note p = reachable_parts [OF assms(1,2)]
  obtain k where v: "valid_runtime_reservation H prefix resource fence tenant = Inr (k, key)"
    and a: "lower_hex 32 attempt" and l: "validate_limits limits = None"
    and g: "global_concurrency limits \<le> max_recovery_page_limit" and ms: "redis_runtime_ttl_ms ttl = Inr ms"
    using assms(5) by (auto simp: acquire_args_ok_def)
  note f = valid_runtime_reservation_Inr [OF v assms(2)]
  have kp: "tenant_key_prefix k = ?p" and call: "call_ok H ?p resource tenant key" using f by blast+
  have args: "(case valid_runtime_reservation H prefix resource fence tenant of
          Inl e \<Rightarrow> Inl e
        | Inr (k, tk) \<Rightarrow>
            check_err (fail_when (\<not> lower_hex 32 attempt) (wraps ErrInvalidModel))
              (check_err (as_sentinel ErrInvalidModel (validate_limits limits))
                (check_err (fail_when (global_concurrency limits > max_recovery_page_limit) (wraps ErrInvalidModel))
                  (case redis_runtime_ttl_ms ttl of Inl e \<Rightarrow> Inl e | Inr ms \<Rightarrow> Inr (k, tk, ms)))))
      = Inr (k, key, ms)"
    using v a l g ms by simp
  have room: "zcard (global_inflight c) \<le> nat max_recovery_page_limit" using assms(6) by simp
  let ?run = "lua_acquire H ?e ?w tenant key ?tok ms limits ?p resource redis_runtime_reservation_cleanup_batch
      (nat max_recovery_page_limit) now c"
  from acquire_decides [OF p assms(3,4) token_kind_attempt [OF a] call room assms(7) l redis_ttl_positive [OF ms]]
  obtain d where d: "decide_reservation limits \<lparr> global_count = int (live_count now (global_inflight c)),
        tenant_count = int (live_count now (tenant_inflight c key)), active_tenants = int (card (active_users c)) \<rparr> = Inr d"
    and reply: "snd ?run = [decision_code d]"
    and counts: "live_count now (global_inflight (fst ?run)) = live_count now (global_inflight c) + (if granted d then 1 else 0)"
      "live_count now (tenant_inflight (fst ?run) key) = live_count now (tenant_inflight c key) + (if granted d then 1 else 0)"
    and score: "granted d \<Longrightarrow> zscore (global_inflight (fst ?run)) ?tok = Some (now + ms)"
    by (fastforce simp: Let_def split: if_splits)
  have "acquire_provisional H Delivered now prefix resource fence tenant attempt limits ttl c = (Inr d, fst ?run)"
    unfolding acquire_provisional_def redis_call_delivered [OF args] prod.case kp reply by simp
  moreover have "granted d \<Longrightarrow> int (live_count now (global_inflight c)) < global_concurrency limits
      \<and> int (live_count now (tenant_inflight c key)) < per_user_burst limits"
    using d by (auto simp: decide_reservation_def granted_def split: if_splits)
  ultimately show ?thesis using d counts score by auto
qed

definition sample_limits :: capacity_limits where
  "sample_limits = \<lparr> global_concurrency = 2, per_user_base = 1, per_user_burst = 2, borrow_enabled = True \<rparr>"

definition sample_key :: string where
  "sample_key = ''bk:fair:{rag}:inflight:tenant:'' @ hex_digest ''123456''"

lemma sample_reservation_args:
  "valid_runtime_reservation hex_digest ''bk:'' ''rag'' sample_fence ''u1'' =
     Inr (keys_of_root ''bk:fair:{rag}:'', sample_key)"
  by (simp only: valid_runtime_reservation_def sample_tenants_valid sample_tenant_keys sum.case sample_key_def)

lemma sample_acquire_args:
  "acquire_args_ok hex_digest ''bk:'' ''rag'' sample_fence ''u1'' (replicate 32 CHR ''1'') sample_limits 30000000000
     sample_key 30000"
  using sample_hexes by (simp add: acquire_args_ok_def sample_reservation_args sample_limits_def validate_limits_def
      max_recovery_page_limit_def max_recovery_page_size_def sample_ttl)

lemma one_holding_resv:
  "global_inflight one_holding = []" "reservation_meta one_holding = []" "wrong_type one_holding = {}"
  "active_users one_holding = {''u1'', ''user2''}" "tenant_inflight one_holding k = []"
  by (simp_all add: one_holding_def two_waiting_def sample_start_def)

theorem acquire_follows_policy_witness:
  "\<exists>d c'. acquire_provisional hex_digest Delivered 1000 ''bk:'' ''rag'' sample_fence ''u1'' (replicate 32 CHR ''1'')
     sample_limits 30000000000 one_holding = (Inr d, c')"
proof -
  have none: "reservation_entry hex_digest (tenant_prefix_of ''bk:'' ''rag'') ''rag'' one_holding
      (''p:'' @ replicate 32 CHR ''1'') = None"
    using entry_global(2) [OF reachable_parts(2) [OF one_holding_facts(1) hex_digest_hex]] one_holding_resv(2)
    by (simp add: hget_def)
  have u1: "''u1'' \<in> active_users one_holding" by (simp add: one_holding_resv)
  have room: "int (zcard (global_inflight one_holding)) \<le> max_recovery_page_limit"
    by (simp add: one_holding_resv zcard_def max_recovery_page_limit_def max_recovery_page_size_def)
  from acquire_follows_policy [OF one_holding_facts(1) hex_digest_hex one_holding_facts(3) u1
      sample_acquire_args room none, of 1000]
  show ?thesis by blast
qed

lemma live_count_move:
  assumes "zwf z" and "zscore z p = Some s" and "s > now" and "zscore z t = None" and "x > now"
  shows "live_count now (zadd x t (zrem p z)) = live_count now z"
proof -
  let ?L = "{k. \<exists>y. zscore z k = Some y \<and> y > now}"
  have "?L \<subseteq> {k. \<exists>y. zscore z k = Some y}" by blast
  then have fin: "finite ?L" by (rule finite_subset) simp
  have "{k. \<exists>y. zscore (zadd x t (zrem p z)) k = Some y \<and> y > now} = insert t (?L - {p})"
    using assms(5) by (auto split: if_splits)
  moreover have "card (insert t (?L - {p})) = card ?L"
  proof -
    have "p \<in> ?L" "t \<notin> ?L" using assms(2-4) by simp_all
    with fin show ?thesis by (metis (no_types, lifting) DiffD1 card.remove card_insert_disjoint finite_Diff)
  qed
  ultimately show ?thesis using assms(1) by (simp only: live_count_card zwf_zadd zwf_zrem)
qed

lemma bind_ok_cases:
  assumes inv: "resv_inv H p resource c" and ready: "check_ready e w c = OK"
    and kinds: "token_kind prov = Some kindP" "token_kind tok = Some kindS"
    and key: "call_ok H p resource tenant key"
    and ok: "lua_bind H e w tenant key prov tok ttl p resource now c = (d, [OK])"
  shows "(d = c \<and> reservation_entry H p resource c prov = None
      \<and> (\<exists>m. reservation_entry H p resource c tok = Some (kindS, m) \<and> owned_by m tenant key)
      \<and> now < the (zscore (global_inflight c) tok))
    \<or> (d = add_stable (now + ttl) tok tenant key (drop_reservation kindP key prov c)
      \<and> reservation_entry H p resource c tok = None
      \<and> (\<exists>m. reservation_entry H p resource c prov = Some (kindP, m) \<and> owned_by m tenant key)
      \<and> now < the (zscore (global_inflight c) prov))"
proof -
  note wt = resv_invD(1) [OF inv]
  have kP: "k = kindP" if "reservation_entry H p resource c prov = Some (k, m)" for k m
    using entry_facts(1) [OF wt that] kinds by simp
  have kS: "k = kindS" if "reservation_entry H p resource c tok = Some (k, m)" for k m
    using entry_facts(1) [OF wt that] kinds by simp
  show ?thesis
    using ok kP kS unfolding lua_bind_ready [OF inv ready kinds key] Let_def owned_by_def
    by (auto split: option.splits if_splits)
qed

text \<open>C11: binding turns the provisional reservation of an attempt into the stable reservation of its
  claim without ever holding two or none. After a successful \<open>BindReservation\<close> the provisional
  entry is gone, the stable one belongs to the tenant and is unexpired, the number of
  unexpired reservations of the resource and of the tenant is what it was, no other
  reservation is touched, and repeating the call (after a lost reply) succeeds and changes nothing.\<close>

theorem bind_moves_reservation:
  assumes "reachable H prefix resource c" and "digest_hex H"
    and "bind_reservation H Delivered now prefix resource fence tenant attempt tok ttl c = (Inr (), d)"
  defines "entry \<equiv> reservation_entry H (tenant_prefix_of prefix resource) resource"
  shows "entry d (''p:'' @ attempt) = None
    \<and> (\<exists>m. entry d tok = Some (kindS, m) \<and> meta_tenant m = tenant
        \<and> live_count now (tenant_inflight d (meta_tenant_key m)) = live_count now (tenant_inflight c (meta_tenant_key m)))
    \<and> live_count now (global_inflight d) = live_count now (global_inflight c)
    \<and> (\<forall>t. t \<noteq> tok \<and> t \<noteq> ''p:'' @ attempt \<longrightarrow> entry d t = entry c t)
    \<and> now < the (zscore (global_inflight d) tok)
    \<and> (now' < the (zscore (global_inflight d) tok) \<longrightarrow>
        bind_reservation H Delivered now' prefix resource fence tenant attempt tok ttl d = (Inr (), d))"
proof -
  let ?e = "fence_epoch fence" and ?w = "fence_writer fence" and ?p = "tenant_prefix_of prefix resource"
  let ?prov = "''p:'' @ attempt"
  let ?args = "case valid_runtime_reservation H prefix resource fence tenant of
          Inl e \<Rightarrow> Inl e
        | Inr (k, tk) \<Rightarrow>
            check_err (fail_when (\<not> lower_hex 32 attempt \<or> \<not> stable_reservation_pattern tok)
                (wraps ErrInvalidModel))
              (case redis_runtime_ttl_ms ttl of Inl e \<Rightarrow> Inl e | Inr ms \<Rightarrow> Inr (k, tk, ms))"
  note p = reachable_parts [OF assms(1,2)]
  from redis_call_ok [OF assms(3) [unfolded bind_reservation_def]]
  obtain k key ms where args: "?args = Inr (k, key, ms)"
    and run: "lua_bind H ?e ?w tenant key ?prov tok ms (tenant_key_prefix k) resource now c = (d, [OK])" by auto
  have v: "valid_runtime_reservation H prefix resource fence tenant = Inr (k, key)" "lower_hex 32 attempt"
    "stable_reservation_pattern tok" "redis_runtime_ttl_ms ttl = Inr ms"
    using args by (auto split: sum.splits)
  note f = valid_runtime_reservation_Inr [OF v(1) assms(2)]
  have kp: "tenant_key_prefix k = ?p" and call: "call_ok H ?p resource tenant key" using f by blast+
  note kinds = token_kind_attempt [OF v(2)] token_kind_stable [OF v(3)]
  have ne: "tok \<noteq> ?prov" using kinds by auto
  have ready: "check_ready ?e ?w c = OK" by (rule lua_ok_ready(2) [OF run])
  note run = run [unfolded kp]
  have d: "resv_inv H ?p resource d \<and> same_turns c d" using lua_bind_inv [OF p(2) ready kinds call] run by (metis fst_conv)
  have dready: "check_ready ?e ?w d = OK" using d same_turns_control keeps_control_ready ready by metis
  have again: "bind_reservation H Delivered now' prefix resource fence tenant attempt tok ttl d = (Inr (), d)"
    if "entry d ?prov = None" "entry d tok = Some (kindS, m)" "owned_by m tenant key"
      "now' < the (zscore (global_inflight d) tok)" for m
  proof -
    have "lua_bind H ?e ?w tenant key ?prov tok ms ?p resource now' d = (d, [OK])"
      using that unfolding lua_bind_ready [OF conjunct1 [OF d] dready kinds call] Let_def owned_by_def entry_def by simp
    then show ?thesis unfolding bind_reservation_def redis_call_delivered [OF args] by (simp add: kp)
  qed
  from bind_ok_cases [OF p(2) ready kinds call run] show ?thesis
  proof (elim disjE conjE exE)
    fix m assume "d = c" "reservation_entry H ?p resource c ?prov = None"
      "reservation_entry H ?p resource c tok = Some (kindS, m)" "owned_by m tenant key"
      "now < the (zscore (global_inflight c) tok)"
    then show ?thesis using again unfolding entry_def by (auto simp: owned_by_def)
  next
    fix m assume a: "d = add_stable (now + ms) tok tenant key (drop_reservation kindP key ?prov c)"
      "reservation_entry H ?p resource c tok = None"
      "reservation_entry H ?p resource c ?prov = Some (kindP, m)" "owned_by m tenant key"
      "now < the (zscore (global_inflight c) ?prov)"
    note wt = resv_invD [OF p(2)]
    let ?mid = "drop_reservation kindP key ?prov c"
    have mid: "resv_inv H ?p resource ?mid" using drop_reservation_inv [OF p(2) a(3)] a(4) by (simp add: owned_by_def)
    have midn: "zscore (provisional ?mid) tok = None" using no_entry(2) [OF p(2) a(2)] ne by simp
    note e = entry_facts [OF wt(1) a(3)]
    note n = no_entry [OF p(2) a(2)]
    obtain s where s: "zscore (global_inflight c) ?prov = Some s" "now < s" using e(3) a(5) by auto
    have pos: "now < now + ms" using redis_ttl_positive [OF v(4)] by simp
    have stok: "reservation_entry H ?p resource d tok = Some (kindS, \<lparr> meta_tenant = tenant, meta_tenant_key = key, meta_decision = None \<rparr>)"
      unfolding a(1) using add_stable_entry [OF mid midn kinds(2)] call by (simp add: call_ok_def)
    have sprov: "reservation_entry H ?p resource d ?prov = None"
    proof -
      have "hget (reservation_meta d) ?prov = None" using ne by (simp add: a(1))
      then show ?thesis using entry_global(2) [OF conjunct1 [OF d]] by simp
    qed
    have other: "t \<noteq> tok \<and> t \<noteq> ?prov \<Longrightarrow> reservation_entry H ?p resource d t = reservation_entry H ?p resource c t" for t
      unfolding a(1) using entry_of_other(3) [of ?mid] entry_of_other(1) [OF wt(1)] resv_invD(1) [OF mid] by simp
    have lg: "live_count now (global_inflight d) = live_count now (global_inflight c)"
      unfolding a(1) using live_count_move [OF wt(2) s n(1) pos] by simp
    have lt: "live_count now (tenant_inflight d key) = live_count now (tenant_inflight c key)"
      unfolding a(1) using live_count_move [OF wt(5) _ s(2) n(4) pos, of key ?prov] e(4) s(1) a(4)
      by (simp add: owned_by_def)
    have exp: "the (zscore (global_inflight d) tok) = now + ms" by (simp add: a(1))
    show ?thesis
      using stok sprov other lg lt exp pos again unfolding entry_def by (auto simp: owned_by_def)
  qed
qed

text \<open>The sample tenant with a provisional reservation.\<close>

abbreviation sample_attempt :: string where "sample_attempt \<equiv> replicate 32 CHR ''1''"
abbreviation sample_prov :: string where "sample_prov \<equiv> ''p:'' @ sample_attempt"
abbreviation sample_stable :: string where "sample_stable \<equiv> ''r:'' @ replicate 64 CHR ''b''"
abbreviation sample_prefix :: string where "sample_prefix \<equiv> tenant_prefix_of ''bk:'' ''rag''"

definition with_provisional :: coord where
  "with_provisional = add_provisional 31000 sample_prov ''u1'' sample_key ''regular'' one_holding"

lemma sample_prefix_of: "tenant_key_prefix (keys_of_root ''bk:fair:{rag}:'') = sample_prefix"
  using valid_runtime_fence_Inr [OF sample_fence_valid] by blast

lemma sample_call_ok: "call_ok hex_digest sample_prefix ''rag'' ''u1'' sample_key"
  using valid_runtime_reservation_Inr [OF sample_reservation_args hex_digest_hex] by blast

lemma one_holding_none: "reservation_entry hex_digest sample_prefix ''rag'' one_holding tok = None"
  using entry_global(2) [OF reachable_parts(2) [OF one_holding_facts(1) hex_digest_hex]] one_holding_resv(2)
  by (simp add: hget_def)

lemma with_provisional_step:
  "event_state hex_digest ''bk:'' ''rag'' (sample_event (CallAcquire ''u1'' sample_attempt sample_limits 30000000000)) one_holding
     = with_provisional"
proof -
  note p = reachable_parts [OF one_holding_facts(1) hex_digest_hex]
  let ?run = "lua_acquire hex_digest sample_epoch sample_writer ''u1'' sample_key sample_prov 30000 sample_limits
      sample_prefix ''rag'' redis_runtime_reservation_cleanup_batch (nat max_recovery_page_limit) 1000 one_holding"
  have args: "(case valid_runtime_reservation hex_digest ''bk:'' ''rag'' sample_fence ''u1'' of
          Inl e \<Rightarrow> Inl e
        | Inr (k, tk) \<Rightarrow>
            check_err (fail_when (\<not> lower_hex 32 sample_attempt) (wraps ErrInvalidModel))
              (check_err (as_sentinel ErrInvalidModel (validate_limits sample_limits))
                (check_err (fail_when (global_concurrency sample_limits > max_recovery_page_limit) (wraps ErrInvalidModel))
                  (case redis_runtime_ttl_ms 30000000000 of Inl e \<Rightarrow> Inl e | Inr ms \<Rightarrow> Inr (k, tk, ms)))))
      = Inr (keys_of_root ''bk:fair:{rag}:'', sample_key, 30000)"
    using sample_acquire_args by (auto simp: acquire_args_ok_def sample_reservation_args sample_ttl)
  have "event_state hex_digest ''bk:'' ''rag'' (sample_event (CallAcquire ''u1'' sample_attempt sample_limits 30000000000)) one_holding
      = fst ?run"
    unfolding event_state_def sample_event_def ready_call_state_def acquire_provisional_def ready_call.case prod.case
    by (subst delivered_state [OF args]) (simp only: prod.case sample_prefix_of)
  also have "\<dots> = with_provisional"
  proof -
    have swept: "swept hex_digest sample_prefix ''rag'' b 1000 one_holding = one_holding" for b
      by (simp add: swept_def one_holding_resv zexpired_def zmembers_def)
    have dec: "lua_decide sample_limits 0 0 n = ''regular''" for n
      by (simp add: lua_decide_def sample_limits_def)
    have u1: "''u1'' \<in> active_users one_holding" "''u1'' \<in> known_users one_holding"
      by (simp_all add: one_holding_def two_waiting_def)
    have room: "zcard (global_inflight one_holding) \<le> nat max_recovery_page_limit"
      by (simp add: one_holding_resv zcard_def)
    show ?thesis
      unfolding lua_acquire_ready [OF p(2) one_holding_facts(3) u1 finite_active [OF p(1,3)]
        token_kind_attempt [OF sample_hexes(3)] room] Let_def swept one_holding_none
      by (simp add: one_holding_resv live_count_def dec with_provisional_def)
  qed
  finally show ?thesis .
qed

lemma with_provisional_facts:
  "reachable hex_digest ''bk:'' ''rag'' with_provisional"
  "check_ready sample_epoch sample_writer with_provisional = OK"
  "reservation_entry hex_digest sample_prefix ''rag'' with_provisional sample_prov =
     Some (kindP, \<lparr> meta_tenant = ''u1'', meta_tenant_key = sample_key, meta_decision = Some ''regular'' \<rparr>)"
  "reservation_entry hex_digest sample_prefix ''rag'' with_provisional sample_stable = None"
  "zscore (global_inflight with_provisional) sample_prov = Some 31000"
proof -
  note p = reachable_parts [OF one_holding_facts(1) hex_digest_hex]
  show "reachable hex_digest ''bk:'' ''rag'' with_provisional"
    using reachable_call [OF one_holding_facts(1), of sample_fence Delivered 1000
        "CallAcquire ''u1'' sample_attempt sample_limits 30000000000"] with_provisional_step
    by (simp add: event_state_def sample_event_def)
  have "same_turns one_holding with_provisional" by (simp add: with_provisional_def del: append.simps)
  then show "check_ready sample_epoch sample_writer with_provisional = OK"
    using keeps_control_ready same_turns_control one_holding_facts(3) by metis
  have m: "hget (reservation_meta one_holding) t = None" for t by (simp add: one_holding_resv hget_def)
  show "reservation_entry hex_digest sample_prefix ''rag'' with_provisional sample_prov =
     Some (kindP, \<lparr> meta_tenant = ''u1'', meta_tenant_key = sample_key, meta_decision = Some ''regular'' \<rparr>)"
    unfolding with_provisional_def
    using add_provisional_entry [OF p(2) m token_kind_attempt [OF sample_hexes(3)]] sample_call_ok
    by (simp add: call_ok_def del: append.simps)
  have ne: "sample_stable \<noteq> sample_prov" by simp
  show "reservation_entry hex_digest sample_prefix ''rag'' with_provisional sample_stable = None"
    unfolding with_provisional_def using entry_of_other(2) [OF one_holding_resv(3) ne] one_holding_none
    by (simp del: append.simps)
  show "zscore (global_inflight with_provisional) sample_prov = Some 31000"
    by (simp add: with_provisional_def del: append.simps)
qed

lemma sample_stable_pattern: "stable_reservation_pattern sample_stable"
  using sample_hexes by (simp add: stable_reservation_pattern_def)

lemma sample_bind_args:
  "(case valid_runtime_reservation hex_digest ''bk:'' ''rag'' sample_fence ''u1'' of
          Inl e \<Rightarrow> Inl e
        | Inr (k, tk) \<Rightarrow>
            check_err (fail_when (\<not> lower_hex 32 sample_attempt \<or> \<not> stable_reservation_pattern sample_stable)
                (wraps ErrInvalidModel))
              (case redis_runtime_ttl_ms 30000000000 of Inl e \<Rightarrow> Inl e | Inr ms \<Rightarrow> Inr (k, tk, ms)))
    = Inr (keys_of_root ''bk:fair:{rag}:'', sample_key, 30000)"
  using sample_hexes sample_stable_pattern by (simp add: sample_reservation_args sample_ttl del: append.simps)

lemma sample_bind:
  "bind_reservation hex_digest Delivered 2000 ''bk:'' ''rag'' sample_fence ''u1'' sample_attempt sample_stable 30000000000 with_provisional
     = (Inr (), add_stable 32000 sample_stable ''u1'' sample_key (drop_reservation kindP sample_key sample_prov with_provisional))"
proof -
  note p = reachable_parts [OF with_provisional_facts(1) hex_digest_hex]
  have "lua_bind hex_digest sample_epoch sample_writer ''u1'' sample_key sample_prov sample_stable 30000 sample_prefix ''rag'' 2000
      with_provisional = (add_stable 32000 sample_stable ''u1'' sample_key
        (drop_reservation kindP sample_key sample_prov with_provisional), [OK])"
    unfolding lua_bind_ready [OF p(2) with_provisional_facts(2) token_kind_attempt [OF sample_hexes(3)]
        token_kind_stable [OF sample_stable_pattern] sample_call_ok] with_provisional_facts(3,4) Let_def
    by (simp add: with_provisional_facts(5) del: append.simps)
  then show ?thesis
    unfolding bind_reservation_def redis_call_delivered [OF sample_bind_args] prod.case sample_prefix_of by simp
qed

theorem bind_moves_reservation_witness:
  "reservation_entry hex_digest sample_prefix ''rag''
     (add_stable 32000 sample_stable ''u1'' sample_key (drop_reservation kindP sample_key sample_prov with_provisional))
     sample_prov = None"
  using bind_moves_reservation [OF with_provisional_facts(1) hex_digest_hex sample_bind] by blast

end
