(* ===== verification/Fq_Resv_Props.thy ===== *)
theory Fq_Resv_Props
  imports Fq_Ready_Props
begin

text \<open>More properties of the ready-path coordinator over its reachable states: release, renewal and
  repair of reservations, the collision of repair with binding, the expiry reaper, and the life of
  a granted turn.\<close>

subsection \<open>Release\<close>

definition entry_in :: "(string \<Rightarrow> string) \<Rightarrow> string \<Rightarrow> string \<Rightarrow> coord \<Rightarrow> string \<Rightarrow> (string \<times> resv_meta) option" where
  "entry_in H prefix resource = reservation_entry H (tenant_prefix_of prefix resource) resource"

lemma entry_owner:
  assumes "resv_inv H p resource c" and "reservation_entry H p resource c tok = Some (k, m)"
    and "call_ok H p resource tenant key"
  shows "owned_by m tenant key \<longleftrightarrow> meta_tenant m = tenant"
  using owned_by_tenant [OF assms(1,2)] assms(3) by (auto simp: owned_by_def call_ok_def)

lemma drop_entry_gone:
  assumes "resv_inv H p resource (drop_reservation kind key tok c)"
  shows "reservation_entry H p resource (drop_reservation kind key tok c) tok = None"
  using entry_global(2) [OF assms, of tok] by simp

lemma zcard_zrem:
  assumes "zwf z" and "zscore z m = Some s"
  shows "zcard (zrem m z) + 1 = zcard z"
proof -
  have "{k. zscore z k \<noteq> None} = insert m {k. zscore (zrem m z) k \<noteq> None}" using assms(2) by auto
  moreover have "finite {k. zscore (zrem m z) k \<noteq> None}" using zset_finite [of "zrem m z"] by simp
  ultimately show ?thesis using assms(1) by (simp add: zcard_card)
qed

text \<open>C12: releasing is idempotent and bound to the owner. With a valid fence, \<open>Release\<close> of a
  reservation that does not exist succeeds and changes nothing; of another tenant's reservation
  it fails with a fence mismatch and changes nothing; of the tenant's own reservation it removes
  that reservation, whether expired or not, and no other, and the turns are left alone. After a
  success the reservation is absent and every repetition succeeds without effect.\<close>

theorem release_own_once:
  assumes "reachable H prefix resource c" and "digest_hex H"
    and "check_ready (fence_epoch fence) (fence_writer fence) c = OK"
    and "valid_runtime_reservation H prefix resource fence tenant = Inr (k, key)"
    and "release_token token = Inr (tok, kind)"
  shows "case entry_in H prefix resource c tok of
      None \<Rightarrow> release H Delivered prefix resource fence tenant token c = (Inr (), c)
    | Some (_, m) \<Rightarrow>
        if meta_tenant m \<noteq> tenant
        then release H Delivered prefix resource fence tenant token c = (Inl [ErrFenceMismatch], c)
        else \<exists>d. release H Delivered prefix resource fence tenant token c = (Inr (), d)
          \<and> entry_in H prefix resource d tok = None
          \<and> (\<forall>t. t \<noteq> tok \<longrightarrow> entry_in H prefix resource d t = entry_in H prefix resource c t)
          \<and> same_turns c d \<and> zcard (global_inflight d) + 1 = zcard (global_inflight c)
          \<and> release H Delivered prefix resource fence tenant token d = (Inr (), d)"
proof -
  let ?p = "tenant_prefix_of prefix resource"
  note p = reachable_parts [OF assms(1,2)]
  note f = valid_runtime_reservation_Inr [OF assms(4,2)]
  have kp: "tenant_key_prefix k = ?p" and call: "call_ok H ?p resource tenant key" using f by blast+
  note kind = release_token_kind [OF assms(5)]
  have args: "(case valid_runtime_reservation H prefix resource fence tenant of
          Inl e \<Rightarrow> Inl e
        | Inr (k, tk) \<Rightarrow> (case release_token token of Inl e \<Rightarrow> Inl e | Inr (tok, kind) \<Rightarrow> Inr (k, tk, tok, kind)))
      = Inr (k, key, tok, kind)" using assms(4,5) by simp
  have run: "release H Delivered prefix resource fence tenant token d =
      (expect_ok (snd (lua_release H (fence_epoch fence) (fence_writer fence) tenant key tok kind ?p resource d)),
       fst (lua_release H (fence_epoch fence) (fence_writer fence) tenant key tok kind ?p resource d))" for d
    unfolding release_def redis_call_delivered [OF args] by (simp add: kp)
  note inv = resv_invD [OF p(2)]
  show ?thesis
  proof (cases "reservation_entry H ?p resource c tok")
    case None
    then show ?thesis by (simp add: entry_in_def run lua_release_ready [OF p(2) assms(3) kind])
  next
    case (Some km)
    then obtain k' m where km: "reservation_entry H ?p resource c tok = Some (k', m)" by (cases km) auto
    have k': "k' = kind" using entry_facts(1) [OF inv(1) km] kind by simp
    note own = entry_owner [OF p(2) km call]
    let ?d = "drop_reservation kind key tok c"
    show ?thesis
    proof (cases "meta_tenant m = tenant")
      case False
      then show ?thesis using km own by (simp add: entry_in_def run lua_release_ready [OF p(2) assms(3) kind])
    next
      case True
      then have mk: "meta_tenant_key m = key" using own by (simp add: owned_by_def)
      have d: "resv_inv H ?p resource ?d" using drop_reservation_inv [OF p(2) km] k' mk by simp
      have st: "same_turns c ?d" by simp
      have dready: "check_ready (fence_epoch fence) (fence_writer fence) ?d = OK"
        using keeps_control_ready same_turns_control [OF st] assms(3) by metis
      note gone = drop_entry_gone [OF d]
      obtain s where "zscore (global_inflight c) tok = Some s" using entry_facts(3) [OF inv(1) km] by blast
      then have "zcard (global_inflight ?d) + 1 = zcard (global_inflight c)"
        using zcard_zrem [OF inv(2)] by simp
      then show ?thesis
        using km True own gone st entry_of_other(1) [OF inv(1)]
        by (simp add: entry_in_def run lua_release_ready [OF p(2) assms(3) kind]
            lua_release_ready [OF d dready kind])
    qed
  qed
qed

subsection \<open>Renewal and repair of stable reservations\<close>

lemma release_provisional_sample:
  "release_token sample_attempt = Inr (sample_prov, kindP)"
  using sample_hexes by (simp add: release_token_def)

theorem release_own_once_witness:
  "\<exists>d. release hex_digest Delivered ''bk:'' ''rag'' sample_fence ''u1'' sample_attempt with_provisional = (Inr (), d)
     \<and> entry_in hex_digest ''bk:'' ''rag'' d sample_prov = None"
  using release_own_once [OF with_provisional_facts(1) hex_digest_hex with_provisional_facts(2)
      sample_reservation_args release_provisional_sample] with_provisional_facts(3)
  by (auto simp: entry_in_def simp del: append.simps)

lemma stable_write_run:
  assumes "digest_hex H" and "valid_runtime_reservation H prefix resource fence tenant = Inr (k, key)"
    and "stable_reservation_pattern tok" and "redis_runtime_ttl_ms ttl = Inr ms"
  shows "write_ready_stable H Delivered now prefix resource fence tenant tok ttl allow c =
    (expect_ok (snd (lua_stable_write H (fence_epoch fence) (fence_writer fence) tenant key tok ms allow
        (tenant_prefix_of prefix resource) resource now c)),
     fst (lua_stable_write H (fence_epoch fence) (fence_writer fence) tenant key tok ms allow
        (tenant_prefix_of prefix resource) resource now c))"
proof -
  have args: "(case valid_runtime_reservation H prefix resource fence tenant of
          Inl e \<Rightarrow> Inl e
        | Inr (k, tk) \<Rightarrow>
            check_err (fail_when (\<not> stable_reservation_pattern tok) (wraps ErrInvalidModel))
              (case redis_runtime_ttl_ms ttl of Inl e \<Rightarrow> Inl e | Inr ms \<Rightarrow> Inr (k, tk, ms))) = Inr (k, key, ms)"
    using assms by simp
  show ?thesis
    unfolding write_ready_stable_def redis_call_delivered [OF args]
    using valid_runtime_reservation_Inr [OF assms(2,1)] by simp
qed

text \<open>Renewal keeps a lease, repair restores one. \<open>RenewStable\<close> succeeds exactly when the
  tenant still holds the stable reservation and it has not expired; it then moves the expiry to
  the new deadline and touches nothing else. It never revives an expired or released reservation:
  those fail with \<open>ErrFenceMismatch\<close> and \<open>ErrCoordinationCorrupt\<close>, and a failed renewal changes
  nothing. \<open>EnsureReadyStableInflight\<close> in addition creates or revives the reservation, and is
  refused only when it belongs to another tenant.\<close>

theorem renew_and_repair:
  assumes "reachable H prefix resource c" and "digest_hex H"
    and "check_ready (fence_epoch fence) (fence_writer fence) c = OK"
    and "valid_runtime_reservation H prefix resource fence tenant = Inr (k, key)"
    and "stable_reservation_pattern tok" and "redis_runtime_ttl_ms ttl = Inr ms"
  shows "let (r, d) = write_ready_stable H Delivered now prefix resource fence tenant tok ttl allow c;
      mine = (\<exists>m. entry_in H prefix resource c tok = Some (kindS, m) \<and> meta_tenant m = tenant);
      absent = (entry_in H prefix resource c tok = None);
      live = (now < the (zscore (global_inflight c) tok))
    in (r = Inr () \<longleftrightarrow> (if allow then mine \<or> absent else mine \<and> live))
      \<and> (r = Inr () \<longrightarrow> entry_in H prefix resource d tok =
             Some (kindS, \<lparr> meta_tenant = tenant, meta_tenant_key = key, meta_decision = None \<rparr>)
          \<and> zscore (global_inflight d) tok = Some (now + ms)
          \<and> (\<forall>t. t \<noteq> tok \<longrightarrow> entry_in H prefix resource d t = entry_in H prefix resource c t
                \<and> zscore (global_inflight d) t = zscore (global_inflight c) t)
          \<and> same_turns c d)
      \<and> (r \<noteq> Inr () \<longrightarrow> d = c)
      \<and> (absent \<and> \<not> allow \<longrightarrow> r = Inl [ErrCoordinationCorrupt])
      \<and> (mine \<and> \<not> live \<and> \<not> allow \<longrightarrow> r = Inl [ErrFenceMismatch])"
proof -
  let ?p = "tenant_prefix_of prefix resource"
  note p = reachable_parts [OF assms(1,2)]
  have call: "call_ok H ?p resource tenant key" using valid_runtime_reservation_Inr [OF assms(4,2)] by blast
  note kind = token_kind_stable [OF assms(5)]
  note inv = resv_invD [OF p(2)]
  note run = stable_write_run [OF assms(2,4-6)] lua_stable_write_ready [OF p(2) assms(3) kind]
  let ?d = "add_stable (now + ms) tok tenant key c"
  have new: "zscore (provisional c) tok = None \<Longrightarrow> reservation_entry H ?p resource ?d tok =
      Some (kindS, \<lparr> meta_tenant = tenant, meta_tenant_key = key, meta_decision = None \<rparr>)"
    using add_stable_entry [OF p(2) _ kind] call by (simp add: call_ok_def)
  have eff: "zscore (global_inflight ?d) t = (if t = tok then Some (now + ms) else zscore (global_inflight c) t)"
    "same_turns c ?d" "t \<noteq> tok \<Longrightarrow> reservation_entry H ?p resource ?d t = reservation_entry H ?p resource c t" for t
    using entry_of_other(3) [OF inv(1)] by simp_all
  show ?thesis
  proof (cases "reservation_entry H ?p resource c tok")
    case None
    with new no_entry(2) [OF p(2) None] eff show ?thesis by (simp add: entry_in_def run Let_def)
  next
    case (Some km)
    then obtain k' m where km: "reservation_entry H ?p resource c tok = Some (k', m)" by (cases km) auto
    note e = entry_facts [OF inv(1) km]
    have k': "k' = kindS" using e(1) kind by simp
    have prov: "zscore (provisional c) tok = None" using e(5) k' by simp
    note own = entry_owner [OF p(2) km call]
    have same: "meta_tenant_key m = key" if "meta_tenant m = tenant" using own that by (simp add: owned_by_def)
    show ?thesis
      using km k' new [OF prov] eff same by (auto simp: entry_in_def run Let_def not_less split: if_splits)
  qed
qed

theorem renew_and_repair_witness:
  "fst (write_ready_stable hex_digest Delivered 2000 ''bk:'' ''rag'' sample_fence ''u1'' sample_stable 30000000000 False
     with_provisional) = Inl [ErrCoordinationCorrupt]"
  using renew_and_repair [OF with_provisional_facts(1) hex_digest_hex with_provisional_facts(2)
      sample_reservation_args sample_stable_pattern sample_ttl, of 2000 False] with_provisional_facts(4)
  by (auto simp: entry_in_def Let_def simp del: append.simps split: prod.splits)

lemma zcard_zadd:
  assumes "zwf z" and "zscore z m = None"
  shows "zcard (zadd x m z) = zcard z + 1"
proof -
  have "{k. zscore (zadd x m z) k \<noteq> None} = insert m {k. zscore z k \<noteq> None}" by auto
  moreover have "finite {k. zscore z k \<noteq> None}" by simp
  ultimately show ?thesis using assms by (simp add: zcard_card)
qed

text \<open>C13: repair and binding collide. While a claimed task waits to be bound, its attempt holds a
  provisional reservation and the claim is already RUNNING in the database, so a concurrent READY
  reconciliation lists it and calls \<open>EnsureReadyStableInflight\<close> for it. That call succeeds and the
  attempt then counts twice; the worker's \<open>BindReservation\<close> finds both entries and fails with
  \<open>ErrCoordinationCorrupt\<close>, at any time and however often it is tried, so the claimed task is not run.\<close>

theorem repair_preempts_bind:
  assumes "reachable H prefix resource c" and "digest_hex H"
    and "check_ready (fence_epoch fence) (fence_writer fence) c = OK"
    and "valid_runtime_reservation H prefix resource fence tenant = Inr (k, key)"
    and "lower_hex 32 attempt" and "stable_reservation_pattern tok" and "redis_runtime_ttl_ms ttl = Inr ms"
    and "redis_runtime_ttl_ms ttl' = Inr ms'"
    and "entry_in H prefix resource c (''p:'' @ attempt) = Some (kindP, m)" and "meta_tenant m = tenant"
    and "entry_in H prefix resource c tok = None"
  shows "\<exists>d. write_ready_stable H Delivered now prefix resource fence tenant tok ttl True c = (Inr (), d)
    \<and> zcard (global_inflight d) = zcard (global_inflight c) + 1
    \<and> (\<forall>now'. bind_reservation H Delivered now' prefix resource fence tenant attempt tok ttl' d =
          (Inl [ErrCoordinationCorrupt], d))"
proof -
  let ?p = "tenant_prefix_of prefix resource" and ?prov = "''p:'' @ attempt"
  let ?d = "add_stable (now + ms) tok tenant key c"
  note p = reachable_parts [OF assms(1,2)]
  have kp: "tenant_key_prefix k = ?p" and call: "call_ok H ?p resource tenant key"
    using valid_runtime_reservation_Inr [OF assms(4,2)] by blast+
  note kinds = token_kind_attempt [OF assms(5)] token_kind_stable [OF assms(6)]
  note inv = resv_invD [OF p(2)]
  note none = assms(11) [unfolded entry_in_def]
  have run: "write_ready_stable H Delivered now prefix resource fence tenant tok ttl True c = (Inr (), ?d)"
    "lua_stable_write H (fence_epoch fence) (fence_writer fence) tenant key tok ms True ?p resource now c = (?d, [OK])"
    using none by (simp_all add: stable_write_run [OF assms(2,4,6,7)] lua_stable_write_ready [OF p(2) assms(3) kinds(2)])
  have d: "resv_inv H ?p resource ?d" "same_turns c ?d"
    using lua_stable_write_inv [OF p(2) assms(3) kinds(2) call, of ms True now] by (simp_all add: run(2))
  have ready: "check_ready (fence_epoch fence) (fence_writer fence) ?d = OK"
    using keeps_control_ready same_turns_control [OF d(2)] assms(3) by metis
  have ne: "?prov \<noteq> tok" using kinds by auto
  have mp: "reservation_entry H ?p resource ?d ?prov = Some (kindP, m)"
    using assms(9) entry_of_other(3) [OF inv(1) ne] by (simp add: entry_in_def)
  have mk: "meta_tenant_key m = key"
    using entry_owner [OF d(1) mp call] assms(10) by (simp add: owned_by_def)
  have st: "reservation_entry H ?p resource ?d tok =
      Some (kindS, \<lparr> meta_tenant = tenant, meta_tenant_key = key, meta_decision = None \<rparr>)"
    using add_stable_entry [OF p(2) no_entry(2) [OF p(2) none] kinds(2)] call by (simp add: call_ok_def)
  have card: "zcard (global_inflight ?d) = zcard (global_inflight c) + 1"
    using zcard_zadd [OF inv(2) no_entry(1) [OF p(2) none]] by simp
  have args: "(case valid_runtime_reservation H prefix resource fence tenant of
          Inl e \<Rightarrow> Inl e
        | Inr (k, tk) \<Rightarrow>
            check_err (fail_when (\<not> lower_hex 32 attempt \<or> \<not> stable_reservation_pattern tok)
                (wraps ErrInvalidModel))
              (case redis_runtime_ttl_ms ttl' of Inl e \<Rightarrow> Inl e | Inr ms \<Rightarrow> Inr (k, tk, ms))) = Inr (k, key, ms')"
    using assms(4-6,8) by simp
  have "bind_reservation H Delivered now' prefix resource fence tenant attempt tok ttl' ?d =
      (Inl [ErrCoordinationCorrupt], ?d)" for now'
    unfolding bind_reservation_def redis_call_delivered [OF args] prod.case kp
      lua_bind_ready [OF d(1) ready kinds call] mp st Let_def
    using mk assms(10) by simp
  with run card show ?thesis by blast
qed

theorem repair_preempts_bind_witness:
  "\<exists>d. fst (bind_reservation hex_digest Delivered 3000 ''bk:'' ''rag'' sample_fence ''u1'' sample_attempt sample_stable
     30000000000 d) = Inl [ErrCoordinationCorrupt]"
  using repair_preempts_bind [OF with_provisional_facts(1) hex_digest_hex with_provisional_facts(2)
      sample_reservation_args sample_hexes(3) sample_stable_pattern sample_ttl sample_ttl
      with_provisional_facts(3) [folded entry_in_def] _ with_provisional_facts(4) [folded entry_in_def]]
  by (metis fst_conv resv_meta.select_convs(1))

subsection \<open>Expiry\<close>

lemma parse_int64_format: "n < 2 ^ 63 \<Longrightarrow> parse_int64 (format_uint n) = Some (int n)"
proof -
  assume n: "n < 2 ^ 63"
  obtain d ds where f: "format_uint n = d # ds" by (cases "format_uint n") (simp_all add: format_uint_not_Nil)
  have "is_digit d" "list_all is_digit (format_uint n)" using format_uint_digits [of n] f by simp_all
  then have "d \<noteq> CHR ''-''" "d \<noteq> CHR ''+''" by (auto simp: is_digit_def)
  moreover have "int n < 2 ^ 63" using n by (metis of_nat_less_iff of_nat_numeral of_nat_power)
  ultimately show ?thesis
    using digits_value_format_uint [of n] format_uint_digits [of n] f
    by (simp add: parse_int64_def)
qed

lemma zexpired_length: "length (zexpired now limit z) \<le> limit"
  by (simp add: zexpired_def)

lemma zexpired_complete:
  assumes "zwf z" and "length (zexpired now limit z) < limit" and "zscore z m = Some s" and "s \<le> now"
  shows "m \<in> set (zexpired now limit z)"
proof -
  let ?e = "filter (\<lambda>(m, s). s \<le> now) z"
  have "length (zmembers ?e) < limit" using assms(2) by (simp add: zexpired_def)
  then have "zexpired now limit z = zmembers ?e" by (simp add: zexpired_def)
  moreover have "zscore ?e m = Some s" using zscore_filter [OF assms(1), of "\<lambda>_ x. x \<le> now" m] assms(3,4) by simp
  ultimately show ?thesis by simp
qed

lemma zexpired_le: "zwf z \<Longrightarrow> length (zexpired now limit z) \<le> zcard z"
  by (simp add: zexpired_def zcard_def zmembers_def) (metis length_filter_le le_trans min.cobounded1)

lemma cleanup_reply:
  assumes "a < 2 ^ 63" and "b < 2 ^ 63" and "p < 2 ^ 63" and "t < 2 ^ 63"
  shows "parse_cleanup [OK, format_uint a, format_uint b, format_uint p, format_uint t] =
    Inr \<lparr> removed_provisionals = int a, removed_turns = int b, remaining_provisionals = int p, remaining_turns = int t \<rparr>"
  using assms
  by (simp add: parse_cleanup_def parse_int64_format validate_cleanup_def redis_runtime_result_error_def
      redis_script_error_def check_err_def)

text \<open>C14: the reaper takes back exactly what has expired, within its limit, and loses no tenant.
  With a valid fence and page limit, \<open>ReapExpiredTurnsAndProvisionals\<close> succeeds and reports what it
  did: it removes at most \<open>limit\<close> entries, all of them expired turns and expired provisional
  reservations; when it removes fewer, no expired one is left; every stable reservation and
  every unexpired entry stays; and the tenants of the expired turns, in that order, go to
  the back of the ring, so the active tenants are the same as before.\<close>

theorem reaper_exact:
  assumes "reachable H prefix resource c" and "digest_hex H"
    and "check_ready (fence_epoch fence) (fence_writer fence) c = OK"
    and "valid_runtime_fence prefix resource fence = Inr k" and "validate_page_limit limit = None"
    and "zcard (provisional c) < 2 ^ 63" and "zcard (processing_turns c) < 2 ^ 63"
  shows "\<exists>r d. reap_expired H Delivered now prefix resource fence limit c = (Inr r, d)
    \<and> removed_provisionals r + removed_turns r \<le> limit
    \<and> (\<forall>tok. turn_to_tenant d tok \<noteq> turn_to_tenant c tok \<longrightarrow>
          turn_to_tenant d tok = None \<and> (\<exists>s. zscore (processing_turns c) tok = Some s \<and> s \<le> now))
    \<and> (\<forall>tok. entry_in H prefix resource d tok \<noteq> entry_in H prefix resource c tok \<longrightarrow>
          entry_in H prefix resource d tok = None \<and> (\<exists>s. zscore (provisional c) tok = Some s \<and> s \<le> now))
    \<and> (removed_provisionals r + removed_turns r < limit \<longrightarrow>
          (\<forall>tok s. zscore (processing_turns d) tok = Some s \<or> zscore (provisional d) tok = Some s \<longrightarrow> now < s))
    \<and> (\<exists>expired. ring d = ring c @ map (\<lambda>tok. the (turn_to_tenant c tok)) expired
          \<and> int (length expired) = removed_turns r)
    \<and> active_users d = active_users c
    \<and> remaining_provisionals r = int (zcard (provisional d)) \<and> remaining_turns r = int (zcard (processing_turns d))"
proof -
  let ?p = "tenant_prefix_of prefix resource" and ?n = "nat limit"
  note p = reachable_parts [OF assms(1,2)]
  have kp: "tenant_key_prefix k = ?p" using valid_runtime_fence_Inr [OF assms(4)] by blast
  have pos: "0 < limit" "limit < 2 ^ 62"
    using assms(5) by (auto simp: validate_page_limit_def max_recovery_page_size_def)
  have args: "(case valid_runtime_fence prefix resource fence of
          Inl e \<Rightarrow> Inl e
        | Inr k \<Rightarrow> check_err (as_sentinel ErrInvalidModel (validate_page_limit limit)) (Inr k)) = Inr k"
    using assms(4,5) by simp
  let ?d = "reaped H ?p resource ?n now c"
  let ?ps = "reap_ps ?n now c" and ?ts = "reap_ts ?n now c"
  note r = lua_reap_inv [OF p(1,2) assms(3), where limit = ?n and now = now]
  note inv = turn_invD [OF p(1)] and rinv = resv_invD [OF p(2)]
  note dinv = resv_invD [OF r(2)]
  have pz: "zscore (provisional ?d) tok = (if tok \<in> set ?ps then None else zscore (provisional c) tok)" for tok
  proof (cases "reservation_entry H ?p resource ?d tok")
    case None
    then show ?thesis
      using no_entry(2) [OF r(2) None] no_entry(2) [OF p(2), of tok] r(10) by (simp split: if_splits)
  next
    case (Some km)
    then obtain k' m where km: "reservation_entry H ?p resource ?d tok = Some (k', m)" by (cases km) auto
    then have km': "reservation_entry H ?p resource c tok = Some (k', m)" "tok \<notin> set ?ps" using r(10) by (auto split: if_splits)
    show ?thesis
      using entry_facts(5) [OF dinv(1) km] entry_facts(5) [OF rinv(1) km'(1)] r(12) km'(2) by simp
  qed
  have lens: "length ?ps + length ?ts \<le> ?n"
    using zexpired_length [of now ?n "provisional c"] zexpired_length [of now "?n - length ?ps" "processing_turns c"]
    unfolding reap_ps_def reap_ts_def by linarith
  have le: "zcard (provisional ?d) \<le> zcard (provisional c)" "zcard (processing_turns ?d) \<le> zcard (processing_turns c)"
  proof -
    have "{m. zscore (provisional ?d) m \<noteq> None} \<subseteq> {m. zscore (provisional c) m \<noteq> None}"
      "{m. zscore (processing_turns ?d) m \<noteq> None} \<subseteq> {m. zscore (processing_turns c) m \<noteq> None}"
      using pz r(11) by (auto split: if_splits)
    then show "zcard (provisional ?d) \<le> zcard (provisional c)" "zcard (processing_turns ?d) \<le> zcard (processing_turns c)"
      using turn_invD(8) [OF r(1)] inv(8) dinv(3) rinv(3) by (simp_all add: zcard_card card_mono)
  qed
  let ?r = "\<lparr> removed_provisionals = int (length ?ps), removed_turns = int (length ?ts),
      remaining_provisionals = int (zcard (provisional ?d)), remaining_turns = int (zcard (processing_turns ?d)) \<rparr>"
  have small: "length ?ps < 2 ^ 63" "length ?ts < 2 ^ 63" using lens pos by simp_all
  have res: "reap_expired H Delivered now prefix resource fence limit c = (Inr ?r, ?d)"
    unfolding reap_expired_def redis_call_delivered [OF args] kp lua_reap_ready [OF p(1,2) assms(3)] snd_conv fst_conv
    using cleanup_reply [OF small] le assms(6,7) by simp
  have total: "removed_provisionals ?r + removed_turns ?r \<le> limit" using lens pos by simp
  have turns: "turn_to_tenant ?d tok \<noteq> turn_to_tenant c tok \<Longrightarrow>
      turn_to_tenant ?d tok = None \<and> (\<exists>s. zscore (processing_turns c) tok = Some s \<and> s \<le> now)" for tok
    using r(8) zexpired_in [OF inv(8)] by (auto simp: reap_ts_def split: if_splits)
  have resvs: "reservation_entry H ?p resource ?d tok \<noteq> reservation_entry H ?p resource c tok \<Longrightarrow>
      reservation_entry H ?p resource ?d tok = None \<and> (\<exists>s. zscore (provisional c) tok = Some s \<and> s \<le> now)" for tok
    using r(10) zexpired_in [OF rinv(3)] by (auto simp: reap_ps_def split: if_splits)
  have complete: "now < s"
    if less: "int (length ?ps) + int (length ?ts) < limit"
      and s: "zscore (processing_turns ?d) tok = Some s \<or> zscore (provisional ?d) tok = Some s" for tok s
  proof (rule ccontr)
    assume a: "\<not> now < s"
    have l: "length (zexpired now (?n - length ?ps) (processing_turns c)) < ?n - length ?ps"
      "length (zexpired now ?n (provisional c)) < ?n"
      using less unfolding reap_ps_def reap_ts_def by linarith+
    show False
      using s
    proof
      assume "zscore (processing_turns ?d) tok = Some s"
      then have "zscore (processing_turns c) tok = Some s" "tok \<notin> set ?ts" using r(11) by (auto split: if_splits)
      with zexpired_complete [OF inv(8) l(1)] a show False by (simp add: reap_ts_def)
    next
      assume "zscore (provisional ?d) tok = Some s"
      then have "zscore (provisional c) tok = Some s" "tok \<notin> set ?ps" using pz by (auto split: if_splits)
      with zexpired_complete [OF rinv(3) l(2)] a show False by (simp add: reap_ps_def)
    qed
  qed
  show ?thesis
    unfolding entry_in_def
    using res total turns resvs complete r(4,5)
    by (intro exI [of _ ?r] exI [of _ ?d]) (auto intro!: exI [of _ ?ts])
qed

theorem reaper_exact_witness:
  "\<exists>r d. reap_expired hex_digest Delivered 40000 ''bk:'' ''rag'' sample_fence 10 one_holding = (Inr r, d)
     \<and> active_users d = {''u1'', ''user2''}"
proof -
  have page: "validate_page_limit 10 = None" by (simp add: validate_page_limit_def max_recovery_page_size_def)
  have small: "zcard (provisional one_holding) < 2 ^ 63" "zcard (processing_turns one_holding) < 2 ^ 63"
    by (simp_all add: one_holding_def two_waiting_def sample_start_def zcard_def)
  from reaper_exact [OF one_holding_facts(1) hex_digest_hex one_holding_facts(3) sample_fence_valid page small, of 40000]
  show ?thesis using one_holding_resv(4) by metis
qed

subsection \<open>A granted turn\<close>

lemma parse_next_turn_OK:
  assumes "positive_int64 g" and "lower_hex 32 token" and "validate_tenant_id t = None"
  shows "parse_next_turn token [OK, t, g] =
      Inr (Some \<lparr> turn_token = token, turn_tenant = t, turn_observed = word_of_nat (digits_value g) \<rparr>)"
    "unat (word_of_nat (digits_value g) :: 64 word) = digits_value g"
proof -
  note v = positive_int64_value [OF assms(1)]
  note f = redis_result_uint64_format [OF v(2,3), unfolded v(1)]
  show "unat (word_of_nat (digits_value g) :: 64 word) = digits_value g" by (rule f(2))
  with v(2) have "(word_of_nat (digits_value g) :: 64 word) \<noteq> 0" by (metis less_numeral_extra(3) unsigned_0)
  with f(1) assms(2,3) show "parse_next_turn token [OK, t, g] =
      Inr (Some \<lparr> turn_token = token, turn_tenant = t, turn_observed = word_of_nat (digits_value g) \<rparr>)"
    by (simp add: parse_next_turn_def validate_turn_def validate_turn_token_def)
qed

lemma parse_next_turn_codes [simp]:
  "parse_next_turn token [EMPTY] = Inr None" "parse_next_turn token [INVALID] = Inl [ErrFenceMismatch]"
  by (simp_all add: parse_next_turn_def redis_script_error_def)

lemma next_turn_token: "next_turn_args prefix resource fence token ttl = Inr ms \<Longrightarrow>
    lower_hex 32 token \<and> (\<exists>k. valid_runtime_fence prefix resource fence = Inr k)"
  by (auto simp: next_turn_args_def validate_turn_token_def split: sum.splits)

text \<open>\<open>NextTurn\<close> serves the head of the ring and its turns can be settled. On every consistent
  state, with valid arguments, it answers no turn exactly for an empty ring, refuses a token in
  use, and otherwise hands the head of the ring a turn with the number of its activations.
  The token and generation of that turn, passed back to \<open>RotateOrDeactivate\<close> before the
  time to live is over, are accepted, and the tenant is back in the ring or, if it reported no
  ready work, inactive.\<close>

theorem granted_turn_settles:
  assumes "reachable H prefix resource c" and "digest_hex H"
    and "check_ready (fence_epoch fence) (fence_writer fence) c = OK"
    and "next_turn_args prefix resource fence token ttl = Inr ms" and "now' < now + ms"
  shows "if turn_to_tenant c token \<noteq> None
    then next_turn Delivered now prefix resource fence token ttl c = (Inl [ErrFenceMismatch], c)
    else case ring c of
      [] \<Rightarrow> next_turn Delivered now prefix resource fence token ttl c = (Inr None, c)
    | t # ts \<Rightarrow> \<exists>turn d e. next_turn Delivered now prefix resource fence token ttl c = (Inr (Some turn), d)
        \<and> turn_token turn = token \<and> turn_tenant turn = t \<and> unat (turn_observed turn) = activations_of c t
        \<and> ring d = ts
        \<and> rotate_or_deactivate Delivered now' prefix resource fence (turn_token turn) (turn_observed turn) has_ready d
            = (Inr (), e)
        \<and> ring e = (if has_ready then ts @ [t] else ts)
        \<and> active_users e = (if has_ready then active_users c else active_users c - {t})"
proof -
  let ?e = "fence_epoch fence" and ?w = "fence_writer fence"
  note t = reachable_parts(1) [OF assms(1,2)]
  note inv = turn_invD [OF t]
  note run = redis_call_delivered [OF assms(4)] lua_next_turn_ready [OF t assms(3) scan_batch_pos]
  obtain k where tok: "lower_hex 32 token" and fence: "valid_runtime_fence prefix resource fence = Inr k"
    using next_turn_token [OF assms(4)] by blast
  show ?thesis
  proof (cases "turn_to_tenant c token \<noteq> None \<or> ring c = []")
    case True
    then show ?thesis by (auto simp: next_turn_def run)
  next
    case False
    then obtain u ts where free: "turn_to_tenant c token = None" and ring: "ring c = u # ts" by (cases "ring c") auto
    have u: "u \<in> ring_members c" using inv(3) ring by auto
    then have act: "u \<in> active_users c" "u \<in> known_users c" "tenant_to_turn c u = None" using inv(4-6) by auto
    then obtain g where g: "activation_gen c u = Some g" "positive_int64 g" using inv(13,14) by blast
    have "validate_tenant_id u = None" using inv(7) act(2) by blast
    note parse = parse_next_turn_OK [OF g(2) tok this]
    let ?turn = "\<lparr> turn_token = token, turn_tenant = u, turn_observed = word_of_nat (digits_value g) \<rparr>"
    let ?d = "fst (lua_next_turn ?e ?w token ms redis_runtime_turn_scan_batch now c)"
    have d: "?d = c\<lparr> ring := ts, ring_members := ring_members c - {u},
            processing_turns := zadd (now + ms) token (processing_turns c),
            turn_to_tenant := (turn_to_tenant c)(token \<mapsto> u),
            turn_to_generation := (turn_to_generation c)(token \<mapsto> g),
            tenant_to_turn := (tenant_to_turn c)(u \<mapsto> token) \<rparr>"
      using free ring g by (simp add: run)
    have nxt: "next_turn Delivered now prefix resource fence token ttl c = (Inr (Some ?turn), ?d)"
      using free ring g parse(1) by (simp add: next_turn_def run)
    have dinv: "turn_inv ?d" by (rule lua_next_turn_inv [OF t assms(3) scan_batch_pos tok])
    have "keeps_control c ?d" by (simp add: d keeps_control_def)
    then have dready: "check_ready ?e ?w ?d = OK" using keeps_control_ready assms(3) by metis
    have args: "(case valid_runtime_fence prefix resource fence of
          Inl e \<Rightarrow> Inl e
        | Inr k \<Rightarrow> check_err (fail_when (validate_turn_token token \<noteq> None \<or> turn_observed ?turn = 0
                      \<or> unat (turn_observed ?turn) > max_int64) (wraps ErrInvalidModel)) (Inr k)) = Inr k"
      using fence tok parse(2) positive_int64_value(2,3) [OF g(2)]
      by (auto simp: validate_turn_token_def simp del: unat_eq_zero simp flip: unat_eq_zero)
    have fmt: "format_uint (unat (turn_observed ?turn)) = g" using parse(2) positive_int64_value(1) [OF g(2)] by simp
    let ?s = "settle_turn token u has_ready ?d"
    have "rotate_or_deactivate Delivered now' prefix resource fence (turn_token ?turn) (turn_observed ?turn) has_ready ?d
        = (Inr (), ?s)"
      unfolding rotate_or_deactivate_def processing_turn.simps redis_call_delivered [OF args [unfolded processing_turn.simps]]
        fmt [unfolded processing_turn.simps] lua_rotate_ready [OF dinv dready]
      using g assms(5) by (simp add: d)
    moreover have "u \<notin> set ts" using inv(2) ring by simp
    then have "ring ?s = (if has_ready then ts @ [u] else ts)"
      "active_users ?s = (if has_ready then active_users c else active_users c - {u})"
      using act(1) by (auto simp: settle_turn_def d)
    ultimately show ?thesis
      using free ring nxt parse(2) g(1) by (simp add: activations_of_def) (simp add: d)
  qed
qed

theorem granted_turn_settles_witness:
  "\<exists>turn d. next_turn Delivered 1000 ''bk:'' ''rag'' sample_fence sample_attempt 30000000000 two_waiting = (Inr (Some turn), d)
     \<and> turn_tenant turn = ''u1''"
proof -
  have args: "next_turn_args ''bk:'' ''rag'' sample_fence sample_attempt 30000000000 = Inr 30000"
    using sample_hexes by (simp add: next_turn_args_def sample_fence_valid validate_turn_token_def sample_ttl del: append.simps)
  have time: "(2000 :: int) < 1000 + 30000" by simp
  have s: "ring two_waiting = [''u1'', ''user2'']" "turn_to_tenant two_waiting sample_attempt = None"
    by (simp_all add: two_waiting_def sample_start_def)
  from granted_turn_settles [OF two_waiting_facts(1) hex_digest_hex two_waiting_facts(3) args time, of True] s
  show ?thesis by auto
qed

end
