(* ===== verification/Fq_Effects.thy ===== *)
theory Fq_Effects
  imports Fq_Coord
begin

text \<open>
  Effects of the Go control loops. A loop body is a program in the state monad over a world
  \<open>'w\<close> that answers its calls, and every call is logged with its outcome. A property of the log
  that holds for all worlds holds for every behaviour of the clients the code calls: any
  results, errors and timeouts, depending on anything that happened before.
\<close>

subsection \<open>Weakest preconditions\<close>

definition wp :: "('s, 'a) state \<Rightarrow> ('a \<Rightarrow> 's \<Rightarrow> bool) \<Rightarrow> 's \<Rightarrow> bool" where
  "wp m Q s = (case run_state m s of (x, t) \<Rightarrow> Q x t)"

named_theorems wp_intros \<open>one rule per program constructor\<close>

lemma wp_return [wp_intros]: "Q x s \<Longrightarrow> wp (State_Monad.return x) Q s"
  by (simp add: wp_def)

lemma wp_bind [wp_intros]: "wp m (\<lambda>x. wp (f x) Q) s \<Longrightarrow> wp (State_Monad.bind m f) Q s"
  by (simp add: wp_def split: prod.splits)

lemma wp_if [wp_intros]: "(b \<Longrightarrow> wp m Q s) \<Longrightarrow> (\<not> b \<Longrightarrow> wp n Q s) \<Longrightarrow> wp (if b then m else n) Q s"
  by simp

lemma wp_sum [wp_intros]:
  "(\<And>e. r = Inl e \<Longrightarrow> wp (f e) Q s) \<Longrightarrow> (\<And>x. r = Inr x \<Longrightarrow> wp (g x) Q s) \<Longrightarrow>
     wp (case r of Inl e \<Rightarrow> f e | Inr x \<Rightarrow> g x) Q s"
  by (cases r) simp_all

lemma wp_option [wp_intros]:
  "(r = None \<Longrightarrow> wp m Q s) \<Longrightarrow> (\<And>x. r = Some x \<Longrightarrow> wp (g x) Q s) \<Longrightarrow>
     wp (case r of None \<Rightarrow> m | Some x \<Rightarrow> g x) Q s"
  by (cases r) simp_all

lemma wp_prod [wp_intros]: "(\<And>a b. r = (a, b) \<Longrightarrow> wp (f a b) Q s) \<Longrightarrow> wp (case r of (a, b) \<Rightarrow> f a b) Q s"
  by (cases r) simp_all

lemma wp_mono: "wp m Q s \<Longrightarrow> (\<And>x t. Q x t \<Longrightarrow> R x t) \<Longrightarrow> wp m R s"
  by (simp add: wp_def split: prod.splits)

subsection \<open>Logged calls\<close>

definition perform :: "('w, 'a) state \<Rightarrow> ('a \<Rightarrow> 'e) \<Rightarrow> ('w \<times> 'e list, 'a) state" where
  "perform op ev = State (\<lambda>(w, l). case run_state op w of (x, w') \<Rightarrow> (x, (w', l @ [ev x])))"

lemma wp_perform [wp_intros]: "(\<And>x w'. Q x (w', l @ [ev x])) \<Longrightarrow> wp (perform op ev) Q (w, l)"
  by (simp add: wp_def perform_def split: prod.splits)

definition logged :: "('w \<times> 'e list, 'a) state \<Rightarrow> 'w \<Rightarrow> 'a \<times> 'e list" where
  "logged m w = (case run_state m (w, []) of (x, _, l) \<Rightarrow> (x, l))"

lemma logged_wp: "wp m (\<lambda>x s. P x (snd s)) (w, []) \<Longrightarrow> logged m w = (x, l) \<Longrightarrow> P x l"
  by (auto simp: wp_def logged_def split: prod.splits)

definition occurs :: "('e \<Rightarrow> bool) \<Rightarrow> 'e list \<Rightarrow> nat" where
  "occurs p l = length (filter p l)"

lemma occurs_simps [simp]:
  "occurs p [] = 0" "occurs p (x # l) = (if p x then 1 else 0) + occurs p l"
  "occurs p (l @ k) = occurs p l + occurs p k"
  by (simp_all add: occurs_def)

text \<open>\<open>appends m R\<close>: running \<open>m\<close> extends the log by some \<open>k\<close> with \<open>R\<close>.\<close>

definition appends :: "('w \<times> 'e list, 'a) state \<Rightarrow> ('a \<Rightarrow> 'e list \<Rightarrow> bool) \<Rightarrow> bool" where
  "appends m R \<longleftrightarrow> (\<forall>w l. wp m (\<lambda>x s. \<exists>k. snd s = l @ k \<and> R x k) (w, l))"

lemma wp_appends: "appends m R \<Longrightarrow> (\<And>x w' k. R x k \<Longrightarrow> Q x (w', l @ k)) \<Longrightarrow> wp m Q (w, l)"
  unfolding appends_def wp_def by (fastforce split: prod.splits)

lemma appendsI: "(\<And>w l. wp m (\<lambda>x s. \<exists>k. snd s = l @ k \<and> R x k) (w, l)) \<Longrightarrow> appends m R"
  by (simp add: appends_def)

text \<open>\<open>guarded G [] l\<close>: every event of \<open>l\<close> satisfies \<open>G\<close> with the events before it.\<close>

fun guarded :: "('e list \<Rightarrow> 'e \<Rightarrow> bool) \<Rightarrow> 'e list \<Rightarrow> 'e list \<Rightarrow> bool" where
  "guarded G h [] = True"
| "guarded G h (e # l) = (G h e \<and> guarded G (h @ [e]) l)"

lemma guarded_append [simp]: "guarded G h (l @ k) = (guarded G h l \<and> guarded G (h @ l) k)"
  by (induction l arbitrary: h) simp_all

lemma guarded_iff: "guarded G h l \<longleftrightarrow> (\<forall>k e r. l = k @ e # r \<longrightarrow> G (h @ k) e)"
proof (induction l arbitrary: h)
  case (Cons x l)
  have "(\<forall>k e r. x # l = k @ e # r \<longrightarrow> G (h @ k) e) \<longleftrightarrow> G h x \<and> (\<forall>k e r. l = k @ e # r \<longrightarrow> G ((h @ [x]) @ k) e)"
    (is "?A \<longleftrightarrow> ?B")
  proof
    assume a: ?A
    have "G ((h @ [x]) @ k) e" if "l = k @ e # r" for k e r
      using a [rule_format, of "x # k" e r] that by simp
    moreover have "G h x" using a [rule_format, of "[]" x l] by simp
    ultimately show ?B by blast
  next
    assume ?B
    then show ?A by (auto simp: Cons_eq_append_conv)
  qed
  then show ?case using Cons.IH by simp
qed simp

subsection \<open>64-bit durations\<close>

text \<open>A Go \<open>time.Duration\<close> is an \<open>int64\<close>; \<open>i64\<close> is the wrap-around of its arithmetic.\<close>

definition i64 :: "int \<Rightarrow> int" where
  "i64 x = (x + 2 ^ 63) mod 2 ^ 64 - 2 ^ 63"

definition is_i64 :: "int \<Rightarrow> bool" where
  "is_i64 x \<longleftrightarrow> - (2 ^ 63) \<le> x \<and> x < 2 ^ 63"

lemma i64_id [simp]: "is_i64 x \<Longrightarrow> i64 x = x"
  by (simp add: i64_def is_i64_def)

lemma i64_range: "is_i64 (i64 x)"
proof -
  have "0 \<le> (x + 2 ^ 63) mod 2 ^ 64" "(x + 2 ^ 63) mod 2 ^ 64 < (2 ^ 64 :: int)" by simp_all
  then show ?thesis by (simp add: i64_def is_i64_def)
qed

text \<open>\<open>nextSchedulerBackoff\<close> and \<open>nextDispatcherBackoff\<close>\<close>

definition next_scheduler_backoff :: "int \<Rightarrow> int \<Rightarrow> int" where
  "next_scheduler_backoff current maximum =
     (if current \<ge> maximum \<or> current > i64 (maximum - current) then maximum else i64 (current * 2))"

definition next_dispatcher_backoff :: "int \<Rightarrow> int \<Rightarrow> int" where
  "next_dispatcher_backoff current maximum =
     (if current \<ge> maximum then maximum
      else if current > i64 (maximum - current) then maximum
      else i64 (current * 2))"

lemma next_backoff_exact:
  assumes "0 < current" and "is_i64 current" and "is_i64 maximum"
  shows "next_scheduler_backoff current maximum = min (2 * current) maximum"
    "next_dispatcher_backoff current maximum = min (2 * current) maximum"
proof -
  have d: "is_i64 (maximum - current)" if "current < maximum" using that assms by (simp add: is_i64_def)
  have m: "is_i64 (current * 2)" if "current \<le> maximum - current" using that assms by (simp add: is_i64_def)
  show "next_scheduler_backoff current maximum = min (2 * current) maximum"
    using d m assms(1) by (auto simp: next_scheduler_backoff_def min_def)
  show "next_dispatcher_backoff current maximum = min (2 * current) maximum"
    using d m assms(1) by (auto simp: next_dispatcher_backoff_def min_def)
qed

end
