(* ===== verification/Fq_Scheduler.thy ===== *)
theory Fq_Scheduler
  imports Fq_Effects Fq_Turns Fq_Reservations
begin

text \<open>
  The scheduler (\<^verbatim>\<open>scheduler.go\<close>): its options, the body \<open>runOne\<close> of its loop as a program over the
  clients it calls, and the loop \<open>Run\<close> with its backoff.
\<close>

subsection \<open>Options\<close>

record scheduler_options =
  idle_interval :: int
  backoff_initial :: int
  backoff_max :: int
  cleanup_timeout :: int

definition default_scheduler_cleanup_timeout :: "resource_config \<Rightarrow> int" where
  "default_scheduler_cleanup_timeout c =
     (let cleanup = prepare_timeout c;
          remaining = i64 (recovery_drain_timeout c - prepare_timeout c)
      in if remaining \<le> 1 then 0
         else let bound = (remaining - 1) div 5 in if cleanup > bound then bound else cleanup)"

definition scheduler_with_defaults :: "scheduler_options \<Rightarrow> resource_config \<Rightarrow> scheduler_options result" where
  "scheduler_with_defaults o1 c =
     (let o2 = o1\<lparr> idle_interval := (if idle_interval o1 = 0 then 25 * 1000000 else idle_interval o1),
                   backoff_initial := (if backoff_initial o1 = 0 then 50 * 1000000 else backoff_initial o1),
                   backoff_max := (if backoff_max o1 = 0 then 5 * 1000000000 else backoff_max o1),
                   cleanup_timeout := (if cleanup_timeout o1 = 0 then default_scheduler_cleanup_timeout c
                                       else cleanup_timeout o1) \<rparr>
      in check_err (first_err (map duration_ok
             [idle_interval o2, backoff_initial o2, backoff_max o2, cleanup_timeout o2]))
         (if backoff_initial o2 > backoff_max o2 then Inl []
          else if i64 (prepare_timeout c + i64 (5 * cleanup_timeout o2)) \<ge> recovery_drain_timeout c then Inl []
          else Inr o2))"

subsection \<open>Calls\<close>

text \<open>
  The context a call gets. \<open>CtxTurn\<close> and \<open>CtxCleanup\<close> are fresh, each bounded by the cleanup
  timeout (only the second survives a cancellation of the scheduler); all \<open>CtxPrepare\<close> calls of an
  attempt share one absolute deadline, the prepare timeout.
\<close>

datatype call_ctx = CtxTurn | CtxPrepare | CtxCleanup

record 'd worker_envelope =
  we_resource :: string
  we_tenant :: string
  we_fence :: resource_fence
  we_gate_generation :: "64 word"
  we_turn :: processing_turn
  we_provisional :: string
  we_delivery :: 'd

text \<open>The clients of the scheduler: worker admission and its permit, token source, coordinator, broker.\<close>

record ('w, 'd) sched_env =
  try_reserve :: "('w, (resource_fence \<times> 64 word) option) state"
  abort_permit :: "('w, unit) state"
  start_worker :: "'d worker_envelope \<Rightarrow> ('w, goerr) state"
  report_failure :: "goerr \<Rightarrow> ('w, unit) state"
  token_source :: "('w, string result) state"
  coord_next_turn :: "call_ctx \<Rightarrow> resource_fence \<Rightarrow> string \<Rightarrow> int \<Rightarrow> ('w, processing_turn option result) state"
  coord_acquire :: "call_ctx \<Rightarrow> resource_fence \<Rightarrow> string \<Rightarrow> string \<Rightarrow> capacity_limits \<Rightarrow> int \<Rightarrow> ('w, string result) state"
  coord_rotate :: "call_ctx \<Rightarrow> resource_fence \<Rightarrow> string \<Rightarrow> 64 word \<Rightarrow> bool \<Rightarrow> ('w, goerr) state"
  coord_release :: "call_ctx \<Rightarrow> resource_fence \<Rightarrow> string \<Rightarrow> string \<Rightarrow> ('w, goerr) state"
  coord_ensure_active :: "call_ctx \<Rightarrow> resource_fence \<Rightarrow> string \<Rightarrow> ('w, goerr) state"
  rabbit_get :: "call_ctx \<Rightarrow> string \<Rightarrow> ('w, 'd option \<times> bool \<times> goerr) state"
  rabbit_depth :: "call_ctx \<Rightarrow> string \<Rightarrow> ('w, int \<times> goerr) state"
  delivery_nack :: "call_ctx \<Rightarrow> 'd \<Rightarrow> ('w, goerr) state"

datatype 'd sched_event =
    EvReserve "(resource_fence \<times> 64 word) option"
  | EvAbort
  | EvStart "'d worker_envelope" goerr
  | EvReport goerr
  | EvToken "string result"
  | EvNextTurn call_ctx string "processing_turn option result"
  | EvAcquire call_ctx string string "string result"
  | EvRotate call_ctx string "64 word" bool goerr
  | EvRelease call_ctx string string goerr
  | EvActivate call_ctx string goerr
  | EvGet call_ctx string "'d option" bool goerr
  | EvDepth call_ctx string int goerr
  | EvNack call_ctx 'd goerr

type_synonym ('w, 'd, 'a) sched = "('w \<times> 'd sched_event list, 'a) state"

datatype scheduler_step = StepProgress | StepIdle | StepBackoff

definition next_token :: "('w, 'd) sched_env \<Rightarrow> ('w, 'd, string result) sched" where
  "next_token env = do {
     r \<leftarrow> perform (token_source env) EvToken;
     State_Monad.return
       (case r of
          Inl _ \<Rightarrow> Inl [ErrSchedulerTokenSource]
        | Inr t \<Rightarrow> if lower_hex 32 t then Inr t else Inl [ErrSchedulerTokenSource, ErrInvalidModel]) }"

definition classify_reservation_decision :: "string \<Rightarrow> bool result" where
  "classify_reservation_decision d =
     (if d = decision_code Regular \<or> d = decision_code Borrowed then Inr True
      else if d = decision_code DeniedGlobalFull \<or> d = decision_code DeniedTenantBurst
        \<or> d = decision_code DeniedCompetition \<or> d = decision_code DeniedBorrowOff then Inr False
      else Inl [ErrInvalidModel])"

definition report_when :: "bool \<Rightarrow> goerr \<Rightarrow> ('w, 'd) sched_env \<Rightarrow> ('w, 'd, unit) sched" where
  "report_when b e env =
     (if b then perform (report_failure env e) (\<lambda>_. EvReport e) else State_Monad.return ())"

definition rotate_turn ::
  "('w, 'd) sched_env \<Rightarrow> resource_fence \<Rightarrow> call_ctx \<Rightarrow> processing_turn \<Rightarrow> bool \<Rightarrow> ('w, 'd, goerr) sched" where
  "rotate_turn env fence ctx turn has_ready = do {
     err \<leftarrow> perform (coord_rotate env ctx fence (turn_token turn) (turn_observed turn) has_ready)
             (EvRotate ctx (turn_token turn) (turn_observed turn) has_ready);
     report_when (err \<noteq> None) err env;
     State_Monad.return err }"

definition release_provisional ::
  "('w, 'd) sched_env \<Rightarrow> resource_fence \<Rightarrow> call_ctx \<Rightarrow> string \<Rightarrow> string \<Rightarrow> ('w, 'd, goerr) sched" where
  "release_provisional env fence ctx tenant prov = do {
     err \<leftarrow> perform (coord_release env ctx fence tenant prov) (EvRelease ctx tenant prov);
     report_when (err \<noteq> None) err env;
     State_Monad.return err }"

definition rotate_and_release ::
  "('w, 'd) sched_env \<Rightarrow> resource_fence \<Rightarrow> processing_turn \<Rightarrow> bool \<Rightarrow> string \<Rightarrow> bool \<Rightarrow> ('w, 'd, goerr) sched" where
  "rotate_and_release env fence turn has_ready prov rel = do {
     rotate_err \<leftarrow> rotate_turn env fence CtxCleanup turn has_ready;
     if \<not> rel then State_Monad.return rotate_err
     else do {
       release_err \<leftarrow> release_provisional env fence CtxCleanup (turn_tenant turn) prov;
       State_Monad.return (errors_join [rotate_err, release_err]) } }"

text \<open>\<open>Nack\<close> with requeue, then \<open>EnsureActive\<close>: the shared start of the two cleanups of a delivery.\<close>

definition requeue_delivery ::
  "('w, 'd) sched_env \<Rightarrow> resource_fence \<Rightarrow> string \<Rightarrow> 'd \<Rightarrow> ('w, 'd, goerr) sched" where
  "requeue_delivery env fence tenant d = do {
     nack_err \<leftarrow> perform (delivery_nack env CtxCleanup d) (EvNack CtxCleanup d);
     if nack_err \<noteq> None then do {
       report_when (errors_is nack_err ErrUnsupportedTopology) nack_err env;
       State_Monad.return nack_err }
     else do {
       err \<leftarrow> perform (coord_ensure_active env CtxCleanup fence tenant) (EvActivate CtxCleanup tenant);
       report_when (err \<noteq> None) err env;
       State_Monad.return err } }"

definition cleanup_failed_handoff ::
  "('w, 'd) sched_env \<Rightarrow> resource_fence \<Rightarrow> string \<Rightarrow> string \<Rightarrow> 'd \<Rightarrow> ('w, 'd, goerr) sched" where
  "cleanup_failed_handoff env fence tenant prov d = do {
     e1 \<leftarrow> requeue_delivery env fence tenant d;
     e2 \<leftarrow> release_provisional env fence CtxCleanup tenant prov;
     State_Monad.return (errors_join [e1, e2]) }"

definition cleanup_unexpected_delivery ::
  "('w, 'd) sched_env \<Rightarrow> resource_fence \<Rightarrow> processing_turn \<Rightarrow> string \<Rightarrow> 'd \<Rightarrow> ('w, 'd, goerr) sched" where
  "cleanup_unexpected_delivery env fence turn prov d = do {
     e1 \<leftarrow> requeue_delivery env fence (turn_tenant turn) d;
     e2 \<leftarrow> release_provisional env fence CtxCleanup (turn_tenant turn) prov;
     e3 \<leftarrow> rotate_turn env fence CtxCleanup turn True;
     State_Monad.return (errors_join [e1, e2, e3]) }"

subsection \<open>One attempt\<close>

text \<open>The part of \<open>runOne\<close> after the delivery was requested. The first result is the step, the
  second the error, the third whether the worker took over the permit.\<close>

type_synonym step_result = "scheduler_step \<times> goerr \<times> bool"

definition hand_off ::
  "('w, 'd) sched_env \<Rightarrow> resource_config \<Rightarrow> resource_fence \<Rightarrow> 64 word \<Rightarrow> processing_turn \<Rightarrow> string \<Rightarrow> 'd option
   \<Rightarrow> ('w, 'd, step_result) sched" where
  "hand_off env cf fence gen turn prov got = do {
     release_err \<leftarrow> (case got of
         None \<Rightarrow> release_provisional env fence CtxCleanup (turn_tenant turn) prov
       | Some _ \<Rightarrow> State_Monad.return None);
     (depth, e) \<leftarrow> perform (rabbit_depth env CtxPrepare (turn_tenant turn))
                      (\<lambda>(n, e). EvDepth CtxPrepare (turn_tenant turn) n e);
     report_when (errors_is e ErrUnsupportedTopology) e env;
     let has_ready = (e \<noteq> None \<or> depth > 0 \<or> depth < 0);
         depth_err = (if depth < 0 then errors_join [e, wraps ErrInvalidModel] else e)
     in do {
       rotate_err \<leftarrow> rotate_turn env fence (if got = None then CtxCleanup else CtxPrepare) turn has_ready;
       case got of
         None \<Rightarrow>
           if depth_err \<noteq> None \<or> rotate_err \<noteq> None \<or> release_err \<noteq> None
           then State_Monad.return (StepBackoff, errors_join [depth_err, rotate_err, release_err], False)
           else State_Monad.return (StepIdle, None, False)
       | Some d \<Rightarrow> do {
           let envelope = \<lparr> we_resource = rc_key cf, we_tenant = turn_tenant turn, we_fence = fence,
                 we_gate_generation = gen, we_turn = turn, we_provisional = prov, we_delivery = d \<rparr>
           in do {
             err \<leftarrow> perform (start_worker env envelope) (EvStart envelope);
             if err \<noteq> None then do {
               cleanup_err \<leftarrow> cleanup_failed_handoff env fence (turn_tenant turn) prov d;
               State_Monad.return (StepBackoff, errors_join [err, depth_err, rotate_err, cleanup_err], False) }
             else if depth_err \<noteq> None \<or> rotate_err \<noteq> None
             then State_Monad.return (StepBackoff, errors_join [depth_err, rotate_err], True)
             else State_Monad.return (StepProgress, None, True) } } } }"

definition with_reservation ::
  "('w, 'd) sched_env \<Rightarrow> resource_config \<Rightarrow> resource_fence \<Rightarrow> 64 word \<Rightarrow> processing_turn \<Rightarrow> string
   \<Rightarrow> ('w, 'd, step_result) sched" where
  "with_reservation env cf fence gen turn prov = do {
     (delivery, got, get_err) \<leftarrow> perform (rabbit_get env CtxPrepare (turn_tenant turn))
                                    (\<lambda>(d, g, e). EvGet CtxPrepare (turn_tenant turn) d g e);
     report_when (errors_is get_err ErrUnsupportedTopology) get_err env;
     case delivery of
       Some d \<Rightarrow>
         if get_err \<noteq> None \<or> \<not> got then do {
           cleanup_err \<leftarrow> cleanup_unexpected_delivery env fence turn prov d;
           State_Monad.return (StepBackoff,
             errors_join [if get_err = None then wraps ErrInvalidModel else get_err, cleanup_err], False) }
         else hand_off env cf fence gen turn prov (Some d)
     | None \<Rightarrow>
         if get_err \<noteq> None then do {
           cleanup_err \<leftarrow> rotate_and_release env fence turn True prov True;
           State_Monad.return (StepBackoff, errors_join [get_err, cleanup_err], False) }
         else if got then do {
           cleanup_err \<leftarrow> rotate_and_release env fence turn True prov True;
           State_Monad.return (StepBackoff, errors_join [wraps ErrInvalidModel, cleanup_err], False) }
         else hand_off env cf fence gen turn prov None }"

definition with_turn ::
  "('w, 'd) sched_env \<Rightarrow> resource_config \<Rightarrow> resource_fence \<Rightarrow> 64 word \<Rightarrow> processing_turn
   \<Rightarrow> ('w, 'd, step_result) sched" where
  "with_turn env cf fence gen turn = do {
     id \<leftarrow> next_token env;
     case id of
       Inl ss \<Rightarrow> do {
         cleanup_err \<leftarrow> rotate_and_release env fence turn True [] False;
         State_Monad.return (StepBackoff, errors_join [Some ss, cleanup_err], False) }
     | Inr prov \<Rightarrow> do {
         r \<leftarrow> perform (coord_acquire env CtxPrepare fence (turn_tenant turn) prov (capacity_limits_of cf)
                 (provisional_ttl cf)) (EvAcquire CtxPrepare (turn_tenant turn) prov);
         case r of
           Inl ss \<Rightarrow> do {
             perform (report_failure env (Some ss)) (\<lambda>_. EvReport (Some ss));
             cleanup_err \<leftarrow> rotate_and_release env fence turn True prov True;
             State_Monad.return (StepBackoff, errors_join [Some ss, cleanup_err], False) }
         | Inr decision \<Rightarrow>
             (case classify_reservation_decision decision of
                Inl ss \<Rightarrow> do {
                  perform (report_failure env (wraps ErrCoordinationCorrupt)) (\<lambda>_. EvReport (wraps ErrCoordinationCorrupt));
                  cleanup_err \<leftarrow> rotate_and_release env fence turn True [] False;
                  State_Monad.return (StepBackoff, errors_join [Some ss, cleanup_err], False) }
              | Inr is_granted \<Rightarrow>
                  if \<not> is_granted then do {
                    cleanup_err \<leftarrow> rotate_and_release env fence turn True [] False;
                    State_Monad.return (StepBackoff, cleanup_err, False) }
                  else with_reservation env cf fence gen turn prov) } }"

definition with_permit ::
  "('w, 'd) sched_env \<Rightarrow> resource_config \<Rightarrow> resource_fence \<Rightarrow> 64 word \<Rightarrow> ('w, 'd, step_result) sched" where
  "with_permit env cf fence gen = do {
     id \<leftarrow> next_token env;
     case id of
       Inl ss \<Rightarrow> State_Monad.return (StepBackoff, Some ss, False)
     | Inr turn_id \<Rightarrow> do {
         r \<leftarrow> perform (coord_next_turn env CtxTurn fence turn_id (processing_turn_ttl cf)) (EvNextTurn CtxTurn turn_id);
         case r of
           Inl ss \<Rightarrow> do {
             perform (report_failure env (Some ss)) (\<lambda>_. EvReport (Some ss));
             State_Monad.return (StepBackoff, Some ss, False) }
         | Inr found \<Rightarrow>
             (case found of
                None \<Rightarrow> State_Monad.return (StepIdle, None, False)
              | Some turn \<Rightarrow>
                  if validate_turn turn \<noteq> None \<or> turn_token turn \<noteq> turn_id \<or> turn_tenant turn = [] then do {
                    perform (report_failure env (wraps ErrCoordinationCorrupt)) (\<lambda>_. EvReport (wraps ErrCoordinationCorrupt));
                    State_Monad.return (StepBackoff, wraps ErrInvalidModel, False) }
                  else with_turn env cf fence gen turn) } }"

text \<open>\<open>runOne\<close>, with its deferred \<open>abort\<close> of a permit it still owns. \<open>ctx_err\<close> is \<open>ctx.Err()\<close> at entry.\<close>

definition run_one ::
  "('w, 'd) sched_env \<Rightarrow> resource_config \<Rightarrow> goerr \<Rightarrow> ('w, 'd, scheduler_step \<times> goerr) sched" where
  "run_one env cf ctx_err =
     (if ctx_err \<noteq> None then State_Monad.return (StepBackoff, ctx_err)
      else do {
        permit \<leftarrow> perform (try_reserve env) EvReserve;
        case permit of
          None \<Rightarrow> State_Monad.return (StepIdle, None)
        | Some p \<Rightarrow> do {
            (step, err, started) \<leftarrow> with_permit env cf (fst p) (snd p);
            if started then State_Monad.return (step, err)
            else do {
              perform (abort_permit env) (\<lambda>_. EvAbort);
              State_Monad.return (step, err) } } })"

subsection \<open>The loop\<close>

definition scheduler_fatal :: "goerr \<Rightarrow> bool" where
  "scheduler_fatal e \<longleftrightarrow> errors_is e ErrSchedulerTokenSource \<or> errors_is e ErrAuthoritativeWriterMismatch"

text \<open>
  \<open>Run\<close> over the outcomes of its iterations: the step and error of \<open>runOne\<close>, \<open>ctx.Err()\<close> after
  it, and the result of the wait, if there is one. The result lists the waits and, if the loop
  returned, its error.
\<close>

fun scheduler_run ::
  "scheduler_options \<Rightarrow> int \<Rightarrow> (scheduler_step \<times> goerr \<times> goerr \<times> goerr) list \<Rightarrow> int list \<times> goerr option" where
  "scheduler_run o1 backoff [] = ([], None)"
| "scheduler_run o1 backoff ((step, err, ctx_err, wait_err) # rest) =
     (if ctx_err \<noteq> None then ([], Some ctx_err)
      else if err \<noteq> None \<and> scheduler_fatal err then ([], Some err)
      else if err \<noteq> None \<or> step = StepBackoff then
        (if wait_err \<noteq> None then ([backoff], Some wait_err)
         else let (ds, r) = scheduler_run o1 (next_scheduler_backoff backoff (backoff_max o1)) rest
              in (backoff # ds, r))
      else if step = StepIdle then
        (if wait_err \<noteq> None then ([idle_interval o1], Some wait_err)
         else let (ds, r) = scheduler_run o1 (backoff_initial o1) rest in (idle_interval o1 # ds, r))
      else scheduler_run o1 (backoff_initial o1) rest)"

lemma scheduler_options_ok:
  assumes "scheduler_with_defaults o1 cf = Inr o2"
  shows "0 < idle_interval o2" "0 < backoff_initial o2" "backoff_initial o2 \<le> backoff_max o2"
    "backoff_max o2 \<le> max_resource_duration" "0 < cleanup_timeout o2" "cleanup_timeout o2 \<le> max_resource_duration"
    "i64 (prepare_timeout cf + i64 (5 * cleanup_timeout o2)) < recovery_drain_timeout cf"
  using assms
  by (auto simp: scheduler_with_defaults_def Let_def duration_ok_None simp del: append.simps split: if_splits)

lemma scheduler_run_delays:
  assumes "0 < backoff_initial o1" and "backoff_initial o1 \<le> backoff_max o1" and "is_i64 (backoff_max o1)"
    and "backoff_initial o1 \<le> b" and "b \<le> backoff_max o1"
  shows "\<forall>d\<in>set (fst (scheduler_run o1 b outs)). d = idle_interval o1 \<or> (backoff_initial o1 \<le> d \<and> d \<le> backoff_max o1)"
  using assms(4,5)
proof (induction outs arbitrary: b)
  case Nil
  then show ?case by simp
next
  case (Cons out outs)
  obtain step err ctx w where out: "out = (step, err, ctx, w)" by (cases out) auto
  have b: "0 < b" "is_i64 b" using Cons.prems assms(1,3) by (auto simp: is_i64_def)
  have "next_scheduler_backoff b (backoff_max o1) = min (2 * b) (backoff_max o1)"
    by (rule next_backoff_exact(1) [OF b assms(3)])
  then have n: "backoff_initial o1 \<le> next_scheduler_backoff b (backoff_max o1)"
    "next_scheduler_backoff b (backoff_max o1) \<le> backoff_max o1"
    using Cons.prems assms(2) b(1) by auto
  show ?case
    using Cons.IH [OF n] Cons.IH [of "backoff_initial o1"] assms(2) Cons.prems
    by (auto simp: out split: prod.splits)
qed

lemma scheduler_run_failures:
  assumes "0 < b" and "b \<le> backoff_max o1" and "is_i64 (backoff_max o1)"
    and "\<forall>x\<in>set outs. case x of (step, err, ctx, w) \<Rightarrow>
          (err \<noteq> None \<or> step = StepBackoff) \<and> \<not> scheduler_fatal err \<and> ctx = None \<and> w = None"
  shows "fst (scheduler_run o1 b outs) = map (\<lambda>k. min (b * 2 ^ k) (backoff_max o1)) [0..<length outs]"
  using assms(1,2,4)
proof (induction outs arbitrary: b)
  case Nil
  then show ?case by simp
next
  case (Cons out outs)
  obtain step err ctx w where out: "out = (step, err, ctx, w)" by (cases out) auto
  have b: "is_i64 b" using Cons.prems assms(3) by (auto simp: is_i64_def)
  let ?n = "next_scheduler_backoff b (backoff_max o1)"
  have n: "?n = min (2 * b) (backoff_max o1)" by (rule next_backoff_exact(1) [OF Cons.prems(1) b assms(3)])
  have IH: "fst (scheduler_run o1 ?n outs) = map (\<lambda>k. min (?n * 2 ^ k) (backoff_max o1)) [0..<length outs]"
    using Cons.prems n by (intro Cons.IH) auto
  have pow: "min (?n * 2 ^ k) (backoff_max o1) = min (b * 2 ^ Suc k) (backoff_max o1)" for k
  proof (cases "2 * b \<le> backoff_max o1")
    case True
    then show ?thesis by (simp add: n algebra_simps)
  next
    case False
    have one: "(1 :: int) \<le> 2 ^ k" by simp
    have "0 < backoff_max o1" using Cons.prems(1,2) by simp
    then have "backoff_max o1 \<le> backoff_max o1 * 2 ^ k" "backoff_max o1 * 2 ^ k \<le> 2 * b * 2 ^ k"
      using one False by (simp_all add: mult_right_mono)
    then have "backoff_max o1 \<le> b * 2 ^ Suc k" unfolding power_Suc by linarith
    with False \<open>backoff_max o1 \<le> backoff_max o1 * 2 ^ k\<close> show ?thesis by (simp only: n min_def split: if_split) simp
  qed
  have "fst (scheduler_run o1 b (out # outs)) = b # fst (scheduler_run o1 ?n outs)"
    using Cons.prems(3) by (auto simp: out split: prod.splits)
  also have "\<dots> = map (\<lambda>k. min (b * 2 ^ k) (backoff_max o1)) [0..<length (out # outs)]"
    using Cons.prems(2) by (simp only: IH pow list.size(4) add_0_right add_Suc_right upt_conv_Cons)
      (simp add: upt_conv_Cons map_Suc_upt [symmetric] comp_def del: upt_Suc)
  finally show ?case .
qed

end
