(* ===== verification/Fq_Scheduler_Props.thy ===== *)
theory Fq_Scheduler_Props
  imports Fq_Scheduler Fq_Keys
begin

text \<open>What an attempt of the scheduler logs, part by part, and the properties of the scheduler.\<close>

subsection \<open>Accounting\<close>

fun started :: "'d sched_event \<Rightarrow> bool" where
  "started (EvStart _ r) \<longleftrightarrow> r = None"
| "started _ = False"

fun is_abort :: "'d sched_event \<Rightarrow> bool" where
  "is_abort EvAbort = True"
| "is_abort _ = False"

fun permit_taken :: "'d sched_event \<Rightarrow> bool" where
  "permit_taken (EvReserve r) \<longleftrightarrow> r \<noteq> None"
| "permit_taken _ = False"

text \<open>A turn that the coordinator granted under the token the scheduler asked with.\<close>

fun turn_granted :: "string \<Rightarrow> 64 word \<Rightarrow> 'd sched_event \<Rightarrow> bool" where
  "turn_granted tok g (EvNextTurn _ tok' (Inr (Some t))) \<longleftrightarrow>
     tok' = tok \<and> turn_token t = tok \<and> turn_observed t = g \<and> validate_turn t = None"
| "turn_granted tok g _ = False"

fun turn_settled :: "string \<Rightarrow> 64 word \<Rightarrow> 'd sched_event \<Rightarrow> bool" where
  "turn_settled tok g (EvRotate _ tok' g' _ _) \<longleftrightarrow> tok' = tok \<and> g' = g"
| "turn_settled tok g _ = False"

text \<open>Settling a turn without ready work, and the observation of an empty queue that permits it.\<close>

fun deactivates :: "'d sched_event \<Rightarrow> bool" where
  "deactivates (EvRotate _ _ _ has_ready _) \<longleftrightarrow> \<not> has_ready"
| "deactivates _ = False"

fun saw_empty :: "'d sched_event \<Rightarrow> bool" where
  "saw_empty (EvDepth _ _ n e) \<longleftrightarrow> n = 0 \<and> e = None"
| "saw_empty _ = False"

text \<open>Capacity that the attempt may hold: the coordinator granted it, or the call failed and may have
  been executed all the same.\<close>

fun capacity_taken :: "string \<Rightarrow> string \<Rightarrow> 'd sched_event \<Rightarrow> bool" where
  "capacity_taken t p (EvAcquire _ tenant prov r) \<longleftrightarrow> tenant = t \<and> prov = p \<and>
     (case r of Inl _ \<Rightarrow> True | Inr d \<Rightarrow> classify_reservation_decision d = Inr True)"
| "capacity_taken t p _ = False"

fun capacity_returned :: "string \<Rightarrow> string \<Rightarrow> 'd sched_event \<Rightarrow> bool" where
  "capacity_returned t p (EvRelease _ tenant prov _) \<longleftrightarrow> tenant = t \<and> prov = p"
| "capacity_returned t p (EvStart e r) \<longleftrightarrow> r = None \<and> we_tenant e = t \<and> we_provisional e = p"
| "capacity_returned t p _ = False"

fun delivered :: "'d \<Rightarrow> 'd sched_event \<Rightarrow> bool" where
  "delivered d (EvGet _ _ r _ _) \<longleftrightarrow> r = Some d"
| "delivered d _ = False"

fun delivery_settled :: "'d \<Rightarrow> 'd sched_event \<Rightarrow> bool" where
  "delivery_settled d (EvNack _ d' _) \<longleftrightarrow> d' = d"
| "delivery_settled d (EvStart e r) \<longleftrightarrow> r = None \<and> we_delivery e = d"
| "delivery_settled d _ = False"

fun requeued :: "'d sched_event \<Rightarrow> bool" where
  "requeued (EvNack _ _ e) \<longleftrightarrow> e = None"
| "requeued _ = False"

fun reactivates :: "'d sched_event \<Rightarrow> bool" where
  "reactivates (EvActivate _ _ _) = True"
| "reactivates _ = False"

text \<open>Calls with a fresh cleanup timeout.\<close>

fun fresh_timeout :: "'d sched_event \<Rightarrow> bool" where
  "fresh_timeout (EvNextTurn c _ _) \<longleftrightarrow> c \<noteq> CtxPrepare"
| "fresh_timeout (EvAcquire c _ _ _) \<longleftrightarrow> c \<noteq> CtxPrepare"
| "fresh_timeout (EvRotate c _ _ _ _) \<longleftrightarrow> c \<noteq> CtxPrepare"
| "fresh_timeout (EvRelease c _ _ _) \<longleftrightarrow> c \<noteq> CtxPrepare"
| "fresh_timeout (EvActivate c _ _) \<longleftrightarrow> c \<noteq> CtxPrepare"
| "fresh_timeout (EvGet c _ _ _ _) \<longleftrightarrow> c \<noteq> CtxPrepare"
| "fresh_timeout (EvDepth c _ _ _) \<longleftrightarrow> c \<noteq> CtxPrepare"
| "fresh_timeout (EvNack c _ _) \<longleftrightarrow> c \<noteq> CtxPrepare"
| "fresh_timeout _ = False"

definition accounted :: "'d sched_event list \<Rightarrow> bool" where
  "accounted l \<longleftrightarrow>
     occurs permit_taken l = occurs is_abort l + occurs started l \<and> occurs permit_taken l \<le> 1
     \<and> (\<forall>tok g. occurs (turn_granted tok g) l = occurs (turn_settled tok g) l)
     \<and> (\<forall>t p. occurs (capacity_taken t p) l = occurs (capacity_returned t p) l)
     \<and> (\<forall>d. occurs (delivered d) l = occurs (delivery_settled d) l)
     \<and> occurs requeued l = occurs reactivates l \<and> occurs deactivates l \<le> occurs saw_empty l
     \<and> occurs fresh_timeout l \<le> 5"

lemma validate_turn_tenant: "validate_turn t = None \<Longrightarrow> turn_tenant t \<noteq> []"
  by (auto simp: validate_turn_def validate_tenant_id_def validate_bounded_text_None)

subsection \<open>What each part logs\<close>

definition reports :: "'d sched_event list \<Rightarrow> bool" where
  "reports l \<longleftrightarrow> (\<forall>e\<in>set l. \<exists>x. e = EvReport x)"

definition quiet :: "('d sched_event \<Rightarrow> bool) \<Rightarrow> bool" where
  "quiet p \<longleftrightarrow> (\<forall>x. \<not> p (EvReport x))"

lemma occurs_reports [simp]: "reports l \<Longrightarrow> quiet p \<Longrightarrow> occurs p l = 0"
  by (auto simp: occurs_def reports_def quiet_def filter_empty_conv)

lemma quiet_preds [simp]:
  "quiet permit_taken" "quiet is_abort" "quiet started" "quiet (turn_settled t g)" "quiet (turn_granted t g)"
  "quiet (capacity_taken u p)" "quiet (capacity_returned u p)" "quiet (delivered d)" "quiet (delivery_settled d)"
  "quiet deactivates" "quiet saw_empty" "quiet requeued" "quiet reactivates" "quiet fresh_timeout"
  by (simp_all add: quiet_def)

lemma wp_report_when [wp_intros]:
  "(\<And>rs w'. reports rs \<Longrightarrow> Q () (w', l @ rs)) \<Longrightarrow> wp (report_when b e env) Q (w, l)"
  unfolding report_when_def
  by (intro wp_intros) (auto simp: reports_def dest: meta_spec [where x = "[]"])

lemma wp_rotate_turn [wp_intros]:
  "(\<And>err rs w'. reports rs \<Longrightarrow> Q err (w', l @ EvRotate ctx (turn_token t) (turn_observed t) hr err # rs)) \<Longrightarrow>
     wp (rotate_turn env fence ctx t hr) Q (w, l)"
  unfolding rotate_turn_def by (intro wp_intros) simp

lemma wp_release_provisional [wp_intros]:
  "(\<And>err rs w'. reports rs \<Longrightarrow> Q err (w', l @ EvRelease ctx tenant prov err # rs)) \<Longrightarrow>
     wp (release_provisional env fence ctx tenant prov) Q (w, l)"
  unfolding release_provisional_def by (intro wp_intros) simp

lemma wp_rotate_and_release [wp_intros]:
  "(\<And>err rs w'. reports rs \<Longrightarrow>
      Q err (w', l @ EvRotate CtxCleanup (turn_token t) (turn_observed t) hr err # rs)) \<Longrightarrow>
     wp (rotate_and_release env fence t hr prov False) Q (w, l)"
  "(\<And>e1 e2 rs rs' w'. reports rs \<Longrightarrow> reports rs' \<Longrightarrow>
      Q (errors_join [e1, e2]) (w', l @ EvRotate CtxCleanup (turn_token t) (turn_observed t) hr e1 # rs @
        EvRelease CtxCleanup (turn_tenant t) prov e2 # rs')) \<Longrightarrow>
     wp (rotate_and_release env fence t hr prov True) Q (w, l)"
  unfolding rotate_and_release_def by (intro wp_intros; simp)+

lemma wp_requeue_delivery [wp_intros]:
  "(\<And>err rs w'. reports rs \<Longrightarrow> err \<noteq> None \<Longrightarrow> Q err (w', l @ EvNack CtxCleanup d err # rs)) \<Longrightarrow>
   (\<And>err rs w'. reports rs \<Longrightarrow> Q err (w', l @ EvNack CtxCleanup d None # EvActivate CtxCleanup tenant err # rs)) \<Longrightarrow>
     wp (requeue_delivery env fence tenant d) Q (w, l)"
  unfolding requeue_delivery_def by (intro wp_intros) (auto simp: reports_def)

text \<open>The bill of an attempt that holds a turn and a reservation, and owes a delivery.\<close>

definition settles_all :: "processing_turn \<Rightarrow> string \<Rightarrow> 'd option \<Rightarrow> bool \<Rightarrow> 'd sched_event list \<Rightarrow> bool" where
  "settles_all turn prov owed st k \<longleftrightarrow>
     occurs permit_taken k = 0 \<and> occurs is_abort k = 0 \<and> occurs started k = (if st then 1 else 0)
     \<and> (\<forall>tok g. occurs (turn_granted tok g) k = 0 \<and> occurs (turn_settled tok g) k =
          (if turn_token turn = tok \<and> turn_observed turn = g then 1 else 0))
     \<and> occurs requeued k = occurs reactivates k \<and> occurs deactivates k \<le> occurs saw_empty k
     \<and> occurs fresh_timeout k \<le> 4
     \<and> (\<forall>t p. occurs (capacity_taken t p) k = 0
          \<and> occurs (capacity_returned t p) k = (if turn_tenant turn = t \<and> prov = p then 1 else 0))
     \<and> (\<forall>d. occurs (delivery_settled d) k = occurs (delivered d) k + (if owed = Some d then 1 else 0))"

lemma hand_off_bill:
  "appends (hand_off env cf fence gen turn prov got) (\<lambda>(_, _, st). settles_all turn prov got st)"
  apply (rule appendsI)
  unfolding hand_off_def cleanup_failed_handoff_def Let_def
  by (intro wp_intros; simp add: settles_all_def)


lemma with_reservation_bill:
  "appends (with_reservation env cf fence gen turn prov) (\<lambda>(_, _, st). settles_all turn prov None st)"
  apply (rule appendsI)
  unfolding with_reservation_def cleanup_unexpected_delivery_def
  by (intro wp_intros wp_appends [OF hand_off_bill]; auto simp add: settles_all_def)

definition settles_turn :: "processing_turn \<Rightarrow> bool \<Rightarrow> 'd sched_event list \<Rightarrow> bool" where
  "settles_turn turn st k \<longleftrightarrow>
     occurs permit_taken k = 0 \<and> occurs is_abort k = 0 \<and> occurs started k = (if st then 1 else 0)
     \<and> (\<forall>tok g. occurs (turn_granted tok g) k = 0 \<and> occurs (turn_settled tok g) k =
          (if turn_token turn = tok \<and> turn_observed turn = g then 1 else 0))
     \<and> occurs requeued k = occurs reactivates k \<and> occurs deactivates k \<le> occurs saw_empty k
     \<and> occurs fresh_timeout k \<le> 4
     \<and> (\<forall>t p. occurs (capacity_taken t p) k = occurs (capacity_returned t p) k)
     \<and> (\<forall>d. occurs (delivered d) k = occurs (delivery_settled d) k)"

lemma with_turn_bill:
  "appends (with_turn env cf fence gen turn) (\<lambda>(_, _, st). settles_turn turn st)"
  apply (rule appendsI)
  unfolding with_turn_def next_token_def
  by (intro wp_intros wp_appends [OF with_reservation_bill];
      simp add: settles_turn_def settles_all_def split: prod.splits)

definition settles_permit :: "bool \<Rightarrow> 'd sched_event list \<Rightarrow> bool" where
  "settles_permit st k \<longleftrightarrow>
     occurs permit_taken k = 0 \<and> occurs is_abort k = 0 \<and> occurs started k = (if st then 1 else 0)
     \<and> (\<forall>tok g. occurs (turn_granted tok g) k = occurs (turn_settled tok g) k)
     \<and> occurs requeued k = occurs reactivates k \<and> occurs deactivates k \<le> occurs saw_empty k
     \<and> occurs fresh_timeout k \<le> 5
     \<and> (\<forall>t p. occurs (capacity_taken t p) k = occurs (capacity_returned t p) k)
     \<and> (\<forall>d. occurs (delivered d) k = occurs (delivery_settled d) k)"

lemma settles_permit_turn:
  assumes "settles_turn turn st k" and "validate_turn turn = None" and "turn_token turn = tok"
  shows "settles_permit st (EvToken r # EvNextTurn c tok (Inr (Some turn)) # k)"
  using assms unfolding settles_turn_def settles_permit_def by auto

lemma settles_permit_none:
  "settles_permit False [EvToken r]"
  "reports rs \<Longrightarrow> settles_permit False (EvToken r # EvNextTurn c tok (Inl e) # rs)"
  "settles_permit False [EvToken r, EvNextTurn c tok (Inr None)]"
  "reports rs \<Longrightarrow> validate_turn turn \<noteq> None \<or> turn_token turn \<noteq> tok \<or> turn_tenant turn = [] \<Longrightarrow>
     settles_permit False (EvToken r # EvNextTurn c tok (Inr (Some turn)) # rs)"
  using validate_turn_tenant [of turn] by (auto simp: settles_permit_def)

lemma reports_one: "reports [EvReport e]"
  by (simp add: reports_def)

lemma with_permit_bill:
  "appends (with_permit env cf fence gen) (\<lambda>(_, _, st). settles_permit st)"
  apply (rule appendsI)
  unfolding with_permit_def next_token_def
  by (intro wp_intros wp_appends [OF with_turn_bill];
      auto simp: settles_permit_turn settles_permit_none reports_one split: prod.splits if_splits)

lemma run_one_accounted: "wp (run_one env cf ctx_err) (\<lambda>_ s. accounted (snd s)) (w, [])"
  unfolding run_one_def
  by (intro wp_intros wp_appends [OF with_permit_bill]; auto simp add: settles_permit_def accounted_def)

lemma logged_run_one: "logged (run_one env cf ctx_err) w = (r, l) \<Longrightarrow> accounted l"
  by (rule logged_wp [OF run_one_accounted])

text \<open>C31: an attempt of the scheduler leaves nothing behind. Whatever admission, token source,
  coordinator and broker answer, \<open>runOne\<close> gives back each thing it took: the permit is aborted
  or handed to a worker; a granted turn is settled exactly once and no other turn is; capacity
  that was granted, or may have been because the call failed, is released or handed to the
  worker exactly once; a delivery is requeued or handed to the worker exactly once; and every
  requeued delivery has its tenant reactivated. A turn is settled without ready work only after an
  empty queue was observed.\<close>

theorem attempt_leaves_nothing:
  "let l = snd (logged (run_one env cf ctx_err) w)
   in occurs permit_taken l = occurs is_abort l + occurs started l \<and> occurs permit_taken l \<le> 1
     \<and> (\<forall>tok g. occurs (turn_granted tok g) l = occurs (turn_settled tok g) l)
     \<and> (\<forall>t p. occurs (capacity_taken t p) l = occurs (capacity_returned t p) l)
     \<and> (\<forall>d. occurs (delivered d) l = occurs (delivery_settled d) l)
     \<and> occurs requeued l = occurs reactivates l \<and> occurs deactivates l \<le> occurs saw_empty l"
proof -
  obtain r l where "logged (run_one env cf ctx_err) w = (r, l)" by fastforce
  with logged_run_one [OF this] show ?thesis by (simp add: accounted_def)
qed

definition no_options :: scheduler_options where
  "no_options = \<lparr> idle_interval = 0, backoff_initial = 0, backoff_max = 0, cleanup_timeout = 0 \<rparr>"

lemma scheduler_zero_options:
  "scheduler_with_defaults no_options cf =
    (let t = default_scheduler_cleanup_timeout cf
     in if t \<le> 0 \<or> t > max_resource_duration \<or> i64 (prepare_timeout cf + i64 (5 * t)) \<ge> recovery_drain_timeout cf then Inl []
        else Inr \<lparr> idle_interval = 25000000, backoff_initial = 50000000, backoff_max = 5000000000, cleanup_timeout = t \<rparr>)"
proof -
  have ok: "5000000000 \<le> max_resource_duration" "50000000 \<le> max_resource_duration" "25000000 \<le> max_resource_duration"
    by (simp_all add: max_resource_duration_def)
  have t: "duration_ok t = (if t \<le> 0 \<or> t > max_resource_duration then Some [] else None)" for t
    by (simp add: duration_ok_def fail_when_def plain_err_def)
  show ?thesis
    unfolding scheduler_with_defaults_def no_options_def
    using ok by (simp add: Let_def t check_err_def)
qed


lemma default_timeout_accepted:
  assumes "validate_resource_config cf = None"
  shows "isl (scheduler_with_defaults no_options cf) \<longleftrightarrow> recovery_drain_timeout cf - prepare_timeout cf < 6"
proof -
  note c = validate_resource_configD [OF assms]
  have m: "max_resource_duration = 86400000000000" by (simp add: max_resource_duration_def)
  let ?R = "recovery_drain_timeout cf - prepare_timeout cf"
  let ?b = "(?R - 1) div 5"
  have R: "is_i64 ?R" "2 \<le> ?R" using c(5-7,10) m by (simp_all add: is_i64_def)
  define t where "t = min (prepare_timeout cf) ?b"
  have d: "default_scheduler_cleanup_timeout cf = t"
    unfolding default_scheduler_cleanup_timeout_def t_def i64_id [OF R(1)] Let_def min_def using R(2) by simp
  have t5: "5 * t \<le> ?R - 1" unfolding t_def by linarith
  have t0: "0 \<le> t" "t \<le> prepare_timeout cf" unfolding t_def using R(2) c(5) by simp_all
  have pos: "0 < t \<longleftrightarrow> 6 \<le> ?R" unfolding t_def using c(5) by auto
  have "is_i64 (5 * t)" "is_i64 (prepare_timeout cf + 5 * t)" using t0 t5 c(5,10) m R by (simp_all add: is_i64_def)
  then have w: "i64 (prepare_timeout cf + i64 (5 * t)) = prepare_timeout cf + 5 * t" by simp
  have "\<not> t > max_resource_duration" "prepare_timeout cf + 5 * t < recovery_drain_timeout cf"
    using t0 t5 c(6,7,10) by linarith+
  then show ?thesis using pos t0 unfolding scheduler_zero_options Let_def d w by auto
qed

text \<open>C32: an attempt fits the recovery drain. With accepted options, the turn request, the prepare
  window and all calls with a timeout of their own together take less than the drain timeout
  that recovery waits before it closes the shared clients, and the bound is computed without
  overflow. For an unset cleanup timeout the default is accepted whenever the prepare timeout
  leaves six nanoseconds of the drain timeout.\<close>

theorem attempt_fits_drain:
  assumes "validate_resource_config cf = None" and "scheduler_with_defaults o1 cf = Inr o2"
  shows "prepare_timeout cf + int (occurs fresh_timeout (snd (logged (run_one env cf ctx_err) w))) * cleanup_timeout o2
      < recovery_drain_timeout cf
    \<and> is_i64 (5 * cleanup_timeout o2) \<and> is_i64 (prepare_timeout cf + 5 * cleanup_timeout o2)
    \<and> 0 < idle_interval o2 \<and> 0 < backoff_initial o2
    \<and> (isl (scheduler_with_defaults no_options cf)
        \<longleftrightarrow> recovery_drain_timeout cf - prepare_timeout cf < 6)"
proof -
  note c = validate_resource_configD [OF assms(1)]
  note o2 = scheduler_options_ok [OF assms(2)]
  obtain r l where run: "logged (run_one env cf ctx_err) w = (r, l)" by fastforce
  have fresh: "occurs fresh_timeout l \<le> 5" using logged_run_one [OF run] by (simp add: accounted_def)
  have w: "is_i64 (5 * cleanup_timeout o2)" "is_i64 (prepare_timeout cf + 5 * cleanup_timeout o2)"
    using o2(5,6) c(5-7,10) by (simp_all add: is_i64_def max_resource_duration_def)
  have "int (occurs fresh_timeout l) * cleanup_timeout o2 \<le> 5 * cleanup_timeout o2"
    using fresh o2(5) by (intro mult_right_mono) simp_all
  moreover have "prepare_timeout cf + 5 * cleanup_timeout o2 < recovery_drain_timeout cf"
    using o2(7) w by simp
  ultimately have "prepare_timeout cf + int (occurs fresh_timeout l) * cleanup_timeout o2 < recovery_drain_timeout cf"
    by linarith
  then show ?thesis using w o2 default_timeout_accepted [OF assms(1)] by (simp add: run)
qed

text \<open>The waits of the scheduler are bounded both ways. With accepted options every wait is the
  idle interval or between the initial and the maximal backoff, so the loop neither spins on errors
  nor stops retrying, and \<open>n\<close> failures in a row wait \<open>initial\<close>, \<open>2 initial\<close>, \<open>4 initial\<close>, ...
  up to the maximum, without overflow for any maximum.\<close>

theorem scheduler_waits:
  assumes "scheduler_with_defaults o1 cf = Inr o2"
  shows "(\<forall>d\<in>set (fst (scheduler_run o2 (backoff_initial o2) outs)).
        d = idle_interval o2 \<or> (backoff_initial o2 \<le> d \<and> d \<le> backoff_max o2))
    \<and> fst (scheduler_run o2 (backoff_initial o2) (replicate n (StepBackoff, None, None, None))) =
        map (\<lambda>k. min (backoff_initial o2 * 2 ^ k) (backoff_max o2)) [0..<n]
    \<and> 0 < idle_interval o2 \<and> 0 < backoff_initial o2"
proof -
  note o2 = scheduler_options_ok [OF assms]
  have m: "is_i64 (backoff_max o2)" using o2(2-4) by (simp add: is_i64_def max_resource_duration_def)
  have "fst (scheduler_run o2 (backoff_initial o2) (replicate n (StepBackoff, None, None, None))) =
        map (\<lambda>k. min (backoff_initial o2 * 2 ^ k) (backoff_max o2)) [0..<n]"
    using scheduler_run_failures [OF o2(2,3) m, of "replicate n (StepBackoff, None, None, None)"]
    by (simp add: scheduler_fatal_def)
  with scheduler_run_delays [OF o2(2,3) m order_refl o2(3), of outs] o2(1,2) show ?thesis by simp
qed

subsection \<open>Witnesses\<close>

definition sample_config :: resource_config where
  "sample_config = \<lparr> rc_key = ''rag'', rc_validate_task_id = Some (\<lambda>_. True), local_workers = 2, rc_global = 2,
     rc_base = 1, rc_burst = 2, rc_borrow = True, reconcile_interval = 1000000000,
     expired_running_sweep_interval = 1000000000, reconcile_page_size = 100, reservation_ttl = 60000000000,
     reservation_heartbeat = 20000000000, prepare_timeout = 10000000000, provisional_ttl = 20000000000,
     processing_turn_ttl = 20000000000, recovery_drain_timeout = 60000000000, dispatch_interval = 1000000000,
     publish_attempt_timeout = 15000000000 \<rparr>"

lemma sample_config_valid: "validate_resource_config sample_config = None"
  using sample_names_valid
  by (simp add: validate_resource_config_def sample_config_def duration_ok_None capacity_limits_of_def
      validate_limits_def validate_page_limit_def max_recovery_page_size_def max_resource_duration_def)

definition sample_options :: scheduler_options where
  "sample_options = \<lparr> idle_interval = 25000000, backoff_initial = 50000000, backoff_max = 5000000000,
     cleanup_timeout = 9999999999 \<rparr>"

lemma sample_options_default: "scheduler_with_defaults no_options sample_config = Inr sample_options"
  unfolding scheduler_zero_options
  by (simp add: default_scheduler_cleanup_timeout_def sample_config_def sample_options_def Let_def
      max_resource_duration_def i64_def)

definition idle_env :: "(unit, unit) sched_env" where
  "idle_env = \<lparr> try_reserve = State_Monad.return None, abort_permit = State_Monad.return (),
     start_worker = (\<lambda>_. State_Monad.return None), report_failure = (\<lambda>_. State_Monad.return ()),
     token_source = State_Monad.return (Inl []), coord_next_turn = (\<lambda>_ _ _ _. State_Monad.return (Inr None)),
     coord_acquire = (\<lambda>_ _ _ _ _ _. State_Monad.return (Inl [])), coord_rotate = (\<lambda>_ _ _ _ _. State_Monad.return None),
     coord_release = (\<lambda>_ _ _ _. State_Monad.return None), coord_ensure_active = (\<lambda>_ _ _. State_Monad.return None),
     rabbit_get = (\<lambda>_ _. State_Monad.return (None, False, None)), rabbit_depth = (\<lambda>_ _. State_Monad.return (0, None)),
     delivery_nack = (\<lambda>_ _. State_Monad.return None) \<rparr>"

theorem attempt_fits_drain_witness:
  "10000000000 + int (occurs fresh_timeout (snd (logged (run_one idle_env sample_config None) ()))) * 9999999999 < (60000000000 :: int)"
  using attempt_fits_drain [OF sample_config_valid sample_options_default, of idle_env None "()"]
  by (simp add: sample_config_def sample_options_def)

theorem scheduler_waits_witness:
  "fst (scheduler_run sample_options 50000000 (replicate 8 (StepBackoff, None, None, None))) =
     map (\<lambda>k. min (50000000 * 2 ^ k) 5000000000) [0..<8]"
  using scheduler_waits [OF sample_options_default, of "[]" 8] by (simp add: sample_options_def)

end
