(* ===== verification/Fq_Gate.thy ===== *)
theory Fq_Gate
  imports Fq_Effects
begin

text \<open>
  The publisher gate of the dispatcher (\<^verbatim>\<open>dispatcher.go\<close>): admission of publish attempts under one READY
  fence, and the drain channel on which recovery waits. Each operation below is one critical
  section of \<open>gateMu\<close>, so goroutines interleave as sequences of these operations.
\<close>

subsection \<open>Channels\<close>

text \<open>The only use of channels here is \<open>close\<close>: a channel is a number, and the heap knows the closed
  ones. Closing a closed channel panics.\<close>

record chans =
  next_chan :: nat
  closed_chans :: "nat list"
  chan_panic :: bool

definition make_chan :: "chans \<Rightarrow> nat \<times> chans" where
  "make_chan h = (next_chan h, h\<lparr> next_chan := next_chan h + 1 \<rparr>)"

definition close_chan :: "nat \<Rightarrow> chans \<Rightarrow> chans" where
  "close_chan ch h =
     (if ch \<in> set (closed_chans h) then h\<lparr> chan_panic := True \<rparr>
      else h\<lparr> closed_chans := ch # closed_chans h \<rparr>)"

subsection \<open>The gate\<close>

record pub_gate =
  pg_open :: bool
  pg_fence :: resource_fence
  pg_gen :: "64 word"
  pg_in_flight :: int
  pg_drained :: nat
  pg_chans :: chans

definition new_closed_gate :: "resource_fence \<Rightarrow> pub_gate" where
  "new_closed_gate fence =
     (let (ch, h) = make_chan \<lparr> next_chan = 0, closed_chans = [], chan_panic = False \<rparr>
      in \<lparr> pg_open = False, pg_fence = fence, pg_gen = 1, pg_in_flight = 0, pg_drained = ch,
           pg_chans = close_chan ch h \<rparr>)"

definition close_publisher_gate :: "pub_gate \<Rightarrow> pub_gate" where
  "close_publisher_gate g = g\<lparr> pg_open := False, pg_gen := pg_gen g + 1 \<rparr>"

definition open_publisher_gate :: "resource_fence \<Rightarrow> pub_gate \<Rightarrow> goerr \<times> pub_gate" where
  "open_publisher_gate fence g =
     (if validate_fence fence \<noteq> None then (validate_fence fence, g)
      else if pg_in_flight g \<noteq> 0 then (errors_join [wraps ErrResourceNotReady, wraps ErrPublisherNotDrained], g)
      else (None, g\<lparr> pg_fence := fence, pg_open := True, pg_gen := pg_gen g + 1 \<rparr>))"

definition publisher_fence :: "pub_gate \<Rightarrow> (resource_fence \<times> 64 word) result" where
  "publisher_fence g =
     (if \<not> pg_open g then Inl [ErrResourceNotReady, ErrPublisherGateClosed]
      else Inr (pg_fence g, pg_gen g))"

definition begin_publisher_attempt :: "pub_gate \<Rightarrow> (resource_fence \<times> 64 word) result \<times> pub_gate" where
  "begin_publisher_attempt g =
     (if \<not> pg_open g then (Inl [ErrResourceNotReady, ErrPublisherGateClosed], g)
      else
        let g = (if pg_in_flight g = 0
                 then (let (ch, h) = make_chan (pg_chans g) in g\<lparr> pg_drained := ch, pg_chans := h \<rparr>)
                 else g);
            g = g\<lparr> pg_in_flight := pg_in_flight g + 1 \<rparr>
        in (Inr (pg_fence g, pg_gen g), g))"

text \<open>The body of the \<open>finish\<close> closure, which \<open>sync.Once\<close> runs at most once per attempt.\<close>

definition finish_publisher_attempt :: "pub_gate \<Rightarrow> pub_gate" where
  "finish_publisher_attempt g =
     (let g = g\<lparr> pg_in_flight := pg_in_flight g - 1 \<rparr>
      in if pg_in_flight g = 0 then g\<lparr> pg_chans := close_chan (pg_drained g) (pg_chans g) \<rparr> else g)"

definition close_publisher_gate_for :: "resource_fence \<Rightarrow> 64 word \<Rightarrow> pub_gate \<Rightarrow> pub_gate" where
  "close_publisher_gate_for fence gen g =
     (if pg_fence g = fence \<and> pg_gen g = gen then g\<lparr> pg_open := False, pg_gen := pg_gen g + 1 \<rparr> else g)"

definition authoritative_fatal :: "goerr \<Rightarrow> bool" where
  "authoritative_fatal e \<longleftrightarrow> errors_is e ErrAuthoritativeWriterMismatch \<or> errors_is e ErrAuthoritativeStateCorrupt"

text \<open>\<open>stalePublisherSourceFailure\<close> wraps an error: it adds its own mark to what \<open>errors.Is\<close> sees.\<close>

definition stale_failure :: "goerr \<Rightarrow> goerr" where
  "stale_failure e = (case e of None \<Rightarrow> None | Some ss \<Rightarrow> Some (ErrStalePublisherSource # ss))"

definition classify_fatal_source_failure ::
  "resource_fence \<Rightarrow> 64 word \<Rightarrow> goerr \<Rightarrow> pub_gate \<Rightarrow> goerr \<times> pub_gate" where
  "classify_fatal_source_failure fence gen e g =
     (if \<not> authoritative_fatal e then (e, g)
      else if pg_fence g = fence \<and> pg_gen g = gen then (e, g\<lparr> pg_open := False, pg_gen := pg_gen g + 1 \<rparr>)
      else if pg_open g \<and> (pg_fence g \<noteq> fence \<or> pg_gen g \<noteq> gen)
        \<and> errors_is e ErrAuthoritativeWriterMismatch \<and> \<not> errors_is e ErrAuthoritativeStateCorrupt
      then (stale_failure e, g)
      else (e, g))"

subsection \<open>Interleavings\<close>

text \<open>
  The attempts of all goroutines, by number: what \<open>begin\<close> gave them and whether their
  \<open>finish\<close> has run. \<open>GFinish\<close> may be repeated, as the code does.
\<close>

record gate_world =
  gw_gate :: pub_gate
  gw_attempts :: "(resource_fence \<times> 64 word \<times> bool) list"

datatype gate_op = GClose | GOpen resource_fence | GBegin | GFinish nat | GCloseFor resource_fence "64 word"

definition gate_exec :: "gate_op \<Rightarrow> gate_world \<Rightarrow> gate_world" where
  "gate_exec op w =
     (case op of
        GClose \<Rightarrow> w\<lparr> gw_gate := close_publisher_gate (gw_gate w) \<rparr>
      | GOpen fence \<Rightarrow> w\<lparr> gw_gate := snd (open_publisher_gate fence (gw_gate w)) \<rparr>
      | GBegin \<Rightarrow> (case begin_publisher_attempt (gw_gate w) of
                     (Inl _, g) \<Rightarrow> w\<lparr> gw_gate := g \<rparr>
                   | (Inr (fence, gen), g) \<Rightarrow>
                       w\<lparr> gw_gate := g, gw_attempts := gw_attempts w @ [(fence, gen, False)] \<rparr>)
      | GFinish i \<Rightarrow>
          (if i < length (gw_attempts w) \<and> \<not> snd (snd (gw_attempts w ! i)) then
             w\<lparr> gw_gate := finish_publisher_attempt (gw_gate w),
                gw_attempts := (gw_attempts w)[i := (case gw_attempts w ! i of (f, g, _) \<Rightarrow> (f, g, True))] \<rparr>
           else w)
      | GCloseFor fence gen \<Rightarrow> w\<lparr> gw_gate := close_publisher_gate_for fence gen (gw_gate w) \<rparr>)"

definition new_gate_world :: "resource_fence \<Rightarrow> gate_world" where
  "new_gate_world fence = \<lparr> gw_gate = new_closed_gate fence, gw_attempts = [] \<rparr>"

inductive gate_reachable :: "gate_world \<Rightarrow> bool" where
  gate_start: "gate_reachable (new_gate_world fence)"
| gate_step: "gate_reachable w \<Longrightarrow> gate_reachable (gate_exec op w)"

definition live_attempts :: "gate_world \<Rightarrow> (resource_fence \<times> 64 word) list" where
  "live_attempts w = map (\<lambda>(f, g, _). (f, g)) (filter (\<lambda>(_, _, done). \<not> done) (gw_attempts w))"

definition gate_inv :: "gate_world \<Rightarrow> bool" where
  "gate_inv w \<longleftrightarrow>
     pg_in_flight (gw_gate w) = int (length (live_attempts w))
     \<and> (\<forall>(f, g)\<in>set (live_attempts w). f = pg_fence (gw_gate w) \<and> (pg_open (gw_gate w) \<longrightarrow> g = pg_gen (gw_gate w)))
     \<and> (pg_drained (gw_gate w) \<in> set (closed_chans (pg_chans (gw_gate w))) \<longleftrightarrow> live_attempts w = [])
     \<and> pg_drained (gw_gate w) < next_chan (pg_chans (gw_gate w))
     \<and> (\<forall>ch\<in>set (closed_chans (pg_chans (gw_gate w))). ch < next_chan (pg_chans (gw_gate w)))
     \<and> \<not> chan_panic (pg_chans (gw_gate w))"

lemma live_new: "live_attempts (w\<lparr> gw_attempts := gw_attempts w @ [(f, g, False)] \<rparr>) = live_attempts w @ [(f, g)]"
  "live_attempts (w\<lparr> gw_gate := x \<rparr>) = live_attempts w"
  by (simp_all add: live_attempts_def)

lemma live_finish:
  assumes "i < length as" and "as ! i = (f, g, False)"
  shows "\<exists>xs ys. filter (\<lambda>(_, _, done). \<not> done) as = xs @ (f, g, False) # ys
    \<and> filter (\<lambda>(_, _, done). \<not> done) (as[i := (f, g, True)]) = xs @ ys"
proof -
  have split: "as = take i as @ (f, g, False) # drop (Suc i) as" using assms id_take_nth_drop by metis
  have upd: "as[i := (f, g, True)] = take i as @ (f, g, True) # drop (Suc i) as"
    using assms(1) by (simp add: upd_conv_take_nth_drop)
  have a: "filter (\<lambda>(_, _, done). \<not> done) as = filter (\<lambda>(_, _, done). \<not> done) (take i as)
      @ (f, g, False) # filter (\<lambda>(_, _, done). \<not> done) (drop (Suc i) as)"
    by (subst split) simp
  have b: "filter (\<lambda>(_, _, done). \<not> done) (as[i := (f, g, True)]) =
      filter (\<lambda>(_, _, done). \<not> done) (take i as) @ filter (\<lambda>(_, _, done). \<not> done) (drop (Suc i) as)"
    unfolding upd by simp
  from a b show ?thesis by blast
qed

lemma chans_simps [simp]:
  "close_chan ch h = (if ch \<in> set (closed_chans h) then h\<lparr> chan_panic := True \<rparr>
     else h\<lparr> closed_chans := ch # closed_chans h \<rparr>)"
  "make_chan h = (next_chan h, h\<lparr> next_chan := next_chan h + 1 \<rparr>)"
  by (simp_all add: close_chan_def make_chan_def)

lemma gate_begin_inv:
  assumes "gate_inv w"
  shows "gate_inv (gate_exec GBegin w)"
proof (cases "pg_open (gw_gate w)")
  case False
  then show ?thesis using assms by (simp add: gate_exec_def begin_publisher_attempt_def)
next
  case True
  then have l: "live_attempts (gate_exec GBegin w) = live_attempts w @ [(pg_fence (gw_gate w), pg_gen (gw_gate w))]"
    by (simp add: gate_exec_def begin_publisher_attempt_def Let_def live_attempts_def)
  have g: "gw_gate (gate_exec GBegin w) = snd (begin_publisher_attempt (gw_gate w))"
    using True by (simp add: gate_exec_def begin_publisher_attempt_def Let_def)
  show ?thesis
    unfolding gate_inv_def l g using True assms
    by (auto simp: gate_inv_def begin_publisher_attempt_def Let_def less_Suc_eq)
qed

lemma gate_finish_inv:
  assumes "gate_inv w"
  shows "gate_inv (gate_exec (GFinish i) w)"
proof (cases "i < length (gw_attempts w) \<and> \<not> snd (snd (gw_attempts w ! i))")
  case False
  then show ?thesis using assms by (auto simp: gate_exec_def)
next
  case True
  then obtain f g where a: "gw_attempts w ! i = (f, g, False)" by (cases "gw_attempts w ! i") auto
  let ?v = "gate_exec (GFinish i) w"
  have v: "?v = w\<lparr> gw_gate := finish_publisher_attempt (gw_gate w), gw_attempts := (gw_attempts w)[i := (f, g, True)] \<rparr>"
    using True a by (simp add: gate_exec_def)
  obtain xs ys where "filter (\<lambda>(_, _, done). \<not> done) (gw_attempts w) = xs @ (f, g, False) # ys"
    "filter (\<lambda>(_, _, done). \<not> done) ((gw_attempts w)[i := (f, g, True)]) = xs @ ys"
    using live_finish [OF _ a] True by blast
  then obtain us vs where l: "live_attempts w = us @ (f, g) # vs" "live_attempts ?v = us @ vs"
    unfolding v by (simp add: live_attempts_def)
  have n: "pg_in_flight (gw_gate w) = int (length us) + int (length vs) + 1"
    using assms l(1) by (simp add: gate_inv_def)
  have fin: "gw_gate ?v = (if us @ vs = [] then (gw_gate w)\<lparr> pg_in_flight := 0,
      pg_chans := close_chan (pg_drained (gw_gate w)) (pg_chans (gw_gate w)) \<rparr>
      else (gw_gate w)\<lparr> pg_in_flight := int (length us) + int (length vs) \<rparr>)"
  proof (cases "us @ vs = []")
    case False
    then have "0 < length us + length vs" by auto
    then have "int (length us) + int (length vs) \<noteq> 0" by linarith
    then have "finish_publisher_attempt (gw_gate w) = (gw_gate w)\<lparr> pg_in_flight := int (length us) + int (length vs) \<rparr>"
      using n by (simp add: finish_publisher_attempt_def Let_def)
    then show ?thesis using False by (simp only: v if_False) simp
  qed (simp add: v n finish_publisher_attempt_def Let_def del: chans_simps)
  show ?thesis
    unfolding gate_inv_def l(2) fin using assms l(1)
    by (auto simp: gate_inv_def)
qed

lemma gate_exec_inv:
  assumes "gate_inv w"
  shows "gate_inv (gate_exec op w)"
proof (cases op)
  case GBegin
  then show ?thesis using gate_begin_inv [OF assms] by simp
next
  case (GFinish i)
  then show ?thesis using gate_finish_inv [OF assms] by simp
next
  case GClose
  then show ?thesis using assms by (auto simp: gate_exec_def gate_inv_def live_new close_publisher_gate_def)
next
  case (GOpen f)
  then show ?thesis
    using assms by (auto simp: gate_exec_def gate_inv_def live_new open_publisher_gate_def)
next
  case (GCloseFor f g)
  then show ?thesis
    using assms by (auto simp: gate_exec_def gate_inv_def live_new close_publisher_gate_for_def)
qed

lemma gate_start_inv: "gate_inv (new_gate_world fence)"
  by (simp add: gate_inv_def new_gate_world_def new_closed_gate_def live_attempts_def)

lemma gate_reachable_inv: "gate_reachable w \<Longrightarrow> gate_inv w"
  by (induction rule: gate_reachable.induct) (simp_all add: gate_start_inv gate_exec_inv)

subsection \<open>Waiting for a drain\<close>

text \<open>
  The contract behind every \<open>drained\<close> channel of this program: a counter of live attempts, and the
  channel that is made when the first attempt enters and closed when the last one leaves. A
  waiter takes the channel of the moment and waits until it is closed.
\<close>

locale drain_service =
  fixes step :: "'s \<Rightarrow> 's \<Rightarrow> bool"
    and inv :: "'s \<Rightarrow> bool"
    and live :: "'s \<Rightarrow> nat"
    and drained :: "'s \<Rightarrow> nat"
    and closed :: "'s \<Rightarrow> nat set"
    and shut :: "'s \<Rightarrow> bool"
  assumes step_inv: "inv s \<Longrightarrow> step s t \<Longrightarrow> inv t"
    and drained_closed: "inv s \<Longrightarrow> drained s \<in> closed s \<longleftrightarrow> live s = 0"
    and shut_step: "inv s \<Longrightarrow> step s t \<Longrightarrow> shut s \<Longrightarrow> shut t \<Longrightarrow> drained t = drained s \<and> live t \<le> live s"
begin

definition quiet_step :: "'s \<Rightarrow> 's \<Rightarrow> bool" where
  "quiet_step s t \<longleftrightarrow> step s t \<and> shut s \<and> shut t"

lemma quiet_run:
  assumes "quiet_step\<^sup>*\<^sup>* s t" and "inv s"
  shows "inv t \<and> drained t = drained s \<and> live t \<le> live s"
  using assms
proof (induction rule: rtranclp_induct)
  case base
  then show ?case by simp
next
  case (step t u)
  then show ?case using step_inv shut_step unfolding quiet_step_def by (metis le_trans)
qed

lemma wait_returns_drained:
  assumes "quiet_step\<^sup>*\<^sup>* s t" and "inv s" and "drained s \<in> closed t"
  shows "live t = 0"
  using quiet_run [OF assms(1,2)] assms(3) drained_closed by metis

end

definition gate_sections :: "gate_world \<Rightarrow> gate_world \<Rightarrow> bool" where
  "gate_sections w v \<longleftrightarrow> (\<exists>op. v = gate_exec op w)"

definition gate_closed_chans :: "gate_world \<Rightarrow> nat set" where
  "gate_closed_chans w = set (closed_chans (pg_chans (gw_gate w)))"

lemma gate_shut_step:
  assumes "\<not> pg_open (gw_gate w)" and "\<not> pg_open (gw_gate (gate_exec op w))"
  shows "pg_drained (gw_gate (gate_exec op w)) = pg_drained (gw_gate w)
    \<and> length (live_attempts (gate_exec op w)) \<le> length (live_attempts w)"
proof (cases op)
  case (GFinish i)
  show ?thesis
  proof (cases "i < length (gw_attempts w) \<and> \<not> snd (snd (gw_attempts w ! i))")
    case True
    then obtain f g where a: "gw_attempts w ! i = (f, g, False)" by (cases "gw_attempts w ! i") auto
    then have "length (live_attempts (gate_exec op w)) \<le> length (live_attempts w)"
      using live_finish [OF _ a] True by (auto simp: GFinish gate_exec_def live_attempts_def)
    then show ?thesis using True a by (simp add: GFinish gate_exec_def finish_publisher_attempt_def Let_def)
  next
    case False
    then show ?thesis by (auto simp: GFinish gate_exec_def)
  qed
qed (use assms in \<open>auto simp: gate_exec_def live_new close_publisher_gate_def open_publisher_gate_def
    begin_publisher_attempt_def close_publisher_gate_for_def\<close>)

interpretation publisher: drain_service gate_sections gate_inv "\<lambda>w. length (live_attempts w)"
    "\<lambda>w. pg_drained (gw_gate w)" gate_closed_chans "\<lambda>w. \<not> pg_open (gw_gate w)"
proof unfold_locales
  show "gate_inv s \<Longrightarrow> gate_sections s t \<Longrightarrow> gate_inv t" for s t
    using gate_exec_inv by (auto simp: gate_sections_def)
  show "gate_inv s \<Longrightarrow> pg_drained (gw_gate s) \<in> gate_closed_chans s \<longleftrightarrow> length (live_attempts s) = 0" for s
    by (simp add: gate_inv_def gate_closed_chans_def)
  show "gate_inv s \<Longrightarrow> gate_sections s t \<Longrightarrow> \<not> pg_open (gw_gate s) \<Longrightarrow> \<not> pg_open (gw_gate t) \<Longrightarrow>
      pg_drained (gw_gate t) = pg_drained (gw_gate s) \<and> length (live_attempts t) \<le> length (live_attempts s)" for s t
    using gate_shut_step by (auto simp: gate_sections_def)
qed


subsection \<open>Properties\<close>

text \<open>C33: the publisher gate never overlaps two recovery epochs. However the operations of all
  goroutines interleave, the attempts in flight all carry the fence of the gate, and while the
  gate is open its current generation; a new fence is installed only when none is in flight; an
  attempt is admitted only while the gate is open; the counter is exact although \<open>finish\<close> may be
  called repeatedly; and no channel is closed twice, which would panic.\<close>

theorem publisher_epochs_disjoint:
  assumes "gate_reachable w"
  shows "pg_in_flight (gw_gate w) = int (length (live_attempts w))
    \<and> (\<forall>a\<in>set (live_attempts w). fst a = pg_fence (gw_gate w) \<and> (\<not> pg_open (gw_gate w) \<or> snd a = pg_gen (gw_gate w)))
    \<and> (fst (open_publisher_gate fence (gw_gate w)) = None \<longleftrightarrow> validate_fence fence = None \<and> live_attempts w = [])
    \<and> (isl (fst (begin_publisher_attempt (gw_gate w))) \<longleftrightarrow> \<not> pg_open (gw_gate w))
    \<and> \<not> chan_panic (pg_chans (gw_gate w))"
  using gate_reachable_inv [OF assms]
  by (auto simp: gate_inv_def open_publisher_gate_def begin_publisher_attempt_def wraps_def Let_def)

definition sample_gate_fence :: resource_fence where
  "sample_gate_fence = \<lparr> fence_epoch = replicate 32 CHR ''0'', fence_writer = replicate 64 CHR ''a'' \<rparr>"

lemma sample_gate_fence_valid: "validate_fence sample_gate_fence = None"
  by (simp add: validate_fence_def sample_gate_fence_def lower_hex_def is_lower_hex_char_def list_all_iff)

definition busy_gate :: gate_world where
  "busy_gate = gate_exec GBegin (gate_exec (GOpen sample_gate_fence) (new_gate_world sample_gate_fence))"

lemma busy_gate_reachable: "gate_reachable busy_gate"
  unfolding busy_gate_def by (intro gate_step gate_start)

lemma busy_gate_live: "live_attempts busy_gate = [(sample_gate_fence, 2)]" "pg_open (gw_gate busy_gate)"
  by (simp_all add: busy_gate_def gate_exec_def new_gate_world_def new_closed_gate_def open_publisher_gate_def
      sample_gate_fence_valid begin_publisher_attempt_def live_attempts_def)

theorem publisher_epochs_disjoint_witness:
  "fst (open_publisher_gate sample_gate_fence (gw_gate busy_gate)) \<noteq> None"
  using publisher_epochs_disjoint [OF busy_gate_reachable, of sample_gate_fence] by (simp add: busy_gate_live)

text \<open>Waiting for the drain waits for every admitted attempt. If a waiter takes the channel of a
  closed gate, and the gate is not reopened meanwhile, then by the time the channel is
  closed no attempt is in flight, whichever operations happened in between.\<close>

theorem publisher_drain_complete:
  assumes "gate_reachable w" and "publisher.quiet_step\<^sup>*\<^sup>* w v"
    and "pg_drained (gw_gate w) \<in> gate_closed_chans v"
  shows "live_attempts v = [] \<and> pg_in_flight (gw_gate v) = 0"
proof -
  note inv = gate_reachable_inv [OF assms(1)]
  have "live_attempts v = []" using publisher.wait_returns_drained [OF assms(2) inv assms(3)] by simp
  then show ?thesis using publisher.quiet_run [OF assms(2) inv] by (simp add: gate_inv_def)
qed

theorem publisher_drain_complete_witness:
  "live_attempts (gate_exec (GFinish 0) (gate_exec GClose busy_gate)) = []"
proof -
  let ?c = "gate_exec GClose busy_gate"
  have r: "gate_reachable ?c" by (intro gate_step busy_gate_reachable)
  have run: "publisher.quiet_step\<^sup>*\<^sup>* ?c (gate_exec (GFinish 0) ?c)"
  proof (intro r_into_rtranclp)
    have "gate_sections ?c (gate_exec (GFinish 0) ?c)" unfolding gate_sections_def by blast
    moreover have "\<not> pg_open (gw_gate ?c)" "\<not> pg_open (gw_gate (gate_exec (GFinish 0) ?c))"
      by (simp_all add: gate_exec_def close_publisher_gate_def finish_publisher_attempt_def Let_def)
    ultimately show "publisher.quiet_step ?c (gate_exec (GFinish 0) ?c)" by (simp add: publisher.quiet_step_def)
  qed
  have "pg_drained (gw_gate ?c) \<in> gate_closed_chans (gate_exec (GFinish 0) ?c)"
    by (simp add: gate_closed_chans_def busy_gate_def gate_exec_def new_gate_world_def new_closed_gate_def
        open_publisher_gate_def sample_gate_fence_valid begin_publisher_attempt_def close_publisher_gate_def
        finish_publisher_attempt_def)
  from publisher_drain_complete [OF r run this] show ?thesis by blast
qed

text \<open>How often a run moves the gate to a new generation.\<close>

definition moves_gate :: "gate_op \<Rightarrow> gate_world \<Rightarrow> bool" where
  "moves_gate op w =
     (case op of
        GClose \<Rightarrow> True
      | GOpen fence \<Rightarrow> fst (open_publisher_gate fence (gw_gate w)) = None
      | GCloseFor fence gen \<Rightarrow> pg_fence (gw_gate w) = fence \<and> pg_gen (gw_gate w) = gen
      | _ \<Rightarrow> False)"

fun gate_run :: "gate_op list \<Rightarrow> gate_world \<Rightarrow> gate_world" where
  "gate_run [] w = w"
| "gate_run (op # ops) w = gate_run ops (gate_exec op w)"

fun gate_moves :: "gate_op list \<Rightarrow> gate_world \<Rightarrow> nat" where
  "gate_moves [] w = 0"
| "gate_moves (op # ops) w = (if moves_gate op w then 1 else 0) + gate_moves ops (gate_exec op w)"

lemma gate_exec_gen: "pg_gen (gw_gate (gate_exec op w)) = pg_gen (gw_gate w) + (if moves_gate op w then 1 else 0)"
  by (cases op) (auto simp: gate_exec_def moves_gate_def close_publisher_gate_def open_publisher_gate_def
      close_publisher_gate_for_def begin_publisher_attempt_def finish_publisher_attempt_def Let_def wraps_def)

lemma gate_run_gen: "pg_gen (gw_gate (gate_run ops w)) = pg_gen (gw_gate w) + word_of_nat (gate_moves ops w)"
  by (induction ops arbitrary: w) (simp_all add: gate_exec_gen)

text \<open>A late failure cannot close a newer gate. Let a source read have taken the fence and
  generation of the gate, and let the gate have moved on since, fewer than \<open>2 ^ 64\<close> times. Then
  closing the gate on behalf of that read does nothing, even under the same fence; and a writer
  mismatch that the read reports against a reopened gate is marked stale and leaves the gate as it is,
  while corruption of the authoritative state is never marked stale.\<close>

theorem stale_failure_harmless:
  assumes "0 < gate_moves ops w" and "gate_moves ops w < 2 ^ 64"
  defines "g \<equiv> gw_gate (gate_run ops w)" and "fence \<equiv> pg_fence (gw_gate w)" and "gen \<equiv> pg_gen (gw_gate w)"
  shows "close_publisher_gate_for fence gen g = g
    \<and> snd (classify_fatal_source_failure fence gen e g) = g
    \<and> (errors_is (fst (classify_fatal_source_failure fence gen e g)) ErrStalePublisherSource
        \<longleftrightarrow> errors_is e ErrStalePublisherSource
          \<or> (pg_open g \<and> errors_is e ErrAuthoritativeWriterMismatch \<and> \<not> errors_is e ErrAuthoritativeStateCorrupt))
    \<and> authoritative_fatal (fst (classify_fatal_source_failure fence gen e g)) = authoritative_fatal e"
proof -
  have "unat (word_of_nat (gate_moves ops w) :: 64 word) = gate_moves ops w"
    using assms(2) by (simp add: unsigned_of_nat take_bit_nat_eq_self)
  then have "(word_of_nat (gate_moves ops w) :: 64 word) \<noteq> 0" using assms(1) by (metis unsigned_0 less_irrefl)
  then have gen: "pg_gen g \<noteq> gen" by (simp add: g_def gen_def gate_run_gen)
  show ?thesis
    using gen by (auto simp: close_publisher_gate_for_def classify_fatal_source_failure_def stale_failure_def
        authoritative_fatal_def errors_is_def split: option.splits)
qed

theorem stale_failure_harmless_witness:
  "close_publisher_gate_for sample_gate_fence 2 (gw_gate (gate_run [GFinish 0, GClose, GOpen sample_gate_fence] busy_gate))
    = gw_gate (gate_run [GFinish 0, GClose, GOpen sample_gate_fence] busy_gate)"
proof -
  have g: "pg_fence (gw_gate busy_gate) = sample_gate_fence" "pg_gen (gw_gate busy_gate) = 2"
    by (simp_all add: busy_gate_def gate_exec_def new_gate_world_def new_closed_gate_def open_publisher_gate_def
        sample_gate_fence_valid begin_publisher_attempt_def)
  have m: "gate_moves [GFinish 0, GClose, GOpen sample_gate_fence] busy_gate = 2"
    by (simp add: busy_gate_def gate_exec_def new_gate_world_def new_closed_gate_def open_publisher_gate_def
        sample_gate_fence_valid begin_publisher_attempt_def moves_gate_def finish_publisher_attempt_def
        close_publisher_gate_def)
  from stale_failure_harmless [of "[GFinish 0, GClose, GOpen sample_gate_fence]" busy_gate None] show ?thesis
    unfolding g m by simp
qed

end
