(* ===== verification/Fq_Dispatcher.thy ===== *)
theory Fq_Dispatcher
  imports Fq_Gate
begin

text \<open>
  The dispatcher (\<^verbatim>\<open>dispatcher.go\<close>): options, the single-candidate publication path, the two page
  scans, and the loops. Its programs run over a world with the publisher gate of \<open>Fq_Gate\<close>; a
  client call may change the gate as well, because other goroutines run meanwhile. Durations and
  identifiers in telemetry are not modelled.
\<close>

subsection \<open>Options\<close>

record dispatcher_options =
  dsp_page_size :: int
  dsp_interval :: int
  dsp_sweep :: int
  dsp_publish_timeout :: int
  dsp_backoff_initial :: int
  dsp_backoff_max :: int

definition dispatcher_with_defaults :: "dispatcher_options \<Rightarrow> dispatcher_options result" where
  "dispatcher_with_defaults o1 =
     (let o2 = \<lparr> dsp_page_size = (if dsp_page_size o1 = 0 then 100 else dsp_page_size o1),
                 dsp_interval = (if dsp_interval o1 = 0 then 1000000000 else dsp_interval o1),
                 dsp_sweep = (if dsp_sweep o1 = 0 then 5 * 1000000000 else dsp_sweep o1),
                 dsp_publish_timeout = (if dsp_publish_timeout o1 = 0 then 15 * 1000000000 else dsp_publish_timeout o1),
                 dsp_backoff_initial = (if dsp_backoff_initial o1 = 0 then 100 * 1000000 else dsp_backoff_initial o1),
                 dsp_backoff_max = (if dsp_backoff_max o1 = 0 then 5 * 1000000000 else dsp_backoff_max o1) \<rparr>
      in check_err (validate_page_limit (dsp_page_size o2))
         (check_err (first_err (map duration_ok
             [dsp_interval o2, dsp_sweep o2, dsp_publish_timeout o2, dsp_backoff_initial o2, dsp_backoff_max o2]))
           (if dsp_backoff_initial o2 > dsp_backoff_max o2 then Inl [] else Inr o2)))"

subsection \<open>Calls\<close>

text \<open>The contexts: the caller's, the one of a publish attempt or of a rearm preflight (a child of
  the caller's, with the publish timeout), and the one of an activation (with the publish timeout,
  not canceled with the caller's).\<close>

datatype disp_ctx = CtxCaller | CtxAttempt | CtxActivation

datatype disp_signal = DispatchScan | DispatchPublish | DispatchMark | ExpiredRunning

record 'w dispatch_env =
  dx_err :: "disp_ctx \<Rightarrow> ('w, goerr) state"
  dx_get :: "string \<Rightarrow> ('w, dispatch_candidate \<times> bool \<times> goerr) state"
  dx_list :: "string \<Rightarrow> int \<Rightarrow> ('w, dispatch_candidate list \<times> string \<times> goerr) state"
  dx_rearm :: "string \<Rightarrow> int \<Rightarrow> ('w, dispatch_candidate list \<times> string \<times> goerr) state"
  dx_mark :: "dispatch_candidate \<Rightarrow> ('w, bool \<times> goerr) state"
  dx_check :: "resource_fence \<Rightarrow> ('w, goerr) state"
  dx_activate :: "resource_fence \<Rightarrow> string \<Rightarrow> ('w, goerr) state"
  dx_ensure :: "resource_fence \<Rightarrow> string \<Rightarrow> ('w, goerr) state"
  dx_publish :: "message \<Rightarrow> ('w, string \<times> goerr) state"
  dx_emit :: "disp_signal \<Rightarrow> string \<Rightarrow> int \<Rightarrow> ('w, unit) state"

datatype disp_event =
    DFence "(resource_fence \<times> 64 word) result"
  | DBegin "(resource_fence \<times> 64 word \<times> nat) result"
  | DFinish nat
  | DCloseFor resource_fence "64 word"
  | DClassify goerr goerr
  | DCtx disp_ctx goerr
  | DGet string goerr
  | DList string "dispatch_candidate list" goerr
  | DRearm string "dispatch_candidate list" goerr
  | DCheck resource_fence goerr
  | DPublish message string goerr
  | DMark dispatch_candidate bool goerr
  | DActivate resource_fence string goerr
  | DEnsure resource_fence string goerr
  | DEmit disp_signal string int

text \<open>The log pairs every call with the gate as the call found it.\<close>

type_synonym 'x disp_world = "gate_world \<times> 'x"
type_synonym ('x, 'a) disp = "('x disp_world \<times> (gate_world \<times> disp_event) list, 'a) state"

definition call :: "('x disp_world, 'a) state \<Rightarrow> ('a \<Rightarrow> disp_event) \<Rightarrow> ('x, 'a) disp" where
  "call op ev = State (\<lambda>((g, x), l). case run_state op (g, x) of (r, w) \<Rightarrow> (r, (w, l @ [(g, ev r)])))"

definition on_gate :: "(gate_world \<Rightarrow> 'a) \<Rightarrow> (gate_world \<Rightarrow> gate_world) \<Rightarrow> ('x disp_world, 'a) state" where
  "on_gate res upd = State (\<lambda>(g, x). (res g, (upd g, x)))"

definition read_fence :: "('x, (resource_fence \<times> 64 word) result) disp" where
  "read_fence = call (on_gate (\<lambda>g. publisher_fence (gw_gate g)) id) DFence"

definition begin_attempt :: "('x, (resource_fence \<times> 64 word \<times> nat) result) disp" where
  "begin_attempt = call (on_gate (\<lambda>g. case fst (begin_publisher_attempt (gw_gate g)) of
       Inl ss \<Rightarrow> Inl ss | Inr (fence, gen) \<Rightarrow> Inr (fence, gen, length (gw_attempts g))) (gate_exec GBegin)) DBegin"

definition finish_attempt :: "nat \<Rightarrow> ('x, unit) disp" where
  "finish_attempt i = call (on_gate (\<lambda>_. ()) (gate_exec (GFinish i))) (\<lambda>_. DFinish i)"

definition close_for :: "resource_fence \<Rightarrow> 64 word \<Rightarrow> ('x, unit) disp" where
  "close_for fence gen = call (on_gate (\<lambda>_. ()) (gate_exec (GCloseFor fence gen))) (\<lambda>_. DCloseFor fence gen)"

definition classify_failure :: "resource_fence \<Rightarrow> 64 word \<Rightarrow> goerr \<Rightarrow> ('x, goerr) disp" where
  "classify_failure fence gen e =
     call (on_gate (\<lambda>g. fst (classify_fatal_source_failure fence gen e (gw_gate g)))
       (\<lambda>g. g\<lparr> gw_gate := snd (classify_fatal_source_failure fence gen e (gw_gate g)) \<rparr>)) (DClassify e)"

definition ctx_err :: "'x disp_world dispatch_env \<Rightarrow> disp_ctx \<Rightarrow> ('x, goerr) disp" where
  "ctx_err env c = call (dx_err env c) (DCtx c)"

definition emit :: "'x disp_world dispatch_env \<Rightarrow> disp_signal \<Rightarrow> string \<Rightarrow> int \<Rightarrow> ('x, unit) disp" where
  "emit env s oc n = call (dx_emit env s oc n) (\<lambda>_. DEmit s oc n)"

subsection \<open>One candidate\<close>

definition activate_after_publish ::
  "'x disp_world dispatch_env \<Rightarrow> resource_fence \<Rightarrow> 64 word \<Rightarrow> dispatch_candidate \<Rightarrow> bool \<Rightarrow> ('x, goerr) disp" where
  "activate_after_publish env fence gen c marked = do {
     err \<leftarrow> (if marked
             then call (dx_activate env fence (msg_tenant (cand_message c))) (DActivate fence (msg_tenant (cand_message c)))
             else call (dx_ensure env fence (msg_tenant (cand_message c))) (DEnsure fence (msg_tenant (cand_message c))));
     if err \<noteq> None then do { close_for fence gen; State_Monad.return err }
     else do {
       e \<leftarrow> ctx_err env CtxActivation;
       if e \<noteq> None then do { close_for fence gen; State_Monad.return e } else State_Monad.return None } }"

text \<open>\<open>PublishReceipt.Validate\<close>; a receipt is its attempt id.\<close>

definition validate_receipt :: "string \<Rightarrow> goerr" where
  "validate_receipt attempt_id = fail_when (\<not> lower_hex 32 attempt_id) (wraps ErrInvalidModel)"

text \<open>From \<open>MarkDispatched\<close> on.\<close>

definition mark_confirmed ::
  "'x disp_world dispatch_env \<Rightarrow> dispatch_candidate \<Rightarrow> resource_fence \<Rightarrow> 64 word \<Rightarrow> nat \<Rightarrow> ('x, goerr) disp" where
  "mark_confirmed env c fence gen i = do {
     (marked, mark_err) \<leftarrow> call (dx_mark env c) (\<lambda>(m, e). DMark c m e);
     attempt_err \<leftarrow> ctx_err env CtxAttempt;
     (if authoritative_fatal mark_err then close_for fence gen else State_Monad.return ());
     emit env DispatchMark (if mark_err \<noteq> None then ''error'' else if \<not> marked then ''stale'' else ''ok'') 0;
     finish_attempt i;
     if authoritative_fatal mark_err then State_Monad.return mark_err
     else if mark_err \<noteq> None \<or> attempt_err \<noteq> None then do {
       _ \<leftarrow> activate_after_publish env fence gen c False;
       State_Monad.return (if mark_err \<noteq> None then mark_err else attempt_err) }
     else activate_after_publish env fence gen c marked }"

definition publish_admitted ::
  "'x disp_world dispatch_env \<Rightarrow> dispatch_candidate \<Rightarrow> resource_fence \<Rightarrow> 64 word \<Rightarrow> nat \<Rightarrow> ('x, goerr) disp" where
  "publish_admitted env c fence gen i = do {
     check_err \<leftarrow> call (dx_check env fence) (DCheck fence);
     if check_err \<noteq> None then do { close_for fence gen; State_Monad.return check_err }
     else do {
       e \<leftarrow> ctx_err env CtxAttempt;
       if e \<noteq> None then do { close_for fence gen; State_Monad.return e }
       else do {
         (receipt, err) \<leftarrow> call (dx_publish env (cand_message c)) (\<lambda>(r, e). DPublish (cand_message c) r e);
         if err \<noteq> None then do {
           timed_out \<leftarrow> (if errors_is err ErrDeadlineExceeded then State_Monad.return True
                          else do { e \<leftarrow> ctx_err env CtxAttempt; State_Monad.return (errors_is e ErrDeadlineExceeded) });
           emit env DispatchPublish (if timed_out then ''timeout'' else ''error'') 0;
           State_Monad.return err }
         else if validate_receipt receipt \<noteq> None then State_Monad.return (validate_receipt receipt)
         else do {
           emit env DispatchPublish ''confirmed'' 0;
           e \<leftarrow> ctx_err env CtxAttempt;
           if e \<noteq> None then State_Monad.return e else mark_confirmed env c fence gen i } } } }"

text \<open>\<open>dispatchCandidate\<close>; the last call is the deferred \<open>finish\<close>.\<close>

definition dispatch_one :: "'x disp_world dispatch_env \<Rightarrow> string \<Rightarrow> dispatch_candidate \<Rightarrow> ('x, goerr) disp" where
  "dispatch_one env res c =
     (if validate_candidate c \<noteq> None then State_Monad.return (validate_candidate c)
      else if msg_resource (cand_message c) \<noteq> res then State_Monad.return (wraps ErrInvalidModel)
      else do {
        admitted \<leftarrow> begin_attempt;
        case admitted of
          Inl ss \<Rightarrow> State_Monad.return (Some ss)
        | Inr a \<Rightarrow> do {
            err \<leftarrow> publish_admitted env c (fst a) (fst (snd a)) (snd (snd a));
            finish_attempt (snd (snd a));
            State_Monad.return err } })"

subsection \<open>Pages\<close>

definition normalize_dispatcher_page :: "int \<Rightarrow> string \<Rightarrow> string \<Rightarrow> int \<Rightarrow> string result" where
  "normalize_dispatcher_page items nxt after limit =
     (if items < 0 \<or> items > limit then Inl [ErrInvalidModel]
      else if validate_cursor nxt \<noteq> None then Inl [ErrInvalidModel]
      else if nxt \<noteq> [] \<and> nxt = after then (if items = 0 then Inr [] else Inl [ErrInvalidModel])
      else Inr nxt)"

fun dispatch_all :: "'x disp_world dispatch_env \<Rightarrow> string \<Rightarrow> dispatch_candidate list \<Rightarrow> ('x, goerr) disp" where
  "dispatch_all env res [] = State_Monad.return None"
| "dispatch_all env res (c # cs) = do {
     err \<leftarrow> dispatch_one env res c;
     if err \<noteq> None then State_Monad.return err else dispatch_all env res cs }"

text \<open>The end of both scans. A page result is the cursor, whether the page was empty, and the error.\<close>

definition dispatch_listed ::
  "'x disp_world dispatch_env \<Rightarrow> string \<Rightarrow> dispatcher_options \<Rightarrow> string \<Rightarrow> dispatch_candidate list \<Rightarrow> string
   \<Rightarrow> ('x, string \<times> bool \<times> goerr) disp" where
  "dispatch_listed env res opts after cs nxt =
     (case normalize_dispatcher_page (int (length cs)) nxt after (dsp_page_size opts) of
        Inl ss \<Rightarrow> State_Monad.return (after, False, Some ss)
      | Inr cursor \<Rightarrow> do {
          err \<leftarrow> dispatch_all env res cs;
          if err \<noteq> None then State_Monad.return (after, False, err)
          else State_Monad.return (cursor, cs = [], None) })"

definition dispatch_page ::
  "'x disp_world dispatch_env \<Rightarrow> string \<Rightarrow> dispatcher_options \<Rightarrow> string \<Rightarrow> ('x, string \<times> bool \<times> goerr) disp" where
  "dispatch_page env res opts after = do {
     e \<leftarrow> ctx_err env CtxCaller;
     if e \<noteq> None then State_Monad.return (after, False, e)
     else if validate_cursor after \<noteq> None then State_Monad.return (after, False, validate_cursor after)
     else do {
       r \<leftarrow> read_fence;
       case r of
         Inl ss \<Rightarrow> State_Monad.return (after, False, Some ss)
       | Inr f \<Rightarrow> do {
           (cs, nxt, err) \<leftarrow> call (dx_list env after (dsp_page_size opts)) (\<lambda>(cs, _, e). DList after cs e);
           if err \<noteq> None then do {
             emit env DispatchScan ''error'' 0;
             err \<leftarrow> classify_failure (fst f) (snd f) err;
             State_Monad.return (after, False, err) }
           else do {
             emit env DispatchScan ''ok'' (int (length cs));
             dispatch_listed env res opts after cs nxt } } } }"

definition rearm_page ::
  "'x disp_world dispatch_env \<Rightarrow> string \<Rightarrow> dispatcher_options \<Rightarrow> string \<Rightarrow> ('x, string \<times> bool \<times> goerr) disp" where
  "rearm_page env res opts after = do {
     e \<leftarrow> ctx_err env CtxCaller;
     if e \<noteq> None then State_Monad.return (after, False, e)
     else if validate_cursor after \<noteq> None then State_Monad.return (after, False, validate_cursor after)
     else do {
       admitted \<leftarrow> begin_attempt;
       case admitted of
         Inl ss \<Rightarrow> State_Monad.return (after, False, Some ss)
       | Inr a \<Rightarrow> do {
           check_err \<leftarrow> call (dx_check env (fst a)) (DCheck (fst a));
           if check_err \<noteq> None then do {
             finish_attempt (snd (snd a)); close_for (fst a) (fst (snd a)); State_Monad.return (after, False, check_err) }
           else do {
             e \<leftarrow> ctx_err env CtxAttempt;
             if e \<noteq> None then do {
               finish_attempt (snd (snd a)); close_for (fst a) (fst (snd a)); State_Monad.return (after, False, e) }
             else do {
               (cs, nxt, err) \<leftarrow> call (dx_rearm env after (dsp_page_size opts)) (\<lambda>(cs, _, e). DRearm after cs e);
               context_err \<leftarrow> ctx_err env CtxAttempt;
               finish_attempt (snd (snd a));
               if err \<noteq> None then do {
                 emit env ExpiredRunning ''error'' 0;
                 (if authoritative_fatal err then close_for (fst a) (fst (snd a)) else State_Monad.return ());
                 State_Monad.return (after, False, err) }
               else do {
                 emit env ExpiredRunning ''armed'' (int (length cs));
                 if context_err \<noteq> None then State_Monad.return (after, False, context_err)
                 else dispatch_listed env res opts after cs nxt } } } } } }"

definition try_dispatch :: "'x disp_world dispatch_env \<Rightarrow> string \<Rightarrow> string \<Rightarrow> ('x, bool \<times> goerr) disp" where
  "try_dispatch env res task_id = do {
     e \<leftarrow> ctx_err env CtxCaller;
     if e \<noteq> None then State_Monad.return (False, e)
     else do {
       r \<leftarrow> read_fence;
       case r of
         Inl ss \<Rightarrow> State_Monad.return (False, Some ss)
       | Inr f \<Rightarrow>
           if validate_task_id task_id \<noteq> None then State_Monad.return (False, validate_task_id task_id)
           else do {
             (c, ok, err) \<leftarrow> call (dx_get env task_id) (\<lambda>(_, _, e). DGet task_id e);
             if err \<noteq> None then do {
               err \<leftarrow> classify_failure (fst f) (snd f) err;
               State_Monad.return (False, err) }
             else if \<not> ok then State_Monad.return (False, None)
             else if msg_task_id (cand_message c) \<noteq> task_id then State_Monad.return (True, wraps ErrInvalidModel)
             else do { err \<leftarrow> dispatch_one env res c; State_Monad.return (True, err) } } } }"

subsection \<open>Loops\<close>

text \<open>
  \<open>runDispatchLoop\<close> and \<open>runRearmLoop\<close> over the outcomes of their rounds: \<open>ctx.Err()\<close> at the
  start, the page scan (a function of the cursor), \<open>ctx.Err()\<close> after a failure, and the result of
  the wait, if any. The result lists the cursors scanned, the waits and, if the loop returned,
  its error. \<open>interval\<close> is \<open>DispatchInterval\<close> or \<open>ExpiredRunningSweepInterval\<close>.
\<close>

fun page_loop ::
  "dispatcher_options \<Rightarrow> int \<Rightarrow> string \<Rightarrow> int
   \<Rightarrow> (goerr \<times> (string \<Rightarrow> string \<times> bool \<times> goerr) \<times> goerr \<times> goerr) list
   \<Rightarrow> string list \<times> int list \<times> goerr option" where
  "page_loop opts interval cursor backoff [] = ([], [], None)"
| "page_loop opts interval cursor backoff ((start_err, page, after_err, wait_err) # rest) =
     (if start_err \<noteq> None then ([], [], Some start_err)
      else case page cursor of (nxt, _, err) \<Rightarrow>
        if err \<noteq> None then
          if authoritative_fatal err then ([cursor], [], Some err)
          else if after_err \<noteq> None then ([cursor], [], Some after_err)
          else if wait_err \<noteq> None then ([cursor], [backoff], Some wait_err)
          else (case page_loop opts interval cursor (next_dispatcher_backoff backoff (dsp_backoff_max opts)) rest
                of (cs, ds, r) \<Rightarrow> (cursor # cs, backoff # ds, r))
        else if nxt = [] then
          if wait_err \<noteq> None then ([cursor], [interval], Some wait_err)
          else (case page_loop opts interval nxt (dsp_backoff_initial opts) rest
                of (cs, ds, r) \<Rightarrow> (cursor # cs, interval # ds, r))
        else (case page_loop opts interval nxt (dsp_backoff_initial opts) rest
              of (cs, ds, r) \<Rightarrow> (cursor # cs, ds, r)))"

definition stale_mismatch_only :: "goerr \<Rightarrow> bool" where
  "stale_mismatch_only e \<longleftrightarrow> errors_is e ErrAuthoritativeWriterMismatch
     \<and> \<not> errors_is e ErrAuthoritativeStateCorrupt \<and> errors_is e ErrStalePublisherSource"

text \<open>What \<open>Run\<close> returns for the results of its two loops, in the order in which they arrive, and
  \<open>ctx.Err()\<close> then.\<close>

definition dispatcher_result :: "goerr \<Rightarrow> goerr \<Rightarrow> goerr \<Rightarrow> goerr" where
  "dispatcher_result one two ctx =
     (if authoritative_fatal one \<and> \<not> stale_mismatch_only one then one
      else if authoritative_fatal two \<and> \<not> stale_mismatch_only two then two
      else if authoritative_fatal one then one
      else if authoritative_fatal two then two
      else if ctx \<noteq> None then ctx
      else if one \<noteq> None then one
      else two)"

end
