(* ===== verification/Fq_Dispatcher_Props.thy ===== *)
theory Fq_Dispatcher_Props
  imports Fq_Dispatcher
begin

text \<open>What the programs of the dispatcher log, and the properties of the dispatcher.\<close>

subsection \<open>Order and number of the calls\<close>

text \<open>What must precede each effect of the publication of \<open>c\<close>.\<close>

fun publication_order :: "dispatch_candidate \<Rightarrow> disp_event list \<Rightarrow> disp_event \<Rightarrow> bool" where
  "publication_order c h (DPublish m _ _) \<longleftrightarrow> m = cand_message c
     \<and> (\<exists>fence gen i. DBegin (Inr (fence, gen, i)) \<in> set h \<and> DCheck fence None \<in> set h
          \<and> DCtx CtxAttempt None \<in> set h \<and> DFinish i \<notin> set h)"
| "publication_order c h (DMark c' _ _) \<longleftrightarrow> c' = c
     \<and> (\<exists>receipt. DPublish (cand_message c) receipt None \<in> set h \<and> lower_hex 32 receipt)
     \<and> (\<exists>fence gen i. DBegin (Inr (fence, gen, i)) \<in> set h \<and> DFinish i \<notin> set h)"
| "publication_order c h (DActivate fence t _) \<longleftrightarrow> t = msg_tenant (cand_message c)
     \<and> DMark c True None \<in> set h
     \<and> (\<exists>gen i. DBegin (Inr (fence, gen, i)) \<in> set h \<and> DFinish i \<in> set h)"
| "publication_order c h (DEnsure fence t _) \<longleftrightarrow> t = msg_tenant (cand_message c)
     \<and> (\<exists>marked err. DMark c marked err \<in> set h \<and> \<not> authoritative_fatal err)
     \<and> (\<exists>gen i. DBegin (Inr (fence, gen, i)) \<in> set h \<and> DFinish i \<in> set h)"
| "publication_order c h _ = True"

fun publishes :: "disp_event \<Rightarrow> bool" where
  "publishes (DPublish _ _ _) = True" | "publishes _ = False"

fun marks :: "disp_event \<Rightarrow> bool" where
  "marks (DMark _ _ _) = True" | "marks _ = False"

fun trusted_mark :: "disp_event \<Rightarrow> bool" where
  "trusted_mark (DMark _ _ e) \<longleftrightarrow> \<not> authoritative_fatal e" | "trusted_mark _ = False"

fun activates :: "disp_event \<Rightarrow> bool" where
  "activates (DActivate _ _ _) = True" | "activates (DEnsure _ _ _) = True" | "activates _ = False"

fun marked_ok :: "disp_event \<Rightarrow> bool" where
  "marked_ok (DMark _ _ e) \<longleftrightarrow> e = None" | "marked_ok _ = False"

fun activated_ok :: "disp_event \<Rightarrow> bool" where
  "activated_ok (DActivate _ _ e) \<longleftrightarrow> e = None" | "activated_ok (DEnsure _ _ e) \<longleftrightarrow> e = None"
| "activated_ok _ = False"

definition publication :: "dispatch_candidate \<Rightarrow> goerr \<Rightarrow> disp_event list \<Rightarrow> bool" where
  "publication c err l \<longleftrightarrow>
     guarded (publication_order c) [] l
     \<and> occurs publishes l \<le> 1 \<and> occurs marks l \<le> 1 \<and> occurs activates l = occurs trusted_mark l
     \<and> (err = None \<longrightarrow> occurs marked_ok l = 1 \<and> occurs activated_ok l = 1)"

lemma wp_call [wp_intros]:
  "(\<And>g x r w. s = (g, x) \<Longrightarrow> run_state op (g, x) = (r, w) \<Longrightarrow> Q r (w, l @ [(g, ev r)])) \<Longrightarrow> wp (call op ev) Q (s, l)"
  by (cases s) (simp add: wp_def call_def split: prod.splits)

definition events :: "(gate_world \<times> disp_event) list \<Rightarrow> disp_event list" where
  "events l = map snd l"

lemma events_simps [simp]: "events [] = []" "events (x # l) = snd x # events l" "events (k @ l) = events k @ events l"
  by (simp_all add: events_def)

definition inert :: "disp_event list \<Rightarrow> bool" where
  "inert k \<longleftrightarrow> (\<forall>x\<in>set k. (\<exists>f g. x = DCloseFor f g) \<or> (\<exists>c e. x = DCtx c e))"

lemma inert_occurs [simp]:
  assumes "inert k"
  shows "occurs publishes k = 0" "occurs marks k = 0" "occurs activates k = 0" "occurs trusted_mark k = 0"
    "occurs marked_ok k = 0" "occurs activated_ok k = 0"
  using assms by (induction k) (auto simp: inert_def)

lemma inert_guarded [simp]: "inert k \<Longrightarrow> guarded (publication_order c) h k"
proof (induction k arbitrary: h)
  case (Cons x k)
  then have "publication_order c h x" "inert k" by (auto simp: inert_def)
  with Cons.IH show ?case by simp
qed simp

definition activation :: "resource_fence \<Rightarrow> dispatch_candidate \<Rightarrow> bool \<Rightarrow> goerr \<Rightarrow> disp_event list \<Rightarrow> bool" where
  "activation fence c marked err k \<longleftrightarrow>
     (\<exists>e rest. k = (if marked then DActivate fence (msg_tenant (cand_message c)) e
                    else DEnsure fence (msg_tenant (cand_message c)) e) # rest
        \<and> inert rest \<and> (err = None \<longrightarrow> e = None))"

lemma activate_log:
  "appends (activate_after_publish env fence gen c marked) (\<lambda>err k. activation fence c marked err (events k))"
  apply (rule appendsI)
  unfolding activate_after_publish_def close_for_def ctx_err_def
  by (intro wp_intros; simp add: activation_def inert_def)

definition admitted_history :: "resource_fence \<Rightarrow> nat \<Rightarrow> disp_event list \<Rightarrow> bool" where
  "admitted_history fence i h \<longleftrightarrow> (\<exists>gen. DBegin (Inr (fence, gen, i)) \<in> set h) \<and> DFinish i \<notin> set h"

definition confirmed_history :: "dispatch_candidate \<Rightarrow> disp_event list \<Rightarrow> bool" where
  "confirmed_history c h \<longleftrightarrow> (\<exists>receipt. DPublish (cand_message c) receipt None \<in> set h \<and> lower_hex 32 receipt)"

definition marking :: "dispatch_candidate \<Rightarrow> resource_fence \<Rightarrow> nat \<Rightarrow> goerr \<Rightarrow> disp_event list \<Rightarrow> bool" where
  "marking c fence i err k \<longleftrightarrow>
     (\<forall>h. admitted_history fence i h \<longrightarrow> confirmed_history c h \<longrightarrow> guarded (publication_order c) h k)
     \<and> occurs publishes k = 0 \<and> occurs marks k = 1 \<and> occurs activates k = occurs trusted_mark k
     \<and> (err = None \<longrightarrow> occurs marked_ok k = 1 \<and> occurs activated_ok k = 1)"

lemma activation_marks:
  assumes "activation fence c marked err k" and "admitted_history fence i h" and "confirmed_history c h"
    and "DMark c m e \<in> set h'" and "\<not> authoritative_fatal e" and "marked \<Longrightarrow> m \<and> e = None" and "DFinish i \<in> set h'"
  shows "guarded (publication_order c) (h @ h') k"
proof -
  obtain x rest where k: "k = (if marked then DActivate fence (msg_tenant (cand_message c)) x
      else DEnsure fence (msg_tenant (cand_message c)) x) # rest" "inert rest"
    using assms(1) by (auto simp: activation_def)
  then show ?thesis using assms by (cases marked) (auto simp: admitted_history_def)
qed

lemma activation_occurs [simp]:
  assumes "activation fence c marked err k"
  shows "occurs publishes k = 0" "occurs marks k = 0" "occurs activates k = 1" "occurs trusted_mark k = 0"
    "occurs marked_ok k = 0" "err = None \<Longrightarrow> occurs activated_ok k = 1"
  using assms by (auto simp: activation_def)

lemma marking_head:
  assumes "admitted_history fence i h" and "confirmed_history c h" and "inert pre"
  shows "guarded (publication_order c) h (DMark c m e # pre @ [DEmit s oc n, DFinish i])"
  using assms by (auto simp: admitted_history_def confirmed_history_def)

lemma marking_untrusted:
  assumes "inert pre" and "authoritative_fatal e"
  shows "marking c fence i e (DMark c m e # pre @ [DEmit s oc n, DFinish i])"
proof -
  have "e \<noteq> None" using assms(2) by (cases e) (simp_all add: authoritative_fatal_def)
  then show ?thesis using assms marking_head [OF _ _ assms(1)] unfolding marking_def by auto
qed

lemma marking_trusted:
  assumes "inert pre" and "\<not> authoritative_fatal e" and "activation fence c marked err' k"
    and "marked \<Longrightarrow> m \<and> e = None" and "err = None \<Longrightarrow> err' = None \<and> e = None"
  shows "marking c fence i err (DMark c m e # pre @ DEmit s oc n # DFinish i # k)"
proof -
  have "guarded (publication_order c) h ((DMark c m e # pre @ [DEmit s oc n, DFinish i]) @ k)"
    if "admitted_history fence i h" "confirmed_history c h" for h
    using marking_head [OF that assms(1)] activation_marks [OF assms(3) that _ assms(2,4)]
    by (simp only: guarded_append) simp
  then have "guarded (publication_order c) h (DMark c m e # pre @ DEmit s oc n # DFinish i # k)"
    if "admitted_history fence i h" "confirmed_history c h" for h
    using that by simp
  then show ?thesis using assms activation_occurs [OF assms(3)] unfolding marking_def by auto
qed

lemma inert_cases: "inert [DCtx a b]" "inert [DCtx a b, DCloseFor f g]" "inert [DCloseFor f g]" "inert []"
  by (simp_all add: inert_def)

lemmas marking_logs =
  marking_untrusted [OF inert_cases(2), simplified]
  marking_trusted [OF inert_cases(1), simplified]

lemma mark_log: "appends (mark_confirmed env c fence gen i) (\<lambda>err k. marking c fence i err (events k))"
  apply (rule appendsI)
  unfolding mark_confirmed_def close_for_def ctx_err_def emit_def finish_attempt_def
  by (intro wp_intros wp_appends [OF activate_log]; auto intro: marking_logs split: prod.splits)

definition publishing :: "dispatch_candidate \<Rightarrow> resource_fence \<Rightarrow> nat \<Rightarrow> goerr \<Rightarrow> disp_event list \<Rightarrow> bool" where
  "publishing c fence i err k \<longleftrightarrow>
     (\<forall>h. admitted_history fence i h \<longrightarrow> guarded (publication_order c) h k)
     \<and> occurs publishes k \<le> 1 \<and> occurs marks k \<le> 1 \<and> occurs activates k = occurs trusted_mark k
     \<and> (err = None \<longrightarrow> occurs marked_ok k = 1 \<and> occurs activated_ok k = 1)"

lemma publishing_refused: "inert k \<Longrightarrow> err \<noteq> None \<Longrightarrow> publishing c fence i err (DCheck fence e # k)"
  by (simp add: publishing_def)

lemma publishing_unconfirmed:
  assumes "k = [] \<or> k = [DEmit s oc n] \<or> k = [DCtx x y, DEmit s oc n] \<or> k = [DEmit s oc n, DCtx x y]" and "err \<noteq> None"
  shows "publishing c fence i err (DCheck fence None # DCtx CtxAttempt None # DPublish (cand_message c) receipt e # k)"
  using assms by (auto simp: publishing_def admitted_history_def)

lemma validate_receipt_None: "validate_receipt r = None \<longleftrightarrow> lower_hex 32 r"
  by (simp add: validate_receipt_def)

lemma publishing_confirmed:
  assumes "marking c fence i err k" and "validate_receipt receipt = None"
  shows "publishing c fence i err (DCheck fence None # DCtx CtxAttempt None
    # DPublish (cand_message c) receipt None # DEmit s oc n # DCtx x y # k)"
proof -
  let ?pre = "[DCheck fence None, DCtx CtxAttempt None, DPublish (cand_message c) receipt None, DEmit s oc n, DCtx x y]"
  have "guarded (publication_order c) h (?pre @ k)" if h: "admitted_history fence i h" for h
  proof -
    have "admitted_history fence i (h @ ?pre)" "confirmed_history c (h @ ?pre)"
      using h assms(2) by (auto simp: validate_receipt_None admitted_history_def confirmed_history_def)
    moreover have "guarded (publication_order c) h ?pre" using h by (auto simp: admitted_history_def)
    ultimately show ?thesis using assms(1) unfolding marking_def guarded_append by blast
  qed
  then show ?thesis using assms(1) by (simp add: publishing_def marking_def)
qed

lemma publish_log: "appends (publish_admitted env c fence gen i) (\<lambda>err k. publishing c fence i err (events k))"
  apply (rule appendsI)
  unfolding publish_admitted_def close_for_def ctx_err_def emit_def
  by (intro wp_intros wp_appends [OF mark_log];
      simp add: inert_cases publishing_confirmed publishing_refused publishing_unconfirmed split: prod.splits)

lemma publication_admitted:
  assumes "publishing c fence i err k"
  shows "publication c err (DBegin (Inr (fence, gen, i)) # k @ [DFinish i])"
proof -
  have "admitted_history fence i [DBegin (Inr (fence, gen, i))]" by (simp add: admitted_history_def)
  then show ?thesis using assms by (simp add: publishing_def publication_def)
qed

lemma publication_refused: "err \<noteq> None \<Longrightarrow> publication c err []" "publication c (Some ss) [DBegin r]"
  by (simp_all add: publication_def)

lemma dispatch_log: "appends (dispatch_one env res c) (\<lambda>err k. publication c err (events k))"
  apply (rule appendsI)
  unfolding dispatch_one_def begin_attempt_def finish_attempt_def
  by (intro wp_intros wp_appends [OF publish_log]; auto simp: publication_admitted publication_refused)

text \<open>C34: a task is published, marked and activated in that order, each at most once. For every
  candidate and every behaviour of the clients, the dispatcher publishes only the message of the
  candidate, inside an attempt admitted by the gate, after READY was confirmed under the fence of
  the attempt and while the attempt has time left; it marks only the original candidate, only after a
  mandatory confirmed publish with a valid receipt, and before the attempt leaves the gate; it
  counts the tenant's new work only after the mark succeeded, and every mark whose source can
  still be trusted is followed by exactly one activation. Success means one mark and one
  activation that succeeded.\<close>

theorem publication_in_order:
  "let (err, log) = logged (dispatch_one env res c) w; l = events log
   in (\<forall>k e r. l = k @ e # r \<longrightarrow> publication_order c k e)
     \<and> occurs publishes l \<le> 1 \<and> occurs marks l \<le> 1 \<and> occurs activates l = occurs trusted_mark l
     \<and> (err = None \<longrightarrow> occurs marked_ok l = 1 \<and> occurs activated_ok l = 1)"
proof -
  obtain err log where run: "logged (dispatch_one env res c) w = (err, log)" by fastforce
  have "wp (dispatch_one env res c) (\<lambda>err s. publication c err (events (snd s))) (w, [])"
    by (rule wp_appends [OF dispatch_log]) simp
  from logged_wp [OF this run] have "publication c err (events log)" .
  then show ?thesis using guarded_iff [of "publication_order c" "[]" "events log"]
    by (simp add: run publication_def)
qed

subsection \<open>Pages\<close>

definition published_all :: "dispatch_candidate list \<Rightarrow> disp_event list \<Rightarrow> bool" where
  "published_all cs k \<longleftrightarrow> occurs marked_ok k = length cs \<and> occurs activated_ok k = length cs
     \<and> (\<forall>c\<in>set cs. \<exists>m. DMark c m None \<in> set k)"

lemma publication_marks:
  assumes "publication c None k"
  shows "published_all [c] k"
proof -
  have "occurs marked_ok k = 1" using assms by (simp add: publication_def)
  then obtain e where e: "e \<in> set k" "marked_ok e"
    by (metis filter_empty_conv list.size(3) occurs_def zero_neq_one)
  from e(2) obtain c' m where m: "e = DMark c' m None" by (cases e) auto
  obtain p r where "k = p @ e # r" using e(1) by (meson split_list)
  then have "publication_order c p e"
    using assms guarded_iff [of "publication_order c" "[]" k] by (simp add: publication_def)
  then show ?thesis using assms e m by (auto simp: published_all_def publication_def)
qed

lemma published_all_append: "published_all cs k \<Longrightarrow> published_all ds l \<Longrightarrow> published_all (cs @ ds) (k @ l)"
  by (auto simp: published_all_def)

lemma dispatch_all_log:
  "appends (dispatch_all env res cs) (\<lambda>err k. err = None \<longrightarrow> published_all cs (events k))"
proof (induction cs)
  case Nil
  show ?case by (rule appendsI) (auto intro: wp_intros simp: published_all_def)
next
  case (Cons c cs)
  have step: "published_all (c # cs) (events (k @ k'))"
    if "publication c None (events k)" "published_all cs (events k')" for k k'
    using published_all_append [OF publication_marks [OF that(1)] that(2)] by simp
  show ?case
    apply (rule appendsI)
    apply (unfold dispatch_all.simps)
    apply (intro wp_intros wp_appends [OF dispatch_log] wp_appends [OF Cons.IH])
    apply simp
    using step by (auto simp del: events_simps)
qed

lemma normalize_page_Inr:
  "normalize_dispatcher_page n nxt after limit = Inr cursor \<longleftrightarrow>
     0 \<le> n \<and> n \<le> limit \<and> validate_cursor nxt = None \<and> (nxt = [] \<or> nxt \<noteq> after \<or> n = 0)
     \<and> cursor = (if nxt = after then [] else nxt)"
  by (auto simp: normalize_dispatcher_page_def)

definition page_done :: "dispatcher_options \<Rightarrow> string \<Rightarrow> dispatch_candidate list \<Rightarrow> string \<times> bool \<times> goerr \<Rightarrow> disp_event list \<Rightarrow> bool" where
  "page_done opts after cs r k \<longleftrightarrow>
     (case r of (cursor, drained, err) \<Rightarrow>
        if err \<noteq> None then cursor = after
        else validate_cursor cursor = None \<and> (cursor = [] \<or> cursor \<noteq> after) \<and> (drained \<longleftrightarrow> cs = [])
          \<and> int (length cs) \<le> dsp_page_size opts \<and> published_all cs k)"

lemma empty_cursor: "validate_cursor [] = None"
  by (simp add: validate_cursor_def validate_bounded_text_None runes_def)

lemma listed_log:
  "appends (dispatch_listed env res opts after cs nxt) (\<lambda>r k. page_done opts after cs r (events k))"
  apply (rule appendsI)
  unfolding dispatch_listed_def
  by (intro wp_intros wp_appends [OF dispatch_all_log]; auto simp: page_done_def normalize_page_Inr empty_cursor)

lemma page_failed: "err \<noteq> None \<Longrightarrow> page_done opts after cs (after, False, err) k"
  by (simp add: page_done_def)

fun scanned :: "disp_event \<Rightarrow> (string \<times> dispatch_candidate list) option" where
  "scanned (DList after cs e) = Some (after, cs)"
| "scanned (DRearm after cs e) = Some (after, cs)"
| "scanned _ = None"

definition page_log :: "dispatcher_options \<Rightarrow> string \<Rightarrow> string \<times> bool \<times> goerr \<Rightarrow> disp_event list \<Rightarrow> bool" where
  "page_log opts after r k \<longleftrightarrow>
     (if snd (snd r) \<noteq> None then fst r = after
      else \<exists>e cs. e \<in> set k \<and> scanned e = Some (after, cs) \<and> page_done opts after cs r k)"

lemma page_log_failed: "err \<noteq> None \<Longrightarrow> page_log opts after (after, b, err) k"
  by (simp add: page_log_def)

lemma page_log_listed:
  assumes "page_done opts after cs r k" and "e \<in> set pre" and "scanned e = Some (after, cs)"
    and "occurs marked_ok pre = 0" and "occurs activated_ok pre = 0"
  shows "page_log opts after r (pre @ k)"
proof (cases "snd (snd r) = None")
  case True
  then have "page_done opts after cs r (pre @ k)"
    using assms(1,4,5) by (cases r) (auto simp: page_done_def published_all_def)
  then show ?thesis using assms(2,3) True unfolding page_log_def by (metis Un_iff set_append)
next
  case False
  then show ?thesis using assms(1) by (cases r) (simp add: page_log_def page_done_def)
qed

lemma page_log_dispatch:
  "page_done opts after cs r k \<Longrightarrow> page_log opts after r (DCtx x e # DFence f # DList after cs e' # DEmit s oc n # k)"
  using page_log_listed [of opts after cs r k "DList after cs e'" "[DCtx x e, DFence f, DList after cs e', DEmit s oc n]"]
  by simp

lemma page_log_rearm:
  "page_done opts after cs r k \<Longrightarrow> page_log opts after r (DCtx x e # DBegin b # DCheck f e' # DCtx y e''
     # DRearm after cs e3 # DCtx z e4 # DFinish i # DEmit s oc n # k)"
  using page_log_listed [of opts after cs r k "DRearm after cs e3"
      "[DCtx x e, DBegin b, DCheck f e', DCtx y e'', DRearm after cs e3, DCtx z e4, DFinish i, DEmit s oc n]"]
  by simp

lemma classified_nil: "fst (classify_fatal_source_failure fence gen e g) = None \<longleftrightarrow> e = None"
  by (cases e) (auto simp: classify_fatal_source_failure_def stale_failure_def)

lemma wp_classify [wp_intros]:
  "(\<And>g err w. (err = None \<longleftrightarrow> e = None) \<Longrightarrow> Q err (w, l @ [(g, DClassify e err)])) \<Longrightarrow>
     wp (classify_failure fence gen e) Q (w, l)"
  unfolding classify_failure_def
  by (intro wp_intros) (auto simp: on_gate_def classified_nil)

lemma dispatch_page_log: "appends (dispatch_page env res opts after) (\<lambda>r k. page_log opts after r (events k))"
  apply (rule appendsI)
  unfolding dispatch_page_def ctx_err_def read_fence_def emit_def
  by (intro wp_intros wp_appends [OF listed_log]; simp add: page_log_failed page_log_dispatch split: prod.splits)

lemma rearm_page_log: "appends (rearm_page env res opts after) (\<lambda>r k. page_log opts after r (events k))"
  apply (rule appendsI)
  unfolding rearm_page_def ctx_err_def begin_attempt_def finish_attempt_def close_for_def emit_def
  by (intro wp_intros wp_appends [OF listed_log]; simp add: page_log_failed page_log_rearm split: prod.splits)

text \<open>C35: a scan never skips a task. Whatever the clients do, a dispatch or rearm page that fails leaves the
  cursor where it was, so the page is scanned again; a page that succeeds moves to a valid cursor
  that is either the end of the round or a new position, holds no more candidates than the page
  size, and every candidate the source listed was marked dispatched and had its tenant activated.\<close>

theorem scan_never_skips:
  assumes "page = dispatch_page env res opts after \<or> page = rearm_page env res opts after"
  shows "let ((cursor, drained, err), log) = logged page w; l = events log
     in if err \<noteq> None then cursor = after
        else validate_cursor cursor = None \<and> (cursor = [] \<or> cursor \<noteq> after)
          \<and> (\<exists>e cs. e \<in> set l \<and> scanned e = Some (after, cs) \<and> (drained \<longleftrightarrow> cs = [])
               \<and> int (length cs) \<le> dsp_page_size opts
               \<and> occurs marked_ok l = length cs \<and> occurs activated_ok l = length cs
               \<and> (\<forall>c\<in>set cs. \<exists>m. DMark c m None \<in> set l))"
proof -
  obtain cursor drained err log where run: "logged page w = ((cursor, drained, err), log)"
    by (metis prod.collapse)
  have "appends page (\<lambda>r k. page_log opts after r (events k))"
    using assms dispatch_page_log rearm_page_log by blast
  then have "wp page (\<lambda>r s. page_log opts after r (events (snd s))) (w, [])"
    by (rule wp_appends) simp
  from logged_wp [OF this run] have page: "page_log opts after (cursor, drained, err) (events log)" .
  show ?thesis
  proof (cases "err = None")
    case True
    then obtain e cs where "e \<in> set (events log)" "scanned e = Some (after, cs)"
      "page_done opts after cs (cursor, drained, err) (events log)"
      using page by (auto simp: page_log_def)
    then show ?thesis using True unfolding run Let_def prod.case page_done_def published_all_def by auto
  qed (use page in \<open>simp add: run page_log_def Let_def\<close>)
qed

subsection \<open>Attempts and the gate\<close>

text \<open>What the other goroutines may do during a call: any gate operations, but only the attempt's own
  goroutine finishes it.\<close>

definition others :: "nat \<Rightarrow> gate_world \<Rightarrow> gate_world \<Rightarrow> bool" where
  "others i v v' \<longleftrightarrow> (\<exists>ops. GFinish i \<notin> set ops \<and> v' = gate_run ops v)"

definition spares :: "nat \<Rightarrow> ('x disp_world, 'a) state \<Rightarrow> bool" where
  "spares i op \<longleftrightarrow> (\<forall>v x. others i v (fst (snd (run_state op (v, x)))))"

definition env_spares :: "nat \<Rightarrow> 'x disp_world dispatch_env \<Rightarrow> bool" where
  "env_spares i env \<longleftrightarrow>
     (\<forall>c. spares i (dx_err env c)) \<and> (\<forall>c. spares i (dx_mark env c)) \<and> (\<forall>f. spares i (dx_check env f))
     \<and> (\<forall>f t. spares i (dx_activate env f t)) \<and> (\<forall>f t. spares i (dx_ensure env f t))
     \<and> (\<forall>m. spares i (dx_publish env m)) \<and> (\<forall>s k n. spares i (dx_emit env s k n))"

text \<open>The attempt with number \<open>i\<close> is in flight, or done.\<close>

definition in_flight :: "nat \<Rightarrow> gate_world \<Rightarrow> bool" where
  "in_flight i v \<longleftrightarrow> gate_inv v \<and> i < length (gw_attempts v) \<and> \<not> snd (snd (gw_attempts v ! i))"

definition finished :: "nat \<Rightarrow> gate_world \<Rightarrow> bool" where
  "finished i v \<longleftrightarrow> gate_inv v \<and> i < length (gw_attempts v) \<and> snd (snd (gw_attempts v ! i))"

lemma gate_exec_attempt:
  assumes "i < length (gw_attempts v)"
  shows "i < length (gw_attempts (gate_exec op v))"
    "snd (snd (gw_attempts (gate_exec op v) ! i)) \<longleftrightarrow> snd (snd (gw_attempts v ! i)) \<or> op = GFinish i"
  using assms
  by (auto simp: gate_exec_def nth_append nth_list_update split: gate_op.splits sum.splits prod.splits)

lemma in_flight_step: "in_flight i v \<Longrightarrow> op \<noteq> GFinish i \<Longrightarrow> in_flight i (gate_exec op v)"
  unfolding in_flight_def using gate_exec_attempt gate_exec_inv by metis

lemma finished_step: "finished i v \<Longrightarrow> finished i (gate_exec op v)"
  unfolding finished_def using gate_exec_attempt gate_exec_inv by metis

lemma in_flight_finish: "in_flight i v \<Longrightarrow> finished i (gate_exec (GFinish i) v)"
  unfolding finished_def in_flight_def using gate_exec_attempt gate_exec_inv by metis

lemma in_flight_others: "in_flight i v \<Longrightarrow> others i v v' \<Longrightarrow> in_flight i v'"
proof -
  have "in_flight i v \<Longrightarrow> GFinish i \<notin> set ops \<Longrightarrow> in_flight i (gate_run ops v)" for ops
    by (induction ops arbitrary: v) (auto simp: in_flight_step)
  then show "in_flight i v \<Longrightarrow> others i v v' \<Longrightarrow> in_flight i v'" by (auto simp: others_def)
qed

lemma finished_others: "finished i v \<Longrightarrow> others i v v' \<Longrightarrow> finished i v'"
proof -
  have "finished i v \<Longrightarrow> finished i (gate_run ops v)" for ops
    by (induction ops arbitrary: v) (simp_all add: finished_step)
  then show "finished i v \<Longrightarrow> others i v v' \<Longrightarrow> finished i v'" by (auto simp: others_def)
qed

lemma begin_in_flight:
  assumes "gate_inv v" and "fst (begin_publisher_attempt (gw_gate v)) = Inr a"
  shows "in_flight (length (gw_attempts v)) (gate_exec GBegin v)"
proof -
  have "pg_open (gw_gate v)" using assms(2) by (simp add: begin_publisher_attempt_def split: if_splits)
  then show ?thesis using gate_begin_inv [OF assms(1)]
    by (simp add: in_flight_def gate_exec_def begin_publisher_attempt_def Let_def nth_append)
qed

text \<open>\<open>guards i stage stage' m\<close>: from a world in \<open>stage\<close>, \<open>m\<close> ends in one in \<open>stage'\<close>, and attempt
  \<open>i\<close> is in flight whenever \<open>m\<close> calls the broker to publish or the source to mark.\<close>

definition critical_safe :: "nat \<Rightarrow> (gate_world \<times> disp_event) list \<Rightarrow> bool" where
  "critical_safe i l \<longleftrightarrow> (\<forall>(v, e)\<in>set l. publishes e \<or> marks e \<longrightarrow> in_flight i v)"

definition guards :: "nat \<Rightarrow> (gate_world \<Rightarrow> bool) \<Rightarrow> (gate_world \<Rightarrow> bool) \<Rightarrow> ('x, 'a) disp \<Rightarrow> bool" where
  "guards i stage stage' m \<longleftrightarrow>
     (\<forall>v x l. stage v \<longrightarrow> critical_safe i l \<longrightarrow>
        wp m (\<lambda>_ s. stage' (fst (fst s)) \<and> critical_safe i (snd s)) ((v, x), l))"

lemma guardsD:
  "guards i stage stage' m \<Longrightarrow> stage v \<Longrightarrow> critical_safe i l \<Longrightarrow>
     wp m (\<lambda>_ s. stage' (fst (fst s)) \<and> critical_safe i (snd s)) ((v, x), l)"
  by (simp add: guards_def)

named_theorems guard_intros \<open>one rule per call of the dispatcher\<close>

lemma guards_return [guard_intros]: "guards i stage stage (State_Monad.return r)"
  by (simp add: guards_def wp_return)

lemma guards_bind:
  fixes m :: "('x, 'a) disp" and f :: "'a \<Rightarrow> ('x, 'b) disp"
  assumes "guards i s1 s2 m" and "\<And>r. guards i s2 s3 (f r)"
  shows "guards i s1 s3 (State_Monad.bind m f)"
  unfolding guards_def
proof (intro allI impI)
  fix v and x :: 'x and l
  assume "s1 v" "critical_safe i l"
  from guardsD [OF assms(1) this]
  have "wp m (\<lambda>r s. wp (f r) (\<lambda>_ s. s3 (fst (fst s)) \<and> critical_safe i (snd s)) s) ((v, x), l)"
  proof (rule wp_mono)
    fix r and s :: "'x disp_world \<times> (gate_world \<times> disp_event) list"
    assume s: "s2 (fst (fst s)) \<and> critical_safe i (snd s)"
    obtain v' x' l' where "s = ((v', x'), l')" by (metis prod.collapse)
    with s show "wp (f r) (\<lambda>_ s. s3 (fst (fst s)) \<and> critical_safe i (snd s)) s"
      using guardsD [OF assms(2)] by simp
  qed
  then show "wp (State_Monad.bind m f) (\<lambda>_ s. s3 (fst (fst s)) \<and> critical_safe i (snd s)) ((v, x), l)"
    by (rule wp_bind)
qed

lemma guards_call:
  assumes "\<And>v x. stage v \<Longrightarrow> stage' (fst (snd (run_state op (v, x))))"
    and "\<And>v r. stage v \<Longrightarrow> publishes (ev r) \<or> marks (ev r) \<Longrightarrow> in_flight i v"
  shows "guards i stage stage' (call op ev)"
  unfolding guards_def
proof (intro allI impI, rule wp_call)
  fix v x l g y r w
  assume s: "stage v" "critical_safe i l" "(v, x) = (g, y)" "run_state op (g, y) = (r, w)"
  then show "stage' (fst (fst (w, l @ [(g, ev r)]))) \<and> critical_safe i (snd (w, l @ [(g, ev r)]))"
    using assms(1) [of v x] assms(2) [of v r] by (auto simp: critical_safe_def)
qed


lemma guards_if [guard_intros]: "guards i s t m \<Longrightarrow> guards i s t n \<Longrightarrow> guards i s t (if b then m else n)"
  by simp

lemma guards_sub: "guards i s t m \<Longrightarrow> (\<And>v. s' v \<Longrightarrow> s v) \<Longrightarrow> guards i s' t m"
  by (simp add: guards_def)

text \<open>The calls, for both stages.\<close>

definition stage_of :: "nat \<Rightarrow> (gate_world \<Rightarrow> bool) \<Rightarrow> bool" where
  "stage_of i s \<longleftrightarrow> s = in_flight i \<or> s = finished i"

lemma stage_others: "stage_of i s \<Longrightarrow> s v \<Longrightarrow> others i v v' \<Longrightarrow> s v'"
  by (auto simp: stage_of_def in_flight_others finished_others)

lemma stage_close: "stage_of i s \<Longrightarrow> s v \<Longrightarrow> s (gate_exec (GCloseFor f g) v)"
  by (auto simp: stage_of_def in_flight_step finished_step)

lemma guards_client:
  assumes "spares i op" and "stage_of i s" and "\<And>r. \<not> publishes (ev r) \<and> \<not> marks (ev r) \<or> s = in_flight i"
  shows "guards i s s (call op ev)"
proof (rule guards_call)
  fix v x
  assume "s v"
  then show "s (fst (snd (run_state op (v, x))))"
    using assms(1,2) stage_others unfolding spares_def by metis
next
  fix v r
  assume "s v" "publishes (ev r) \<or> marks (ev r)"
  then show "in_flight i v" using assms(3) by metis
qed

lemma stages [simp]: "stage_of i (in_flight i)" "stage_of i (finished i)"
  by (simp_all add: stage_of_def)

lemma guards_close_for [guard_intros]: "stage_of i s \<Longrightarrow> guards i s s (close_for f g)"
  unfolding close_for_def by (rule guards_call) (simp_all add: on_gate_def stage_close)

lemma guards_finish: "stage_of i s \<Longrightarrow> guards i s (finished i) (finish_attempt i)"
  unfolding finish_attempt_def
  by (rule guards_call) (auto simp: on_gate_def stage_of_def in_flight_finish finished_step)

lemma guards_ctx [guard_intros]: "env_spares i env \<Longrightarrow> stage_of i s \<Longrightarrow> guards i s s (ctx_err env c)"
  unfolding ctx_err_def by (rule guards_client) (simp_all add: env_spares_def)

lemma guards_emit [guard_intros]: "env_spares i env \<Longrightarrow> stage_of i s \<Longrightarrow> guards i s s (emit env sg oc n)"
  unfolding emit_def by (rule guards_client) (simp_all add: env_spares_def)

lemma guards_clients [guard_intros]:
  "env_spares i env \<Longrightarrow> stage_of i s \<Longrightarrow> guards i s s (call (dx_check env f) (DCheck f))"
  "env_spares i env \<Longrightarrow> stage_of i s \<Longrightarrow> guards i s s (call (dx_activate env f t) (DActivate f t))"
  "env_spares i env \<Longrightarrow> stage_of i s \<Longrightarrow> guards i s s (call (dx_ensure env f t) (DEnsure f t))"
  "env_spares i env \<Longrightarrow> guards i (in_flight i) (in_flight i) (call (dx_publish env m) (\<lambda>(r, e). DPublish m r e))"
  "env_spares i env \<Longrightarrow> guards i (in_flight i) (in_flight i) (call (dx_mark env c) (\<lambda>(r, e). DMark c r e))"
  by (rule guards_client; simp add: env_spares_def)+

lemma guards_case [guard_intros]:
  "(\<And>a b. guards i s t (f a b)) \<Longrightarrow> guards i s t (case r of (a, b) \<Rightarrow> f a b)"
  by (cases r) simp

lemma guards_activate:
  assumes "env_spares i env" and "stage_of i s"
  shows "guards i s s (activate_after_publish env fence gen c marked)"
  unfolding activate_after_publish_def
  using assms by (intro guards_bind [where ?s2.0 = s] guard_intros) simp_all

lemma guards_mark:
  assumes "env_spares i env"
  shows "guards i (in_flight i) (finished i) (mark_confirmed env c fence gen i)"
  unfolding mark_confirmed_def
  apply (rule guards_bind [where ?s2.0 = "in_flight i"], intro guard_intros assms)
  apply (rule guards_case)
  apply (rule guards_bind [where ?s2.0 = "in_flight i"], intro guard_intros assms stages)
  apply (rule guards_bind [where ?s2.0 = "in_flight i"], intro guard_intros assms stages)
  apply (rule guards_bind [where ?s2.0 = "in_flight i"], intro guard_intros assms stages)
  apply (rule guards_bind [where ?s2.0 = "finished i"], intro guards_finish stages)
  apply (intro guard_intros guards_activate assms stages guards_bind [where ?s2.0 = "finished i"])
  done


definition entered :: "nat \<Rightarrow> gate_world \<Rightarrow> bool" where
  "entered i v \<longleftrightarrow> in_flight i v \<or> finished i v"

lemma guards_weaken:
  assumes "guards i s t m" and "\<And>v. t v \<Longrightarrow> t' v"
  shows "guards i s t' m"
  unfolding guards_def
proof (intro allI impI)
  fix v x l
  assume "s v" "critical_safe i l"
  from guardsD [OF assms(1) this]
  show "wp m (\<lambda>_ s. t' (fst (fst s)) \<and> critical_safe i (snd s)) ((v, x), l)"
    by (rule wp_mono) (simp add: assms(2))
qed

lemma guards_entered:
  "guards i (in_flight i) (entered i) (State_Monad.return r)"
  "env_spares i env \<Longrightarrow> guards i (in_flight i) (entered i) (mark_confirmed env c fence gen i)"
  by (rule guards_weaken, rule guards_return guards_mark, auto simp: entered_def)+

lemma guards_publish:
  assumes "env_spares i env"
  shows "guards i (in_flight i) (entered i) (publish_admitted env c fence gen i)"
  unfolding publish_admitted_def
  by (intro guards_if guards_case guards_bind [where ?s2.0 = "in_flight i"] guards_entered guard_intros assms stages)

lemma guards_finish_entered: "guards i (entered i) (finished i) (finish_attempt i)"
  unfolding finish_attempt_def
  by (rule guards_call) (auto simp: on_gate_def entered_def in_flight_finish finished_step)

lemma dispatch_guarded:
  assumes "gate_inv v" and "env_spares (length (gw_attempts v)) env"
  shows "wp (dispatch_one env res c) (\<lambda>_ s. critical_safe (length (gw_attempts v)) (snd s)
     \<and> (length (gw_attempts v) < length (gw_attempts (fst (fst s))) \<longrightarrow> finished (length (gw_attempts v)) (fst (fst s))))
     ((v, x), [])"
proof -
  let ?i = "length (gw_attempts v)"
  have fin: "guards ?i (in_flight ?i) (finished ?i)
      (do { err \<leftarrow> publish_admitted env c fence gen ?i; finish_attempt ?i; State_Monad.return err })" for fence gen
    by (rule guards_bind [OF guards_publish [OF assms(2)]], rule guards_bind [OF guards_finish_entered guards_return])
  show ?thesis
    unfolding dispatch_one_def begin_attempt_def
  proof (intro wp_if wp_return wp_bind wp_call, goal_cases)
    case (3 g y r w)
    then have g: "g = v" "r = (case fst (begin_publisher_attempt (gw_gate v)) of
        Inl ss \<Rightarrow> Inl ss | Inr (fence, gen) \<Rightarrow> Inr (fence, gen, ?i))" "w = (gate_exec GBegin v, y)"
      by (auto simp: on_gate_def)
    show ?case
    proof (cases "fst (begin_publisher_attempt (gw_gate v))")
      case (Inl ss)
      then have "gate_exec GBegin v = v"
        by (auto simp: gate_exec_def begin_publisher_attempt_def Let_def split: if_splits)
      then show ?thesis using Inl g by (auto intro!: wp_return simp: critical_safe_def)
    next
      case (Inr a)
      have "critical_safe ?i ([] @ [(g, DBegin r)])" by (simp add: critical_safe_def)
      note run = guardsD [OF fin begin_in_flight [OF assms(1) Inr] this, of "fst a" "snd a" y]
      have "wp (do { err \<leftarrow> publish_admitted env c (fst a) (snd a) ?i; finish_attempt ?i; State_Monad.return err })
          (\<lambda>_ s. critical_safe ?i (snd s) \<and> (?i < length (gw_attempts (fst (fst s))) \<longrightarrow> finished ?i (fst (fst s))))
          ((gate_exec GBegin v, y), [] @ [(g, DBegin r)])"
        by (rule wp_mono [OF run]) simp
      then show ?thesis using Inr g by (cases a) simp
    qed
  qed (simp_all add: critical_safe_def)
qed

text \<open>C36: recovery cannot overtake a publication. While a dispatcher attempt publishes or marks, whatever
  other goroutines do to the gate in the meantime, the attempt is in flight: the gate still has
  its fence, the drain channel that recovery waits on is open, and no new fence can be
  installed. When \<open>dispatchCandidate\<close> returns, its attempt is no longer in flight.\<close>

theorem publication_holds_gate:
  assumes "gate_reachable v" and "env_spares (length (gw_attempts v)) env"
    and "run_state (dispatch_one env res c) ((v, x), []) = (err, (v', x'), log)"
  shows "(\<forall>(u, e)\<in>set log. publishes e \<or> marks e \<longrightarrow>
        (\<exists>gen. gw_attempts u ! length (gw_attempts v) = (pg_fence (gw_gate u), gen, False))
        \<and> pg_drained (gw_gate u) \<notin> gate_closed_chans u
        \<and> fst (open_publisher_gate fence (gw_gate u)) \<noteq> None)
    \<and> (\<forall>gen f. length (gw_attempts v) < length (gw_attempts v') \<longrightarrow>
        gw_attempts v' ! length (gw_attempts v) \<noteq> (f, gen, False))"
proof -
  let ?i = "length (gw_attempts v)"
  have safe: "critical_safe ?i log" "?i < length (gw_attempts v') \<Longrightarrow> finished ?i v'"
    using dispatch_guarded [OF gate_reachable_inv [OF assms(1)] assms(2), of res c x] assms(3)
    by (simp_all add: wp_def)
  have held: "(\<exists>gen. gw_attempts u ! ?i = (pg_fence (gw_gate u), gen, False))
      \<and> pg_drained (gw_gate u) \<notin> gate_closed_chans u \<and> fst (open_publisher_gate fence (gw_gate u)) \<noteq> None"
    if u: "in_flight ?i u" for u
  proof -
    obtain f gen where a: "gw_attempts u ! ?i = (f, gen, False)"
      using u by (cases "gw_attempts u ! ?i") (auto simp: in_flight_def)
    then have "(f, gen, False) \<in> set (gw_attempts u)" using u by (metis in_flight_def nth_mem)
    then have live: "(f, gen) \<in> set (live_attempts u)" by (force simp: live_attempts_def)
    then have "live_attempts u \<noteq> []" by auto
    moreover have "f = pg_fence (gw_gate u)" using u live by (auto simp: in_flight_def gate_inv_def)
    ultimately show ?thesis using u a
      by (auto simp: in_flight_def gate_inv_def gate_closed_chans_def open_publisher_gate_def wraps_def)
  qed
  show ?thesis using safe held unfolding critical_safe_def finished_def by fastforce
qed

subsection \<open>Loops and options\<close>

lemma dispatcher_options_ok:
  assumes "dispatcher_with_defaults o1 = Inr o2"
  shows "0 < dsp_page_size o2" "dsp_page_size o2 \<le> max_recovery_page_size"
    "\<forall>d\<in>{dsp_interval o2, dsp_sweep o2, dsp_publish_timeout o2, dsp_backoff_initial o2, dsp_backoff_max o2}.
       0 < d \<and> d \<le> max_resource_duration"
    "dsp_backoff_initial o2 \<le> dsp_backoff_max o2"
proof -
  have "\<exists>z. dispatcher_with_defaults o1 = check_err (validate_page_limit (dsp_page_size z))
      (check_err (first_err (map duration_ok
          [dsp_interval z, dsp_sweep z, dsp_publish_timeout z, dsp_backoff_initial z, dsp_backoff_max z]))
        (if dsp_backoff_initial z > dsp_backoff_max z then Inl [] else Inr z))"
    unfolding dispatcher_with_defaults_def Let_def by (rule exI, rule refl)
  then obtain z where "check_err (validate_page_limit (dsp_page_size z))
      (check_err (first_err (map duration_ok
          [dsp_interval z, dsp_sweep z, dsp_publish_timeout z, dsp_backoff_initial z, dsp_backoff_max z]))
        (if dsp_backoff_initial z > dsp_backoff_max z then Inl [] else Inr z)) = Inr o2"
    using assms by metis
  then have "validate_page_limit (dsp_page_size z) = None" "dsp_backoff_initial z \<le> dsp_backoff_max z" "o2 = z"
    "first_err (map duration_ok
        [dsp_interval z, dsp_sweep z, dsp_publish_timeout z, dsp_backoff_initial z, dsp_backoff_max z]) = None"
    by (simp_all only: check_err_Inr split: if_splits) simp_all
  then show "0 < dsp_page_size o2" "dsp_page_size o2 \<le> max_recovery_page_size"
    "\<forall>d\<in>{dsp_interval o2, dsp_sweep o2, dsp_publish_timeout o2, dsp_backoff_initial o2, dsp_backoff_max o2}.
       0 < d \<and> d \<le> max_resource_duration"
    "dsp_backoff_initial o2 \<le> dsp_backoff_max o2"
    by (simp_all add: duration_ok_None validate_page_limit_def plain_err_def)
qed

text \<open>A loop's next cursor is the one its last page returned, or the same one after a failure.\<close>

fun cursors_ok :: "(goerr \<times> (string \<Rightarrow> string \<times> bool \<times> goerr) \<times> goerr \<times> goerr) list \<Rightarrow> string list \<Rightarrow> bool" where
  "cursors_ok ((_, page, _, _) # rest) (c # c' # cs) \<longleftrightarrow>
     c' = (if snd (snd (page c)) = None then fst (page c) else c) \<and> cursors_ok rest (c' # cs)"
| "cursors_ok _ _ = True"

definition waits_ok :: "dispatcher_options \<Rightarrow> int \<Rightarrow> int list \<Rightarrow> bool" where
  "waits_ok opts interval ds \<longleftrightarrow>
     (\<forall>d\<in>set ds. d = interval \<or> (dsp_backoff_initial opts \<le> d \<and> d \<le> dsp_backoff_max opts))"

definition loop_result :: "int \<Rightarrow> string \<Rightarrow> dispatcher_options \<Rightarrow>
    (goerr \<times> (string \<Rightarrow> string \<times> bool \<times> goerr) \<times> goerr \<times> goerr) list \<Rightarrow> string list \<times> int list \<times> goerr option \<Rightarrow> bool" where
  "loop_result interval cursor opts outs r \<longleftrightarrow>
     (case r of (cs, ds, e) \<Rightarrow> waits_ok opts interval ds \<and> cursors_ok outs cs
        \<and> (cs \<noteq> [] \<longrightarrow> hd cs = cursor) \<and> length cs \<le> length outs)"

lemma page_loop_result:
  assumes "0 < dsp_backoff_initial opts" and "dsp_backoff_initial opts \<le> dsp_backoff_max opts" and "is_i64 (dsp_backoff_max opts)"
    and "dsp_backoff_initial opts \<le> b" and "b \<le> dsp_backoff_max opts"
  shows "loop_result interval cursor opts outs (page_loop opts interval cursor b outs)"
  using assms(4,5)
proof (induction outs arbitrary: b cursor)
  case Nil
  then show ?case by (simp add: loop_result_def waits_ok_def)
next
  case (Cons out outs)
  obtain s page a w where out: "out = (s, page, a, w)" by (cases out) auto
  obtain nxt drained err where page: "page cursor = (nxt, drained, err)" by (cases "page cursor") auto
  have b: "0 < b" "is_i64 b" using Cons.prems assms(1,3) by (auto simp: is_i64_def)
  have n: "dsp_backoff_initial opts \<le> next_dispatcher_backoff b (dsp_backoff_max opts)"
    "next_dispatcher_backoff b (dsp_backoff_max opts) \<le> dsp_backoff_max opts"
    using Cons.prems assms(2) b(1) by (auto simp: next_backoff_exact(2) [OF b assms(3)])
  have step: "loop_result interval cursor opts (out # outs) (cursor # cs, k @ ds, e)"
    if "loop_result interval c' opts outs (cs, ds, e)" "c' = (if err = None then nxt else cursor)"
      "waits_ok opts interval k" for c' cs ds e k
    using that by (cases cs) (auto simp: loop_result_def waits_ok_def out page)
  have stop: "loop_result interval cursor opts (out # outs) (if b then [cursor] else [], k, e)"
    if "waits_ok opts interval k" for b k e
    using that by (auto simp: loop_result_def)
  have k: "waits_ok opts interval []" "waits_ok opts interval [interval]" "waits_ok opts interval [b]"
    using Cons.prems by (simp_all add: waits_ok_def)
  note next1 = Cons.IH [OF n, of cursor] and next2 = Cons.IH [OF order_refl assms(2), of nxt]
  show ?case
  proof (cases "err = None")
    case True
    obtain cs ds e where r: "page_loop opts interval nxt (dsp_backoff_initial opts) outs = (cs, ds, e)"
      by (metis prod.collapse)
    have "loop_result interval nxt opts outs (cs, ds, e)" using next2 by (simp add: r)
    from step [OF this _ k(1)] step [OF this _ k(2)] stop [OF k(1), of False] stop [OF k(2), of True] True
    show ?thesis using r by (auto simp: out page)
  next
    case False
    obtain cs ds e where r: "page_loop opts interval cursor (next_dispatcher_backoff b (dsp_backoff_max opts)) outs = (cs, ds, e)"
      by (metis prod.collapse)
    have "loop_result interval cursor opts outs (cs, ds, e)" using next1 by (simp add: r)
    from step [OF this _ k(3)] stop [OF k(1), of False] stop [OF k(1), of True] stop [OF k(3), of True] False
    show ?thesis by (auto simp: out page r)
  qed
qed

text \<open>The dispatcher's loops neither spin nor skip. With accepted options every wait of the two loops
  is their interval or between the initial and the maximal backoff, both positive and at most
  a day, computed without overflow; a scan starts at the beginning, and each page starts at the
  cursor the previous page returned, or at the same cursor when the previous page failed.\<close>

theorem dispatcher_loops:
  assumes "dispatcher_with_defaults o1 = Inr o2"
    and "interval = dsp_interval o2 \<or> interval = dsp_sweep o2"
    and "page_loop o2 interval [] (dsp_backoff_initial o2) outs = (cs, ds, r)"
  shows "(\<forall>d\<in>set ds. d = interval \<or> (dsp_backoff_initial o2 \<le> d \<and> d \<le> dsp_backoff_max o2))
    \<and> (\<forall>d\<in>set ds. 0 < d \<and> d \<le> max_resource_duration)
    \<and> cursors_ok outs cs \<and> (cs \<noteq> [] \<longrightarrow> hd cs = []) \<and> length cs \<le> length outs
    \<and> 0 < dsp_page_size o2 \<and> dsp_page_size o2 \<le> max_recovery_page_size"
proof -
  note o2 = dispatcher_options_ok [OF assms(1)]
  have m: "is_i64 (dsp_backoff_max o2)" using o2(3) by (simp add: is_i64_def max_resource_duration_def)
  have "loop_result interval [] o2 outs (cs, ds, r)"
    using page_loop_result [OF _ o2(4) m order_refl o2(4), of interval "[]" outs] o2(3) assms(3) by simp
  moreover have "0 < d \<and> d \<le> max_resource_duration"
    if "d = interval \<or> (dsp_backoff_initial o2 \<le> d \<and> d \<le> dsp_backoff_max o2)" for d
    using that o2(3) assms(2) by auto
  ultimately show ?thesis using o2(1,2) unfolding loop_result_def waits_ok_def by auto
qed

text \<open>An authoritative failure is never masked. Whatever the order in which the two loops end and
  even when the caller has canceled, \<open>Run\<close> returns an authoritative failure if one of the loops
  did, and one that is not excused as a stale writer mismatch if there is one; corruption of
  the authoritative state is never excused. It returns nil only if nothing failed.\<close>

theorem authoritative_failure_returned:
  assumes "\<not> authoritative_fatal ctx"
  shows "(authoritative_fatal (dispatcher_result one two ctx) \<longleftrightarrow> authoritative_fatal one \<or> authoritative_fatal two)
    \<and> ((\<exists>e\<in>{one, two}. authoritative_fatal e \<and> \<not> stale_mismatch_only e) \<longleftrightarrow>
        authoritative_fatal (dispatcher_result one two ctx) \<and> \<not> stale_mismatch_only (dispatcher_result one two ctx))
    \<and> (errors_is e ErrAuthoritativeStateCorrupt \<longrightarrow> authoritative_fatal e \<and> \<not> stale_mismatch_only e)
    \<and> (dispatcher_result one two ctx = None \<longleftrightarrow> one = None \<and> two = None \<and> ctx = None)"
  using assms by (auto simp: dispatcher_result_def stale_mismatch_only_def authoritative_fatal_def)

subsection \<open>Witnesses\<close>

definition sample_candidate :: dispatch_candidate where
  "sample_candidate = \<lparr> cand_message = sample_message, cand_guard = ''g'' \<rparr>"

lemma sample_candidate_valid: "validate_candidate sample_candidate = None"
  by (simp add: validate_candidate_def sample_candidate_def sample_message_valid valid_utf8_def runes_def)

definition quiet_dispatch :: "unit disp_world dispatch_env" where
  "quiet_dispatch = \<lparr> dx_err = (\<lambda>_. State_Monad.return None),
     dx_get = (\<lambda>_. State_Monad.return (sample_candidate, True, None)),
     dx_list = (\<lambda>_ _. State_Monad.return ([sample_candidate], [], None)),
     dx_rearm = (\<lambda>_ _. State_Monad.return ([sample_candidate], [], None)),
     dx_mark = (\<lambda>_. State_Monad.return (True, None)), dx_check = (\<lambda>_. State_Monad.return None),
     dx_activate = (\<lambda>_ _. State_Monad.return None), dx_ensure = (\<lambda>_ _. State_Monad.return None),
     dx_publish = (\<lambda>_. State_Monad.return (replicate 32 CHR ''a'', None)),
     dx_emit = (\<lambda>_ _ _. State_Monad.return ()) \<rparr>"

lemma quiet_spares: "env_spares i quiet_dispatch"
proof -
  have "others i v v" for v unfolding others_def by (intro exI [of _ "[]"]) simp
  then show ?thesis by (simp add: env_spares_def spares_def quiet_dispatch_def)
qed

definition open_gate :: gate_world where
  "open_gate = gate_exec (GOpen sample_gate_fence) (new_gate_world sample_gate_fence)"

lemma open_gate_reachable: "gate_reachable open_gate"
  unfolding open_gate_def by (intro gate_step gate_start)

lemma open_gate_begin:
  "begin_publisher_attempt (gw_gate open_gate) =
     (Inr (sample_gate_fence, 2), gw_gate (gate_exec GBegin open_gate))" "gw_attempts open_gate = []"
  "publisher_fence (gw_gate open_gate) = Inr (sample_gate_fence, 2)"
  by (simp_all add: open_gate_def gate_exec_def new_gate_world_def new_closed_gate_def open_publisher_gate_def
      sample_gate_fence_valid begin_publisher_attempt_def publisher_fence_def)

lemmas dispatch_defs = dispatch_one_def publish_admitted_def mark_confirmed_def activate_after_publish_def
  begin_attempt_def finish_attempt_def ctx_err_def emit_def read_fence_def call_def on_gate_def

lemma sample_candidate_simps:
  "msg_resource (cand_message sample_candidate) = ''rag''" "lower_hex 32 (replicate 32 CHR ''a'')"
  "\<not> authoritative_fatal None"
  by (simp_all add: sample_candidate_def sample_message_def lower_hex_def is_lower_hex_char_def list_all_iff
      authoritative_fatal_def)

lemma quiet_dispatch_one:
  "fst (logged (dispatch_one quiet_dispatch ''rag'' sample_candidate) (open_gate, ())) = None"
  by (simp add: logged_def dispatch_defs sample_candidate_valid open_gate_begin quiet_dispatch_def
      sample_candidate_simps validate_receipt_def)

theorem publication_in_order_witness:
  "occurs marked_ok (events (snd (logged (dispatch_one quiet_dispatch ''rag'' sample_candidate) (open_gate, ())))) = 1"
  using publication_in_order [of quiet_dispatch "''rag''" sample_candidate "(open_gate, ())"] quiet_dispatch_one
  by (simp add: Let_def case_prod_beta)

definition sample_dispatcher :: dispatcher_options where
  "sample_dispatcher = \<lparr> dsp_page_size = 100, dsp_interval = 1000000000, dsp_sweep = 5000000000,
     dsp_publish_timeout = 15000000000, dsp_backoff_initial = 100000000, dsp_backoff_max = 5000000000 \<rparr>"

lemma sample_dispatcher_default:
  "dispatcher_with_defaults \<lparr> dsp_page_size = 0, dsp_interval = 0, dsp_sweep = 0, dsp_publish_timeout = 0,
     dsp_backoff_initial = 0, dsp_backoff_max = 0 \<rparr> = Inr sample_dispatcher"
  by (simp add: dispatcher_with_defaults_def sample_dispatcher_def Let_def validate_page_limit_def
      max_recovery_page_size_def duration_ok_None max_resource_duration_def)

lemma quiet_dispatch_page:
  "fst (logged (dispatch_page quiet_dispatch ''rag'' sample_dispatcher ''c'') (open_gate, ())) = ([], False, None)"
proof -
  have "validate_cursor ''c'' = None"
    by (simp add: validate_cursor_def validate_bounded_text_None runes_def text_bounds is_control_def)
  then show ?thesis
    by (simp add: logged_def dispatch_page_def dispatch_listed_def dispatch_defs sample_candidate_valid open_gate_begin
        quiet_dispatch_def sample_candidate_simps validate_receipt_def normalize_dispatcher_page_def empty_cursor
        sample_dispatcher_def)
qed

theorem scan_never_skips_witness:
  "\<exists>e cs. e \<in> set (events (snd (logged (dispatch_page quiet_dispatch ''rag'' sample_dispatcher ''c'') (open_gate, ()))))
     \<and> scanned e = Some (''c'', cs) \<and> cs \<noteq> []"
  using scan_never_skips [OF disjI1 [OF refl], of quiet_dispatch "''rag''" sample_dispatcher "''c''" "(open_gate, ())"]
  by (fastforce simp: Let_def case_prod_beta quiet_dispatch_page)

theorem publication_holds_gate_witness:
  "filter (\<lambda>(u, e). publishes e \<and> pg_drained (gw_gate u) \<in> gate_closed_chans u)
     (snd (logged (dispatch_one quiet_dispatch ''rag'' sample_candidate) (open_gate, ()))) = []"
proof -
  obtain err v' x' log where run: "run_state (dispatch_one quiet_dispatch ''rag'' sample_candidate) ((open_gate, ()), [])
      = (err, (v', x'), log)" by (metis prod.collapse)
  show ?thesis
    using publication_holds_gate [OF open_gate_reachable quiet_spares run, of sample_gate_fence]
    by (fastforce simp: logged_def run filter_empty_conv)
qed

theorem dispatcher_loops_witness:
  "cursors_ok [(None, \<lambda>c. (''x'', False, Some []), None, None), (None, \<lambda>c. (''x'', False, None), None, None)] [[], []]"
  using dispatcher_loops [OF sample_dispatcher_default, of _
      "[(None, \<lambda>c. (''x'', False, Some []), None, None), (None, \<lambda>c. (''x'', False, None), None, None)]"]
  by (simp add: authoritative_fatal_def)

theorem authoritative_failure_returned_witness:
  "authoritative_fatal (dispatcher_result None (wraps ErrAuthoritativeWriterMismatch) (wraps ErrContextCanceled))"
proof -
  have "\<not> authoritative_fatal (wraps ErrContextCanceled)" "authoritative_fatal (wraps ErrAuthoritativeWriterMismatch)"
    by (simp_all add: authoritative_fatal_def)
  with authoritative_failure_returned [OF this(1), of None "wraps ErrAuthoritativeWriterMismatch" None] show ?thesis by blast
qed

end
