(* ===== verification/Fq_Runtime.thy ===== *)
theory Fq_Runtime
  imports Fq_Dispatcher Fq_Scheduler
begin

text \<open>
  The runtime's worker admission (\<^verbatim>\<open>runtime.go\<close>): gates, worker permits, the counters of attempts
  and running tasks with the channels that waiters drain on, and the fatal and shutdown flags.
  One resource is modelled with the flags of the runtime. Every operation below is one critical
  section (of \<open>permit.mu\<close>, \<open>entry.mu\<close>, \<open>runtime.mu\<close>, or several held at once), so the
  goroutines interleave as sequences of operations.
\<close>

subsection \<open>Options\<close>

record runtime_options =
  rto_idle :: int
  rto_backoff_initial :: int
  rto_backoff_max :: int
  rto_cleanup :: int
  rto_grace :: int

definition runtime_with_defaults :: "runtime_options \<Rightarrow> runtime_options result" where
  "runtime_with_defaults o1 =
     (let o2 = \<lparr> rto_idle = (if rto_idle o1 = 0 then 25 * 1000000 else rto_idle o1),
                 rto_backoff_initial = (if rto_backoff_initial o1 = 0 then 50 * 1000000 else rto_backoff_initial o1),
                 rto_backoff_max = (if rto_backoff_max o1 = 0 then 5 * 1000000000 else rto_backoff_max o1),
                 rto_cleanup = rto_cleanup o1,
                 rto_grace = (if rto_grace o1 = 0 then 30 * 1000000000 else rto_grace o1) \<rparr>
      in check_err (first_err [
             duration_ok (rto_idle o2), duration_ok (rto_backoff_initial o2), duration_ok (rto_backoff_max o2),
             (if rto_cleanup o2 = 0 then None else duration_ok (rto_cleanup o2)), duration_ok (rto_grace o2)])
         (if rto_backoff_initial o2 > rto_backoff_max o2 then Inl [] else Inr o2))"

subsection \<open>Registration\<close>

definition dispatcher_options_of :: "runtime_options \<Rightarrow> resource_config \<Rightarrow> dispatcher_options" where
  "dispatcher_options_of o2 cf =
     \<lparr> dsp_page_size = reconcile_page_size cf, dsp_interval = dispatch_interval cf,
       dsp_sweep = expired_running_sweep_interval cf, dsp_publish_timeout = publish_attempt_timeout cf,
       dsp_backoff_initial = rto_backoff_initial o2, dsp_backoff_max = rto_backoff_max o2 \<rparr>"

definition scheduler_options_of :: "runtime_options \<Rightarrow> resource_config \<Rightarrow> scheduler_options" where
  "scheduler_options_of o2 cf =
     \<lparr> idle_interval = rto_idle o2, backoff_initial = rto_backoff_initial o2, backoff_max = rto_backoff_max o2,
       cleanup_timeout = (if rto_cleanup o2 = 0 then default_scheduler_cleanup_timeout cf else rto_cleanup o2) \<rparr>"

text \<open>\<open>RegisterResource\<close>, up to the resource it stores. \<open>reg_clients\<close>: preparer, dispatch source and rearm
  source are not nil; \<open>busy\<close>: the runtime runs or shuts down; \<open>keys\<close> are the registered ones. The
  recovery coordinator is made with default options, which its constructor accepts.\<close>

record registration =
  reg_config :: resource_config
  reg_clients :: bool
  reg_recovery :: bool
  reg_writer :: string

definition validate_registration :: "registration \<Rightarrow> goerr" where
  "validate_registration g =
     first_err [
       validate_resource_config (reg_config g),
       fail_when (\<not> reg_clients g) plain_err,
       fail_when ((\<not> reg_recovery g) \<noteq> (reg_writer g = [])) plain_err,
       fail_when (reg_recovery g \<and> \<not> lower_hex 64 (reg_writer g)) (wraps ErrInvalidModel)]"

definition register_resource ::
  "runtime_options \<Rightarrow> bool \<Rightarrow> string list \<Rightarrow> registration \<Rightarrow> (dispatcher_options \<times> scheduler_options) result" where
  "register_resource o2 busy keys g = (let cf = reg_config g in
     check_err (validate_registration g)
      (if busy then Inl [ErrRuntimeShuttingDown]
       else if rc_key cf \<in> set keys then Inl []
       else case dispatcher_with_defaults (dispatcher_options_of o2 cf) of
           Inl ss \<Rightarrow> Inl ss
         | Inr d \<Rightarrow>
             (case scheduler_with_defaults (scheduler_options_of o2 cf) cf of
                Inl ss \<Rightarrow> Inl ss
              | Inr s \<Rightarrow> Inr (d, s))))"

subsection \<open>State\<close>

datatype permit_state = PermitReserved | PermitStarted | PermitRunning | PermitFinished

record worker_permit =
  pm_fence :: resource_fence
  pm_gen :: "64 word"
  pm_state :: permit_state
  pm_running_id :: "64 word"

text \<open>\<open>runtimeResource\<close>; a running task is its id with tenant and stable token.\<close>

record runtime_entry =
  re_open :: bool
  re_fence :: resource_fence
  re_gen :: "64 word"
  re_prepare :: int
  re_prepare_drained :: nat
  re_direct :: int
  re_direct_drained :: nat
  re_slots :: int
  re_running :: "(64 word \<times> string \<times> string) list"
  re_next_id :: "64 word"
  re_running_drained :: nat
  re_chans :: chans

subsection \<open>Critical sections\<close>

text \<open>The last section of \<open>tryReserveWorker\<close>.\<close>

definition reserve_worker :: "resource_config \<Rightarrow> runtime_entry \<Rightarrow> worker_permit option \<times> runtime_entry" where
  "reserve_worker cf e =
     (if \<not> re_open e \<or> re_slots e \<ge> local_workers cf then (None, e)
      else
        let e = (if re_prepare e = 0
                 then (let (ch, h) = make_chan (re_chans e) in e\<lparr> re_prepare_drained := ch, re_chans := h \<rparr>)
                 else e);
            e = e\<lparr> re_prepare := re_prepare e + 1, re_slots := re_slots e + 1 \<rparr>
        in (Some \<lparr> pm_fence = re_fence e, pm_gen = re_gen e, pm_state = PermitReserved, pm_running_id = 0 \<rparr>, e))"

text \<open>\<open>tryReserveWorker\<close>: \<open>stopping\<close> and \<open>publisher_open\<close> are what the two sections before it read.\<close>

definition try_reserve_worker ::
  "resource_config \<Rightarrow> bool \<Rightarrow> bool \<Rightarrow> runtime_entry \<Rightarrow> worker_permit option \<times> runtime_entry" where
  "try_reserve_worker cf stopping publisher_open e =
     (if stopping then (None, e) else if \<not> publisher_open then (None, e) else reserve_worker cf e)"

text \<open>\<open>start\<close>: the work is sent to a worker, or \<open>stopped\<close> selects the stopped branch, which puts the
  state back before anyone else can see the permit.\<close>

definition permit_start ::
  "resource_config \<Rightarrow> 'd worker_envelope \<Rightarrow> bool \<Rightarrow> worker_permit \<Rightarrow> goerr \<times> worker_permit" where
  "permit_start cf env stopped p =
     (if we_resource env \<noteq> rc_key cf \<or> we_fence env \<noteq> pm_fence p \<or> we_gate_generation env \<noteq> pm_gen p
         \<or> we_tenant env = [] \<or> we_provisional env = [] then (wraps ErrInvalidModel, p)
      else if pm_state p \<noteq> PermitReserved then (plain_err, p)
      else if stopped then (wraps ErrRuntimeShuttingDown, p\<lparr> pm_state := PermitReserved \<rparr>)
      else (None, p\<lparr> pm_state := PermitStarted \<rparr>))"

definition finish_prepare_locked :: "runtime_entry \<Rightarrow> runtime_entry" where
  "finish_prepare_locked e =
     (if re_prepare e \<le> 0 then e
      else
        let e = e\<lparr> re_prepare := re_prepare e - 1 \<rparr>
        in if re_prepare e = 0 then e\<lparr> re_chans := close_chan (re_prepare_drained e) (re_chans e) \<rparr> else e)"

definition finish_prepare_and_slot :: "runtime_entry \<Rightarrow> runtime_entry" where
  "finish_prepare_and_slot e =
     (let e = finish_prepare_locked e in if re_slots e > 0 then e\<lparr> re_slots := re_slots e - 1 \<rparr> else e)"

text \<open>The \<open>permit.mu\<close> sections of \<open>abort\<close>, \<open>finishWithoutRun\<close>, \<open>finishRun\<close> and \<open>finishAfterPanic\<close>
  decide what the permit still owes to its resource, which a later section pays.\<close>

datatype owed = OwePrepareAndSlot | OweRunning "64 word"

definition permit_abort :: "worker_permit \<Rightarrow> owed option \<times> worker_permit" where
  "permit_abort p =
     (if pm_state p \<noteq> PermitReserved then (None, p)
      else (Some OwePrepareAndSlot, p\<lparr> pm_state := PermitFinished \<rparr>))"

definition permit_finish_without_run :: "worker_permit \<Rightarrow> owed option \<times> worker_permit" where
  "permit_finish_without_run p =
     (if pm_state p \<noteq> PermitStarted then (None, p)
      else (Some OwePrepareAndSlot, p\<lparr> pm_state := PermitFinished \<rparr>))"

definition permit_finish_run :: "worker_permit \<Rightarrow> owed option \<times> worker_permit" where
  "permit_finish_run p =
     (if pm_state p \<noteq> PermitRunning then (None, p)
      else (Some (OweRunning (pm_running_id p)), p\<lparr> pm_state := PermitFinished \<rparr>))"

definition permit_finish_after_panic :: "worker_permit \<Rightarrow> owed option \<times> worker_permit" where
  "permit_finish_after_panic p =
     (if pm_state p \<noteq> PermitStarted \<and> pm_state p \<noteq> PermitRunning then (None, p)
      else (Some (if pm_state p = PermitStarted then OwePrepareAndSlot else OweRunning (pm_running_id p)),
            p\<lparr> pm_state := PermitFinished \<rparr>))"

definition leave_running :: "64 word \<Rightarrow> runtime_entry \<Rightarrow> runtime_entry" where
  "leave_running i e =
     (let e = e\<lparr> re_running := filter (\<lambda>t. fst t \<noteq> i) (re_running e) \<rparr>;
          e = (if re_running e = [] then e\<lparr> re_chans := close_chan (re_running_drained e) (re_chans e) \<rparr> else e)
      in if re_slots e > 0 then e\<lparr> re_slots := re_slots e - 1 \<rparr> else e)"

definition pay :: "owed \<Rightarrow> runtime_entry \<Rightarrow> runtime_entry" where
  "pay d e = (case d of OwePrepareAndSlot \<Rightarrow> finish_prepare_and_slot e | OweRunning i \<Rightarrow> leave_running i e)"

text \<open>\<open>beginRun\<close>, which holds all three locks: \<open>fatal\<close> is \<open>runtime.fatalErr\<close>.\<close>

definition permit_begin_run ::
  "goerr \<Rightarrow> goerr \<Rightarrow> string \<Rightarrow> string \<Rightarrow> worker_permit \<Rightarrow> runtime_entry \<Rightarrow> 64 word option \<times> worker_permit \<times> runtime_entry" where
  "permit_begin_run fatal ctx tenant token p e =
     (if pm_state p \<noteq> PermitStarted then (None, p, e)
      else if fatal \<noteq> None \<or> ctx \<noteq> None then (None, p, e)
      else
        let e = e\<lparr> re_next_id := re_next_id e + 1 \<rparr>;
            i = re_next_id e;
            e = (if re_running e = []
                 then (let (ch, h) = make_chan (re_chans e) in e\<lparr> re_running_drained := ch, re_chans := h \<rparr>)
                 else e);
            e = e\<lparr> re_running := (i, tenant, token) # filter (\<lambda>t. fst t \<noteq> i) (re_running e) \<rparr>;
            e = finish_prepare_locked e
        in (Some i, p\<lparr> pm_state := PermitRunning, pm_running_id := i \<rparr>, e))"

definition begin_direct_dispatch :: "bool \<Rightarrow> runtime_entry \<Rightarrow> goerr \<times> runtime_entry" where
  "begin_direct_dispatch stopping e =
     (if stopping then (wraps ErrRuntimeShuttingDown, e)
      else
        let e = (if re_direct e = 0
                 then (let (ch, h) = make_chan (re_chans e) in e\<lparr> re_direct_drained := ch, re_chans := h \<rparr>)
                 else e)
        in (None, e\<lparr> re_direct := re_direct e + 1 \<rparr>))"

definition finish_direct_dispatch :: "runtime_entry \<Rightarrow> runtime_entry" where
  "finish_direct_dispatch e =
     (if re_direct e > 0 then
        let e = e\<lparr> re_direct := re_direct e - 1 \<rparr>
        in if re_direct e = 0 then e\<lparr> re_chans := close_chan (re_direct_drained e) (re_chans e) \<rparr> else e
      else e)"

definition close_gate :: "runtime_entry \<Rightarrow> runtime_entry" where
  "close_gate e = e\<lparr> re_open := False, re_gen := re_gen e + 1 \<rparr>"

definition close_gate_for :: "resource_fence \<Rightarrow> 64 word \<Rightarrow> runtime_entry \<Rightarrow> bool \<times> runtime_entry" where
  "close_gate_for fence gen e =
     (if re_open e \<and> re_fence e = fence \<and> re_gen e = gen
      then (True, e\<lparr> re_open := False, re_gen := re_gen e + 1 \<rparr>) else (False, e))"

text \<open>The last section of \<open>OpenResource\<close>, and the whole method, sequentially: \<open>e\<close> and \<open>e'\<close> are the
  resource in its two sections of \<open>entry.mu\<close>.\<close>

definition install_gate :: "resource_fence \<Rightarrow> runtime_entry \<Rightarrow> goerr \<times> runtime_entry" where
  "install_gate fence e =
     (if re_prepare e \<noteq> 0 then (wraps ErrResourceNotReady, e)
      else (None, e\<lparr> re_fence := fence, re_open := True, re_gen := re_gen e + 1 \<rparr>))"

definition open_resource ::
  "resource_fence \<Rightarrow> bool \<Rightarrow> runtime_entry \<Rightarrow> pub_gate \<Rightarrow> runtime_entry \<Rightarrow> goerr \<times> pub_gate \<times> runtime_entry" where
  "open_resource fence stopping e g e' =
     (if validate_fence fence \<noteq> None then (validate_fence fence, g, e')
      else if stopping then (wraps ErrRuntimeShuttingDown, g, e')
      else if re_prepare e \<noteq> 0 then (wraps ErrResourceNotReady, g, e')
      else case open_publisher_gate fence g of (err, g') \<Rightarrow>
        if err \<noteq> None then (err, g', e')
        else case install_gate fence e' of (err, e2) \<Rightarrow>
          if err \<noteq> None then (err, close_publisher_gate g', e2) else (None, g', e2))"

subsection \<open>Failures\<close>

definition coordination_gate_error :: "goerr \<Rightarrow> bool" where
  "coordination_gate_error e \<longleftrightarrow> errors_is e ErrDependencyUnavailable \<or> errors_is e ErrUnsupportedTopology
     \<or> errors_is e ErrResourceNotReady \<or> errors_is e ErrFenceMismatch
     \<or> errors_is e ErrRecoveryOwnerStale \<or> errors_is e ErrCoordinationCorrupt"

text \<open>What a reported failure does: fail the runtime, close the gates of its generation, or nothing.\<close>

datatype failure_effect = FailRuntime | CloseGates | NoEffect

definition failure_effect_of :: "goerr \<Rightarrow> failure_effect" where
  "failure_effect_of e =
     (if e = None then NoEffect
      else if authoritative_fatal e then FailRuntime
      else if coordination_gate_error e then CloseGates
      else NoEffect)"

subsection \<open>Interleavings\<close>

text \<open>The permits and debts of all goroutines, the calls of \<open>TryDispatch\<close> under way, the flags of the
  runtime, the tasks whose context was canceled, and how many tasks have begun.\<close>

record runtime_world =
  rw_entry :: runtime_entry
  rw_permits :: "worker_permit list"
  rw_owed :: "owed list"
  rw_direct_calls :: nat
  rw_shutting :: bool
  rw_fatal :: goerr
  rw_canceled :: "64 word list"
  rw_begun :: nat

datatype runtime_op =
    RReserve
  | RStart nat "unit worker_envelope" bool
  | RAbort nat
  | RFinishWithoutRun nat
  | RFinishRun nat
  | RFinishPanic nat
  | RPay nat
  | RBeginRun nat goerr string string
  | RDirectBegin
  | RDirectFinish
  | RCloseGate
  | RCloseGateFor resource_fence "64 word"
  | RInstallGate resource_fence
  | RFail goerr
  | RShutdown
  | RCancelRunning

definition stopping :: "runtime_world \<Rightarrow> bool" where
  "stopping w \<longleftrightarrow> rw_shutting w \<or> rw_fatal w \<noteq> None"

definition permit_exit :: "nat \<Rightarrow> (worker_permit \<Rightarrow> owed option \<times> worker_permit) \<Rightarrow> runtime_world \<Rightarrow> runtime_world" where
  "permit_exit i f w =
     (if i < length (rw_permits w) then
        (case f (rw_permits w ! i) of (d, p) \<Rightarrow>
           w\<lparr> rw_permits := (rw_permits w)[i := p], rw_owed := (case d of None \<Rightarrow> [] | Some x \<Rightarrow> [x]) @ rw_owed w \<rparr>)
      else w)"

definition runtime_exec :: "resource_config \<Rightarrow> runtime_op \<Rightarrow> runtime_world \<Rightarrow> runtime_world" where
  "runtime_exec cf op w =
     (case op of
        RReserve \<Rightarrow>
          (case reserve_worker cf (rw_entry w) of
             (None, e) \<Rightarrow> w\<lparr> rw_entry := e \<rparr>
           | (Some p, e) \<Rightarrow> w\<lparr> rw_entry := e, rw_permits := rw_permits w @ [p] \<rparr>)
      | RStart i env stopped \<Rightarrow>
          (if i < length (rw_permits w)
           then w\<lparr> rw_permits := (rw_permits w)[i := snd (permit_start cf env stopped (rw_permits w ! i))] \<rparr> else w)
      | RAbort i \<Rightarrow> permit_exit i permit_abort w
      | RFinishWithoutRun i \<Rightarrow> permit_exit i permit_finish_without_run w
      | RFinishRun i \<Rightarrow> permit_exit i permit_finish_run w
      | RFinishPanic i \<Rightarrow> permit_exit i permit_finish_after_panic w
      | RPay k \<Rightarrow>
          (if k < length (rw_owed w)
           then w\<lparr> rw_entry := pay (rw_owed w ! k) (rw_entry w),
                   rw_owed := take k (rw_owed w) @ drop (Suc k) (rw_owed w) \<rparr>
           else w)
      | RBeginRun i ctx tenant token \<Rightarrow>
          (if i < length (rw_permits w)
           then (case permit_begin_run (rw_fatal w) ctx tenant token (rw_permits w ! i) (rw_entry w) of
                   (r, p, e) \<Rightarrow> w\<lparr> rw_entry := e, rw_permits := (rw_permits w)[i := p],
                     rw_begun := rw_begun w + (if r = None then 0 else 1) \<rparr>)
           else w)
      | RDirectBegin \<Rightarrow>
          (case begin_direct_dispatch (stopping w) (rw_entry w) of
             (err, e) \<Rightarrow> w\<lparr> rw_entry := e, rw_direct_calls := rw_direct_calls w + (if err = None then 1 else 0) \<rparr>)
      | RDirectFinish \<Rightarrow>
          (if 0 < rw_direct_calls w
           then w\<lparr> rw_entry := finish_direct_dispatch (rw_entry w), rw_direct_calls := rw_direct_calls w - 1 \<rparr> else w)
      | RCloseGate \<Rightarrow> w\<lparr> rw_entry := close_gate (rw_entry w) \<rparr>
      | RCloseGateFor fence gen \<Rightarrow> w\<lparr> rw_entry := snd (close_gate_for fence gen (rw_entry w)) \<rparr>
      | RInstallGate fence \<Rightarrow> w\<lparr> rw_entry := snd (install_gate fence (rw_entry w)) \<rparr>
      | RFail e \<Rightarrow> (if rw_fatal w = None \<and> e \<noteq> None \<and> authoritative_fatal e then w\<lparr> rw_fatal := e \<rparr> else w)
      | RShutdown \<Rightarrow> w\<lparr> rw_shutting := True \<rparr>
      | RCancelRunning \<Rightarrow> w\<lparr> rw_canceled := map fst (re_running (rw_entry w)) @ rw_canceled w \<rparr>)"

text \<open>\<open>RegisterResource\<close>: the three channels are distinct and closed, nothing is admitted.\<close>

definition new_entry :: "resource_fence \<Rightarrow> runtime_entry" where
  "new_entry zero_fence =
     \<lparr> re_open = False, re_fence = zero_fence, re_gen = 1, re_prepare = 0, re_prepare_drained = 0, re_direct = 0,
       re_direct_drained = 1, re_slots = 0, re_running = [], re_next_id = 0, re_running_drained = 2,
       re_chans = \<lparr> next_chan = 3, closed_chans = [0, 1, 2], chan_panic = False \<rparr> \<rparr>"

definition new_runtime_world :: "resource_fence \<Rightarrow> runtime_world" where
  "new_runtime_world zero_fence =
     \<lparr> rw_entry = new_entry zero_fence, rw_permits = [], rw_owed = [], rw_direct_calls = 0, rw_shutting = False,
       rw_fatal = None, rw_canceled = [], rw_begun = 0 \<rparr>"

inductive runtime_reachable :: "resource_config \<Rightarrow> runtime_world \<Rightarrow> bool" for cf where
  runtime_start: "runtime_reachable cf (new_runtime_world zero_fence)"
| runtime_step: "runtime_reachable cf w \<Longrightarrow> runtime_reachable cf (runtime_exec cf op w)"

end
