(* ===== verification/Fq_Runtime_Props.thy ===== *)
theory Fq_Runtime_Props
  imports Fq_Runtime Fq_Scheduler_Props
begin

text \<open>The invariant of the runtime's worker admission and its properties.\<close>

subsection \<open>Drain channels\<close>

text \<open>\<open>drains l h\<close>: each channel in \<open>l\<close> is closed exactly when its counter is zero.\<close>

definition drains :: "(nat \<times> nat) list \<Rightarrow> chans \<Rightarrow> bool" where
  "drains l h \<longleftrightarrow> distinct (map fst l)
     \<and> (\<forall>(ch, n)\<in>set l. ch < next_chan h \<and> (ch \<in> set (closed_chans h) \<longleftrightarrow> n = 0))
     \<and> (\<forall>ch\<in>set (closed_chans h). ch < next_chan h) \<and> \<not> chan_panic h"

lemma drains_make:
  assumes "drains ((ch, n) # l) h"
  shows "drains ((next_chan h, Suc m) # l) (h\<lparr> next_chan := next_chan h + 1 \<rparr>)"
proof -
  have lt: "\<forall>(c, k)\<in>set l. c < next_chan h \<and> (c \<in> set (closed_chans h) \<longleftrightarrow> k = 0)" "distinct (map fst l)"
    "\<forall>c\<in>set (closed_chans h). c < next_chan h" "\<not> chan_panic h"
    using assms by (simp_all add: drains_def)
  then have "next_chan h \<notin> fst ` set l" "next_chan h \<notin> set (closed_chans h)" by force+
  then show ?thesis using lt unfolding drains_def by (auto simp: less_Suc_eq)
qed

lemma drains_close:
  assumes "drains ((ch, Suc n) # l) h"
  shows "drains ((ch, 0) # l) (h\<lparr> closed_chans := ch # closed_chans h \<rparr>)" "ch \<notin> set (closed_chans h)"
proof -
  have lt: "\<forall>(c, k)\<in>set l. c < next_chan h \<and> (c \<in> set (closed_chans h) \<longleftrightarrow> k = 0)" "distinct (map fst l)"
    "\<forall>c\<in>set (closed_chans h). c < next_chan h" "\<not> chan_panic h" "ch < next_chan h" "ch \<notin> fst ` set l"
    "ch \<notin> set (closed_chans h)"
    using assms by (simp_all add: drains_def)
  then have "\<forall>(c, k)\<in>set l. c \<noteq> ch" by force
  then show "drains ((ch, 0) # l) (h\<lparr> closed_chans := ch # closed_chans h \<rparr>)" using lt unfolding drains_def by auto
  show "ch \<notin> set (closed_chans h)" by (rule lt(7))
qed

lemma drains_count: "drains ((ch, Suc n) # l) h \<Longrightarrow> drains ((ch, Suc m) # l) h"
  by (simp add: drains_def)

lemma drains_perm:
  assumes "drains l h" and "mset l = mset l'"
  shows "drains l' h"
proof -
  have "set l = set l'" "distinct (map fst l) = distinct (map fst l')"
    using assms(2) mset_eq_setD mset_eq_imp_distinct_iff mset_map by metis+
  then show ?thesis using assms(1) by (simp add: drains_def)
qed

subsection \<open>The invariant\<close>

definition admitted :: "worker_permit \<Rightarrow> bool" where
  "admitted p \<longleftrightarrow> pm_state p = PermitReserved \<or> pm_state p = PermitStarted"

text \<open>Who has a place in the prepare counter, and the ids of tasks that are running or still have to leave.\<close>

definition permit_slot :: "worker_permit \<Rightarrow> nat" where
  "permit_slot p = (if admitted p then 1 else 0)"

definition owed_slot :: "owed \<Rightarrow> nat" where
  "owed_slot d = (if d = OwePrepareAndSlot then 1 else 0)"

definition owes_slot :: "runtime_world \<Rightarrow> nat" where
  "owes_slot w = sum_list (map permit_slot (rw_permits w)) + sum_list (map owed_slot (rw_owed w))"

definition permit_id :: "worker_permit \<Rightarrow> 64 word multiset" where
  "permit_id p = (if pm_state p = PermitRunning then {# pm_running_id p #} else {#})"

definition owed_id :: "owed \<Rightarrow> 64 word multiset" where
  "owed_id d = (case d of OwePrepareAndSlot \<Rightarrow> {#} | OweRunning i \<Rightarrow> {# i #})"

definition running_ids :: "runtime_world \<Rightarrow> 64 word multiset" where
  "running_ids w = sum_list (map permit_id (rw_permits w)) + sum_list (map owed_id (rw_owed w))"

definition entry_drains :: "runtime_entry \<Rightarrow> bool" where
  "entry_drains e \<longleftrightarrow> drains [(re_prepare_drained e, nat (re_prepare e)), (re_direct_drained e, nat (re_direct e)),
     (re_running_drained e, length (re_running e))] (re_chans e)"

definition slot_limit :: "resource_config \<Rightarrow> int" where
  "slot_limit cf = max 0 (local_workers cf)"

definition runtime_inv :: "resource_config \<Rightarrow> runtime_world \<Rightarrow> bool" where
  "runtime_inv cf w \<longleftrightarrow>
     (let e = rw_entry w in
        re_prepare e = int (owes_slot w) \<and> re_slots e = int (owes_slot w) + int (length (re_running e))
        \<and> re_slots e \<le> slot_limit cf \<and> re_direct e = int (rw_direct_calls w)
        \<and> mset (map fst (re_running e)) = running_ids w \<and> distinct (map fst (re_running e))
        \<and> re_next_id e = word_of_nat (rw_begun w)
        \<and> (\<forall>i\<in>fst ` set (re_running e). \<exists>k. 0 < k \<and> k \<le> rw_begun w \<and> i = word_of_nat k)
        \<and> entry_drains e)"

lemma sum_update:
  fixes f :: "'a \<Rightarrow> 'b::comm_monoid_add"
  assumes "i < length xs"
  shows "sum_list (map f (xs[i := y])) + f (xs ! i) = sum_list (map f xs) + f y"
proof -
  have a: "sum_list (map f xs) = sum_list (map f (take i xs)) + (f (xs ! i) + sum_list (map f (drop (Suc i) xs)))"
    by (subst id_take_nth_drop [OF assms]) simp
  have b: "sum_list (map f (xs[i := y])) = sum_list (map f (take i xs)) + (f y + sum_list (map f (drop (Suc i) xs)))"
    by (simp only: upd_conv_take_nth_drop [OF assms]) simp
  show ?thesis unfolding a b by (simp add: ac_simps)
qed

lemma sum_remove:
  fixes f :: "'a \<Rightarrow> 'b::comm_monoid_add"
  assumes "k < length xs"
  shows "sum_list (map f xs) = f (xs ! k) + sum_list (map f (take k xs @ drop (Suc k) xs))"
proof -
  have "sum_list (map f xs) = sum_list (map f (take k xs)) + (f (xs ! k) + sum_list (map f (drop (Suc k) xs)))"
    by (subst id_take_nth_drop [OF assms]) simp
  then show ?thesis by (simp add: ac_simps)
qed

lemma drains_swap: "drains [a, b, c] h \<longleftrightarrow> drains [b, a, c] h" "drains [a, b, c] h \<longleftrightarrow> drains [c, a, b] h"
  by (rule iffI; erule drains_perm; simp)+

subsection \<open>Sections on the entry\<close>

lemma reserve_entry:
  assumes "reserve_worker cf e = (r, e')" and "entry_drains e" and "0 \<le> re_prepare e"
  shows "entry_drains e'" "re_running e' = re_running e" "re_direct e' = re_direct e" "re_next_id e' = re_next_id e"
    "r = None \<Longrightarrow> e' = e"
    "r = Some p \<Longrightarrow> pm_state p = PermitReserved \<and> re_prepare e' = re_prepare e + 1 \<and> re_slots e' = re_slots e + 1
       \<and> re_slots e < local_workers cf \<and> re_open e \<and> pm_fence p = re_fence e \<and> pm_gen p = re_gen e"
proof -
  show "re_running e' = re_running e" "re_direct e' = re_direct e" "re_next_id e' = re_next_id e"
    "r = None \<Longrightarrow> e' = e"
    "r = Some p \<Longrightarrow> pm_state p = PermitReserved \<and> re_prepare e' = re_prepare e + 1 \<and> re_slots e' = re_slots e + 1
       \<and> re_slots e < local_workers cf \<and> re_open e \<and> pm_fence p = re_fence e \<and> pm_gen p = re_gen e"
    using assms(1) by (auto simp: reserve_worker_def Let_def split: if_splits)
  show "entry_drains e'"
  proof (cases "re_prepare e = 0")
    case True
    then show ?thesis using assms drains_make [of "re_prepare_drained e" 0 _ "re_chans e" 0]
      by (auto simp: reserve_worker_def Let_def entry_drains_def split: if_splits)
  next
    case False
    then have n: "nat (re_prepare e) = Suc (nat (re_prepare e - 1))" "nat (re_prepare e + 1) = Suc (nat (re_prepare e))"
      using assms(3) by simp_all
    have "drains [(re_prepare_drained e, Suc (nat (re_prepare e))), (re_direct_drained e, nat (re_direct e)),
        (re_running_drained e, length (re_running e))] (re_chans e)"
      using assms(2) unfolding entry_drains_def n(1) by (rule drains_count)
    then show ?thesis using assms(1,2) False
      by (auto simp: entry_drains_def reserve_worker_def Let_def n(2) split: if_splits)
  qed
qed

lemma finish_prepare_entry:
  assumes "entry_drains e" and "0 < re_prepare e"
  shows "entry_drains (finish_prepare_locked e)" "re_prepare (finish_prepare_locked e) = re_prepare e - 1"
    "re_running (finish_prepare_locked e) = re_running e" "re_direct (finish_prepare_locked e) = re_direct e"
    "re_next_id (finish_prepare_locked e) = re_next_id e" "re_slots (finish_prepare_locked e) = re_slots e"
proof -
  show "re_prepare (finish_prepare_locked e) = re_prepare e - 1"
    "re_running (finish_prepare_locked e) = re_running e" "re_direct (finish_prepare_locked e) = re_direct e"
    "re_next_id (finish_prepare_locked e) = re_next_id e" "re_slots (finish_prepare_locked e) = re_slots e"
    using assms(2) by (simp_all add: finish_prepare_locked_def Let_def)
  have n: "nat (re_prepare e) = Suc (nat (re_prepare e - 1))" using assms(2) by simp
  have d: "drains ((re_prepare_drained e, Suc (nat (re_prepare e - 1))) # [(re_direct_drained e, nat (re_direct e)),
      (re_running_drained e, length (re_running e))]) (re_chans e)"
    using assms(1) by (simp add: entry_drains_def n)
  show "entry_drains (finish_prepare_locked e)"
  proof (cases "re_prepare e = 1")
    case True
    then show ?thesis using drains_close [OF d] by (simp add: entry_drains_def finish_prepare_locked_def Let_def)
  next
    case False
    then have "nat (re_prepare e - 1) = Suc (nat (re_prepare e - 2))" using assms(2) by simp
    then show ?thesis using drains_count [OF d] assms(2) False
      by (simp add: entry_drains_def finish_prepare_locked_def Let_def)
  qed
qed

lemma finish_slot_entry:
  assumes "entry_drains e" and "0 < re_prepare e" and "0 < re_slots e"
  shows "entry_drains (finish_prepare_and_slot e)" "re_prepare (finish_prepare_and_slot e) = re_prepare e - 1"
    "re_running (finish_prepare_and_slot e) = re_running e" "re_direct (finish_prepare_and_slot e) = re_direct e"
    "re_next_id (finish_prepare_and_slot e) = re_next_id e" "re_slots (finish_prepare_and_slot e) = re_slots e - 1"
  using assms(3) finish_prepare_entry [OF assms(1,2)]
  by (simp_all add: finish_prepare_and_slot_def Let_def entry_drains_def)

lemma filter_id_out:
  assumes "distinct (map fst ts)" and "i \<in> fst ` set ts"
  shows "mset (map fst ts) = add_mset i (mset (map fst (filter (\<lambda>t. fst t \<noteq> i) ts)))"
    "length ts = Suc (length (filter (\<lambda>t. fst t \<noteq> i) ts))"
proof -
  have "mset (map fst ts) = add_mset i (mset (map fst (filter (\<lambda>t. fst t \<noteq> i) ts)))"
    using assms
  proof (induction ts)
    case (Cons t ts)
    show ?case
    proof (cases "fst t = i")
      case True
      then have "i \<notin> fst ` set ts" using Cons.prems(1) by simp
      then have "filter (\<lambda>t. fst t \<noteq> i) ts = ts" unfolding filter_id_conv by (metis image_eqI)
      then show ?thesis using True by simp
    qed (use Cons in auto)
  qed simp
  then show ids: "mset (map fst ts) = add_mset i (mset (map fst (filter (\<lambda>t. fst t \<noteq> i) ts)))" .
  then have "size (mset (map fst ts)) = Suc (size (mset (map fst (filter (\<lambda>t. fst t \<noteq> i) ts))))"
    by (simp only: size_add_mset)
  then show "length ts = Suc (length (filter (\<lambda>t. fst t \<noteq> i) ts))" by (simp only: size_mset length_map)
qed

lemma leave_entry:
  assumes "entry_drains e" and "i \<in> fst ` set (re_running e)" and "distinct (map fst (re_running e))" and "0 < re_slots e"
  shows "entry_drains (leave_running i e)" "re_prepare (leave_running i e) = re_prepare e"
    "re_running (leave_running i e) = filter (\<lambda>t. fst t \<noteq> i) (re_running e)" "re_direct (leave_running i e) = re_direct e"
    "re_next_id (leave_running i e) = re_next_id e" "re_slots (leave_running i e) = re_slots e - 1"
proof -
  show "re_prepare (leave_running i e) = re_prepare e"
    "re_running (leave_running i e) = filter (\<lambda>t. fst t \<noteq> i) (re_running e)" "re_direct (leave_running i e) = re_direct e"
    "re_next_id (leave_running i e) = re_next_id e" "re_slots (leave_running i e) = re_slots e - 1"
    using assms(4) by (simp_all add: leave_running_def Let_def)
  let ?ts = "filter (\<lambda>t. fst t \<noteq> i) (re_running e)"
  have d: "drains [(re_running_drained e, Suc (length ?ts)), (re_prepare_drained e, nat (re_prepare e)),
      (re_direct_drained e, nat (re_direct e))] (re_chans e)"
    using assms(1) filter_id_out(2) [OF assms(3,2)]
      drains_swap(2) [of "(re_prepare_drained e, nat (re_prepare e))" "(re_direct_drained e, nat (re_direct e))"]
    by (simp add: entry_drains_def)
  show "entry_drains (leave_running i e)"
  proof (cases ?ts)
    case Nil
    then show ?thesis using drains_close [OF d]
      by (simp add: entry_drains_def leave_running_def Let_def drains_swap(2) [of _ _ "(re_running_drained e, _)"])
  next
    case (Cons t ts)
    then have "length ?ts = Suc (length ts)" by simp
    then show ?thesis using drains_count [OF d, of "length ts"] Cons
      by (simp add: entry_drains_def leave_running_def Let_def drains_swap(2) [of _ _ "(re_running_drained e, _)"])
  qed
qed

lemma direct_entry:
  assumes "entry_drains e" and "0 \<le> re_direct e"
  shows "entry_drains (snd (begin_direct_dispatch False e))"
    "re_direct (snd (begin_direct_dispatch False e)) = re_direct e + 1"
    "0 < re_direct e \<Longrightarrow> entry_drains (finish_direct_dispatch e)"
    "0 < re_direct e \<Longrightarrow> re_direct (finish_direct_dispatch e) = re_direct e - 1"
proof -
  let ?pr = "(re_prepare_drained e, nat (re_prepare e))" and ?ru = "(re_running_drained e, length (re_running e))"
  have d: "drains [(re_direct_drained e, nat (re_direct e)), ?pr, ?ru] (re_chans e)"
    using assms(1) drains_swap(1) by (simp add: entry_drains_def)
  have e: "entry_drains e' \<longleftrightarrow> drains [(re_direct_drained e', nat (re_direct e')),
      (re_prepare_drained e', nat (re_prepare e')), (re_running_drained e', length (re_running e'))] (re_chans e')" for e'
    unfolding entry_drains_def by (rule drains_swap(1))
  show "re_direct (snd (begin_direct_dispatch False e)) = re_direct e + 1"
    by (simp add: begin_direct_dispatch_def Let_def)
  show "entry_drains (snd (begin_direct_dispatch False e))"
  proof (cases "re_direct e = 0")
    case True
    then show ?thesis unfolding e using d drains_make [of _ _ _ "re_chans e" 0]
      by (simp add: begin_direct_dispatch_def Let_def)
  next
    case False
    then have "nat (re_direct e) = Suc (nat (re_direct e - 1))" "nat (re_direct e + 1) = Suc (nat (re_direct e))"
      using assms(2) by simp_all
    then show ?thesis unfolding e using d drains_count False by (simp add: begin_direct_dispatch_def Let_def)
  qed
  assume pos: "0 < re_direct e"
  then show "re_direct (finish_direct_dispatch e) = re_direct e - 1" by (simp add: finish_direct_dispatch_def Let_def)
  have d': "drains [(re_direct_drained e, Suc (nat (re_direct e - 1))), ?pr, ?ru] (re_chans e)"
  proof -
    have "nat (re_direct e) = Suc (nat (re_direct e - 1))" using pos by simp
    with d show ?thesis by (simp only:)
  qed
  show "entry_drains (finish_direct_dispatch e)"
  proof (cases "re_direct e = 1")
    case True
    then show ?thesis unfolding e using drains_close [OF d'] by (simp add: finish_direct_dispatch_def Let_def)
  next
    case False
    then have "nat (re_direct e - 1) = Suc (nat (re_direct e - 2))" using pos by simp
    then show ?thesis unfolding e using drains_count [OF d'] pos False by (simp add: finish_direct_dispatch_def Let_def)
  qed
qed

lemma begin_run_entry:
  assumes "permit_begin_run fatal ctx tenant token p e = (r, p', e')" and "entry_drains e" and "0 < re_prepare e"
    and "1 + re_next_id e \<notin> fst ` set (re_running e)"
  shows "r = None \<Longrightarrow> p' = p \<and> e' = e"
    "r = Some i \<Longrightarrow> pm_state p = PermitStarted \<and> fatal = None \<and> ctx = None \<and> p' = p\<lparr> pm_state := PermitRunning, pm_running_id := i \<rparr>
       \<and> i = re_next_id e + 1 \<and> re_next_id e' = i \<and> re_prepare e' = re_prepare e - 1 \<and> re_slots e' = re_slots e
       \<and> re_running e' = (i, tenant, token) # re_running e \<and> re_direct e' = re_direct e \<and> entry_drains e'"
proof -
  show "r = None \<Longrightarrow> p' = p \<and> e' = e" using assms(1) by (auto simp: permit_begin_run_def Let_def split: if_splits)
  assume r: "r = Some i"
  let ?a = "e\<lparr> re_next_id := re_next_id e + 1 \<rparr>"
  let ?b = "if re_running ?a = [] then (let (ch, h) = make_chan (re_chans ?a) in ?a\<lparr> re_running_drained := ch, re_chans := h \<rparr>) else ?a"
  let ?c = "?b\<lparr> re_running := (re_next_id e + 1, tenant, token) # re_running e \<rparr>"
  have keep: "filter (\<lambda>t. fst t \<noteq> re_next_id e + 1) (re_running e) = re_running e"
    using assms(4) unfolding filter_id_conv by (metis add.commute image_eqI)
  have eqs: "pm_state p = PermitStarted" "fatal = None" "ctx = None" "i = re_next_id e + 1"
    "p' = p\<lparr> pm_state := PermitRunning, pm_running_id := re_next_id e + 1 \<rparr>" "e' = finish_prepare_locked ?c"
    using assms(1) r keep by (auto simp: permit_begin_run_def Let_def split: if_splits)
  have e: "entry_drains x \<longleftrightarrow> drains [(re_running_drained x, length (re_running x)), (re_prepare_drained x, nat (re_prepare x)),
      (re_direct_drained x, nat (re_direct x))] (re_chans x)" for x
    unfolding entry_drains_def by (rule drains_swap(2))
  have "entry_drains ?c"
  proof (cases "re_running e")
    case Nil
    then show ?thesis using assms(2) drains_make [of _ _ _ "re_chans e" 0] unfolding e by simp
  next
    case (Cons t ts)
    then have "length (re_running e) = Suc (length ts)" by simp
    then show ?thesis using assms(2) drains_count [of _ "length ts"] Cons unfolding e by simp
  qed
  then have "entry_drains e'" "re_prepare e' = re_prepare e - 1" "re_running e' = re_running ?c" "re_direct e' = re_direct e"
    "re_next_id e' = re_next_id e + 1" "re_slots e' = re_slots e"
    using finish_prepare_entry [of ?c] assms(3) by (simp_all add: eqs(6))
  then show "pm_state p = PermitStarted \<and> fatal = None \<and> ctx = None \<and> p' = p\<lparr> pm_state := PermitRunning, pm_running_id := i \<rparr>
       \<and> i = re_next_id e + 1 \<and> re_next_id e' = i \<and> re_prepare e' = re_prepare e - 1 \<and> re_slots e' = re_slots e
       \<and> re_running e' = (i, tenant, token) # re_running e \<and> re_direct e' = re_direct e \<and> entry_drains e'"
    using eqs by simp
qed

subsection \<open>Preservation\<close>

text \<open>What leaves the permit goes into the debts.\<close>

definition exit_balanced :: "(worker_permit \<Rightarrow> owed option \<times> worker_permit) \<Rightarrow> bool" where
  "exit_balanced f \<longleftrightarrow> (\<forall>p. case f p of (d, p') \<Rightarrow>
     permit_slot p' + (case d of None \<Rightarrow> 0 | Some x \<Rightarrow> owed_slot x) = permit_slot p
     \<and> permit_id p' + (case d of None \<Rightarrow> {#} | Some x \<Rightarrow> owed_id x) = permit_id p)"

lemma exits_balanced:
  "exit_balanced permit_abort" "exit_balanced permit_finish_without_run" "exit_balanced permit_finish_run"
  "exit_balanced permit_finish_after_panic"
  by (auto simp: exit_balanced_def permit_abort_def permit_finish_without_run_def permit_finish_run_def
      permit_finish_after_panic_def permit_slot_def permit_id_def owed_slot_def owed_id_def admitted_def)

lemma permit_exit_balance:
  assumes "exit_balanced f"
  shows "owes_slot (permit_exit i f w) = owes_slot w" "running_ids (permit_exit i f w) = running_ids w"
proof -
  have "owes_slot (permit_exit i f w) = owes_slot w \<and> running_ids (permit_exit i f w) = running_ids w"
  proof (cases "i < length (rw_permits w)")
    case True
    obtain d p' where f: "f (rw_permits w ! i) = (d, p')" by fastforce
    have b: "permit_slot p' + (case d of None \<Rightarrow> 0 | Some x \<Rightarrow> owed_slot x) = permit_slot (rw_permits w ! i)"
      "permit_id p' + (case d of None \<Rightarrow> {#} | Some x \<Rightarrow> owed_id x) = permit_id (rw_permits w ! i)"
      using assms f by (auto simp: exit_balanced_def dest!: spec [of _ "rw_permits w ! i"])
    have u: "sum_list (map permit_slot ((rw_permits w)[i := p'])) + permit_slot (rw_permits w ! i)
        = sum_list (map permit_slot (rw_permits w)) + permit_slot p'"
      "sum_list (map permit_id ((rw_permits w)[i := p'])) + permit_id (rw_permits w ! i)
        = sum_list (map permit_id (rw_permits w)) + permit_id p'"
      by (rule sum_update [OF True])+
    have "sum_list (map permit_id ((rw_permits w)[i := p'])) + (case d of None \<Rightarrow> {#} | Some x \<Rightarrow> owed_id x) + permit_id p'
        = sum_list (map permit_id (rw_permits w)) + permit_id p'"
      using u(2) unfolding b(2) [symmetric] by (simp only: ac_simps)
    then have "sum_list (map permit_id ((rw_permits w)[i := p'])) + (case d of None \<Rightarrow> {#} | Some x \<Rightarrow> owed_id x)
        = sum_list (map permit_id (rw_permits w))"
      by (rule add_right_imp_eq)
    moreover have "sum_list (map permit_slot ((rw_permits w)[i := p'])) + (case d of None \<Rightarrow> 0 | Some x \<Rightarrow> owed_slot x)
        = sum_list (map permit_slot (rw_permits w))"
      using u(1) b(1) by linarith
    ultimately show ?thesis
      using True f by (cases d) (simp_all add: permit_exit_def owes_slot_def running_ids_def add.assoc [symmetric])
  qed (simp add: permit_exit_def)
  then show "owes_slot (permit_exit i f w) = owes_slot w" "running_ids (permit_exit i f w) = running_ids w" by simp_all
qed

lemma permit_exit_rest [simp]:
  "rw_entry (permit_exit i f w) = rw_entry w" "rw_direct_calls (permit_exit i f w) = rw_direct_calls w"
  "rw_begun (permit_exit i f w) = rw_begun w" "rw_fatal (permit_exit i f w) = rw_fatal w"
  "rw_shutting (permit_exit i f w) = rw_shutting w" "rw_canceled (permit_exit i f w) = rw_canceled w"
  by (simp_all add: permit_exit_def split: prod.splits)

lemma permit_exit_inv: "exit_balanced f \<Longrightarrow> runtime_inv cf w \<Longrightarrow> runtime_inv cf (permit_exit i f w)"
  by (simp add: runtime_inv_def permit_exit_balance)

lemma id_inject:
  assumes "m < 2 ^ 64" and "k < 2 ^ 64" and "(word_of_nat m :: 64 word) = word_of_nat k"
  shows "m = k"
proof -
  have "unat (word_of_nat m :: 64 word) = m" "unat (word_of_nat k :: 64 word) = k"
    using assms(1,2) by (simp_all add: unsigned_of_nat take_bit_nat_eq_self)
  then show ?thesis using assms(3) by metis
qed

lemma inv_simps:
  assumes "runtime_inv cf w"
  shows "re_prepare (rw_entry w) = int (owes_slot w)"
    "re_slots (rw_entry w) = int (owes_slot w) + int (length (re_running (rw_entry w)))"
    "re_slots (rw_entry w) \<le> slot_limit cf" "re_direct (rw_entry w) = int (rw_direct_calls w)"
    "mset (map fst (re_running (rw_entry w))) = running_ids w" "distinct (map fst (re_running (rw_entry w)))"
    "re_next_id (rw_entry w) = word_of_nat (rw_begun w)"
    "\<forall>i\<in>fst ` set (re_running (rw_entry w)). \<exists>k. 0 < k \<and> k \<le> rw_begun w \<and> i = word_of_nat k"
    "entry_drains (rw_entry w)"
  using assms by (simp_all add: runtime_inv_def Let_def)

lemma inv_reserve:
  assumes "runtime_inv cf w"
  shows "runtime_inv cf (runtime_exec cf RReserve w)"
proof -
  note inv = inv_simps [OF assms]
  obtain r e' where r: "reserve_worker cf (rw_entry w) = (r, e')" by fastforce
  have pos: "0 \<le> re_prepare (rw_entry w)" using inv(1) by simp
  note res = reserve_entry [OF r inv(9) pos]
  show ?thesis
  proof (cases r)
    case None
    then show ?thesis using res(5) r assms by (simp add: runtime_exec_def)
  next
    case (Some p)
    have "permit_slot p = 1" "permit_id p = {#}" using res(6) [OF Some] by (simp_all add: permit_slot_def permit_id_def admitted_def)
    moreover have "re_slots (rw_entry w) + 1 \<le> slot_limit cf" using res(6) [OF Some] unfolding slot_limit_def by linarith
    ultimately show ?thesis using Some res(1-4) res(6) [OF Some] r inv
      by (simp add: runtime_exec_def runtime_inv_def Let_def owes_slot_def running_ids_def)
  qed
qed

lemma inv_start:
  assumes "runtime_inv cf w"
  shows "runtime_inv cf (runtime_exec cf (RStart i env stopped) w)"
proof (cases "i < length (rw_permits w)")
  case True
  let ?p = "rw_permits w ! i" and ?q = "snd (permit_start cf env stopped (rw_permits w ! i))"
  have "permit_slot ?q = permit_slot ?p" "permit_id ?q = permit_id ?p"
    by (auto simp: permit_start_def permit_slot_def permit_id_def admitted_def)
  then have "sum_list (map permit_slot ((rw_permits w)[i := ?q])) = sum_list (map permit_slot (rw_permits w))"
    "sum_list (map permit_id ((rw_permits w)[i := ?q])) = sum_list (map permit_id (rw_permits w))"
    using sum_update [OF True, of permit_slot ?q] sum_update [OF True, of permit_id ?q] by simp_all
  then have "owes_slot (runtime_exec cf (RStart i env stopped) w) = owes_slot w"
    "running_ids (runtime_exec cf (RStart i env stopped) w) = running_ids w"
    using True by (simp_all add: runtime_exec_def owes_slot_def running_ids_def)
  then show ?thesis using assms True by (simp add: runtime_inv_def runtime_exec_def)
next
  case False
  then show ?thesis using assms by (simp add: runtime_exec_def)
qed

lemma inv_pay:
  assumes "runtime_inv cf w"
  shows "runtime_inv cf (runtime_exec cf (RPay k) w)"
proof (cases "k < length (rw_owed w)")
  case True
  note inv = inv_simps [OF assms]
  let ?w = "runtime_exec cf (RPay k) w"
  have owes: "owes_slot w = owed_slot (rw_owed w ! k) + owes_slot ?w" "running_ids w = owed_id (rw_owed w ! k) + running_ids ?w"
    using sum_remove [OF True, of owed_slot] sum_remove [OF True, of owed_id] True
    by (simp_all add: owes_slot_def running_ids_def runtime_exec_def)
  show ?thesis
  proof (cases "rw_owed w ! k")
    case OwePrepareAndSlot
    have n: "owes_slot w = Suc (owes_slot ?w)" "running_ids w = running_ids ?w"
      using owes by (simp_all add: OwePrepareAndSlot owed_slot_def owed_id_def)
    then have pos: "0 < re_prepare (rw_entry w)" "0 < re_slots (rw_entry w)" using inv(1,2) by simp_all
    have e: "rw_entry ?w = finish_prepare_and_slot (rw_entry w)" "rw_direct_calls ?w = rw_direct_calls w" "rw_begun ?w = rw_begun w"
      using True by (simp_all add: runtime_exec_def pay_def OwePrepareAndSlot)
    have "re_slots (rw_entry w) - 1 \<le> slot_limit cf" using inv(3) by linarith
    then show ?thesis
      using inv n finish_slot_entry [OF inv(9) pos]
      by (simp add: runtime_inv_def Let_def e)
  next
    case (OweRunning i)
    have n: "owes_slot w = owes_slot ?w" "running_ids w = add_mset i (running_ids ?w)"
      using owes by (simp_all add: OweRunning owed_slot_def owed_id_def)
    have "i \<in># mset (map fst (re_running (rw_entry w)))" using inv(5) n(2) by simp
    then have i: "i \<in> fst ` set (re_running (rw_entry w))" by simp
    then have "0 < length (re_running (rw_entry w))" by auto
    then have pos: "0 < re_slots (rw_entry w)" using inv(2) by linarith
    have e: "rw_entry ?w = leave_running i (rw_entry w)" "rw_direct_calls ?w = rw_direct_calls w" "rw_begun ?w = rw_begun w"
      using True by (simp_all add: runtime_exec_def pay_def OweRunning)
    note out = filter_id_out [OF inv(6) i]
    have "mset (map fst (filter (\<lambda>t. fst t \<noteq> i) (re_running (rw_entry w)))) = running_ids ?w"
      using out(1) inv(5) n(2) by simp
    moreover have "distinct (map fst (filter (\<lambda>t. fst t \<noteq> i) (re_running (rw_entry w))))"
      using inv(6) by (simp add: distinct_map_filter)
    moreover have "\<forall>j\<in>fst ` set (filter (\<lambda>t. fst t \<noteq> i) (re_running (rw_entry w))).
        \<exists>k. 0 < k \<and> k \<le> rw_begun w \<and> j = word_of_nat k"
      using inv(8) by auto
    moreover have "re_slots (rw_entry w) - 1 \<le> slot_limit cf" using inv(3) by linarith
    ultimately show ?thesis
      using inv(1,2,4,7) n(1) out(2) leave_entry [OF inv(9) i inv(6) pos]
      by (simp add: runtime_inv_def Let_def e)
  qed
next
  case False
  then show ?thesis using assms by (simp add: runtime_exec_def)
qed

lemma inv_begin_run:
  assumes "runtime_inv cf w" and "rw_begun (runtime_exec cf (RBeginRun i ctx tenant token) w) < 2 ^ 64"
  shows "runtime_inv cf (runtime_exec cf (RBeginRun i ctx tenant token) w)"
proof (cases "i < length (rw_permits w)")
  case True
  note inv = inv_simps [OF assms(1)]
  let ?p = "rw_permits w ! i"
  obtain r q e' where run: "permit_begin_run (rw_fatal w) ctx tenant token ?p (rw_entry w) = (r, q, e')"
    by (metis prod.collapse)
  have w: "runtime_exec cf (RBeginRun i ctx tenant token) w =
      w\<lparr> rw_entry := e', rw_permits := (rw_permits w)[i := q], rw_begun := rw_begun w + (if r = None then 0 else 1) \<rparr>"
    using True by (simp add: runtime_exec_def run)
  show ?thesis
  proof (cases r)
    case None
    then have "pm_state ?p \<noteq> PermitStarted \<or> rw_fatal w \<noteq> None \<or> ctx \<noteq> None" "q = ?p" "e' = rw_entry w"
      using run by (auto simp: permit_begin_run_def Let_def split: if_splits)
    then show ?thesis using None w assms(1) by simp
  next
    case (Some j)
    have lt: "rw_begun w + 1 < 2 ^ 64" using assms(2) by (simp add: w Some)
    have fresh: "1 + re_next_id (rw_entry w) \<notin> fst ` set (re_running (rw_entry w))"
    proof
      assume "1 + re_next_id (rw_entry w) \<in> fst ` set (re_running (rw_entry w))"
      then obtain k where k: "k \<le> rw_begun w" "1 + re_next_id (rw_entry w) = word_of_nat k" using inv(8) by blast
      then have "(word_of_nat (rw_begun w + 1) :: 64 word) = word_of_nat k" using inv(7) by (simp add: add.commute)
      from id_inject [OF lt _ this] k(1) lt show False by simp
    qed
    have started: "pm_state ?p = PermitStarted"
      using run Some by (auto simp: permit_begin_run_def split: if_splits)
    have "permit_slot ?p \<le> sum_list (map permit_slot (rw_permits w))"
      using True by (metis elem_le_sum_list length_map nth_map)
    then have "1 \<le> owes_slot w" using started by (simp add: owes_slot_def permit_slot_def admitted_def)
    then have pos: "0 < re_prepare (rw_entry w)" using inv(1) by simp
    note b = begin_run_entry(2) [OF run inv(9) pos fresh Some]
    have q: "permit_slot q = 0" "permit_slot ?p = 1" "permit_id q = {# j #}" "permit_id ?p = {#}"
      using b started by (simp_all add: permit_slot_def permit_id_def admitted_def)
    have owes: "owes_slot w = Suc (owes_slot (runtime_exec cf (RBeginRun i ctx tenant token) w))"
      "running_ids (runtime_exec cf (RBeginRun i ctx tenant token) w) = add_mset j (running_ids w)"
      using sum_update [OF True, of permit_slot q] sum_update [OF True, of permit_id q] q
      by (simp_all add: w owes_slot_def running_ids_def)
    have j: "j = word_of_nat (rw_begun w + 1)" using b inv(7) by (simp add: add.commute)
    define v where "v = runtime_exec cf (RBeginRun i ctx tenant token) w"
    have v: "rw_entry v = e'" "rw_direct_calls v = rw_direct_calls w" "rw_begun v = rw_begun w + 1"
      "owes_slot w = Suc (owes_slot v)" "running_ids v = add_mset j (running_ids w)"
      using owes by (simp_all add: v_def w Some)
    have "\<exists>k. 0 < k \<and> k \<le> rw_begun v \<and> x = word_of_nat k" if "x \<in> fst ` set (re_running e')" for x
    proof (cases "x = j")
      case True
      then show ?thesis using j v(3) by (intro exI [of _ "rw_begun w + 1"]) simp
    next
      case False
      then have "x \<in> fst ` set (re_running (rw_entry w))" using that b by simp
      then show ?thesis using inv(8) v(3) by (metis le_SucI add.commute plus_1_eq_Suc)
    qed
    then have "runtime_inv cf v"
      using inv(1-6) b j fresh v unfolding runtime_inv_def Let_def by simp
    then show ?thesis by (simp add: v_def)
  qed
next
  case False
  then show ?thesis using assms by (simp add: runtime_exec_def)
qed


lemma inv_direct:
  assumes "runtime_inv cf w"
  shows "runtime_inv cf (runtime_exec cf RDirectBegin w)" "runtime_inv cf (runtime_exec cf RDirectFinish w)"
proof -
  note inv = inv_simps [OF assms]
  have pos: "0 \<le> re_direct (rw_entry w)" using inv(4) by simp
  note d = direct_entry [OF inv(9) pos]
  have started: "re_prepare (snd (begin_direct_dispatch b e)) = re_prepare e" "re_slots (snd (begin_direct_dispatch b e)) = re_slots e"
    "re_running (snd (begin_direct_dispatch b e)) = re_running e" "re_next_id (snd (begin_direct_dispatch b e)) = re_next_id e" for b e
    by (simp_all add: begin_direct_dispatch_def Let_def)
  show "runtime_inv cf (runtime_exec cf RDirectBegin w)"
  proof (cases "stopping w")
    case True
    then show ?thesis using assms by (simp add: runtime_exec_def begin_direct_dispatch_def)
  next
    case False
    obtain err e' where e': "begin_direct_dispatch False (rw_entry w) = (err, e')" by fastforce
    then have "err = None" by (auto simp: begin_direct_dispatch_def Let_def)
    then have v: "runtime_exec cf RDirectBegin w = w\<lparr> rw_entry := e', rw_direct_calls := rw_direct_calls w + 1 \<rparr>"
      using False e' by (simp add: runtime_exec_def)
    have "e' = snd (begin_direct_dispatch False (rw_entry w))" by (simp add: e')
    then show ?thesis using inv d(1,2) started [of False "rw_entry w"]
      by (simp add: v runtime_inv_def Let_def owes_slot_def running_ids_def)
  qed
  have fin: "re_prepare (finish_direct_dispatch e) = re_prepare e" "re_slots (finish_direct_dispatch e) = re_slots e"
    "re_running (finish_direct_dispatch e) = re_running e" "re_next_id (finish_direct_dispatch e) = re_next_id e" for e
    by (simp_all add: finish_direct_dispatch_def Let_def)
  show "runtime_inv cf (runtime_exec cf RDirectFinish w)"
  proof (cases "0 < rw_direct_calls w")
    case True
    then have "0 < re_direct (rw_entry w)" using inv(4) by simp
    from True inv d(3,4) [OF this] fin [of "rw_entry w"] show ?thesis
      by (simp add: runtime_exec_def runtime_inv_def Let_def owes_slot_def running_ids_def of_nat_diff)
  next
    case False
    then show ?thesis using assms by (simp add: runtime_exec_def)
  qed
qed

lemma inv_rest:
  assumes "runtime_inv cf w"
  shows "runtime_inv cf (runtime_exec cf RCloseGate w)" "runtime_inv cf (runtime_exec cf (RCloseGateFor f g) w)"
    "runtime_inv cf (runtime_exec cf (RInstallGate f) w)" "runtime_inv cf (runtime_exec cf (RFail e) w)"
    "runtime_inv cf (runtime_exec cf RShutdown w)" "runtime_inv cf (runtime_exec cf RCancelRunning w)"
proof -
  have keep: "runtime_inv cf (w\<lparr> rw_entry := e' \<rparr>)"
    if "re_prepare e' = re_prepare (rw_entry w)" "re_slots e' = re_slots (rw_entry w)" "re_running e' = re_running (rw_entry w)"
      "re_direct e' = re_direct (rw_entry w)" "re_next_id e' = re_next_id (rw_entry w)"
      "re_prepare_drained e' = re_prepare_drained (rw_entry w)" "re_direct_drained e' = re_direct_drained (rw_entry w)"
      "re_running_drained e' = re_running_drained (rw_entry w)" "re_chans e' = re_chans (rw_entry w)" for e'
    using inv_simps [OF assms] that by (simp add: runtime_inv_def Let_def owes_slot_def running_ids_def entry_drains_def)
  show "runtime_inv cf (runtime_exec cf RCloseGate w)" "runtime_inv cf (runtime_exec cf (RCloseGateFor f g) w)"
    "runtime_inv cf (runtime_exec cf (RInstallGate f) w)"
    by (simp_all add: runtime_exec_def, (rule keep; simp add: close_gate_def close_gate_for_def install_gate_def)+)
  have "owes_slot (w\<lparr> rw_fatal := x \<rparr>) = owes_slot w" "running_ids (w\<lparr> rw_fatal := x \<rparr>) = running_ids w"
    "owes_slot (w\<lparr> rw_shutting := b \<rparr>) = owes_slot w" "running_ids (w\<lparr> rw_shutting := b \<rparr>) = running_ids w"
    "owes_slot (w\<lparr> rw_canceled := is \<rparr>) = owes_slot w" "running_ids (w\<lparr> rw_canceled := is \<rparr>) = running_ids w" for x b "is"
    by (simp_all add: owes_slot_def running_ids_def)
  then show "runtime_inv cf (runtime_exec cf (RFail e) w)"
    "runtime_inv cf (runtime_exec cf RShutdown w)" "runtime_inv cf (runtime_exec cf RCancelRunning w)"
    using assms by (simp_all add: runtime_exec_def runtime_inv_def Let_def)
qed

lemma runtime_exec_inv:
  assumes "runtime_inv cf w" and "rw_begun (runtime_exec cf op w) < 2 ^ 64"
  shows "runtime_inv cf (runtime_exec cf op w)"
proof (cases op)
  case (RBeginRun i ctx tenant token)
  then show ?thesis using inv_begin_run assms by simp
next
  case RReserve
  then show ?thesis using inv_reserve assms by simp
next
  case RStart
  then show ?thesis using inv_start assms by simp
next
  case RPay
  then show ?thesis using inv_pay assms by simp
next
  case RDirectBegin
  then show ?thesis using inv_direct assms by simp
next
  case RDirectFinish
  then show ?thesis using inv_direct assms by simp
next
  case (RAbort i)
  then show ?thesis using permit_exit_inv exits_balanced assms by (simp add: runtime_exec_def)
next
  case (RFinishWithoutRun i)
  then show ?thesis using permit_exit_inv exits_balanced assms by (simp add: runtime_exec_def)
next
  case (RFinishRun i)
  then show ?thesis using permit_exit_inv exits_balanced assms by (simp add: runtime_exec_def)
next
  case (RFinishPanic i)
  then show ?thesis using permit_exit_inv exits_balanced assms by (simp add: runtime_exec_def)
qed (use inv_rest assms in simp_all)

lemma begun_mono: "rw_begun w \<le> rw_begun (runtime_exec cf op w)"
  by (cases op) (auto simp: runtime_exec_def split: prod.splits option.splits)

lemma start_inv: "runtime_inv cf (new_runtime_world z)"
  by (simp add: runtime_inv_def new_runtime_world_def new_entry_def owes_slot_def running_ids_def entry_drains_def
      drains_def slot_limit_def)

lemma runtime_reachable_inv:
  assumes "runtime_reachable cf w" and "rw_begun w < 2 ^ 64"
  shows "runtime_inv cf w"
  using assms
proof (induction rule: runtime_reachable.induct)
  case (runtime_start z)
  then show ?case by (simp add: start_inv)
next
  case (runtime_step w op)
  then have "rw_begun w < 2 ^ 64" using begun_mono [of w cf op] by linarith
  then show ?case using runtime_step runtime_exec_inv by blast
qed

subsection \<open>Properties\<close>

lemma sum_slot_count: "sum_list (map permit_slot ps) = length (filter admitted ps)"
  by (induction ps) (simp_all add: permit_slot_def)

lemma started_le_admitted: "length (filter (\<lambda>p. pm_state p = PermitStarted) ps) \<le> length (filter admitted ps)"
  by (induction ps) (simp_all add: admitted_def)

lemma sum_permit_id: "p \<in> set ps \<Longrightarrow> pm_state p = PermitRunning \<Longrightarrow> pm_running_id p \<in># sum_list (map permit_id ps)"
  by (induction ps) (auto simp: permit_id_def)

text \<open>C37: local capacity is exact. However scheduler, workers, recovery and shutdown interleave, the slots in
  use are the permits that are reserved or started, the exits under way and the running tasks, and
  are at most the configured workers; so the buffered work channel, which has that capacity,
  never blocks a handoff; every running permit has its task registered under its own id;
  no counter is negative; and no channel is closed twice, which would panic.\<close>

theorem worker_slots_exact:
  assumes "runtime_reachable cf w" and "rw_begun w < 2 ^ 64" and "validate_resource_config cf = None"
  shows "re_slots (rw_entry w) = int (length (filter admitted (rw_permits w)))
        + int (length (filter (\<lambda>d. d = OwePrepareAndSlot) (rw_owed w))) + int (length (re_running (rw_entry w)))
    \<and> re_prepare (rw_entry w) = re_slots (rw_entry w) - int (length (re_running (rw_entry w)))
    \<and> re_slots (rw_entry w) \<le> local_workers cf
    \<and> int (length (filter (\<lambda>p. pm_state p = PermitStarted) (rw_permits w))) \<le> local_workers cf
    \<and> distinct (map fst (re_running (rw_entry w)))
    \<and> (\<forall>p. p \<in> set (rw_permits w) \<longrightarrow> pm_state p = PermitRunning \<longrightarrow> pm_running_id p \<in> fst ` set (re_running (rw_entry w)))
    \<and> \<not> chan_panic (re_chans (rw_entry w))"
proof -
  note inv = inv_simps [OF runtime_reachable_inv [OF assms(1,2)]]
  have "0 < local_workers cf" using validate_resource_configD [OF assms(3)] by simp
  then have lim: "re_slots (rw_entry w) \<le> local_workers cf" using inv(3) by (simp add: slot_limit_def)
  have owed: "sum_list (map owed_slot ds) = length (filter (\<lambda>d. d = OwePrepareAndSlot) ds)" for ds
    by (induction ds) (simp_all add: owed_slot_def)
  have n: "owes_slot w = length (filter admitted (rw_permits w)) + length (filter (\<lambda>d. d = OwePrepareAndSlot) (rw_owed w))"
    by (simp add: owes_slot_def sum_slot_count owed)
  have "pm_running_id p \<in> fst ` set (re_running (rw_entry w))"
    if "p \<in> set (rw_permits w)" "pm_state p = PermitRunning" for p
  proof -
    have "pm_running_id p \<in># running_ids w" using sum_permit_id [OF that] by (simp add: running_ids_def)
    then have "pm_running_id p \<in># mset (map fst (re_running (rw_entry w)))" using inv(5) by simp
    then show ?thesis by simp
  qed
  moreover have "int (length (filter (\<lambda>p. pm_state p = PermitStarted) (rw_permits w))) \<le> local_workers cf"
    using started_le_admitted [of "rw_permits w"] n inv(2) lim by linarith
  ultimately show ?thesis
    using inv(1,2,6,9) lim n by (simp add: entry_drains_def drains_def)
qed

subsection \<open>Waiting for drains\<close>

definition runtime_sections :: "resource_config \<Rightarrow> runtime_world \<Rightarrow> runtime_world \<Rightarrow> bool" where
  "runtime_sections cf w v \<longleftrightarrow> (\<exists>op. v = runtime_exec cf op w) \<and> rw_begun v < 2 ^ 64"

definition closed_of :: "runtime_world \<Rightarrow> nat set" where
  "closed_of w = set (closed_chans (re_chans (rw_entry w)))"

lemma runtime_sections_inv: "runtime_inv cf w \<Longrightarrow> runtime_sections cf w v \<Longrightarrow> runtime_inv cf v"
  using runtime_exec_inv by (auto simp: runtime_sections_def)

text \<open>How each operation moves the three counters and their channels.\<close>

lemma finish_prepare_frame [simp]:
  "re_prepare_drained (finish_prepare_locked e) = re_prepare_drained e"
  "re_direct_drained (finish_prepare_locked e) = re_direct_drained e"
  "re_running_drained (finish_prepare_locked e) = re_running_drained e"
  "re_open (finish_prepare_locked e) = re_open e" "re_direct (finish_prepare_locked e) = re_direct e"
  "re_running (finish_prepare_locked e) = re_running e" "re_prepare (finish_prepare_locked e) \<le> re_prepare e"
  by (simp_all add: finish_prepare_locked_def Let_def)

lemma pay_frame [simp]:
  "re_prepare_drained (pay d e) = re_prepare_drained e" "re_direct_drained (pay d e) = re_direct_drained e"
  "re_running_drained (pay d e) = re_running_drained e" "re_open (pay d e) = re_open e" "re_direct (pay d e) = re_direct e"
  "re_prepare (pay d e) \<le> re_prepare e" "set (re_running (pay d e)) \<subseteq> set (re_running e)"
  "length (re_running (pay d e)) \<le> length (re_running e)"
  by (auto simp: pay_def finish_prepare_and_slot_def leave_running_def Let_def split: owed.splits)

lemma begin_run_frame:
  assumes "permit_begin_run fatal ctx tenant token p e = (r, p', e')"
  shows "re_prepare_drained e' = re_prepare_drained e" "re_direct_drained e' = re_direct_drained e"
    "re_open e' = re_open e" "re_direct e' = re_direct e" "re_prepare e' \<le> re_prepare e"
    "r = None \<Longrightarrow> e' = e" "r \<noteq> None \<Longrightarrow> pm_state p = PermitStarted \<and> fatal = None"
proof -
  let ?a = "e\<lparr> re_next_id := re_next_id e + 1 \<rparr>"
  let ?b = "if re_running ?a = [] then (let (ch, h) = make_chan (re_chans ?a) in ?a\<lparr> re_running_drained := ch, re_chans := h \<rparr>) else ?a"
  let ?c = "?b\<lparr> re_running := (re_next_id e + 1, tenant, token) # filter (\<lambda>t. fst t \<noteq> re_next_id e + 1) (re_running ?b) \<rparr>"
  have "e' = e \<or> e' = finish_prepare_locked ?c"
    using assms by (auto simp: permit_begin_run_def Let_def split: if_splits)
  moreover have "re_prepare_drained ?c = re_prepare_drained e" "re_direct_drained ?c = re_direct_drained e"
    "re_open ?c = re_open e" "re_direct ?c = re_direct e" "re_prepare ?c = re_prepare e" by simp_all
  ultimately obtain c where c: "e' = e \<or> e' = finish_prepare_locked c" "re_prepare_drained c = re_prepare_drained e"
    "re_direct_drained c = re_direct_drained e" "re_open c = re_open e" "re_direct c = re_direct e"
    "re_prepare c = re_prepare e" by metis
  then show "re_prepare_drained e' = re_prepare_drained e" "re_direct_drained e' = re_direct_drained e"
    "re_open e' = re_open e" "re_direct e' = re_direct e" "re_prepare e' \<le> re_prepare e"
    using finish_prepare_frame [of c] by auto
  show "r = None \<Longrightarrow> e' = e" "r \<noteq> None \<Longrightarrow> pm_state p = PermitStarted \<and> fatal = None"
    using assms by (auto simp: permit_begin_run_def Let_def split: if_splits)
qed

lemma section_frame:
  "\<not> re_open e \<Longrightarrow> snd (reserve_worker cf e) = e" "re_direct_drained (snd (reserve_worker cf e)) = re_direct_drained e"
  "re_running_drained (snd (reserve_worker cf e)) = re_running_drained e"
  "re_direct (snd (reserve_worker cf e)) = re_direct e" "re_running (snd (reserve_worker cf e)) = re_running e"
  "re_prepare_drained (snd (begin_direct_dispatch b e)) = re_prepare_drained e"
  "re_running_drained (snd (begin_direct_dispatch b e)) = re_running_drained e"
  "re_prepare (snd (begin_direct_dispatch b e)) = re_prepare e" "re_running (snd (begin_direct_dispatch b e)) = re_running e"
  "snd (begin_direct_dispatch True e) = e"
  "re_prepare_drained (finish_direct_dispatch e) = re_prepare_drained e"
  "re_direct_drained (finish_direct_dispatch e) = re_direct_drained e"
  "re_running_drained (finish_direct_dispatch e) = re_running_drained e"
  "re_prepare (finish_direct_dispatch e) = re_prepare e" "re_running (finish_direct_dispatch e) = re_running e"
  "re_direct (finish_direct_dispatch e) \<le> re_direct e"
  by (auto simp: reserve_worker_def begin_direct_dispatch_def finish_direct_dispatch_def Let_def)

lemmas gate_sections_def' = close_gate_def close_gate_for_def install_gate_def

text \<open>The entry after an operation, by the section it runs.\<close>

lemma runtime_exec_entry:
  "rw_entry (runtime_exec cf op w) \<in> {rw_entry w, snd (reserve_worker cf (rw_entry w)), close_gate (rw_entry w),
     snd (begin_direct_dispatch (stopping w) (rw_entry w)), finish_direct_dispatch (rw_entry w)}
   \<or> (\<exists>f g. rw_entry (runtime_exec cf op w) = snd (close_gate_for f g (rw_entry w)))
   \<or> (\<exists>f. rw_entry (runtime_exec cf op w) = snd (install_gate f (rw_entry w)))
   \<or> (\<exists>d. rw_entry (runtime_exec cf op w) = pay d (rw_entry w))
   \<or> (\<exists>i ctx t k r p. i < length (rw_permits w)
        \<and> permit_begin_run (rw_fatal w) ctx t k (rw_permits w ! i) (rw_entry w) = (r, p, rw_entry (runtime_exec cf op w)))"
proof (cases op)
  case (RBeginRun i ctx t k)
  obtain r p e where "permit_begin_run (rw_fatal w) ctx t k (rw_permits w ! i) (rw_entry w) = (r, p, e)"
    by (metis prod.collapse)
  then show ?thesis by (simp add: RBeginRun runtime_exec_def) blast
next
  case RReserve
  then show ?thesis by (simp add: runtime_exec_def split: prod.splits option.splits)
next
  case (RPay k)
  then show ?thesis by (simp add: runtime_exec_def) blast
next
  case (RCloseGateFor f g)
  then show ?thesis by (simp add: runtime_exec_def) blast
next
  case (RInstallGate f)
  then show ?thesis by (simp add: runtime_exec_def) blast
qed (simp_all add: runtime_exec_def split: prod.splits)

lemma prepare_quiet:
  assumes "\<not> re_open (rw_entry w)"
  shows "re_prepare_drained (rw_entry (runtime_exec cf op w)) = re_prepare_drained (rw_entry w)"
    "re_prepare (rw_entry (runtime_exec cf op w)) \<le> re_prepare (rw_entry w)"
  using runtime_exec_entry [of cf op w] assms section_frame begin_run_frame(1,5)
  by (auto simp: gate_sections_def')

lemma direct_quiet:
  assumes "stopping w"
  shows "re_direct_drained (rw_entry (runtime_exec cf op w)) = re_direct_drained (rw_entry w)"
    "re_direct (rw_entry (runtime_exec cf op w)) \<le> re_direct (rw_entry w)"
  using runtime_exec_entry [of cf op w] assms section_frame begin_run_frame(2,4)
  by (auto simp: gate_sections_def')

lemma started_counts:
  assumes "runtime_inv cf w" and "i < length (rw_permits w)" and "pm_state (rw_permits w ! i) = PermitStarted"
  shows "0 < re_prepare (rw_entry w)"
proof -
  have "permit_slot (rw_permits w ! i) \<le> sum_list (map permit_slot (rw_permits w))"
    using assms(2) by (metis elem_le_sum_list length_map nth_map)
  then have "1 \<le> owes_slot w" using assms(3) by (simp add: owes_slot_def permit_slot_def admitted_def)
  then show ?thesis using inv_simps(1) [OF assms(1)] by simp
qed

lemma running_quiet:
  assumes "runtime_inv cf w" and "re_prepare (rw_entry w) = 0 \<or> rw_fatal w \<noteq> None"
  shows "re_running_drained (rw_entry (runtime_exec cf op w)) = re_running_drained (rw_entry w)"
    "length (re_running (rw_entry (runtime_exec cf op w))) \<le> length (re_running (rw_entry w))"
    "set (re_running (rw_entry (runtime_exec cf op w))) \<subseteq> set (re_running (rw_entry w))"
proof -
  have none: "e' = rw_entry w"
    if "i < length (rw_permits w)"
      "permit_begin_run (rw_fatal w) ctx t k (rw_permits w ! i) (rw_entry w) = (r, p, e')" for i ctx t k r p e'
    using begin_run_frame(6,7) [OF that(2)] started_counts [OF assms(1) that(1)] assms(2) by (cases r) auto
  have "rw_entry (runtime_exec cf op w) \<in> {rw_entry w, snd (reserve_worker cf (rw_entry w)), close_gate (rw_entry w),
       snd (begin_direct_dispatch (stopping w) (rw_entry w)), finish_direct_dispatch (rw_entry w)}
     \<or> (\<exists>f g. rw_entry (runtime_exec cf op w) = snd (close_gate_for f g (rw_entry w)))
     \<or> (\<exists>f. rw_entry (runtime_exec cf op w) = snd (install_gate f (rw_entry w)))
     \<or> (\<exists>d. rw_entry (runtime_exec cf op w) = pay d (rw_entry w))"
    using runtime_exec_entry [of cf op w] none by blast
  then show "re_running_drained (rw_entry (runtime_exec cf op w)) = re_running_drained (rw_entry w)"
    "length (re_running (rw_entry (runtime_exec cf op w))) \<le> length (re_running (rw_entry w))"
    "set (re_running (rw_entry (runtime_exec cf op w))) \<subseteq> set (re_running (rw_entry w))"
    using section_frame(3,5,7,9,13,15) pay_frame(3,7,8)
    by (elim disjE exE; simp add: gate_sections_def')+
qed

definition prepare_shut :: "runtime_world \<Rightarrow> bool" where
  "prepare_shut w \<longleftrightarrow> \<not> re_open (rw_entry w)"

definition running_shut :: "runtime_world \<Rightarrow> bool" where
  "running_shut w \<longleftrightarrow> re_prepare (rw_entry w) = 0"

lemma drain_iff:
  assumes "runtime_inv cf w"
  shows "re_prepare_drained (rw_entry w) \<in> closed_of w \<longleftrightarrow> nat (re_prepare (rw_entry w)) = 0"
    "re_direct_drained (rw_entry w) \<in> closed_of w \<longleftrightarrow> nat (re_direct (rw_entry w)) = 0"
    "re_running_drained (rw_entry w) \<in> closed_of w \<longleftrightarrow> length (re_running (rw_entry w)) = 0"
  using inv_simps(9) [OF assms] by (simp_all add: entry_drains_def drains_def closed_of_def)

interpretation prepare_drain: drain_service "runtime_sections cf" "runtime_inv cf" "\<lambda>w. nat (re_prepare (rw_entry w))"
    "\<lambda>w. re_prepare_drained (rw_entry w)" closed_of prepare_shut for cf
  by unfold_locales
    (auto simp: runtime_sections_inv drain_iff runtime_sections_def prepare_shut_def dest: prepare_quiet intro: nat_mono)

interpretation direct_drain: drain_service "runtime_sections cf" "runtime_inv cf" "\<lambda>w. nat (re_direct (rw_entry w))"
    "\<lambda>w. re_direct_drained (rw_entry w)" closed_of stopping for cf
  by unfold_locales
    (auto simp: runtime_sections_inv drain_iff runtime_sections_def dest: direct_quiet intro: nat_mono)

interpretation running_drain: drain_service "runtime_sections cf" "runtime_inv cf" "\<lambda>w. length (re_running (rw_entry w))"
    "\<lambda>w. re_running_drained (rw_entry w)" closed_of running_shut for cf
  by unfold_locales
    (auto simp: runtime_sections_inv drain_iff runtime_sections_def running_shut_def dest: running_quiet)


text \<open>Shutdown and recovery wait for everything they must. Take the channel of the moment and wait
  until it is closed: while the gate stays closed, the prepare channel is closed only when no permit
  is reserved or started; while the runtime is stopping, the direct channel is closed only when no
  \<open>TryDispatch\<close> is under way; and once no permit is in the prepare phase, the running channel is
  closed only when no task is running.\<close>

theorem shutdown_waits_complete:
  assumes "runtime_reachable cf w" and "rw_begun w < 2 ^ 64"
  shows "((prepare_drain.quiet_step cf)\<^sup>*\<^sup>* w v \<and> re_prepare_drained (rw_entry w) \<in> closed_of v \<longrightarrow>
        (\<forall>p. p \<in> set (rw_permits v) \<longrightarrow> pm_state p \<noteq> PermitReserved \<and> pm_state p \<noteq> PermitStarted))
    \<and> ((direct_drain.quiet_step cf)\<^sup>*\<^sup>* w v \<and> re_direct_drained (rw_entry w) \<in> closed_of v \<longrightarrow> rw_direct_calls v = 0)
    \<and> ((running_drain.quiet_step cf)\<^sup>*\<^sup>* w v \<and> re_running_drained (rw_entry w) \<in> closed_of v \<longrightarrow>
        re_running (rw_entry v) = [] \<and> (\<forall>p. p \<in> set (rw_permits v) \<longrightarrow> pm_state p \<noteq> PermitRunning))"
proof (intro conjI impI; elim conjE)
  note inv = runtime_reachable_inv [OF assms]
  {
    assume run: "(prepare_drain.quiet_step cf)\<^sup>*\<^sup>* w v" "re_prepare_drained (rw_entry w) \<in> closed_of v"
    note v = inv_simps [OF conjunct1 [OF prepare_drain.quiet_run [OF run(1) inv]]]
    have "nat (re_prepare (rw_entry v)) = 0" by (rule prepare_drain.wait_returns_drained [OF run(1) inv run(2)])
    then have "owes_slot v = 0" using v(1) by simp
    then show "\<forall>p. p \<in> set (rw_permits v) \<longrightarrow> pm_state p \<noteq> PermitReserved \<and> pm_state p \<noteq> PermitStarted"
      by (auto simp: owes_slot_def sum_slot_count admitted_def filter_empty_conv)
  next
    assume run: "(direct_drain.quiet_step cf)\<^sup>*\<^sup>* w v" "re_direct_drained (rw_entry w) \<in> closed_of v"
    note v = inv_simps [OF conjunct1 [OF direct_drain.quiet_run [OF run(1) inv]]]
    have "nat (re_direct (rw_entry v)) = 0" by (rule direct_drain.wait_returns_drained [OF run(1) inv run(2)])
    then show "rw_direct_calls v = 0" using v(4) by simp
  next
    assume run: "(running_drain.quiet_step cf)\<^sup>*\<^sup>* w v" "re_running_drained (rw_entry w) \<in> closed_of v"
    note v = inv_simps [OF conjunct1 [OF running_drain.quiet_run [OF run(1) inv]]]
    have "length (re_running (rw_entry v)) = 0" by (rule running_drain.wait_returns_drained [OF run(1) inv run(2)])
    then show r: "re_running (rw_entry v) = []" by simp
    then have "running_ids v = {#}" using v(5) by simp
    then show "\<forall>p. p \<in> set (rw_permits v) \<longrightarrow> pm_state p \<noteq> PermitRunning"
      using sum_permit_id by (fastforce simp: running_ids_def)
  }
qed

subsection \<open>Authoritative failure\<close>

fun runtime_run :: "resource_config \<Rightarrow> runtime_op list \<Rightarrow> runtime_world \<Rightarrow> runtime_world" where
  "runtime_run cf [] w = w"
| "runtime_run cf (op # ops) w = runtime_run cf ops (runtime_exec cf op w)"

lemma fatal_kept: "rw_fatal w \<noteq> None \<Longrightarrow> rw_fatal (runtime_exec cf op w) = rw_fatal w \<and> rw_begun (runtime_exec cf op w) = rw_begun w"
  by (cases op) (auto simp: runtime_exec_def permit_begin_run_def split: prod.splits option.splits)

lemma canceled_mono: "set (rw_canceled w) \<subseteq> set (rw_canceled (runtime_exec cf op w))"
  by (cases op) (auto simp: runtime_exec_def split: prod.splits option.splits)

definition tasks :: "runtime_world \<Rightarrow> 64 word set" where
  "tasks w = fst ` set (re_running (rw_entry w))"

lemma fatal_run:
  assumes "runtime_inv cf w" and "rw_begun w < 2 ^ 64" and "rw_fatal w \<noteq> None"
  shows "rw_fatal (runtime_run cf ops w) = rw_fatal w \<and> tasks (runtime_run cf ops w) \<subseteq> tasks w
    \<and> (RCancelRunning \<in> set ops \<or> tasks w \<subseteq> set (rw_canceled w) \<longrightarrow>
        tasks (runtime_run cf ops w) \<subseteq> set (rw_canceled (runtime_run cf ops w)))"
  using assms
proof (induction ops arbitrary: w)
  case Nil
  then show ?case by simp
next
  case (Cons op ops)
  let ?v = "runtime_exec cf op w"
  have kept: "rw_fatal ?v = rw_fatal w" "rw_begun ?v = rw_begun w" using fatal_kept Cons.prems(3) by auto
  have inv: "runtime_inv cf ?v" using runtime_exec_inv Cons.prems kept by simp
  have sub: "tasks ?v \<subseteq> tasks w" using running_quiet(3) [OF Cons.prems(1)] Cons.prems(3) by (auto simp: tasks_def)
  have "tasks ?v \<subseteq> set (rw_canceled ?v)" if "op = RCancelRunning \<or> tasks w \<subseteq> set (rw_canceled w)"
  proof (cases "op = RCancelRunning")
    case True
    then show ?thesis by (auto simp: tasks_def runtime_exec_def)
  next
    case False
    then show ?thesis using that sub canceled_mono by fast
  qed
  then show ?case using Cons.IH [OF inv] Cons.prems kept sub by auto
qed

text \<open>C38: an authoritative failure stops all work. Once it is recorded, no later operation replaces the
  first cause and no task begins to run, whatever was admitted before; and once the running tasks have
  been canceled after it, every task that is still running has been canceled.\<close>

theorem fatal_stops_work:
  assumes "runtime_reachable cf w" and "rw_begun w < 2 ^ 64" and "rw_fatal w \<noteq> None"
  shows "rw_fatal (runtime_run cf ops w) = rw_fatal w
    \<and> fst ` set (re_running (rw_entry (runtime_run cf ops w))) \<subseteq> fst ` set (re_running (rw_entry w))
    \<and> (RCancelRunning \<in> set ops \<longrightarrow>
        fst ` set (re_running (rw_entry (runtime_run cf ops w))) \<subseteq> set (rw_canceled (runtime_run cf ops w)))"
  using fatal_run [OF runtime_reachable_inv [OF assms(1,2)] assms(2,3), of ops] by (simp add: tasks_def)

subsection \<open>Registration\<close>

lemma runtime_options_ok:
  assumes "runtime_with_defaults o1 = Inr o2"
  shows "0 < rto_idle o2" "rto_idle o2 \<le> max_resource_duration" "0 < rto_backoff_initial o2"
    "rto_backoff_initial o2 \<le> rto_backoff_max o2" "rto_backoff_max o2 \<le> max_resource_duration"
    "rto_cleanup o2 = 0 \<or> (0 < rto_cleanup o2 \<and> rto_cleanup o2 \<le> max_resource_duration)"
proof -
  have "\<exists>z. runtime_with_defaults o1 = check_err (first_err [duration_ok (rto_idle z), duration_ok (rto_backoff_initial z),
      duration_ok (rto_backoff_max z), (if rto_cleanup z = 0 then None else duration_ok (rto_cleanup z)), duration_ok (rto_grace z)])
      (if rto_backoff_initial z > rto_backoff_max z then Inl [] else Inr z)"
    unfolding runtime_with_defaults_def Let_def by (rule exI, rule refl)
  then obtain z where "check_err (first_err [duration_ok (rto_idle z), duration_ok (rto_backoff_initial z),
      duration_ok (rto_backoff_max z), (if rto_cleanup z = 0 then None else duration_ok (rto_cleanup z)), duration_ok (rto_grace z)])
      (if rto_backoff_initial z > rto_backoff_max z then Inl [] else Inr z) = Inr o2"
    using assms by metis
  then have "\<forall>e\<in>set [duration_ok (rto_idle z), duration_ok (rto_backoff_initial z), duration_ok (rto_backoff_max z),
      (if rto_cleanup z = 0 then None else duration_ok (rto_cleanup z)), duration_ok (rto_grace z)]. e = None"
    "rto_backoff_initial z \<le> rto_backoff_max z" "o2 = z"
    by (simp_all only: check_err_Inr first_err_None split: if_splits) auto
  then show "0 < rto_idle o2" "rto_idle o2 \<le> max_resource_duration" "0 < rto_backoff_initial o2"
    "rto_backoff_initial o2 \<le> rto_backoff_max o2" "rto_backoff_max o2 \<le> max_resource_duration"
    "rto_cleanup o2 = 0 \<or> (0 < rto_cleanup o2 \<and> rto_cleanup o2 \<le> max_resource_duration)"
    by (auto simp: duration_ok_None split: if_splits)
qed

lemma dispatcher_options_accepted:
  assumes "validate_resource_config cf = None" and "runtime_with_defaults o1 = Inr o2"
  shows "dispatcher_with_defaults (dispatcher_options_of o2 cf) = Inr (dispatcher_options_of o2 cf)"
proof -
  note o2 = runtime_options_ok [OF assms(2)]
  have c: "validate_page_limit (reconcile_page_size cf) = None" "duration_ok (dispatch_interval cf) = None"
    "duration_ok (expired_running_sweep_interval cf) = None" "duration_ok (publish_attempt_timeout cf) = None"
    using assms(1) by (auto simp: validate_resource_config_def)
  have nz: "reconcile_page_size cf \<noteq> 0" "dispatch_interval cf \<noteq> 0" "expired_running_sweep_interval cf \<noteq> 0"
    "publish_attempt_timeout cf \<noteq> 0" "rto_backoff_initial o2 \<noteq> 0" "rto_backoff_max o2 \<noteq> 0"
    using c o2 by (auto simp: validate_page_limit_def duration_ok_None)
  have "duration_ok (rto_backoff_initial o2) = None" "duration_ok (rto_backoff_max o2) = None"
    using o2 by (simp_all add: duration_ok_None)
  then show ?thesis using c nz o2(4) by (simp add: dispatcher_with_defaults_def dispatcher_options_of_def Let_def)
qed

lemma scheduler_options_accepted:
  assumes "validate_resource_config cf = None" and "runtime_with_defaults o1 = Inr o2"
  shows "isl (scheduler_with_defaults (scheduler_options_of o2 cf) cf) \<longleftrightarrow>
     (if rto_cleanup o2 = 0 then recovery_drain_timeout cf - prepare_timeout cf < 6
      else recovery_drain_timeout cf \<le> prepare_timeout cf + 5 * rto_cleanup o2)"
proof (cases "rto_cleanup o2 = 0")
  case True
  note o2 = runtime_options_ok [OF assms(2)]
  let ?t = "default_scheduler_cleanup_timeout cf"
  have d: "duration_ok (rto_idle o2) = None" "duration_ok (rto_backoff_initial o2) = None" "duration_ok (rto_backoff_max o2) = None"
    using o2 by (simp_all add: duration_ok_None)
  have "isl (scheduler_with_defaults (scheduler_options_of o2 cf) cf) \<longleftrightarrow>
      \<not> (0 < ?t \<and> ?t \<le> max_resource_duration) \<or> recovery_drain_timeout cf \<le> i64 (prepare_timeout cf + i64 (5 * ?t))"
    using True d o2(1,3,4) unfolding scheduler_with_defaults_def scheduler_options_of_def Let_def
    by (auto simp: check_err_def duration_ok_def fail_when_def plain_err_def split: option.splits if_splits)
  also have "\<dots> \<longleftrightarrow> isl (scheduler_with_defaults no_options cf)"
    unfolding scheduler_zero_options by (auto simp: Let_def)
  finally show ?thesis using default_timeout_accepted [OF assms(1)] True by simp
next
  case False
  note o2 = runtime_options_ok [OF assms(2)] and c = validate_resource_configD [OF assms(1)]
  have d: "duration_ok (rto_idle o2) = None" "duration_ok (rto_backoff_initial o2) = None" "duration_ok (rto_backoff_max o2) = None"
    "duration_ok (rto_cleanup o2) = None"
    using o2 False by (simp_all add: duration_ok_None)
  have "is_i64 (5 * rto_cleanup o2)" "is_i64 (prepare_timeout cf + 5 * rto_cleanup o2)"
    using o2(6) c(5-7,10) False by (auto simp: is_i64_def max_resource_duration_def)
  then have "i64 (prepare_timeout cf + i64 (5 * rto_cleanup o2)) = prepare_timeout cf + 5 * rto_cleanup o2" by simp
  then show ?thesis
    using False d o2(1,3,4) unfolding scheduler_with_defaults_def scheduler_options_of_def Let_def
    by (auto simp: check_err_def)
qed

text \<open>A valid resource is registered. With accepted runtime options, a valid registration
  under a new name on an idle runtime fails only for the cleanup timeout: if it is set, exactly
  when the prepare timeout and five cleanups do not fit the recovery drain timeout, and if it is not,
  exactly when the default has less than six nanoseconds to work with; nothing overflows, and the
  dispatcher runs with the options of the configuration, unchanged.\<close>

theorem registration_accepts:
  assumes "validate_registration g = None" and "runtime_with_defaults o1 = Inr o2" and "rc_key (reg_config g) \<notin> set keys"
  shows "(isl (register_resource o2 False keys g) \<longleftrightarrow>
        (if rto_cleanup o2 = 0 then recovery_drain_timeout (reg_config g) - prepare_timeout (reg_config g) < 6
         else recovery_drain_timeout (reg_config g) \<le> prepare_timeout (reg_config g) + 5 * rto_cleanup o2))
    \<and> (\<forall>d s. register_resource o2 False keys g = Inr (d, s) \<longrightarrow>
        d = dispatcher_options_of o2 (reg_config g)
        \<and> scheduler_with_defaults (scheduler_options_of o2 (reg_config g)) (reg_config g) = Inr s)"
proof -
  let ?cf = "reg_config g"
  have v: "validate_resource_config ?cf = None" using assms(1) by (simp add: validate_registration_def)
  have "register_resource o2 False keys g =
      (case scheduler_with_defaults (scheduler_options_of o2 ?cf) ?cf of Inl ss \<Rightarrow> Inl ss
       | Inr s \<Rightarrow> Inr (dispatcher_options_of o2 ?cf, s))"
    using assms dispatcher_options_accepted [OF v assms(2)] by (simp add: register_resource_def Let_def)
  then show ?thesis using scheduler_options_accepted [OF v assms(2)]
    by (auto split: sum.splits)
qed

subsection \<open>Witnesses\<close>

definition zero_fence :: resource_fence where
  "zero_fence = \<lparr> fence_epoch = [], fence_writer = [] \<rparr>"

definition reserved_world :: runtime_world where
  "reserved_world = runtime_exec sample_config RReserve
     (runtime_exec sample_config (RInstallGate zero_fence) (new_runtime_world zero_fence))"

lemma reserved_reachable: "runtime_reachable sample_config reserved_world"
  unfolding reserved_world_def by (intro runtime_step runtime_start)

lemmas world_defs = reserved_world_def runtime_exec_def new_runtime_world_def new_entry_def install_gate_def
  reserve_worker_def sample_config_def close_gate_def permit_exit_def permit_abort_def pay_def
  finish_prepare_and_slot_def finish_prepare_locked_def

lemma reserved_begun: "rw_begun reserved_world = 0"
  by (simp add: world_defs)

theorem worker_slots_exact_witness: "re_slots (rw_entry reserved_world) \<le> 2"
  using worker_slots_exact [OF reserved_reachable _ sample_config_valid] reserved_begun
  by (simp add: sample_config_def)

theorem shutdown_waits_complete_witness:
  "pm_state (hd (rw_permits (runtime_exec sample_config (RPay 0) (runtime_exec sample_config (RAbort 0)
     (runtime_exec sample_config RCloseGate reserved_world))))) \<noteq> PermitReserved"
proof -
  let ?w = "runtime_exec sample_config RCloseGate reserved_world"
  let ?x = "runtime_exec sample_config (RAbort 0) ?w"
  let ?v = "runtime_exec sample_config (RPay 0) ?x"
  have r: "runtime_reachable sample_config ?w" by (intro runtime_step reserved_reachable)
  have shut: "prepare_shut ?w" "prepare_shut ?x" "prepare_shut ?v" and n: "rw_begun ?w = 0" "rw_begun ?x = 0" "rw_begun ?v = 0"
    by (simp_all add: prepare_shut_def world_defs Let_def)
  have "prepare_drain.quiet_step sample_config ?w ?x" "prepare_drain.quiet_step sample_config ?x ?v"
    unfolding prepare_drain.quiet_step_def runtime_sections_def using shut n by auto
  then have run: "(prepare_drain.quiet_step sample_config)\<^sup>*\<^sup>* ?w ?v" by (meson converse_rtranclp_into_rtranclp rtranclp.rtrancl_refl)
  have c: "re_prepare_drained (rw_entry ?w) \<in> closed_of ?v" and h: "hd (rw_permits ?v) \<in> set (rw_permits ?v)"
    by (simp_all add: closed_of_def world_defs Let_def)
  from shutdown_waits_complete [OF r] n(1) run c h show ?thesis by simp
qed

definition failed_world :: runtime_world where
  "failed_world = runtime_exec sample_config (RFail (wraps ErrAuthoritativeWriterMismatch)) reserved_world"

theorem fatal_stops_work_witness:
  "rw_fatal (runtime_run sample_config [RReserve, RCancelRunning] failed_world) = wraps ErrAuthoritativeWriterMismatch"
proof -
  have r: "runtime_reachable sample_config failed_world"
    unfolding failed_world_def by (intro runtime_step reserved_reachable)
  have f: "rw_fatal failed_world = wraps ErrAuthoritativeWriterMismatch" "rw_begun failed_world = 0"
    by (simp_all add: failed_world_def authoritative_fatal_def world_defs)
  show ?thesis using fatal_stops_work [OF r, of "[RReserve, RCancelRunning]"] f by simp
qed

definition sample_runtime :: runtime_options where
  "sample_runtime = \<lparr> rto_idle = 25000000, rto_backoff_initial = 50000000, rto_backoff_max = 5000000000,
     rto_cleanup = 0, rto_grace = 30000000000 \<rparr>"

definition sample_registration :: registration where
  "sample_registration = \<lparr> reg_config = sample_config, reg_clients = True, reg_recovery = False, reg_writer = [] \<rparr>"

theorem registration_accepts_witness: "\<not> isl (register_resource sample_runtime False [] sample_registration)"
proof -
  have o: "runtime_with_defaults sample_runtime = Inr sample_runtime"
    by (simp add: runtime_with_defaults_def sample_runtime_def Let_def duration_ok_None max_resource_duration_def)
  have "validate_registration sample_registration = None"
    using sample_config_valid by (simp add: validate_registration_def sample_registration_def)
  from registration_accepts [OF this o, of "[]"] show ?thesis
    by (simp add: sample_runtime_def sample_registration_def sample_config_def)
qed

end
