(* ===== verification/Fq_Worker.thy ===== *)
theory Fq_Worker
  imports Fq_Runtime Fq_Prepare
begin

text \<open>
  The worker (\<open>executeWorker\<close> of \<^verbatim>\<open>runtime.go\<close>): it prepares a delivery, settles it, and runs the task.
  Adapters may panic: a call of an adapter answers \<open>None\<close> then, and the rest of the function is
  skipped up to its \<open>recover\<close>. The state of the permit is changed by this goroutine only.
  Telemetry and the heartbeat of a running task are not part of the log.
\<close>

subsection \<open>Calls\<close>

text \<open>The absolute prepare deadline, and the fresh cleanup timeouts.\<close>

datatype work_ctx = PrepareCtx | CleanupCtx

record 'x work_env =
  wk_err :: "work_ctx \<Rightarrow> ('x, goerr) state"
  wk_prepare :: "('x, (prepare_result \<times> bool \<times> goerr) option) state"
  wk_ack :: "('x, goerr option) state"
  wk_nack :: "('x, goerr option) state"
  wk_ensure_active :: "('x, goerr option) state"
  wk_release :: "resource_fence \<Rightarrow> string \<Rightarrow> ('x, goerr option) state"
  wk_bind :: "string \<Rightarrow> ('x, goerr option) state"
  wk_dead_letter :: "('x, (string \<times> goerr) option) state"
  wk_run :: "('x, goerr option) state"
  wk_report :: "goerr \<Rightarrow> ('x, unit) state"
  wk_close_gates :: "('x, unit) state"
  wk_fail :: "goerr \<Rightarrow> ('x, unit) state"
  wk_fatal :: "('x, goerr) state"
  wk_latest_fence :: "('x, resource_fence) state"

datatype work_event =
    WCtx work_ctx goerr
  | WPrepare "(prepare_result \<times> bool \<times> goerr) option"
  | WAck "goerr option"
  | WNack "goerr option"
  | WEnsure "goerr option"
  | WRelease resource_fence string "goerr option"
  | WBind string "goerr option"
  | WDeadLetter "(string \<times> goerr) option"
  | WRun "goerr option"
  | WReport goerr
  | WCloseGates
  | WFail goerr
  | WFence resource_fence
  | WBegin goerr goerr bool
  | WFinish bool

type_synonym ('x, 'a) work = "((permit_state \<times> 'x) \<times> work_event list, 'a option) state"

text \<open>A call that may panic, one that may not, and sequencing, which a panic interrupts.\<close>

definition adapter :: "('x, 'a option) state \<Rightarrow> ('a option \<Rightarrow> work_event) \<Rightarrow> ('x, 'a) work" where
  "adapter op ev = State (\<lambda>((p, x), l). case run_state op x of (r, x') \<Rightarrow> (r, ((p, x'), l @ [ev r])))"

definition internal :: "('x, 'a) state \<Rightarrow> ('a \<Rightarrow> work_event) \<Rightarrow> ('x, 'a) work" where
  "internal op ev = State (\<lambda>((p, x), l). case run_state op x of (r, x') \<Rightarrow> (Some r, ((p, x'), l @ [ev r])))"

definition ok :: "'a \<Rightarrow> ('x, 'a) work" where
  "ok x = State_Monad.return (Some x)"

definition andthen :: "('x, 'a) work \<Rightarrow> ('a \<Rightarrow> ('x, 'b) work) \<Rightarrow> ('x, 'b) work" where
  "andthen m f = State_Monad.bind m (\<lambda>r. case r of None \<Rightarrow> State_Monad.return None | Some x \<Rightarrow> f x)"

text \<open>The operations on the permit: \<open>finishWithoutRun\<close>, \<open>beginRun\<close>, \<open>finishRun\<close>, \<open>finishAfterPanic\<close>. What
  they do to the counters of the resource is \<open>Fq_Runtime\<close>'s part.\<close>

definition exit_permit :: "(permit_state \<Rightarrow> bool) \<Rightarrow> ('x, unit) work" where
  "exit_permit may = State (\<lambda>((p, x), l).
     (Some (), ((if may p then PermitFinished else p, x), l @ [WFinish (may p)])))"

definition finish_without_run :: "('x, unit) work" where
  "finish_without_run = exit_permit (\<lambda>p. p = PermitStarted)"

definition finish_run :: "('x, unit) work" where
  "finish_run = exit_permit (\<lambda>p. p = PermitRunning)"

definition finish_after_panic :: "('x, unit) work" where
  "finish_after_panic = exit_permit (\<lambda>p. p = PermitStarted \<or> p = PermitRunning)"

definition begin_run :: "'x work_env \<Rightarrow> ('x, bool) work" where
  "begin_run env = State (\<lambda>((p, x), l).
     case run_state (wk_fatal env) x of (fatal, x1) \<Rightarrow>
     case run_state (wk_err env PrepareCtx) x1 of (ctx, x2) \<Rightarrow>
       let started = (p = PermitStarted \<and> fatal = None \<and> ctx = None)
       in (Some started, ((if started then PermitRunning else p, x2), l @ [WBegin fatal ctx started])))"

definition work_err :: "'x work_env \<Rightarrow> work_ctx \<Rightarrow> ('x, goerr) work" where
  "work_err env c = internal (wk_err env c) (WCtx c)"

definition close_gates :: "'x work_env \<Rightarrow> ('x, unit) work" where
  "close_gates env = internal (wk_close_gates env) (\<lambda>_. WCloseGates)"

subsection \<open>Cleanup\<close>

text \<open>\<open>reportCleanupFailure\<close>\<close>

definition cleanup_report :: "'x work_env \<Rightarrow> goerr \<Rightarrow> ('x, unit) work" where
  "cleanup_report env err =
     (if err = None then ok ()
      else andthen (work_err env CleanupCtx) (\<lambda>c.
        if c = None then internal (wk_report env err) (\<lambda>_. WReport err) else ok ()))"

definition release_token_of :: "'x work_env \<Rightarrow> resource_fence \<Rightarrow> string \<Rightarrow> ('x, unit) work" where
  "release_token_of env fence token =
     andthen (adapter (wk_release env fence token) (WRelease fence token)) (cleanup_report env)"

definition nack_activate :: "'x work_env \<Rightarrow> ('x, unit) work" where
  "nack_activate env =
     andthen (adapter (wk_nack env) WNack) (\<lambda>nack_err.
       if nack_err = None then andthen (adapter (wk_ensure_active env) WEnsure) (cleanup_report env) else ok ())"

definition nack_activate_release :: "'x work_env \<Rightarrow> unit worker_envelope \<Rightarrow> ('x, unit) work" where
  "nack_activate_release env e =
     andthen (nack_activate env) (\<lambda>_. release_token_of env (we_fence e) (we_provisional e))"

fun release_reservation_tokens :: "'x work_env \<Rightarrow> unit worker_envelope \<Rightarrow> string list \<Rightarrow> ('x, unit) work" where
  "release_reservation_tokens env e [] = ok ()"
| "release_reservation_tokens env e (t # ts) =
     (if t = [] then release_reservation_tokens env e ts
      else andthen (release_token_of env (we_fence e) t) (\<lambda>_. release_reservation_tokens env e ts))"

definition ack_release_tokens :: "'x work_env \<Rightarrow> unit worker_envelope \<Rightarrow> string list \<Rightarrow> ('x, unit) work" where
  "ack_release_tokens env e ts =
     andthen (adapter (wk_ack env) WAck) (\<lambda>_. release_reservation_tokens env e ts)"

definition dead_letter_settle_release :: "'x work_env \<Rightarrow> unit worker_envelope \<Rightarrow> ('x, unit) work" where
  "dead_letter_settle_release env e =
     andthen (adapter (wk_dead_letter env) WDeadLetter) (\<lambda>(receipt, err).
       andthen (if err = None \<and> validate_receipt receipt = None
                then andthen (adapter (wk_ack env) WAck) (\<lambda>_. ok ())
                else nack_activate env)
         (\<lambda>_. release_token_of env (we_fence e) (we_provisional e)))"

subsection \<open>Execution\<close>

text \<open>\<open>validateWorkerEnvelopeContext\<close>\<close>

definition worker_context_ok ::
  "(string \<Rightarrow> json list option) \<Rightarrow> (string \<Rightarrow> string) \<Rightarrow> resource_config \<Rightarrow> prepare_request \<Rightarrow> unit worker_envelope \<Rightarrow> goerr" where
  "worker_context_ok J H cf r e =
     (let valid_id = (\<lambda>t. case rc_validate_task_id cf of None \<Rightarrow> True | Some f \<Rightarrow> f t)
      in first_err [
           validate_prepare_request J H r,
           fail_when (case prq_message r of None \<Rightarrow> False | Some m \<Rightarrow> \<not> valid_id (msg_task_id m)) (wraps ErrInvalidModel),
           fail_when (case prq_body r of None \<Rightarrow> False | Some m \<Rightarrow> \<not> valid_id (msg_task_id m)) (wraps ErrInvalidModel),
           fail_when (case prq_header_token r of None \<Rightarrow> False | Some t \<Rightarrow> \<not> valid_id (dt_task_id t)) (wraps ErrInvalidModel),
           fail_when (prq_resource r \<noteq> we_resource e) (wraps ErrInvalidModel),
           (case tenant_hash H (we_resource e) (we_tenant e) of
              Inl ss \<Rightarrow> Some ss
            | Inr h \<Rightarrow> fail_when (prq_tenant_hash r \<noteq> h) (wraps ErrInvalidModel))])"

text \<open>\<open>runPrepared\<close>: a panic of the task itself is an error; the reservation is released under the
  latest fence of the resource.\<close>

definition run_prepared :: "'x work_env \<Rightarrow> string \<Rightarrow> ('x, unit) work" where
  "run_prepared env token =
     andthen (internal (wk_run env) WRun) (\<lambda>r.
       let run_err = (case r of None \<Rightarrow> plain_err | Some e \<Rightarrow> e) in
       andthen (if authoritative_fatal run_err then internal (wk_fail env run_err) (\<lambda>_. WFail run_err) else ok ()) (\<lambda>_.
         andthen (internal (wk_latest_fence env) WFence) (\<lambda>fence.
           andthen (adapter (wk_release env fence token) (WRelease fence token)) (\<lambda>err.
             andthen (if err \<noteq> None then internal (wk_report env err) (\<lambda>_. WReport err) else ok ()) (\<lambda>_.
               finish_run)))))"

text \<open>The branch of a claimed task.\<close>

definition execute_claimed :: "(string \<Rightarrow> string) \<Rightarrow> 'x work_env \<Rightarrow> unit worker_envelope \<Rightarrow> claim_ref \<Rightarrow> ('x, unit) work" where
  "execute_claimed H env e claim =
     andthen (work_err env PrepareCtx) (\<lambda>c.
       if c \<noteq> None then andthen (ack_release_tokens env e [we_provisional e]) (\<lambda>_. finish_without_run)
       else case stable_reservation_token H (we_resource e) (claim_task_id claim) (claim_generation claim) of
         Inl _ \<Rightarrow> andthen (close_gates env) (\<lambda>_.
           andthen (ack_release_tokens env e [we_provisional e]) (\<lambda>_. finish_without_run))
       | Inr token \<Rightarrow>
           andthen (adapter (wk_bind env token) (WBind token)) (\<lambda>bind_err.
             if bind_err \<noteq> None then
               andthen (work_err env PrepareCtx) (\<lambda>c.
                 andthen (if c = None then internal (wk_report env bind_err) (\<lambda>_. WReport bind_err) else ok ()) (\<lambda>_.
                   andthen (ack_release_tokens env e [we_provisional e, token]) (\<lambda>_. finish_without_run)))
             else
               andthen (work_err env PrepareCtx) (\<lambda>c.
                 if c \<noteq> None
                 then andthen (ack_release_tokens env e [we_provisional e, token]) (\<lambda>_. finish_without_run)
                 else
                   andthen (adapter (wk_ack env) WAck) (\<lambda>_.
                     andthen (work_err env PrepareCtx) (\<lambda>c.
                       if c \<noteq> None
                       then andthen (release_reservation_tokens env e [we_provisional e, token]) (\<lambda>_. finish_without_run)
                       else
                         andthen (begin_run env) (\<lambda>begun.
                           if \<not> begun
                           then andthen (release_reservation_tokens env e [we_provisional e, token]) (\<lambda>_. finish_without_run)
                           else run_prepared env token))))))"

text \<open>The body of \<open>executeWorker\<close>.\<close>

definition execute_body ::
  "(string \<Rightarrow> json list option) \<Rightarrow> (string \<Rightarrow> string) \<Rightarrow> resource_config \<Rightarrow> prepare_request \<Rightarrow> 'x work_env
   \<Rightarrow> unit worker_envelope \<Rightarrow> ('x, unit) work" where
  "execute_body J H cf request env e =
     (if worker_context_ok J H cf request e \<noteq> None then
        andthen (close_gates env) (\<lambda>_. andthen (nack_activate_release env e) (\<lambda>_. finish_without_run))
      else
        andthen (adapter (wk_prepare env) WPrepare) (\<lambda>(result, prepared, err).
          if err \<noteq> None then
            if authoritative_fatal err then
              andthen (internal (wk_fail env err) (\<lambda>_. WFail err)) (\<lambda>_.
                andthen (release_reservation_tokens env e [we_provisional e]) (\<lambda>_. finish_without_run))
            else andthen (nack_activate_release env e) (\<lambda>_. finish_without_run)
          else if validate_result_for J H result request prepared \<noteq> None then
            andthen (close_gates env) (\<lambda>_. andthen (nack_activate_release env e) (\<lambda>_. finish_without_run))
          else if pr_disposition result = PClaimed then
            (case pr_claim result of None \<Rightarrow> State_Monad.return None | Some claim \<Rightarrow> execute_claimed H env e claim)
          else
            andthen (case pr_action result of
                NackRequeue \<Rightarrow> nack_activate_release env e
              | AckRelease \<Rightarrow> ack_release_tokens env e [we_provisional e]
              | ConfirmDLQThenAck \<Rightarrow> dead_letter_settle_release env e
              | _ \<Rightarrow> andthen (close_gates env) (\<lambda>_. nack_activate_release env e)) (\<lambda>_. finish_without_run)))"

text \<open>\<open>executeWorker\<close> with its deferred \<open>recover\<close>; a panic inside the recovery is recovered as well.\<close>

definition read_permit :: "('x, permit_state) work" where
  "read_permit = State (\<lambda>((p, x), l). (Some p, ((p, x), l)))"

definition execute_worker ::
  "(string \<Rightarrow> json list option) \<Rightarrow> (string \<Rightarrow> string) \<Rightarrow> resource_config \<Rightarrow> prepare_request \<Rightarrow> 'x work_env
   \<Rightarrow> unit worker_envelope \<Rightarrow> ('x, unit) work" where
  "execute_worker J H cf request env e =
     State_Monad.bind (execute_body J H cf request env e) (\<lambda>r. case r of
       Some _ \<Rightarrow> ok ()
     | None \<Rightarrow>
         andthen read_permit (\<lambda>p.
           if p = PermitStarted then
             State_Monad.bind (andthen (close_gates env) (\<lambda>_. nack_activate_release env e)) (\<lambda>_. finish_after_panic)
           else finish_after_panic))"

end
