(* ===== verification/Fq_Worker_Props.thy ===== *)
theory Fq_Worker_Props
  imports Fq_Worker Fq_Scheduler_Props
begin

text \<open>What a worker logs, and the properties of the worker.\<close>

subsection \<open>Rules\<close>

text \<open>\<open>after Q f\<close>: the postcondition of the first part of \<open>andthen\<close>.\<close>

definition after :: "('b option \<Rightarrow> 's \<Rightarrow> bool) \<Rightarrow> ('a \<Rightarrow> ('s, 'b option) state) \<Rightarrow> 'a option \<Rightarrow> 's \<Rightarrow> bool" where
  "after Q f r s = (case r of None \<Rightarrow> Q None s | Some x \<Rightarrow> wp (f x) Q s)"

lemma after_intros [wp_intros]: "Q None s \<Longrightarrow> after Q f None s" "wp (f x) Q s \<Longrightarrow> after Q f (Some x) s"
  by (simp_all add: after_def)

lemma wp_adapter [wp_intros]:
  "(\<And>x'. Q None ((p, x'), l @ [ev None])) \<Longrightarrow> (\<And>v x'. Q (Some v) ((p, x'), l @ [ev (Some v)])) \<Longrightarrow>
     wp (adapter op ev) Q ((p, x), l)"
  by (simp add: wp_def adapter_def split: prod.splits) (metis not_None_eq)

lemma wp_internal [wp_intros]:
  "(\<And>r x'. Q (Some r) ((p, x'), l @ [ev r])) \<Longrightarrow> wp (internal op ev) Q ((p, x), l)"
  by (simp add: wp_def internal_def split: prod.splits)

lemma wp_ok [wp_intros]: "Q (Some x) s \<Longrightarrow> wp (ok x) Q s"
  by (simp add: ok_def wp_return)

lemma wp_andthen [wp_intros]: "wp m (after Q f) s \<Longrightarrow> wp (andthen m f) Q s"
  unfolding andthen_def
  by (rule wp_bind, erule wp_mono) (auto simp: after_def intro: wp_return split: option.splits)

lemma wp_exit [wp_intros]:
  "Q (Some ()) ((if may p then PermitFinished else p, x), l @ [WFinish (may p)]) \<Longrightarrow> wp (exit_permit may) Q ((p, x), l)"
  by (simp add: wp_def exit_permit_def)

lemma wp_begin_run [wp_intros]:
  "(\<And>x'. p = PermitStarted \<Longrightarrow> Q (Some True) ((PermitRunning, x'), l @ [WBegin None None True])) \<Longrightarrow>
   (\<And>f c x'. Q (Some False) ((p, x'), l @ [WBegin f c False])) \<Longrightarrow> wp (begin_run env) Q ((p, x), l)"
  by (auto simp: wp_def begin_run_def Let_def split: prod.splits)

lemma wp_work_err [wp_intros]:
  "(\<And>r x'. Q (Some r) ((p, x'), l @ [WCtx c r])) \<Longrightarrow> wp (work_err env c) Q ((p, x), l)"
  unfolding work_err_def by (rule wp_internal)

lemma wp_close_gates [wp_intros]:
  "(\<And>x'. Q (Some ()) ((p, x'), l @ [WCloseGates])) \<Longrightarrow> wp (close_gates env) Q ((p, x), l)"
  unfolding close_gates_def by (rule wp_internal) simp

subsection \<open>Events\<close>

fun panicked :: "work_event \<Rightarrow> bool" where
  "panicked (WPrepare r) \<longleftrightarrow> r = None" | "panicked (WAck r) \<longleftrightarrow> r = None" | "panicked (WNack r) \<longleftrightarrow> r = None"
| "panicked (WEnsure r) \<longleftrightarrow> r = None" | "panicked (WRelease _ _ r) \<longleftrightarrow> r = None" | "panicked (WBind _ r) \<longleftrightarrow> r = None"
| "panicked (WDeadLetter r) \<longleftrightarrow> r = None" | "panicked _ \<longleftrightarrow> False"

fun settles :: "work_event \<Rightarrow> bool" where
  "settles (WAck _) = True" | "settles (WNack _) = True" | "settles _ = False"

fun frees :: "string \<Rightarrow> work_event \<Rightarrow> bool" where
  "frees t (WRelease _ t' _) \<longleftrightarrow> t' = t" | "frees t _ = False"

fun begun :: "work_event \<Rightarrow> bool" where
  "begun (WBegin _ _ b) = b" | "begun _ = False"

fun ran :: "work_event \<Rightarrow> bool" where
  "ran (WRun _) = True" | "ran _ = False"

fun exits :: "work_event \<Rightarrow> bool" where
  "exits (WFinish b) = b" | "exits _ = False"

fun bound :: "string \<Rightarrow> work_event \<Rightarrow> bool" where
  "bound t (WBind t' r) \<longleftrightarrow> t' = t \<and> r = Some None" | "bound t _ = False"

fun mistrusted :: "work_event \<Rightarrow> bool" where
  "mistrusted (WPrepare (Some (_, _, e))) \<longleftrightarrow> authoritative_fatal e" | "mistrusted _ = False"

fun helper :: "work_event \<Rightarrow> bool" where
  "helper (WPrepare _) = False" | "helper (WBind _ _) = False" | "helper (WRun _) = False"
| "helper (WBegin _ _ _) = False" | "helper (WFinish _) = False" | "helper _ = True"

lemma helper_none:
  assumes "helper e"
  shows "\<not> begun e" "\<not> ran e" "\<not> exits e" "\<not> bound t e" "\<not> mistrusted e"
  using assms by (cases e; simp)+

lemma occurs_none: "\<forall>e\<in>set k. \<not> P e \<Longrightarrow> occurs P k = 0"
  by (simp add: occurs_def filter_empty_conv)

lemma helper_occurs [simp]:
  assumes "\<forall>e\<in>set k. helper e"
  shows "occurs begun k = 0" "occurs ran k = 0" "occurs exits k = 0" "occurs (bound t) k = 0" "occurs mistrusted k = 0"
  using assms by (auto intro!: occurs_none simp: helper_none)

subsection \<open>Cleanups\<close>

definition tidy :: "nat \<Rightarrow> string list \<Rightarrow> 'a option \<Rightarrow> work_event list \<Rightarrow> bool" where
  "tidy n toks r k \<longleftrightarrow> (\<forall>e\<in>set k. helper e) \<and> (r = None \<longrightarrow> 0 < occurs panicked k)
     \<and> (r \<noteq> None \<longrightarrow> occurs settles k = n \<and> (\<forall>t\<in>set toks. t \<noteq> [] \<longrightarrow> 0 < occurs (frees t) k))"

definition tidies :: "('x, 'a) work \<Rightarrow> nat \<Rightarrow> string list \<Rightarrow> bool" where
  "tidies m n toks \<longleftrightarrow> (\<forall>p x l. wp m (\<lambda>r s. \<exists>k. snd s = l @ k \<and> fst (fst s) = p \<and> tidy n toks r k) ((p, x), l))"

lemma wp_tidies:
  assumes "tidies m n toks" and "\<And>x' k. tidy n toks (None :: 'a option) k \<Longrightarrow> Q None ((p, x'), l @ k)"
    and "\<And>v x' k. tidy n toks (Some v) k \<Longrightarrow> Q (Some v) ((p, x'), l @ k)"
  shows "wp (m :: ('x, 'a) work) Q ((p, x), l)"
proof -
  have "wp m (\<lambda>r s. \<exists>k. snd s = l @ k \<and> fst (fst s) = p \<and> tidy n toks r k) ((p, x), l)"
    using assms(1) by (simp add: tidies_def)
  then show ?thesis
  proof (rule wp_mono)
    fix r :: "'a option" and s :: "(permit_state \<times> 'x) \<times> work_event list"
    assume "\<exists>k. snd s = l @ k \<and> fst (fst s) = p \<and> tidy n toks r k"
    then obtain k x' where "s = ((p, x'), l @ k)" "tidy n toks r k" by (metis prod.collapse)
    then show "Q r s" using assms(2,3) by (cases r) simp_all
  qed
qed

lemma tidies_cleanup_report: "tidies (cleanup_report env err) 0 []"
  unfolding tidies_def cleanup_report_def
  by (intro allI wp_intros conjI impI; simp add: tidy_def)

lemma tidies_release_token: "tidies (release_token_of env f t) 0 [t]"
  unfolding tidies_def release_token_of_def
  by (intro allI wp_intros conjI impI wp_tidies [OF tidies_cleanup_report]; auto simp: tidy_def)

lemma tidies_nack_activate: "tidies (nack_activate env) 1 []"
  unfolding tidies_def nack_activate_def
  by (intro allI wp_intros conjI impI wp_tidies [OF tidies_cleanup_report]; auto simp: tidy_def)

lemma tidies_nack: "tidies (nack_activate_release env e) 1 [we_provisional e]"
  unfolding tidies_def nack_activate_release_def
  by (intro allI wp_intros conjI impI wp_tidies [OF tidies_nack_activate] wp_tidies [OF tidies_release_token]; auto simp: tidy_def)

lemma tidies_release: "tidies (release_reservation_tokens env e ts) 0 ts"
proof (induction ts)
  case Nil
  show ?case unfolding tidies_def by (simp, intro allI wp_intros) (simp add: tidy_def)
next
  case (Cons t ts)
  show ?case unfolding tidies_def
    by (simp, intro allI wp_intros conjI impI wp_tidies [OF tidies_release_token] wp_tidies [OF Cons.IH]; auto simp: tidy_def)
qed

lemma tidies_ack: "tidies (ack_release_tokens env e ts) 1 ts"
  unfolding tidies_def ack_release_tokens_def
  by (intro allI wp_intros conjI impI wp_tidies [OF tidies_release]; auto simp: tidy_def)

lemma tidies_dead_letter: "tidies (dead_letter_settle_release env e) 1 [we_provisional e]"
  unfolding tidies_def dead_letter_settle_release_def
  by (intro allI wp_intros conjI impI wp_tidies [OF tidies_nack_activate] wp_tidies [OF tidies_release_token]; auto simp: tidy_def)

subsection \<open>Order\<close>

text \<open>\<open>claims\<close>: the token is the stable token of the claim that an accepted preparation returned.\<close>

definition claims ::
  "(string \<Rightarrow> json list option) \<Rightarrow> (string \<Rightarrow> string) \<Rightarrow> prepare_request \<Rightarrow> unit worker_envelope \<Rightarrow> string \<Rightarrow> work_event list \<Rightarrow> bool" where
  "claims J H request e t h \<longleftrightarrow>
     (\<exists>result claim. WPrepare (Some (result, True, None)) \<in> set h \<and> validate_result_for J H result request True = None
        \<and> pr_disposition result = PClaimed \<and> pr_claim result = Some claim
        \<and> stable_reservation_token H (we_resource e) (claim_task_id claim) (claim_generation claim) = Inr t)"

definition unbegun :: "work_event list \<Rightarrow> bool" where
  "unbegun h \<longleftrightarrow> (\<forall>f c. WBegin f c True \<notin> set h)"

fun work_order ::
  "(string \<Rightarrow> json list option) \<Rightarrow> (string \<Rightarrow> string) \<Rightarrow> prepare_request \<Rightarrow> unit worker_envelope
   \<Rightarrow> work_event list \<Rightarrow> work_event \<Rightarrow> bool" where
  "work_order J H request e h (WBind t _) \<longleftrightarrow> claims J H request e t h \<and> unbegun h"
| "work_order J H request e h (WBegin f c b) \<longleftrightarrow> b \<longrightarrow> f = None \<and> c = None \<and> unbegun h
     \<and> (\<exists>t a. claims J H request e t h \<and> WBind t (Some None) \<in> set h \<and> WAck (Some a) \<in> set h)"
| "work_order J H request e h (WRun _) \<longleftrightarrow> \<not> unbegun h \<and> occurs ran h = 0"
| "work_order J H request e h (WNack _) \<longleftrightarrow> unbegun h"
| "work_order J H request e h (WAck _) \<longleftrightarrow> unbegun h"
| "work_order J H request e h _ \<longleftrightarrow> True"

lemma helper_guarded:
  "\<forall>x\<in>set k. helper x \<Longrightarrow> unbegun h \<Longrightarrow> guarded (work_order J H request e) h k"
proof (induction k arbitrary: h)
  case (Cons x k)
  then have "work_order J H request e h x" "unbegun (h @ [x])"
    by (cases x; auto simp: unbegun_def)+
  with Cons show ?case by simp
qed simp

lemma unbegun_append: "unbegun (h @ k) \<longleftrightarrow> unbegun h \<and> unbegun k" "\<forall>x\<in>set k. helper x \<Longrightarrow> unbegun k" "unbegun []"
  "unbegun (x # k) \<longleftrightarrow> (\<forall>f c. x \<noteq> WBegin f c True) \<and> unbegun k"
  by (auto simp: unbegun_def)

definition claimed_bill ::
  "(string \<Rightarrow> json list option) \<Rightarrow> (string \<Rightarrow> string) \<Rightarrow> prepare_request \<Rightarrow> unit worker_envelope \<Rightarrow> claim_ref
   \<Rightarrow> unit option \<Rightarrow> permit_state \<Rightarrow> work_event list \<Rightarrow> bool" where
  "claimed_bill J H request e claim r p' k \<longleftrightarrow>
     (\<forall>h. unbegun h \<longrightarrow> occurs ran h = 0 \<longrightarrow>
        (\<forall>t. stable_reservation_token H (we_resource e) (claim_task_id claim) (claim_generation claim) = Inr t
           \<longrightarrow> claims J H request e t h) \<longrightarrow> guarded (work_order J H request e) h k)
     \<and> occurs mistrusted k = 0 \<and> (r = None \<longrightarrow> 0 < occurs panicked k \<and> occurs exits k = 0
          \<and> (p' = PermitStarted \<and> unbegun k \<or> p' = PermitRunning \<and> 0 < occurs settles k))
     \<and> (r \<noteq> None \<longrightarrow> p' = PermitFinished \<and> occurs exits k = 1 \<and> occurs settles k = 1
          \<and> (\<forall>t. t \<noteq> [] \<longrightarrow> 0 < occurs (bound t) k \<longrightarrow> 0 < occurs (frees t) k)
          \<and> ((\<forall>t. occurs (bound t) k = 0) \<longrightarrow> we_provisional e \<noteq> [] \<longrightarrow> 0 < occurs (frees (we_provisional e)) k))"

lemma claims_append [simp]: "claims J H request e t h \<Longrightarrow> claims J H request e t (h @ k)"
  by (auto simp: claims_def)

definition run_bill :: "string \<Rightarrow> unit option \<Rightarrow> permit_state \<Rightarrow> work_event list \<Rightarrow> bool" where
  "run_bill token r p' k \<longleftrightarrow>
     (\<forall>J H request e h. \<not> unbegun h \<longrightarrow> occurs ran h = 0 \<longrightarrow> guarded (work_order J H request e) h k)
     \<and> occurs settles k = 0 \<and> occurs mistrusted k = 0 \<and> (\<forall>t. occurs (bound t) k = 0)
     \<and> (r = None \<longrightarrow> 0 < occurs panicked k \<and> occurs exits k = 0 \<and> p' = PermitRunning)
     \<and> (r \<noteq> None \<longrightarrow> p' = PermitFinished \<and> occurs exits k = 1 \<and> 0 < occurs (frees token) k)"

fun plain :: "work_event \<Rightarrow> bool" where
  "plain (WFail _) = True" | "plain (WFence _) = True" | "plain (WRelease _ _ _) = True" | "plain (WReport _) = True"
| "plain (WCtx _ _) = True" | "plain WCloseGates = True" | "plain _ = False"

lemma plain_none:
  assumes "plain x"
  shows "helper x" "\<not> settles x" "\<not> mistrusted x" "\<not> bound t x" "work_order J H request e h x"
  using assms by (cases x; simp)+

lemma plain_occurs:
  assumes "\<forall>x\<in>set k. plain x"
  shows "occurs settles k = 0" "occurs mistrusted k = 0" "occurs (bound t) k = 0" "occurs exits k = 0" "occurs ran k = 0"
proof -
  have "\<forall>x\<in>set k. helper x" using assms plain_none(1) by blast
  then show "occurs mistrusted k = 0" "occurs (bound t) k = 0" "occurs exits k = 0" "occurs ran k = 0"
    by (rule helper_occurs)+
  show "occurs settles k = 0" using assms plain_none(2) by (auto intro!: occurs_none)
qed

lemma plain_guarded: "\<forall>x\<in>set k. plain x \<Longrightarrow> guarded (work_order J H request e) h k"
proof (induction k arbitrary: h)
  case (Cons x k)
  then have "work_order J H request e h x" by (simp add: plain_none)
  with Cons show ?case by simp
qed simp

lemma run_bill_shape:
  assumes "\<forall>x\<in>set mid. plain x"
  shows "0 < occurs panicked mid \<Longrightarrow> run_bill token None PermitRunning (WRun a # mid)"
    "0 < occurs (frees token) mid \<Longrightarrow> run_bill token (Some ()) PermitFinished (WRun a # mid @ [WFinish True])"
  using plain_occurs [OF assms] plain_guarded [OF assms] unfolding run_bill_def by simp_all

lemma run_bill_finished:
  assumes "mid \<noteq> []" and "last mid = WFinish True" and "\<forall>x\<in>set (butlast mid). plain x"
    and "0 < occurs (frees token) (butlast mid)"
  shows "run_bill token (Some u) PermitFinished (WRun a # mid)"
proof -
  have "mid = butlast mid @ [WFinish True]" using assms(1,2) by (metis append_butlast_last_id)
  then show ?thesis using run_bill_shape(2) [OF assms(3,4)] by simp
qed

lemma run_prepared_bill:
  "wp (run_prepared env token) (\<lambda>r s. \<exists>k. snd s = l @ k \<and> run_bill token r (fst (fst s)) k) ((PermitRunning, x), l)"
  unfolding run_prepared_def Let_def finish_run_def
  by (intro wp_intros; simp add: run_bill_shape(1) run_bill_finished)

lemma wp_run_prepared:
  assumes "\<And>x' k. run_bill token None PermitRunning k \<Longrightarrow> Q None ((PermitRunning, x'), l @ k)"
    and "\<And>v x' k. run_bill token (Some v) PermitFinished k \<Longrightarrow> Q (Some v) ((PermitFinished, x'), l @ k)"
  shows "wp (run_prepared env token) Q ((PermitRunning, x :: 'x), l)"
proof (rule wp_mono [OF run_prepared_bill])
  fix r and s :: "(permit_state \<times> 'x) \<times> work_event list"
  assume "\<exists>k. snd s = l @ k \<and> run_bill token r (fst (fst s)) k"
  then obtain k p' x' where s: "s = ((p', x'), l @ k)" "run_bill token r p' k" by (metis prod.collapse)
  show "Q r s"
  proof (cases r)
    case None
    then show ?thesis using s assms(1) [of k] by (simp add: run_bill_def)
  next
    case (Some v)
    then show ?thesis using s assms(2) [of v k] by (simp add: run_bill_def)
  qed
qed

lemma execute_claimed_bill:
  "wp (execute_claimed H env e claim) (\<lambda>r s. \<exists>k. snd s = l @ k \<and> claimed_bill J H request e claim r (fst (fst s)) k)
     ((PermitStarted, x), l)"
  unfolding execute_claimed_def finish_without_run_def
  by (intro wp_intros wp_tidies [OF tidies_ack] wp_tidies [OF tidies_release] wp_run_prepared;
      simp add: claimed_bill_def tidy_def run_bill_def unbegun_append helper_guarded)
    (blast intro: claims_append)+

subsection \<open>The body\<close>

lemma accepted_claim:
  assumes "validate_result_for J H r request prepared = None" and "pr_disposition r = PClaimed"
  shows "prepared" "\<exists>claim. pr_claim r = Some claim"
  using assms by (auto simp: validate_result_for_def validate_prepare_result_def prepare_result_matrix_def
      split: option.splits if_splits)

definition body_bill ::
  "(string \<Rightarrow> json list option) \<Rightarrow> (string \<Rightarrow> string) \<Rightarrow> prepare_request \<Rightarrow> unit worker_envelope
   \<Rightarrow> unit option \<Rightarrow> permit_state \<Rightarrow> work_event list \<Rightarrow> bool" where
  "body_bill J H request e r p' k \<longleftrightarrow>
     guarded (work_order J H request e) [] k
     \<and> (r = None \<longrightarrow> 0 < occurs panicked k \<and> occurs exits k = 0 \<and> (p' = PermitStarted \<and> unbegun k \<or> p' = PermitRunning \<and> 0 < occurs settles k))
     \<and> (r \<noteq> None \<longrightarrow> p' = PermitFinished \<and> occurs exits k = 1 \<and> occurs settles k + occurs mistrusted k = 1
          \<and> (\<forall>t. t \<noteq> [] \<longrightarrow> 0 < occurs (bound t) k \<longrightarrow> 0 < occurs (frees t) k)
          \<and> ((\<forall>t. occurs (bound t) k = 0) \<longrightarrow> we_provisional e \<noteq> [] \<longrightarrow> 0 < occurs (frees (we_provisional e)) k))"

lemma wp_execute_claimed:
  assumes "\<And>p' r x' k. claimed_bill J H request e claim r p' k \<Longrightarrow> Q r ((p', x'), l @ k)"
  shows "wp (execute_claimed H env e claim) Q ((PermitStarted, x :: 'x), l)"
proof (rule wp_mono [OF execute_claimed_bill])
  fix r and s :: "(permit_state \<times> 'x) \<times> work_event list"
  assume "\<exists>k. snd s = l @ k \<and> claimed_bill J H request e claim r (fst (fst s)) k"
  then obtain k p' x' where "s = ((p', x'), l @ k)" "claimed_bill J H request e claim r p' k" by (metis prod.collapse)
  then show "Q r s" using assms by simp
qed

lemma claimed_body:
  assumes "claimed_bill J H request e claim r p' k" and "validate_result_for J H result request prepared = None"
    and "pr_disposition result = PClaimed" and "pr_claim result = Some claim"
  shows "body_bill J H request e r p' (WPrepare (Some (result, prepared, None)) # k)"
proof -
  have p: "prepared = True" using accepted_claim(1) [OF assms(2,3)] by simp
  let ?h = "[WPrepare (Some (result, True, None))]"
  have "claims J H request e t ?h"
    if "stable_reservation_token H (we_resource e) (claim_task_id claim) (claim_generation claim) = Inr t" for t
    using that assms(2-4) p by (auto simp: claims_def)
  then have "guarded (work_order J H request e) ?h k"
    using assms(1) by (simp add: claimed_bill_def unbegun_append)
  moreover have "\<not> authoritative_fatal None" by (simp add: authoritative_fatal_def)
  ultimately show ?thesis
    using assms(1) p by (auto simp: body_bill_def claimed_bill_def unbegun_append)
qed

lemma nil_not_fatal [simp]: "\<not> authoritative_fatal None"
  by (simp add: authoritative_fatal_def)

lemma wp_action:
  assumes "\<And>b. a = PromoteThenAckRun \<or> a = OtherAction b \<Longrightarrow> wp m0 Q s" and "a = AckRelease \<Longrightarrow> wp m1 Q s"
    and "a = NackRequeue \<Longrightarrow> wp m2 Q s" and "a = ConfirmDLQThenAck \<Longrightarrow> wp m3 Q s"
  shows "wp (case a of PromoteThenAckRun \<Rightarrow> m0 | AckRelease \<Rightarrow> m1 | NackRequeue \<Rightarrow> m2 | ConfirmDLQThenAck \<Rightarrow> m3
     | OtherAction b \<Rightarrow> m0) Q s"
  using assms by (cases a) simp_all

lemma execute_body_bill:
  "wp (execute_body J H cf request env e) (\<lambda>r s. body_bill J H request e r (fst (fst s)) (snd s)) ((PermitStarted, x), [])"
  unfolding execute_body_def finish_without_run_def
  by (intro wp_intros wp_action wp_tidies [OF tidies_ack] wp_tidies [OF tidies_release] wp_tidies [OF tidies_nack]
      wp_tidies [OF tidies_dead_letter] wp_execute_claimed [where J = J and request = request];
      (simp add: claimed_body)?; auto simp: body_bill_def tidy_def unbegun_append helper_guarded dest: accepted_claim(2))


text \<open>The recovery of a panic: it runs from whatever the body left.\<close>

definition worker_bill ::
  "(string \<Rightarrow> json list option) \<Rightarrow> (string \<Rightarrow> string) \<Rightarrow> prepare_request \<Rightarrow> unit worker_envelope
   \<Rightarrow> unit option \<Rightarrow> permit_state \<Rightarrow> work_event list \<Rightarrow> bool" where
  "worker_bill J H request e r p' k \<longleftrightarrow>
     guarded (work_order J H request e) [] k \<and> r = Some () \<and> p' = PermitFinished \<and> occurs exits k = 1
     \<and> 0 < occurs settles k + occurs mistrusted k
     \<and> (occurs panicked k = 0 \<longrightarrow> occurs settles k + occurs mistrusted k = 1
          \<and> (\<forall>t. t \<noteq> [] \<longrightarrow> 0 < occurs (bound t) k \<longrightarrow> 0 < occurs (frees t) k)
          \<and> ((\<forall>t. occurs (bound t) k = 0) \<longrightarrow> we_provisional e \<noteq> [] \<longrightarrow> 0 < occurs (frees (we_provisional e)) k))"

text \<open>A nack and its release log a nack first, also when they panic.\<close>

lemma wp_nack_release:
  assumes "\<And>r x' k. \<forall>y\<in>set k. helper y \<Longrightarrow> 0 < occurs settles k \<Longrightarrow> Q r ((p, x'), l @ k)"
  shows "wp (nack_activate_release env e) Q ((p, x :: 'x), l)"
proof -
  have "wp (nack_activate_release env e) (\<lambda>r s. fst (fst s) = p
      \<and> (\<exists>k. snd s = l @ k \<and> (\<forall>y\<in>set k. helper y) \<and> 0 < occurs settles k)) ((p, x), l)"
    unfolding nack_activate_release_def nack_activate_def
    by (intro wp_intros conjI impI wp_tidies [OF tidies_cleanup_report] wp_tidies [OF tidies_release_token];
        auto simp: tidy_def)
  then show ?thesis
  proof (rule wp_mono)
    fix r and s :: "(permit_state \<times> 'x) \<times> work_event list"
    assume "fst (fst s) = p \<and> (\<exists>k. snd s = l @ k \<and> (\<forall>y\<in>set k. helper y) \<and> 0 < occurs settles k)"
    then obtain k x' where "s = ((p, x'), l @ k)" "\<forall>y\<in>set k. helper y" "0 < occurs settles k"
      by (metis prod.collapse)
    then show "Q r s" using assms by simp
  qed
qed

lemma wp_read_permit [wp_intros]: "Q (Some p) ((p, x), l) \<Longrightarrow> wp read_permit Q ((p, x), l)"
  by (simp add: wp_def read_permit_def)

lemma execute_worker_bill:
  "wp (execute_worker J H cf request env e) (\<lambda>r s. worker_bill J H request e r (fst (fst s)) (snd s)) ((PermitStarted, x), [])"
  unfolding execute_worker_def
proof (rule wp_bind, rule wp_mono [OF execute_body_bill])
  fix r and s :: "(permit_state \<times> 'a) \<times> work_event list"
  assume b: "body_bill J H request e r (fst (fst s)) (snd s)"
  obtain p x' k where s: "s = ((p, x'), k)" by (metis prod.collapse)
  show "wp (case r of None \<Rightarrow> andthen read_permit (\<lambda>p. if p = PermitStarted
          then State_Monad.bind (andthen (close_gates env) (\<lambda>_. nack_activate_release env e)) (\<lambda>_. finish_after_panic)
          else finish_after_panic) | Some _ \<Rightarrow> ok ())
      (\<lambda>r s. worker_bill J H request e r (fst (fst s)) (snd s)) s"
    using b unfolding s finish_after_panic_def
    by (intro wp_intros wp_nack_release; auto simp: worker_bill_def body_bill_def unbegun_append helper_guarded)
qed


subsection \<open>Properties\<close>

definition sample_fence_w :: resource_fence where
  "sample_fence_w = \<lparr> fence_epoch = ''e'', fence_writer = ''w'' \<rparr>"

definition sample_envelope :: "unit worker_envelope" where
  "sample_envelope = \<lparr> we_resource = ''rag'', we_tenant = msg_tenant sample_message,
     we_fence = sample_fence_w, we_gate_generation = 1,
     we_turn = \<lparr> turn_token = ''t'', turn_tenant = ''u1'', turn_observed = 1 \<rparr>, we_provisional = ''p'', we_delivery = () \<rparr>"

definition quiet_work :: "unit work_env" where
  "quiet_work = \<lparr> wk_err = \<lambda>_. State_Monad.return None,
     wk_prepare = State_Monad.return (Some (sample_result, True, None)),
     wk_ack = State_Monad.return (Some None), wk_nack = State_Monad.return (Some None),
     wk_ensure_active = State_Monad.return (Some None), wk_release = \<lambda>_ _. State_Monad.return (Some None),
     wk_bind = \<lambda>_. State_Monad.return (Some None), wk_dead_letter = State_Monad.return None,
     wk_run = State_Monad.return (Some None), wk_report = \<lambda>_. State_Monad.return (),
     wk_close_gates = State_Monad.return (), wk_fail = \<lambda>_. State_Monad.return (),
     wk_fatal = State_Monad.return None,
     wk_latest_fence = State_Monad.return sample_fence_w \<rparr>"

lemma sample_context: "rc_validate_task_id cf = Some (\<lambda>_. True) \<Longrightarrow>
   worker_context_ok sample_json sample_hash cf sample_request sample_envelope = None"
  using sample_request_valid sample_tenant_hash
  by (simp add: worker_context_ok_def sample_envelope_def Let_def sample_request_def)

definition sample_stable :: string where
  "sample_stable = ''r:'' @ replicate 64 CHR ''a''"

lemma sample_stable_token:
  "stable_reservation_token sample_hash ''rag'' ''7'' 3 = Inr sample_stable"
  using sample_message_valid sample_resource_valid
  by (simp add: stable_reservation_token_def sample_stable_def sample_hash_def max_int64_def validate_message_None sample_message_def
     sample_token_def check_err_def validate_task_id_def fail_when_def)

lemma quiet_worker_run:
  assumes "rc_validate_task_id cf = Some (\<lambda>_. True)"
  shows "run_state (execute_worker sample_json sample_hash cf sample_request quiet_work sample_envelope) ((PermitStarted, ()), [])
   = (Some (), ((PermitFinished, ()), [WPrepare (Some (sample_result, True, None)), WCtx PrepareCtx None,
        WBind sample_stable (Some None), WCtx PrepareCtx None, WAck (Some None), WCtx PrepareCtx None,
        WBegin None None True, WRun (Some None), WFence sample_fence_w, WRelease sample_fence_w sample_stable (Some None),
        WFinish True]))"
proof -
  have d: "pr_disposition sample_result = PClaimed"
    "pr_claim sample_result = Some \<lparr> claim_tenant = ''u1'', claim_task_id = ''7'', claim_generation = 3 \<rparr>"
    by (simp_all add: sample_result_def)
  have "we_resource sample_envelope = ''rag''" by (simp add: sample_envelope_def)
  with d show ?thesis
    by (simp add: execute_worker_def execute_body_def execute_claimed_def run_prepared_def andthen_def adapter_def
      internal_def ok_def begin_run_def exit_permit_def finish_run_def work_err_def quiet_work_def sample_context [OF assms]
      sample_result_valid sample_stable_token nil_not_fatal Let_def)
qed


text \<open>C39: whatever the adapters answer and wherever they panic, \<open>executeWorker\<close> returns with the permit
  finished by exactly one effective exit, and it has tried to settle the delivery unless the preparation failed with an
  authoritative error. Without a panic a delivery with such an error stays unsettled and every other one is settled exactly once;
  every stable token it bound is released, and if it bound none, the provisional token is.\<close>

theorem worker_settles_once:
  assumes "run_state (execute_worker J H cf request env e) ((PermitStarted, x), []) = (r, ((p', x'), log))"
  shows "r = Some () \<and> p' = PermitFinished \<and> occurs exits log = 1
    \<and> (occurs mistrusted log = 0 \<longrightarrow> 0 < occurs settles log)
    \<and> (occurs panicked log = 0 \<longrightarrow>
         (if 0 < occurs mistrusted log then occurs settles log = 0 \<and> occurs mistrusted log = 1 else occurs settles log = 1)
         \<and> (\<forall>t. t \<noteq> [] \<longrightarrow> 0 < occurs (bound t) log \<longrightarrow> 0 < occurs (frees t) log)
         \<and> ((\<forall>t. occurs (bound t) log = 0) \<longrightarrow> we_provisional e \<noteq> [] \<longrightarrow> 0 < occurs (frees (we_provisional e)) log))"
  using execute_worker_bill [of J H cf request env e x] assms by (auto simp: wp_def worker_bill_def)

theorem worker_settles_once_witness:
  "occurs (frees sample_stable) (snd (snd (run_state
     (execute_worker sample_json sample_hash (sample_config) sample_request quiet_work sample_envelope) ((PermitStarted, ()), [])))) > 0"
proof -
  note run = quiet_worker_run [of sample_config]
  have c: "rc_validate_task_id sample_config = Some (\<lambda>_. True)" by (simp add: sample_config_def)
  have "sample_stable \<noteq> []" by (simp add: sample_stable_def)
  with worker_settles_once [OF run [OF c]] show ?thesis unfolding run [OF c] by simp
qed

text \<open>C40: the order of a worker's actions, for every behaviour of the adapters, panics included: it binds
  only the stable token of the claim of an accepted preparation; it enters the running state only
  with a live deadline and no fatal error, after binding that token and after an ack that returned; it runs the task at most
  once and only in that state; and from then on it never acks or nacks the delivery.\<close>

theorem worker_acts_in_order:
  assumes "run_state (execute_worker J H cf request env e) ((PermitStarted, x), []) = (r, (s, log))"
    and "log = before @ event # rest"
  shows "work_order J H request e before event"
proof -
  have "guarded (work_order J H request e) [] log"
    using execute_worker_bill [of J H cf request env e x] assms(1) by (simp add: wp_def worker_bill_def)
  with assms(2) show ?thesis by (auto simp: guarded_iff)
qed

theorem worker_acts_in_order_witness:
  "work_order sample_json sample_hash sample_request sample_envelope
     [WPrepare (Some (sample_result, True, None)), WCtx PrepareCtx None,
        WBind sample_stable (Some None), WCtx PrepareCtx None, WAck (Some None), WCtx PrepareCtx None,
        WBegin None None True] (WRun (Some None))"
proof -
  have c: "rc_validate_task_id sample_config = Some (\<lambda>_. True)" by (simp add: sample_config_def)
  show ?thesis by (rule worker_acts_in_order [OF quiet_worker_run [OF c]]) simp
qed

end
