(* ===== verification/Fq_Recovery_Data.thy ===== *)
theory Fq_Recovery_Data
  imports Fq_Reach
begin

text \<open>
  The data of recovery (\<^verbatim>\<open>model.go\<close>): fences and locks, the control snapshot with the progress of a
  recovery, the references that recovery pages carry, and their validators. Kinds and
  states are the strings of the wire format.
\<close>

subsection \<open>Fences and locks\<close>

abbreviation NORMAL :: string where "NORMAL \<equiv> ''NORMAL''"
abbreviation RABBIT_REPAIR :: string where "RABBIT_REPAIR \<equiv> ''RABBIT_REPAIR''"
abbreviation WRITER_REBIND :: string where "WRITER_REBIND \<equiv> ''WRITER_REBIND''"
abbreviation FORCE_REBUILD :: string where "FORCE_REBUILD \<equiv> ''FORCE_REBUILD''"

text \<open>\<open>RecoveryFence\<close>; \<open>RecoveryKind.special\<close> is \<open>special_kind\<close>.\<close>

record recovery_fence =
  rf_epoch :: string
  rf_writer :: string
  rf_owner :: string
  rf_kind :: string
  rf_operation :: string

definition resource_fence_of :: "recovery_fence \<Rightarrow> resource_fence" where
  "resource_fence_of f = \<lparr> fence_epoch = rf_epoch f, fence_writer = rf_writer f \<rparr>"

definition validate_recovery_fence :: "recovery_fence \<Rightarrow> goerr" where
  "validate_recovery_fence f =
     first_err [
       validate_fence (resource_fence_of f),
       fail_when (\<not> lower_hex 32 (rf_owner f)) (wraps ErrInvalidRecoveryState),
       (if rf_kind f = NORMAL then fail_when (rf_operation f \<noteq> []) (wraps ErrInvalidRecoveryState)
        else fail_when (\<not> special_kind (rf_kind f) \<or> \<not> lower_hex 32 (rf_operation f))
               (wraps ErrInvalidRecoveryState))]"

definition validate_recovery_lock :: "string \<Rightarrow> goerr" where
  "validate_recovery_lock owner = fail_when (\<not> lower_hex 32 owner) (wraps ErrInvalidRecoveryState)"

definition validate_writer :: "string \<Rightarrow> goerr" where
  "validate_writer w = fail_when (\<not> lower_hex 64 w) (wraps ErrInvalidModel)"

subsection \<open>Progress and control\<close>

record pass_progress =
  pp_cycle :: "64 word"
  pp_complete :: bool
  pp_diff :: int

definition validate_pass_progress :: "pass_progress \<Rightarrow> goerr" where
  "validate_pass_progress p =
     fail_when (pp_diff p < 0 \<or> (pp_complete p \<and> pp_cycle p = 0)) (wraps ErrInvalidRecoveryState)"

text \<open>Rabbit repair carries its high water and whether its pass is complete, a writer rebind the two
  writers, a forced rebuild the time before which it may not finish and whether its delete pass is complete.\<close>

record recovery_progress =
  rp_kind :: string
  rp_operation :: string
  rp_high_water :: string
  rp_known :: pass_progress
  rp_dispatched :: pass_progress
  rp_running :: pass_progress
  rp_repair :: "(string \<times> bool) option"
  rp_rebind :: "(string \<times> string) option"
  rp_force :: "(int \<times> bool) option"

definition optional_high_water :: "string \<Rightarrow> goerr" where
  "optional_high_water h = (if h = [] then None else validate_high_water h)"

definition validate_repair_progress :: "string \<times> bool \<Rightarrow> goerr" where
  "validate_repair_progress p =
     first_err [optional_high_water (fst p), fail_when (snd p \<and> fst p = []) (wraps ErrInvalidRecoveryState)]"

definition validate_rebind_progress :: "string \<times> string \<Rightarrow> goerr" where
  "validate_rebind_progress p =
     fail_when (\<not> lower_hex 64 (fst p) \<or> \<not> lower_hex 64 (snd p) \<or> fst p = snd p) (wraps ErrInvalidRecoveryState)"

definition validate_force_progress :: "int \<times> bool \<Rightarrow> goerr" where
  "validate_force_progress p = fail_when (fst p \<le> 0) (wraps ErrInvalidRecoveryState)"

definition validate_progress :: "recovery_progress \<Rightarrow> goerr" where
  "validate_progress p =
     first_err [
       fail_when (rp_kind p \<noteq> NORMAL \<and> \<not> special_kind (rp_kind p)) (wraps ErrInvalidRecoveryState),
       (if rp_kind p = NORMAL then fail_when (rp_operation p \<noteq> []) (wraps ErrInvalidRecoveryState)
        else fail_when (\<not> lower_hex 32 (rp_operation p)) (wraps ErrInvalidRecoveryState)),
       optional_high_water (rp_high_water p),
       validate_pass_progress (rp_known p), validate_pass_progress (rp_dispatched p),
       validate_pass_progress (rp_running p),
       fail_when (rp_high_water p = []
           \<and> (pp_complete (rp_known p) \<or> pp_complete (rp_dispatched p) \<or> pp_complete (rp_running p)))
         (wraps ErrInvalidRecoveryState),
       (if rp_kind p = NORMAL then
          fail_when (rp_repair p \<noteq> None \<or> rp_rebind p \<noteq> None \<or> rp_force p \<noteq> None) (wraps ErrInvalidRecoveryState)
        else if rp_kind p = RABBIT_REPAIR then
          (case (rp_repair p, rp_rebind p, rp_force p) of
             (Some r, None, None) \<Rightarrow> validate_repair_progress r | _ \<Rightarrow> wraps ErrInvalidRecoveryState)
        else if rp_kind p = WRITER_REBIND then
          (case (rp_repair p, rp_rebind p, rp_force p) of
             (None, Some r, None) \<Rightarrow> validate_rebind_progress r | _ \<Rightarrow> wraps ErrInvalidRecoveryState)
        else
          (case (rp_repair p, rp_rebind p, rp_force p) of
             (None, None, Some r) \<Rightarrow> validate_force_progress r | _ \<Rightarrow> wraps ErrInvalidRecoveryState))]"

text \<open>\<open>RecoveryControlSnapshot\<close> of a control that is present; one that is absent is \<open>None\<close>.\<close>

record control_snapshot =
  cs_state :: string
  cs_epoch :: string
  cs_version :: int
  cs_writer :: string
  cs_kind :: string
  cs_operation :: string
  cs_last_id :: string
  cs_last_kind :: string
  cs_progress :: "recovery_progress option"

definition validate_snapshot :: "control_snapshot \<Rightarrow> goerr" where
  "validate_snapshot s =
     first_err [
       fail_when (\<not> lower_hex 32 (cs_epoch s) \<or> \<not> lower_hex 64 (cs_writer s) \<or> cs_version s \<noteq> 1)
         (wraps ErrInvalidRecoveryState),
       (if cs_last_id s = [] then
          fail_when (cs_last_kind s \<noteq> [] \<and> cs_last_kind s \<noteq> ''NONE'') (wraps ErrInvalidRecoveryState)
        else fail_when (\<not> lower_hex 32 (cs_last_id s) \<or> \<not> special_kind (cs_last_kind s))
               (wraps ErrInvalidRecoveryState)),
       (if cs_state s = ''READY'' then
          fail_when (cs_kind s \<noteq> ''NONE'' \<or> cs_operation s \<noteq> [] \<or> cs_progress s \<noteq> None) (wraps ErrInvalidRecoveryState)
        else if cs_state s = ''RECOVERING'' then
          (case cs_progress s of
             None \<Rightarrow> wraps ErrInvalidRecoveryState
           | Some p \<Rightarrow>
               if cs_kind s = ''NONE'' \<or> rp_kind p \<noteq> cs_kind s \<or> rp_operation p \<noteq> cs_operation s
               then wraps ErrInvalidRecoveryState else validate_progress p)
        else wraps ErrInvalidRecoveryState)]"

text \<open>\<open>RecoveryPass\<close>, with the prefix of its fields in the progress hash\<close>

datatype recovery_pass = PassKnownTenants | PassDispatched | PassRunning

definition pass_prefix :: "recovery_pass \<Rightarrow> string" where
  "pass_prefix p = (case p of PassKnownTenants \<Rightarrow> ''known'' | PassDispatched \<Rightarrow> ''dispatched'' | PassRunning \<Rightarrow> ''running'')"

end
