(* ===== verification/Fq_Recovery_Begin.thy ===== *)
theory Fq_Recovery_Begin
  imports Fq_Recovery_Data
begin

text \<open>
  The recovery scripts of \<^verbatim>\<open>redis.go\<close>: the recovery lock, the recovery fence with the stored progress,
  and everything that runs behind it. Scalar replies are lists of one string. \<open>N v\<close> stands for
  Lua's test that \<open>tonumber(v)\<close> is a whole number of at least one; it only decides which error
  a protocol version other than 1 gets. A command on a key of the wrong type aborts its
  script, which the client reports as corrupt coordination data.
\<close>

subsection \<open>Lua values\<close>

abbreviation STALE :: string where "STALE \<equiv> ''FQ_RECOVERY_OWNER_STALE''"

text \<open>\<open>fq_uint\<close> and \<open>fq_bool\<close>\<close>

definition fq_uint :: "string \<Rightarrow> bool \<Rightarrow> bool" where
  "fq_uint v positive =
     (if v = [] \<or> \<not> list_all is_digit v then False
      else if length v > 1 \<and> hd v = CHR ''0'' then False
      else if positive \<and> v = ''0'' then False
      else \<not> (length v > 19 \<or> (length v = 19 \<and> v > ''9223372036854775807'')))"

definition fq_bool :: "string \<Rightarrow> bool" where
  "fq_bool v \<longleftrightarrow> v = ''0'' \<or> v = ''1''"

text \<open>\<open>tonumber\<close> of a canonical decimal: the nearest double, ties to even.\<close>

fun double_ulp :: "nat \<Rightarrow> nat" where
  "double_ulp n = (if n < 2 ^ 53 then 1 else 2 * double_ulp (n div 2))"

declare double_ulp.simps [simp del]

definition lua_double :: "nat \<Rightarrow> nat" where
  "lua_double n =
     (let u = double_ulp n; q = n div u; r = n mod u
      in (if 2 * r > u \<or> (2 * r = u \<and> odd q) then q + 1 else q) * u)"

definition lua_number :: "string \<Rightarrow> nat" where
  "lua_number v = lua_double (digits_value v)"

text \<open>\<open>HSET\<close> of several fields\<close>

definition hset :: "(string \<times> string) list \<Rightarrow> (string \<times> string) list \<Rightarrow> (string \<times> string) list" where
  "hset fs h = fold (\<lambda>(f, v). AList.update f v) fs h"

subsection \<open>The recovery lock\<close>

text \<open>The lock key at a time: a key is gone once its expiry has passed; at that very millisecond
  \<open>PTTL\<close> is zero. \<open>fq_raw_lock\<close> gives the failure, if any.\<close>

definition lock_at :: "int \<Rightarrow> coord \<Rightarrow> lock_value" where
  "lock_at now c =
     (case recovery_lock c of
        LockHeld o1 (Some t) \<Rightarrow> if t < now then LockAbsent else LockHeld o1 (Some t)
      | l \<Rightarrow> l)"

definition lock_ttl_ok :: "int \<Rightarrow> int option \<Rightarrow> bool" where
  "lock_ttl_ok now ttl \<longleftrightarrow> (case ttl of None \<Rightarrow> False | Some t \<Rightarrow> t > now)"

definition raw_lock :: "int \<Rightarrow> string \<Rightarrow> coord \<Rightarrow> string option" where
  "raw_lock now expected_owner c =
     (case lock_at now c of
        LockAbsent \<Rightarrow> Some STALE
      | LockWrongType \<Rightarrow> Some CORRUPT
      | LockHeld own ttl \<Rightarrow>
          if \<not> lower_hex 32 own then Some CORRUPT
          else if \<not> lock_ttl_ok now ttl then Some CORRUPT
          else if own \<noteq> expected_owner then Some STALE
          else None)"

definition set_lock :: "string \<Rightarrow> int \<Rightarrow> coord \<Rightarrow> coord" where
  "set_lock own expiry c = c\<lparr> recovery_lock := LockHeld own (Some expiry) \<rparr>"

definition expire_lock :: "int \<Rightarrow> coord \<Rightarrow> coord" where
  "expire_lock expiry c =
     c\<lparr> recovery_lock := (case recovery_lock c of LockHeld own _ \<Rightarrow> LockHeld own (Some expiry) | l \<Rightarrow> l) \<rparr>"

definition lua_acquire_lock :: "string \<Rightarrow> int \<Rightarrow> int \<Rightarrow> script" where
  "lua_acquire_lock owner ttl now c =
     (case lock_at now c of
        LockAbsent \<Rightarrow> (set_lock owner (now + ttl) c, [OK])
      | LockWrongType \<Rightarrow> (c, [CORRUPT])
      | LockHeld own t \<Rightarrow>
          if \<not> lower_hex 32 own then (c, [CORRUPT])
          else if \<not> lock_ttl_ok now t then (c, [CORRUPT])
          else (c, [NOT_READY]))"

definition locked :: "int \<Rightarrow> string \<Rightarrow> script \<Rightarrow> script" where
  "locked now owner body c = (case raw_lock now owner c of Some failure \<Rightarrow> (c, [failure]) | None \<Rightarrow> body c)"

definition lua_check_lock :: "string \<Rightarrow> int \<Rightarrow> script" where
  "lua_check_lock owner now = locked now owner (\<lambda>c. (c, [OK]))"

definition lua_renew_lock :: "string \<Rightarrow> int \<Rightarrow> int \<Rightarrow> script" where
  "lua_renew_lock owner ttl now = locked now owner (\<lambda>c. (expire_lock (now + ttl) c, [OK]))"

definition lua_release_lock :: "string \<Rightarrow> int \<Rightarrow> script" where
  "lua_release_lock owner now = locked now owner (\<lambda>c. (c\<lparr> recovery_lock := LockAbsent \<rparr>, [OK]))"

subsection \<open>Stored control and progress\<close>

definition ctl :: "coord \<Rightarrow> string \<Rightarrow> string" where
  "ctl c f = the (map_of (control c) f)"

definition prog :: "coord \<Rightarrow> string \<Rightarrow> string" where
  "prog c f = the (map_of (progress c) f)"

definition control_absent :: "coord \<Rightarrow> bool" where
  "control_absent c \<longleftrightarrow> KControl \<notin> wrong_type c \<and> control c = []"

definition control_readable :: "coord \<Rightarrow> bool" where
  "control_readable c \<longleftrightarrow> KControl \<notin> wrong_type c \<and> list_all (\<lambda>f. map_of (control c) f \<noteq> None) control_fields"

definition progress_exists :: "coord \<Rightarrow> bool" where
  "progress_exists c \<longleftrightarrow> progress c \<noteq> [] \<or> KProgress \<in> wrong_type c"

definition progress_fields :: "string list" where
  "progress_fields =
     [''epoch'', ''operation_kind'', ''operation_id'', ''high_water'',
      ''known_cycle'', ''known_complete'', ''known_diff'',
      ''dispatched_cycle'', ''dispatched_complete'', ''dispatched_diff'',
      ''running_cycle'', ''running_complete'', ''running_diff'',
      ''repair_high_water'', ''repair_complete'', ''rebind_original_writer'', ''rebind_target_writer'',
      ''force_not_before_ms'', ''force_delete_complete'']"

definition progress_readable :: "coord \<Rightarrow> bool" where
  "progress_readable c \<longleftrightarrow> KProgress \<notin> wrong_type c \<and> list_all (\<lambda>f. map_of (progress c) f \<noteq> None) progress_fields"

text \<open>The identity of the last completed operation\<close>

definition last_completed_ok :: "string \<Rightarrow> string \<Rightarrow> bool" where
  "last_completed_ok i k \<longleftrightarrow>
     \<not> ((i = [] \<and> k \<noteq> ''NONE'') \<or> (i \<noteq> [] \<and> (\<not> lower_hex 32 i \<or> \<not> special_kind k)))"

text \<open>What the fence and \<open>canonical_progress\<close> demand of the progress of any recovery, and of each kind.\<close>

definition common_progress_ok :: "(string \<Rightarrow> string) \<Rightarrow> bool" where
  "common_progress_ok p \<longleftrightarrow>
     lua_fq_high_water (p ''high_water'')
     \<and> list_all (\<lambda>f. fq_uint (p f) False) [''known_cycle'', ''known_diff'', ''dispatched_cycle'', ''dispatched_diff'',
          ''running_cycle'', ''running_diff'']
     \<and> list_all (\<lambda>f. fq_bool (p f)) [''known_complete'', ''dispatched_complete'', ''running_complete'',
          ''repair_complete'', ''force_delete_complete'']
     \<and> \<not> ((p ''known_complete'' = ''1'' \<and> p ''known_cycle'' = ''0'')
          \<or> (p ''dispatched_complete'' = ''1'' \<and> p ''dispatched_cycle'' = ''0'')
          \<or> (p ''running_complete'' = ''1'' \<and> p ''running_cycle'' = ''0'')
          \<or> (p ''high_water'' = []
             \<and> (p ''known_complete'' = ''1'' \<or> p ''dispatched_complete'' = ''1'' \<or> p ''running_complete'' = ''1'')))"

definition special_progress_ok :: "string \<Rightarrow> string \<Rightarrow> string \<Rightarrow> (string \<Rightarrow> string) \<Rightarrow> bool" where
  "special_progress_ok kind operation writer p =
     (let no_repair = (p ''repair_high_water'' = [] \<and> p ''repair_complete'' = ''0'');
          no_rebind = (p ''rebind_original_writer'' = [] \<and> p ''rebind_target_writer'' = []);
          no_force = (p ''force_not_before_ms'' = [] \<and> p ''force_delete_complete'' = ''0'')
      in if kind = NORMAL then operation = [] \<and> no_repair \<and> no_rebind \<and> no_force
         else if kind = RABBIT_REPAIR then
           lower_hex 32 operation \<and> lua_fq_high_water (p ''repair_high_water'')
           \<and> \<not> (p ''repair_complete'' = ''1'' \<and> p ''repair_high_water'' = []) \<and> no_rebind \<and> no_force
         else if kind = WRITER_REBIND then
           lower_hex 32 operation \<and> no_repair
           \<and> lower_hex 64 (p ''rebind_original_writer'') \<and> lower_hex 64 (p ''rebind_target_writer'')
           \<and> p ''rebind_original_writer'' \<noteq> p ''rebind_target_writer'' \<and> p ''rebind_target_writer'' = writer \<and> no_force
         else if kind = FORCE_REBUILD then
           lower_hex 32 operation \<and> no_repair \<and> no_rebind \<and> fq_uint (p ''force_not_before_ms'') True
         else False)"

subsection \<open>The recovery fence\<close>

text \<open>\<open>fq_recovery_fence\<close>, after the lock check\<close>

definition recovery_fence_control :: "(string \<Rightarrow> bool) \<Rightarrow> recovery_fence \<Rightarrow> coord \<Rightarrow> string option" where
  "recovery_fence_control N f c =
     (if control_absent c then Some NOT_READY
      else if \<not> control_readable c then Some CORRUPT
      else if \<not> N (ctl c ''protocol_version'') then Some CORRUPT
      else if ctl c ''protocol_version'' \<noteq> ''1'' then Some FENCE
      else if \<not> lower_hex 32 (ctl c ''epoch'') \<or> \<not> lower_hex 64 (ctl c ''writer_fingerprint'')
        \<or> \<not> last_completed_ok (ctl c ''last_completed_operation_id'') (ctl c ''last_completed_operation_kind'')
        then Some CORRUPT
      else if ctl c ''state'' \<noteq> ''RECOVERING'' then Some NOT_READY
      else if ctl c ''epoch'' \<noteq> rf_epoch f \<or> ctl c ''writer_fingerprint'' \<noteq> rf_writer f
        \<or> ctl c ''operation_kind'' \<noteq> rf_kind f \<or> ctl c ''operation_id'' \<noteq> rf_operation f then Some FENCE
      else if ctl c ''operation_kind'' \<noteq> NORMAL
        \<and> ctl c ''last_completed_operation_id'' = ctl c ''operation_id'' then Some CORRUPT
      else None)"

definition recovery_fence_progress :: "recovery_fence \<Rightarrow> coord \<Rightarrow> string option" where
  "recovery_fence_progress f c =
     (if \<not> progress_exists c then Some CORRUPT
      else if \<not> progress_readable c then Some CORRUPT
      else if prog c ''epoch'' \<noteq> rf_epoch f \<or> prog c ''operation_kind'' \<noteq> rf_kind f
        \<or> prog c ''operation_id'' \<noteq> rf_operation f then Some CORRUPT
      else if \<not> common_progress_ok (prog c) then Some CORRUPT
      else if rf_kind f \<noteq> NORMAL \<and> \<not> special_kind (rf_kind f) then Some FENCE
      else if \<not> special_progress_ok (rf_kind f) (rf_operation f) (rf_writer f) (prog c) then Some CORRUPT
      else None)"

definition check_recovery :: "(string \<Rightarrow> bool) \<Rightarrow> int \<Rightarrow> recovery_fence \<Rightarrow> coord \<Rightarrow> string option" where
  "check_recovery N now f c =
     (case raw_lock now (rf_owner f) c of
        Some failure \<Rightarrow> Some failure
      | None \<Rightarrow>
          (case recovery_fence_control N f c of
             Some failure \<Rightarrow> Some failure
           | None \<Rightarrow> recovery_fence_progress f c))"

definition recovery_fenced :: "(string \<Rightarrow> bool) \<Rightarrow> int \<Rightarrow> recovery_fence \<Rightarrow> script \<Rightarrow> script" where
  "recovery_fenced N now f body c = (case check_recovery N now f c of Some failure \<Rightarrow> (c, [failure]) | None \<Rightarrow> body c)"

definition lua_check_recovery :: "(string \<Rightarrow> bool) \<Rightarrow> recovery_fence \<Rightarrow> int \<Rightarrow> script" where
  "lua_check_recovery N f now = recovery_fenced N now f (\<lambda>c. (c, [OK]))"

definition lua_renew_recovery :: "(string \<Rightarrow> bool) \<Rightarrow> recovery_fence \<Rightarrow> int \<Rightarrow> int \<Rightarrow> script" where
  "lua_renew_recovery N f ttl now = recovery_fenced N now f (\<lambda>c. (expire_lock (now + ttl) c, [OK]))"

subsection \<open>Beginning a recovery\<close>

text \<open>\<open>canonical_progress\<close>\<close>

definition canonical_progress :: "coord \<Rightarrow> bool" where
  "canonical_progress c \<longleftrightarrow>
     progress_exists c \<and> progress_readable c
     \<and> prog c ''epoch'' = ctl c ''epoch'' \<and> prog c ''operation_kind'' = ctl c ''operation_kind''
     \<and> prog c ''operation_id'' = ctl c ''operation_id'' \<and> common_progress_ok (prog c)
     \<and> special_progress_ok (ctl c ''operation_kind'') (ctl c ''operation_id'') (ctl c ''writer_fingerprint'') (prog c)"

record begin_args =
  ba_owner :: string
  ba_epoch :: string
  ba_ttl :: int
  ba_kind :: string
  ba_operation :: string
  ba_writer_a :: string
  ba_writer_b :: string
  ba_force_not_before :: string

text \<open>The existing control is checked (first error), then the transition is chosen: the code of a refusal, or
  whether the progress starts anew and the writer of the recovery.\<close>

definition begin_control_error :: "coord \<Rightarrow> string option" where
  "begin_control_error c =
     (let kind = ctl c ''operation_kind''; operation = ctl c ''operation_id'' in
      if \<not> control_readable c then Some CORRUPT
      else if \<not> lower_hex 32 (ctl c ''epoch'') \<or> \<not> lower_hex 64 (ctl c ''writer_fingerprint'')
        \<or> \<not> last_completed_ok (ctl c ''last_completed_operation_id'') (ctl c ''last_completed_operation_kind'')
        \<or> \<not> fq_uint (ctl c ''protocol_version'') True then Some CORRUPT
      else if ctl c ''protocol_version'' \<noteq> ''1'' then Some FENCE
      else if ctl c ''state'' = ''READY'' then
        (if kind \<noteq> ''NONE'' \<or> operation \<noteq> [] then Some CORRUPT else None)
      else if ctl c ''state'' = ''RECOVERING'' then
        (if (if kind = NORMAL then operation \<noteq> [] else \<not> special_kind kind \<or> \<not> lower_hex 32 operation) then Some CORRUPT
         else if kind \<noteq> NORMAL \<and> ctl c ''last_completed_operation_id'' = operation then Some CORRUPT
         else if \<not> canonical_progress c then Some CORRUPT
         else None)
      else Some CORRUPT)"

definition begin_transition :: "begin_args \<Rightarrow> coord \<Rightarrow> string + bool \<times> string" where
  "begin_transition a c =
     (let kind = ctl c ''operation_kind''; operation = ctl c ''operation_id''; writer = ctl c ''writer_fingerprint'';
          prev = ctl c ''last_completed_operation_id'' in
      if ctl c ''state'' = ''READY'' then
        (if kind \<noteq> ''NONE'' \<or> operation \<noteq> [] \<or> progress_exists c then Inl CORRUPT
         else if ba_kind a = FORCE_REBUILD then Inl NOT_READY
         else if writer \<noteq> ba_writer_a a then Inl FENCE
         else if ba_kind a = WRITER_REBIND then
           (if prev = ba_operation a then Inl INVALID else Inr (True, ba_writer_b a))
         else if ba_kind a \<noteq> NORMAL \<and> prev = ba_operation a then Inl INVALID
         else Inr (True, ba_writer_a a))
      else if ba_kind a = FORCE_REBUILD \<and> kind = NORMAL then
        (if writer \<noteq> ba_writer_a a \<or> operation \<noteq> [] then Inl FENCE else Inr (True, ba_writer_a a))
      else if kind = ba_kind a \<and> operation = ba_operation a then
        (if ba_kind a = WRITER_REBIND then
           (if writer \<noteq> ba_writer_b a then Inl FENCE
            else if prog c ''rebind_original_writer'' \<noteq> ba_writer_a a \<or> prog c ''rebind_target_writer'' \<noteq> ba_writer_b a
            then Inl FENCE
            else Inr (False, ba_writer_b a))
         else if writer \<noteq> ba_writer_a a then Inl FENCE
         else if ba_kind a = FORCE_REBUILD \<and> prog c ''force_not_before_ms'' \<noteq> ba_force_not_before a then Inl FENCE
         else Inr (False, ba_writer_a a))
      else Inl FENCE)"

definition fresh_progress :: "begin_args \<Rightarrow> (string \<times> string) list" where
  "fresh_progress a =
     [(''epoch'', ba_epoch a), (''operation_kind'', ba_kind a), (''operation_id'', ba_operation a), (''high_water'', []),
      (''known_cycle'', ''0''), (''known_complete'', ''0''), (''known_diff'', ''0''),
      (''dispatched_cycle'', ''0''), (''dispatched_complete'', ''0''), (''dispatched_diff'', ''0''),
      (''running_cycle'', ''0''), (''running_complete'', ''0''), (''running_diff'', ''0''),
      (''repair_high_water'', []), (''repair_complete'', ''0''),
      (''rebind_original_writer'', []), (''rebind_target_writer'', []),
      (''force_not_before_ms'', []), (''force_delete_complete'', ''0'')]"

definition begin_commit :: "begin_args \<Rightarrow> int \<Rightarrow> bool \<Rightarrow> string \<Rightarrow> string \<Rightarrow> string \<Rightarrow> coord \<Rightarrow> coord" where
  "begin_commit a now initialize target prev prev_kind c =
     (let c1 = c\<lparr> control := hset [(''epoch'', ba_epoch a), (''state'', ''RECOVERING''), (''operation_kind'', ba_kind a),
            (''operation_id'', ba_operation a), (''last_completed_operation_id'', prev),
            (''last_completed_operation_kind'', prev_kind), (''protocol_version'', ''1''),
            (''writer_fingerprint'', target)] (control c) \<rparr>;
          c2 = (if initialize then
                  (let p = fresh_progress a;
                       p = (if ba_kind a = WRITER_REBIND
                            then hset [(''rebind_original_writer'', ba_writer_a a), (''rebind_target_writer'', ba_writer_b a)] p
                            else if ba_kind a = FORCE_REBUILD
                            then hset [(''force_not_before_ms'', ba_force_not_before a)] p else p)
                   in c1\<lparr> progress := p, wrong_type := wrong_type c1 - {KProgress} \<rparr>)
                else c1\<lparr> progress := hset [(''epoch'', ba_epoch a)] (progress c1) \<rparr>)
      in expire_lock (now + ba_ttl a) c2)"

definition lua_begin_recovery :: "begin_args \<Rightarrow> int \<Rightarrow> script" where
  "lua_begin_recovery a now = locked now (ba_owner a) (\<lambda>c.
     let finish = (\<lambda>initialize target prev prev_kind.
           if ba_kind a \<noteq> NORMAL \<and> \<not> special_kind (ba_kind a) then (c, [INVALID])
           else if ba_kind a = NORMAL \<and> ba_operation a \<noteq> [] then (c, [INVALID])
           else if ba_kind a \<noteq> NORMAL \<and> ba_operation a = [] then (c, [INVALID])
           else (begin_commit a now initialize target prev prev_kind c, [OK, ba_epoch a, target]))
     in if control_absent c then
          (if progress_exists c then (c, [CORRUPT])
           else finish True (if ba_kind a = WRITER_REBIND then ba_writer_b a else ba_writer_a a) [] ''NONE'')
        else case begin_control_error c of
            Some e \<Rightarrow> (c, [e])
          | None \<Rightarrow>
              (case begin_transition a c of
                 Inl e \<Rightarrow> (c, [e])
               | Inr (initialize, target) \<Rightarrow>
                   finish initialize target (ctl c ''last_completed_operation_id'') (ctl c ''last_completed_operation_kind'')))"

end
