(* ===== verification/Fq_Recovery_Scripts.thy ===== *)
theory Fq_Recovery_Scripts
  imports Fq_Recovery_Begin
begin

text \<open>
  The recovery scripts of \<^verbatim>\<open>redis.go\<close> that run behind the recovery fence: what inspects, resets, restores and
  finishes.
\<close>

subsection \<open>Inspection\<close>

text \<open>\<open>redisInspectRecoveryScript\<close>\<close>

definition lua_inspect_recovery :: "(string \<Rightarrow> bool) \<Rightarrow> string \<Rightarrow> int \<Rightarrow> script" where
  "lua_inspect_recovery N owner now = locked now owner (\<lambda>c. (c,
     if control_absent c then (if progress_exists c then [CORRUPT] else [OK, ''0''])
     else if \<not> control_readable c then [CORRUPT]
     else
       let kind = ctl c ''operation_kind''; operation = ctl c ''operation_id'';
           head = [OK, ''1'', ctl c ''state'', ctl c ''epoch'', ctl c ''protocol_version'', ctl c ''writer_fingerprint'',
             kind, operation, ctl c ''last_completed_operation_id'', ctl c ''last_completed_operation_kind'']
       in if \<not> N (ctl c ''protocol_version'') \<or> \<not> lower_hex 32 (ctl c ''epoch'') \<or> \<not> lower_hex 64 (ctl c ''writer_fingerprint'')
            \<or> \<not> last_completed_ok (ctl c ''last_completed_operation_id'') (ctl c ''last_completed_operation_kind'')
          then [CORRUPT]
          else if ctl c ''protocol_version'' \<noteq> ''1'' then [FENCE]
          else if ctl c ''state'' = ''READY'' then
            (if kind \<noteq> ''NONE'' \<or> operation \<noteq> [] \<or> progress_exists c then [CORRUPT] else head)
          else if ctl c ''state'' \<noteq> ''RECOVERING'' \<or> kind = ''NONE'' \<or> \<not> progress_exists c then [CORRUPT]
          else if kind \<noteq> NORMAL \<and> ctl c ''last_completed_operation_id'' = operation then [CORRUPT]
          else if \<not> progress_readable c then [CORRUPT]
          else if prog c ''epoch'' \<noteq> ctl c ''epoch'' \<or> prog c ''operation_kind'' \<noteq> kind
            \<or> prog c ''operation_id'' \<noteq> operation then [CORRUPT]
          else head @ map (prog c) progress_fields))"

text \<open>\<open>redisForceDeadlineScript\<close>: seconds and microseconds of the server's clock\<close>

definition lua_force_deadline :: "string \<Rightarrow> nat \<Rightarrow> int \<Rightarrow> script" where
  "lua_force_deadline owner micros now = locked now owner (\<lambda>c.
     (c, [OK, format_uint (micros div 1000000), format_uint (micros mod 1000000)]))"

subsection \<open>Progress\<close>

definition set_progress :: "(string \<times> string) list \<Rightarrow> coord \<Rightarrow> coord" where
  "set_progress fs c = c\<lparr> progress := hset fs (progress c) \<rparr>"

definition lua_set_high_water :: "(string \<Rightarrow> bool) \<Rightarrow> recovery_fence \<Rightarrow> string \<Rightarrow> int \<Rightarrow> script" where
  "lua_set_high_water N f hw now = recovery_fenced N now f (\<lambda>c.
     if prog c ''high_water'' \<noteq> [] \<and> prog c ''high_water'' \<noteq> hw then (c, [FENCE])
     else if prog c ''high_water'' = [] then
       (set_progress [(''high_water'', hw),
          (''known_cycle'', ''0''), (''known_complete'', ''0''), (''known_diff'', ''0''),
          (''dispatched_cycle'', ''0''), (''dispatched_complete'', ''0''), (''dispatched_diff'', ''0''),
          (''running_cycle'', ''0''), (''running_complete'', ''0''), (''running_diff'', ''0'')] c, [OK])
     else (c, [OK]))"

text \<open>\<open>redisMarkRecoveryPassScript\<close>. The requested numbers are decimal, being formatted by the client.\<close>

definition lua_mark_pass ::
  "(string \<Rightarrow> bool) \<Rightarrow> recovery_fence \<Rightarrow> string \<Rightarrow> string \<Rightarrow> string \<Rightarrow> string \<Rightarrow> int \<Rightarrow> script" where
  "lua_mark_pass N f prefix cycle complete diff now = recovery_fenced N now f (\<lambda>c.
     if prog c ''high_water'' = [] then (c, [NOT_READY])
     else if prefix \<noteq> ''known'' \<and> prefix \<noteq> ''dispatched'' \<and> prefix \<noteq> ''running'' then (c, [INVALID])
     else
       let current_cycle = lua_number (prog c (prefix @ ''_cycle''));
           current_complete = prog c (prefix @ ''_complete'');
           current_diff = lua_number (prog c (prefix @ ''_diff''))
       in if lua_number cycle < current_cycle then (c, [FENCE])
          else if lua_number cycle = current_cycle \<and> current_complete = ''1'' then
            (if complete = ''1'' \<and> lua_number diff = current_diff then (c, [OK]) else (c, [FENCE]))
          else (set_progress [(prefix @ ''_cycle'', cycle), (prefix @ ''_complete'', complete), (prefix @ ''_diff'', diff)] c,
                [OK]))"

definition lua_set_repair_high_water :: "(string \<Rightarrow> bool) \<Rightarrow> recovery_fence \<Rightarrow> string \<Rightarrow> int \<Rightarrow> script" where
  "lua_set_repair_high_water N f hw now = recovery_fenced N now f (\<lambda>c.
     if rf_kind f \<noteq> RABBIT_REPAIR then (c, [FENCE])
     else if prog c ''repair_high_water'' \<noteq> [] \<and> prog c ''repair_high_water'' \<noteq> hw then (c, [FENCE])
     else if prog c ''repair_high_water'' = [] then
       (set_progress [(''repair_high_water'', hw), (''repair_complete'', ''0'')] c, [OK])
     else (c, [OK]))"

definition lua_mark_repair_complete :: "(string \<Rightarrow> bool) \<Rightarrow> recovery_fence \<Rightarrow> int \<Rightarrow> script" where
  "lua_mark_repair_complete N f now = recovery_fenced N now f (\<lambda>c.
     if rf_kind f \<noteq> RABBIT_REPAIR then (c, [FENCE])
     else if prog c ''repair_high_water'' = [] then (c, [NOT_READY])
     else (set_progress [(''repair_complete'', ''1'')] c, [OK]))"

definition lua_mark_force_delete_complete :: "(string \<Rightarrow> bool) \<Rightarrow> recovery_fence \<Rightarrow> int \<Rightarrow> script" where
  "lua_mark_force_delete_complete N f now = recovery_fenced N now f (\<lambda>c.
     if rf_kind f \<noteq> FORCE_REBUILD then (c, [FENCE])
     else (set_progress [(''force_delete_complete'', ''1'')] c, [OK]))"

subsection \<open>Deletion\<close>

text \<open>The keys of the coordination state other than control, lock, progress and the tenants' sets\<close>

definition rebuilt_keys :: "redis_key list" where
  "rebuilt_keys = [KRing, KRingMembers, KActiveUsers, KKnownUsers, KActivationGen, KProcessingTurns, KTurnToTenant,
     KTurnToGeneration, KTenantToTurn, KGlobalInflight, KStableIndex, KReservationMeta, KProvisional]"

definition del_key :: "redis_key \<Rightarrow> coord \<Rightarrow> coord" where
  "del_key k c =
     (let c = c\<lparr> wrong_type := wrong_type c - {k} \<rparr> in
      case k of
        KControl \<Rightarrow> c\<lparr> control := [] \<rparr>
      | KProgress \<Rightarrow> c\<lparr> progress := [] \<rparr>
      | KRing \<Rightarrow> c\<lparr> ring := [] \<rparr>
      | KRingMembers \<Rightarrow> c\<lparr> ring_members := {} \<rparr>
      | KActiveUsers \<Rightarrow> c\<lparr> active_users := {} \<rparr>
      | KKnownUsers \<Rightarrow> c\<lparr> known_users := {} \<rparr>
      | KActivationGen \<Rightarrow> c\<lparr> activation_gen := Map.empty \<rparr>
      | KProcessingTurns \<Rightarrow> c\<lparr> processing_turns := [] \<rparr>
      | KTurnToTenant \<Rightarrow> c\<lparr> turn_to_tenant := Map.empty \<rparr>
      | KTurnToGeneration \<Rightarrow> c\<lparr> turn_to_generation := Map.empty \<rparr>
      | KTenantToTurn \<Rightarrow> c\<lparr> tenant_to_turn := Map.empty \<rparr>
      | KGlobalInflight \<Rightarrow> c\<lparr> global_inflight := [] \<rparr>
      | KProvisional \<Rightarrow> c\<lparr> provisional := [] \<rparr>
      | KStableIndex \<Rightarrow> c\<lparr> stable_index := [] \<rparr>
      | KReservationMeta \<Rightarrow> c\<lparr> reservation_meta := [] \<rparr>
      | KTenantInflight t \<Rightarrow> c\<lparr> tenant_inflight := (tenant_inflight c)(t := []) \<rparr>)"

definition lua_reset_resource :: "(string \<Rightarrow> bool) \<Rightarrow> recovery_fence \<Rightarrow> int \<Rightarrow> script" where
  "lua_reset_resource N f now = recovery_fenced N now f (\<lambda>c.
     if KProcessingTurns \<in> wrong_type c then (c, [CORRUPT])
     else if zcard (processing_turns c) \<noteq> 0 then (c, [NOT_READY])
     else if KProvisional \<in> wrong_type c then (c, [CORRUPT])
     else if zcard (provisional c) \<noteq> 0 then (c, [NOT_READY])
     else (fold del_key rebuilt_keys c, [OK]))"

text \<open>The key of the model that a key name denotes, control, lock and progress apart; other names in the namespace of the resource are not
  part of the coordination state.\<close>

definition named_key :: "keyspace \<Rightarrow> string \<Rightarrow> redis_key option" where
  "named_key k s =
     (case map_of (zip (drop 3 (keyspace_all k))
         [KRing, KRingMembers, KActiveUsers, KKnownUsers, KActivationGen, KProcessingTurns,
          KTurnToTenant, KTurnToGeneration, KTenantToTurn, KGlobalInflight, KProvisional, KStableIndex, KReservationMeta]) s of
        Some key \<Rightarrow> Some key
      | None \<Rightarrow>
          if take (length (tenant_key_prefix k)) s = tenant_key_prefix k then Some (KTenantInflight s) else None)"

definition del_named :: "keyspace \<Rightarrow> string \<Rightarrow> coord \<Rightarrow> coord" where
  "del_named k s c = (case named_key k s of None \<Rightarrow> c | Some key \<Rightarrow> del_key key c)"

definition lua_delete_owned ::
  "(string \<Rightarrow> bool) \<Rightarrow> recovery_fence \<Rightarrow> keyspace \<Rightarrow> string list \<Rightarrow> int \<Rightarrow> script" where
  "lua_delete_owned N f k names now = recovery_fenced N now f (\<lambda>c.
     if list_ex (\<lambda>s. take (length (ks_root k)) s \<noteq> ks_root k \<or> s = ks_control k \<or> s = ks_recovery_lock k
          \<or> s = ks_progress k) names then (c, [INVALID])
     else (fold (del_named k) names c, [OK]))"

subsection \<open>Expired leases\<close>

text \<open>\<open>redisRecoveryReapExpiredScript\<close>\<close>

definition recovery_turn_check :: "int \<Rightarrow> coord \<Rightarrow> string \<Rightarrow> string option" where
  "recovery_turn_check now c tok =
     (case (turn_to_tenant c tok, turn_to_generation c tok, zscore (processing_turns c) tok) of
        (Some tenant, Some generation, Some score) \<Rightarrow>
          if \<not> lower_hex 32 tok \<or> tenant = [] \<or> length tenant > 480 \<or> \<not> fq_uint generation True \<or> score \<le> 0
            \<or> tenant_to_turn c tenant \<noteq> Some tok \<or> score > now then None
          else (case activation_gen c tenant of
              None \<Rightarrow> None
            | Some current \<Rightarrow>
                if \<not> fq_uint current True \<or> lua_number current < lua_number generation
                  \<or> tenant \<notin> known_users c \<or> tenant \<notin> active_users c \<or> tenant \<in> ring_members c
                  \<or> lpos tenant (ring c) \<noteq> [] then None
                else Some tenant)
      | _ \<Rightarrow> None)"

definition recovery_provisional_check ::
  "(string \<Rightarrow> string) \<Rightarrow> string \<Rightarrow> string \<Rightarrow> coord \<Rightarrow> string \<Rightarrow> string option" where
  "recovery_provisional_check H prefix resource c tok =
     (if take 2 tok \<noteq> ''p:'' \<or> \<not> lower_hex 32 (drop 2 tok) then None
      else case parse_meta H (hget (reservation_meta c) tok) kindP prefix resource of
          None \<Rightarrow> None
        | Some m \<Rightarrow>
            if length (meta_tenant m) > 480 \<or> KTenantInflight (meta_tenant_key m) \<in> wrong_type c then None
            else (case (zscore (provisional c) tok, zscore (global_inflight c) tok,
                        zscore (tenant_inflight c (meta_tenant_key m)) tok) of
                (Some p, Some g, Some t) \<Rightarrow>
                  if zscore (stable_index c) tok \<noteq> None \<or> p \<le> 0 \<or> p \<noteq> g \<or> p \<noteq> t then None
                  else Some (meta_tenant_key m)
              | _ \<Rightarrow> None))"

definition recovery_reap_turn :: "string \<Rightarrow> string \<Rightarrow> coord \<Rightarrow> coord" where
  "recovery_reap_turn tok tenant c =
     (let c = c\<lparr> processing_turns := zrem tok (processing_turns c),
                 turn_to_tenant := (turn_to_tenant c)(tok := None),
                 turn_to_generation := (turn_to_generation c)(tok := None),
                 tenant_to_turn := (tenant_to_turn c)(tenant := None) \<rparr>
      in if tenant \<in> active_users c \<and> tenant \<notin> ring_members c
         then c\<lparr> ring_members := insert tenant (ring_members c), ring := ring c @ [tenant] \<rparr> else c)"

definition recovery_reap_keys :: "redis_key list" where
  "recovery_reap_keys = [KRing, KRingMembers, KActiveUsers, KProcessingTurns, KTurnToTenant, KTurnToGeneration,
     KTenantToTurn, KProvisional, KGlobalInflight, KReservationMeta, KActivationGen, KStableIndex, KKnownUsers]"

definition lua_recovery_reap ::
  "(string \<Rightarrow> bool) \<Rightarrow> (string \<Rightarrow> string) \<Rightarrow> recovery_fence \<Rightarrow> nat \<Rightarrow> string \<Rightarrow> string \<Rightarrow> int \<Rightarrow> script" where
  "lua_recovery_reap N H f limit prefix resource now = recovery_fenced N now f (\<lambda>c.
     if \<not> types_ok c recovery_reap_keys then (c, [CORRUPT])
     else if limit < 1 then (c, [INVALID])
     else
       let provisionals = zexpired now limit (provisional c);
           remaining = limit - length provisionals;
           turns = (if remaining > 0 then zexpired now remaining (processing_turns c) else [])
       in case (all_some (recovery_turn_check now c) turns,
                all_some (recovery_provisional_check H prefix resource c) provisionals) of
            (Some tenants, Some keys) \<Rightarrow>
              let c = fold (\<lambda>(tok, tenant). recovery_reap_turn tok tenant) (zip turns tenants) c;
                  c = fold (\<lambda>(tok, key). drop_reservation kindP key tok) (zip provisionals keys) c
              in (c, [OK, format_uint (length provisionals), format_uint (length turns),
                      format_uint (zcard (provisional c)), format_uint (zcard (processing_turns c))])
          | _ \<Rightarrow> (c, [CORRUPT]))"

subsection \<open>Restoration\<close>

definition lua_restore_known :: "(string \<Rightarrow> bool) \<Rightarrow> recovery_fence \<Rightarrow> string \<Rightarrow> int \<Rightarrow> script" where
  "lua_restore_known N f tenant now = recovery_fenced N now f (\<lambda>c.
     if \<not> types_ok c [KKnownUsers] then (c, [CORRUPT])
     else (c\<lparr> known_users := insert tenant (known_users c) \<rparr>, [OK]))"

definition lua_restore_active :: "(string \<Rightarrow> bool) \<Rightarrow> recovery_fence \<Rightarrow> string \<Rightarrow> int \<Rightarrow> script" where
  "lua_restore_active N f tenant now = recovery_fenced N now f (\<lambda>c.
     if \<not> types_ok c [KKnownUsers, KActiveUsers, KActivationGen, KRing, KRingMembers, KTenantToTurn] then (c, [CORRUPT])
     else if tenant_to_turn c tenant \<noteq> None then (c, [CORRUPT])
     else
       let known = tenant \<in> known_users c; active = tenant \<in> active_users c; ring_member = tenant \<in> ring_members c;
           positions = length (take 2 (lpos tenant (ring c))); generation = activation_gen c tenant;
           generation_ok = (case generation of None \<Rightarrow> False | Some g \<Rightarrow> fq_uint g True)
       in if (ring_member \<and> positions \<noteq> 1) \<or> (\<not> ring_member \<and> positions \<noteq> 0)
            \<or> (active \<and> (\<not> known \<or> \<not> ring_member \<or> \<not> generation_ok))
            \<or> (\<not> active \<and> ring_member)
            \<or> (\<not> known \<and> generation \<noteq> None)
            \<or> (generation \<noteq> None \<and> \<not> generation_ok) then (c, [CORRUPT])
          else if active then (c, [OK])
          else if generation = Some ''9223372036854775807'' then (c, [CORRUPT])
          else
            let c = c\<lparr> activation_gen := (activation_gen c)(tenant \<mapsto> hincr generation),
                       known_users := insert tenant (known_users c), active_users := insert tenant (active_users c) \<rparr>
            in if ring_member then (c, [CORRUPT])
               else (c\<lparr> ring_members := insert tenant (ring_members c), ring := ring c @ [tenant] \<rparr>, [OK]))"

text \<open>The metadata of a stable reservation, as the recovery scripts read it: its tenant and key.\<close>

definition stable_names_ok :: "json \<Rightarrow> bool" where
  "stable_names_ok v \<longleftrightarrow> list_all (\<lambda>n. n \<in> {''tenant'', ''tenant_key'', ''kind''}) (lua_names v) \<and> length (lua_names v) = 3"

definition lua_restore_inflight ::
  "(string \<Rightarrow> bool) \<Rightarrow> recovery_fence \<Rightarrow> string \<Rightarrow> string \<Rightarrow> string \<Rightarrow> int \<Rightarrow> int \<Rightarrow> script" where
  "lua_restore_inflight N f tenant key stok ttl now = recovery_fenced N now f (\<lambda>c.
     if \<not> types_ok c [KTenantInflight key, KGlobalInflight, KStableIndex, KReservationMeta, KProvisional] then (c, [CORRUPT])
     else if zscore (provisional c) stok \<noteq> None then (c, [CORRUPT])
     else
       let failure = (case hget (reservation_meta c) stok of
               None \<Rightarrow> None
             | Some None \<Rightarrow> Some FENCE
             | Some (Some v) \<Rightarrow>
                 if lua_field v ''kind'' \<noteq> Some (JStr kindS) \<or> lua_field v ''tenant'' \<noteq> Some (JStr tenant)
                   \<or> lua_field v ''tenant_key'' \<noteq> Some (JStr key) then Some FENCE
                 else if \<not> stable_names_ok v then Some CORRUPT
                 else None)
       in case failure of
            Some e \<Rightarrow> (c, [e])
          | None \<Rightarrow> (add_stable (now + ttl) stok tenant key c, [OK]))"

text \<open>\<open>tostring\<close> of a whole number prints up to 14 digits; other values get a text that the client does
  not accept as a positive integer.\<close>

definition lua_tostring :: "int \<Rightarrow> string" where
  "lua_tostring n = (if 0 \<le> n \<and> n < 10 ^ 14 then format_uint (nat n) else ''1e+14'')"

definition recovery_stable_row :: "string \<Rightarrow> coord \<Rightarrow> string \<Rightarrow> string list option" where
  "recovery_stable_row prefix c tok =
     (if take 2 tok \<noteq> ''r:'' \<or> \<not> lower_hex 64 (drop 2 tok) then None
      else case hget (reservation_meta c) tok of
          Some (Some v) \<Rightarrow>
            (case (lua_field v ''tenant'', lua_field v ''tenant_key'') of
               (Some (JStr tenant), Some (JStr key)) \<Rightarrow>
                 if lua_field v ''kind'' \<noteq> Some (JStr kindS) \<or> tenant = [] \<or> \<not> stable_names_ok v
                   \<or> take (length prefix) key \<noteq> prefix \<or> \<not> lower_hex 64 (drop (length prefix) key)
                   \<or> KTenantInflight key \<in> wrong_type c then None
                 else (case (zscore (global_inflight c) tok, zscore (tenant_inflight c key) tok, zscore (stable_index c) tok) of
                     (Some g, Some t, Some i) \<Rightarrow>
                       if i \<noteq> 0 \<or> zscore (provisional c) tok \<noteq> None \<or> g \<noteq> t then None
                       else Some [tok, tenant, key, lua_tostring g]
                   | _ \<Rightarrow> None)
             | _ \<Rightarrow> None)
        | _ \<Rightarrow> None)"

definition lua_list_recovery_stable ::
  "(string \<Rightarrow> bool) \<Rightarrow> recovery_fence \<Rightarrow> string \<Rightarrow> nat \<Rightarrow> string \<Rightarrow> int \<Rightarrow> script" where
  "lua_list_recovery_stable N f cursor requested prefix now = recovery_fenced N now f (\<lambda>c. (c,
     if \<not> types_ok c [KStableIndex, KGlobalInflight, KReservationMeta, KProvisional] then [CORRUPT]
     else if length (filter (\<lambda>(m, s). s = 0) (stable_index c)) \<noteq> zcard (stable_index c) then [CORRUPT]
     else if requested < 1 then [INVALID]
     else
       let tokens = zrange_lex cursor (requested + 1) (stable_index c);
           more = length tokens > requested
       in case all_some (recovery_stable_row prefix c) (if more then take requested tokens else tokens) of
            None \<Rightarrow> [CORRUPT]
          | Some rows \<Rightarrow> [OK, if more then ''1'' else ''0''] @ concat rows))"

definition lua_delete_recovery_stable ::
  "(string \<Rightarrow> bool) \<Rightarrow> recovery_fence \<Rightarrow> string \<Rightarrow> string \<Rightarrow> string \<Rightarrow> int \<Rightarrow> int \<Rightarrow> script" where
  "lua_delete_recovery_stable N f tenant key stok expires now = recovery_fenced N now f (\<lambda>c.
     if \<not> types_ok c [KReservationMeta, KGlobalInflight, KStableIndex, KProvisional, KTenantInflight key] then (c, [CORRUPT])
     else
       let raw = hget (reservation_meta c) stok; g = zscore (global_inflight c) stok; i = zscore (stable_index c) stok;
           p = zscore (provisional c) stok; t = zscore (tenant_inflight c key) stok
       in if raw = None \<and> g = None \<and> i = None \<and> p = None \<and> t = None then (c, [OK])
          else case (raw, g, i, t) of
              (Some meta, Some gs, Some ix, Some ts) \<Rightarrow>
                if p \<noteq> None then (c, [CORRUPT])
                else (case meta of
                    None \<Rightarrow> (c, [FENCE])
                  | Some v \<Rightarrow>
                      if lua_field v ''kind'' \<noteq> Some (JStr kindS) \<or> lua_field v ''tenant'' \<noteq> Some (JStr tenant)
                        \<or> lua_field v ''tenant_key'' \<noteq> Some (JStr key) then (c, [FENCE])
                      else if \<not> stable_names_ok v \<or> ix \<noteq> 0 \<or> gs \<noteq> ts then (c, [CORRUPT])
                      else if gs \<noteq> int (lua_double (nat expires)) then (c, [FENCE])
                      else (drop_reservation kindS key stok c, [OK]))
            | _ \<Rightarrow> (c, [CORRUPT]))"

subsection \<open>Finishing\<close>

text \<open>The finish is idempotent: a finished recovery with this fence, whatever the lock, is recognized first. The result
  is the code to answer, or \<open>None\<close> when the recovery has still to be finished.\<close>

definition finished_already :: "(string \<Rightarrow> bool) \<Rightarrow> recovery_fence \<Rightarrow> coord \<Rightarrow> string option" where
  "finished_already N f c =
     (let v = map_of (control c) in
      if KControl \<in> wrong_type c then Some CORRUPT
      else if v ''epoch'' = Some (rf_epoch f) \<and> v ''state'' = Some ''READY'' \<and> v ''writer_fingerprint'' = Some (rf_writer f) then
        Some (if \<not> control_readable c then CORRUPT
              else if ctl c ''operation_kind'' \<noteq> ''NONE'' \<or> ctl c ''operation_id'' \<noteq> [] \<or> \<not> lower_hex 32 (ctl c ''epoch'')
                \<or> \<not> lower_hex 64 (ctl c ''writer_fingerprint'')
                \<or> \<not> last_completed_ok (ctl c ''last_completed_operation_id'') (ctl c ''last_completed_operation_kind'')
                \<or> \<not> N (ctl c ''protocol_version'') then CORRUPT
              else if progress_exists c then CORRUPT
              else if ctl c ''protocol_version'' \<noteq> ''1'' then FENCE
              else if (rf_kind f = NORMAL \<and> rf_operation f = [])
                \<or> (rf_kind f \<noteq> NORMAL \<and> ctl c ''last_completed_operation_id'' = rf_operation f
                    \<and> ctl c ''last_completed_operation_kind'' = rf_kind f) then OK
              else FENCE)
      else None)"

text \<open>The coordination state that a finish accepts: the failure, if any\<close>

definition finish_state :: "coord \<Rightarrow> string option" where
  "finish_state c =
     (if KProvisional \<in> wrong_type c then Some CORRUPT
      else if zcard (provisional c) \<noteq> 0 then Some NOT_READY
      else if KProcessingTurns \<in> wrong_type c then Some CORRUPT
      else if zcard (processing_turns c) \<noteq> 0 then Some NOT_READY
      else if \<not> types_ok c [KRing, KRingMembers, KActiveUsers, KKnownUsers, KTurnToTenant, KTurnToGeneration, KTenantToTurn,
           KActivationGen] then Some CORRUPT
      else if turn_to_tenant c \<noteq> Map.empty \<or> turn_to_generation c \<noteq> Map.empty \<or> tenant_to_turn c \<noteq> Map.empty
        then Some CORRUPT
      else if length (ring c) \<noteq> card (ring_members c) \<or> length (ring c) \<noteq> card (active_users c) then Some CORRUPT
      else if \<not> distinct (ring c) \<or> list_ex (\<lambda>t. t = [] \<or> length t > 480 \<or> t \<notin> ring_members c \<or> t \<notin> active_users c
           \<or> t \<notin> known_users c \<or> (case activation_gen c t of None \<Rightarrow> True | Some g \<Rightarrow> \<not> fq_uint g True)) (ring c)
        then Some CORRUPT
      else None)"

definition finish_progress :: "recovery_fence \<Rightarrow> int \<Rightarrow> coord \<Rightarrow> string option" where
  "finish_progress f now c =
     (if prog c ''high_water'' = [] \<or> prog c ''known_complete'' \<noteq> ''1'' \<or> prog c ''known_diff'' \<noteq> ''0''
        \<or> prog c ''dispatched_complete'' \<noteq> ''1'' \<or> prog c ''dispatched_diff'' \<noteq> ''0''
        \<or> prog c ''running_complete'' \<noteq> ''1'' \<or> prog c ''running_diff'' \<noteq> ''0'' then Some NOT_READY
      else if rf_kind f = RABBIT_REPAIR then
        (if prog c ''repair_high_water'' = [] \<or> prog c ''repair_complete'' \<noteq> ''1'' then Some NOT_READY else None)
      else if rf_kind f = WRITER_REBIND then
        (if prog c ''rebind_original_writer'' = [] \<or> prog c ''rebind_target_writer'' = []
           \<or> prog c ''rebind_original_writer'' = prog c ''rebind_target_writer''
           \<or> prog c ''rebind_target_writer'' \<noteq> rf_writer f then Some CORRUPT else None)
      else if rf_kind f = FORCE_REBUILD then
        (if lua_number (prog c ''force_not_before_ms'') = 0 \<or> prog c ''force_delete_complete'' \<noteq> ''1'' then Some NOT_READY
         else if now < int (lua_number (prog c ''force_not_before_ms'')) then Some NOT_READY else None)
      else if rf_kind f \<noteq> NORMAL then Some FENCE else None)"

definition finish_commit :: "recovery_fence \<Rightarrow> coord \<Rightarrow> coord" where
  "finish_commit f c = c\<lparr>
     control := hset [(''state'', ''READY''), (''operation_kind'', ''NONE''), (''operation_id'', []),
        (''last_completed_operation_id'', if rf_kind f \<noteq> NORMAL then rf_operation f else ctl c ''last_completed_operation_id''),
        (''last_completed_operation_kind'', if rf_kind f \<noteq> NORMAL then rf_kind f else ctl c ''last_completed_operation_kind'')]
        (control c),
     progress := [], recovery_lock := LockAbsent \<rparr>"

definition lua_finish_recovery :: "(string \<Rightarrow> bool) \<Rightarrow> recovery_fence \<Rightarrow> int \<Rightarrow> script" where
  "lua_finish_recovery N f now c =
     (case finished_already N f c of
        Some code \<Rightarrow> (c, [code])
      | None \<Rightarrow> recovery_fenced N now f (\<lambda>c.
          case finish_state c of
            Some e \<Rightarrow> (c, [e])
          | None \<Rightarrow>
              (case finish_progress f now c of
                 Some e \<Rightarrow> (c, [e])
               | None \<Rightarrow> (finish_commit f c, [OK]))) c)"

end
