(* ===== verification/Fq_Recovery_Ops.thy ===== *)
theory Fq_Recovery_Ops
  imports Fq_Recovery_Scripts
begin

text \<open>
  The recovery methods of the Redis client (\<^verbatim>\<open>redis.go\<close>): validation of the arguments, the script, and the
  reading of its reply.
\<close>

subsection \<open>Arguments\<close>

definition validate_recovery_call :: "string \<Rightarrow> recovery_fence \<Rightarrow> goerr" where
  "validate_recovery_call resource f =
     first_err [as_sentinel ErrInvalidModel (validate_resource resource),
       as_sentinel ErrInvalidModel (validate_recovery_fence f)]"

definition redis_duration_ms :: "int \<Rightarrow> int result" where
  "redis_duration_ms d =
     (if d \<le> 0 \<or> d > max_resource_duration then Inl [ErrInvalidModel]
      else let ms = d div 1000000;
               ms = (if d mod 1000000 \<noteq> 0 then ms + 1 else ms)
           in Inr (if ms \<le> 0 then 1 else ms))"

definition bind_result :: "'a result \<Rightarrow> ('a \<Rightarrow> 'b result) \<Rightarrow> 'b result" where
  "bind_result r f = (case r of Inl e \<Rightarrow> Inl e | Inr x \<Rightarrow> f x)"

lemma bind_result_simps [simp]: "bind_result (Inl e) f = Inl e" "bind_result (Inr x) f = f x"
  by (simp_all add: bind_result_def)

lemma bind_result_Inr: "bind_result r f = Inr y \<longleftrightarrow> (\<exists>x. r = Inr x \<and> f x = Inr y)"
  by (cases r) simp_all

text \<open>The keys, then the checks of \<open>runRecoveryMutation\<close>\<close>

definition mutation_keys :: "string \<Rightarrow> string \<Rightarrow> recovery_fence \<Rightarrow> keyspace result" where
  "mutation_keys prefix resource f =
     bind_result (build_redis_keyspace prefix resource) (\<lambda>k. check_err (validate_recovery_call resource f) (Inr k))"

definition lock_keys :: "string \<Rightarrow> string \<Rightarrow> string \<Rightarrow> keyspace result" where
  "lock_keys prefix resource owner =
     check_err (as_sentinel ErrInvalidModel (validate_resource resource))
       (check_err (as_sentinel ErrInvalidModel (validate_recovery_lock owner)) (build_redis_keyspace prefix resource))"

subsection \<open>The lock\<close>

definition acquire_recovery_lock :: "transport \<Rightarrow> int \<Rightarrow> string \<Rightarrow> string \<Rightarrow> string \<Rightarrow> int \<Rightarrow> unit coord_op" where
  "acquire_recovery_lock net now prefix resource owner ttl =
     redis_call net
       (check_err (as_sentinel ErrInvalidModel (validate_resource resource))
         (check_err (as_sentinel ErrInvalidModel (validate_recovery_lock owner))
           (bind_result (redis_duration_ms ttl) (\<lambda>ms. bind_result (build_redis_keyspace prefix resource) (\<lambda>_. Inr ms)))))
       (\<lambda>ms. lua_acquire_lock owner ms now) (\<lambda>_. expect_ok)"

definition check_recovery_lock :: "transport \<Rightarrow> int \<Rightarrow> string \<Rightarrow> string \<Rightarrow> string \<Rightarrow> unit coord_op" where
  "check_recovery_lock net now prefix resource owner =
     redis_call net (lock_keys prefix resource owner) (\<lambda>_. lua_check_lock owner now) (\<lambda>_. expect_ok)"

definition renew_recovery_lock :: "transport \<Rightarrow> int \<Rightarrow> string \<Rightarrow> string \<Rightarrow> string \<Rightarrow> int \<Rightarrow> unit coord_op" where
  "renew_recovery_lock net now prefix resource owner ttl =
     redis_call net
       (check_err (as_sentinel ErrInvalidModel (validate_resource resource))
         (check_err (as_sentinel ErrInvalidModel (validate_recovery_lock owner))
           (bind_result (redis_duration_ms ttl) (\<lambda>ms. bind_result (build_redis_keyspace prefix resource) (\<lambda>_. Inr ms)))))
       (\<lambda>ms. lua_renew_lock owner ms now) (\<lambda>_. expect_ok)"

definition release_recovery_lock :: "transport \<Rightarrow> int \<Rightarrow> string \<Rightarrow> string \<Rightarrow> string \<Rightarrow> unit coord_op" where
  "release_recovery_lock net now prefix resource owner =
     redis_call net (lock_keys prefix resource owner) (\<lambda>_. lua_release_lock owner now) (\<lambda>_. expect_ok)"

subsection \<open>The control snapshot\<close>

text \<open>\<open>redisArrayString\<close>, \<open>redisArrayInt64\<close> and \<open>redisArrayBool\<close> on a reply of strings\<close>

definition reply_string :: "reply \<Rightarrow> nat \<Rightarrow> string option" where
  "reply_string values i = (if i < length values then Some (values ! i) else None)"

definition reply_int64 :: "reply \<Rightarrow> nat \<Rightarrow> bool \<Rightarrow> int option" where
  "reply_int64 values i empty_allowed =
     (case reply_string values i of
        None \<Rightarrow> None
      | Some v \<Rightarrow> if v = [] \<and> empty_allowed then Some 0 else parse_int64 v)"

definition reply_bool :: "reply \<Rightarrow> nat \<Rightarrow> bool option" where
  "reply_bool values i =
     (case reply_string values i of
        None \<Rightarrow> None
      | Some v \<Rightarrow> if v = [] \<or> v = ''0'' then Some False else if v = ''1'' then Some True else None)"

text \<open>\<open>readPass\<close>\<close>

definition read_pass :: "reply \<Rightarrow> nat \<Rightarrow> pass_progress option" where
  "read_pass values start =
     (case (reply_int64 values start True, reply_bool values (start + 1), reply_int64 values (start + 2) True) of
        (Some cycle, Some complete, Some diff) \<Rightarrow>
          if cycle < 0 \<or> diff < 0 then None
          else Some \<lparr> pp_cycle = word_of_int cycle, pp_complete = complete, pp_diff = diff \<rparr>
      | _ \<Rightarrow> None)"

definition read_special :: "string \<Rightarrow> reply \<Rightarrow> ((string \<times> bool) option \<times> (string \<times> string) option \<times> (int \<times> bool) option) option" where
  "read_special kind values =
     (if kind = RABBIT_REPAIR then
        (case (reply_string values 23, reply_bool values 24) of
           (Some h, Some b) \<Rightarrow> Some (Some (h, b), None, None) | _ \<Rightarrow> None)
      else if kind = WRITER_REBIND then
        (case (reply_string values 25, reply_string values 26) of
           (Some a, Some b) \<Rightarrow> Some (None, Some (a, b), None) | _ \<Rightarrow> None)
      else if kind = FORCE_REBUILD then
        (case (reply_int64 values 27 False, reply_bool values 28) of
           (Some n, Some b) \<Rightarrow> Some (None, None, Some (n, b)) | _ \<Rightarrow> None)
      else Some (None, None, None))"

text \<open>\<open>parseRecoverySnapshot\<close>: a malformed reply is corrupt; \<open>None\<close> is an absent control.\<close>

definition parse_recovery_snapshot :: "reply \<Rightarrow> control_snapshot option result" where
  "parse_recovery_snapshot values =
     check_err (redis_runtime_result_error values)
       (if length values < 2 then Inl [ErrCoordinationCorrupt]
        else if values ! 1 = ''0'' then (if length values \<noteq> 2 then Inl [ErrCoordinationCorrupt] else Inr None)
        else if values ! 1 \<noteq> ''1'' \<or> length values < 10 then Inl [ErrCoordinationCorrupt]
        else case parse_int64 (values ! 4) of
            None \<Rightarrow> Inl [ErrCoordinationCorrupt]
          | Some version \<Rightarrow>
              let s = \<lparr> cs_state = values ! 2, cs_epoch = values ! 3, cs_version = version, cs_writer = values ! 5,
                        cs_kind = values ! 6, cs_operation = values ! 7, cs_last_id = values ! 8, cs_last_kind = values ! 9,
                        cs_progress = None \<rparr>
              in if cs_state s = ''READY'' then
                   (if length values \<noteq> 10 \<or> validate_snapshot s \<noteq> None then Inl [ErrCoordinationCorrupt] else Inr (Some s))
                 else if length values \<noteq> 29 \<or> values ! 10 \<noteq> cs_epoch s then Inl [ErrCoordinationCorrupt]
                 else (case (read_pass values 14, read_pass values 17, read_pass values 20, read_special (values ! 11) values) of
                     (Some known, Some dispatched, Some running, Some (repair, rebind, force)) \<Rightarrow>
                       let s = s\<lparr> cs_progress := Some \<lparr> rp_kind = values ! 11, rp_operation = values ! 12,
                             rp_high_water = values ! 13, rp_known = known, rp_dispatched = dispatched, rp_running = running,
                             rp_repair = repair, rp_rebind = rebind, rp_force = force \<rparr> \<rparr>
                       in if validate_snapshot s \<noteq> None then Inl [ErrCoordinationCorrupt] else Inr (Some s)
                   | _ \<Rightarrow> Inl [ErrCoordinationCorrupt]))"

definition inspect_recovery_start ::
  "(string \<Rightarrow> bool) \<Rightarrow> transport \<Rightarrow> int \<Rightarrow> string \<Rightarrow> string \<Rightarrow> string \<Rightarrow> control_snapshot option coord_op" where
  "inspect_recovery_start N net now prefix resource owner =
     redis_call net (lock_keys prefix resource owner) (\<lambda>_. lua_inspect_recovery N owner now)
       (\<lambda>_. parse_recovery_snapshot)"

subsection \<open>The deadline of a forced rebuild\<close>

text \<open>Times are nanoseconds since 1970; \<open>time.Time{}\<close> is the first of January of year 1.\<close>

definition go_zero_time :: int where
  "go_zero_time = - 62135596800 * 10 ^ 9"

definition new_force_rebuild_deadline :: "int \<Rightarrow> int \<Rightarrow> (int \<times> int) result" where
  "new_force_rebuild_deadline observed delay =
     (if observed = go_zero_time \<or> observed mod 1000 \<noteq> 0 \<or> delay \<le> 0 \<or> delay > max_resource_duration
      then Inl [ErrInvalidModel]
      else let not_before = observed + delay;
               remainder = not_before mod 1000000;
               not_before = (if remainder \<noteq> 0 then not_before + (1000000 - remainder) else not_before)
           in Inr (observed, not_before - not_before mod 1000000))"

definition compute_force_rebuild_deadline ::
  "transport \<Rightarrow> nat \<Rightarrow> int \<Rightarrow> string \<Rightarrow> string \<Rightarrow> string \<Rightarrow> int \<Rightarrow> (int \<times> int) coord_op" where
  "compute_force_rebuild_deadline net micros now prefix resource owner delay =
     redis_call net
       (check_err (as_sentinel ErrInvalidModel (validate_resource resource))
         (check_err (as_sentinel ErrInvalidModel (validate_recovery_lock owner))
           (check_err (fail_when (delay \<le> 0 \<or> delay > max_resource_duration) (wraps ErrInvalidModel))
             (build_redis_keyspace prefix resource))))
       (\<lambda>_. lua_force_deadline owner micros now)
       (\<lambda>_ values. check_err (redis_runtime_result_error values)
          (if length values \<noteq> 3 then Inl [ErrCoordinationCorrupt]
           else case (parse_int64 (values ! 1), parse_int64 (values ! 2)) of
               (Some s, Some us) \<Rightarrow>
                 if s \<le> 0 \<or> us < 0 \<or> us \<ge> 1000000 then Inl [ErrCoordinationCorrupt]
                 else new_force_rebuild_deadline (s * 10 ^ 9 + us * 1000) delay
             | _ \<Rightarrow> Inl [ErrCoordinationCorrupt]))"

subsection \<open>Beginning\<close>

text \<open>\<open>beginRecoveryWithLock\<close>; \<open>token\<close> is what the epoch source gave, \<open>None\<close> its error.\<close>

definition next_epoch :: "string option \<Rightarrow> string result" where
  "next_epoch token =
     (case token of
        None \<Rightarrow> Inl [ErrDependencyUnavailable]
      | Some e \<Rightarrow> if lower_hex 32 e then Inr e else Inl [ErrCoordinationCorrupt])"

definition begin_request ::
  "string \<Rightarrow> string \<Rightarrow> string \<Rightarrow> string \<Rightarrow> string \<Rightarrow> string \<Rightarrow> int \<Rightarrow> string \<Rightarrow> int \<Rightarrow> string option \<Rightarrow> begin_args result" where
  "begin_request prefix resource wa wb kind operation force owner ttl token =
     check_err (first_err [
         as_sentinel ErrInvalidModel (validate_resource resource),
         as_sentinel ErrInvalidModel (validate_writer wa),
         (if kind = WRITER_REBIND then
            first_err [as_sentinel ErrInvalidModel (validate_writer wb), fail_when (wa = wb) (wraps ErrInvalidModel)]
          else fail_when (wb \<noteq> []) (wraps ErrInvalidModel)),
         (if kind = NORMAL then fail_when (operation \<noteq> [] \<or> force \<noteq> 0) (wraps ErrInvalidModel)
          else first_err [
            fail_when (\<not> lower_hex 32 operation) (wraps ErrInvalidModel),
            (if kind = FORCE_REBUILD then fail_when (force \<le> 0) (wraps ErrInvalidModel)
             else fail_when (force \<noteq> 0) (wraps ErrInvalidModel))]),
         fail_when (kind \<noteq> NORMAL \<and> \<not> special_kind kind) (wraps ErrInvalidModel),
         as_sentinel ErrInvalidModel (validate_recovery_lock owner)])
       (bind_result (redis_duration_ms ttl) (\<lambda>ms.
          bind_result (next_epoch token) (\<lambda>epoch.
            bind_result (build_redis_keyspace prefix resource) (\<lambda>_.
              Inr \<lparr> ba_owner = owner, ba_epoch = epoch, ba_ttl = ms, ba_kind = kind, ba_operation = operation,
                    ba_writer_a = wa, ba_writer_b = wb, ba_force_not_before = format_uint (nat force) \<rparr>))))"

definition begin_recovery_with_lock ::
  "transport \<Rightarrow> int \<Rightarrow> string \<Rightarrow> string \<Rightarrow> string \<Rightarrow> string \<Rightarrow> string \<Rightarrow> string \<Rightarrow> int \<Rightarrow> string \<Rightarrow> int \<Rightarrow> string option
   \<Rightarrow> recovery_fence coord_op" where
  "begin_recovery_with_lock net now prefix resource wa wb kind operation force owner ttl token =
     redis_call net (begin_request prefix resource wa wb kind operation force owner ttl token)
       (\<lambda>a. lua_begin_recovery a now)
       (\<lambda>a values. check_err (redis_runtime_result_error values)
          (case values of
             [_, epoch, writer] \<Rightarrow>
               if epoch \<noteq> ba_epoch a then Inl [ErrCoordinationCorrupt]
               else let f = \<lparr> rf_epoch = ba_epoch a, rf_writer = writer, rf_owner = owner, rf_kind = kind,
                              rf_operation = operation \<rparr>
                    in if validate_recovery_fence f \<noteq> None then Inl [ErrCoordinationCorrupt] else Inr f
           | _ \<Rightarrow> Inl [ErrCoordinationCorrupt]))"

subsection \<open>Mutations\<close>

definition renew_recovery ::
  "(string \<Rightarrow> bool) \<Rightarrow> transport \<Rightarrow> int \<Rightarrow> string \<Rightarrow> string \<Rightarrow> recovery_fence \<Rightarrow> int \<Rightarrow> unit coord_op" where
  "renew_recovery N net now prefix resource f ttl =
     redis_call net
       (check_err (validate_recovery_call resource f)
         (bind_result (redis_duration_ms ttl) (\<lambda>ms. bind_result (mutation_keys prefix resource f) (\<lambda>_. Inr ms))))
       (\<lambda>ms. lua_renew_recovery N f ms now) (\<lambda>_. expect_ok)"

definition recovery_reap_expired ::
  "(string \<Rightarrow> bool) \<Rightarrow> (string \<Rightarrow> string) \<Rightarrow> transport \<Rightarrow> int \<Rightarrow> string \<Rightarrow> string \<Rightarrow> recovery_fence \<Rightarrow> int \<Rightarrow> cleanup_result coord_op" where
  "recovery_reap_expired N H net now prefix resource f limit =
     redis_call net
       (check_err (validate_recovery_call resource f)
         (check_err (as_sentinel ErrInvalidModel (validate_page_limit limit)) (build_redis_keyspace prefix resource)))
       (\<lambda>k. lua_recovery_reap N H f (nat limit) (tenant_key_prefix k) resource now)
       (\<lambda>_. parse_cleanup)"

definition reset_resource ::
  "(string \<Rightarrow> bool) \<Rightarrow> transport \<Rightarrow> int \<Rightarrow> string \<Rightarrow> string \<Rightarrow> recovery_fence \<Rightarrow> unit coord_op" where
  "reset_resource N net now prefix resource f =
     redis_call net (mutation_keys prefix resource f) (\<lambda>_. lua_reset_resource N f now) (\<lambda>_. expect_ok)"

definition set_recovery_high_water ::
  "(string \<Rightarrow> bool) \<Rightarrow> transport \<Rightarrow> int \<Rightarrow> string \<Rightarrow> string \<Rightarrow> recovery_fence \<Rightarrow> string \<Rightarrow> unit coord_op" where
  "set_recovery_high_water N net now prefix resource f hw =
     redis_call net
       (check_err (as_sentinel ErrInvalidModel (validate_high_water hw)) (mutation_keys prefix resource f))
       (\<lambda>_. lua_set_high_water N f hw now) (\<lambda>_. expect_ok)"

definition mark_recovery_pass ::
  "(string \<Rightarrow> bool) \<Rightarrow> transport \<Rightarrow> int \<Rightarrow> string \<Rightarrow> string \<Rightarrow> recovery_fence \<Rightarrow> recovery_pass \<Rightarrow> 64 word \<Rightarrow> bool \<Rightarrow> int
   \<Rightarrow> unit coord_op" where
  "mark_recovery_pass N net now prefix resource f pass cycle complete diff =
     redis_call net
       (check_err (fail_when (cycle = 0 \<or> diff < 0) (wraps ErrInvalidModel)) (mutation_keys prefix resource f))
       (\<lambda>_. lua_mark_pass N f (pass_prefix pass) (format_uint (unat cycle)) (if complete then ''1'' else ''0'')
          (format_uint (nat diff)) now)
       (\<lambda>_. expect_ok)"

definition set_rabbit_repair_high_water ::
  "(string \<Rightarrow> bool) \<Rightarrow> transport \<Rightarrow> int \<Rightarrow> string \<Rightarrow> string \<Rightarrow> recovery_fence \<Rightarrow> string \<Rightarrow> unit coord_op" where
  "set_rabbit_repair_high_water N net now prefix resource f hw =
     redis_call net
       (check_err (as_sentinel ErrInvalidModel (validate_high_water hw)) (mutation_keys prefix resource f))
       (\<lambda>_. lua_set_repair_high_water N f hw now) (\<lambda>_. expect_ok)"

definition mark_rabbit_repair_pass_complete ::
  "(string \<Rightarrow> bool) \<Rightarrow> transport \<Rightarrow> int \<Rightarrow> string \<Rightarrow> string \<Rightarrow> recovery_fence \<Rightarrow> unit coord_op" where
  "mark_rabbit_repair_pass_complete N net now prefix resource f =
     redis_call net (mutation_keys prefix resource f) (\<lambda>_. lua_mark_repair_complete N f now) (\<lambda>_. expect_ok)"

definition restore_known_tenant ::
  "(string \<Rightarrow> bool) \<Rightarrow> transport \<Rightarrow> int \<Rightarrow> string \<Rightarrow> string \<Rightarrow> recovery_fence \<Rightarrow> string \<Rightarrow> unit coord_op" where
  "restore_known_tenant N net now prefix resource f tenant =
     redis_call net
       (check_err (as_sentinel ErrInvalidModel (validate_tenant_id tenant)) (mutation_keys prefix resource f))
       (\<lambda>_. lua_restore_known N f tenant now) (\<lambda>_. expect_ok)"

definition restore_active_tenant ::
  "(string \<Rightarrow> bool) \<Rightarrow> transport \<Rightarrow> int \<Rightarrow> string \<Rightarrow> string \<Rightarrow> recovery_fence \<Rightarrow> string \<Rightarrow> unit coord_op" where
  "restore_active_tenant N net now prefix resource f tenant =
     redis_call net
       (check_err (as_sentinel ErrInvalidModel (validate_tenant_id tenant)) (mutation_keys prefix resource f))
       (\<lambda>_. lua_restore_active N f tenant now) (\<lambda>_. expect_ok)"

definition tenant_mutation_keys ::
  "(string \<Rightarrow> string) \<Rightarrow> string \<Rightarrow> string \<Rightarrow> recovery_fence \<Rightarrow> string \<Rightarrow> (keyspace \<times> string) result" where
  "tenant_mutation_keys H prefix resource f tenant =
     bind_result (build_redis_keyspace prefix resource) (\<lambda>k.
       bind_result (tenant_inflight_key H k resource tenant) (\<lambda>tk.
         check_err (validate_recovery_call resource f) (Inr (k, tk))))"

definition restore_inflight ::
  "(string \<Rightarrow> bool) \<Rightarrow> (string \<Rightarrow> string) \<Rightarrow> transport \<Rightarrow> int \<Rightarrow> string \<Rightarrow> string \<Rightarrow> recovery_fence \<Rightarrow> string \<Rightarrow> string \<Rightarrow> int
   \<Rightarrow> unit coord_op" where
  "restore_inflight N H net now prefix resource f tenant stable_token ttl =
     redis_call net
       (check_err (fail_when (validate_tenant_id tenant \<noteq> None \<or> \<not> stable_reservation_pattern stable_token) (wraps ErrInvalidModel))
         (bind_result (redis_duration_ms ttl) (\<lambda>ms.
            bind_result (tenant_mutation_keys H prefix resource f tenant) (\<lambda>(k, tk). Inr (tk, ms)))))
       (\<lambda>(tk, ms). lua_restore_inflight N f tenant tk stable_token ms now) (\<lambda>_. expect_ok)"

definition delete_recovery_stable_inflight ::
  "(string \<Rightarrow> bool) \<Rightarrow> (string \<Rightarrow> string) \<Rightarrow> transport \<Rightarrow> int \<Rightarrow> string \<Rightarrow> string \<Rightarrow> recovery_fence \<Rightarrow> reservation_ref
   \<Rightarrow> unit coord_op" where
  "delete_recovery_stable_inflight N H net now prefix resource f ref =
     redis_call net
       (check_err (as_sentinel ErrInvalidModel (validate_reservation_ref ref))
         (tenant_mutation_keys H prefix resource f (ref_tenant ref)))
       (\<lambda>(k, tk). lua_delete_recovery_stable N f (ref_tenant ref) tk (ref_stable_token ref) (ref_expires_ms ref) now)
       (\<lambda>_. expect_ok)"

subsection \<open>Listing stable reservations\<close>

fun parse_recovery_rows ::
  "(string \<Rightarrow> string) \<Rightarrow> keyspace \<Rightarrow> string \<Rightarrow> string list \<Rightarrow> reservation_ref list option" where
  "parse_recovery_rows H k resource [] = Some []"
| "parse_recovery_rows H k resource (tok # tenant # key # expires # rest) =
     (if tenant_inflight_key H k resource tenant \<noteq> Inr key then None
      else case parse_int64 expires of
          None \<Rightarrow> None
        | Some e \<Rightarrow>
            let item = \<lparr> ref_tenant = tenant, ref_stable_token = tok, ref_expires_ms = e \<rparr>
            in if validate_reservation_ref item \<noteq> None then None
               else map_option ((#) item) (parse_recovery_rows H k resource rest))"
| "parse_recovery_rows H k resource _ = None"

definition parse_recovery_page ::
  "(string \<Rightarrow> string) \<Rightarrow> keyspace \<Rightarrow> string \<Rightarrow> string \<Rightarrow> int \<Rightarrow> reply \<Rightarrow> reservation_ref recovery_page result" where
  "parse_recovery_page H k resource cursor limit values =
     check_err (redis_runtime_result_error values)
       (case values of
          _ # has_more # rows \<Rightarrow>
            if length rows mod 4 \<noteq> 0 \<or> (has_more \<noteq> ''0'' \<and> has_more \<noteq> ''1'') then Inl [ErrCoordinationCorrupt]
            else (case parse_recovery_rows H k resource rows of
                None \<Rightarrow> Inl [ErrCoordinationCorrupt]
              | Some items \<Rightarrow>
                  if has_more = ''1'' \<and> items = [] then Inl [ErrCoordinationCorrupt]
                  else
                    let page = \<lparr> page_items = items,
                          page_next = (if has_more = ''1'' then ref_stable_token (List.last items) else []), page_done = (has_more = ''0'') \<rparr>
                    in if validate_page validate_reservation_ref page cursor limit \<noteq> None
                       then Inl [ErrCoordinationCorrupt] else Inr page)
        | _ \<Rightarrow> Inl [ErrCoordinationCorrupt])"

definition list_recovery_stable_inflight ::
  "(string \<Rightarrow> bool) \<Rightarrow> (string \<Rightarrow> string) \<Rightarrow> transport \<Rightarrow> int \<Rightarrow> string \<Rightarrow> string \<Rightarrow> recovery_fence \<Rightarrow> string \<Rightarrow> int
   \<Rightarrow> reservation_ref recovery_page coord_op" where
  "list_recovery_stable_inflight N H net now prefix resource f cursor limit =
     redis_call net
       (check_err (validate_recovery_call resource f)
         (check_err (fail_when (validate_cursor cursor \<noteq> None) (wraps ErrInvalidModel))
           (check_err (fail_when (cursor \<noteq> [] \<and> \<not> stable_reservation_pattern cursor) (wraps ErrInvalidModel))
             (check_err (as_sentinel ErrInvalidModel (validate_page_limit limit)) (build_redis_keyspace prefix resource)))))
       (\<lambda>k. lua_list_recovery_stable N f cursor (nat limit) (tenant_key_prefix k) now)
       (\<lambda>k. parse_recovery_page H k resource cursor limit)"

subsection \<open>Owned keys\<close>

definition redis_owned_key :: "keyspace \<Rightarrow> string \<Rightarrow> bool" where
  "redis_owned_key k s \<longleftrightarrow> take (length (ks_root k)) s = ks_root k \<and> s \<noteq> ks_control k \<and> s \<noteq> ks_recovery_lock k
     \<and> s \<noteq> ks_progress k"

definition validate_key_ref :: "string \<Rightarrow> goerr" where
  "validate_key_ref s =
     first_err [
       fail_when (s = [] \<or> length s > max_redis_key_bytes \<or> \<not> valid_utf8 s) (wraps ErrInvalidModel),
       fail_when (case runes s of None \<Rightarrow> False | Some rs \<Rightarrow> list_ex (\<lambda>r. r = 0 \<or> is_control r) rs) (wraps ErrInvalidModel)]"

definition delete_owned_resource_keys ::
  "(string \<Rightarrow> bool) \<Rightarrow> transport \<Rightarrow> int \<Rightarrow> string \<Rightarrow> string \<Rightarrow> recovery_fence \<Rightarrow> string list \<Rightarrow> unit coord_op" where
  "delete_owned_resource_keys N net now prefix resource f refs =
     redis_call net
       (check_err (validate_recovery_call resource f)
         (check_err (fail_when (int (length refs) > max_recovery_page_size) (wraps ErrInvalidModel))
           (bind_result (build_redis_keyspace prefix resource) (\<lambda>k.
              check_err (fail_when (list_ex (\<lambda>s. validate_key_ref s \<noteq> None \<or> \<not> redis_owned_key k s) refs) (wraps ErrInvalidModel))
                (check_err (validate_recovery_call resource f) (Inr (k, rev (remdups (rev refs)))))))))
       (\<lambda>(k, names). lua_delete_owned N f k names now) (\<lambda>_. expect_ok)"

text \<open>\<open>parseRedisScanCursor\<close>: the cursor of \<open>SCAN\<close> and a toggle that keeps page cursors moving\<close>

definition parse_scan_cursor :: "string \<Rightarrow> (64 word \<times> string) option" where
  "parse_scan_cursor cursor =
     (if cursor = [] then Some (0, ''a'')
      else
        let digits = takeWhile (\<lambda>ch. ch \<noteq> CHR '':'') cursor; rest = dropWhile (\<lambda>ch. ch \<noteq> CHR '':'') cursor
        in case parse_uint64 digits of
             None \<Rightarrow> None
           | Some n \<Rightarrow>
               if rest = [] then Some (n, ''a'')
               else if tl rest \<noteq> ''a'' \<and> tl rest \<noteq> ''b'' then None
               else Some (n, tl rest))"

text \<open>\<open>ListOwnedResourceKeys\<close> after the scan: \<open>found\<close> and \<open>next_scan\<close> are what \<open>SCAN\<close> gave for the cursor.\<close>

definition owned_page ::
  "keyspace \<Rightarrow> string \<Rightarrow> int \<Rightarrow> string list \<Rightarrow> 64 word \<Rightarrow> string recovery_page result" where
  "owned_page k cursor limit found next_scan =
     (case parse_scan_cursor cursor of
        None \<Rightarrow> Inl [ErrInvalidModel]
      | Some (scan, toggle) \<Rightarrow>
          let owned = filter (redis_owned_key k) found;
              items = take (nat limit) owned;
              truncated = length owned > nat limit
          in if list_ex (\<lambda>s. validate_key_ref s \<noteq> None) items then Inl [ErrCoordinationCorrupt]
             else
               let finished = (next_scan = 0 \<and> \<not> truncated);
                   next_scan = (if truncated then scan else next_scan);
                   next_toggle = (if toggle = ''a'' then ''b'' else ''a'');
                   next_cursor = format_uint (unat next_scan) @ '':'' @ next_toggle;
                   next_cursor = (if next_cursor = cursor then format_uint (unat next_scan) @ '':'' @ toggle else next_cursor);
                   page = \<lparr> page_items = items, page_next = (if finished then [] else next_cursor), page_done = finished \<rparr>
               in if validate_page validate_key_ref page cursor limit \<noteq> None then Inl [ErrCoordinationCorrupt] else Inr page)"

definition list_owned_resource_keys ::
  "(string \<Rightarrow> bool) \<Rightarrow> transport \<Rightarrow> int \<Rightarrow> (coord \<Rightarrow> 64 word \<Rightarrow> (string list \<times> 64 word) result) \<Rightarrow> string \<Rightarrow> string
   \<Rightarrow> recovery_fence \<Rightarrow> string \<Rightarrow> int \<Rightarrow> string recovery_page coord_op" where
  "list_owned_resource_keys N net now scan prefix resource f cursor limit c =
     redis_call net
       (check_err (validate_recovery_call resource f)
         (check_err (fail_when (validate_cursor cursor \<noteq> None) (wraps ErrInvalidModel))
           (check_err (as_sentinel ErrInvalidModel (validate_page_limit limit))
             (check_err (fail_when (parse_scan_cursor cursor = None) (wraps ErrInvalidModel))
               (build_redis_keyspace prefix resource)))))
       (\<lambda>_. lua_check_recovery N f now)
       (\<lambda>k values. bind_result (expect_ok values) (\<lambda>_.
          bind_result (scan c (fst (the (parse_scan_cursor cursor)))) (\<lambda>(found, next_scan).
            owned_page k cursor limit found next_scan))) c"

text \<open>\<open>MarkForceDeletePassComplete\<close>: the fence is checked, the keys of the resource are scanned until the
  server's cursor is zero again, and the fenced script records the pass. \<open>replies\<close> are what the
  server answers to the scans in turn; while they last, the loop has not ended (\<open>None\<close>). Between the two
  scripts other clients may change the state.\<close>

fun ensure_no_owned_resource_keys :: "keyspace \<Rightarrow> (string list \<times> 64 word) result list \<Rightarrow> goerr option" where
  "ensure_no_owned_resource_keys k [] = None"
| "ensure_no_owned_resource_keys k (Inl e # replies) = Some (Some e)"
| "ensure_no_owned_resource_keys k (Inr (found, cursor) # replies) =
     (if list_ex (redis_owned_key k) found then Some (Some [ErrResourceNotReady])
      else if cursor = 0 then Some None
      else ensure_no_owned_resource_keys k replies)"

definition complete_force_delete_pass ::
  "(string \<Rightarrow> bool) \<Rightarrow> transport \<Rightarrow> int \<Rightarrow> string \<Rightarrow> string \<Rightarrow> recovery_fence \<Rightarrow> unit coord_op" where
  "complete_force_delete_pass N net now prefix resource f =
     redis_call net (mutation_keys prefix resource f) (\<lambda>_. lua_mark_force_delete_complete N f now) (\<lambda>_. expect_ok)"

definition mark_force_delete_pass_complete ::
  "(string \<Rightarrow> bool) \<Rightarrow> transport \<times> int \<Rightarrow> (coord \<Rightarrow> coord) \<Rightarrow> transport \<times> int \<Rightarrow> (string list \<times> 64 word) result list
   \<Rightarrow> string \<Rightarrow> string \<Rightarrow> recovery_fence \<Rightarrow> coord \<Rightarrow> (unit result \<times> coord) option" where
  "mark_force_delete_pass_complete N first others second replies prefix resource f c =
     (case check_err (validate_recovery_call resource f)
         (check_err (fail_when (rf_kind f \<noteq> FORCE_REBUILD) (wraps ErrFenceMismatch))
           (build_redis_keyspace prefix resource)) of
        Inl e \<Rightarrow> Some (Inl e, c)
      | Inr k \<Rightarrow>
          (case redis_call (fst first) (Inr k) (\<lambda>_. lua_check_recovery N f (snd first)) (\<lambda>_. expect_ok) c of
             (Inl e, c) \<Rightarrow> Some (Inl e, c)
           | (Inr _, c) \<Rightarrow>
               let c = others c in
               (case ensure_no_owned_resource_keys k replies of
                  None \<Rightarrow> None
                | Some (Some e) \<Rightarrow> Some (Inl e, c)
                | Some None \<Rightarrow> Some (complete_force_delete_pass N (fst second) (snd second) prefix resource f c))))"

subsection \<open>Finishing\<close>

definition finish_recovery ::
  "(string \<Rightarrow> bool) \<Rightarrow> transport \<Rightarrow> int \<Rightarrow> string \<Rightarrow> string \<Rightarrow> recovery_fence \<Rightarrow> unit coord_op" where
  "finish_recovery N net now prefix resource f =
     redis_call net (mutation_keys prefix resource f) (\<lambda>_. lua_finish_recovery N f now) (\<lambda>_. expect_ok)"

end
