(* ===== verification/Fq_Journal.thy ===== *)
theory Fq_Journal
  imports Fq_Recovery_Ops
begin

text \<open>
  What MySQL tells recovery (\<^verbatim>\<open>model.go\<close>): the references that the pages of a recovery source carry, and
  the journal record of a special operation with its validators.
\<close>

subsection \<open>References\<close>

record dispatched_ref =
  dr_tenant :: string
  dr_token :: dispatch_token

definition validate_dispatched_ref :: "dispatched_ref \<Rightarrow> goerr" where
  "validate_dispatched_ref r = first_err [validate_tenant_id (dr_tenant r), validate_dispatch_token (dr_token r)]"

text \<open>Times are nanoseconds since 1970, the zero time is \<open>go_zero_time\<close>.\<close>

record running_lease =
  rl_tenant :: string
  rl_task :: string
  rl_generation :: "64 word"
  rl_until :: int
  rl_now :: int

definition validate_running_lease :: "running_lease \<Rightarrow> goerr" where
  "validate_running_lease r =
     first_err [validate_tenant_id (rl_tenant r), validate_task_id (rl_task r),
       fail_when (rl_generation r = 0 \<or> unat (rl_generation r) > max_int64 \<or> rl_until r = go_zero_time
         \<or> rl_now r = go_zero_time \<or> rl_until r \<le> rl_now r) (wraps ErrInvalidModel)]"

subsection \<open>The journal of special operations\<close>

text \<open>\<open>RecoveryOperationRecord\<close>; a phase that the store has not set is empty. The force rebuild time is paired with
  whether its location is UTC.\<close>

record operation_record =
  op_resource :: string
  op_id :: string
  op_kind :: string
  op_phase :: string
  op_current_writer :: string
  op_original_writer :: string
  op_target_writer :: string
  op_repair_high_water :: "string option"
  op_repair_complete :: bool
  op_force_not_before :: "(int \<times> bool) option"
  op_force_complete :: bool
  op_version :: int
  op_created :: int
  op_updated :: int

abbreviation ACTIVE :: string where "ACTIVE \<equiv> ''ACTIVE''"
abbreviation READY_COMMITTED :: string where "READY_COMMITTED \<equiv> ''READY_COMMITTED''"
abbreviation COMPLETED :: string where "COMPLETED \<equiv> ''COMPLETED''"

definition valid_force_not_before :: "(int \<times> bool) option \<Rightarrow> bool" where
  "valid_force_not_before v \<longleftrightarrow> (case v of None \<Rightarrow> False | Some (t, utc) \<Rightarrow> t \<noteq> go_zero_time \<and> utc \<and> t mod 1000000 = 0)"

definition validate_immutable :: "operation_record \<Rightarrow> goerr" where
  "validate_immutable r =
     first_err [
       fail_when (validate_resource (op_resource r) \<noteq> None \<or> \<not> lower_hex 32 (op_id r)
         \<or> \<not> lower_hex 64 (op_current_writer r) \<or> \<not> special_kind (op_kind r)) (wraps ErrInvalidOperationRecord),
       (if op_kind r = RABBIT_REPAIR then
          fail_when (op_original_writer r \<noteq> [] \<or> op_target_writer r \<noteq> [] \<or> op_force_not_before r \<noteq> None)
            (wraps ErrInvalidOperationRecord)
        else if op_kind r = WRITER_REBIND then
          fail_when (\<not> lower_hex 64 (op_original_writer r) \<or> \<not> lower_hex 64 (op_target_writer r)
              \<or> op_original_writer r = op_target_writer r \<or> op_current_writer r \<noteq> op_target_writer r
              \<or> op_force_not_before r \<noteq> None) (wraps ErrInvalidOperationRecord)
        else fail_when (op_original_writer r \<noteq> [] \<or> op_target_writer r \<noteq> []
              \<or> \<not> valid_force_not_before (op_force_not_before r)) (wraps ErrInvalidOperationRecord))]"

definition validate_proposal :: "operation_record \<Rightarrow> goerr" where
  "validate_proposal r =
     first_err [validate_immutable r,
       fail_when (op_phase r \<noteq> [] \<or> op_version r \<noteq> 0 \<or> op_created r \<noteq> go_zero_time \<or> op_updated r \<noteq> go_zero_time
         \<or> op_repair_high_water r \<noteq> None \<or> op_repair_complete r \<or> op_force_complete r)
         (wraps ErrInvalidOperationRecord)]"

definition validate_persisted :: "operation_record \<Rightarrow> goerr" where
  "validate_persisted r =
     first_err [validate_immutable r,
       fail_when (op_version r \<le> 0 \<or> op_created r = go_zero_time \<or> op_updated r = go_zero_time
         \<or> op_updated r < op_created r) (wraps ErrInvalidOperationRecord),
       fail_when (op_phase r \<notin> {ACTIVE, READY_COMMITTED, COMPLETED}) (wraps ErrInvalidOperationRecord),
       (case op_repair_high_water r of None \<Rightarrow> None
        | Some h \<Rightarrow> as_sentinel ErrInvalidOperationRecord (validate_high_water h)),
       (if op_kind r = RABBIT_REPAIR then
          fail_when (op_force_complete r \<or> (op_repair_complete r \<and> op_repair_high_water r = None))
            (wraps ErrInvalidOperationRecord)
        else if op_kind r = WRITER_REBIND then
          fail_when (op_repair_high_water r \<noteq> None \<or> op_repair_complete r \<or> op_force_complete r)
            (wraps ErrInvalidOperationRecord)
        else fail_when (op_repair_high_water r \<noteq> None \<or> op_repair_complete r) (wraps ErrInvalidOperationRecord)),
       (if op_phase r \<noteq> ACTIVE then
          first_err [
            fail_when (op_kind r = RABBIT_REPAIR \<and> (op_repair_high_water r = None \<or> \<not> op_repair_complete r))
              (wraps ErrInvalidOperationRecord),
            fail_when (op_kind r = FORCE_REBUILD \<and> \<not> op_force_complete r) (wraps ErrInvalidOperationRecord)]
        else None)]"

end
