(* ===== verification/Fq_Recovery_Env.thy ===== *)
theory Fq_Recovery_Env
  imports Fq_Journal Fq_Gate
begin

text \<open>
  What the recovery coordinator (\<^verbatim>\<open>recovery.go\<close>) runs on: its options, the clients it calls, the log of its
  calls, and programs that may fail. An operation of a client is a state transformer on a world the coordinator
  does not see, so that it can give any result. A loop that has not ended when its fuel is used up is \<open>Cut\<close>,
  which is no result of the program. Nil arguments are not modelled, contexts only where the
  code asks whether they have ended; an expired operation timeout is an error of the call.
\<close>

subsection \<open>Options\<close>

record recovery_options =
  ro_lock_ttl :: int
  ro_renew :: int
  ro_cleanup :: int
  ro_operation :: int
  ro_backoff_initial :: int
  ro_backoff_max :: int

text \<open>Go's division truncates towards zero.\<close>

definition recovery_with_defaults :: "recovery_options \<Rightarrow> recovery_options result" where
  "recovery_with_defaults o1 =
     (let ttl = (if ro_lock_ttl o1 = 0 then 30 * 1000000000 else ro_lock_ttl o1);
          third = (if ttl < 0 then - ((- ttl) div 3) else ttl div 3);
          o2 = \<lparr> ro_lock_ttl = ttl,
                 ro_renew = (if ro_renew o1 = 0 then third else ro_renew o1),
                 ro_cleanup = (if ro_cleanup o1 = 0 then 250 * 1000000 else ro_cleanup o1),
                 ro_operation = (if ro_operation o1 = 0 then 5 * 1000000000 else ro_operation o1),
                 ro_backoff_initial = (if ro_backoff_initial o1 = 0 then 100 * 1000000 else ro_backoff_initial o1),
                 ro_backoff_max = (if ro_backoff_max o1 = 0 then 5 * 1000000000 else ro_backoff_max o1) \<rparr>
      in check_err (first_err (map duration_ok
             [ro_lock_ttl o2, ro_renew o2, ro_cleanup o2, ro_operation o2, ro_backoff_initial o2, ro_backoff_max o2]))
         (if ro_renew o2 \<ge> ro_lock_ttl o2 then Inl []
          else if ro_backoff_initial o2 > ro_backoff_max o2 then Inl [] else Inr o2))"

definition recovery_terminal :: "goerr \<Rightarrow> bool" where
  "recovery_terminal e \<longleftrightarrow> authoritative_fatal e \<or> errors_is e ErrUnsupportedTopology
     \<or> errors_is e ErrCoordinationCorrupt \<or> errors_is e ErrRecoveryOperatorRequired"

definition grow_recovery_backoff :: "int \<Rightarrow> int \<Rightarrow> int" where
  "grow_recovery_backoff v maximum = (if v \<ge> maximum \<or> v > maximum div 2 then maximum else i64 (v * 2))"

definition operator_required :: "sentinel list" where
  "operator_required = [ErrRecoveryOperatorRequired, ErrResourceNotReady]"

text \<open>\<open>errors.Join\<close> of a sentinel and an error that is not nil\<close>

definition join_err :: "sentinel \<Rightarrow> goerr \<Rightarrow> goerr" where
  "join_err s e = map_option ((#) s) e"

subsection \<open>Clients\<close>

text \<open>\<open>RecoveryRuntime\<close>, the Rabbit client (\<open>rb_prober\<close>: whether it can probe a resource topology),
  \<open>RecoverySource\<close>, \<open>OperationJournal\<close> with its start fence, and \<open>Coordinator\<close>\<close>

record 'w rec_runtime =
  rt_close :: "string \<Rightarrow> ('w, unit result) state"
  rt_drain :: "string \<Rightarrow> ('w, unit result) state"
  rt_open :: "string \<Rightarrow> resource_fence \<Rightarrow> ('w, unit result) state"

record 'w rec_rabbit =
  rb_prober :: bool
  rb_probe :: "string \<Rightarrow> ('w, (string \<times> int) result) state"
  rb_topology :: "string \<Rightarrow> string \<Rightarrow> ('w, unit result) state"
  rb_depth :: "string \<Rightarrow> string \<Rightarrow> ('w, int result) state"

record 'w rec_source =
  so_high_water :: "('w, string result) state"
  so_known :: "string \<Rightarrow> string \<Rightarrow> int \<Rightarrow> ('w, string recovery_page result) state"
  so_dispatched :: "string \<Rightarrow> string \<Rightarrow> int \<Rightarrow> ('w, dispatched_ref recovery_page result) state"
  so_running :: "string \<Rightarrow> string \<Rightarrow> int \<Rightarrow> ('w, running_lease recovery_page result) state"

text \<open>\<open>WithStartFence\<close> fails before its callback (\<open>jo_enter\<close>), or runs it once and maps its error
  to its own (\<open>jo_exit\<close>).\<close>

record 'w rec_journal =
  jo_read :: "string \<Rightarrow> string \<Rightarrow> ('w, operation_record option result) state"
  jo_enter :: "string \<Rightarrow> string \<Rightarrow> ('w, unit result) state"
  jo_session :: "('w, operation_record option result) state"
  jo_exit :: "goerr \<Rightarrow> ('w, unit result) state"
  jo_complete :: "operation_record \<Rightarrow> ('w, operation_record result) state"

record 'w rec_coord =
  co_observe :: "string \<Rightarrow> string \<Rightarrow> ('w, resource_fence result) state"
  co_check_ready :: "string \<Rightarrow> resource_fence \<Rightarrow> ('w, unit result) state"
  co_ensure_known :: "string \<Rightarrow> resource_fence \<Rightarrow> string \<Rightarrow> ('w, unit result) state"
  co_ensure_active :: "string \<Rightarrow> resource_fence \<Rightarrow> string \<Rightarrow> ('w, unit result) state"
  co_release :: "string \<Rightarrow> resource_fence \<Rightarrow> string \<Rightarrow> string \<Rightarrow> ('w, unit result) state"
  co_list_ready :: "string \<Rightarrow> resource_fence \<Rightarrow> string \<Rightarrow> int \<Rightarrow> ('w, reservation_ref recovery_page result) state"
  co_ensure_stable :: "string \<Rightarrow> resource_fence \<Rightarrow> string \<Rightarrow> string \<Rightarrow> int \<Rightarrow> ('w, unit result) state"
  co_reap_ready :: "string \<Rightarrow> resource_fence \<Rightarrow> int \<Rightarrow> ('w, cleanup_result result) state"
  co_acquire :: "string \<Rightarrow> string \<Rightarrow> int \<Rightarrow> ('w, string result) state"
  co_check_lock :: "string \<Rightarrow> string \<Rightarrow> ('w, unit result) state"
  co_renew_lock :: "string \<Rightarrow> string \<Rightarrow> int \<Rightarrow> ('w, unit result) state"
  co_release_lock :: "string \<Rightarrow> string \<Rightarrow> ('w, unit result) state"
  co_inspect :: "string \<Rightarrow> string \<Rightarrow> ('w, control_snapshot option result) state"
  co_begin :: "string \<Rightarrow> string \<Rightarrow> string \<Rightarrow> int \<Rightarrow> ('w, recovery_fence result) state"
  co_renew :: "string \<Rightarrow> recovery_fence \<Rightarrow> int \<Rightarrow> ('w, unit result) state"
  co_reap :: "string \<Rightarrow> recovery_fence \<Rightarrow> int \<Rightarrow> ('w, cleanup_result result) state"
  co_set_high_water :: "string \<Rightarrow> recovery_fence \<Rightarrow> string \<Rightarrow> ('w, unit result) state"
  co_reset :: "string \<Rightarrow> recovery_fence \<Rightarrow> ('w, unit result) state"
  co_list_owned :: "string \<Rightarrow> recovery_fence \<Rightarrow> string \<Rightarrow> int \<Rightarrow> ('w, string recovery_page result) state"
  co_delete_owned :: "string \<Rightarrow> recovery_fence \<Rightarrow> string list \<Rightarrow> ('w, unit result) state"
  co_restore_known :: "string \<Rightarrow> recovery_fence \<Rightarrow> string \<Rightarrow> ('w, unit result) state"
  co_restore_active :: "string \<Rightarrow> recovery_fence \<Rightarrow> string \<Rightarrow> ('w, unit result) state"
  co_restore_inflight :: "string \<Rightarrow> recovery_fence \<Rightarrow> string \<Rightarrow> string \<Rightarrow> int \<Rightarrow> ('w, unit result) state"
  co_list_stable :: "string \<Rightarrow> recovery_fence \<Rightarrow> string \<Rightarrow> int \<Rightarrow> ('w, reservation_ref recovery_page result) state"
  co_delete_stable :: "string \<Rightarrow> recovery_fence \<Rightarrow> reservation_ref \<Rightarrow> ('w, unit result) state"
  co_mark_pass :: "string \<Rightarrow> recovery_fence \<Rightarrow> recovery_pass \<Rightarrow> 64 word \<Rightarrow> bool \<Rightarrow> int \<Rightarrow> ('w, unit result) state"
  co_finish :: "string \<Rightarrow> recovery_fence \<Rightarrow> ('w, unit result) state"

text \<open>The coordinator with what it depends on besides: the source of lock owners, timers, the context, the result of the
  renewals in the background of a recovery, and the order in which Go iterates over a map. The runtime may
  be nil.\<close>

record 'w rec_env =
  en_options :: recovery_options
  en_runtime :: "'w rec_runtime option"
  en_rabbit :: "'w rec_rabbit"
  en_source :: "'w rec_source"
  en_journal :: "'w rec_journal"
  en_coord :: "'w rec_coord"
  en_token :: "('w, string result) state"
  en_wait :: "int \<Rightarrow> ('w, unit result) state"
  en_elapsed :: "('w, int) state"
  en_context :: "('w, goerr) state"
  en_renewals :: "('w, unit result) state"
  en_order :: "nat \<Rightarrow> ('w, nat list) state"

subsection \<open>The log\<close>

text \<open>The calls of the recovery coordinator, and those that only the operators of special recoveries make. The last four are no calls:
  they keep an answer in the log, beside the call that got it, where the order of the operators depends on the answer.\<close>

datatype health_mark = RecoveryRunning | RecoveryFailed | RecoveryComplete | PageComplete | Converged | PassComplete | ReconcilerSuccess

datatype rec_signal = SigRecovery | SigState | SigPage | SigCorrection

datatype (plugins del: transfer code) rec_call =
    RClose string | RDrain string | ROpen string resource_fence | RWait int | RToken
  | RProbe string | RTopology string string | RDepth string string
  | RCapture | RKnown string string int | RDispatched string string int | RRunning string string int
  | RRead string string | REnter string string | RSession | RExit goerr | RComplete operation_record
  | RObserve string string | RCheckReady string resource_fence
  | REnsureKnown string resource_fence string | REnsureActive string resource_fence string
  | RRelease string resource_fence string string | RListReady string resource_fence string int
  | REnsureStable string resource_fence string string int | RReapReady string resource_fence int
  | RAcquire string string int | RCheckLock string string | RRenewLock string string int | RReleaseLock string string
  | RInspect string string | RBegin string string string int
  | RRenew string recovery_fence int | RReap string recovery_fence int | RSetHighWater string recovery_fence string
  | RReset string recovery_fence | RListOwned string recovery_fence string int
  | RDeleteOwned string recovery_fence "string list" | RRestoreKnown string recovery_fence string
  | RRestoreActive string recovery_fence string | RRestoreInflight string recovery_fence string string int
  | RListStable string recovery_fence string int | RDeleteStable string recovery_fence reservation_ref
  | RMarkPass string recovery_fence recovery_pass "64 word" bool int | RFinish string recovery_fence
  | RRenewals
  | RHealth health_mark | RTelemetry rec_signal string int
  | OWriter string | ORabbit string | OTopology | OControl string | OIdentity | OReadiness | OCountRunning
  | OBeginSpecial "operation_record option" operation_record | OCommitReady operation_record
  | OMarkDelete operation_record | OSetRepair operation_record string | OMarkRepair operation_record
  | ODeadline string string int
  | OBeginRebind string string string string string int | OBeginForce string string string int string int
  | OBeginRepair string string string string int
  | OForceDeleted string recovery_fence | ORepairHighWater string recovery_fence string | ORepairDone string recovery_fence
  | OCaptureRepair | OCandidates string string int | ORearm dispatch_candidate
  | SawWriter string bool | SawRabbit bool | SawTopology string bool | SawTime int

text \<open>An entry of the log is a call with its error.\<close>

type_synonym rec_event = "rec_call \<times> goerr"

subsection \<open>Programs that may fail\<close>

datatype 'a outcome = Ret 'a | Err "sentinel list" | Cut

type_synonym ('w, 'a) rec = "('w \<times> rec_event list, 'a outcome) state"

definition ret :: "'a \<Rightarrow> ('w, 'a) rec" where
  "ret x = State_Monad.return (Ret x)"

definition err :: "sentinel list \<Rightarrow> ('w, 'a) rec" where
  "err e = State_Monad.return (Err e)"

definition cut :: "('w, 'a) rec" where
  "cut = State_Monad.return Cut"

definition seq :: "('w, 'a) rec \<Rightarrow> ('a \<Rightarrow> ('w, 'b) rec) \<Rightarrow> ('w, 'b) rec" where
  "seq m f = State_Monad.bind m (\<lambda>r. case r of Ret x \<Rightarrow> f x | Err e \<Rightarrow> err e | Cut \<Rightarrow> cut)"

text \<open>\<open>handle m f\<close> continues with the error of \<open>m\<close>.\<close>

definition handle :: "('w, 'a) rec \<Rightarrow> (sentinel list \<Rightarrow> ('w, 'a) rec) \<Rightarrow> ('w, 'a) rec" where
  "handle m f = State_Monad.bind m (\<lambda>r. case r of Ret x \<Rightarrow> ret x | Err e \<Rightarrow> f e | Cut \<Rightarrow> cut)"

text \<open>\<open>attempt m\<close>: the value or the error of \<open>m\<close>, for code that looks at both.\<close>

definition attempt :: "('w, 'a) rec \<Rightarrow> ('w, 'a result) rec" where
  "attempt m = State_Monad.bind m (\<lambda>r. case r of Ret x \<Rightarrow> ret (Inr x) | Err e \<Rightarrow> ret (Inl e) | Cut \<Rightarrow> cut)"

definition raise :: "goerr \<Rightarrow> ('w, unit) rec" where
  "raise e = (case e of None \<Rightarrow> ret () | Some ss \<Rightarrow> err ss)"

definition of_result :: "'a result \<Rightarrow> ('w, 'a) rec" where
  "of_result r = (case r of Inl ss \<Rightarrow> err ss | Inr x \<Rightarrow> ret x)"

definition invoke :: "('w, 'a result) state \<Rightarrow> rec_call \<Rightarrow> ('w, 'a) rec" where
  "invoke op cl = State (\<lambda>(w, l). case run_state op w of
     (r, w') \<Rightarrow> (case r of Inl ss \<Rightarrow> (Err ss, (w', l @ [(cl, Some ss)])) | Inr x \<Rightarrow> (Ret x, (w', l @ [(cl, None)]))))"

text \<open>A call whose answer is kept in the log\<close>

definition answered :: "('w, 'a result) state \<Rightarrow> rec_call \<Rightarrow> ('a \<Rightarrow> rec_call) \<Rightarrow> ('w, 'a) rec" where
  "answered op cl saw = seq (invoke op cl) (\<lambda>x. State (\<lambda>(w, l). (Ret x, (w, l @ [(saw x, None)]))))"

definition sense :: "('w, 'a) state \<Rightarrow> ('w, 'a) rec" where
  "sense op = State (\<lambda>(w, l). case run_state op w of (x, w') \<Rightarrow> (Ret x, (w', l)))"

definition tell :: "rec_call \<Rightarrow> ('w, unit) rec" where
  "tell cl = State (\<lambda>(w, l). (Ret (), (w, l @ [(cl, None)])))"

fun each :: "('a \<Rightarrow> ('w, unit) rec) \<Rightarrow> 'a list \<Rightarrow> ('w, unit) rec" where
  "each f [] = ret ()"
| "each f (x # xs) = seq (f x) (\<lambda>_. each f xs)"

text \<open>The elements of a map in the order of an iteration, which is a permutation of their positions\<close>

definition in_order :: "nat list \<Rightarrow> 'a list \<Rightarrow> 'a list" where
  "in_order p xs = (if sort p = [0..<length xs] then map ((!) xs) p else xs)"

definition range_map :: "'w rec_env \<Rightarrow> 'a list \<Rightarrow> ('w, 'a list) rec" where
  "range_map env xs = seq (sense (en_order env (length xs))) (\<lambda>p. ret (in_order p xs))"

end
