(* ===== verification/Fq_Recovery_Run.thy ===== *)
theory Fq_Recovery_Run
  imports Fq_Recovery_Env
begin

text \<open>
  The rebuild of a resource (\<^verbatim>\<open>recovery.go\<close>): \<open>RunRecovery\<close> with its passes over MySQL, RabbitMQ and
  Redis, and \<open>FinishRecovery\<close>.
\<close>

subsection \<open>Calls behind the recovery fence\<close>

definition coord_renew :: "'w rec_env \<Rightarrow> string \<Rightarrow> recovery_fence \<Rightarrow> ('w, unit) rec" where
  "coord_renew env resource f =
     invoke (co_renew (en_coord env) resource f (ro_lock_ttl (en_options env))) (RRenew resource f (ro_lock_ttl (en_options env)))"

definition recovery_mutation :: "'w rec_env \<Rightarrow> string \<Rightarrow> recovery_fence \<Rightarrow> ('w, 'a) rec \<Rightarrow> ('w, 'a) rec" where
  "recovery_mutation env resource f m =
     seq (coord_renew env resource f) (\<lambda>_. seq m (\<lambda>x. seq (coord_renew env resource f) (\<lambda>_. ret x)))"

definition recovery_rabbit_call :: "'w rec_env \<Rightarrow> string \<Rightarrow> recovery_fence \<Rightarrow> ('w, 'a) rec \<Rightarrow> ('w, 'a) rec" where
  "recovery_rabbit_call env resource f m =
     seq (coord_renew env resource f) (\<lambda>_. seq m (\<lambda>x. seq (coord_renew env resource f) (\<lambda>_. ret x)))"

definition inspect_recovery_fence :: "'w rec_env \<Rightarrow> string \<Rightarrow> recovery_fence \<Rightarrow> ('w, recovery_progress) rec" where
  "inspect_recovery_fence env resource f =
     seq (coord_renew env resource f) (\<lambda>_.
     seq (invoke (co_inspect (en_coord env) resource (rf_owner f)) (RInspect resource (rf_owner f))) (\<lambda>snap.
       case snap of
         None \<Rightarrow> err [ErrFenceMismatch]
       | Some s \<Rightarrow>
           if cs_state s \<noteq> ''RECOVERING'' \<or> cs_epoch s \<noteq> rf_epoch f \<or> cs_writer s \<noteq> rf_writer f
             \<or> cs_kind s \<noteq> rf_kind f \<or> cs_operation s \<noteq> rf_operation f then err [ErrFenceMismatch]
           else (case cs_progress s of
               None \<Rightarrow> err [ErrFenceMismatch]
             | Some p \<Rightarrow> seq (coord_renew env resource f) (\<lambda>_. ret p))))"

definition record_page :: "'w rec_env \<Rightarrow> int \<Rightarrow> ('w, unit) rec" where
  "record_page env n = seq (tell (RHealth PageComplete)) (\<lambda>_. tell (RTelemetry SigPage ''ok'' n))"

text \<open>\<open>DrainAttempts\<close>: the gates close, the attempts end, and at least one publish attempt timeout passes.\<close>

definition drain_attempts :: "'w rec_env \<Rightarrow> resource_config \<Rightarrow> ('w, unit) rec" where
  "drain_attempts env cf =
     seq (raise (validate_resource_config cf)) (\<lambda>_.
     seq (case en_runtime env of
            None \<Rightarrow> ret ()
          | Some rt \<Rightarrow>
              seq (invoke (rt_close rt (rc_key cf)) (RClose (rc_key cf))) (\<lambda>_.
                invoke (rt_drain rt (rc_key cf)) (RDrain (rc_key cf)))) (\<lambda>_.
     seq (sense (en_elapsed env)) (\<lambda>elapsed.
       let remaining = i64 (publish_attempt_timeout cf - elapsed)
       in if remaining > 0 then invoke (en_wait env remaining) (RWait remaining) else ret ())))"

definition reap_once :: "'w rec_env \<Rightarrow> resource_config \<Rightarrow> recovery_fence \<Rightarrow> ('w, cleanup_result) rec" where
  "reap_once env cf f =
     seq (recovery_mutation env (rc_key cf) f
       (invoke (co_reap (en_coord env) (rc_key cf) f (reconcile_page_size cf)) (RReap (rc_key cf) f (reconcile_page_size cf)))) (\<lambda>r.
     seq (raise (join_err ErrCoordinationCorrupt (validate_cleanup r))) (\<lambda>_. ret r))"

fun drain_recovery_leases :: "nat \<Rightarrow> 'w rec_env \<Rightarrow> resource_config \<Rightarrow> recovery_fence \<Rightarrow> ('w, unit) rec" where
  "drain_recovery_leases 0 env cf f = cut"
| "drain_recovery_leases (Suc n) env cf f =
     seq (reap_once env cf f) (\<lambda>r.
       if remaining_provisionals r = 0 \<and> remaining_turns r = 0 then ret ()
       else
         seq (handle (invoke (en_wait env (ro_cleanup (en_options env))) (RWait (ro_cleanup (en_options env))))
                (\<lambda>e. err (ErrResourceNotReady # e))) (\<lambda>_.
         drain_recovery_leases n env cf f))"

definition capture_recovery_high_water :: "'w rec_env \<Rightarrow> string \<Rightarrow> recovery_fence \<Rightarrow> ('w, string) rec" where
  "capture_recovery_high_water env resource f =
     seq (coord_renew env resource f) (\<lambda>_.
     seq (invoke (so_high_water (en_source env)) RCapture) (\<lambda>hw.
     seq (raise (join_err ErrCoordinationCorrupt (validate_high_water hw))) (\<lambda>_.
     seq (coord_renew env resource f) (\<lambda>_. ret hw))))"

subsection \<open>Passes\<close>

fun delete_owned_pages :: "nat \<Rightarrow> 'w rec_env \<Rightarrow> resource_config \<Rightarrow> recovery_fence \<Rightarrow> string \<Rightarrow> ('w, unit) rec" where
  "delete_owned_pages 0 env cf f after = cut"
| "delete_owned_pages (Suc n) env cf f after =
     seq (coord_renew env (rc_key cf) f) (\<lambda>_.
     seq (invoke (co_list_owned (en_coord env) (rc_key cf) f after (reconcile_page_size cf))
            (RListOwned (rc_key cf) f after (reconcile_page_size cf))) (\<lambda>page.
     seq (raise (join_err ErrCoordinationCorrupt (validate_page validate_key_ref page after (reconcile_page_size cf)))) (\<lambda>_.
     seq (recovery_mutation env (rc_key cf) f
            (invoke (co_delete_owned (en_coord env) (rc_key cf) f (page_items page))
               (RDeleteOwned (rc_key cf) f (page_items page)))) (\<lambda>_.
     seq (record_page env (int (length (page_items page)))) (\<lambda>_.
       if page_done page then ret () else delete_owned_pages n env cf f (page_next page))))))"

text \<open>A page of the source, read between two renewals. \<open>check_items\<close> is what the caller demands of the items besides.\<close>

definition source_page ::
  "'w rec_env \<Rightarrow> resource_config \<Rightarrow> recovery_fence \<Rightarrow> ('a \<Rightarrow> goerr) \<Rightarrow> ('a \<Rightarrow> bool) \<Rightarrow> string \<Rightarrow> ('w, 'a recovery_page) rec
   \<Rightarrow> ('w, 'a recovery_page) rec" where
  "source_page env cf f validate_item item_ok after fetch =
     seq (coord_renew env (rc_key cf) f) (\<lambda>_.
     seq fetch (\<lambda>page.
     seq (raise (join_err ErrCoordinationCorrupt (validate_page validate_item page after (reconcile_page_size cf)))) (\<lambda>_.
     seq (raise (fail_when (\<not> list_all item_ok (page_items page)) (wraps ErrCoordinationCorrupt))) (\<lambda>_.
     seq (coord_renew env (rc_key cf) f) (\<lambda>_. ret page)))))"

definition config_task_ok :: "resource_config \<Rightarrow> string \<Rightarrow> bool" where
  "config_task_ok cf task = (case rc_validate_task_id cf of None \<Rightarrow> False | Some v \<Rightarrow> v task)"

definition list_known_recovery_page ::
  "'w rec_env \<Rightarrow> resource_config \<Rightarrow> recovery_fence \<Rightarrow> string \<Rightarrow> string \<Rightarrow> ('w, string recovery_page) rec" where
  "list_known_recovery_page env cf f hw after =
     source_page env cf f validate_tenant_id (\<lambda>_. True) after
       (invoke (so_known (en_source env) hw after (reconcile_page_size cf)) (RKnown hw after (reconcile_page_size cf)))"

definition list_running_recovery_page ::
  "'w rec_env \<Rightarrow> resource_config \<Rightarrow> recovery_fence \<Rightarrow> string \<Rightarrow> string \<Rightarrow> ('w, running_lease recovery_page) rec" where
  "list_running_recovery_page env cf f hw after =
     source_page env cf f validate_running_lease (\<lambda>r. config_task_ok cf (rl_task r)) after
       (invoke (so_running (en_source env) hw after (reconcile_page_size cf)) (RRunning hw after (reconcile_page_size cf)))"

definition list_dispatched_recovery_page ::
  "'w rec_env \<Rightarrow> resource_config \<Rightarrow> recovery_fence \<Rightarrow> string \<Rightarrow> string \<Rightarrow> ('w, dispatched_ref recovery_page) rec" where
  "list_dispatched_recovery_page env cf f hw after =
     source_page env cf f validate_dispatched_ref
       (\<lambda>r. dt_resource (dr_token r) = rc_key cf \<and> config_task_ok cf (dt_task_id (dr_token r))) after
       (invoke (so_dispatched (en_source env) hw after (reconcile_page_size cf)) (RDispatched hw after (reconcile_page_size cf)))"

definition mark_pass :: "'w rec_env \<Rightarrow> resource_config \<Rightarrow> recovery_fence \<Rightarrow> recovery_pass \<Rightarrow> 64 word \<Rightarrow> int \<Rightarrow> ('w, unit) rec" where
  "mark_pass env cf f pass cycle diff =
     recovery_mutation env (rc_key cf) f
       (invoke (co_mark_pass (en_coord env) (rc_key cf) f pass cycle True diff) (RMarkPass (rc_key cf) f pass cycle True diff))"

fun restore_known_pages ::
  "nat \<Rightarrow> 'w rec_env \<Rightarrow> resource_config \<Rightarrow> recovery_fence \<Rightarrow> string \<Rightarrow> string \<Rightarrow> ('w, unit) rec" where
  "restore_known_pages 0 env cf f hw after = cut"
| "restore_known_pages (Suc n) env cf f hw after =
     seq (list_known_recovery_page env cf f hw after) (\<lambda>page.
     seq (each (\<lambda>tenant.
            seq (recovery_rabbit_call env (rc_key cf) f
                   (invoke (rb_topology (en_rabbit env) (rc_key cf) tenant) (RTopology (rc_key cf) tenant))) (\<lambda>_.
              recovery_mutation env (rc_key cf) f
                (invoke (co_restore_known (en_coord env) (rc_key cf) f tenant) (RRestoreKnown (rc_key cf) f tenant))))
          (page_items page)) (\<lambda>_.
     seq (record_page env (int (length (page_items page)))) (\<lambda>_.
       if page_done page then ret () else restore_known_pages n env cf f hw (page_next page))))"

definition restore_known_recovery ::
  "nat \<Rightarrow> 'w rec_env \<Rightarrow> resource_config \<Rightarrow> recovery_fence \<Rightarrow> string \<Rightarrow> 64 word \<Rightarrow> ('w, unit) rec" where
  "restore_known_recovery n env cf f hw cycle =
     seq (restore_known_pages n env cf f hw []) (\<lambda>_. mark_pass env cf f PassKnownTenants cycle 0)"

text \<open>\<open>recoveryLeaseIdentity\<close>; \<open>Time.Sub\<close> saturates.\<close>

definition time_sub :: "int \<Rightarrow> int \<Rightarrow> int" where
  "time_sub a b = max (- (2 ^ 63)) (min (2 ^ 63 - 1) (a - b))"

definition recovery_lease_identity ::
  "(string \<Rightarrow> string) \<Rightarrow> resource_config \<Rightarrow> running_lease \<Rightarrow> (string \<times> int) result" where
  "recovery_lease_identity H cf r =
     (if validate_running_lease r \<noteq> None \<or> \<not> config_task_ok cf (rl_task r) then Inl [ErrCoordinationCorrupt, ErrInvalidModel]
      else case stable_reservation_token H (rc_key cf) (rl_task r) (rl_generation r) of
          Inl ss \<Rightarrow> Inl (ErrCoordinationCorrupt # ss)
        | Inr token \<Rightarrow>
            let ttl = time_sub (rl_until r) (rl_now r)
            in if ttl \<le> 0 \<or> ttl > max_resource_duration then Inl [ErrCoordinationCorrupt] else Inr (token, ttl))"

fun restore_leases ::
  "(string \<Rightarrow> string) \<Rightarrow> 'w rec_env \<Rightarrow> resource_config \<Rightarrow> recovery_fence \<Rightarrow> int \<Rightarrow> running_lease list \<Rightarrow> ('w, int) rec" where
  "restore_leases H env cf f held [] = ret held"
| "restore_leases H env cf f held (r # rs) =
     (if held + 1 > rc_global cf then err [ErrCoordinationCorrupt]
      else
        seq (of_result (recovery_lease_identity H cf r)) (\<lambda>(token, ttl).
        seq (recovery_mutation env (rc_key cf) f
               (invoke (co_restore_inflight (en_coord env) (rc_key cf) f (rl_tenant r) token ttl)
                  (RRestoreInflight (rc_key cf) f (rl_tenant r) token ttl))) (\<lambda>_.
          restore_leases H env cf f (held + 1) rs)))"

fun restore_running_pages ::
  "(string \<Rightarrow> string) \<Rightarrow> nat \<Rightarrow> 'w rec_env \<Rightarrow> resource_config \<Rightarrow> recovery_fence \<Rightarrow> string \<Rightarrow> string \<Rightarrow> int \<Rightarrow> ('w, unit) rec" where
  "restore_running_pages H 0 env cf f hw after held = cut"
| "restore_running_pages H (Suc n) env cf f hw after held =
     seq (list_running_recovery_page env cf f hw after) (\<lambda>page.
     seq (restore_leases H env cf f held (page_items page)) (\<lambda>held.
     seq (record_page env (int (length (page_items page)))) (\<lambda>_.
       if page_done page then ret () else restore_running_pages H n env cf f hw (page_next page) held)))"

definition restore_running_recovery ::
  "(string \<Rightarrow> string) \<Rightarrow> nat \<Rightarrow> 'w rec_env \<Rightarrow> resource_config \<Rightarrow> recovery_fence \<Rightarrow> string \<Rightarrow> ('w, unit) rec" where
  "restore_running_recovery H n env cf f hw = restore_running_pages H n env cf f hw [] 0"

fun restore_dispatched_pages ::
  "nat \<Rightarrow> 'w rec_env \<Rightarrow> resource_config \<Rightarrow> recovery_fence \<Rightarrow> string \<Rightarrow> string \<Rightarrow> ('w, unit) rec" where
  "restore_dispatched_pages 0 env cf f hw after = cut"
| "restore_dispatched_pages (Suc n) env cf f hw after =
     seq (list_dispatched_recovery_page env cf f hw after) (\<lambda>page.
     seq (each (\<lambda>item.
            seq (recovery_rabbit_call env (rc_key cf) f
                   (invoke (rb_topology (en_rabbit env) (rc_key cf) (dr_tenant item)) (RTopology (rc_key cf) (dr_tenant item)))) (\<lambda>_.
            seq (recovery_rabbit_call env (rc_key cf) f
                   (invoke (rb_depth (en_rabbit env) (rc_key cf) (dr_tenant item)) (RDepth (rc_key cf) (dr_tenant item)))) (\<lambda>depth.
              if depth < 0 then err [ErrCoordinationCorrupt]
              else if depth > 0 then
                recovery_mutation env (rc_key cf) f
                  (invoke (co_restore_active (en_coord env) (rc_key cf) f (dr_tenant item)) (RRestoreActive (rc_key cf) f (dr_tenant item)))
              else ret ())))
          (page_items page)) (\<lambda>_.
     seq (record_page env (int (length (page_items page)))) (\<lambda>_.
       if page_done page then ret () else restore_dispatched_pages n env cf f hw (page_next page))))"

definition restore_dispatched_recovery ::
  "nat \<Rightarrow> 'w rec_env \<Rightarrow> resource_config \<Rightarrow> recovery_fence \<Rightarrow> string \<Rightarrow> 64 word \<Rightarrow> ('w, unit) rec" where
  "restore_dispatched_recovery n env cf f hw cycle =
     seq (restore_dispatched_pages n env cf f hw []) (\<lambda>_. mark_pass env cf f PassDispatched cycle 0)"

subsection \<open>Stable reservations\<close>

text \<open>The canonical leases are a map from stable tokens to tenants and remaining times, the stored reservations one from
  stable tokens to references; both are association lists without duplicate keys.\<close>

type_synonym canonical = "(string \<times> string \<times> int) list"

fun add_canonical ::
  "(string \<Rightarrow> string) \<Rightarrow> resource_config \<Rightarrow> running_lease list \<Rightarrow> canonical \<Rightarrow> canonical result" where
  "add_canonical H cf [] m = Inr m"
| "add_canonical H cf (r # rs) m =
     bind_result (recovery_lease_identity H cf r) (\<lambda>(token, ttl).
       if map_of m token \<noteq> None then Inl [ErrCoordinationCorrupt]
       else if int (length m) \<ge> rc_global cf then Inl [ErrCoordinationCorrupt]
       else add_canonical H cf rs (m @ [(token, rl_tenant r, ttl)]))"

fun load_canonical_pages ::
  "(string \<Rightarrow> string) \<Rightarrow> nat \<Rightarrow> 'w rec_env \<Rightarrow> resource_config \<Rightarrow> recovery_fence \<Rightarrow> string \<Rightarrow> string \<Rightarrow> canonical
   \<Rightarrow> ('w, canonical) rec" where
  "load_canonical_pages H 0 env cf f hw after m = cut"
| "load_canonical_pages H (Suc n) env cf f hw after m =
     seq (list_running_recovery_page env cf f hw after) (\<lambda>page.
     seq (of_result (add_canonical H cf (page_items page) m)) (\<lambda>m.
     seq (record_page env (int (length (page_items page)))) (\<lambda>_.
       if page_done page then ret m else load_canonical_pages H n env cf f hw (page_next page) m)))"

fun add_stored :: "resource_config \<Rightarrow> reservation_ref list \<Rightarrow> (string \<times> reservation_ref) list \<Rightarrow> (string \<times> reservation_ref) list result" where
  "add_stored cf [] m = Inr m"
| "add_stored cf (r # rs) m =
     (if map_of m (ref_stable_token r) \<noteq> None then Inl [ErrCoordinationCorrupt]
      else if int (length m) \<ge> rc_global cf then Inl [ErrCoordinationCorrupt]
      else add_stored cf rs (m @ [(ref_stable_token r, r)]))"

fun load_stored_pages ::
  "nat \<Rightarrow> 'w rec_env \<Rightarrow> resource_config \<Rightarrow> recovery_fence \<Rightarrow> string \<Rightarrow> (string \<times> reservation_ref) list
   \<Rightarrow> ('w, (string \<times> reservation_ref) list) rec" where
  "load_stored_pages 0 env cf f after m = cut"
| "load_stored_pages (Suc n) env cf f after m =
     seq (coord_renew env (rc_key cf) f) (\<lambda>_.
     seq (invoke (co_list_stable (en_coord env) (rc_key cf) f after (reconcile_page_size cf))
            (RListStable (rc_key cf) f after (reconcile_page_size cf))) (\<lambda>page.
     seq (raise (join_err ErrCoordinationCorrupt (validate_page validate_reservation_ref page after (reconcile_page_size cf)))) (\<lambda>_.
     seq (of_result (add_stored cf (page_items page) m)) (\<lambda>m.
     seq (coord_renew env (rc_key cf) f) (\<lambda>_.
     seq (record_page env (int (length (page_items page)))) (\<lambda>_.
       if page_done page then ret m else load_stored_pages n env cf f (page_next page) m))))))"

text \<open>What is stored but not canonical, and what is canonical but not stored\<close>

definition stale_refs :: "canonical \<Rightarrow> (string \<times> reservation_ref) list \<Rightarrow> (string \<times> reservation_ref) list" where
  "stale_refs canon stored =
     filter (\<lambda>(token, ref). case map_of canon token of Some (tenant, _) \<Rightarrow> tenant \<noteq> ref_tenant ref | None \<Rightarrow> True) stored"

definition missing_leases :: "canonical \<Rightarrow> (string \<times> reservation_ref) list \<Rightarrow> canonical" where
  "missing_leases canon stored =
     filter (\<lambda>(token, tenant, _). case map_of stored token of Some ref \<Rightarrow> ref_tenant ref \<noteq> tenant | None \<Rightarrow> True) canon"

definition reconcile_recovery_stable ::
  "(string \<Rightarrow> string) \<Rightarrow> nat \<Rightarrow> 'w rec_env \<Rightarrow> resource_config \<Rightarrow> recovery_fence \<Rightarrow> string \<Rightarrow> ('w, int) rec" where
  "reconcile_recovery_stable H n env cf f hw =
     seq (load_canonical_pages H n env cf f hw [] []) (\<lambda>canon.
     seq (load_stored_pages n env cf f [] []) (\<lambda>stored.
     seq (range_map env stored) (\<lambda>stored_items.
     seq (each (\<lambda>(token, ref).
            recovery_mutation env (rc_key cf) f
              (invoke (co_delete_stable (en_coord env) (rc_key cf) f ref) (RDeleteStable (rc_key cf) f ref)))
          (stale_refs canon stored_items)) (\<lambda>_.
     seq (range_map env canon) (\<lambda>canon_items.
     seq (each (\<lambda>(token, tenant, ttl).
            recovery_mutation env (rc_key cf) f
              (invoke (co_restore_inflight (en_coord env) (rc_key cf) f tenant token ttl)
                 (RRestoreInflight (rc_key cf) f tenant token ttl)))
          canon_items) (\<lambda>_.
     let diff = int (length (stale_refs canon stored)) + int (length (missing_leases canon stored))
     in seq (tell (RTelemetry SigCorrection ''repair'' diff)) (\<lambda>_. ret diff)))))))"

text \<open>The cycles of the running pass, until one finds no difference; \<open>math.MaxUint64\<close> is \<open>-1\<close>.\<close>

fun converge_running ::
  "(string \<Rightarrow> string) \<Rightarrow> nat \<Rightarrow> nat \<Rightarrow> 'w rec_env \<Rightarrow> resource_config \<Rightarrow> recovery_fence \<Rightarrow> string \<Rightarrow> 64 word \<Rightarrow> ('w, 64 word) rec" where
  "converge_running H n 0 env cf f hw cycle = cut"
| "converge_running H n (Suc k) env cf f hw cycle =
     seq (reconcile_recovery_stable H n env cf f hw) (\<lambda>diff.
     seq (mark_pass env cf f PassRunning cycle diff) (\<lambda>_.
       if diff = 0 then ret cycle
       else if cycle = - 1 then err [ErrCoordinationCorrupt]
       else converge_running H n k env cf f hw (cycle + 1)))"

subsection \<open>The rebuild\<close>

text \<open>\<open>withRecoveryRenewal\<close>: the fence is renewed, then also in the background; an error of the background wins.\<close>

definition with_recovery_renewal :: "'w rec_env \<Rightarrow> string \<Rightarrow> recovery_fence \<Rightarrow> ('w, 'a) rec \<Rightarrow> ('w, 'a) rec" where
  "with_recovery_renewal env resource f body =
     seq (coord_renew env resource f) (\<lambda>_.
     seq (attempt body) (\<lambda>r.
     seq (invoke (en_renewals env) RRenewals) (\<lambda>_. of_result r)))"

definition recovery_high_water ::
  "'w rec_env \<Rightarrow> resource_config \<Rightarrow> recovery_fence \<Rightarrow> ('w, string) rec" where
  "recovery_high_water env cf f =
     seq (inspect_recovery_fence env (rc_key cf) f) (\<lambda>p.
     seq (if rp_high_water p = [] then
            seq (capture_recovery_high_water env (rc_key cf) f) (\<lambda>hw.
            seq (recovery_mutation env (rc_key cf) f
                   (invoke (co_set_high_water (en_coord env) (rc_key cf) f hw) (RSetHighWater (rc_key cf) f hw))) (\<lambda>_. ret hw))
          else ret (rp_high_water p)) (\<lambda>hw.
     seq (raise (join_err ErrCoordinationCorrupt (validate_high_water hw))) (\<lambda>_. ret hw)))"

definition rebuild_body ::
  "(string \<Rightarrow> string) \<Rightarrow> nat \<Rightarrow> 'w rec_env \<Rightarrow> resource_config \<Rightarrow> recovery_fence \<Rightarrow> ('w, unit) rec" where
  "rebuild_body H n env cf f =
     seq (drain_attempts env cf) (\<lambda>_.
     seq (drain_recovery_leases n env cf f) (\<lambda>_.
     seq (recovery_high_water env cf f) (\<lambda>hw.
     seq (recovery_mutation env (rc_key cf) f
            (invoke (co_reset (en_coord env) (rc_key cf) f) (RReset (rc_key cf) f))) (\<lambda>_.
     seq (delete_owned_pages n env cf f []) (\<lambda>_.
     seq (restore_known_recovery n env cf f hw 1) (\<lambda>_.
     seq (restore_running_recovery H n env cf f hw) (\<lambda>_.
     seq (restore_dispatched_recovery n env cf f hw 1) (\<lambda>_.
     seq (converge_running H n n env cf f hw 1) (\<lambda>cycle.
       if cycle = - 1 then err [ErrCoordinationCorrupt]
       else
         seq (restore_known_recovery n env cf f hw (cycle + 1)) (\<lambda>_.
           restore_dispatched_recovery n env cf f hw (cycle + 1)))))))))))"

definition run_recovery ::
  "(string \<Rightarrow> string) \<Rightarrow> nat \<Rightarrow> 'w rec_env \<Rightarrow> resource_config \<Rightarrow> recovery_fence \<Rightarrow> ('w, unit) rec" where
  "run_recovery H n env cf f =
     seq (raise (validate_resource_config cf)) (\<lambda>_.
     seq (raise (as_sentinel ErrInvalidModel (validate_recovery_fence f))) (\<lambda>_.
     seq (with_recovery_renewal env (rc_key cf) f (rebuild_body H n env cf f)) (\<lambda>_.
     seq (tell (RHealth Converged)) (\<lambda>_. tell (RHealth PassComplete)))))"

definition observe_ready :: "'w rec_env \<Rightarrow> string \<Rightarrow> string \<Rightarrow> ('w, resource_fence) rec" where
  "observe_ready env resource writer = invoke (co_observe (en_coord env) resource writer) (RObserve resource writer)"

definition coordinator_finish :: "'w rec_env \<Rightarrow> resource_config \<Rightarrow> recovery_fence \<Rightarrow> ('w, resource_fence) rec" where
  "coordinator_finish env cf f =
     seq (raise (fail_when (validate_resource_config cf \<noteq> None \<or> validate_recovery_fence f \<noteq> None) (wraps ErrInvalidModel))) (\<lambda>_.
     seq (reap_once env cf f) (\<lambda>r.
     seq (raise (fail_when (remaining_provisionals r \<noteq> 0 \<or> remaining_turns r \<noteq> 0) (wraps ErrResourceNotReady))) (\<lambda>_.
     seq (invoke (co_finish (en_coord env) (rc_key cf) f) (RFinish (rc_key cf) f)) (\<lambda>_.
     seq (observe_ready env (rc_key cf) (rf_writer f)) (\<lambda>ready.
       if ready \<noteq> resource_fence_of f then err [ErrFenceMismatch] else ret ready)))))"

end
