(* ===== verification/Fq_Recovery_Barrier.thy ===== *)
theory Fq_Recovery_Barrier
  imports Fq_Recovery_Run
begin

text \<open>
  The startup barrier (\<^verbatim>\<open>recovery.go\<close>): reconciliation of a READY resource with MySQL, the start of a normal
  recovery, \<open>EnsureResourceReady\<close>, and the loop \<open>Run\<close>.
\<close>

subsection \<open>Reconciliation of a READY resource\<close>

definition ready_check :: "'w rec_env \<Rightarrow> string \<Rightarrow> resource_fence \<Rightarrow> ('w, unit) rec" where
  "ready_check env resource f = invoke (co_check_ready (en_coord env) resource f) (RCheckReady resource f)"

definition ready_rabbit_call :: "'w rec_env \<Rightarrow> string \<Rightarrow> resource_fence \<Rightarrow> ('w, 'a) rec \<Rightarrow> ('w, 'a) rec" where
  "ready_rabbit_call env resource f m =
     seq (ready_check env resource f) (\<lambda>_. seq m (\<lambda>x. seq (ready_check env resource f) (\<lambda>_. ret x)))"

fun reconcile_ready_known ::
  "nat \<Rightarrow> 'w rec_env \<Rightarrow> resource_config \<Rightarrow> resource_fence \<Rightarrow> string \<Rightarrow> string \<Rightarrow> ('w, unit) rec" where
  "reconcile_ready_known 0 env cf f hw after = cut"
| "reconcile_ready_known (Suc n) env cf f hw after =
     seq (ready_check env (rc_key cf) f) (\<lambda>_.
     seq (invoke (so_known (en_source env) hw after (reconcile_page_size cf)) (RKnown hw after (reconcile_page_size cf))) (\<lambda>page.
     seq (raise (join_err ErrCoordinationCorrupt (validate_page validate_tenant_id page after (reconcile_page_size cf)))) (\<lambda>_.
     seq (ready_check env (rc_key cf) f) (\<lambda>_.
     seq (each (\<lambda>tenant.
            seq (ready_rabbit_call env (rc_key cf) f
                   (invoke (rb_topology (en_rabbit env) (rc_key cf) tenant) (RTopology (rc_key cf) tenant))) (\<lambda>_.
              invoke (co_ensure_known (en_coord env) (rc_key cf) f tenant) (REnsureKnown (rc_key cf) f tenant)))
          (page_items page)) (\<lambda>_.
     seq (record_page env (int (length (page_items page)))) (\<lambda>_.
       if page_done page then ret () else reconcile_ready_known n env cf f hw (page_next page)))))))"

fun reconcile_ready_dispatched ::
  "nat \<Rightarrow> 'w rec_env \<Rightarrow> resource_config \<Rightarrow> resource_fence \<Rightarrow> string \<Rightarrow> string \<Rightarrow> ('w, unit) rec" where
  "reconcile_ready_dispatched 0 env cf f hw after = cut"
| "reconcile_ready_dispatched (Suc n) env cf f hw after =
     seq (ready_check env (rc_key cf) f) (\<lambda>_.
     seq (invoke (so_dispatched (en_source env) hw after (reconcile_page_size cf))
            (RDispatched hw after (reconcile_page_size cf))) (\<lambda>page.
     seq (raise (join_err ErrCoordinationCorrupt
            (validate_page validate_dispatched_ref page after (reconcile_page_size cf)))) (\<lambda>_.
     seq (each (\<lambda>item.
            if dt_resource (dr_token item) \<noteq> rc_key cf \<or> \<not> config_task_ok cf (dt_task_id (dr_token item))
            then err [ErrCoordinationCorrupt]
            else
              seq (ready_rabbit_call env (rc_key cf) f
                     (invoke (rb_topology (en_rabbit env) (rc_key cf) (dr_tenant item)) (RTopology (rc_key cf) (dr_tenant item)))) (\<lambda>_.
              seq (ready_rabbit_call env (rc_key cf) f
                     (invoke (rb_depth (en_rabbit env) (rc_key cf) (dr_tenant item)) (RDepth (rc_key cf) (dr_tenant item)))) (\<lambda>depth.
                if depth < 0 then err [ErrCoordinationCorrupt]
                else if depth > 0 then
                  invoke (co_ensure_active (en_coord env) (rc_key cf) f (dr_tenant item)) (REnsureActive (rc_key cf) f (dr_tenant item))
                else ret ())))
          (page_items page)) (\<lambda>_.
     seq (ready_check env (rc_key cf) f) (\<lambda>_.
     seq (record_page env (int (length (page_items page)))) (\<lambda>_.
       if page_done page then ret () else reconcile_ready_dispatched n env cf f hw (page_next page)))))))"

fun ready_canonical_pages ::
  "(string \<Rightarrow> string) \<Rightarrow> nat \<Rightarrow> 'w rec_env \<Rightarrow> resource_config \<Rightarrow> resource_fence \<Rightarrow> string \<Rightarrow> string \<Rightarrow> canonical
   \<Rightarrow> ('w, canonical) rec" where
  "ready_canonical_pages H 0 env cf f hw after m = cut"
| "ready_canonical_pages H (Suc n) env cf f hw after m =
     seq (ready_check env (rc_key cf) f) (\<lambda>_.
     seq (invoke (so_running (en_source env) hw after (reconcile_page_size cf)) (RRunning hw after (reconcile_page_size cf))) (\<lambda>page.
     seq (raise (join_err ErrCoordinationCorrupt (validate_page validate_running_lease page after (reconcile_page_size cf)))) (\<lambda>_.
     seq (of_result (add_canonical H cf (page_items page) m)) (\<lambda>m.
     seq (ready_check env (rc_key cf) f) (\<lambda>_.
     seq (record_page env (int (length (page_items page)))) (\<lambda>_.
       if page_done page then ret m else ready_canonical_pages H n env cf f hw (page_next page) m))))))"

fun ready_stored_pages ::
  "nat \<Rightarrow> 'w rec_env \<Rightarrow> resource_config \<Rightarrow> resource_fence \<Rightarrow> string \<Rightarrow> (string \<times> reservation_ref) list
   \<Rightarrow> ('w, (string \<times> reservation_ref) list) rec" where
  "ready_stored_pages 0 env cf f after m = cut"
| "ready_stored_pages (Suc n) env cf f after m =
     seq (invoke (co_list_ready (en_coord env) (rc_key cf) f after (reconcile_page_size cf))
            (RListReady (rc_key cf) f after (reconcile_page_size cf))) (\<lambda>page.
     seq (raise (join_err ErrCoordinationCorrupt (validate_page validate_reservation_ref page after (reconcile_page_size cf)))) (\<lambda>_.
     seq (of_result (add_stored cf (page_items page) m)) (\<lambda>m.
     seq (record_page env (int (length (page_items page)))) (\<lambda>_.
       if page_done page then ret m else ready_stored_pages n env cf f (page_next page) m))))"

definition reconcile_ready_stable ::
  "(string \<Rightarrow> string) \<Rightarrow> nat \<Rightarrow> 'w rec_env \<Rightarrow> resource_config \<Rightarrow> resource_fence \<Rightarrow> string \<Rightarrow> ('w, unit) rec" where
  "reconcile_ready_stable H n env cf f hw =
     seq (ready_canonical_pages H n env cf f hw [] []) (\<lambda>canon.
     seq (ready_stored_pages n env cf f [] []) (\<lambda>stored.
     seq (range_map env stored) (\<lambda>stored_items.
     seq (each (\<lambda>(token, ref).
            invoke (co_release (en_coord env) (rc_key cf) f (ref_tenant ref) (ref_stable_token ref))
              (RRelease (rc_key cf) f (ref_tenant ref) (ref_stable_token ref)))
          (stale_refs canon stored_items)) (\<lambda>_.
     seq (range_map env canon) (\<lambda>canon_items.
     seq (each (\<lambda>(token, tenant, ttl).
            invoke (co_ensure_stable (en_coord env) (rc_key cf) f tenant token ttl) (REnsureStable (rc_key cf) f tenant token ttl))
          canon_items) (\<lambda>_.
     seq (ready_check env (rc_key cf) f) (\<lambda>_.
       tell (RTelemetry SigCorrection ''repair''
         (int (length (stale_refs canon stored)) + int (length (missing_leases canon stored)))))))))))"

fun reap_ready_pages :: "nat \<Rightarrow> 'w rec_env \<Rightarrow> resource_config \<Rightarrow> resource_fence \<Rightarrow> ('w, unit) rec" where
  "reap_ready_pages 0 env cf f = cut"
| "reap_ready_pages (Suc n) env cf f =
     seq (invoke (co_reap_ready (en_coord env) (rc_key cf) f (reconcile_page_size cf))
            (RReapReady (rc_key cf) f (reconcile_page_size cf))) (\<lambda>r.
     seq (raise (join_err ErrCoordinationCorrupt (validate_cleanup r))) (\<lambda>_.
     seq (record_page env (i64 (removed_provisionals r + removed_turns r))) (\<lambda>_.
       if i64 (removed_provisionals r + removed_turns r) < reconcile_page_size cf then ret ()
       else reap_ready_pages n env cf f)))"

definition reconcile_ready ::
  "(string \<Rightarrow> string) \<Rightarrow> nat \<Rightarrow> 'w rec_env \<Rightarrow> resource_config \<Rightarrow> resource_fence \<Rightarrow> ('w, unit) rec" where
  "reconcile_ready H n env cf f =
     seq (raise (fail_when (validate_resource_config cf \<noteq> None \<or> validate_fence f \<noteq> None) (wraps ErrInvalidModel))) (\<lambda>_.
     seq (ready_check env (rc_key cf) f) (\<lambda>_.
     seq (invoke (so_high_water (en_source env)) RCapture) (\<lambda>hw.
     seq (raise (join_err ErrCoordinationCorrupt (validate_high_water hw))) (\<lambda>_.
     seq (ready_check env (rc_key cf) f) (\<lambda>_.
     seq (reconcile_ready_known n env cf f hw []) (\<lambda>_.
     seq (reconcile_ready_stable H n env cf f hw) (\<lambda>_.
     seq (reconcile_ready_dispatched n env cf f hw []) (\<lambda>_.
     seq (reap_ready_pages n env cf f) (\<lambda>_.
     seq (ready_check env (rc_key cf) f) (\<lambda>_. tell (RHealth ReconcilerSuccess)))))))))))"

subsection \<open>The journal\<close>

definition read_journal :: "'w rec_env \<Rightarrow> string \<Rightarrow> string \<Rightarrow> ('w, operation_record option) rec" where
  "read_journal env resource writer =
     seq (handle (invoke (jo_read (en_journal env) resource writer) (RRead resource writer))
            (\<lambda>e. if errors_is (Some e) ErrInvalidOperationRecord then err (ErrCoordinationCorrupt # e) else err e)) (\<lambda>r.
       case r of
         None \<Rightarrow> ret None
       | Some rec \<Rightarrow>
           if validate_persisted rec \<noteq> None \<or> op_resource rec \<noteq> resource then err [ErrCoordinationCorrupt, ErrInvalidOperationRecord]
           else if op_current_writer rec \<noteq> writer then err [ErrAuthoritativeWriterMismatch]
           else ret (Some rec))"

text \<open>\<open>WithStartFence\<close> around a callback that sets a captured variable; the variable keeps what the callback
  has set even if the callback fails afterwards.\<close>

definition with_start_fence ::
  "'w rec_env \<Rightarrow> string \<Rightarrow> string \<Rightarrow> ('w, 'a option \<times> goerr) rec \<Rightarrow> ('w, 'a option) rec" where
  "with_start_fence env resource writer body =
     seq (invoke (jo_enter (en_journal env) resource writer) (REnter resource writer)) (\<lambda>_.
     seq body (\<lambda>(captured, e).
     seq (invoke (jo_exit (en_journal env) e) (RExit e)) (\<lambda>_. ret captured)))"

definition session_read :: "'w rec_env \<Rightarrow> ('w, operation_record option) rec" where
  "session_read env = invoke (jo_session (en_journal env)) RSession"

definition acquire_raw_lock :: "'w rec_env \<Rightarrow> string \<Rightarrow> string \<Rightarrow> ('w, string) rec" where
  "acquire_raw_lock env resource own =
     invoke (co_acquire (en_coord env) resource own (ro_lock_ttl (en_options env))) (RAcquire resource own (ro_lock_ttl (en_options env)))"

definition check_raw_lock :: "'w rec_env \<Rightarrow> string \<Rightarrow> string \<Rightarrow> ('w, unit) rec" where
  "check_raw_lock env resource lock = invoke (co_check_lock (en_coord env) resource lock) (RCheckLock resource lock)"

definition renew_raw_lock :: "'w rec_env \<Rightarrow> string \<Rightarrow> string \<Rightarrow> ('w, unit) rec" where
  "renew_raw_lock env resource lock =
     invoke (co_renew_lock (en_coord env) resource lock (ro_lock_ttl (en_options env))) (RRenewLock resource lock (ro_lock_ttl (en_options env)))"

text \<open>The deferred release, whose error is dropped\<close>

definition release_raw_lock :: "'w rec_env \<Rightarrow> string \<Rightarrow> string \<Rightarrow> ('w, unit) rec" where
  "release_raw_lock env resource lock =
     handle (invoke (co_release_lock (en_coord env) resource lock) (RReleaseLock resource lock)) (\<lambda>_. ret ())"

definition inspect_start :: "'w rec_env \<Rightarrow> string \<Rightarrow> string \<Rightarrow> ('w, control_snapshot option) rec" where
  "inspect_start env resource lock =
     handle (invoke (co_inspect (en_coord env) resource lock) (RInspect resource lock))
       (\<lambda>e. if errors_is (Some e) ErrFenceMismatch then err (ErrUnsupportedTopology # e) else err e)"

text \<open>\<open>reconcileReadyCommitted\<close>. The callback captures \<open>exact\<close>: \<open>Some ()\<close> once the control has been compared.\<close>

definition complete_committed ::
  "'w rec_env \<Rightarrow> operation_record \<Rightarrow> string \<Rightarrow> operation_record \<Rightarrow> string \<Rightarrow> ('w, unit option \<times> goerr) rec" where
  "complete_committed env rec writer current lock =
     seq (attempt (inspect_start env (op_resource rec) lock)) (\<lambda>r. case r of
       Inl e \<Rightarrow> ret (None, Some e)
     | Inr snap \<Rightarrow>
         if (case snap of None \<Rightarrow> True | Some s \<Rightarrow>
               cs_state s \<noteq> ''READY'' \<or> cs_writer s \<noteq> writer \<or> cs_last_id s \<noteq> op_id rec \<or> cs_last_kind s \<noteq> op_kind rec)
         then ret (None, Some operator_required)
         else
           seq (attempt
             (seq (check_raw_lock env (op_resource rec) lock) (\<lambda>_.
              seq (invoke (jo_complete (en_journal env) current) (RComplete current)) (\<lambda>completed.
                if validate_persisted completed \<noteq> None \<or> op_phase completed \<noteq> COMPLETED \<or> op_id completed \<noteq> op_id current
                then err [ErrCoordinationCorrupt, ErrInvalidOperationRecord]
                else check_raw_lock env (op_resource rec) lock)))) (\<lambda>r.
           ret (Some (), case r of Inl e \<Rightarrow> Some e | Inr _ \<Rightarrow> None)))"

definition committed_body ::
  "'w rec_env \<Rightarrow> operation_record \<Rightarrow> string \<Rightarrow> ('w, unit option \<times> goerr) rec" where
  "committed_body env rec writer =
     seq (attempt (session_read env)) (\<lambda>r. case r of
       Inl e \<Rightarrow> ret (None, Some e)
     | Inr None \<Rightarrow> ret (None, Some operator_required)
     | Inr (Some current) \<Rightarrow>
         if validate_persisted current \<noteq> None \<or> op_id current \<noteq> op_id rec \<or> op_kind current \<noteq> op_kind rec
           \<or> op_phase current \<noteq> READY_COMMITTED \<or> op_current_writer current \<noteq> writer
         then ret (None, Some operator_required)
         else
           seq (attempt (invoke (en_token env) RToken)) (\<lambda>r. case r of
             Inl e \<Rightarrow> ret (None, Some e)
           | Inr own \<Rightarrow>
               seq (attempt (acquire_raw_lock env (op_resource rec) own)) (\<lambda>r. case r of
                 Inl e \<Rightarrow> ret (None, Some e)
               | Inr lock \<Rightarrow>
                   seq (complete_committed env rec writer current lock) (\<lambda>result.
                   seq (release_raw_lock env (op_resource rec) lock) (\<lambda>_. ret result)))))"

definition reconcile_ready_committed :: "'w rec_env \<Rightarrow> operation_record \<Rightarrow> string \<Rightarrow> ('w, unit) rec" where
  "reconcile_ready_committed env rec writer =
     seq (with_start_fence env (op_resource rec) writer (committed_body env rec writer)) (\<lambda>exact.
       if exact = None then err operator_required else ret ())"

subsection \<open>Starting a normal recovery\<close>

text \<open>What blocks a normal recovery: the journal when the callback starts, the control, and the journal again\<close>

definition journal_block :: "string \<Rightarrow> string \<Rightarrow> operation_record option \<Rightarrow> goerr" where
  "journal_block resource writer r =
     (case r of
        None \<Rightarrow> None
      | Some rec \<Rightarrow>
          if validate_persisted rec \<noteq> None \<or> op_resource rec \<noteq> resource
          then Some [ErrCoordinationCorrupt, ErrInvalidOperationRecord]
          else if op_current_writer rec \<noteq> writer then Some [ErrAuthoritativeWriterMismatch]
          else if op_phase rec \<noteq> COMPLETED then Some operator_required
          else None)"

definition control_block :: "string \<Rightarrow> control_snapshot option \<Rightarrow> goerr" where
  "control_block writer snap =
     (case snap of
        None \<Rightarrow> None
      | Some s \<Rightarrow>
          if cs_writer s \<noteq> writer then Some [ErrAuthoritativeWriterMismatch]
          else if cs_state s = ''RECOVERING'' \<and> cs_kind s \<noteq> NORMAL then Some operator_required
          else None)"

definition recheck_block :: "string \<Rightarrow> operation_record option \<Rightarrow> goerr" where
  "recheck_block writer r =
     (case r of
        None \<Rightarrow> None
      | Some rec \<Rightarrow>
          if validate_persisted rec \<noteq> None \<or> op_current_writer rec \<noteq> writer \<or> op_phase rec \<noteq> COMPLETED
          then Some operator_required else None)"

definition begin_locked :: "'w rec_env \<Rightarrow> string \<Rightarrow> string \<Rightarrow> string \<Rightarrow> ('w, recovery_fence) rec" where
  "begin_locked env resource writer lock =
     seq (inspect_start env resource lock) (\<lambda>snap.
     seq (raise (control_block writer snap)) (\<lambda>_.
     seq (session_read env) (\<lambda>r.
     seq (raise (recheck_block writer r)) (\<lambda>_.
     seq (renew_raw_lock env resource lock) (\<lambda>_.
     seq (check_raw_lock env resource lock) (\<lambda>_.
       invoke (co_begin (en_coord env) resource writer lock (ro_lock_ttl (en_options env)))
         (RBegin resource writer lock (ro_lock_ttl (en_options env)))))))))"

definition begin_body :: "'w rec_env \<Rightarrow> string \<Rightarrow> string \<Rightarrow> string \<Rightarrow> ('w, recovery_fence option \<times> goerr) rec" where
  "begin_body env resource writer own =
     seq (attempt (seq (session_read env) (\<lambda>r.
            seq (raise (journal_block resource writer r)) (\<lambda>_. acquire_raw_lock env resource own)))) (\<lambda>r. case r of
       Inl e \<Rightarrow> ret (None, Some e)
     | Inr lock \<Rightarrow>
         seq (attempt (begin_locked env resource writer lock)) (\<lambda>r. case r of
           Inl e \<Rightarrow> seq (release_raw_lock env resource lock) (\<lambda>_. ret (None, Some e))
         | Inr f \<Rightarrow> ret (Some f, None)))"

definition begin_normal_recovery :: "'w rec_env \<Rightarrow> string \<Rightarrow> string \<Rightarrow> ('w, recovery_fence) rec" where
  "begin_normal_recovery env resource writer =
     seq (handle (invoke (en_token env) RToken) (\<lambda>_. err [ErrCoordinationCorrupt])) (\<lambda>own.
     seq (raise (fail_when (\<not> lower_hex 32 own) (wraps ErrCoordinationCorrupt))) (\<lambda>_.
     seq (with_start_fence env resource writer (begin_body env resource writer own)) (\<lambda>captured.
       case captured of
         None \<Rightarrow> err [ErrCoordinationCorrupt, ErrInvalidRecoveryState]
       | Some f \<Rightarrow>
           if validate_recovery_fence f \<noteq> None \<or> rf_kind f \<noteq> NORMAL \<or> rf_writer f \<noteq> writer
           then err [ErrCoordinationCorrupt, ErrInvalidRecoveryState] else ret f)))"

subsection \<open>The barrier\<close>

definition validate_barrier_inputs :: "'w rec_env \<Rightarrow> resource_config \<Rightarrow> string \<Rightarrow> goerr" where
  "validate_barrier_inputs env cf writer =
     first_err [fail_when (en_runtime env = None) plain_err, validate_resource_config cf, validate_writer writer]"

definition close_resource :: "'w rec_env \<Rightarrow> string \<Rightarrow> ('w, unit) rec" where
  "close_resource env resource =
     (case en_runtime env of None \<Rightarrow> ret () | Some rt \<Rightarrow> invoke (rt_close rt resource) (RClose resource))"

definition open_resource :: "'w rec_env \<Rightarrow> string \<Rightarrow> resource_fence \<Rightarrow> ('w, unit) rec" where
  "open_resource env resource f =
     (case en_runtime env of None \<Rightarrow> ret () | Some rt \<Rightarrow> invoke (rt_open rt resource f) (ROpen resource f))"

definition probe_topology :: "'w rec_env \<Rightarrow> string \<Rightarrow> ('w, unit) rec" where
  "probe_topology env resource =
     (if \<not> rb_prober (en_rabbit env) then err [ErrUnsupportedTopology, ErrResourceNotReady]
      else
        seq (handle (invoke (rb_probe (en_rabbit env) resource) (RProbe resource)) (\<lambda>e. err (ErrResourceNotReady # e))) (\<lambda>(name, depth).
          if name \<noteq> resource \<or> depth < 0 then err [ErrAuthoritativeStateCorrupt, ErrResourceNotReady] else ret ()))"

definition open_complete :: "'w rec_env \<Rightarrow> string \<Rightarrow> resource_fence \<Rightarrow> ('w, resource_fence) rec" where
  "open_complete env resource f =
     seq (open_resource env resource f) (\<lambda>_. seq (tell (RHealth RecoveryComplete)) (\<lambda>_. ret f))"

definition rebuild_resource ::
  "(string \<Rightarrow> string) \<Rightarrow> nat \<Rightarrow> 'w rec_env \<Rightarrow> resource_config \<Rightarrow> string \<Rightarrow> ('w, resource_fence) rec" where
  "rebuild_resource H n env cf writer =
     seq (begin_normal_recovery env (rc_key cf) writer) (\<lambda>f.
     seq (run_recovery H n env cf f) (\<lambda>_.
     seq (coordinator_finish env cf f) (\<lambda>ready.
     seq (reconcile_ready H n env cf ready) (\<lambda>_. open_complete env (rc_key cf) ready))))"

text \<open>The part of the barrier after the journal has been read\<close>

definition join_or_rebuild ::
  "(string \<Rightarrow> string) \<Rightarrow> nat \<Rightarrow> 'w rec_env \<Rightarrow> resource_config \<Rightarrow> string \<Rightarrow> operation_record option \<Rightarrow> ('w, resource_fence) rec" where
  "join_or_rebuild H n env cf writer journal =
     (let committed = (case journal of None \<Rightarrow> None | Some rec \<Rightarrow> if op_phase rec = READY_COMMITTED then Some rec else None)
      in seq (attempt (observe_ready env (rc_key cf) writer)) (\<lambda>observed. case observed of
           Inr f \<Rightarrow>
             seq (case committed of None \<Rightarrow> ret () | Some rec \<Rightarrow> reconcile_ready_committed env rec writer) (\<lambda>_.
             seq (attempt (reconcile_ready H n env cf f)) (\<lambda>r. case r of
                 Inr _ \<Rightarrow> open_complete env (rc_key cf) f
               | Inl e \<Rightarrow>
                   if errors_is (Some e) ErrCoordinationCorrupt then rebuild_resource H n env cf writer else err e))
         | Inl e \<Rightarrow>
             if committed \<noteq> None then err operator_required
             else if errors_is (Some e) ErrResourceNotReady \<or> errors_is (Some e) ErrFenceMismatch
                 \<or> errors_is (Some e) ErrCoordinationCorrupt
             then rebuild_resource H n env cf writer else err e))"

definition ensure_resource_ready ::
  "(string \<Rightarrow> string) \<Rightarrow> nat \<Rightarrow> 'w rec_env \<Rightarrow> resource_config \<Rightarrow> string \<Rightarrow> ('w, resource_fence) rec" where
  "ensure_resource_ready H n env cf writer =
     seq (raise (validate_barrier_inputs env cf writer)) (\<lambda>_.
     seq (tell (RHealth RecoveryRunning)) (\<lambda>_.
       handle
         (seq (close_resource env (rc_key cf)) (\<lambda>_.
          seq (probe_topology env (rc_key cf)) (\<lambda>_.
          seq (read_journal env (rc_key cf) writer) (\<lambda>journal.
            if (case journal of None \<Rightarrow> False | Some rec \<Rightarrow> op_phase rec = ACTIVE) then err operator_required
            else join_or_rebuild H n env cf writer journal))))
         (\<lambda>e. if recovery_terminal (Some e) then seq (tell (RHealth RecoveryFailed)) (\<lambda>_. err e) else err e)))"

text \<open>\<open>Run\<close>: its rounds, and the whole with what it defers. \<open>waitRecovery\<close> fails when the context has ended.\<close>

definition close_quietly :: "'w rec_env \<Rightarrow> string \<Rightarrow> ('w, unit) rec" where
  "close_quietly env resource = handle (close_resource env resource) (\<lambda>_. ret ())"

fun recovery_rounds ::
  "(string \<Rightarrow> string) \<Rightarrow> nat \<Rightarrow> nat \<Rightarrow> 'w rec_env \<Rightarrow> resource_config \<Rightarrow> string \<Rightarrow> int \<Rightarrow> ('w, unit) rec" where
  "recovery_rounds H n 0 env cf writer backoff = cut"
| "recovery_rounds H n (Suc k) env cf writer backoff =
     seq (attempt (ensure_resource_ready H n env cf writer)) (\<lambda>r. case r of
       Inl e \<Rightarrow>
         seq (close_quietly env (rc_key cf)) (\<lambda>_.
         seq (sense (en_context env)) (\<lambda>ctx.
           if recovery_terminal (Some e) then
             seq (tell (RHealth RecoveryFailed)) (\<lambda>_. case ctx of None \<Rightarrow> err e | Some c \<Rightarrow> err c)
           else case ctx of
               Some c \<Rightarrow> err c
             | None \<Rightarrow>
                 seq (invoke (en_wait env backoff) (RWait backoff)) (\<lambda>_.
                   recovery_rounds H n k env cf writer (grow_recovery_backoff backoff (ro_backoff_max (en_options env))))))
     | Inr f \<Rightarrow>
         seq (invoke (en_wait env (reconcile_interval cf)) (RWait (reconcile_interval cf))) (\<lambda>_.
         seq (attempt (reconcile_ready H n env cf f)) (\<lambda>r. case r of
             Inr _ \<Rightarrow> recovery_rounds H n k env cf writer (ro_backoff_initial (en_options env))
           | Inl e \<Rightarrow>
               seq (close_quietly env (rc_key cf)) (\<lambda>_.
                 if recovery_terminal (Some e) then err e
                 else recovery_rounds H n k env cf writer (ro_backoff_initial (en_options env))))))"

definition recovery_run ::
  "(string \<Rightarrow> string) \<Rightarrow> nat \<Rightarrow> nat \<Rightarrow> 'w rec_env \<Rightarrow> resource_config \<Rightarrow> string \<Rightarrow> ('w, unit) rec" where
  "recovery_run H n k env cf writer =
     seq (raise (validate_barrier_inputs env cf writer)) (\<lambda>_.
     seq (tell (RHealth RecoveryRunning)) (\<lambda>_.
     seq (tell (RTelemetry SigRecovery ''started'' 0)) (\<lambda>_.
     seq (tell (RTelemetry SigState ''recovering'' 0)) (\<lambda>_.
     seq (attempt (recovery_rounds H n k env cf writer (ro_backoff_initial (en_options env)))) (\<lambda>r.
     seq (close_quietly env (rc_key cf)) (\<lambda>_.
     seq (sense (en_context env)) (\<lambda>ctx.
     let e = (case r of Inl e \<Rightarrow> Some e | Inr _ \<Rightarrow> None);
         outcome = (if errors_is e ErrFenceMismatch then ''fence_lost'' else if e \<noteq> None \<or> ctx \<noteq> None then ''error'' else ''completed'')
     in seq (tell (RTelemetry SigRecovery outcome 0)) (\<lambda>_. of_result r))))))))"

end
