(* ===== verification/Fq_Recovery_Logic.thy ===== *)
theory Fq_Recovery_Logic
  imports Fq_Recovery_Barrier
begin

text \<open>
  A Hoare logic for the programs of the recovery coordinator: \<open>triple E P m Q\<close> says that from a state with \<open>P\<close>
  a value ends in \<open>Q\<close>, an error in \<open>E (Some error)\<close>, and a loop that is still running is in \<open>E None\<close>.
\<close>

definition triple :: "(sentinel list option \<Rightarrow> 's \<Rightarrow> bool) \<Rightarrow> ('s \<Rightarrow> bool) \<Rightarrow> ('s, 'a outcome) state \<Rightarrow> ('a \<Rightarrow> 's \<Rightarrow> bool) \<Rightarrow> bool" where
  "triple E P m Q \<longleftrightarrow> (\<forall>s r t. P s \<longrightarrow> run_state m s = (r, t) \<longrightarrow>
     (case r of Ret x \<Rightarrow> Q x t | Err e \<Rightarrow> E (Some e) t | Cut \<Rightarrow> E None t))"

lemma tripleI: "(\<And>s r t. P s \<Longrightarrow> run_state m s = (r, t) \<Longrightarrow> (case r of Ret x \<Rightarrow> Q x t | Err e \<Rightarrow> E (Some e) t | Cut \<Rightarrow> E None t))
   \<Longrightarrow> triple E P m Q"
  unfolding triple_def by blast

lemma tripleD:
  "triple E P m Q \<Longrightarrow> P s \<Longrightarrow> run_state m s = (r, t) \<Longrightarrow> (case r of Ret x \<Rightarrow> Q x t | Err e \<Rightarrow> E (Some e) t | Cut \<Rightarrow> E None t)"
  unfolding triple_def by blast

lemma bind_run: "run_state (State_Monad.bind m f) s = (case run_state m s of (r, t) \<Rightarrow> run_state (f r) t)"
  by simp

named_theorems triples \<open>one rule per program constructor\<close>

lemma triple_ret [triples]: "(\<And>s. P s \<Longrightarrow> Q x s) \<Longrightarrow> triple E P (ret x) Q"
  by (simp add: triple_def ret_def)

lemma triple_err [triples]: "(\<And>s. P s \<Longrightarrow> E (Some e) s) \<Longrightarrow> triple E P (err e) Q"
  by (simp add: triple_def err_def)

lemma triple_cut [triples]: "(\<And>s. P s \<Longrightarrow> E None s) \<Longrightarrow> triple E P cut Q"
  by (simp add: triple_def cut_def)

lemma triple_bind:
  assumes "triple E' P m R" and "\<And>x. triple E (R x) (f (Ret x)) Q" and "\<And>e. triple E (E' (Some e)) (f (Err e)) Q"
    and "triple E (E' None) (f Cut) Q"
  shows "triple E P (State_Monad.bind m f) Q"
proof (rule tripleI)
  fix s r t
  assume p: "P s" and run: "run_state (State_Monad.bind m f) s = (r, t)"
  obtain r1 t1 where m: "run_state m s = (r1, t1)" by fastforce
  then have f: "run_state (f r1) t1 = (r, t)" using run by (simp add: bind_run)
  show "case r of Ret x \<Rightarrow> Q x t | Err e \<Rightarrow> E (Some e) t | Cut \<Rightarrow> E None t"
  proof (cases r1)
    case (Ret x)
    with tripleD [OF assms(1) p m] f show ?thesis using tripleD [OF assms(2)] by simp
  next
    case (Err e)
    with tripleD [OF assms(1) p m] f show ?thesis using tripleD [OF assms(3)] by simp
  next
    case Cut
    with tripleD [OF assms(1) p m] f show ?thesis using tripleD [OF assms(4)] by simp
  qed
qed

lemma triple_seq [triples]: "triple E P m R \<Longrightarrow> (\<And>x. triple E (R x) (f x) Q) \<Longrightarrow> triple E P (seq m f) Q"
  unfolding seq_def by (erule triple_bind) (simp_all add: triple_err triple_cut)

lemma triple_handle [triples]:
  "triple (\<lambda>e s. case e of None \<Rightarrow> E None s | Some ss \<Rightarrow> R ss s) P m Q \<Longrightarrow> (\<And>ss. triple E (R ss) (f ss) Q) \<Longrightarrow> triple E P (handle m f) Q"
  unfolding handle_def by (erule triple_bind) (simp_all add: triple_ret triple_cut)

lemma triple_attempt [triples]:
  "triple (\<lambda>e s. case e of None \<Rightarrow> E None s | Some ss \<Rightarrow> Q (Inl ss) s) P m (\<lambda>x. Q (Inr x)) \<Longrightarrow> triple E P (attempt m) Q"
  unfolding attempt_def by (erule triple_bind) (simp_all add: triple_ret triple_cut)

lemma triple_invoke:
  "(\<And>w l ss w'. P (w, l) \<Longrightarrow> run_state op w = (Inl ss, w') \<Longrightarrow> E (Some ss) (w', l @ [(cl, Some ss)])) \<Longrightarrow>
   (\<And>w l x w'. P (w, l) \<Longrightarrow> run_state op w = (Inr x, w') \<Longrightarrow> Q x (w', l @ [(cl, None)])) \<Longrightarrow>
   triple E P (invoke op cl) Q"
  by (auto simp: triple_def invoke_def split: prod.splits sum.splits)

lemma triple_sense: "(\<And>w l x w'. P (w, l) \<Longrightarrow> run_state op w = (x, w') \<Longrightarrow> Q x (w', l)) \<Longrightarrow> triple E P (sense op) Q"
  by (auto simp: triple_def sense_def split: prod.splits)

lemma triple_tell: "(\<And>w l. P (w, l) \<Longrightarrow> Q () (w, l @ [(cl, None)])) \<Longrightarrow> triple E P (tell cl) Q"
  by (auto simp: triple_def tell_def)

lemma triple_raise [triples]:
  "(\<And>s. P s \<Longrightarrow> e = None \<Longrightarrow> Q () s) \<Longrightarrow> (\<And>s ss. P s \<Longrightarrow> e = Some ss \<Longrightarrow> E (Some ss) s) \<Longrightarrow> triple E P (raise e) Q"
  unfolding raise_def by (cases e) (auto intro: triples)

lemma triple_of_result [triples]:
  "(\<And>s x. P s \<Longrightarrow> r = Inr x \<Longrightarrow> Q x s) \<Longrightarrow> (\<And>s ss. P s \<Longrightarrow> r = Inl ss \<Longrightarrow> E (Some ss) s) \<Longrightarrow> triple E P (of_result r) Q"
  unfolding of_result_def by (cases r) (auto intro: triples)

lemma triple_if [triples]:
  "(b \<Longrightarrow> triple E P m Q) \<Longrightarrow> (\<not> b \<Longrightarrow> triple E P n Q) \<Longrightarrow> triple E P (if b then m else n) Q"
  by simp

lemma triple_option [triples]:
  "(r = None \<Longrightarrow> triple E P m Q) \<Longrightarrow> (\<And>x. r = Some x \<Longrightarrow> triple E P (g x) Q) \<Longrightarrow>
   triple E P (case r of None \<Rightarrow> m | Some x \<Rightarrow> g x) Q"
  by (cases r) simp_all

lemma triple_sum [triples]:
  "(\<And>e. r = Inl e \<Longrightarrow> triple E P (f e) Q) \<Longrightarrow> (\<And>x. r = Inr x \<Longrightarrow> triple E P (g x) Q) \<Longrightarrow>
   triple E P (case r of Inl e \<Rightarrow> f e | Inr x \<Rightarrow> g x) Q"
  by (cases r) simp_all

lemma triple_prod [triples]:
  "(\<And>a b. r = (a, b) \<Longrightarrow> triple E P (f a b) Q) \<Longrightarrow> triple E P (case r of (a, b) \<Rightarrow> f a b) Q"
  by (cases r) simp_all

lemma triple_pre: "triple E P m Q \<Longrightarrow> (\<And>s. P' s \<Longrightarrow> P s) \<Longrightarrow> triple E P' m Q"
  by (auto simp: triple_def)

lemma triple_post:
  "triple E P m Q \<Longrightarrow> (\<And>x s. Q x s \<Longrightarrow> Q' x s) \<Longrightarrow> (\<And>e s. E e s \<Longrightarrow> E' e s) \<Longrightarrow> triple E' P m Q'"
  by (rule tripleI) (auto dest!: tripleD split: outcome.splits)

text \<open>Programs that keep an invariant however they end\<close>

definition keeps :: "('s \<Rightarrow> bool) \<Rightarrow> ('s, 'a outcome) state \<Rightarrow> bool" where
  "keeps I m \<longleftrightarrow> triple (\<lambda>_. I) I m (\<lambda>_. I)"

named_theorems keeping \<open>programs that keep an invariant\<close>

lemma keeps_intros [keeping]:
  "keeps I (ret x)" "keeps I (err e)" "keeps I cut" "keeps I (raise er)" "keeps I (of_result res)"
  "keeps I m \<Longrightarrow> (\<And>x. keeps I (f x)) \<Longrightarrow> keeps I (seq m f)"
  "keeps I m2 \<Longrightarrow> (\<And>e. keeps I (h e)) \<Longrightarrow> keeps I (handle m2 h)"
  "keeps I m3 \<Longrightarrow> keeps I (attempt m3)"
  unfolding keeps_def
  by (auto intro!: triples elim: triple_post split: option.split)

lemma keeps_branches [keeping]:
  "(b \<Longrightarrow> keeps I m) \<Longrightarrow> (\<not> b \<Longrightarrow> keeps I n) \<Longrightarrow> keeps I (if b then m else n)"
  "keeps I m' \<Longrightarrow> (\<And>x. keeps I (g x)) \<Longrightarrow> keeps I (case r of None \<Rightarrow> m' | Some x \<Rightarrow> g x)"
  "(\<And>e. keeps I (f e)) \<Longrightarrow> (\<And>x. keeps I (k x)) \<Longrightarrow> keeps I (case s of Inl e \<Rightarrow> f e | Inr x \<Rightarrow> k x)"
  "(\<And>a b. keeps I (p a b)) \<Longrightarrow> keeps I (case q of (a, b) \<Rightarrow> p a b)"
  by (simp_all split: option.split sum.split prod.split)

lemma keeps_each [keeping]: "(\<And>x. keeps I (f x)) \<Longrightarrow> keeps I (each f xs)"
  by (induction xs) (simp_all add: keeping)

end
