(* ===== verification/Fq_Recovery_Inv.thy ===== *)
theory Fq_Recovery_Inv
  imports Fq_Recovery_Ops
begin

text \<open>
  What the recovery scripts do to a consistent coordination state: all but the two that delete keep the
  invariants of turns and reservations, and none but the begin changes the epoch.
\<close>

subsection \<open>What the scripts change\<close>

text \<open>A script that writes the control, the progress and the lock only; it leaves the epoch or sets it to one in \<open>E\<close>.\<close>

definition control_only :: "string set \<Rightarrow> coord \<Rightarrow> coord \<Rightarrow> bool" where
  "control_only E c d \<longleftrightarrow> (\<exists>x y z. d = c\<lparr> control := x, progress := y, recovery_lock := z \<rparr>
     \<and> (map_of x ''epoch'' = map_of (control c) ''epoch'' \<or> map_of x ''epoch'' \<in> Some ` E))"

lemma control_onlyI:
  "d = c\<lparr> control := control d, progress := progress d, recovery_lock := recovery_lock d \<rparr> \<Longrightarrow>
   map_of (control d) ''epoch'' = map_of (control c) ''epoch'' \<or> map_of (control d) ''epoch'' \<in> Some ` E \<Longrightarrow> control_only E c d"
  unfolding control_only_def by blast

lemma control_only_refl [simp]: "control_only E c c"
  by (rule control_onlyI) simp_all

lemma control_only_inv:
  assumes "control_only E c d"
  shows "ready_inv H prefix resource d = ready_inv H prefix resource c"
proof -
  obtain x y z where d: "d = c\<lparr> control := x, progress := y, recovery_lock := z \<rparr>"
    using assms by (auto simp: control_only_def)
  have t: "turn_inv d = turn_inv c" by (simp add: d turn_inv_def ring_ok_def turns_ok_def gens_ok_def)
  have "same_resv c d" by (simp add: d same_resv_def)
  from same_resv_inv [OF this] t show ?thesis by (simp add: ready_inv_def d)
qed

lemma control_only_epoch:
  "control_only E c d \<Longrightarrow> map_of (control d) ''epoch'' = map_of (control c) ''epoch'' \<or> map_of (control d) ''epoch'' \<in> Some ` E"
  by (auto simp: control_only_def)

lemma map_of_hset:
  "map_of (hset fs h) k = (case map_of (rev fs) k of None \<Rightarrow> map_of h k | Some v \<Rightarrow> Some v)"
proof (induction fs arbitrary: h)
  case (Cons fv fs)
  obtain f v where fv: "fv = (f, v)" by (cases fv)
  have "hset (fv # fs) h = hset fs (AList.update f v h)" by (simp add: hset_def fv)
  with Cons.IH [of "AList.update f v h"] show ?case
    by (simp add: fv map_add_def update_conv' split: option.split)
qed (simp add: hset_def)

lemma recovery_fenced_cases:
  "(check_recovery N now f c = None \<and> recovery_fenced N now f body c = body c)
   \<or> (\<exists>e. check_recovery N now f c = Some e \<and> recovery_fenced N now f body c = (c, [e]))"
  by (cases "check_recovery N now f c") (simp_all add: recovery_fenced_def)

lemma recovery_fenced_state:
  "(check_recovery N now f c = None \<Longrightarrow> P (fst (body c))) \<Longrightarrow> P c \<Longrightarrow> P (fst (recovery_fenced N now f body c))"
  by (cases "check_recovery N now f c") (simp_all add: recovery_fenced_def)

lemma recovery_fenced_OK:
  "snd (recovery_fenced N now f body c) = OK # rest \<Longrightarrow> (\<And>e. check_recovery N now f c = Some e \<Longrightarrow> e \<noteq> OK) \<Longrightarrow>
   check_recovery N now f c = None \<and> recovery_fenced N now f body c = body c"
  by (cases "check_recovery N now f c") (auto simp: recovery_fenced_def)

lemma check_recovery_epoch:
  "check_recovery N now f c = None \<Longrightarrow> map_of (control c) ''epoch'' = Some (rf_epoch f)"
  by (auto simp: check_recovery_def recovery_fence_control_def control_readable_def control_fields_def ctl_def
      split: option.splits if_splits)

lemma control_only_writes:
  "control_only E c (set_progress fs c)" "control_only E c (expire_lock t c)" "control_only E c (finish_commit f c)"
  "control_only E c (set_lock own t c)" "control_only E c (c\<lparr> recovery_lock := l \<rparr>)"
  by (intro control_onlyI; simp add: set_progress_def expire_lock_def finish_commit_def set_lock_def map_of_hset)+

lemma co_branches:
  "(b \<Longrightarrow> control_only E c (fst x)) \<Longrightarrow> (\<not> b \<Longrightarrow> control_only E c (fst y)) \<Longrightarrow> control_only E c (fst (if b then x else y))"
  "control_only E c d \<Longrightarrow> control_only E c (fst (d, r))"
  "control_only E c (fst n) \<Longrightarrow> (\<And>e. control_only E c (fst (g e))) \<Longrightarrow>
     control_only E c (fst (case v of None \<Rightarrow> n | Some e \<Rightarrow> g e))"
  "(\<And>e. control_only E c (fst (h e))) \<Longrightarrow> (\<And>q. control_only E c (fst (k q))) \<Longrightarrow>
     control_only E c (fst (case w of Inl e \<Rightarrow> h e | Inr q \<Rightarrow> k q))"
  "(\<And>a b. control_only E c (fst (m a b))) \<Longrightarrow> control_only E c (fst (case pr of (a, b) \<Rightarrow> m a b))"
  "control_only E c (fst n) \<Longrightarrow> control_only E c (fst x) \<Longrightarrow> (\<And>own t. control_only E c (fst (j own t))) \<Longrightarrow>
     control_only E c (fst (case l of LockAbsent \<Rightarrow> n | LockWrongType \<Rightarrow> x | LockHeld own t \<Rightarrow> j own t))"
  "control_only E c (fst (body c)) \<Longrightarrow> control_only E c (fst (locked now own body c))"
  "control_only E c (fst (body c)) \<Longrightarrow> control_only E c (fst (recovery_fenced N now f body c))"
  by (simp_all add: locked_def recovery_fenced_def split: option.split sum.split prod.split lock_value.split)

lemma lock_scripts_control_only:
  "control_only E c (fst (lua_acquire_lock own ttl now c))" "control_only E c (fst (lua_check_lock own now c))"
  "control_only E c (fst (lua_renew_lock own ttl now c))" "control_only E c (fst (lua_release_lock own now c))"
  "control_only E c (fst (lua_inspect_recovery N own now c))" "control_only E c (fst (lua_force_deadline own micros now c))"
  unfolding lua_acquire_lock_def lua_check_lock_def lua_renew_lock_def lua_release_lock_def lua_inspect_recovery_def
    lua_force_deadline_def
  by (intro co_branches control_only_writes control_only_refl)+

lemma begin_commit_control_only:
  "wrong_type c = {} \<Longrightarrow> control_only {ba_epoch a} c (begin_commit a now i t p k c)"
  by (intro control_onlyI; cases i; simp add: begin_commit_def expire_lock_def Let_def map_of_hset)+

lemma begin_control_only:
  assumes "wrong_type c = {}"
  shows "control_only {ba_epoch a} c (fst (lua_begin_recovery a now c))"
  unfolding lua_begin_recovery_def Let_def
  by (intro co_branches begin_commit_control_only control_only_refl assms)

lemma progress_scripts_control_only:
  "control_only E c (fst (lua_check_recovery N f now c))" "control_only E c (fst (lua_renew_recovery N f ttl now c))"
  "control_only E c (fst (lua_set_high_water N f hw now c))"
  "control_only E c (fst (lua_mark_pass N f pre cycle complete diff now c))"
  "control_only E c (fst (lua_set_repair_high_water N f hw now c))"
  "control_only E c (fst (lua_mark_repair_complete N f now c))"
  "control_only E c (fst (lua_mark_force_delete_complete N f now c))"
  "control_only E c (fst (lua_list_recovery_stable N f cursor n pre now c))"
  "control_only E c (fst (lua_finish_recovery N f now c))"
  unfolding lua_check_recovery_def lua_renew_recovery_def lua_set_high_water_def lua_mark_pass_def
      lua_set_repair_high_water_def lua_mark_repair_complete_def lua_mark_force_delete_complete_def
      lua_list_recovery_stable_def lua_finish_recovery_def Let_def
  by (intro co_branches control_only_writes control_only_refl)+

subsection \<open>Restoration\<close>

lemma fq_uint_positive: "fq_uint v True = positive_int64 v"
  by (auto simp: fq_uint_def positive_int64_def positive_decimal_def list_all_iff split: list.splits if_splits)

lemma restore_known_inv:
  assumes "turn_inv c" and "validate_tenant_id t = None"
  shows "turn_inv (fst (lua_restore_known N f t now c))" "same_resv c (fst (lua_restore_known N f t now c))"
    "finite (known_users c) \<Longrightarrow> finite (known_users (fst (lua_restore_known N f t now c)))"
    "control (fst (lua_restore_known N f t now c)) = control c"
proof -
  have "turn_inv (c\<lparr> known_users := insert t (known_users c) \<rparr>)"
    using turn_invD [OF assms(1)] assms(2) by (auto simp: turn_inv_def ring_ok_def turns_ok_def gens_ok_def)
  then show "turn_inv (fst (lua_restore_known N f t now c))" "same_resv c (fst (lua_restore_known N f t now c))"
    "finite (known_users c) \<Longrightarrow> finite (known_users (fst (lua_restore_known N f t now c)))"
    "control (fst (lua_restore_known N f t now c)) = control c"
    using assms(1) turn_invD(1) [OF assms(1)]
    by (auto simp: lua_restore_known_def recovery_fenced_def same_resv_def split: option.split)
qed

lemma max_generation:
  assumes "turn_inv c"
  shows "activation_gen c t = Some ''9223372036854775807'' \<longleftrightarrow> activations_of c t = max_int64"
proof -
  have m: "format_uint max_int64 = ''9223372036854775807''" "digits_value ''9223372036854775807'' = max_int64"
    using format_uint_digits_value [OF _ max_int64_digits(2)] max_int64_digits(1) by simp_all
  have "activations_of c t = max_int64 \<Longrightarrow> activation_gen c t = Some (format_uint max_int64)"
    using turn_invD(14) [OF assms, of t] positive_int64_value(1)
    by (cases "activation_gen c t") (force simp: activations_of_def max_int64_def, metis activations_of_def option.simps(5))
  with m show ?thesis by (auto simp: activations_of_def)
qed

text \<open>A tenant that holds no turn is restored by an activation, unless it is active already.\<close>

lemma lua_restore_active_ready:
  assumes "turn_inv c"
  shows "lua_restore_active N f t now c = recovery_fenced N now f (\<lambda>c.
    if tenant_to_turn c t \<noteq> None then (c, [CORRUPT])
    else if t \<notin> known_users c \<and> activation_gen c t \<noteq> None then (c, [CORRUPT])
    else if t \<in> active_users c then (c, [OK])
    else if activations_of c t = max_int64 then (c, [CORRUPT])
    else (activated t c, [OK])) c"
proof -
  note inv = turn_invD [OF assms]
  note maxg = max_generation [OF assms, of t]
  have ring: "t \<in> ring_members c \<longleftrightarrow> t \<in> set (ring c)" using inv(3) by simp
  have once: "length (take 2 (lpos t (ring c))) = (if t \<in> ring_members c then 1 else 0)"
  proof (cases "t \<in> set (ring c)")
    case True
    then obtain i where i: "i < length (ring c)" "ring c ! i = t" by (metis in_set_conv_nth)
    have "filter (\<lambda>j. ring c ! j = t) [0..<length (ring c)] = [i]"
      using lpos_once [OF inv(2) i(1)] i(2) by (simp add: lpos_def)
    then show ?thesis using True ring by (simp add: lpos_def)
  next
    case False
    then have e: "lpos t (ring c) = []" by simp
    show ?thesis unfolding e using False ring by simp
  qed
  have gen: "fq_uint g True" if "activation_gen c t = Some g" for g using inv(14) [OF that] by (simp add: fq_uint_positive)
  have act: "t \<in> active_users c \<Longrightarrow> activation_gen c t \<noteq> None" "t \<in> active_users c \<Longrightarrow> t \<in> known_users c"
    using inv(6,13) by auto
  have mem: "tenant_to_turn c t = None \<Longrightarrow> t \<in> active_users c \<longleftrightarrow> t \<in> ring_members c" using inv(4) by auto
  have types: "types_ok c ks" for ks using inv(1) by simp
  show ?thesis
    unfolding lua_restore_active_def recovery_fenced_def
    using gen act mem maxg once
    by (cases "check_recovery N now f c"; cases "tenant_to_turn c t"; cases "activation_gen c t"; cases "t \<in> ring_members c")
      (simp_all add: types activated_def Let_def)
qed

definition rebuild_step :: "(string \<Rightarrow> string) \<Rightarrow> string \<Rightarrow> string \<Rightarrow> coord \<Rightarrow> coord \<Rightarrow> bool" where
  "rebuild_step H p resource c d \<longleftrightarrow> turn_inv d \<and> resv_inv H p resource d \<and> finite (known_users d)
     \<and> control d = control c \<and> progress d = progress c \<and> recovery_lock d = recovery_lock c"

lemma rebuild_step_refl:
  "turn_inv c \<Longrightarrow> resv_inv H p resource c \<Longrightarrow> finite (known_users c) \<Longrightarrow> rebuild_step H p resource c c"
  by (simp add: rebuild_step_def)

lemma same_turns_rebuild:
  assumes "turn_inv c" and "finite (known_users c)" and "resv_inv H p resource d" and "same_turns c d"
  shows "rebuild_step H p resource c d"
  using assms same_turns_inv [OF assms(4)] by (simp add: rebuild_step_def same_turns_def)

lemma same_resv_rebuild:
  assumes "resv_inv H p resource c" and "turn_inv d" and "finite (known_users d)" and "same_resv c d" and "keeps_control c d"
  shows "rebuild_step H p resource c d"
  using assms same_resv_inv [OF assms(4)] by (simp add: rebuild_step_def keeps_control_def)

lemma restore_known_step:
  assumes "turn_inv c" "resv_inv H p resource c" "finite (known_users c)" and "validate_tenant_id t = None"
  shows "rebuild_step H p resource c (fst (lua_restore_known N f t now c))"
proof -
  have "keeps_control c (fst (lua_restore_known N f t now c))"
    by (auto simp: lua_restore_known_def recovery_fenced_def keeps_control_def split: option.split)
  then show ?thesis using restore_known_inv [OF assms(1,4)] assms(2,3) same_resv_rebuild by blast
qed

lemma restore_active_step:
  assumes "turn_inv c" "resv_inv H p resource c" "finite (known_users c)" and "validate_tenant_id t = None"
  shows "rebuild_step H p resource c (fst (lua_restore_active N f t now c))"
proof -
  have "rebuild_step H p resource c (activated t c)" if "activations_of c t \<noteq> max_int64"
    using activated_inv [OF assms(1) that assms(4)] assms(2,3)
    by (intro same_resv_rebuild) (simp_all add: activated_def same_resv_def keeps_control_def)
  then show ?thesis
    using rebuild_step_refl [OF assms(1-3)]
    by (auto simp: lua_restore_active_ready [OF assms(1)] recovery_fenced_def split: option.split)
qed

lemma parse_meta_fields:
  assumes "parse_meta H (Some (Some v)) k prefix resource = Some m"
  shows "lua_field v ''tenant'' = Some (JStr (meta_tenant m))" "lua_field v ''tenant_key'' = Some (JStr (meta_tenant_key m))"
  using assms by (auto simp: parse_meta_def split: option.splits json.splits if_splits)

lemma entry_raw:
  assumes "resv_inv H p resource c" and "reservation_entry H p resource c tok = Some (k, m)"
  obtains v where "hget (reservation_meta c) tok = Some (Some v)" "lua_field v ''tenant_key'' = Some (JStr (meta_tenant_key m))"
    "lua_field v ''tenant'' = Some (JStr (meta_tenant m))"
proof -
  note e = entry_facts(2,7) [OF resv_invD(1) [OF assms(1)] assms(2)]
  then obtain w where w: "hget (reservation_meta c) tok = Some w" by blast
  with e(1) obtain v where v: "w = Some v" by (cases w) (auto simp: parse_meta_def)
  with w e(1) show ?thesis using that parse_meta_fields by metis
qed

lemma restore_inflight_step:
  assumes "turn_inv c" "resv_inv H p resource c" "finite (known_users c)"
    and "call_ok H p resource t key" and "token_kind tok = Some kindS"
  shows "rebuild_step H p resource c (fst (lua_restore_inflight N f t key tok ttl now c))"
proof -
  have "resv_inv H p resource (add_stable x tok t key c)"
    if ok: "case hget (reservation_meta c) tok of Some (Some v) \<Rightarrow> lua_field v ''tenant_key'' = Some (JStr key) | _ \<Rightarrow> True" for x
  proof (rule add_stable_inv [OF assms(2,5)])
    show "t \<noteq> []" "valid_tenant_key H key p resource t" using assms(4) by (simp_all add: call_ok_def)
    fix k m assume "reservation_entry H p resource c tok = Some (k, m)"
    with assms(2) ok show "meta_tenant_key m = key" by (auto elim!: entry_raw)
  qed
  then have "rebuild_step H p resource c (add_stable x tok t key c)"
    if "case hget (reservation_meta c) tok of Some (Some v) \<Rightarrow> lua_field v ''tenant_key'' = Some (JStr key) | _ \<Rightarrow> True" for x
    using that assms(1,3) same_turns_rebuild same_turns_writes(3) by blast
  then show ?thesis
    using rebuild_step_refl [OF assms(1-3)]
    by (auto simp: lua_restore_inflight_def recovery_fenced_def Let_def split: option.splits if_splits)
qed

lemma delete_stable_step:
  assumes "turn_inv c" "resv_inv H p resource c" "finite (known_users c)" and "token_kind tok = Some kindS"
  shows "rebuild_step H p resource c (fst (lua_delete_recovery_stable N f t key tok expires now c))"
proof -
  have "resv_inv H p resource (drop_reservation kindS key tok c)"
    if v: "hget (reservation_meta c) tok = Some (Some v)" "lua_field v ''tenant_key'' = Some (JStr key)" for v
  proof -
    obtain k m where e: "reservation_entry H p resource c tok = Some (k, m)"
      using resv_invD(7) [OF assms(2), of tok] v(1) by auto
    moreover have "k = kindS" using entry_facts(1) [OF resv_invD(1) [OF assms(2)] e] assms(4) by simp
    moreover have "meta_tenant_key m = key" using e assms(2) v by (auto elim!: entry_raw)
    ultimately show ?thesis using drop_reservation_inv [OF assms(2)] by blast
  qed
  then have "rebuild_step H p resource c (drop_reservation kindS key tok c)"
    if "hget (reservation_meta c) tok = Some (Some v)" "lua_field v ''tenant_key'' = Some (JStr key)" for v
    using that assms(1,3) same_turns_rebuild same_turns_writes(1) by blast
  then show ?thesis
    using rebuild_step_refl [OF assms(1-3)]
    by (auto simp: lua_delete_recovery_stable_def recovery_fenced_def Let_def split: option.splits)
qed

lemma all_some_image: "all_some f xs = Some ys \<Longrightarrow> (\<And>x y. x \<in> set xs \<Longrightarrow> f x = Some y \<Longrightarrow> y = g x) \<Longrightarrow> ys = map g xs"
  by (induction xs arbitrary: ys) (auto split: option.splits)

lemma recovery_reap_turn_settle:
  "t \<in> active_users c \<Longrightarrow> t \<notin> ring_members c \<Longrightarrow> recovery_reap_turn tok t c = settle_turn tok t True c"
  by (simp add: recovery_reap_turn_def settle_turn_def Let_def)

lemma fold_recovery_reap_turns:
  assumes "turn_inv c" and "distinct toks" and "\<forall>tok\<in>set toks. turn_to_tenant c tok \<noteq> None"
  shows "fold (\<lambda>(tok, tenant). recovery_reap_turn tok tenant)
      (zip toks (map (\<lambda>tok. the (turn_to_tenant c tok)) toks)) c = requeue_turns toks c"
  using assms
proof (induction toks arbitrary: c)
  case Nil
  then show ?case by simp
next
  case (Cons tok toks)
  then obtain t where t: "turn_to_tenant c tok = Some t" by auto
  let ?d = "settle_turn tok t True c"
  note inv = turn_invD [OF Cons.prems(1)]
  have tt: "tenant_to_turn c t = Some tok" using inv(11) t by simp
  have "t \<in> active_users c" "t \<notin> ring_members c" using inv(4,5) tt by auto
  then have settle: "recovery_reap_turn tok t c = ?d" by (rule recovery_reap_turn_settle)
  have dist: "tok \<notin> set toks" "distinct toks" using Cons.prems(2) by simp_all
  have rest: "\<forall>u\<in>set toks. turn_to_tenant ?d u \<noteq> None"
    using Cons.prems(3) dist by (auto simp: settle_turn_def)
  have "map (\<lambda>u. the (turn_to_tenant ?d u)) toks = map (\<lambda>u. the (turn_to_tenant c u)) toks"
    using dist by (auto simp: settle_turn_def)
  with Cons.IH [OF settle_turn_inv [OF Cons.prems(1) t] dist(2) rest] settle t
  show ?case using requeue_turns_Cons [OF dist(1), of c] by (simp del: map_eq_conv)
qed

lemma recovery_turn_check_tenant: "recovery_turn_check now c tok = Some t \<Longrightarrow> turn_to_tenant c tok = Some t"
  by (auto simp: recovery_turn_check_def split: option.splits if_splits)

lemma recovery_provisional_entry:
  assumes "resv_inv H p resource c" and "recovery_provisional_check H p resource c tok = Some key"
  shows "\<exists>m. reservation_entry H p resource c tok = Some (kindP, m) \<and> meta_tenant_key m = key"
proof -
  obtain m where m: "parse_meta H (hget (reservation_meta c) tok) kindP p resource = Some m"
    and key: "key = meta_tenant_key m" and tok: "take 2 tok = ''p:''"
    and s: "zscore (global_inflight c) tok \<noteq> None" "zscore (provisional c) tok \<noteq> None"
    using assms(2) by (auto simp: recovery_provisional_check_def split: option.splits if_splits)
  obtain k m' where e: "reservation_entry H p resource c tok = Some (k, m')"
    using no_entry(1) [OF assms(1), of tok] s(1) by (cases "reservation_entry H p resource c tok") auto
  note f = entry_facts [OF resv_invD(1) [OF assms(1)] e]
  have "k = kindP" using f(5) s(2) by (auto split: if_splits)
  with f(2) m e key show ?thesis by simp
qed

lemma drop_provisionals_sweep:
  "map fst es = map (\<lambda>_. kindP) toks \<Longrightarrow>
   fold (\<lambda>(tok, key). drop_reservation kindP key tok) (zip toks (map (\<lambda>e. meta_tenant_key (snd e)) es)) d = sweep toks es d"
proof (induction toks arbitrary: es d)
  case (Cons tok toks)
  then show ?case by (cases es) (auto simp: sweep_def)
qed simp

text \<open>The two removals on any tokens that pass the checks\<close>

lemma recovery_removal:
  assumes "turn_inv c" "resv_inv H p resource c" "finite (known_users c)" and "distinct ps" "distinct ts"
    and ts: "all_some (recovery_turn_check now c) ts = Some tenants"
    and ps: "all_some (recovery_provisional_check H p resource c) ps = Some keys"
  shows "rebuild_step H p resource c (fold (\<lambda>(tok, key). drop_reservation kindP key tok) (zip ps keys)
      (fold (\<lambda>(tok, tenant). recovery_reap_turn tok tenant) (zip ts tenants) c))"
proof -
  have tenants: "tenants = map (\<lambda>tok. the (turn_to_tenant c tok)) ts"
    by (rule all_some_image [OF ts]) (simp add: recovery_turn_check_tenant)
  have held: "\<forall>tok\<in>set ts. turn_to_tenant c tok \<noteq> None"
  proof
    fix tok assume "tok \<in> set ts"
    then obtain i where "i < length ts" "tok = ts ! i" by (auto simp: in_set_conv_nth)
    with all_some_nth [OF ts] have "recovery_turn_check now c tok = Some (tenants ! i)" by simp
    then show "turn_to_tenant c tok \<noteq> None" using recovery_turn_check_tenant by simp
  qed
  let ?mid = "requeue_turns ts c"
  note rq = requeue_turns_correct [OF assms(1,5) held]
  have same: "same_resv c ?mid" and tmid: "turn_inv ?mid" and fin: "finite (known_users ?mid)"
    and ctl: "keeps_control c ?mid" using rq assms(3) by simp_all
  have mid: "resv_inv H p resource ?mid" using same_resv_inv [OF same] assms(2) by simp
  let ?es = "map (\<lambda>tok. the (reservation_entry H p resource c tok)) ps"
  have ent: "\<exists>m. reservation_entry H p resource c tok = Some (kindP, m)
      \<and> recovery_provisional_check H p resource c tok = Some (meta_tenant_key m)" if "tok \<in> set ps" for tok
  proof -
    obtain i where "i < length ps" "tok = ps ! i" using \<open>tok \<in> set ps\<close> by (auto simp: in_set_conv_nth)
    with all_some_nth [OF ps] have "recovery_provisional_check H p resource c tok = Some (keys ! i)" by simp
    with recovery_provisional_entry [OF assms(2) this] show ?thesis by auto
  qed
  have "keys = map (\<lambda>tok. meta_tenant_key (snd (the (reservation_entry H p resource c tok)))) ps"
  proof (rule all_some_image [OF ps])
    fix tok y assume "tok \<in> set ps" "recovery_provisional_check H p resource c tok = Some y"
    with ent [of tok] show "y = meta_tenant_key (snd (the (reservation_entry H p resource c tok)))" by auto
  qed
  then have keys: "keys = map (\<lambda>e. meta_tenant_key (snd e)) ?es" by simp
  have kinds: "map fst ?es = map (\<lambda>_. kindP) ps" using ent by fastforce
  have all: "all_some (reservation_entry H p resource ?mid) ps = Some ?es"
  proof (rule all_some_map)
    fix tok assume "tok \<in> set ps"
    with ent same_resv_entry [OF same] show "reservation_entry H p resource ?mid tok = Some (the (reservation_entry H p resource c tok))"
      by fastforce
  qed
  note sw = sweep_correct [OF mid assms(4) all]
  have "rebuild_step H p resource ?mid (sweep ps ?es ?mid)"
    using sw by (intro same_turns_rebuild [OF tmid fin]) blast+
  then show ?thesis
    unfolding tenants fold_recovery_reap_turns [OF assms(1,5) held] keys drop_provisionals_sweep [OF kinds]
    using ctl by (simp add: rebuild_step_def keeps_control_def)
qed

lemma recovery_reap_step:
  assumes "turn_inv c" "resv_inv H p resource c" "finite (known_users c)"
  shows "rebuild_step H p resource c (fst (lua_recovery_reap N H f limit p resource now c))"
proof -
  have "distinct (zexpired now limit (provisional c))" "distinct (zexpired now n (processing_turns c))" for n
    using resv_invD(3) [OF assms(2)] turn_invD(8) [OF assms(1)] by simp_all
  note removal = recovery_removal [OF assms this]
  note empty = recovery_removal [OF assms \<open>distinct (zexpired now limit (provisional c))\<close>, of "[]"]
  show ?thesis
    unfolding lua_recovery_reap_def recovery_fenced_def Let_def
    using rebuild_step_refl [OF assms] removal empty
    by (simp split: option.split)
qed

end
