(* ===== verification/Fq_Recovery_Reach.thy ===== *)
theory Fq_Recovery_Reach
  imports Fq_Recovery_Inv
begin

text \<open>
  The calls of a recovery by any number of clients, interleaved with READY calls, and the states they reach.
\<close>

subsection \<open>The calls of a recovery\<close>

datatype recovery_call =
    RecAcquireLock string int
  | RecCheckLock string
  | RecRenewLock string int
  | RecReleaseLock string
  | RecInspect string
  | RecDeadline string int nat
  | RecBegin string string string string int string int "string option"
  | RecRenew recovery_fence int
  | RecReap recovery_fence int
  | RecReset recovery_fence
  | RecHighWater recovery_fence string
  | RecMarkPass recovery_fence recovery_pass "64 word" bool int
  | RecRepairHighWater recovery_fence string
  | RecRepairComplete recovery_fence
  | RecForceComplete recovery_fence
  | RecRestoreKnown recovery_fence string
  | RecRestoreActive recovery_fence string
  | RecRestoreInflight recovery_fence string string int
  | RecDeleteStable recovery_fence reservation_ref
  | RecListStable recovery_fence string int
  | RecDeleteOwned recovery_fence "string list"
  | RecFinish recovery_fence

definition recovery_call_state ::
  "(string \<Rightarrow> bool) \<Rightarrow> (string \<Rightarrow> string) \<Rightarrow> string \<Rightarrow> string \<Rightarrow> transport \<Rightarrow> int \<Rightarrow> recovery_call \<Rightarrow> coord \<Rightarrow> coord" where
  "recovery_call_state N H prefix resource net now call c =
     (case call of
        RecAcquireLock own ttl \<Rightarrow> snd (acquire_recovery_lock net now prefix resource own ttl c)
      | RecCheckLock own \<Rightarrow> snd (check_recovery_lock net now prefix resource own c)
      | RecRenewLock own ttl \<Rightarrow> snd (renew_recovery_lock net now prefix resource own ttl c)
      | RecReleaseLock own \<Rightarrow> snd (release_recovery_lock net now prefix resource own c)
      | RecInspect own \<Rightarrow> snd (inspect_recovery_start N net now prefix resource own c)
      | RecDeadline own delay micros \<Rightarrow> snd (compute_force_rebuild_deadline net micros now prefix resource own delay c)
      | RecBegin wa wb kind operation force own ttl token \<Rightarrow>
          snd (begin_recovery_with_lock net now prefix resource wa wb kind operation force own ttl token c)
      | RecRenew f ttl \<Rightarrow> snd (renew_recovery N net now prefix resource f ttl c)
      | RecReap f limit \<Rightarrow> snd (recovery_reap_expired N H net now prefix resource f limit c)
      | RecReset f \<Rightarrow> snd (reset_resource N net now prefix resource f c)
      | RecHighWater f hw \<Rightarrow> snd (set_recovery_high_water N net now prefix resource f hw c)
      | RecMarkPass f pass cycle complete diff \<Rightarrow>
          snd (mark_recovery_pass N net now prefix resource f pass cycle complete diff c)
      | RecRepairHighWater f hw \<Rightarrow> snd (set_rabbit_repair_high_water N net now prefix resource f hw c)
      | RecRepairComplete f \<Rightarrow> snd (mark_rabbit_repair_pass_complete N net now prefix resource f c)
      | RecForceComplete f \<Rightarrow> snd (complete_force_delete_pass N net now prefix resource f c)
      | RecRestoreKnown f tenant \<Rightarrow> snd (restore_known_tenant N net now prefix resource f tenant c)
      | RecRestoreActive f tenant \<Rightarrow> snd (restore_active_tenant N net now prefix resource f tenant c)
      | RecRestoreInflight f tenant stable_token ttl \<Rightarrow>
          snd (restore_inflight N H net now prefix resource f tenant stable_token ttl c)
      | RecDeleteStable f ref \<Rightarrow> snd (delete_recovery_stable_inflight N H net now prefix resource f ref c)
      | RecListStable f cursor limit \<Rightarrow> snd (list_recovery_stable_inflight N H net now prefix resource f cursor limit c)
      | RecDeleteOwned f refs \<Rightarrow> snd (delete_owned_resource_keys N net now prefix resource f refs c)
      | RecFinish f \<Rightarrow> snd (finish_recovery N net now prefix resource f c))"

subsection \<open>Every call\<close>

lemma build_keyspace_prefix:
  "build_redis_keyspace prefix resource = Inr k \<Longrightarrow> tenant_key_prefix k = tenant_prefix_of prefix resource"
  by (auto simp: build_redis_keyspace_def tenant_key_prefix_def tenant_prefix_of_def keys_of_root_def Let_def split: if_splits)

lemma tenant_key_call_ok:
  assumes "tenant_inflight_key H k resource tenant = Inr tk" and "build_redis_keyspace prefix resource = Inr k" and "digest_hex H"
  shows "call_ok H (tenant_prefix_of prefix resource) resource tenant tk" "validate_tenant_id tenant = None"
proof -
  have key: "tk = tenant_prefix_of prefix resource @ H (tenant_preimage resource tenant)"
    and t: "validate_tenant_id tenant = None"
    using assms(1) build_keyspace_prefix [OF assms(2)]
    by (auto simp: tenant_inflight_key_def tenant_hash_def tenant_preimage_def Let_def split: sum.splits if_splits)
  show "validate_tenant_id tenant = None" by (rule t)
  have hex: "lower_hex 64 (H (tenant_preimage resource tenant))" using assms(3) by (simp add: digest_hex_def)
  show "call_ok H (tenant_prefix_of prefix resource) resource tenant tk"
    using hex lower_hex_length [OF hex] tenant_id_not_Nil [OF t]
    by (simp add: call_ok_def valid_tenant_key_def key Let_def)
qed

lemma tenant_mutation_keys_Inr:
  assumes "tenant_mutation_keys H prefix resource f tenant = Inr (k, tk)" and "digest_hex H"
  shows "call_ok H (tenant_prefix_of prefix resource) resource tenant tk"
  using assms tenant_key_call_ok by (auto simp: tenant_mutation_keys_def bind_result_Inr)

lemma begin_request_epoch:
  "begin_request prefix resource wa wb kind operation force own ttl token = Inr a \<Longrightarrow> token = Some (ba_epoch a) \<and> ba_owner a = own
     \<and> ba_kind a = kind \<and> ba_operation a = operation \<and> ba_writer_a a = wa \<and> ba_writer_b a = wb \<and> lower_hex 32 (ba_epoch a)
     \<and> 0 < ba_ttl a"
  by (auto simp: begin_request_def bind_result_Inr next_epoch_def redis_duration_ms_def Let_def split: option.splits if_splits)

text \<open>The epochs a call may install, and the calls that delete what has been rebuilt\<close>

definition begun_epochs :: "recovery_call \<Rightarrow> string set" where
  "begun_epochs call = (case call of RecBegin _ _ _ _ _ _ _ token \<Rightarrow> set_option token | _ \<Rightarrow> {})"

definition deletes_under :: "recovery_call \<Rightarrow> string set" where
  "deletes_under call = (case call of RecReset f \<Rightarrow> {rf_epoch f} | RecDeleteOwned f _ \<Rightarrow> {rf_epoch f} | _ \<Rightarrow> {})"

lemma deletion_epoch:
  "fst (lua_reset_resource N f now c) = c \<or> map_of (control c) ''epoch'' = Some (rf_epoch f)"
  "fst (lua_delete_owned N f k names now c) = c \<or> map_of (control c) ''epoch'' = Some (rf_epoch f)"
  using check_recovery_epoch [of N now f c]
  by (cases "check_recovery N now f c"; simp add: lua_reset_resource_def lua_delete_owned_def recovery_fenced_def)+

lemma recovery_call_cases:
  assumes "ready_inv H prefix resource c" and "digest_hex H"
  shows "control_only (begun_epochs call) c (recovery_call_state N H prefix resource net now call c)
    \<or> rebuild_step H (tenant_prefix_of prefix resource) resource c (recovery_call_state N H prefix resource net now call c)
    \<or> map_of (control c) ''epoch'' \<in> Some ` deletes_under call"
    (is "?P (recovery_call_state N H prefix resource net now call c)")
proof -
  note inv = assms(1) [unfolded ready_inv_def]
  have tinv: "turn_inv c" and rinv: "resv_inv H (tenant_prefix_of prefix resource) resource c" and fin: "finite (known_users c)"
    using inv by blast+
  have types: "wrong_type c = {}" using turn_invD(1) [OF tinv] .
  have close: "?P (snd (redis_call net args s parse c))" if "\<And>k. args = Inr k \<Longrightarrow> ?P (fst (s k c))"
    for args :: "'k result" and s and parse :: "'k \<Rightarrow> reply \<Rightarrow> 'b result"
    using redis_call_state [of net args s parse c] that control_only_refl by metis
  note ok = lock_scripts_control_only progress_scripts_control_only
  note steps = restore_known_step [OF tinv rinv fin] restore_active_step [OF tinv rinv fin]
    restore_inflight_step [OF tinv rinv fin] delete_stable_step [OF tinv rinv fin] recovery_reap_step [OF tinv rinv fin]
  show ?thesis
  proof (cases call)
    case (RecAcquireLock own ttl)
    show ?thesis unfolding recovery_call_state_def RecAcquireLock recovery_call.case acquire_recovery_lock_def
      by (rule close [unfolded RecAcquireLock]) (simp add: ok)
  next
    case (RecCheckLock own)
    show ?thesis unfolding recovery_call_state_def RecCheckLock recovery_call.case check_recovery_lock_def
      by (rule close [unfolded RecCheckLock]) (simp add: ok)
  next
    case (RecRenewLock own ttl)
    show ?thesis unfolding recovery_call_state_def RecRenewLock recovery_call.case renew_recovery_lock_def
      by (rule close [unfolded RecRenewLock]) (simp add: ok)
  next
    case (RecReleaseLock own)
    show ?thesis unfolding recovery_call_state_def RecReleaseLock recovery_call.case release_recovery_lock_def
      by (rule close [unfolded RecReleaseLock]) (simp add: ok)
  next
    case (RecInspect own)
    show ?thesis unfolding recovery_call_state_def RecInspect recovery_call.case inspect_recovery_start_def
      by (rule close [unfolded RecInspect]) (simp add: ok)
  next
    case (RecDeadline own delay micros)
    show ?thesis unfolding recovery_call_state_def RecDeadline recovery_call.case compute_force_rebuild_deadline_def
      by (rule close [unfolded RecDeadline]) (simp add: ok)
  next
    case (RecBegin wa wb kind operation force own ttl token)
    have "control_only (set_option token) c (fst (lua_begin_recovery a now c))"
      if "begin_request prefix resource wa wb kind operation force own ttl token = Inr a" for a
      using begin_control_only [OF types, of a now] begin_request_epoch [OF that] by simp
    then show ?thesis unfolding recovery_call_state_def RecBegin recovery_call.case begin_recovery_with_lock_def
      by (intro close [unfolded RecBegin]) (simp add: begun_epochs_def)
  next
    case (RecRenew f ttl)
    show ?thesis unfolding recovery_call_state_def RecRenew recovery_call.case renew_recovery_def
      by (rule close [unfolded RecRenew]) (simp add: ok)
  next
    case (RecReap f limit)
    show ?thesis unfolding recovery_call_state_def RecReap recovery_call.case recovery_reap_expired_def
      by (rule close [unfolded RecReap]) (use steps in \<open>auto dest!: build_keyspace_prefix\<close>)
  next
    case (RecReset f)
    have "?P (fst (lua_reset_resource N f now c))"
      using deletion_epoch(1) [of N f now c] by (elim disjE) (simp_all add: deletes_under_def RecReset)
    then show ?thesis unfolding recovery_call_state_def RecReset recovery_call.case reset_resource_def
      by (intro close [unfolded RecReset]) (simp add: RecReset)
  next
    case (RecHighWater f hw)
    show ?thesis unfolding recovery_call_state_def RecHighWater recovery_call.case set_recovery_high_water_def
      by (rule close [unfolded RecHighWater]) (simp add: ok)
  next
    case (RecMarkPass f pass cycle complete diff)
    show ?thesis unfolding recovery_call_state_def RecMarkPass recovery_call.case mark_recovery_pass_def
      by (rule close [unfolded RecMarkPass]) (simp add: ok)
  next
    case (RecRepairHighWater f hw)
    show ?thesis unfolding recovery_call_state_def RecRepairHighWater recovery_call.case set_rabbit_repair_high_water_def
      by (rule close [unfolded RecRepairHighWater]) (simp add: ok)
  next
    case (RecRepairComplete f)
    show ?thesis unfolding recovery_call_state_def RecRepairComplete recovery_call.case mark_rabbit_repair_pass_complete_def
      by (rule close [unfolded RecRepairComplete]) (simp add: ok)
  next
    case (RecForceComplete f)
    show ?thesis unfolding recovery_call_state_def RecForceComplete recovery_call.case complete_force_delete_pass_def
      by (rule close [unfolded RecForceComplete]) (simp add: ok)
  next
    case (RecRestoreKnown f t)
    show ?thesis unfolding recovery_call_state_def RecRestoreKnown recovery_call.case restore_known_tenant_def
      by (rule close [unfolded RecRestoreKnown]) (use steps in auto)
  next
    case (RecRestoreActive f t)
    show ?thesis unfolding recovery_call_state_def RecRestoreActive recovery_call.case restore_active_tenant_def
      by (rule close [unfolded RecRestoreActive]) (use steps in auto)
  next
    case (RecRestoreInflight f t stable_token ttl)
    show ?thesis unfolding recovery_call_state_def RecRestoreInflight recovery_call.case restore_inflight_def
      by (rule close [unfolded RecRestoreInflight])
        (use steps token_kind_stable tenant_mutation_keys_Inr [OF _ assms(2)] in \<open>auto simp: bind_result_Inr\<close>)
  next
    case (RecDeleteStable f ref)
    have "stable_reservation_pattern (ref_stable_token ref)" if "validate_reservation_ref ref = None"
      using that by (simp add: validate_reservation_ref_def)
    then show ?thesis unfolding recovery_call_state_def RecDeleteStable recovery_call.case delete_recovery_stable_inflight_def
      by (intro close [unfolded RecDeleteStable]) (use steps token_kind_stable in auto)
  next
    case (RecListStable f cursor limit)
    show ?thesis unfolding recovery_call_state_def RecListStable recovery_call.case list_recovery_stable_inflight_def
      by (rule close [unfolded RecListStable]) (simp add: ok)
  next
    case (RecDeleteOwned f refs)
    have "?P (fst (lua_delete_owned N f k names now c))" for k names
      using deletion_epoch(2) [of N f k names now c] by (elim disjE) (simp_all add: deletes_under_def RecDeleteOwned)
    then show ?thesis unfolding recovery_call_state_def RecDeleteOwned recovery_call.case delete_owned_resource_keys_def
      by (intro close [unfolded RecDeleteOwned]) (simp add: RecDeleteOwned split: prod.split)
  next
    case (RecFinish f)
    show ?thesis unfolding recovery_call_state_def RecFinish recovery_call.case finish_recovery_def
      by (rule close [unfolded RecFinish]) (simp add: ok)
  qed
qed

subsection \<open>READY and recovery calls interleaved\<close>

datatype resource_event =
    ReadyEvent resource_fence transport int ready_call
  | RecoveryEvent transport int recovery_call

fun resource_event_state ::
  "(string \<Rightarrow> bool) \<Rightarrow> (string \<Rightarrow> string) \<Rightarrow> string \<Rightarrow> string \<Rightarrow> resource_event \<Rightarrow> coord \<Rightarrow> coord" where
  "resource_event_state N H prefix resource (ReadyEvent fence net now call) c =
     ready_call_state H prefix resource fence net now call c"
| "resource_event_state N H prefix resource (RecoveryEvent net now call) c =
     recovery_call_state N H prefix resource net now call c"

fun run_resource ::
  "(string \<Rightarrow> bool) \<Rightarrow> (string \<Rightarrow> string) \<Rightarrow> string \<Rightarrow> string \<Rightarrow> resource_event list \<Rightarrow> coord \<Rightarrow> coord" where
  "run_resource N H prefix resource [] c = c"
| "run_resource N H prefix resource (ev # evs) c =
     run_resource N H prefix resource evs (resource_event_state N H prefix resource ev c)"

text \<open>An event that deletes only under retired epochs and installs none of them\<close>

fun epoch_safe :: "string set \<Rightarrow> resource_event \<Rightarrow> bool" where
  "epoch_safe retired (ReadyEvent fence net now call) = True"
| "epoch_safe retired (RecoveryEvent net now call) =
     (begun_epochs call \<inter> retired = {} \<and> deletes_under call \<subseteq> retired)"

lemma ready_script_control:
  assumes "ready_script H p resource now e w call s" and "turn_inv c" and "resv_inv H p resource c"
    and "finite (known_users c)" and "check_ready e w c = OK"
  shows "control (fst (s c)) = control c"
proof -
  have resv: ?thesis if "case call of CallAcquire _ _ _ _ \<Rightarrow> True | CallBind _ _ _ _ \<Rightarrow> True
      | CallStable _ _ _ _ \<Rightarrow> True | CallRelease _ _ \<Rightarrow> True | _ \<Rightarrow> False"
    using ready_script_resv [OF assms that] by (simp add: same_turns_def)
  have reap: "control (fst (lua_reap H e w n p resource now c)) = control c" for n
    using lua_reap_ready [OF assms(2,3,5)] lua_reap_inv [OF assms(2,3,5)] by (simp add: keeps_control_def)
  have act: "control (fst (lua_activate e w t c)) = control c" for t by (simp add: lua_activate_ready [OF assms(2,5)])
  from assms(1) show ?thesis
    by (cases rule: ready_script.cases)
      (use assms(2,5) resv reap act in \<open>auto simp: lua_ensure_known_def lua_next_turn_ready lua_rotate_ready
        settle_turn_def split: list.split option.split\<close>)
qed

lemma ready_call_control:
  assumes "ready_inv H prefix resource c" and "digest_hex H"
  shows "control (ready_call_state H prefix resource fence net now call c) = control c"
  using ready_call_cases [OF assms(2), of prefix resource fence net now call c] assms(1)
    ready_script_control ready_script_not_ready
  unfolding ready_inv_def by metis

lemma resource_event_inv:
  assumes "digest_hex H" and "ready_inv H prefix resource c" and "map_of (control c) ''epoch'' \<notin> Some ` retired"
    and "epoch_safe retired ev"
  shows "ready_inv H prefix resource (resource_event_state N H prefix resource ev c)
    \<and> map_of (control (resource_event_state N H prefix resource ev c)) ''epoch'' \<notin> Some ` retired"
proof (cases ev)
  case (ReadyEvent fence net now call)
  then show ?thesis using ready_call_inv [OF assms(2,1)] ready_call_control [OF assms(2,1)] assms(3) by simp
next
  case (RecoveryEvent net now call)
  have "map_of (control c) ''epoch'' \<notin> Some ` deletes_under call" using assms(3,4) RecoveryEvent by auto
  with recovery_call_cases [OF assms(2,1), where N = N and net = net and now = now and call = call]
  consider "control_only (begun_epochs call) c (recovery_call_state N H prefix resource net now call c)"
    | "rebuild_step H (tenant_prefix_of prefix resource) resource c (recovery_call_state N H prefix resource net now call c)"
    by blast
  then show ?thesis
  proof cases
    case 1
    then show ?thesis using control_only_inv [OF 1] control_only_epoch [OF 1] assms(2-4) RecoveryEvent by auto
  next
    case 2
    then show ?thesis using assms(3) RecoveryEvent by (simp add: rebuild_step_def ready_inv_def)
  qed
qed

lemma run_resource_inv:
  "digest_hex H \<Longrightarrow> ready_inv H prefix resource c \<Longrightarrow> map_of (control c) ''epoch'' \<notin> Some ` retired \<Longrightarrow>
   list_all (epoch_safe retired) evs \<Longrightarrow> ready_inv H prefix resource (run_resource N H prefix resource evs c)"
  by (induction evs arbitrary: c) (simp_all add: resource_event_inv)

subsection \<open>An emptied resource\<close>

definition key_present :: "redis_key \<Rightarrow> coord \<Rightarrow> bool" where
  "key_present k c \<longleftrightarrow> k \<in> wrong_type c \<or>
     (case k of
        KControl \<Rightarrow> control c \<noteq> [] | KProgress \<Rightarrow> progress c \<noteq> [] | KRing \<Rightarrow> ring c \<noteq> []
      | KRingMembers \<Rightarrow> ring_members c \<noteq> {} | KActiveUsers \<Rightarrow> active_users c \<noteq> {} | KKnownUsers \<Rightarrow> known_users c \<noteq> {}
      | KActivationGen \<Rightarrow> activation_gen c \<noteq> Map.empty | KProcessingTurns \<Rightarrow> processing_turns c \<noteq> []
      | KTurnToTenant \<Rightarrow> turn_to_tenant c \<noteq> Map.empty | KTurnToGeneration \<Rightarrow> turn_to_generation c \<noteq> Map.empty
      | KTenantToTurn \<Rightarrow> tenant_to_turn c \<noteq> Map.empty | KGlobalInflight \<Rightarrow> global_inflight c \<noteq> []
      | KProvisional \<Rightarrow> provisional c \<noteq> [] | KStableIndex \<Rightarrow> stable_index c \<noteq> []
      | KReservationMeta \<Rightarrow> reservation_meta c \<noteq> [] | KTenantInflight t \<Rightarrow> tenant_inflight c t \<noteq> [])"

lemma del_key_present: "key_present k (del_key d c) \<longleftrightarrow> k \<noteq> d \<and> key_present k c"
  by (cases d; cases k; auto simp: del_key_def key_present_def Let_def)

lemma del_key_control:
  "d \<noteq> KControl \<Longrightarrow> control (del_key d c) = control c" "d \<noteq> KProgress \<Longrightarrow> progress (del_key d c) = progress c"
  "recovery_lock (del_key d c) = recovery_lock c"
  by (cases d; simp add: del_key_def Let_def)+

lemma del_keys_present: "key_present k (fold del_key ds c) \<longleftrightarrow> k \<notin> set ds \<and> key_present k c"
  by (induction ds arbitrary: c) (auto simp: del_key_present)

lemma del_keys_control:
  "KControl \<notin> set ds \<Longrightarrow> KProgress \<notin> set ds \<Longrightarrow> control (fold del_key ds c) = control c
     \<and> progress (fold del_key ds c) = progress c \<and> recovery_lock (fold del_key ds c) = recovery_lock c"
proof (induction ds arbitrary: c)
  case (Cons d ds)
  then have "d \<noteq> KControl" "d \<noteq> KProgress" by auto
  with Cons show ?case by (simp add: del_key_control)
qed simp

lemma named_key_rebuilt: "named_key k s = Some d \<Longrightarrow> d \<in> set rebuilt_keys \<or> (\<exists>t. d = KTenantInflight t)"
  by (auto simp: named_key_def rebuilt_keys_def split: option.splits if_splits dest!: map_of_SomeD set_zip_rightD)

lemma del_named_keys: "fold (del_named k) names c = fold del_key (List.map_filter (named_key k) names) c"
  by (induction names arbitrary: c) (simp_all add: del_named_def List.map_filter_def split: option.split)

lemma emptied_inv:
  assumes "\<And>key. \<not> key_present key c \<or> key \<in> {KControl, KProgress}" and "KControl \<notin> wrong_type c" and "KProgress \<notin> wrong_type c"
  shows "ready_inv H prefix resource c"
proof -
  have w: "wrong_type c = {}" using assms by (auto simp: key_present_def)
  have "\<not> key_present key c" if "key \<noteq> KControl" "key \<noteq> KProgress" for key using assms(1) that by blast
  note e = this [of KRing] this [of KRingMembers] this [of KActiveUsers] this [of KKnownUsers] this [of KActivationGen]
    this [of KProcessingTurns] this [of KTurnToTenant] this [of KTurnToGeneration] this [of KTenantToTurn]
    this [of KGlobalInflight] this [of KProvisional] this [of KStableIndex] this [of KReservationMeta] this [of "KTenantInflight t" for t]
  show ?thesis
    using e w
    by (auto simp: key_present_def ready_inv_def turn_inv_def ring_ok_def turns_ok_def gens_ok_def resv_inv_def hget_def)
qed

end
