(* ===== verification/Fq_Recovery_Begin_Props.thy ===== *)
theory Fq_Recovery_Begin_Props
  imports Fq_Recovery_Reach Fq_Ready_Props
begin

text \<open>
  Beginning a recovery: the fence a begin returns passes and shuts every other fence out, and which begins
  the script refuses.
\<close>

subsection \<open>Failures of the fence\<close>

lemma raw_lock_codes: "raw_lock now own c = Some e \<Longrightarrow> e \<noteq> OK"
  by (auto simp: raw_lock_def split: lock_value.splits if_splits)

lemma check_recovery_codes: "check_recovery N now f c = Some e \<Longrightarrow> e \<noteq> OK"
  using raw_lock_codes [of now "rf_owner f" c]
  by (auto simp: check_recovery_def recovery_fence_control_def recovery_fence_progress_def split: option.splits if_splits)

lemma recovery_fenced_run:
  assumes "recovery_fenced N now f body c = (d, OK # r)"
  shows "check_recovery N now f c = None" "body c = (d, OK # r)"
  using assms check_recovery_codes [of N now f c]
  by (cases "check_recovery N now f c"; auto simp: recovery_fenced_def)+

lemma check_recovery_readable:
  assumes "check_recovery N now f c = None"
  shows "KControl \<notin> wrong_type c" "KProgress \<notin> wrong_type c" "map_of (control c) ''epoch'' = Some (rf_epoch f)"
    "map_of (control c) ''state'' = Some ''RECOVERING''" "raw_lock now (rf_owner f) c = None"
  using assms
  by (auto simp: check_recovery_def recovery_fence_control_def recovery_fence_progress_def control_readable_def
      progress_readable_def control_fields_def ctl_def split: option.splits if_splits)

subsection \<open>Beginning\<close>

definition begin_target :: "begin_args \<Rightarrow> string" where
  "begin_target a = (if ba_kind a = WRITER_REBIND then ba_writer_b a else ba_writer_a a)"

definition last_completed :: "coord \<Rightarrow> string \<times> string" where
  "last_completed c =
     (if control_absent c then ([], ''NONE'')
      else (ctl c ''last_completed_operation_id'', ctl c ''last_completed_operation_kind''))"

lemma begin_transition_ok:
  assumes "begin_transition a c = Inr (i, target)" and "begin_control_error c = None"
  shows "target = begin_target a"
    "\<not> i \<Longrightarrow> canonical_progress c \<and> ctl c ''operation_kind'' = ba_kind a \<and> ctl c ''operation_id'' = ba_operation a
       \<and> ctl c ''writer_fingerprint'' = begin_target a
       \<and> (ba_kind a = FORCE_REBUILD \<longrightarrow> prog c ''force_not_before_ms'' = ba_force_not_before a)"
  using assms by (auto simp: begin_transition_def begin_control_error_def begin_target_def Let_def split: if_splits)

text \<open>What a successful begin has checked and written\<close>

lemma lua_begin_ok:
  assumes "lua_begin_recovery a now c = (d, OK # r)"
  obtains i where "raw_lock now (ba_owner a) c = None"
    "d = begin_commit a now i (begin_target a) (fst (last_completed c)) (snd (last_completed c)) c"
    "r = [ba_epoch a, begin_target a]" "last_completed_ok (fst (last_completed c)) (snd (last_completed c))"
    "ba_kind a = NORMAL \<or> special_kind (ba_kind a)"
    "\<not> i \<Longrightarrow> canonical_progress c \<and> ctl c ''operation_kind'' = ba_kind a \<and> ctl c ''operation_id'' = ba_operation a
       \<and> ctl c ''writer_fingerprint'' = begin_target a
       \<and> (ba_kind a = FORCE_REBUILD \<longrightarrow> prog c ''force_not_before_ms'' = ba_force_not_before a)"
    "KControl \<notin> wrong_type c"
proof -
  have lock: "raw_lock now (ba_owner a) c = None"
    using assms raw_lock_codes [of now "ba_owner a" c] by (cases "raw_lock now (ba_owner a) c") (auto simp: lua_begin_recovery_def locked_def)
  note run = assms [unfolded lua_begin_recovery_def locked_def lock option.case Let_def]
  show ?thesis
  proof (cases "control_absent c")
    case True
    with run show ?thesis
      by (intro that [of True] lock) (auto simp: last_completed_def last_completed_ok_def begin_target_def control_absent_def split: if_splits)
  next
    case False
    have err: "begin_control_error c = None"
      using run False by (cases "begin_control_error c") (auto simp: begin_control_error_def Let_def split: if_splits)
    then have lc: "last_completed_ok (fst (last_completed c)) (snd (last_completed c))" and rd: "KControl \<notin> wrong_type c"
      using False by (auto simp: begin_control_error_def last_completed_def control_readable_def Let_def split: if_splits)
    obtain i target where tr: "begin_transition a c = Inr (i, target)"
      using run False err by (cases "begin_transition a c") (auto simp: begin_transition_def Let_def split: if_splits)
    note t = begin_transition_ok [OF tr err]
    from run False err tr have kind: "ba_kind a = NORMAL \<or> special_kind (ba_kind a)"
      and d: "d = begin_commit a now i target (fst (last_completed c)) (snd (last_completed c)) c"
      and r: "r = [ba_epoch a, target]"
      by (auto simp: last_completed_def split: if_splits)
    show ?thesis using that [of i, OF lock _ _ lc kind _ rd] d r t by simp
  qed
qed

lemma begin_control_fields:
  "map_of (control (begin_commit a now i target p k c)) =
     (map_of (control c))(''epoch'' \<mapsto> ba_epoch a, ''state'' \<mapsto> ''RECOVERING'', ''operation_kind'' \<mapsto> ba_kind a,
       ''operation_id'' \<mapsto> ba_operation a, ''last_completed_operation_id'' \<mapsto> p, ''last_completed_operation_kind'' \<mapsto> k,
       ''protocol_version'' \<mapsto> ''1'', ''writer_fingerprint'' \<mapsto> target)"
  by (rule ext) (simp add: begin_commit_def expire_lock_def Let_def map_of_hset)

lemma begin_progress_taken:
  "map_of (progress (begin_commit a now False target p k c)) = (map_of (progress c))(''epoch'' \<mapsto> ba_epoch a)"
  by (rule ext) (simp add: begin_commit_def expire_lock_def Let_def map_of_hset)

lemma begin_progress_fresh:
  "map_of (progress (begin_commit a now True target p k c)) =
     (map_of (fresh_progress a))
       (''rebind_original_writer'' \<mapsto> (if ba_kind a = WRITER_REBIND then ba_writer_a a else []),
        ''rebind_target_writer'' \<mapsto> (if ba_kind a = WRITER_REBIND then ba_writer_b a else []),
        ''force_not_before_ms'' \<mapsto> (if ba_kind a = FORCE_REBUILD then ba_force_not_before a else []))"
  by (rule ext) (simp add: begin_commit_def expire_lock_def Let_def map_of_hset fresh_progress_def)

lemma begin_frame:
  "recovery_lock (begin_commit a now i target p k c) =
     (case recovery_lock c of LockHeld own _ \<Rightarrow> LockHeld own (Some (now + ba_ttl a)) | l \<Rightarrow> l)"
  "wrong_type (begin_commit a now i target p k c) = (if i then wrong_type c - {KProgress} else wrong_type c)"
  by (cases i; simp add: begin_commit_def expire_lock_def Let_def split: lock_value.split)+

text \<open>The arguments that a client's validation lets through\<close>

definition begin_args_ok :: "begin_args \<Rightarrow> bool" where
  "begin_args_ok a \<longleftrightarrow> lower_hex 32 (ba_epoch a) \<and> lower_hex 32 (ba_owner a) \<and> lower_hex 64 (ba_writer_a a)
     \<and> (if ba_kind a = NORMAL then ba_operation a = [] else special_kind (ba_kind a) \<and> lower_hex 32 (ba_operation a))
     \<and> (ba_kind a = WRITER_REBIND \<longrightarrow> lower_hex 64 (ba_writer_b a) \<and> ba_writer_a a \<noteq> ba_writer_b a)
     \<and> (ba_kind a = FORCE_REBUILD \<longrightarrow> fq_uint (ba_force_not_before a) True)"

definition begun_fence :: "begin_args \<Rightarrow> recovery_fence" where
  "begun_fence a = \<lparr> rf_epoch = ba_epoch a, rf_writer = begin_target a, rf_owner = ba_owner a, rf_kind = ba_kind a,
     rf_operation = ba_operation a \<rparr>"

lemma map_of_not_Nil: "map_of h k = Some v \<Longrightarrow> h \<noteq> []"
  by auto

lemma fq_uint_format: "n \<le> max_int64 \<Longrightarrow> 0 < n \<Longrightarrow> fq_uint (format_uint n) True"
  by (simp add: fq_uint_positive positive_int64_format)

lemma begin_request_ok:
  assumes "begin_request prefix resource wa wb kind operation force own ttl token = Inr a" and "force < 2 ^ 63"
  shows "begin_args_ok a" "redis_duration_ms ttl = Inr (ba_ttl a)" "build_redis_keyspace prefix resource \<noteq> Inl e"
    "token = Some (ba_epoch a)" "ba_owner a = own" "ba_kind a = kind" "ba_operation a = operation"
    "ba_writer_a a = wa" "ba_writer_b a = wb"
proof -
  have "fq_uint (format_uint (nat force)) True" if "0 < force"
    using assms(2) that by (intro fq_uint_format) (auto simp: max_int64_def)
  then show "begin_args_ok a"
    using assms(1)
    by (auto simp: begin_request_def bind_result_Inr next_epoch_def begin_args_ok_def validate_recovery_lock_def validate_writer_def
        special_kind_def split: option.splits if_splits)
qed (use assms(1) in \<open>auto simp: begin_request_def bind_result_Inr next_epoch_def split: option.splits if_splits\<close>)

lemma begin_target_hex: "begin_args_ok a \<Longrightarrow> lower_hex 64 (begin_target a)"
  by (auto simp: begin_args_ok_def begin_target_def)

lemma special_not_normal: "special_kind k \<Longrightarrow> k \<noteq> NORMAL"
  by (auto simp: special_kind_def)

lemma begun_control_passes:
  assumes "begin_args_ok a" and "last_completed_ok p k" and "ba_kind a = NORMAL \<or> p \<noteq> ba_operation a" and "N ''1''"
    and "KControl \<notin> wrong_type c"
  shows "recovery_fence_control N (begun_fence a) (begin_commit a now i (begin_target a) p k c) = None"
proof -
  let ?d = "begin_commit a now i (begin_target a) p k c"
  have "control ?d \<noteq> []" by (rule map_of_not_Nil [of _ "''epoch''"]) (simp add: begin_control_fields)
  then have "\<not> control_absent ?d" by (simp add: control_absent_def)
  moreover have "control_readable ?d" using assms(5) by (simp add: control_readable_def begin_frame(2) begin_control_fields control_fields_def)
  moreover have "ctl ?d ''protocol_version'' = ''1''" "ctl ?d ''epoch'' = ba_epoch a" "ctl ?d ''writer_fingerprint'' = begin_target a"
    "ctl ?d ''state'' = ''RECOVERING''" "ctl ?d ''operation_kind'' = ba_kind a" "ctl ?d ''operation_id'' = ba_operation a"
    "ctl ?d ''last_completed_operation_id'' = p" "ctl ?d ''last_completed_operation_kind'' = k"
    by (simp_all add: ctl_def begin_control_fields)
  ultimately show ?thesis
    using assms begin_target_hex [OF assms(1)]
    by (simp add: recovery_fence_control_def begun_fence_def begin_args_ok_def)
qed

lemma special_progress_cong:
  assumes "p ''repair_high_water'' = q ''repair_high_water''" "p ''repair_complete'' = q ''repair_complete''"
    "p ''rebind_original_writer'' = q ''rebind_original_writer''" "p ''rebind_target_writer'' = q ''rebind_target_writer''"
    "p ''force_not_before_ms'' = q ''force_not_before_ms''" "p ''force_delete_complete'' = q ''force_delete_complete''"
  shows "special_progress_ok kind operation writer p = special_progress_ok kind operation writer q"
  unfolding special_progress_ok_def assms ..

lemma fresh_progress_at:
  assumes "fresh_progress a ! i = (k, v)" and "i < 19"
  shows "map_of (fresh_progress a) k = Some v"
proof -
  have "distinct (map fst (fresh_progress a))" "length (fresh_progress a) = 19" by (simp_all add: fresh_progress_def)
  with assms show ?thesis by (metis map_of_is_SomeI nth_mem)
qed

lemma fresh_progress_entries:
  "map_of (fresh_progress a) ''epoch'' = Some (ba_epoch a)" "map_of (fresh_progress a) ''operation_kind'' = Some (ba_kind a)"
  "map_of (fresh_progress a) ''operation_id'' = Some (ba_operation a)" "map_of (fresh_progress a) ''high_water'' = Some []"
  "map_of (fresh_progress a) ''known_cycle'' = Some ''0''" "map_of (fresh_progress a) ''known_complete'' = Some ''0''"
  "map_of (fresh_progress a) ''known_diff'' = Some ''0''" "map_of (fresh_progress a) ''dispatched_cycle'' = Some ''0''"
  "map_of (fresh_progress a) ''dispatched_complete'' = Some ''0''" "map_of (fresh_progress a) ''dispatched_diff'' = Some ''0''"
  "map_of (fresh_progress a) ''running_cycle'' = Some ''0''" "map_of (fresh_progress a) ''running_complete'' = Some ''0''"
  "map_of (fresh_progress a) ''running_diff'' = Some ''0''" "map_of (fresh_progress a) ''repair_high_water'' = Some []"
  "map_of (fresh_progress a) ''repair_complete'' = Some ''0''" "map_of (fresh_progress a) ''force_delete_complete'' = Some ''0''"
  subgoal by (rule fresh_progress_at [of a 0]) (simp_all add: fresh_progress_def)
  subgoal by (rule fresh_progress_at [of a 1]) (simp_all add: fresh_progress_def)
  subgoal by (rule fresh_progress_at [of a 2]) (simp_all add: fresh_progress_def)
  subgoal by (rule fresh_progress_at [of a 3]) (simp_all add: fresh_progress_def)
  subgoal by (rule fresh_progress_at [of a 4]) (simp_all add: fresh_progress_def)
  subgoal by (rule fresh_progress_at [of a 5]) (simp_all add: fresh_progress_def)
  subgoal by (rule fresh_progress_at [of a 6]) (simp_all add: fresh_progress_def)
  subgoal by (rule fresh_progress_at [of a 7]) (simp_all add: fresh_progress_def)
  subgoal by (rule fresh_progress_at [of a 8]) (simp_all add: fresh_progress_def)
  subgoal by (rule fresh_progress_at [of a 9]) (simp_all add: fresh_progress_def)
  subgoal by (rule fresh_progress_at [of a 10]) (simp_all add: fresh_progress_def)
  subgoal by (rule fresh_progress_at [of a 11]) (simp_all add: fresh_progress_def)
  subgoal by (rule fresh_progress_at [of a 12]) (simp_all add: fresh_progress_def)
  subgoal by (rule fresh_progress_at [of a 13]) (simp_all add: fresh_progress_def)
  subgoal by (rule fresh_progress_at [of a 14]) (simp_all add: fresh_progress_def)
  subgoal by (rule fresh_progress_at [of a 18]) (simp_all add: fresh_progress_def)
  done

lemma fresh_progress_fields:
  fixes a now p k c defines "d \<equiv> begin_commit a now True (begin_target a) p k c"
  shows "map_of (progress d) ''epoch'' = Some (ba_epoch a)" "map_of (progress d) ''operation_kind'' = Some (ba_kind a)"
    "map_of (progress d) ''operation_id'' = Some (ba_operation a)" "map_of (progress d) ''high_water'' = Some []"
    "map_of (progress d) ''known_cycle'' = Some ''0''" "map_of (progress d) ''known_complete'' = Some ''0''"
    "map_of (progress d) ''known_diff'' = Some ''0''" "map_of (progress d) ''dispatched_cycle'' = Some ''0''"
    "map_of (progress d) ''dispatched_complete'' = Some ''0''" "map_of (progress d) ''dispatched_diff'' = Some ''0''"
    "map_of (progress d) ''running_cycle'' = Some ''0''" "map_of (progress d) ''running_complete'' = Some ''0''"
    "map_of (progress d) ''running_diff'' = Some ''0''" "map_of (progress d) ''repair_high_water'' = Some []"
    "map_of (progress d) ''repair_complete'' = Some ''0''"
    "map_of (progress d) ''rebind_original_writer'' = Some (if ba_kind a = WRITER_REBIND then ba_writer_a a else [])"
    "map_of (progress d) ''rebind_target_writer'' = Some (if ba_kind a = WRITER_REBIND then ba_writer_b a else [])"
    "map_of (progress d) ''force_not_before_ms'' = Some (if ba_kind a = FORCE_REBUILD then ba_force_not_before a else [])"
    "map_of (progress d) ''force_delete_complete'' = Some ''0''"
  unfolding d_def begin_progress_fresh by (simp_all add: fresh_progress_entries)

lemma special_kind_cases:
  assumes "special_kind k"
  obtains "k = RABBIT_REPAIR" | "k = WRITER_REBIND" | "k = FORCE_REBUILD"
  using assms by (auto simp: special_kind_def)

lemma fresh_special_ok:
  assumes "begin_args_ok a"
  shows "special_progress_ok (ba_kind a) (ba_operation a) (begin_target a)
     (prog (begin_commit a now True (begin_target a) p k c))"
proof -
  note f = fresh_progress_fields [of a now p k c]
  have hw: "lua_fq_high_water []" by (simp add: lua_fq_high_water_def)
  show ?thesis
  proof (cases "ba_kind a = NORMAL")
    case True
    with assms f show ?thesis by (simp add: special_progress_ok_def prog_def begin_args_ok_def)
  next
    case False
    then have "special_kind (ba_kind a)" using assms by (simp add: begin_args_ok_def)
    then show ?thesis
    proof (cases rule: special_kind_cases)
      case 1
      with assms f hw show ?thesis by (simp add: special_progress_ok_def prog_def begin_args_ok_def)
    next
      case 2
      with assms f show ?thesis by (simp add: special_progress_ok_def prog_def begin_args_ok_def begin_target_def)
    next
      case 3
      with assms f show ?thesis by (simp add: special_progress_ok_def prog_def begin_args_ok_def)
    qed
  qed
qed

lemma fresh_progress_passes:
  assumes "begin_args_ok a"
  shows "recovery_fence_progress (begun_fence a) (begin_commit a now True (begin_target a) p k c) = None"
proof -
  let ?d = "begin_commit a now True (begin_target a) p k c"
  note f = fresh_progress_fields [of a now p k c]
  have "progress ?d \<noteq> []" using f(1) by (rule map_of_not_Nil)
  then have ex: "progress_exists ?d" by (simp add: progress_exists_def)
  have rd: "progress_readable ?d" using f by (simp add: progress_readable_def progress_fields_def begin_frame(2))
  have hw: "lua_fq_high_water []" by (simp add: lua_fq_high_water_def)
  have u: "fq_uint ''0'' False" by (simp add: fq_uint_def is_digit_def)
  have common: "common_progress_ok (prog ?d)" using f hw u by (simp add: common_progress_ok_def prog_def fq_bool_def)
  have kind: "ba_kind a = NORMAL \<or> special_kind (ba_kind a)" using assms by (auto simp: begin_args_ok_def split: if_splits)
  have id: "prog ?d ''epoch'' = ba_epoch a" "prog ?d ''operation_kind'' = ba_kind a" "prog ?d ''operation_id'' = ba_operation a"
    using f(1-3) by (simp_all add: prog_def)
  show ?thesis
    using ex rd common fresh_special_ok [OF assms, of now p k c] kind id
    by (simp add: recovery_fence_progress_def begun_fence_def)
qed

lemma taken_progress_passes:
  assumes "begin_args_ok a" and "canonical_progress c" and "ctl c ''operation_kind'' = ba_kind a"
    and "ctl c ''operation_id'' = ba_operation a" and "ctl c ''writer_fingerprint'' = begin_target a"
  shows "recovery_fence_progress (begun_fence a) (begin_commit a now False (begin_target a) p k c) = None"
proof -
  let ?d = "begin_commit a now False (begin_target a) p k c"
  note m = begin_progress_taken [of a now "begin_target a" p k c]
  have eq: "prog ?d f = (if f = ''epoch'' then ba_epoch a else prog c f)" for f by (simp add: prog_def m)
  have "progress ?d \<noteq> []" by (rule map_of_not_Nil [of _ "''epoch''"]) (simp add: m)
  then have ex: "progress_exists ?d" by (simp add: progress_exists_def)
  have rd: "progress_readable ?d"
    using assms(2) by (simp add: canonical_progress_def progress_readable_def progress_fields_def m begin_frame(2))
  have common: "common_progress_ok (prog ?d)"
    using assms(2) by (simp add: canonical_progress_def common_progress_ok_def eq)
  have special: "special_progress_ok (ba_kind a) (ba_operation a) (begin_target a) (prog ?d)"
    using assms(2-5) special_progress_cong [of "prog ?d" "prog c"] by (simp add: canonical_progress_def eq)
  have kind: "ba_kind a = NORMAL \<or> special_kind (ba_kind a)" using assms(1) by (auto simp: begin_args_ok_def split: if_splits)
  have "prog ?d ''epoch'' = ba_epoch a" "prog ?d ''operation_kind'' = ba_kind a" "prog ?d ''operation_id'' = ba_operation a"
    using assms(2-4) by (simp_all add: eq canonical_progress_def)
  with ex rd common special kind show ?thesis by (simp add: recovery_fence_progress_def begun_fence_def)
qed

lemma begun_lock:
  assumes "raw_lock now (ba_owner a) c = None" and "begin_args_ok a" and "t < now + ba_ttl a"
  shows "raw_lock t (ba_owner a) (begin_commit a now i target p k c) = None"
proof -
  from assms(1) obtain e where "recovery_lock c = LockHeld (ba_owner a) e"
    by (auto simp: raw_lock_def lock_at_def split: lock_value.splits option.splits if_splits)
  then show ?thesis using assms(2,3)
    by (simp add: raw_lock_def lock_at_def begin_frame(1) lock_ttl_ok_def begin_args_ok_def)
qed

lemma begun_passes:
  assumes "lua_begin_recovery a now c = (d, OK # r)" and "begin_args_ok a" and "N ''1''"
    and "ba_kind a = NORMAL \<or> fst (last_completed c) \<noteq> ba_operation a" and "t < now + ba_ttl a"
  shows "check_recovery N t (begun_fence a) d = None"
proof -
  from assms(1) obtain i where lock: "raw_lock now (ba_owner a) c = None"
    and d: "d = begin_commit a now i (begin_target a) (fst (last_completed c)) (snd (last_completed c)) c"
    and lc: "last_completed_ok (fst (last_completed c)) (snd (last_completed c))"
    and taken: "\<not> i \<Longrightarrow> canonical_progress c \<and> ctl c ''operation_kind'' = ba_kind a \<and> ctl c ''operation_id'' = ba_operation a
       \<and> ctl c ''writer_fingerprint'' = begin_target a"
    and w: "KControl \<notin> wrong_type c"
    by (elim lua_begin_ok) blast
  have "recovery_fence_progress (begun_fence a) d = None"
    using fresh_progress_passes [OF assms(2)] taken_progress_passes [OF assms(2)] taken by (cases i) (simp_all add: d)
  moreover have "raw_lock t (rf_owner (begun_fence a)) d = None"
    using begun_lock [OF lock assms(2,5)] by (simp add: d begun_fence_def)
  ultimately show ?thesis
    using begun_control_passes [where i = i and now = now and N = N, OF assms(2) lc assms(4,3) w]
    by (simp add: check_recovery_def d)
qed

lemma recovering_not_ready: "map_of (control d) ''state'' = Some ''RECOVERING'' \<Longrightarrow> check_ready e w d \<noteq> OK"
  by (auto simp: check_ready_def read_control_def hmget_def control_fields_def Let_def)

lemma begin_delivered:
  assumes "begin_recovery_with_lock net now prefix resource wa wb kind operation force own ttl token c = (Inr f, d)"
  obtains a where "begin_request prefix resource wa wb kind operation force own ttl token = Inr a"
    "lua_begin_recovery a now c = (d, [OK, ba_epoch a, begin_target a])" "f = begun_fence a" "validate_recovery_fence f = None"
proof -
  obtain a where a: "begin_request prefix resource wa wb kind operation force own ttl token = Inr a"
    using assms by (cases "begin_request prefix resource wa wb kind operation force own ttl token")
      (auto simp: begin_recovery_with_lock_def redis_call_def)
  obtain d' r where run: "lua_begin_recovery a now c = (d', r)" by fastforce
  have net: "net = Delivered" using assms a
    by (cases net) (auto simp: begin_recovery_with_lock_def redis_call_def run_runtime_script_def)
  from assms have parse: "redis_runtime_result_error r = None" "\<exists>code epoch writer. r = [code, epoch, writer] \<and> epoch = ba_epoch a
      \<and> f = \<lparr> rf_epoch = ba_epoch a, rf_writer = writer, rf_owner = own, rf_kind = kind, rf_operation = operation \<rparr>
      \<and> validate_recovery_fence f = None" and d: "d' = d"
    by (auto simp: begin_recovery_with_lock_def redis_call_def run_runtime_script_def net a run Let_def
        split: list.splits if_splits)
  then obtain writer where r: "r = [OK, ba_epoch a, writer]"
    and f: "f = \<lparr> rf_epoch = ba_epoch a, rf_writer = writer, rf_owner = own, rf_kind = kind, rf_operation = operation \<rparr>"
    and v: "validate_recovery_fence f = None"
    by (auto simp: redis_runtime_result_error_def split: if_splits)
  from run [unfolded r] have "writer = begin_target a" by (elim lua_begin_ok) simp
  moreover have "ba_owner a = own" "ba_kind a = kind" "ba_operation a = operation" using begin_request_epoch [OF a] by blast+
  ultimately show ?thesis using that a run d r f v by (simp add: begun_fence_def)
qed

lemma begin_commit_only:
  "begin_commit a now i target p k c = c\<lparr> control := control (begin_commit a now i target p k c),
     progress := progress (begin_commit a now i target p k c), recovery_lock := recovery_lock (begin_commit a now i target p k c),
     wrong_type := wrong_type (begin_commit a now i target p k c) \<rparr>"
  by (cases i) (simp_all add: begin_commit_def expire_lock_def Let_def)

lemma begun_facts:
  assumes "begin_recovery_with_lock net now prefix resource wa wb kind operation force own ttl token c = (Inr f, d)"
    and "force < 2 ^ 63" and "N ''1''"
  shows "f = \<lparr> rf_epoch = the token, rf_writer = (if kind = WRITER_REBIND then wb else wa), rf_owner = own, rf_kind = kind,
       rf_operation = operation \<rparr>"
    and "validate_recovery_fence f = None"
    and "kind = NORMAL \<or> fst (last_completed c) \<noteq> operation \<Longrightarrow> redis_duration_ms ttl = Inr ms \<Longrightarrow> t < now + ms
      \<Longrightarrow> check_recovery N t f d = None"
    and "rf_epoch g \<noteq> rf_epoch f \<Longrightarrow> check_recovery N t g d \<noteq> None"
    and "check_ready e w d \<noteq> OK"
    and "d = c\<lparr> control := control d, progress := progress d, recovery_lock := recovery_lock d, wrong_type := wrong_type d \<rparr>"
proof -
  from begin_delivered [OF assms(1)] obtain a where a: "begin_request prefix resource wa wb kind operation force own ttl token = Inr a"
    and run: "lua_begin_recovery a now c = (d, [OK, ba_epoch a, begin_target a])" and f: "f = begun_fence a"
    and v: "validate_recovery_fence f = None" .
  note req = begin_request_ok [OF a assms(2)]
  from run obtain i where d: "d = begin_commit a now i (begin_target a) (fst (last_completed c)) (snd (last_completed c)) c"
    by (elim lua_begin_ok) blast
  show "f = \<lparr> rf_epoch = the token, rf_writer = (if kind = WRITER_REBIND then wb else wa), rf_owner = own, rf_kind = kind,
       rf_operation = operation \<rparr>"
    using req by (simp add: f begun_fence_def begin_target_def)
  show "validate_recovery_fence f = None" by (rule v)
  show "check_recovery N t f d = None" if "kind = NORMAL \<or> fst (last_completed c) \<noteq> operation" "redis_duration_ms ttl = Inr ms" "t < now + ms"
    using begun_passes [where N = N, OF run req(1) assms(3)] that req by (simp add: f)
  have c: "map_of (control d) ''epoch'' = Some (rf_epoch f)" "map_of (control d) ''state'' = Some ''RECOVERING''"
    by (simp_all add: d begin_control_fields f begun_fence_def)
  then show "rf_epoch g \<noteq> rf_epoch f \<Longrightarrow> check_recovery N t g d \<noteq> None" using check_recovery_readable(3) by fastforce
  show "check_ready e w d \<noteq> OK" using c(2) by (rule recovering_not_ready)
  show "d = c\<lparr> control := control d, progress := progress d, recovery_lock := recovery_lock d, wrong_type := wrong_type d \<rparr>"
    unfolding d by (rule begin_commit_only)
qed

text \<open>C17: beginning a recovery takes the resource over. Every successful begin returns a valid fence with the new
  epoch, the requested identity, and the writer that the recovery is for; the fences of all other epochs are refused from then
  on, and so is every READY fence, and what the resource holds besides control, progress and lock is untouched. Until the lock
  expires every check of the new fence passes, unless the begin of a special recovery named the operation that was completed last.\<close>

theorem begin_takes_over:
  assumes "begin_recovery_with_lock net now prefix resource wa wb kind operation force own ttl token c = (Inr f, d)"
    and "force < 2 ^ 63" and "N ''1''"
  shows "f = \<lparr> rf_epoch = the token, rf_writer = (if kind = WRITER_REBIND then wb else wa), rf_owner = own, rf_kind = kind,
        rf_operation = operation \<rparr>
    \<and> validate_recovery_fence f = None
    \<and> (kind = NORMAL \<or> fst (last_completed c) \<noteq> operation \<longrightarrow>
         (\<forall>ms t. redis_duration_ms ttl = Inr ms \<and> t < now + ms \<longrightarrow> check_recovery N t f d = None))
    \<and> (\<forall>g t. rf_epoch g \<noteq> rf_epoch f \<longrightarrow> check_recovery N t g d \<noteq> None)
    \<and> (\<forall>e w. check_ready e w d \<noteq> OK)
    \<and> d = c\<lparr> control := control d, progress := progress d, recovery_lock := recovery_lock d, wrong_type := wrong_type d \<rparr>"
proof -
  note facts = begun_facts [where N = N, OF assms]
  show ?thesis
    by (intro conjI allI impI facts(1,2,5,6)) (use facts(3,4) in blast)+
qed

lemma fence_accepts_begin:
  assumes "recovery_fence_control N f c = None" and "recovery_fence_progress f c = None"
  shows "begin_control_error c = None"
proof -
  have one: "fq_uint ''1'' True" by code_simp
  have ctl: "control_readable c" "lower_hex 32 (ctl c ''epoch'')" "lower_hex 64 (ctl c ''writer_fingerprint'')"
    "last_completed_ok (ctl c ''last_completed_operation_id'') (ctl c ''last_completed_operation_kind'')"
    "ctl c ''protocol_version'' = ''1''" "ctl c ''state'' = ''RECOVERING''" "ctl c ''epoch'' = rf_epoch f"
    "ctl c ''writer_fingerprint'' = rf_writer f" "ctl c ''operation_kind'' = rf_kind f" "ctl c ''operation_id'' = rf_operation f"
    "rf_kind f = NORMAL \<or> ctl c ''last_completed_operation_id'' \<noteq> rf_operation f"
    using assms(1) by (auto simp: recovery_fence_control_def split: if_splits)
  have pr: "progress_exists c" "progress_readable c" "prog c ''epoch'' = rf_epoch f" "prog c ''operation_kind'' = rf_kind f"
    "prog c ''operation_id'' = rf_operation f" "common_progress_ok (prog c)" "rf_kind f = NORMAL \<or> special_kind (rf_kind f)"
    "special_progress_ok (rf_kind f) (rf_operation f) (rf_writer f) (prog c)"
    using assms(2) by (auto simp: recovery_fence_progress_def split: if_splits)
  have "if rf_kind f = NORMAL then rf_operation f = [] else special_kind (rf_kind f) \<and> lower_hex 32 (rf_operation f)"
    using pr(7,8) by (auto simp: special_progress_ok_def special_kind_def)
  moreover have "canonical_progress c" using pr ctl by (simp add: canonical_progress_def)
  ultimately show ?thesis using ctl one by (auto simp: begin_control_error_def Let_def split: if_splits)
qed

subsection \<open>Which recoveries may begin\<close>

lemma lua_begin_checked:
  assumes "lua_begin_recovery a now c = (d, OK # r)" and "\<not> control_absent c"
  shows "begin_control_error c = None" "\<exists>i. begin_transition a c = Inr (i, begin_target a)
     \<and> d = begin_commit a now i (begin_target a) (fst (last_completed c)) (snd (last_completed c)) c"
proof -
  have lock: "raw_lock now (ba_owner a) c = None"
    using assms(1) raw_lock_codes [of now "ba_owner a" c] by (cases "raw_lock now (ba_owner a) c") (auto simp: lua_begin_recovery_def locked_def)
  note run = assms(1) [unfolded lua_begin_recovery_def locked_def lock option.case Let_def if_not_P [OF assms(2)]]
  show err: "begin_control_error c = None"
    using run by (cases "begin_control_error c") (auto simp: begin_control_error_def Let_def split: if_splits)
  obtain i target where tr: "begin_transition a c = Inr (i, target)"
    using run err by (cases "begin_transition a c") (auto simp: begin_transition_def Let_def split: if_splits)
  have "target = begin_target a" by (rule begin_transition_ok(1) [OF tr err])
  with run err tr have "d = begin_commit a now i (begin_target a) (fst (last_completed c)) (snd (last_completed c)) c"
    using assms(2) by (auto simp: last_completed_def split: if_splits)
  with tr \<open>target = begin_target a\<close> show "\<exists>i. begin_transition a c = Inr (i, begin_target a)
     \<and> d = begin_commit a now i (begin_target a) (fst (last_completed c)) (snd (last_completed c)) c" by blast
qed

lemma begin_transition_cases:
  assumes "begin_transition a c = Inr (i, target)" and "begin_control_error c = None"
  shows "ctl c ''state'' = ''READY'' \<and> i \<and> ba_kind a \<noteq> FORCE_REBUILD \<and> ctl c ''writer_fingerprint'' = ba_writer_a a
        \<and> (ba_kind a = NORMAL \<or> ctl c ''last_completed_operation_id'' \<noteq> ba_operation a)
     \<or> ctl c ''state'' = ''RECOVERING'' \<and> i \<and> ba_kind a = FORCE_REBUILD \<and> ctl c ''operation_kind'' = NORMAL
        \<and> ctl c ''writer_fingerprint'' = ba_writer_a a
     \<or> ctl c ''state'' = ''RECOVERING'' \<and> \<not> i \<and> ctl c ''operation_kind'' = ba_kind a \<and> ctl c ''operation_id'' = ba_operation a"
  using assms by (auto simp: begin_transition_def begin_control_error_def Let_def split: if_splits)

text \<open>C18: a begin overrides nothing it must not. On a READY resource it starts a recovery of the same writer, never a
  forced rebuild, and never an operation that was the last one completed. While a resource is recovering, only the same
  recovery can be taken over, and then it keeps its progress up to the epoch; the one exception is
  a forced rebuild, which may replace a normal recovery. The caller always holds the lock.\<close>

theorem begin_overrides_nothing:
  assumes "begin_recovery_with_lock net now prefix resource wa wb kind operation force own ttl token c = (Inr f, d)"
    and "\<not> control_absent c"
  shows "raw_lock now own c = None
    \<and> (ctl c ''state'' = ''READY'' \<longrightarrow> kind \<noteq> FORCE_REBUILD \<and> ctl c ''writer_fingerprint'' = wa
        \<and> (kind = NORMAL \<or> ctl c ''last_completed_operation_id'' \<noteq> operation))
    \<and> (ctl c ''state'' = ''RECOVERING'' \<and> special_kind (ctl c ''operation_kind'') \<longrightarrow>
        kind = ctl c ''operation_kind'' \<and> operation = ctl c ''operation_id'')
    \<and> (ctl c ''state'' = ''RECOVERING'' \<and> ctl c ''operation_kind'' = NORMAL \<longrightarrow> kind = NORMAL \<or> kind = FORCE_REBUILD)
    \<and> (ctl c ''state'' = ''RECOVERING'' \<and> kind = ctl c ''operation_kind'' \<longrightarrow>
        map_of (progress d) = (map_of (progress c))(''epoch'' \<mapsto> rf_epoch f))
    \<and> ctl c ''state'' \<in> {''READY'', ''RECOVERING''}"
proof -
  from begin_delivered [OF assms(1)] obtain a where a: "begin_request prefix resource wa wb kind operation force own ttl token = Inr a"
    and run: "lua_begin_recovery a now c = (d, [OK, ba_epoch a, begin_target a])" and f: "f = begun_fence a" .
  note req = begin_request_epoch [OF a]
  have lock: "raw_lock now (ba_owner a) c = None" using run by (elim lua_begin_ok) blast
  obtain i where tr: "begin_transition a c = Inr (i, begin_target a)"
    and d: "d = begin_commit a now i (begin_target a) (fst (last_completed c)) (snd (last_completed c)) c"
    using lua_begin_checked(2) [OF run assms(2)] by blast
  have taken: "\<not> i \<Longrightarrow> map_of (progress d) = (map_of (progress c))(''epoch'' \<mapsto> rf_epoch f)"
    by (simp add: d begin_progress_taken f begun_fence_def)
  have n: "special_kind k \<Longrightarrow> k \<noteq> NORMAL" for k by (rule special_not_normal)
  have s: "(''READY''::string) \<noteq> ''RECOVERING''" "NORMAL \<noteq> FORCE_REBUILD" by simp_all
  from begin_transition_cases [OF tr lua_begin_checked(1) [OF run assms(2)]]
  show ?thesis using lock req taken n s by (elim disjE conjE) (auto simp: f begun_fence_def)
qed

lemma completed_control_corrupt:
  assumes "ctl d ''state'' = ''RECOVERING''" and "special_kind (ctl d ''operation_kind'')"
    and "ctl d ''last_completed_operation_id'' = ctl d ''operation_id''"
  shows "check_recovery N t g d \<noteq> None" and "control d \<noteq> [] \<Longrightarrow> fst (lua_begin_recovery a t d) = d"
    and "control d \<noteq> [] \<Longrightarrow> hd (snd (lua_begin_recovery a t d)) \<noteq> OK"
proof -
  note k = special_not_normal [OF assms(2)]
  have "recovery_fence_control N g d \<noteq> None" using assms(3) k by (auto simp: recovery_fence_control_def)
  then show "check_recovery N t g d \<noteq> None" by (auto simp: check_recovery_def split: option.split)
  assume ne: "control d \<noteq> []"
  obtain e where e: "begin_control_error d = Some e" "e \<noteq> OK"
    using assms k by (cases "begin_control_error d") (auto simp: begin_control_error_def Let_def split: if_splits)
  have "\<not> control_absent d" using ne by (simp add: control_absent_def)
  then show "fst (lua_begin_recovery a t d) = d" "hd (snd (lua_begin_recovery a t d)) \<noteq> OK"
    using e raw_lock_codes [of t "ba_owner a" d] by (simp_all add: lua_begin_recovery_def locked_def Let_def split: option.split)
qed

text \<open>C19: the one gap in that rule. The begin script refuses to repeat the last completed operation on a READY resource,
  but not when a forced rebuild replaces a normal recovery. If the operation of such a rebuild is
  the last one completed, the begin succeeds and the resource is stuck: no fence ever passes again, and
  no later begin, whatever its arguments and time, is accepted or changes anything.\<close>

theorem replayed_rebuild_wedges:
  assumes "begin_recovery_with_lock net now prefix resource wa wb kind operation force own ttl token c = (Inr f, d)"
    and "kind \<noteq> NORMAL" and "fst (last_completed c) = operation"
  shows "kind = FORCE_REBUILD \<and> ctl c ''state'' = ''RECOVERING'' \<and> ctl c ''operation_kind'' = NORMAL
    \<and> (\<forall>N t g. check_recovery N t g d \<noteq> None)
    \<and> (\<forall>a t. fst (lua_begin_recovery a t d) = d \<and> hd (snd (lua_begin_recovery a t d)) \<noteq> OK)"
proof -
  from begin_delivered [OF assms(1)] obtain a where a: "begin_request prefix resource wa wb kind operation force own ttl token = Inr a"
    and run: "lua_begin_recovery a now c = (d, [OK, ba_epoch a, begin_target a])" and f: "f = begun_fence a" .
  note req = begin_request_epoch [OF a]
  have special: "special_kind kind" "lower_hex 32 operation"
    using a assms(2) by (auto simp: begin_request_def split: if_splits)
  have present: "\<not> control_absent c" using assms(3) lower_hex_not_Nil [OF special(2)] by (auto simp: last_completed_def)
  obtain i where tr: "begin_transition a c = Inr (i, begin_target a)"
    and d: "d = begin_commit a now i (begin_target a) (fst (last_completed c)) (snd (last_completed c)) c"
    using lua_begin_checked(2) [OF run present] by blast
  have last: "ctl c ''last_completed_operation_id'' = operation" using assms(3) present by (simp add: last_completed_def)
  have err: "begin_control_error c = None" by (rule lua_begin_checked(1) [OF run present])
  have "ctl c ''operation_kind'' \<noteq> NORMAL \<Longrightarrow> ctl c ''state'' = ''RECOVERING'' \<Longrightarrow> ctl c ''operation_id'' \<noteq> operation"
    using err last by (auto simp: begin_control_error_def Let_def split: if_splits)
  with begin_transition_cases [OF tr err] last req assms(2)
  have force: "kind = FORCE_REBUILD" "ctl c ''state'' = ''RECOVERING''" "ctl c ''operation_kind'' = NORMAL" by auto
  have stuck: "ctl d ''state'' = ''RECOVERING''" "ctl d ''operation_kind'' = kind" "ctl d ''operation_id'' = operation"
    "ctl d ''last_completed_operation_id'' = operation" "map_of (control d) ''state'' = Some ''RECOVERING''"
    using req assms(3) by (simp_all add: ctl_def d begin_control_fields)
  then have "control d \<noteq> []" by auto
  with completed_control_corrupt [of d] stuck special(1) force show ?thesis by simp
qed

end
