(* ===== verification/Fq_Recovery_Props.thy ===== *)
theory Fq_Recovery_Props
  imports Fq_Recovery_Begin_Props Fq_Resv_Props
begin

text \<open>
  What a recovery guarantees: rebuilding from any state, the conditions of the finish, and the snapshot that an
  inspection returns.
\<close>

subsection \<open>Rebuilding\<close>

text \<open>The delete pass: pages of key names, each deleted successfully under the fence.\<close>

fun delete_pages ::
  "(string \<Rightarrow> bool) \<Rightarrow> string \<Rightarrow> string \<Rightarrow> recovery_fence \<Rightarrow> (transport \<times> int \<times> string list) list \<Rightarrow> coord \<Rightarrow> coord option" where
  "delete_pages N prefix resource f [] c = Some c"
| "delete_pages N prefix resource f ((net, now, refs) # pages) c =
     (case delete_owned_resource_keys N net now prefix resource f refs c of
        (Inr _, d) \<Rightarrow> delete_pages N prefix resource f pages d
      | (Inl _, d) \<Rightarrow> None)"

lemma reset_resource_ok:
  assumes "reset_resource N net now prefix resource f c = (Inr u, d)"
  shows "check_recovery N now f c = None" "d = fold del_key rebuilt_keys c"
    "zcard (processing_turns c) = 0" "zcard (provisional c) = 0"
proof -
  have "lua_reset_resource N f now c = (d, [OK])" using redis_call_ok [OF assms [unfolded reset_resource_def]] by blast
  note run = recovery_fenced_run [OF this [unfolded lua_reset_resource_def]]
  show "check_recovery N now f c = None" by (rule run(1))
  show "d = fold del_key rebuilt_keys c" "zcard (processing_turns c) = 0" "zcard (provisional c) = 0"
    using run(2) by (auto split: if_splits)
qed

lemma delete_page_ok:
  assumes "delete_owned_resource_keys N net now prefix resource f refs c = (Inr u, d)"
    and "build_redis_keyspace prefix resource = Inr k"
  shows "check_recovery N now f c = None" "\<exists>names. set names = set refs \<and> d = fold (del_named k) names c"
proof -
  from redis_call_ok [OF assms(1) [unfolded delete_owned_resource_keys_def]] assms(2)
  have "lua_delete_owned N f k (rev (remdups (rev refs))) now c = (d, [OK])" by (auto simp: bind_result_Inr)
  note run = recovery_fenced_run [OF this [unfolded lua_delete_owned_def]]
  show "check_recovery N now f c = None" by (rule run(1))
  have "d = fold (del_named k) (rev (remdups (rev refs))) c" using run(2) by (auto split: if_splits)
  moreover have "set (rev (remdups (rev refs))) = set refs" by simp
  ultimately show "\<exists>names. set names = set refs \<and> d = fold (del_named k) names c" by blast
qed

lemma set_map_filter: "set (List.map_filter g xs) = {y. \<exists>x\<in>set xs. g x = Some y}"
  by (induction xs) (auto simp: List.map_filter_def split: option.splits)

lemma del_keys_types: "wrong_type (fold del_key ds e) \<subseteq> wrong_type e"
proof (induction ds arbitrary: e)
  case (Cons d ds)
  have "wrong_type (del_key d e) \<subseteq> wrong_type e" by (cases d) (auto simp: del_key_def Let_def)
  with Cons [of "del_key d e"] show ?case by simp
qed simp

lemma del_named_frame:
  "wrong_type (fold (del_named k) names c) \<subseteq> wrong_type c \<and> control (fold (del_named k) names c) = control c \<and> progress (fold (del_named k) names c) = progress c
   \<and> recovery_lock (fold (del_named k) names c) = recovery_lock c"
proof -
  have "KControl \<notin> set (List.map_filter (named_key k) names)" "KProgress \<notin> set (List.map_filter (named_key k) names)"
    using named_key_rebuilt [of k] by (fastforce simp: set_map_filter rebuilt_keys_def)+
  then show ?thesis by (simp add: del_named_keys del_keys_control del_keys_types)
qed

lemma delete_pages_ok:
  assumes "delete_pages N prefix resource f pages c = Some d" and "build_redis_keyspace prefix resource = Inr k"
  shows "(\<forall>key. key_present key d \<longleftrightarrow> key_present key c
        \<and> (\<forall>(net, now, refs)\<in>set pages. \<forall>s\<in>set refs. named_key k s \<noteq> Some key))
    \<and> wrong_type d \<subseteq> wrong_type c \<and> control d = control c \<and> progress d = progress c \<and> recovery_lock d = recovery_lock c"
  using assms(1)
proof (induction pages arbitrary: c)
  case (Cons page pages)
  obtain net now refs where page: "page = (net, now, refs)" by (cases page)
  obtain e where e: "delete_owned_resource_keys N net now prefix resource f refs c = (Inr (), e)"
    and rest: "delete_pages N prefix resource f pages e = Some d"
    using Cons.prems by (auto simp: page split: prod.splits sum.splits)
  obtain names where names: "set names = set refs" "e = fold (del_named k) names c"
    using delete_page_ok(2) [OF e assms(2)] by blast
  have "key_present key e \<longleftrightarrow> key_present key c \<and> (\<forall>s\<in>set refs. named_key k s \<noteq> Some key)" for key
    using names by (auto simp: del_named_keys del_keys_present set_map_filter)
  with Cons.IH [OF rest] del_named_frame [of k names c] show ?case
    unfolding page names(2) by auto
qed simp

text \<open>C15: a recovery rebuilds a consistent resource, whatever was there. Suppose a reset and then the pages of a
  delete pass succeed under a recovery fence, and the pages name every key that was left. From
  then on any number of clients may make READY and recovery calls in any order, at any times and over an
  unreliable network: as long as nobody deletes again under an epoch that has not been retired, turns,
  ring, generations and reservations satisfy the full invariant of the coordination state.\<close>

theorem recovery_rebuilds_coordination:
  assumes "digest_hex H" and "build_redis_keyspace prefix resource = Inr k"
    and "reset_resource N net now prefix resource f c = (Inr (), c1)"
    and "delete_pages N prefix resource f pages c1 = Some c2"
    and "\<forall>key. key_present key c1 \<longrightarrow> key \<in> {KControl, KProgress}
           \<or> (\<exists>(net, now, refs)\<in>set pages. \<exists>s\<in>set refs. named_key k s = Some key)"
    and "rf_epoch f \<notin> retired" and "list_all (epoch_safe retired) evs"
  shows "ready_inv H prefix resource (run_resource N H prefix resource evs c2)
    \<and> control c2 = control c \<and> progress c2 = progress c \<and> recovery_lock c2 = recovery_lock c"
proof -
  note reset = reset_resource_ok [OF assms(3)]
  note ready = check_recovery_readable [OF reset(1)]
  note pages = delete_pages_ok [OF assms(4,2)]
  have c1: "control c1 = control c" "progress c1 = progress c" "recovery_lock c1 = recovery_lock c"
    using del_keys_control [of rebuilt_keys c] reset(2) by (simp_all add: rebuilt_keys_def)
  have gone: "\<not> key_present key c2 \<or> key \<in> {KControl, KProgress}" for key
    using pages assms(5) by fastforce
  have "KControl \<notin> wrong_type c2" "KProgress \<notin> wrong_type c2"
    using pages del_keys_types [of rebuilt_keys c] reset(2) ready(1,2) by blast+
  from emptied_inv [OF gone this] have "ready_inv H prefix resource c2" .
  moreover have "map_of (control c2) ''epoch'' \<notin> Some ` retired" using pages c1 ready(3) assms(6) by auto
  ultimately show ?thesis using run_resource_inv [OF assms(1)] assms(7) pages c1 by simp
qed

subsection \<open>Finishing\<close>

lemma finish_control_fields:
  "map_of (control (finish_commit f c)) =
     (map_of (control c))(''state'' \<mapsto> ''READY'', ''operation_kind'' \<mapsto> ''NONE'', ''operation_id'' \<mapsto> [],
       ''last_completed_operation_id'' \<mapsto> (if rf_kind f \<noteq> NORMAL then rf_operation f else ctl c ''last_completed_operation_id''),
       ''last_completed_operation_kind'' \<mapsto> (if rf_kind f \<noteq> NORMAL then rf_kind f else ctl c ''last_completed_operation_kind''))"
  by (rule ext) (simp add: finish_commit_def map_of_hset)

text \<open>The fields a fence has checked\<close>

lemma check_recovery_control:
  assumes "check_recovery N now f c = None"
  shows "map_of (control c) ''epoch'' = Some (rf_epoch f)" "map_of (control c) ''writer_fingerprint'' = Some (rf_writer f)"
    "map_of (control c) ''operation_kind'' = Some (rf_kind f)" "map_of (control c) ''operation_id'' = Some (rf_operation f)"
    "map_of (control c) ''protocol_version'' = Some ''1''" "lower_hex 32 (rf_epoch f)" "lower_hex 64 (rf_writer f)"
    "map_of (control c) ''last_completed_operation_id'' = Some (ctl c ''last_completed_operation_id'')"
    "map_of (control c) ''last_completed_operation_kind'' = Some (ctl c ''last_completed_operation_kind'')"
    "last_completed_ok (ctl c ''last_completed_operation_id'') (ctl c ''last_completed_operation_kind'')"
    "rf_kind f = NORMAL \<or> special_kind (rf_kind f) \<and> lower_hex 32 (rf_operation f)"
    "rf_kind f = NORMAL \<Longrightarrow> rf_operation f = []"
proof -
  have ctl: "recovery_fence_control N f c = None" and prog: "recovery_fence_progress f c = None"
    using assms by (auto simp: check_recovery_def split: option.splits)
  have rd: "control_readable c" using ctl by (auto simp: recovery_fence_control_def split: if_splits)
  have all: "map_of (control c) k \<noteq> None" if "k \<in> set control_fields" for k
    using rd that by (simp add: control_readable_def list_all_iff)
  have eq: "map_of (control c) k = Some (ctl c k)" if "k \<in> set control_fields" for k
    using all [OF that] by (auto simp: ctl_def)
  have v: "ctl c ''epoch'' = rf_epoch f" "ctl c ''writer_fingerprint'' = rf_writer f" "ctl c ''operation_kind'' = rf_kind f"
    "ctl c ''operation_id'' = rf_operation f" "ctl c ''protocol_version'' = ''1''"
    "lower_hex 32 (ctl c ''epoch'')" "lower_hex 64 (ctl c ''writer_fingerprint'')"
    "last_completed_ok (ctl c ''last_completed_operation_id'') (ctl c ''last_completed_operation_kind'')"
    using ctl by (auto simp: recovery_fence_control_def split: if_splits)
  show "map_of (control c) ''epoch'' = Some (rf_epoch f)" "map_of (control c) ''writer_fingerprint'' = Some (rf_writer f)"
    "map_of (control c) ''operation_kind'' = Some (rf_kind f)" "map_of (control c) ''operation_id'' = Some (rf_operation f)"
    "map_of (control c) ''protocol_version'' = Some ''1''"
    "map_of (control c) ''last_completed_operation_id'' = Some (ctl c ''last_completed_operation_id'')"
    "map_of (control c) ''last_completed_operation_kind'' = Some (ctl c ''last_completed_operation_kind'')"
    using eq v(1-5) by (simp_all add: control_fields_def)
  show "lower_hex 32 (rf_epoch f)" "lower_hex 64 (rf_writer f)"
    "last_completed_ok (ctl c ''last_completed_operation_id'') (ctl c ''last_completed_operation_kind'')"
    using v by simp_all
  have sp: "special_progress_ok (rf_kind f) (rf_operation f) (rf_writer f) (prog c)"
    using prog by (auto simp: recovery_fence_progress_def split: if_splits)
  then show "rf_kind f = NORMAL \<or> special_kind (rf_kind f) \<and> lower_hex 32 (rf_operation f)"
    "rf_kind f = NORMAL \<Longrightarrow> rf_operation f = []"
    by (auto simp: special_progress_ok_def special_kind_def Let_def split: if_splits)
qed

lemma finished_is_ready:
  assumes "check_recovery N now f c = None"
  shows "check_ready (rf_epoch f) (rf_writer f) (finish_commit f c) = OK"
    and "N ''1'' \<Longrightarrow> finished_already N f (finish_commit f c) = Some OK"
proof -
  let ?d = "finish_commit f c"
  note ctl = check_recovery_control [OF assms]
  have w: "wrong_type ?d = wrong_type c" "progress ?d = []" by (simp_all add: finish_commit_def)
  have m: "map_of (control ?d) ''epoch'' = Some (rf_epoch f)" "map_of (control ?d) ''writer_fingerprint'' = Some (rf_writer f)"
    "map_of (control ?d) ''operation_kind'' = Some ''NONE''" "map_of (control ?d) ''operation_id'' = Some []"
    "map_of (control ?d) ''protocol_version'' = Some ''1''" "map_of (control ?d) ''state'' = Some ''READY''"
    "map_of (control ?d) ''last_completed_operation_id''
       = Some (if rf_kind f \<noteq> NORMAL then rf_operation f else ctl c ''last_completed_operation_id'')"
    "map_of (control ?d) ''last_completed_operation_kind''
       = Some (if rf_kind f \<noteq> NORMAL then rf_kind f else ctl c ''last_completed_operation_kind'')"
    using ctl by (simp_all add: finish_control_fields)
  have ne: "control ?d \<noteq> []" using m(1) by auto
  have one: "positive_int64 ''1''" by (simp add: positive_int64_def positive_decimal_def is_digit_def)
  have lc: "last_completed_ok (if rf_kind f \<noteq> NORMAL then rf_operation f else ctl c ''last_completed_operation_id'')
      (if rf_kind f \<noteq> NORMAL then rf_kind f else ctl c ''last_completed_operation_kind'')"
    using ctl(10,11) lower_hex_not_Nil [of 32 "rf_operation f"] by (auto simp: last_completed_ok_def)
  have types: "KControl \<notin> wrong_type c" "KProgress \<notin> wrong_type c" using check_recovery_readable [OF assms] by simp_all
  have canon: "canonical_control (hmget (control ?d) control_fields)"
    using lc ctl(6,7) one by (simp add: hmget_def control_fields_def m last_completed_ok_def)
  have v: "hmget (control ?d) control_fields ! 0 = Some ''READY''" "hmget (control ?d) control_fields ! 3 = Some (rf_epoch f)"
    "hmget (control ?d) control_fields ! 4 = Some ''1''" "hmget (control ?d) control_fields ! 5 = Some (rf_writer f)"
    "length (hmget (control ?d) control_fields) = 8"
    by (simp_all add: hmget_def control_fields_def m)
  have "read_control ?d = Inr (map the (hmget (control ?d) control_fields))"
    using canon ne types w v(1) by (simp add: read_control_def Let_def)
  then show "check_ready (rf_epoch f) (rf_writer f) ?d = OK"
    using v by (simp add: check_ready_def)
  assume "N ''1''"
  moreover have "control_readable ?d" using types w m by (simp add: control_readable_def control_fields_def)
  moreover have "\<not> progress_exists ?d" using types w by (simp add: progress_exists_def)
  ultimately show "finished_already N f ?d = Some OK"
    using m lc ctl(6,7,11,12) types w by (auto simp: finished_already_def ctl_def Let_def)
qed

lemma if_member: "x \<in> S \<Longrightarrow> y \<in> S \<Longrightarrow> (if b then x else y) \<in> S"
  by simp

lemma finish_codes:
  "finish_state c \<in> {None, Some NOT_READY, Some CORRUPT}"
  "finish_progress f now c \<in> {None, Some NOT_READY, Some CORRUPT, Some FENCE}"
  unfolding finish_state_def finish_progress_def by (intro if_member; simp)+

lemma finish_recovery_ok:
  assumes "finish_recovery N net now prefix resource f c = (Inr u, d)" and "map_of (control c) ''state'' \<noteq> Some ''READY''"
  shows "check_recovery N now f c = None" "finish_state c = None" "finish_progress f now c = None" "d = finish_commit f c"
    "mutation_keys prefix resource f \<noteq> Inl e"
proof -
  from redis_call_ok [OF assms(1) [unfolded finish_recovery_def]]
  have run: "lua_finish_recovery N f now c = (d, [OK])" and keys: "mutation_keys prefix resource f \<noteq> Inl e" by auto
  have "finished_already N f c = None \<or> finished_already N f c = Some CORRUPT"
    using assms(2) by (simp add: finished_already_def Let_def)
  with run have "finished_already N f c = None" by (auto simp: lua_finish_recovery_def)
  note run = recovery_fenced_run [OF run [unfolded lua_finish_recovery_def this option.case]]
  show "mutation_keys prefix resource f \<noteq> Inl e" by (rule keys)
  show "check_recovery N now f c = None" by (rule run(1))
  show st: "finish_state c = None" using run(2) finish_codes(1) [of c] by auto
  show pr: "finish_progress f now c = None"
    using run(2) st finish_codes(2) [of f now c] by auto
  show "d = finish_commit f c" using run(2) st pr by simp
qed

text \<open>C16: a recovery finishes only when it is complete. The finish that turns a resource READY runs under a
  valid fence, with no lease left, a ring that lists exactly the active tenants with usable generations,
  all three passes complete without differences behind a fixed high water, and what the kind
  of recovery demands: the repair pass, or the delete pass and the deadline. Then the READY fence of the epoch
  is accepted, progress and lock are gone, a special operation is remembered as the last one, the rest of the
  state is unchanged, and repeating the finish succeeds and changes nothing.\<close>

theorem finish_only_complete:
  assumes "finish_recovery N net now prefix resource f c = (Inr (), d)" and "map_of (control c) ''state'' \<noteq> Some ''READY''"
    and "N ''1''"
  shows "check_recovery N now f c = None
    \<and> provisional c = [] \<and> processing_turns c = [] \<and> turn_to_tenant c = Map.empty \<and> tenant_to_turn c = Map.empty
    \<and> distinct (ring c) \<and> set (ring c) \<subseteq> ring_members c \<inter> active_users c \<inter> known_users c
    \<and> length (ring c) = card (ring_members c) \<and> length (ring c) = card (active_users c)
    \<and> (\<forall>t\<in>set (ring c). \<exists>g. activation_gen c t = Some g \<and> positive_int64 g)
    \<and> prog c ''high_water'' \<noteq> []
    \<and> (\<forall>p. prog c (pass_prefix p @ ''_complete'') = ''1'' \<and> prog c (pass_prefix p @ ''_diff'') = ''0'')
    \<and> (rf_kind f = RABBIT_REPAIR \<longrightarrow> prog c ''repair_high_water'' \<noteq> [] \<and> prog c ''repair_complete'' = ''1'')
    \<and> (rf_kind f = FORCE_REBUILD \<longrightarrow> prog c ''force_delete_complete'' = ''1''
          \<and> int (lua_number (prog c ''force_not_before_ms'')) \<le> now)
    \<and> check_ready (rf_epoch f) (rf_writer f) d = OK \<and> progress d = [] \<and> recovery_lock d = LockAbsent
    \<and> map_of (control d) ''last_completed_operation_id''
        = (if rf_kind f = NORMAL then map_of (control c) ''last_completed_operation_id'' else Some (rf_operation f))
    \<and> d = c\<lparr> control := control d, progress := [], recovery_lock := LockAbsent \<rparr>
    \<and> (\<forall>later. finish_recovery N Delivered later prefix resource f d = (Inr (), d))"
proof -
  note fin = finish_recovery_ok [OF assms(1,2)]
  note ctl = check_recovery_control [OF fin(1)] and ready = finished_is_ready [OF fin(1)]
  have state: "provisional c = []" "processing_turns c = []" "turn_to_tenant c = Map.empty" "tenant_to_turn c = Map.empty"
    "distinct (ring c)" "set (ring c) \<subseteq> ring_members c \<inter> active_users c \<inter> known_users c"
    "length (ring c) = card (ring_members c)" "length (ring c) = card (active_users c)"
    "\<forall>t\<in>set (ring c). \<exists>g. activation_gen c t = Some g \<and> positive_int64 g"
    using fin(2) by (auto simp: finish_state_def zcard_def list_ex_iff fq_uint_positive split: if_splits option.splits)
  have pass: "prog c ''high_water'' \<noteq> []"
    "prog c (pass_prefix p @ ''_complete'') = ''1'' \<and> prog c (pass_prefix p @ ''_diff'') = ''0''" for p
    using fin(3) by (cases p; simp add: finish_progress_def pass_prefix_def split: if_splits)+
  have kinds: "rf_kind f = RABBIT_REPAIR \<Longrightarrow> prog c ''repair_high_water'' \<noteq> [] \<and> prog c ''repair_complete'' = ''1''"
    "rf_kind f = FORCE_REBUILD \<Longrightarrow> prog c ''force_delete_complete'' = ''1''
       \<and> int (lua_number (prog c ''force_not_before_ms'')) \<le> now"
    using fin(3) by (simp_all add: finish_progress_def split: if_splits)
  have d: "progress d = []" "recovery_lock d = LockAbsent"
    "d = c\<lparr> control := control d, progress := [], recovery_lock := LockAbsent \<rparr>"
    "map_of (control d) ''last_completed_operation_id''
       = (if rf_kind f = NORMAL then map_of (control c) ''last_completed_operation_id'' else Some (rf_operation f))"
    using ctl(8) by (simp_all add: fin(4) finish_control_fields) (simp_all add: finish_commit_def)
  obtain k where k: "mutation_keys prefix resource f = Inr k" using fin(5) by (cases "mutation_keys prefix resource f") auto
  have again: "finish_recovery N Delivered later prefix resource f d = (Inr (), d)" for later
    using ready(2) [OF assms(3)]
      redis_call_delivered [OF k, of "\<lambda>_. lua_finish_recovery N f later" "\<lambda>_. expect_ok" d]
    by (simp add: finish_recovery_def lua_finish_recovery_def fin(4))
  show ?thesis
    using fin(1) state pass kinds ready(1) d again by (simp add: fin(4))
qed

subsection \<open>The control snapshot\<close>

lemma fq_uint_nonzero:
  assumes "fq_uint v b" and "v \<noteq> ''0''"
  shows "positive_int64 v"
proof -
  have "fq_uint v True" using assms by (simp only: fq_uint_def if_False simp_thms)
  then show ?thesis by (simp add: fq_uint_positive)
qed

lemma fq_uint_read:
  assumes "fq_uint v b"
  shows "parse_int64 v = Some (int (digits_value v))" "digits_value v < 2 ^ 63" "v \<noteq> []" "b \<Longrightarrow> 0 < digits_value v"
proof -
  have zero: "format_uint 0 = ''0''" "digits_value ''0'' = 0" by code_simp+
  have "v = ''0'' \<or> positive_int64 v"
    using fq_uint_nonzero [OF assms] by blast
  then have v: "v = format_uint (digits_value v)" "digits_value v \<le> max_int64"
    using positive_int64_value [of v] zero by auto
  from this(2) show lt: "digits_value v < 2 ^ 63" by (simp add: max_int64_def)
  show "parse_int64 v = Some (int (digits_value v))" using parse_int64_format [OF lt] v(1) by simp
  show "v \<noteq> []" using assms by (auto simp: fq_uint_def)
  show "b \<Longrightarrow> 0 < digits_value v" using assms fq_uint_positive [of v] positive_int64_value(2) [of v] by (cases b) auto
qed

definition pass_of :: "string \<Rightarrow> coord \<Rightarrow> pass_progress" where
  "pass_of p c = \<lparr> pp_cycle = word_of_nat (digits_value (prog c (p @ ''_cycle''))), pp_complete = (prog c (p @ ''_complete'') = ''1''),
     pp_diff = int (digits_value (prog c (p @ ''_diff''))) \<rparr>"

lemma read_pass_stored:
  assumes "reply = pre @ [cy, co, di] @ post" and "length pre = n" and "fq_uint cy False" "fq_bool co" "fq_uint di False"
  shows "read_pass reply n = Some \<lparr> pp_cycle = word_of_nat (digits_value cy), pp_complete = (co = ''1''), pp_diff = int (digits_value di) \<rparr>"
proof -
  have "n + 2 < length reply" using assms(1,2) by simp
  moreover have "reply ! n = cy" "reply ! (n + 1) = co" "reply ! (n + 2) = di"
    unfolding assms(1) by (simp_all add: nth_append assms(2))
  ultimately show ?thesis
    using fq_uint_read [OF assms(3)] fq_uint_read [OF assms(5)] assms(4)
    by (auto simp: read_pass_def reply_int64_def reply_bool_def reply_string_def fq_bool_def)
qed

text \<open>What the fence accepts is a valid progress for the Go validators.\<close>

definition stored_progress :: "recovery_fence \<Rightarrow> coord \<Rightarrow> recovery_progress" where
  "stored_progress f c = \<lparr> rp_kind = rf_kind f, rp_operation = rf_operation f, rp_high_water = prog c ''high_water'',
     rp_known = pass_of ''known'' c, rp_dispatched = pass_of ''dispatched'' c, rp_running = pass_of ''running'' c,
     rp_repair = (if rf_kind f = RABBIT_REPAIR then Some (prog c ''repair_high_water'', prog c ''repair_complete'' = ''1'') else None),
     rp_rebind = (if rf_kind f = WRITER_REBIND then Some (prog c ''rebind_original_writer'', prog c ''rebind_target_writer'') else None),
     rp_force = (if rf_kind f = FORCE_REBUILD
                 then Some (int (digits_value (prog c ''force_not_before_ms'')), prog c ''force_delete_complete'' = ''1'') else None) \<rparr>"

lemma optional_high_water_lua: "optional_high_water h = None \<longleftrightarrow> lua_fq_high_water h"
proof (cases "h = []")
  case True
  then show ?thesis by (simp add: optional_high_water_def lua_fq_high_water_def)
next
  case False
  with high_water_go_lua_agree [of h] show ?thesis by (simp add: optional_high_water_def)
qed

lemma word_of_nat_zero: "n < 2 ^ 63 \<Longrightarrow> (word_of_nat n :: 64 word) = 0 \<longleftrightarrow> n = 0"
proof -
  assume "n < 2 ^ 63"
  then have "unat (word_of_nat n :: 64 word) = n" by (simp add: unsigned_of_nat take_bit_nat_eq_self)
  then show ?thesis by (metis unsigned_0 unsigned_eq_0_iff)
qed

lemma stored_pass_valid:
  assumes "fq_uint (prog c (p @ ''_cycle'')) False"
    and "\<not> (prog c (p @ ''_complete'') = ''1'' \<and> prog c (p @ ''_cycle'') = ''0'')"
  shows "validate_pass_progress (pass_of p c) = None"
proof -
  have "digits_value (prog c (p @ ''_cycle'')) \<noteq> 0 \<or> prog c (p @ ''_cycle'') = ''0''"
    using positive_int64_value(2) [OF fq_uint_nonzero [OF assms(1)]] by auto
  moreover have "(word_of_nat (digits_value (prog c (p @ ''_cycle''))) :: 64 word) = 0 \<longleftrightarrow> digits_value (prog c (p @ ''_cycle'')) = 0"
    using fq_uint_read(2) [OF assms(1)] word_of_nat_zero by blast
  ultimately show ?thesis using assms(2) by (auto simp: validate_pass_progress_def pass_of_def)
qed

lemma locked_run: "raw_lock now own c = None \<Longrightarrow> locked now own body c = body c"
  by (simp add: locked_def)

lemma check_recovery_parts:
  assumes "check_recovery N now f c = None"
  shows "raw_lock now (rf_owner f) c = None" "recovery_fence_control N f c = None" "recovery_fence_progress f c = None"
  using assms by (simp_all add: check_recovery_def split: option.splits)

definition snapshot_head :: "recovery_fence \<Rightarrow> coord \<Rightarrow> string list" where
  "snapshot_head f c = [OK, ''1'', ''RECOVERING'', rf_epoch f, ''1'', rf_writer f, rf_kind f, rf_operation f,
     ctl c ''last_completed_operation_id'', ctl c ''last_completed_operation_kind'']"

lemma inspect_fenced:
  assumes "check_recovery N now f c = None"
  shows "lua_inspect_recovery N (rf_owner f) now c = (c, snapshot_head f c @ map (prog c) progress_fields)"
    "prog c ''epoch'' = rf_epoch f" "prog c ''operation_kind'' = rf_kind f" "prog c ''operation_id'' = rf_operation f"
proof -
  note parts = check_recovery_parts [OF assms]
  have ctl: "\<not> control_absent c" "control_readable c" "N (ctl c ''protocol_version'')" "ctl c ''protocol_version'' = ''1''"
    "lower_hex 32 (ctl c ''epoch'')" "lower_hex 64 (ctl c ''writer_fingerprint'')"
    "last_completed_ok (ctl c ''last_completed_operation_id'') (ctl c ''last_completed_operation_kind'')"
    "ctl c ''state'' = ''RECOVERING''" "ctl c ''epoch'' = rf_epoch f" "ctl c ''writer_fingerprint'' = rf_writer f"
    "ctl c ''operation_kind'' = rf_kind f" "ctl c ''operation_id'' = rf_operation f"
    "rf_kind f = NORMAL \<or> ctl c ''last_completed_operation_id'' \<noteq> rf_operation f"
    using parts(2) by (auto simp: recovery_fence_control_def split: if_splits)
  have pr: "progress_exists c" "progress_readable c" "prog c ''epoch'' = rf_epoch f" "prog c ''operation_kind'' = rf_kind f"
    "prog c ''operation_id'' = rf_operation f" "rf_kind f = NORMAL \<or> special_kind (rf_kind f)"
    using parts(3) by (auto simp: recovery_fence_progress_def split: if_splits)
  have "rf_kind f \<noteq> ''NONE''" using pr(6) by (auto simp: special_kind_def)
  with ctl pr show "lua_inspect_recovery N (rf_owner f) now c = (c, snapshot_head f c @ map (prog c) progress_fields)"
    by (simp add: lua_inspect_recovery_def locked_run [OF parts(1)] snapshot_head_def Let_def)
  show "prog c ''epoch'' = rf_epoch f" "prog c ''operation_kind'' = rf_kind f" "prog c ''operation_id'' = rf_operation f"
    using pr by simp_all
qed

lemma stored_progress_valid:
  assumes "check_recovery N now f c = None"
  shows "validate_progress (stored_progress f c) = None"
proof -
  note parts = check_recovery_parts [OF assms]
  have ok: "common_progress_ok (prog c)" "special_progress_ok (rf_kind f) (rf_operation f) (rf_writer f) (prog c)"
    "rf_kind f = NORMAL \<or> special_kind (rf_kind f)"
    using parts(3) by (auto simp: recovery_fence_progress_def split: if_splits)
  have pass: "validate_pass_progress (pass_of ''known'' c) = None" "validate_pass_progress (pass_of ''dispatched'' c) = None"
    "validate_pass_progress (pass_of ''running'' c) = None"
    using ok(1) by (intro stored_pass_valid; simp add: common_progress_ok_def)+
  have hw: "optional_high_water (prog c ''high_water'') = None"
    "\<not> (prog c ''high_water'' = [] \<and> (pp_complete (pass_of ''known'' c) \<or> pp_complete (pass_of ''dispatched'' c)
        \<or> pp_complete (pass_of ''running'' c)))"
    using ok(1) by (auto simp: common_progress_ok_def optional_high_water_lua pass_of_def)
  from ok(3) show ?thesis
  proof
    assume n: "rf_kind f = NORMAL"
    with ok(2) pass hw show ?thesis by (simp add: validate_progress_def stored_progress_def special_progress_ok_def)
  next
    assume "special_kind (rf_kind f)"
    then show ?thesis
    proof (cases rule: special_kind_cases)
      case 1
      with ok(2) pass hw show ?thesis
        by (auto simp: validate_progress_def stored_progress_def special_progress_ok_def special_kind_def validate_repair_progress_def
            optional_high_water_lua)
    next
      case 2
      with ok(2) pass hw show ?thesis
        by (auto simp: validate_progress_def stored_progress_def special_progress_ok_def special_kind_def validate_rebind_progress_def)
    next
      case 3
      with ok(2) pass hw show ?thesis
        using fq_uint_read(4) [of "prog c ''force_not_before_ms''" True]
        by (simp add: validate_progress_def stored_progress_def special_progress_ok_def special_kind_def validate_force_progress_def)
    qed
  qed
qed

lemma read_stored_passes:
  assumes "common_progress_ok (prog c)" and "reply = hs @ map (prog c) progress_fields" and "length hs = 10"
  shows "read_pass reply 14 = Some (pass_of ''known'' c)" "read_pass reply 17 = Some (pass_of ''dispatched'' c)"
    "read_pass reply 20 = Some (pass_of ''running'' c)"
proof -
  have u: "fq_uint (prog c ''known_cycle'') False" "fq_uint (prog c ''known_diff'') False" "fq_bool (prog c ''known_complete'')"
    "fq_uint (prog c ''dispatched_cycle'') False" "fq_uint (prog c ''dispatched_diff'') False" "fq_bool (prog c ''dispatched_complete'')"
    "fq_uint (prog c ''running_cycle'') False" "fq_uint (prog c ''running_diff'') False" "fq_bool (prog c ''running_complete'')"
    using assms(1) by (simp_all add: common_progress_ok_def)
  show "read_pass reply 14 = Some (pass_of ''known'' c)"
    using read_pass_stored [OF _ _ u(1,3,2), of reply "hs @ map (prog c) (take 4 progress_fields)" "map (prog c) (drop 7 progress_fields)" 14]
    by (simp add: assms(2,3) progress_fields_def pass_of_def)
  show "read_pass reply 17 = Some (pass_of ''dispatched'' c)"
    using read_pass_stored [OF _ _ u(4,6,5), of reply "hs @ map (prog c) (take 7 progress_fields)" "map (prog c) (drop 10 progress_fields)" 17]
    by (simp add: assms(2,3) progress_fields_def pass_of_def)
  show "read_pass reply 20 = Some (pass_of ''running'' c)"
    using read_pass_stored [OF _ _ u(7,9,8), of reply "hs @ map (prog c) (take 10 progress_fields)" "map (prog c) (drop 13 progress_fields)" 20]
    by (simp add: assms(2,3) progress_fields_def pass_of_def)
qed

lemma read_stored_special:
  assumes "common_progress_ok (prog c)" and "special_progress_ok (rf_kind f) (rf_operation f) (rf_writer f) (prog c)"
    and "reply = hs @ map (prog c) progress_fields" and "length hs = 10"
  shows "read_special (rf_kind f) reply = Some (rp_repair (stored_progress f c), rp_rebind (stored_progress f c), rp_force (stored_progress f c))"
proof -
  have at: "reply ! (10 + i) = prog c (progress_fields ! i)" if "i < 19" for i
  proof -
    have "length progress_fields = 19" by (simp add: progress_fields_def)
    then show ?thesis using that assms(4) by (simp add: assms(3) nth_append)
  qed
  have len: "length reply = 29" by (simp add: assms(3,4) progress_fields_def)
  have nth: "reply ! 23 = prog c ''repair_high_water''" "reply ! 24 = prog c ''repair_complete''"
    "reply ! 25 = prog c ''rebind_original_writer''" "reply ! 26 = prog c ''rebind_target_writer''"
    "reply ! 27 = prog c ''force_not_before_ms''" "reply ! 28 = prog c ''force_delete_complete''"
    using at [of 13] at [of 14] at [of 15] at [of 16] at [of 17] at [of 18] by (simp_all add: progress_fields_def)
  have b: "fq_bool (prog c ''repair_complete'')" "fq_bool (prog c ''force_delete_complete'')"
    using assms(1) by (simp_all add: common_progress_ok_def)
  have force: "rf_kind f = FORCE_REBUILD \<Longrightarrow> parse_int64 (prog c ''force_not_before_ms'') = Some (int (digits_value (prog c ''force_not_before_ms'')))"
    using assms(2) fq_uint_read(1) by (auto simp: special_progress_ok_def)
  show ?thesis
    using b force len nth
    by (auto simp: read_special_def stored_progress_def reply_string_def reply_bool_def reply_int64_def fq_bool_def)
qed

lemma inspected_snapshot:
  assumes "check_recovery N now f c = None" and "lock_keys prefix resource (rf_owner f) = Inr k"
  shows "\<exists>s. inspect_recovery_start N Delivered now prefix resource (rf_owner f) c = (Inr (Some s), c) \<and> validate_snapshot s = None
    \<and> s = \<lparr> cs_state = ''RECOVERING'', cs_epoch = rf_epoch f, cs_version = 1, cs_writer = rf_writer f, cs_kind = rf_kind f,
          cs_operation = rf_operation f, cs_last_id = ctl c ''last_completed_operation_id'',
          cs_last_kind = ctl c ''last_completed_operation_kind'', cs_progress = Some (stored_progress f c) \<rparr>"
proof -
  let ?s = "\<lparr> cs_state = ''RECOVERING'', cs_epoch = rf_epoch f, cs_version = 1, cs_writer = rf_writer f, cs_kind = rf_kind f,
     cs_operation = rf_operation f, cs_last_id = ctl c ''last_completed_operation_id'',
     cs_last_kind = ctl c ''last_completed_operation_kind'', cs_progress = Some (stored_progress f c) \<rparr>"
  define reply where "reply = snapshot_head f c @ map (prog c) progress_fields"
  note parts = check_recovery_parts [OF assms(1)] and run = inspect_fenced [OF assms(1)]
  have ctl: "lower_hex 32 (rf_epoch f)" "lower_hex 64 (rf_writer f)"
    "last_completed_ok (ctl c ''last_completed_operation_id'') (ctl c ''last_completed_operation_kind'')"
    using parts(2) by (auto simp: recovery_fence_control_def split: if_splits)
  have ok: "common_progress_ok (prog c)" "special_progress_ok (rf_kind f) (rf_operation f) (rf_writer f) (prog c)"
    "rf_kind f = NORMAL \<or> special_kind (rf_kind f)"
    using parts(3) by (auto simp: recovery_fence_progress_def split: if_splits)
  have kind: "rf_kind f \<noteq> ''NONE''" using ok(3) by (auto simp: special_kind_def)
  have valid: "validate_snapshot ?s = None"
    using ctl kind stored_progress_valid [OF assms(1)]
    by (auto simp: validate_snapshot_def last_completed_ok_def stored_progress_def)
  have len: "length (snapshot_head f c) = 10" "length reply = 29" by (simp_all add: reply_def snapshot_head_def progress_fields_def)
  have nth: "reply ! 0 = OK" "reply ! 1 = ''1''" "reply ! 2 = ''RECOVERING''" "reply ! 3 = rf_epoch f" "reply ! 4 = ''1''"
    "reply ! 5 = rf_writer f" "reply ! 6 = rf_kind f" "reply ! 7 = rf_operation f"
    "reply ! 8 = ctl c ''last_completed_operation_id''" "reply ! 9 = ctl c ''last_completed_operation_kind''"
    "reply ! 10 = rf_epoch f" "reply ! 11 = rf_kind f" "reply ! 12 = rf_operation f" "reply ! 13 = prog c ''high_water''"
    using run(2-4) by (simp_all add: reply_def snapshot_head_def progress_fields_def nth_append)
  note reads = read_stored_passes [OF ok(1) reply_def len(1)] read_stored_special [OF ok(1,2) reply_def len(1)]
  have one: "parse_int64 ''1'' = Some 1" by code_simp
  have head: "redis_runtime_result_error reply = None"
    by (simp add: reply_def snapshot_head_def redis_runtime_result_error_def)
  have "stored_progress f c = \<lparr> rp_kind = rf_kind f, rp_operation = rf_operation f, rp_high_water = prog c ''high_water'',
       rp_known = pass_of ''known'' c, rp_dispatched = pass_of ''dispatched'' c, rp_running = pass_of ''running'' c,
       rp_repair = rp_repair (stored_progress f c), rp_rebind = rp_rebind (stored_progress f c),
       rp_force = rp_force (stored_progress f c) \<rparr>"
    by (simp add: stored_progress_def)
  with valid len(2) nth reads one head have parse: "parse_recovery_snapshot reply = Inr (Some ?s)"
    by (simp add: parse_recovery_snapshot_def Let_def)
  have "inspect_recovery_start N Delivered now prefix resource (rf_owner f) c = (Inr (Some ?s), c)"
    using redis_call_delivered [OF assms(2), of "\<lambda>_. lua_inspect_recovery N (rf_owner f) now" "\<lambda>_. parse_recovery_snapshot" c]
      run(1) parse by (simp add: inspect_recovery_start_def reply_def)
  with valid show ?thesis by blast
qed

text \<open>What the fence of a recovery accepts, its inspection decodes. As long as a recovery's
  fence passes, inspecting the control with the same lock succeeds over a working connection, changes nothing
  and gives exactly the stored recovery: its kind, operation, epoch and writer, the last completed
  operation, and every stored counter, flag and time as the number, boolean or time it denotes; and
  the Go validators accept that snapshot.\<close>

theorem fence_implies_snapshot:
  assumes "check_recovery N now f c = None" and "lock_keys prefix resource (rf_owner f) = Inr k"
  shows "\<exists>s. inspect_recovery_start N Delivered now prefix resource (rf_owner f) c = (Inr (Some s), c) \<and> validate_snapshot s = None
    \<and> s = \<lparr> cs_state = ''RECOVERING'', cs_epoch = rf_epoch f, cs_version = 1, cs_writer = rf_writer f, cs_kind = rf_kind f,
          cs_operation = rf_operation f, cs_last_id = ctl c ''last_completed_operation_id'',
          cs_last_kind = ctl c ''last_completed_operation_kind'', cs_progress = Some (stored_progress f c) \<rparr>"
  using assms by (rule inspected_snapshot)

end
