(* ===== verification/Fq_Recovery_Redis.thy ===== *)
theory Fq_Recovery_Redis
  imports Fq_Recovery_Logic Fq_Recovery_Props
begin

text \<open>
  The recovery coordinator over the Redis client: its world is the coordination state with a rest. The rest decides
  about everything outside Redis: the clock and the network of each call, what other processes do to the
  coordination state before it, the random epochs, the replies of \<^verbatim>\<open>SCAN\<close>, MySQL, RabbitMQ, the journal, and timers.
\<close>

subsection \<open>The composed world\<close>

record 'x redis_side =
  rs_net :: "'x \<Rightarrow> transport"
  rs_now :: "'x \<Rightarrow> int"
  rs_meddle :: "'x \<Rightarrow> coord \<Rightarrow> coord"
  rs_token :: "'x \<Rightarrow> string option"
  rs_scan :: "'x \<Rightarrow> coord \<Rightarrow> 64 word \<Rightarrow> (string list \<times> 64 word) result"
  rs_next :: "'x \<Rightarrow> 'x"

definition redis_op :: "'x redis_side \<Rightarrow> ('x \<Rightarrow> 'a coord_op) \<Rightarrow> (coord \<times> 'x, 'a result) state" where
  "redis_op side op = State (\<lambda>(c, x). case op x (rs_meddle side x c) of (r, d) \<Rightarrow> (r, (d, rs_next side x)))"

definition on_rest :: "('x, 'a) state \<Rightarrow> (coord \<times> 'x, 'a) state" where
  "on_rest op = State (\<lambda>(c, x). case run_state op x of (r, y) \<Rightarrow> (r, (c, y)))"

definition return_lock :: "string \<Rightarrow> unit coord_op \<Rightarrow> string coord_op" where
  "return_lock own op c = (case op c of (r, d) \<Rightarrow> (map_sum id (\<lambda>_. own) r, d))"

definition redis_coord ::
  "(string \<Rightarrow> bool) \<Rightarrow> (string \<Rightarrow> string) \<Rightarrow> string \<Rightarrow> 'x redis_side \<Rightarrow> (coord \<times> 'x) rec_coord" where
  "redis_coord N H prefix side = \<lparr>
     co_observe = \<lambda>r w. redis_op side (\<lambda>x. observe_ready_fence (rs_net side x) prefix r w),
     co_check_ready = \<lambda>r f. redis_op side (\<lambda>x. check_ready_fence (rs_net side x) prefix r f),
     co_ensure_known = \<lambda>r f t. redis_op side (\<lambda>x. ensure_known_tenant (rs_net side x) prefix r f t),
     co_ensure_active = \<lambda>r f t. redis_op side (\<lambda>x. ensure_runtime_active (rs_net side x) prefix r f t),
     co_release = \<lambda>r f t k. redis_op side (\<lambda>x. release H (rs_net side x) prefix r f t k),
     co_list_ready = \<lambda>r f a n. redis_op side (\<lambda>x. list_ready_stable H (rs_net side x) prefix r f a n),
     co_ensure_stable = \<lambda>r f t k d. redis_op side (\<lambda>x. write_ready_stable H (rs_net side x) (rs_now side x) prefix r f t k d True),
     co_reap_ready = \<lambda>r f n. redis_op side (\<lambda>x. reap_expired H (rs_net side x) (rs_now side x) prefix r f n),
     co_acquire = \<lambda>r own d. redis_op side (\<lambda>x. return_lock own (acquire_recovery_lock (rs_net side x) (rs_now side x) prefix r own d)),
     co_check_lock = \<lambda>r own. redis_op side (\<lambda>x. check_recovery_lock (rs_net side x) (rs_now side x) prefix r own),
     co_renew_lock = \<lambda>r own d. redis_op side (\<lambda>x. renew_recovery_lock (rs_net side x) (rs_now side x) prefix r own d),
     co_release_lock = \<lambda>r own. redis_op side (\<lambda>x. release_recovery_lock (rs_net side x) (rs_now side x) prefix r own),
     co_inspect = \<lambda>r own. redis_op side (\<lambda>x. inspect_recovery_start N (rs_net side x) (rs_now side x) prefix r own),
     co_begin = \<lambda>r w own d. redis_op side (\<lambda>x. begin_recovery_with_lock (rs_net side x) (rs_now side x) prefix r w [] NORMAL [] 0 own d
        (rs_token side x)),
     co_renew = \<lambda>r f d. redis_op side (\<lambda>x. renew_recovery N (rs_net side x) (rs_now side x) prefix r f d),
     co_reap = \<lambda>r f n. redis_op side (\<lambda>x. recovery_reap_expired N H (rs_net side x) (rs_now side x) prefix r f n),
     co_set_high_water = \<lambda>r f h. redis_op side (\<lambda>x. set_recovery_high_water N (rs_net side x) (rs_now side x) prefix r f h),
     co_reset = \<lambda>r f. redis_op side (\<lambda>x. reset_resource N (rs_net side x) (rs_now side x) prefix r f),
     co_list_owned = \<lambda>r f a n. redis_op side (\<lambda>x. list_owned_resource_keys N (rs_net side x) (rs_now side x) (rs_scan side x) prefix r f a n),
     co_delete_owned = \<lambda>r f ks. redis_op side (\<lambda>x. delete_owned_resource_keys N (rs_net side x) (rs_now side x) prefix r f ks),
     co_restore_known = \<lambda>r f t. redis_op side (\<lambda>x. restore_known_tenant N (rs_net side x) (rs_now side x) prefix r f t),
     co_restore_active = \<lambda>r f t. redis_op side (\<lambda>x. restore_active_tenant N (rs_net side x) (rs_now side x) prefix r f t),
     co_restore_inflight = \<lambda>r f t k d. redis_op side (\<lambda>x. restore_inflight N H (rs_net side x) (rs_now side x) prefix r f t k d),
     co_list_stable = \<lambda>r f a n. redis_op side (\<lambda>x. list_recovery_stable_inflight N H (rs_net side x) (rs_now side x) prefix r f a n),
     co_delete_stable = \<lambda>r f ref. redis_op side (\<lambda>x. delete_recovery_stable_inflight N H (rs_net side x) (rs_now side x) prefix r f ref),
     co_mark_pass = \<lambda>r f p n b d. redis_op side (\<lambda>x. mark_recovery_pass N (rs_net side x) (rs_now side x) prefix r f p n b d),
     co_finish = \<lambda>r f. redis_op side (\<lambda>x. finish_recovery N (rs_net side x) (rs_now side x) prefix r f) \<rparr>"

text \<open>Everything else acts on the rest; the coordinator of \<open>base\<close> is not used.\<close>

definition redis_env ::
  "(string \<Rightarrow> bool) \<Rightarrow> (string \<Rightarrow> string) \<Rightarrow> string \<Rightarrow> 'x redis_side \<Rightarrow> 'x rec_env \<Rightarrow> (coord \<times> 'x) rec_env" where
  "redis_env N H prefix side base =
     (let rb = en_rabbit base; so = en_source base; jo = en_journal base in \<lparr>
        en_options = en_options base,
        en_runtime = map_option (\<lambda>rt. \<lparr> rt_close = \<lambda>r. on_rest (rt_close rt r), rt_drain = \<lambda>r. on_rest (rt_drain rt r),
          rt_open = \<lambda>r f. on_rest (rt_open rt r f) \<rparr>) (en_runtime base),
        en_rabbit = \<lparr> rb_prober = rb_prober rb, rb_probe = \<lambda>r. on_rest (rb_probe rb r), rb_topology = \<lambda>r t. on_rest (rb_topology rb r t),
          rb_depth = \<lambda>r t. on_rest (rb_depth rb r t) \<rparr>,
        en_source = \<lparr> so_high_water = on_rest (so_high_water so), so_known = \<lambda>h a n. on_rest (so_known so h a n),
          so_dispatched = \<lambda>h a n. on_rest (so_dispatched so h a n), so_running = \<lambda>h a n. on_rest (so_running so h a n) \<rparr>,
        en_journal = \<lparr> jo_read = \<lambda>r w. on_rest (jo_read jo r w), jo_enter = \<lambda>r w. on_rest (jo_enter jo r w), jo_session = on_rest (jo_session jo),
          jo_exit = \<lambda>e. on_rest (jo_exit jo e), jo_complete = \<lambda>rec. on_rest (jo_complete jo rec) \<rparr>,
        en_coord = redis_coord N H prefix side,
        en_token = on_rest (en_token base),
        en_wait = \<lambda>d. on_rest (en_wait base d),
        en_elapsed = on_rest (en_elapsed base),
        en_context = on_rest (en_context base),
        en_renewals = on_rest (en_renewals base),
        en_order = \<lambda>n. on_rest (en_order base n) \<rparr>)"

lemmas redis_env_simps = redis_env_def Let_def

subsection \<open>Invariants\<close>

text \<open>An invariant of the coordination state in runs that open no gate: \<open>before\<close> is the log the run starts with.\<close>

definition opens :: "rec_call \<Rightarrow> bool" where
  "opens cl \<longleftrightarrow> (\<exists>r f. cl = ROpen r f)"

definition closed_since :: "rec_event list \<Rightarrow> rec_event list \<Rightarrow> bool" where
  "closed_since before l \<longleftrightarrow> (\<exists>es. l = before @ es \<and> (\<forall>e\<in>set es. \<not> opens (fst e)))"

lemma closed_since_snoc: "closed_since before l \<Longrightarrow> \<not> opens cl \<Longrightarrow> closed_since before (l @ [(cl, e)])"
  unfolding closed_since_def by (metis append.assoc fst_conv rotate1.simps(2) set_ConsD set_rotate1)

definition on_coord :: "(coord \<Rightarrow> bool) \<Rightarrow> rec_event list \<Rightarrow> (coord \<times> 'x) \<times> rec_event list \<Rightarrow> bool" where
  "on_coord I before s \<longleftrightarrow> I (fst (fst s)) \<and> closed_since before (snd s)"

lemma on_coord_simp [simp]: "on_coord I before ((c, x), l) \<longleftrightarrow> I c \<and> closed_since before l"
  by (simp add: on_coord_def)

lemma triple_redis:
  "\<not> opens cl \<Longrightarrow> (\<And>c x. I c \<Longrightarrow> J (rs_meddle side x c)) \<Longrightarrow> (\<And>c x ss d. J c \<Longrightarrow> op x c = (Inl ss, d) \<Longrightarrow> E (Some ss) d) \<Longrightarrow>
   (\<And>c x y d. J c \<Longrightarrow> op x c = (Inr y, d) \<Longrightarrow> Q y d) \<Longrightarrow>
   triple (\<lambda>e. on_coord (E e) before) (on_coord I before) (invoke (redis_op side op) cl) (\<lambda>y. on_coord (Q y) before)"
  by (rule triple_invoke) (fastforce simp: redis_op_def closed_since_snoc split: prod.splits)+

lemma keeps_redis:
  "\<not> opens cl \<Longrightarrow> (\<And>c x. I c \<Longrightarrow> I (rs_meddle side x c)) \<Longrightarrow> (\<And>c x. I c \<Longrightarrow> I (snd (op x c)))
   \<Longrightarrow> keeps (on_coord I before) (invoke (redis_op side op) cl)"
  unfolding keeps_def by (rule triple_redis [where J = I]) (force dest: arg_cong [where f = snd])+

lemma keeps_rest [keeping]:
  "\<not> opens cl \<Longrightarrow> keeps (on_coord I before) (invoke (on_rest op) cl)" "keeps (on_coord I before) (sense (on_rest op2))"
  "\<not> opens cl \<Longrightarrow> keeps (on_coord I before) (tell cl)"
  unfolding keeps_def
  by (auto intro!: triple_invoke triple_sense triple_tell simp: on_rest_def closed_since_snoc split: prod.splits)

subsection \<open>Control and progress\<close>

definition settings :: "coord \<Rightarrow> (string \<times> string) list \<times> (string \<times> string) list" where
  "settings c = (control c, progress c)"

lemma settings_updates [simp]:
  "settings (recovery_lock_update g0 c) = settings c"
  "settings (wrong_type_update g1 c) = settings c"
  "settings (ring_update g2 c) = settings c"
  "settings (ring_members_update g3 c) = settings c"
  "settings (active_users_update g4 c) = settings c"
  "settings (known_users_update g5 c) = settings c"
  "settings (activation_gen_update g6 c) = settings c"
  "settings (processing_turns_update g7 c) = settings c"
  "settings (turn_to_tenant_update g8 c) = settings c"
  "settings (turn_to_generation_update g9 c) = settings c"
  "settings (tenant_to_turn_update g10 c) = settings c"
  "settings (global_inflight_update g11 c) = settings c"
  "settings (provisional_update g12 c) = settings c"
  "settings (stable_index_update g13 c) = settings c"
  "settings (tenant_inflight_update g14 c) = settings c"
  "settings (reservation_meta_update g15 c) = settings c"
  by (simp_all add: settings_def)

lemma settings_deleted:
  "settings (fold (del_named k) names c) = settings c" "settings (fold del_key rebuilt_keys c) = settings c"
  using del_named_frame [of k names c] del_keys_control [of rebuilt_keys c] by (auto simp: settings_def rebuilt_keys_def)

lemma settings_call: "(\<And>k. args = Inr k \<Longrightarrow> settings (fst (s k c)) = settings c) \<Longrightarrow> settings (snd (redis_call net args s parse c)) = settings c"
  using redis_call_state [of net args s parse c] by auto

lemma settings_fenced: "settings (fst (body c)) = settings c \<Longrightarrow> settings (fst (recovery_fenced N now f body c)) = settings c"
  by (simp add: recovery_fenced_def split: option.split)

lemma settings_locked: "settings (fst (body c)) = settings c \<Longrightarrow> settings (fst (locked now own body c)) = settings c"
  by (simp add: locked_def split: option.split)

lemma settings_writes:
  "settings (expire_lock t c) = settings c" "settings (set_lock own t c) = settings c" "settings (drop_reservation kind key tok c) = settings c"
  "settings (add_stable t tok tenant key c) = settings c" "settings (recovery_reap_turn tok tenant c) = settings c"
  by (auto simp: expire_lock_def set_lock_def drop_reservation_def add_stable_def recovery_reap_turn_def Let_def)

lemma settings_fold: "(\<And>x c. settings (g x c) = settings c) \<Longrightarrow> settings (fold g xs c) = settings c"
  by (induction xs arbitrary: c) simp_all

lemma settings_recovery_ops:
  "settings (snd (acquire_recovery_lock net now prefix r own d c)) = settings c"
  "settings (snd (check_recovery_lock net now prefix r own c)) = settings c"
  "settings (snd (renew_recovery_lock net now prefix r own d c)) = settings c"
  "settings (snd (release_recovery_lock net now prefix r own c)) = settings c"
  "settings (snd (inspect_recovery_start N net now prefix r own c)) = settings c"
  "settings (snd (renew_recovery N net now prefix r f d c)) = settings c"
  unfolding acquire_recovery_lock_def check_recovery_lock_def renew_recovery_lock_def release_recovery_lock_def
    inspect_recovery_start_def renew_recovery_def lua_acquire_lock_def lua_check_lock_def lua_renew_lock_def lua_release_lock_def
    lua_inspect_recovery_def lua_renew_recovery_def
  by (rule settings_call; (rule settings_locked settings_fenced)?; simp add: settings_writes split: lock_value.split)+

lemma settings_reap: "settings (snd (recovery_reap_expired N H net now prefix r f n c)) = settings c"
  unfolding recovery_reap_expired_def lua_recovery_reap_def
  by (intro settings_call settings_fenced) (auto simp: Let_def settings_writes split: option.split intro!: settings_fold [THEN trans])

lemma settings_resets:
  "settings (snd (reset_resource N net now prefix r f c)) = settings c"
  "settings (snd (delete_owned_resource_keys N net now prefix r f ks c)) = settings c"
  "settings (snd (list_owned_resource_keys N net now scan prefix r f a n c)) = settings c"
proof -
  show "settings (snd (reset_resource N net now prefix r f c)) = settings c"
    unfolding reset_resource_def lua_reset_resource_def by (intro settings_call settings_fenced) (simp add: settings_deleted)
  show "settings (snd (delete_owned_resource_keys N net now prefix r f ks c)) = settings c"
    unfolding delete_owned_resource_keys_def lua_delete_owned_def
    by (intro settings_call) (auto split: prod.split intro!: settings_fenced simp: settings_deleted)
  show "settings (snd (list_owned_resource_keys N net now scan prefix r f a n c)) = settings c"
    unfolding list_owned_resource_keys_def lua_check_recovery_def by (intro settings_call settings_fenced) simp
qed

lemma settings_restores:
  "settings (snd (restore_known_tenant N net now prefix r f t c)) = settings c"
  "settings (snd (restore_active_tenant N net now prefix r f t c)) = settings c"
  "settings (snd (restore_inflight N H net now prefix r f t k d c)) = settings c"
  "settings (snd (list_recovery_stable_inflight N H net now prefix r f a n c)) = settings c"
  "settings (snd (delete_recovery_stable_inflight N H net now prefix r f ref c)) = settings c"
proof -
  show "settings (snd (restore_known_tenant N net now prefix r f t c)) = settings c"
    unfolding restore_known_tenant_def lua_restore_known_def by (intro settings_call settings_fenced) simp
  show "settings (snd (restore_active_tenant N net now prefix r f t c)) = settings c"
    unfolding restore_active_tenant_def lua_restore_active_def Let_def by (intro settings_call settings_fenced) simp
  show "settings (snd (restore_inflight N H net now prefix r f t k d c)) = settings c"
    unfolding restore_inflight_def lua_restore_inflight_def Let_def
    by (intro settings_call) (auto split: prod.split option.split intro!: settings_fenced simp: settings_writes)
  show "settings (snd (list_recovery_stable_inflight N H net now prefix r f a n c)) = settings c"
    unfolding list_recovery_stable_inflight_def lua_list_recovery_stable_def Let_def by (intro settings_call settings_fenced) simp
  show "settings (snd (delete_recovery_stable_inflight N H net now prefix r f ref c)) = settings c"
    unfolding delete_recovery_stable_inflight_def lua_delete_recovery_stable_def Let_def
    by (intro settings_call) (auto split: prod.split option.split intro!: settings_fenced simp: settings_writes)
qed

end
