(* ===== verification/Fq_Recovery_Retry.thy ===== *)
theory Fq_Recovery_Retry
  imports Fq_Recovery_Redis
begin

text \<open>
  The progress of a recovery through the rebuild: what a successful rebuild leaves for the finish, and what a second
  rebuild makes of it.
\<close>

subsection \<open>Programs that do not mark\<close>

text \<open>What a recovery reads of a resource are its control and its progress. \<open>undisturbed P side\<close>: whatever other processes
  do to the coordination state, they keep \<open>P\<close> of the two.\<close>

type_synonym settings = "(string \<times> string) list \<times> (string \<times> string) list"

definition undisturbed :: "(settings \<Rightarrow> bool) \<Rightarrow> 'x redis_side \<Rightarrow> bool" where
  "undisturbed P side \<longleftrightarrow> (\<forall>x c. P (settings c) \<longrightarrow> P (settings (rs_meddle side x c)))"

definition run_inv :: "(settings \<Rightarrow> bool) \<Rightarrow> rec_event list \<Rightarrow> (coord \<times> 'x) \<times> rec_event list \<Rightarrow> bool" where
  "run_inv P = on_coord (\<lambda>c. P (settings c))"

lemma run_inv_simp [simp]: "run_inv P before ((c, x), l) \<longleftrightarrow> P (settings c) \<and> closed_since before l"
  by (simp add: run_inv_def)

lemma keeps_settings:
  "undisturbed P side \<Longrightarrow> \<not> opens cl \<Longrightarrow> (\<And>x c. settings (snd (op x c)) = settings c) \<Longrightarrow> keeps (run_inv P before) (invoke (redis_op side op) cl)"
  unfolding run_inv_def by (rule keeps_redis) (simp_all add: undisturbed_def)

lemma keeps_inv_rest [keeping]:
  "\<not> opens cl \<Longrightarrow> keeps (run_inv P before) (invoke (on_rest op) cl)" "keeps (run_inv P before) (sense (on_rest op2))"
  "\<not> opens cl \<Longrightarrow> keeps (run_inv P before) (tell cl)"
  unfolding run_inv_def by (rule keeping; simp)+

lemma opens_simps [simp]:
  "opens (ROpen r f)" "\<not> opens (RClose r)" "\<not> opens (RDrain r)" "\<not> opens (RWait d)" "\<not> opens RToken" "\<not> opens (RProbe r)"
  "\<not> opens (RTopology r t)" "\<not> opens (RDepth r t)" "\<not> opens RCapture" "\<not> opens (RKnown h a n)" "\<not> opens (RDispatched h a n)"
  "\<not> opens (RRunning h a n)" "\<not> opens (RRead r w)" "\<not> opens (REnter r w)" "\<not> opens RSession" "\<not> opens (RExit e)"
  "\<not> opens (RComplete p)" "\<not> opens (RObserve r w)" "\<not> opens (RAcquire r w d)" "\<not> opens (RCheckLock r w)"
  "\<not> opens (RRenewLock r w d)" "\<not> opens (RReleaseLock r w)" "\<not> opens (RInspect r w)" "\<not> opens (RBegin r w k d)"
  "\<not> opens (RRenew r g d)" "\<not> opens (RReap r g n)" "\<not> opens (RSetHighWater r g h)" "\<not> opens (RReset r g)"
  "\<not> opens (RListOwned r g a n)" "\<not> opens (RDeleteOwned r g ks)" "\<not> opens (RRestoreKnown r g t)" "\<not> opens (RRestoreActive r g t)"
  "\<not> opens (RRestoreInflight r g t k d)" "\<not> opens (RListStable r g a n)" "\<not> opens (RDeleteStable r g ref)"
  "\<not> opens (RMarkPass r g q y b d)" "\<not> opens (RFinish r g)" "\<not> opens RRenewals" "\<not> opens (RHealth m)" "\<not> opens (RTelemetry sg o1 d)"
  by (simp_all add: opens_def)

text \<open>Calls of everything but Redis, then the calls of Redis that leave control and progress alone\<close>

lemma env_rest:
  fixes N H prefix side base
  defines "env \<equiv> redis_env N H prefix side base"
  shows "\<exists>op. en_wait env d = on_rest op" "\<exists>op. en_elapsed env = on_rest op" "\<exists>op. en_order env m = on_rest op"
    "\<exists>op. en_renewals env = on_rest op" "\<exists>op. en_token env = on_rest op" "\<exists>op. en_context env = on_rest op"
    "\<exists>op. rb_topology (en_rabbit env) r t = on_rest op" "\<exists>op. rb_depth (en_rabbit env) r t = on_rest op"
    "\<exists>op. rb_probe (en_rabbit env) r = on_rest op"
    "\<exists>op. so_high_water (en_source env) = on_rest op" "\<exists>op. so_known (en_source env) h a n = on_rest op"
    "\<exists>op. so_dispatched (en_source env) h a n = on_rest op" "\<exists>op. so_running (en_source env) h a n = on_rest op"
    "\<exists>op. jo_read (en_journal env) r w = on_rest op" "\<exists>op. jo_enter (en_journal env) r w = on_rest op"
    "\<exists>op. jo_session (en_journal env) = on_rest op" "\<exists>op. jo_exit (en_journal env) e = on_rest op"
    "\<exists>op. jo_complete (en_journal env) p = on_rest op"
    "en_runtime env = Some rt \<Longrightarrow> \<exists>op. rt_close rt r = on_rest op" "en_runtime env = Some rt \<Longrightarrow> \<exists>op. rt_drain rt r = on_rest op"
    "en_options env = en_options base" "en_coord env = redis_coord N H prefix side"
  by (auto simp: env_def redis_env_simps)

lemma keeps_on_rest:
  "\<exists>op. m = on_rest op \<Longrightarrow> \<not> opens cl \<Longrightarrow> keeps (run_inv P before) (invoke m cl)"
  "\<exists>op. m' = on_rest op \<Longrightarrow> keeps (run_inv P before) (sense m')"
  by (auto intro: keeping)

lemma env_rest_keeps:
  fixes N H prefix side base before P
  defines "env \<equiv> redis_env N H prefix side base" and "J \<equiv> run_inv P before"
  shows "keeps J (invoke (en_wait env d) (RWait d))" "keeps J (sense (en_elapsed env))" "keeps J (sense (en_order env m))"
    "keeps J (invoke (en_renewals env) RRenewals)" "keeps J (invoke (en_token env) RToken)" "keeps J (sense (en_context env))"
    "keeps J (invoke (rb_topology (en_rabbit env) r t) (RTopology r t))" "keeps J (invoke (rb_depth (en_rabbit env) r t) (RDepth r t))"
    "keeps J (invoke (rb_probe (en_rabbit env) r) (RProbe r))"
    "keeps J (invoke (so_high_water (en_source env)) RCapture)" "keeps J (invoke (so_known (en_source env) h a n) (RKnown h a n))"
    "keeps J (invoke (so_dispatched (en_source env) h a n) (RDispatched h a n))"
    "keeps J (invoke (so_running (en_source env) h a n) (RRunning h a n))"
    "keeps J (invoke (jo_read (en_journal env) r w) (RRead r w))" "keeps J (invoke (jo_enter (en_journal env) r w) (REnter r w))"
    "keeps J (invoke (jo_session (en_journal env)) RSession)" "keeps J (invoke (jo_exit (en_journal env) e) (RExit e))"
    "keeps J (invoke (jo_complete (en_journal env) p) (RComplete p))"
    "en_runtime env = Some rt \<Longrightarrow> keeps J (invoke (rt_close rt r) (RClose r))"
    "en_runtime env = Some rt \<Longrightarrow> keeps J (invoke (rt_drain rt r) (RDrain r))"
  unfolding env_def J_def by (rule keeps_on_rest env_rest keeps_inv_rest; (rule env_rest; assumption)?; simp)+

lemma settings_return_lock: "settings (snd (return_lock own op c)) = settings (snd (op c))"
  by (simp add: return_lock_def split: prod.split)

lemma env_coord_keeps:
  fixes N H prefix side base before assumes "undisturbed P side"
  defines "env \<equiv> redis_env N H prefix side base"
  shows "keeps (run_inv P before) (coord_renew env r f)"
    "keeps (run_inv P before) (invoke (co_inspect (en_coord env) r own) (RInspect r own))"
    "keeps (run_inv P before) (invoke (co_reap (en_coord env) r f n) (RReap r f n))"
    "keeps (run_inv P before) (invoke (co_reset (en_coord env) r f) (RReset r f))"
    "keeps (run_inv P before) (invoke (co_list_owned (en_coord env) r f a n) (RListOwned r f a n))"
    "keeps (run_inv P before) (invoke (co_delete_owned (en_coord env) r f ks) (RDeleteOwned r f ks))"
    "keeps (run_inv P before) (invoke (co_restore_known (en_coord env) r f t) (RRestoreKnown r f t))"
    "keeps (run_inv P before) (invoke (co_restore_active (en_coord env) r f t) (RRestoreActive r f t))"
    "keeps (run_inv P before) (invoke (co_restore_inflight (en_coord env) r f t k d) (RRestoreInflight r f t k d))"
    "keeps (run_inv P before) (invoke (co_list_stable (en_coord env) r f a n) (RListStable r f a n))"
    "keeps (run_inv P before) (invoke (co_delete_stable (en_coord env) r f ref) (RDeleteStable r f ref))"
    "keeps (run_inv P before) (invoke (co_acquire (en_coord env) r own d) (RAcquire r own d))"
    "keeps (run_inv P before) (invoke (co_check_lock (en_coord env) r own) (RCheckLock r own))"
    "keeps (run_inv P before) (invoke (co_renew_lock (en_coord env) r own d) (RRenewLock r own d))"
    "keeps (run_inv P before) (invoke (co_release_lock (en_coord env) r own) (RReleaseLock r own))"
  unfolding env_def coord_renew_def env_rest(21,22) redis_coord_def rec_coord.simps
  by (rule keeps_settings [OF assms(1)];
      simp add: settings_recovery_ops settings_reap settings_resets settings_restores settings_return_lock)+

lemma keeps_parts [keeping]:
  "keeps I (coord_renew env r f) \<Longrightarrow> keeps I m \<Longrightarrow> keeps I (recovery_mutation env r f m)"
  "keeps I (coord_renew env r f) \<Longrightarrow> keeps I m \<Longrightarrow> keeps I (recovery_rabbit_call env r f m)"
  "keeps I (tell (RHealth PageComplete)) \<Longrightarrow> keeps I (tell (RTelemetry SigPage ''ok'' k)) \<Longrightarrow> keeps I (record_page env k)"
  "keeps I (sense (en_order env (length xs))) \<Longrightarrow> keeps I (range_map env xs)"
  by (simp_all add: recovery_mutation_def recovery_rabbit_call_def record_page_def range_map_def keeping)

lemma keeps_source_page [keeping]:
  "keeps I (coord_renew env (rc_key cf) f) \<Longrightarrow> keeps I fetch \<Longrightarrow> keeps I (source_page env cf f v ok after fetch)"
  by (simp add: source_page_def keeping)

text \<open>All passes but their marks\<close>

lemma passes_keep:
  fixes N H prefix side base before assumes "undisturbed P side"
  defines "env \<equiv> redis_env N H prefix side base"
  shows "keeps (run_inv P before) (drain_attempts env cf)"
    "keeps (run_inv P before) (reap_once env cf f)"
    "keeps (run_inv P before) (drain_recovery_leases n env cf f)"
    "keeps (run_inv P before) (delete_owned_pages n env cf f after)"
    "keeps (run_inv P before) (restore_known_pages n env cf f hw after)"
    "keeps (run_inv P before) (restore_running_pages H n env cf f hw after held)"
    "keeps (run_inv P before) (restore_dispatched_pages n env cf f hw after)"
    "keeps (run_inv P before) (reconcile_recovery_stable H n env cf f hw)"
proof -
  note calls = env_coord_keeps [OF assms(1), where N = N and H = H and prefix = prefix and base = base and before = before, folded env_def]
  note rest = env_rest_keeps [where N = N and H = H and prefix = prefix and side = side and base = base and P = P and before = before,
    folded env_def]
  show "keeps (run_inv P before) (drain_attempts env cf)"
    unfolding drain_attempts_def Let_def by (cases "en_runtime env") (auto intro!: keeping rest)
  show reap: "keeps (run_inv P before) (reap_once env cf f)"
    unfolding reap_once_def by (intro keeping calls; simp)
  show "keeps (run_inv P before) (drain_recovery_leases n env cf f)"
    by (induction n) (auto intro!: keeping calls rest reap)
  show "keeps (run_inv P before) (delete_owned_pages n env cf f after)"
    by (induction n arbitrary: after) (auto intro!: keeping calls rest)
  show "keeps (run_inv P before) (restore_known_pages n env cf f hw after)"
    by (induction n arbitrary: after) (auto simp: list_known_recovery_page_def intro!: keeping calls rest)
  have leases: "keeps (run_inv P before) (restore_leases H env cf f held rs)" for held rs
    by (induction rs arbitrary: held) (auto intro!: keeping calls)
  show "keeps (run_inv P before) (restore_running_pages H n env cf f hw after held)"
    by (induction n arbitrary: after held) (auto simp: list_running_recovery_page_def intro!: keeping calls rest leases)
  show "keeps (run_inv P before) (restore_dispatched_pages n env cf f hw after)"
    by (induction n arbitrary: after) (auto simp: list_dispatched_recovery_page_def intro!: keeping calls rest)
  have canon: "keeps (run_inv P before) (load_canonical_pages H n env cf f hw after m)" for after m
    by (induction n arbitrary: after m) (auto simp: list_running_recovery_page_def intro!: keeping calls rest)
  have stored: "keeps (run_inv P before) (load_stored_pages n env cf f after m)" for after m
    by (induction n arbitrary: after m) (auto intro!: keeping calls rest)
  show "keeps (run_inv P before) (reconcile_recovery_stable H n env cf f hw)"
    unfolding reconcile_recovery_stable_def Let_def by (intro keeping calls rest canon stored; simp)
qed

subsection \<open>Marks\<close>

lemma double_ulp_dvd: "0 < double_ulp n \<and> (2 ^ 53 \<le> n \<longrightarrow> double_ulp n \<le> n div 2)"
proof (induction n rule: double_ulp.induct)
  case (1 n)
  show ?case
  proof (cases "n < 2 ^ 53")
    case True
    then show ?thesis by (simp add: double_ulp.simps [of n])
  next
    case False
    with 1 have ih: "0 < double_ulp (n div 2)" "2 ^ 53 \<le> n div 2 \<longrightarrow> double_ulp (n div 2) \<le> n div 2 div 2" by blast+
    have u: "double_ulp n = 2 * double_ulp (n div 2)" using False by (simp add: double_ulp.simps [of n])
    show ?thesis
    proof (cases "2 ^ 53 \<le> n div 2")
      case True
      then show ?thesis using ih u by linarith
    next
      case small: False
      then have "double_ulp (n div 2) = 1" by (simp add: double_ulp.simps [of "n div 2"])
      with u False show ?thesis by simp
    qed
  qed
qed

lemma lua_double_small: "n < 2 ^ 53 \<Longrightarrow> lua_double n = n"
  by (simp add: lua_double_def double_ulp.simps [of n] Let_def)

lemma lua_double_at_least_two: "2 \<le> n \<Longrightarrow> 2 \<le> lua_double n"
proof (cases "n < 2 ^ 53")
  case False
  define u where "u = double_ulp n"
  have u: "0 < u" "2 * u \<le> n" using double_ulp_dvd [of n] False by (auto simp: u_def)
  then have "2 \<le> n div u" by (simp add: less_eq_div_iff_mult_less_eq)
  then have "2 * 1 \<le> (n div u) * u" using u by (intro mult_le_mono) simp_all
  then show ?thesis by (simp add: lua_double_def Let_def u_def [symmetric] add_mult_distrib)
qed (simp add: lua_double_small)

lemma lua_double_zero: "lua_double n = 0 \<Longrightarrow> n = 0"
  using lua_double_at_least_two [of n] lua_double_small [of n] by (cases "n < 2") auto

text \<open>What the marks of a pass and a captured high water look like in the progress\<close>

definition field :: "(string \<times> string) list \<Rightarrow> string \<Rightarrow> string" where
  "field p k = the (map_of p k)"

lemma field_progress: "field (progress c) k = prog c k"
  by (simp add: field_def prog_def)

definition pass_clean :: "recovery_pass \<Rightarrow> nat \<Rightarrow> (string \<times> string) list \<Rightarrow> bool" where
  "pass_clean q n p \<longleftrightarrow> field p ''high_water'' \<noteq> [] \<and> field p (pass_prefix q @ ''_complete'') = ''1''
     \<and> field p (pass_prefix q @ ''_diff'') = ''0'' \<and> n \<le> lua_number (field p (pass_prefix q @ ''_cycle''))"

lemma pass_fields_distinct:
  "q \<noteq> q' \<Longrightarrow> pass_prefix q @ s \<noteq> pass_prefix q' @ t" "pass_prefix q @ s \<noteq> ''high_water''"
  "pass_prefix q @ ''_cycle'' \<noteq> pass_prefix q @ ''_complete''" "pass_prefix q @ ''_cycle'' \<noteq> pass_prefix q @ ''_diff''"
  "pass_prefix q @ ''_complete'' \<noteq> pass_prefix q @ ''_diff''"
  by (cases q; cases q'; simp add: pass_prefix_def)+

lemma digits_value_zero: "fq_uint v False \<Longrightarrow> digits_value v = 0 \<Longrightarrow> v = ''0''"
  using fq_uint_nonzero [of v False] positive_int64_value(2) [of v] by fastforce

lemma lua_mark_pass_ok:
  assumes "lua_mark_pass N f (pass_prefix q) cycle ''1'' diff now c = (d, [OK])"
  shows "lua_number cycle \<le> lua_number (field (progress d) (pass_prefix q @ ''_cycle''))"
    "field (progress d) (pass_prefix q @ ''_complete'') = ''1''" "field (progress d) ''high_water'' \<noteq> []"
    "diff = ''0'' \<Longrightarrow> field (progress d) (pass_prefix q @ ''_diff'') = ''0''"
    "lua_number (field (progress c) (pass_prefix q @ ''_cycle'')) \<le> lua_number cycle"
    "q' \<noteq> q \<Longrightarrow> pass_clean q' n (progress c) \<Longrightarrow> pass_clean q' n (progress d)"
proof -
  note run = recovery_fenced_run [OF assms [unfolded lua_mark_pass_def]]
  have "common_progress_ok (prog c)"
    using check_recovery_parts(3) [OF run(1)] by (auto simp: recovery_fence_progress_def split: if_splits)
  then have diff_ok: "fq_uint (prog c (pass_prefix q @ ''_diff'')) False"
    by (cases q) (simp_all add: common_progress_ok_def pass_prefix_def)
  have zero: "lua_number ''0'' = 0" by (simp add: lua_number_def digits_value_def digit_char_def lua_double_small)
  have pre: "pass_prefix q \<in> {''known'', ''dispatched'', ''running''}" by (cases q) (simp_all add: pass_prefix_def)
  let ?fs = "[(pass_prefix q @ ''_cycle'', cycle), (pass_prefix q @ ''_complete'', ''1''), (pass_prefix q @ ''_diff'', diff)]"
  from run(2) pre have hw: "prog c ''high_water'' \<noteq> []" and cyc: "lua_number (prog c (pass_prefix q @ ''_cycle'')) \<le> lua_number cycle"
    and cases: "d = set_progress ?fs c \<or> d = c \<and> lua_number cycle = lua_number (prog c (pass_prefix q @ ''_cycle''))
       \<and> prog c (pass_prefix q @ ''_complete'') = ''1'' \<and> lua_number diff = lua_number (prog c (pass_prefix q @ ''_diff''))"
    by (auto simp: Let_def not_less split: if_splits)
  show "lua_number (field (progress c) (pass_prefix q @ ''_cycle'')) \<le> lua_number cycle" using cyc by (simp add: field_progress)
  have set: "map_of (progress (set_progress ?fs c)) = (map_of (progress c))(pass_prefix q @ ''_cycle'' \<mapsto> cycle,
      pass_prefix q @ ''_complete'' \<mapsto> ''1'', pass_prefix q @ ''_diff'' \<mapsto> diff)"
    using pass_fields_distinct(3-5) [of q] by (intro ext) (auto simp: set_progress_def map_of_hset)
  show "lua_number cycle \<le> lua_number (field (progress d) (pass_prefix q @ ''_cycle''))"
    "field (progress d) (pass_prefix q @ ''_complete'') = ''1''" "field (progress d) ''high_water'' \<noteq> []"
    using cases hw cyc pass_fields_distinct(3-5) [of q] pass_fields_distinct(2) [of q]
    by (auto simp: field_progress prog_def set simp del: fun_upd_apply) (auto simp: field_progress prog_def)
  show "field (progress d) (pass_prefix q @ ''_diff'') = ''0''" if "diff = ''0''"
    using cases
  proof (elim disjE conjE)
    assume "d = set_progress ?fs c"
    then have "field (progress d) (pass_prefix q @ ''_diff'') = diff" by (simp add: field_def set)
    then show ?thesis using that by simp
  next
    assume "d = c" "lua_number diff = lua_number (prog c (pass_prefix q @ ''_diff''))"
    then show ?thesis
      using zero that digits_value_zero [OF diff_ok] lua_double_zero by (simp add: field_progress lua_number_def)
  qed
  show "pass_clean q' n (progress d)" if "q' \<noteq> q" "pass_clean q' n (progress c)"
    using cases that(2) pass_fields_distinct(1) [OF that(1)] pass_fields_distinct(1) [OF that(1) [symmetric]] pass_fields_distinct(2) [of q]
    by (auto simp: pass_clean_def field_def set)
qed

lemma redis_call_settings:
  "(\<And>k. args = Inr k \<Longrightarrow> P (settings (fst (s k c)))) \<Longrightarrow> P (settings c) \<Longrightarrow> P (settings (snd (redis_call net args s parse c)))"
  using redis_call_state [of net args s parse c] by auto

lemma keeps_triple: "keeps I m \<Longrightarrow> triple (\<lambda>_ _. True) I m (\<lambda>_. I)"
  unfolding keeps_def by (erule triple_post) simp_all

lemma mark_triple:
  fixes N H prefix side base before assumes P: "undisturbed P side" and R: "undisturbed R side"
    and mark: "\<And>c d now. P (settings c) \<Longrightarrow> cycle \<noteq> 0 \<Longrightarrow>
      lua_mark_pass N f (pass_prefix q) (format_uint (unat cycle)) ''1'' (format_uint (nat diff)) now c = (d, [OK]) \<Longrightarrow> R (settings d)"
  defines "env \<equiv> redis_env N H prefix side base"
  shows "triple (\<lambda>_ _. True) (run_inv P before) (mark_pass env cf f q cycle diff) (\<lambda>_. run_inv R before)"
proof -
  have step: "triple (\<lambda>_ _. True) (run_inv P before)
      (invoke (co_mark_pass (en_coord env) (rc_key cf) f q cycle True diff) (RMarkPass (rc_key cf) f q cycle True diff)) (\<lambda>_. run_inv R before)"
    unfolding env_def env_rest(22) redis_coord_def rec_coord.simps run_inv_def
    using P mark
    by (intro triple_post [OF triple_redis [where J = "\<lambda>c. P (settings c)" and E = "\<lambda>_ _. True" and Q = "\<lambda>_ c. R (settings c)"]])
      (auto simp: undisturbed_def mark_recovery_pass_def check_err_def fail_when_def wraps_def dest!: redis_call_ok split: if_splits)
  have renew: "triple (\<lambda>_ _. True) (run_inv S before) (coord_renew env (rc_key cf) f) (\<lambda>_. run_inv S before)" if "undisturbed S side" for S
    unfolding env_def by (rule keeps_triple [OF env_coord_keeps(1) [OF that]])
  show ?thesis
    unfolding mark_pass_def recovery_mutation_def
    by (intro triple_seq [OF renew [OF P]] triple_seq [OF step] triple_seq [OF renew [OF R]] triple_ret) simp
qed

subsection \<open>A completed rebuild\<close>

definition rebuilt :: "settings \<Rightarrow> bool" where
  "rebuilt s \<longleftrightarrow> pass_clean PassRunning 1 (snd s) \<and> pass_clean PassKnownTenants 2 (snd s) \<and> pass_clean PassDispatched 2 (snd s)"


definition bystanders :: "'x redis_side \<Rightarrow> bool" where
  "bystanders side \<longleftrightarrow> (\<forall>x c. settings (rs_meddle side x c) = settings c)"

lemma bystanders_undisturbed: "bystanders side \<Longrightarrow> undisturbed P side"
  by (simp add: bystanders_def undisturbed_def)

lemma lua_number_cycle:
  "cycle \<noteq> 0 \<Longrightarrow> 1 \<le> lua_number (format_uint (unat (cycle :: 64 word)))"
  "cycle \<noteq> 0 \<Longrightarrow> cycle \<noteq> - 1 \<Longrightarrow> 2 \<le> lua_number (format_uint (unat (cycle + 1)))"
proof -
  assume c: "cycle \<noteq> 0"
  then have "unat cycle \<noteq> 0" by (simp add: unat_eq_0)
  then show "1 \<le> lua_number (format_uint (unat cycle))"
    using lua_double_zero [of "unat cycle"] by (auto simp: lua_number_def digits_value_format_uint Suc_le_eq)
  assume "cycle \<noteq> - 1"
  then have "unat (cycle + 1) = unat cycle + 1" by (metis add.commute add_eq_0_iff unatSuc plus_1_eq_Suc Suc_eq_plus1_left)
  then have "2 \<le> unat (cycle + 1)" using \<open>unat cycle \<noteq> 0\<close> by simp
  then show "2 \<le> lua_number (format_uint (unat (cycle + 1)))"
    using lua_double_at_least_two by (simp add: lua_number_def digits_value_format_uint)
qed

lemma format_uint_zero: "format_uint 0 = ''0''"
  by (subst format_uint.simps) (simp add: digit_char_def char_of_def bit_Suc_0_iff)

text \<open>A mark with no difference leaves its pass clean, and the other passes as they are.\<close>

lemma mark_clean:
  fixes N H prefix side base before assumes "bystanders side" and n: "cycle \<noteq> 0 \<Longrightarrow> n \<le> lua_number (format_uint (unat cycle))"
    and others: "\<And>s q' n'. (q', n') \<in> K \<Longrightarrow> q' \<noteq> q"
  defines "env \<equiv> redis_env N H prefix side base"
  shows "triple (\<lambda>_ _. True) (run_inv (\<lambda>s. \<forall>(q', n')\<in>K. pass_clean q' n' (snd s)) before) (mark_pass env cf f q cycle 0)
    (\<lambda>_. run_inv (\<lambda>s. \<forall>(q', n')\<in>insert (q, n) K. pass_clean q' n' (snd s)) before)"
  unfolding env_def
proof (rule mark_triple [OF bystanders_undisturbed bystanders_undisturbed])
  fix c d now
  assume old: "\<forall>(q', n')\<in>K. pass_clean q' n' (snd (settings c))" and c: "cycle \<noteq> 0"
    and ok: "lua_mark_pass N f (pass_prefix q) (format_uint (unat cycle)) ''1'' (format_uint (nat 0)) now c = (d, [OK])"
  note facts = lua_mark_pass_ok [OF ok]
  have "pass_clean q n (progress d)"
    using facts(1-4) n [OF c] by (simp add: pass_clean_def format_uint_zero)
  moreover have "pass_clean q' n' (progress d)" if "(q', n') \<in> K" for q' n'
    using facts(6) [OF others [OF that]] old that by (auto simp: settings_def)
  ultimately show "\<forall>(q', n')\<in>insert (q, n) K. pass_clean q' n' (snd (settings d))"
    by (auto simp: settings_def)
qed (use assms in simp_all)

lemma converge_clean:
  fixes N H prefix side base before assumes "bystanders side"
  defines "env \<equiv> redis_env N H prefix side base"
  shows "cycle \<noteq> 0 \<Longrightarrow> triple (\<lambda>_ _. True) (run_inv (\<lambda>_. True) before) (converge_running H n k env cf f hw cycle)
    (\<lambda>cy s. cy \<noteq> 0 \<and> run_inv (\<lambda>s. pass_clean PassRunning 1 (snd s)) before s)"
proof (induction k arbitrary: cycle)
  case 0
  show ?case by (simp add: triple_cut)
next
  case (Suc k)
  note any = bystanders_undisturbed [OF assms(1)]
  have mark: "triple (\<lambda>_ _. True) (run_inv (\<lambda>_. True) before) (mark_pass env cf f PassRunning cycle diff)
      (\<lambda>_. run_inv (\<lambda>s. diff = 0 \<longrightarrow> pass_clean PassRunning 1 (snd s)) before)" for diff
  proof (cases "diff = 0")
    case True
    show ?thesis
      using mark_clean [OF assms(1), where K = "{}" and q = PassRunning and n = 1 and cycle = cycle] lua_number_cycle(1)
      by (simp add: True env_def)
  next
    case False
    have "triple (\<lambda>_ _. True) (run_inv (\<lambda>_. True) before) (mark_pass env cf f PassRunning cycle diff) (\<lambda>_. run_inv (\<lambda>_. True) before)"
      unfolding env_def by (rule mark_triple [OF any any]) simp
    with False show ?thesis by simp
  qed
  have stable: "triple (\<lambda>_ _. True) (run_inv (\<lambda>_. True) before) (reconcile_recovery_stable H n env cf f hw) (\<lambda>_. run_inv (\<lambda>_. True) before)"
    unfolding env_def by (rule keeps_triple [OF passes_keep(8) [OF any]])
  have next_cycle: "cycle + 1 \<noteq> 0" if "cycle \<noteq> - 1" using that by (metis add.commute add_eq_0_iff)
  show ?case
    unfolding converge_running.simps
  proof (intro triple_seq [OF stable] triple_seq [OF mark] triple_if)
    fix diff :: int assume "diff = 0"
    then show "triple (\<lambda>_ _. True) (run_inv (\<lambda>s. diff = 0 \<longrightarrow> pass_clean PassRunning 1 (snd s)) before) (ret cycle)
        (\<lambda>cy s. cy \<noteq> 0 \<and> run_inv (\<lambda>s. pass_clean PassRunning 1 (snd s)) before s)"
      using Suc.prems by (intro triple_ret) simp
  next
    fix diff :: int assume "cycle \<noteq> - 1"
    show "triple (\<lambda>_ _. True) (run_inv (\<lambda>s. diff = 0 \<longrightarrow> pass_clean PassRunning 1 (snd s)) before)
        (converge_running H n k env cf f hw (cycle + 1)) (\<lambda>cy s. cy \<noteq> 0 \<and> run_inv (\<lambda>s. pass_clean PassRunning 1 (snd s)) before s)"
      by (rule triple_pre [OF Suc.IH [OF next_cycle [OF \<open>cycle \<noteq> - 1\<close>]]]) (auto simp: run_inv_def on_coord_def)
  qed (rule triple_err, simp)
qed

lemma high_water_keeps:
  fixes N H prefix side base before assumes P: "undisturbed P side"
    and set: "\<And>c now h. P (settings c) \<Longrightarrow> P (settings (fst (lua_set_high_water N f h now c)))"
  defines "env \<equiv> redis_env N H prefix side base"
  shows "keeps (run_inv P before) (recovery_high_water env cf f)"
proof -
  note calls = env_coord_keeps [OF P, where N = N and H = H and prefix = prefix and base = base and before = before, folded env_def]
  note rest = env_rest_keeps [where N = N and H = H and prefix = prefix and side = side and base = base and P = P and before = before,
    folded env_def]
  have "keeps (run_inv P before) (invoke (co_set_high_water (en_coord env) r f h) (RSetHighWater r f h))" for r h
    unfolding env_def env_rest(22) redis_coord_def rec_coord.simps run_inv_def
  proof (rule keeps_redis)
    show "P (settings (snd (set_recovery_high_water N (rs_net side x) (rs_now side x) prefix r f h c)))" if "P (settings c)" for c x
      unfolding set_recovery_high_water_def by (rule redis_call_settings [where P = P]) (use that set in simp_all)
  qed (use P in \<open>simp_all add: undisturbed_def\<close>)
  then show ?thesis
    unfolding recovery_high_water_def inspect_recovery_fence_def capture_recovery_high_water_def
    by (intro keeping calls rest)
qed

lemma rebuild_body_clean:
  fixes N H prefix side base before assumes "bystanders side"
  defines "env \<equiv> redis_env N H prefix side base"
  shows "triple (\<lambda>_ _. True) (run_inv (\<lambda>_. True) before) (rebuild_body H n env cf f) (\<lambda>_. run_inv rebuilt before)"
proof -
  note any = bystanders_undisturbed [OF assms(1)]
  note passes = passes_keep [OF any, where N = N and H = H and prefix = prefix and base = base and before = before, folded env_def, THEN keeps_triple]
  let ?J = "\<lambda>K. run_inv (\<lambda>s. \<forall>(q, n)\<in>K. pass_clean q n (snd s)) before"
  have known: "triple (\<lambda>_ _. True) (?J K) (restore_known_recovery n env cf f hw cycle) (\<lambda>_. ?J (insert (PassKnownTenants, m) K))"
    if "\<And>q n. (q, n) \<in> K \<Longrightarrow> q \<noteq> PassKnownTenants" "m \<le> lua_number (format_uint (unat cycle))" for K hw cycle m
    unfolding restore_known_recovery_def
    by (rule triple_seq [OF passes(5)], unfold env_def, rule mark_clean [OF assms(1)]) (use that in auto)
  have dispatched: "triple (\<lambda>_ _. True) (?J K) (restore_dispatched_recovery n env cf f hw cycle) (\<lambda>_. ?J (insert (PassDispatched, m) K))"
    if "\<And>q n. (q, n) \<in> K \<Longrightarrow> q \<noteq> PassDispatched" "m \<le> lua_number (format_uint (unat cycle))" for K hw cycle m
    unfolding restore_dispatched_recovery_def
    by (rule triple_seq [OF passes(7)], unfold env_def, rule mark_clean [OF assms(1)]) (use that in auto)
  note calls = env_coord_keeps [OF any, where N = N and H = H and prefix = prefix and base = base and before = before, folded env_def]
  have J: "run_inv (\<lambda>_. True) before = ?J {}" "run_inv (\<lambda>s. pass_clean PassRunning 1 (snd s)) before = ?J {(PassRunning, 1)}"
    "run_inv rebuilt before = ?J {(PassDispatched, 2), (PassKnownTenants, 2), (PassRunning, 1)}"
    by (rule arg_cong [where f = "\<lambda>P. run_inv P before"]; force simp: rebuilt_def)+
  note converge = converge_clean [OF assms(1), where N = N and H = H and prefix = prefix and base = base and before = before,
    folded env_def, unfolded J]
  have known1: "triple (\<lambda>_ _. True) (?J {}) (restore_known_recovery n env cf f hw 1) (\<lambda>_. ?J {})" for hw
    by (rule triple_post [OF known [of "{}" 0]]) (auto simp: run_inv_def on_coord_def)
  have dispatched1: "triple (\<lambda>_ _. True) (?J {}) (restore_dispatched_recovery n env cf f hw 1) (\<lambda>_. ?J {})" for hw
    by (rule triple_post [OF dispatched [of "{}" 0]]) (auto simp: run_inv_def on_coord_def)
  have reset: "keeps (?J {}) (recovery_mutation env (rc_key cf) f (invoke (co_reset (en_coord env) (rc_key cf) f) (RReset (rc_key cf) f)))"
    by (intro keeping calls)
  have high_water: "keeps (?J {}) (recovery_high_water env cf f)"
    unfolding env_def by (rule high_water_keeps [OF any]) simp
  have last: "triple (\<lambda>_ _. True) (\<lambda>s. cy \<noteq> 0 \<and> ?J {(PassRunning, 1)} s)
      (seq (restore_known_recovery n env cf f hw (cy + 1)) (\<lambda>_. restore_dispatched_recovery n env cf f hw (cy + 1)))
      (\<lambda>_. ?J {(PassDispatched, 2), (PassKnownTenants, 2), (PassRunning, 1)})" if "cy \<noteq> - 1" for hw cy
  proof (cases "cy = 0")
    case False
    show ?thesis
      by (rule triple_pre [OF triple_seq [OF known [of "{(PassRunning, 1)}" 2] dispatched [of "{(PassKnownTenants, 2), (PassRunning, 1)}" 2]]]) (use lua_number_cycle(2) [OF False that] in auto)
  qed (simp add: triple_def)
  show ?thesis
    unfolding rebuild_body_def J restore_running_recovery_def
    by (intro triple_seq [OF passes(1)] triple_seq [OF passes(3)] triple_seq [OF keeps_triple [OF high_water]]
        triple_seq [OF keeps_triple [OF reset]] triple_seq [OF passes(4)] triple_seq [OF known1] triple_seq [OF passes(6)]
        triple_seq [OF dispatched1] triple_seq [OF converge] triple_if triple_err last) simp_all
qed

subsection \<open>The control\<close>

definition fenced_by :: "recovery_fence \<Rightarrow> settings \<Rightarrow> bool" where
  "fenced_by f s \<longleftrightarrow> map_of (fst s) ''state'' = Some ''RECOVERING'' \<and> map_of (fst s) ''operation_kind'' = Some (rf_kind f)"

lemma check_recovery_fenced: "check_recovery N now f c = None \<Longrightarrow> fenced_by f (settings c)"
  using check_recovery_readable(4) [of N now f c] check_recovery_control [of N now f c] by (simp add: fenced_by_def settings_def)

lemma fenced_by_progress: "fenced_by f (settings (set_progress fs c)) = fenced_by f (settings c)"
  by (simp add: fenced_by_def settings_def set_progress_def)

lemma control_of_fenced: "control (fst (body c)) = control c \<Longrightarrow> control (fst (recovery_fenced N now f body c)) = control c"
  by (simp add: recovery_fenced_def split: option.split)

lemma control_kept:
  "control (fst (lua_set_high_water N f h now c)) = control c" "control (fst (lua_mark_pass N f q cycle b diff now c)) = control c"
  unfolding lua_set_high_water_def lua_mark_pass_def by (rule control_of_fenced; simp add: set_progress_def Let_def)+

lemma control_keeps:
  fixes N H prefix side base before g assumes q: "bystanders side"
  defines "env \<equiv> redis_env N H prefix side base" and "J \<equiv> run_inv (fenced_by g) before"
  shows "keeps J (rebuild_body H n env cf f)"
proof -
  note any = bystanders_undisturbed [OF q]
  note calls = env_coord_keeps [OF any, where N = N and H = H and prefix = prefix and base = base and before = before and P = "fenced_by g",
    folded env_def J_def]
  note passes = passes_keep [OF any, where N = N and H = H and prefix = prefix and base = base and before = before and P = "fenced_by g",
    folded env_def J_def]
  have high_water: "keeps J (recovery_high_water env cf f)"
    unfolding env_def J_def by (rule high_water_keeps [OF any]) (simp add: fenced_by_def settings_def control_kept)
  have "keeps J (invoke (co_mark_pass (en_coord env) r f p cycle b diff) (RMarkPass r f p cycle b diff))" for r p cycle b diff
    unfolding env_def J_def env_rest(22) redis_coord_def rec_coord.simps run_inv_def
  proof (rule keeps_redis)
    show "fenced_by g (settings (snd (mark_recovery_pass N (rs_net side x) (rs_now side x) prefix r f p cycle b diff c)))"
      if "fenced_by g (settings c)" for c x
      unfolding mark_recovery_pass_def
      by (rule redis_call_settings [where P = "fenced_by g"]) (use that in \<open>simp_all add: fenced_by_def settings_def control_kept\<close>)
  qed (use q in \<open>simp_all add: bystanders_def\<close>)
  then have mark: "keeps J (mark_pass env cf f p cycle diff)" for p cycle diff
    unfolding mark_pass_def by (intro keeping calls)
  have converge: "keeps J (converge_running H n k env cf f hw cycle)" for k hw cycle
    by (induction k arbitrary: cycle) (auto intro!: keeping passes mark)
  show ?thesis
    unfolding rebuild_body_def restore_running_recovery_def restore_known_recovery_def restore_dispatched_recovery_def
    by (intro keeping passes high_water mark converge calls)
qed

lemma renew_fences:
  fixes N H prefix side base before assumes q: "bystanders side"
  defines "env \<equiv> redis_env N H prefix side base"
  shows "triple (\<lambda>_ _. True) (run_inv (\<lambda>_. True) before) (coord_renew env r f) (\<lambda>_. run_inv (fenced_by f) before)"
proof -
  have fenced: "fenced_by f (settings d)" if run: "renew_recovery N net now prefix r f t c = (Inr u, d)" for net now t c d u
  proof -
    obtain ms where "lua_renew_recovery N f ms now c = (d, [OK])"
      using redis_call_ok [OF run [unfolded renew_recovery_def]] by blast
    from recovery_fenced_run(1) [OF this [unfolded lua_renew_recovery_def]]
    have "fenced_by f (settings c)" by (rule check_recovery_fenced)
    moreover have "settings d = settings c" using run settings_recovery_ops(6) [of N net now prefix r f t c] by simp
    ultimately show ?thesis by simp
  qed
  show ?thesis
    unfolding coord_renew_def env_def env_rest(22) redis_coord_def rec_coord.simps run_inv_def
    by (rule triple_post [OF triple_redis [where J = "\<lambda>_. True" and E = "\<lambda>_ _. True" and Q = "\<lambda>_ c. fenced_by f (settings c)"]])
      (use fenced in auto)
qed

lemma triple_any: "triple (\<lambda>_ _. True) P m (\<lambda>_ _. True)"
  by (simp add: triple_def split: outcome.split)

lemma triple_conj:
  "triple (\<lambda>_ _. True) P m Q \<Longrightarrow> triple (\<lambda>_ _. True) P' m Q' \<Longrightarrow> triple (\<lambda>_ _. True) (\<lambda>s. P s \<and> P' s) m (\<lambda>x s. Q x s \<and> Q' x s)"
  by (rule tripleI) (auto dest!: tripleD split: outcome.splits)

lemma run_rebuilt:
  fixes N H prefix side base before assumes q: "bystanders side"
  defines "env \<equiv> redis_env N H prefix side base"
  shows "triple (\<lambda>_ _. True) (run_inv (\<lambda>_. True) before) (run_recovery H n env cf f) (\<lambda>_. run_inv (\<lambda>s. fenced_by f s \<and> rebuilt s) before)"
proof -
  let ?J = "run_inv (\<lambda>s. fenced_by f s \<and> rebuilt s) before"
  note any = bystanders_undisturbed [OF q]
  note rest = env_rest_keeps [where N = N and H = H and prefix = prefix and side = side and base = base and before = before,
    folded env_def, THEN keeps_triple]
  have "triple (\<lambda>_ _. True) (run_inv (fenced_by f) before) (rebuild_body H n env cf f) (\<lambda>_. ?J)"
    unfolding env_def
    by (rule triple_post [OF triple_pre [OF triple_conj [OF keeps_triple [OF control_keeps [OF q, where g = f]] rebuild_body_clean [OF q]]]])
      (auto simp: run_inv_def on_coord_def)
  then have attempt: "triple (\<lambda>_ _. True) (run_inv (fenced_by f) before) (attempt (rebuild_body H n env cf f)) (\<lambda>r s. \<forall>x. r = Inr x \<longrightarrow> ?J s)"
    by (intro triple_attempt) (auto elim!: triple_post split: option.split)
  have body: "triple (\<lambda>_ _. True) (run_inv (\<lambda>_. True) before) (with_recovery_renewal env (rc_key cf) f (rebuild_body H n env cf f)) (\<lambda>_. ?J)"
    unfolding with_recovery_renewal_def
  proof (intro triple_seq [OF renew_fences [OF q, where N = N and H = H and prefix = prefix and base = base, folded env_def]] triple_seq [OF attempt])
    show "triple (\<lambda>_ _. True) (\<lambda>s. \<forall>x. r = Inr x \<longrightarrow> ?J s) (seq (invoke (en_renewals env) RRenewals) (\<lambda>_. of_result r)) (\<lambda>_. ?J)" for r :: "unit result"
    proof (cases r)
      case (Inl e)
      then show ?thesis by (auto intro!: triple_seq [OF triple_any] simp: of_result_def triple_err)
    next
      case (Inr x)
      then show ?thesis by (auto intro!: triple_seq [OF rest(4)] simp: of_result_def triple_ret)
    qed
  qed
  have signal: "triple (\<lambda>_ _. True) ?J (tell (RHealth m)) (\<lambda>_. ?J)" for m
    by (rule keeps_triple, intro keeping) simp
  have start: "triple (\<lambda>_ _. True) (run_inv (\<lambda>_. True) before) (raise e) (\<lambda>_. run_inv (\<lambda>_. True) before)" for e
    by (rule keeps_triple, intro keeping)
  show ?thesis
    unfolding run_recovery_def
    by (intro triple_seq [OF start] triple_seq [OF body] triple_seq [OF signal] signal)
qed

end
