(* ===== verification/Fq_Recovery_Wedge.thy ===== *)
theory Fq_Recovery_Wedge
  imports Fq_Recovery_Retry
begin

text \<open>
  A normal recovery whose last pass over the known tenants is marked but which is not finished: every later
  attempt to recover the resource.
\<close>

subsection \<open>The state\<close>

definition stuck :: "settings \<Rightarrow> bool" where
  "stuck s \<longleftrightarrow> field (snd s) ''high_water'' \<noteq> [] \<and> 2 \<le> lua_number (field (snd s) ''known_cycle'')"

definition interrupted :: "settings \<Rightarrow> bool" where
  "interrupted s \<longleftrightarrow> map_of (fst s) ''state'' = Some ''RECOVERING'' \<and> map_of (fst s) ''operation_kind'' = Some NORMAL \<and> stuck s"

lemma interrupted_stuck: "interrupted s \<Longrightarrow> stuck s"
  by (simp add: interrupted_def)

lemma stuck_prog: "stuck (settings c) \<Longrightarrow> prog c ''high_water'' \<noteq> [] \<and> 2 \<le> lua_number (prog c ''known_cycle'')"
  by (simp add: stuck_def settings_def field_progress)

lemma stuck_high_water: "stuck (settings c) \<Longrightarrow> fst (lua_set_high_water N f h now c) = c"
  using stuck_prog [of c] by (auto simp: lua_set_high_water_def recovery_fenced_def split: option.split)

lemma stuck_mark:
  assumes "stuck (settings c)"
  shows "fst (lua_mark_pass N f ''known'' (format_uint 1) complete diff now c) = c"
    "snd (lua_mark_pass N f ''known'' (format_uint 1) complete diff now c) \<noteq> [OK]"
proof -
  have "lua_number (format_uint 1) = 1" by (simp add: lua_number_def digits_value_format_uint lua_double_small)
  with stuck_prog [OF assms] check_recovery_codes [of N now f c]
  show "fst (lua_mark_pass N f ''known'' (format_uint 1) complete diff now c) = c"
    "snd (lua_mark_pass N f ''known'' (format_uint 1) complete diff now c) \<noteq> [OK]"
    by (auto simp: lua_mark_pass_def recovery_fenced_def Let_def split: option.split)
qed

text \<open>A begin of a normal recovery takes it over, with a new epoch and the old progress.\<close>

lemma interrupted_begin_script:
  assumes "interrupted (settings c)" "ba_kind a = NORMAL"
  shows "interrupted (settings (fst (lua_begin_recovery a now c)))"
proof -
  have c: "ctl c ''state'' = ''RECOVERING''" "ctl c ''operation_kind'' = NORMAL" "control c \<noteq> []"
    using assms(1) by (auto simp: interrupted_def settings_def ctl_def)
  have commit: "interrupted (settings (begin_commit a now False target prev prev_kind c))" for target prev prev_kind
    using assms by (simp add: begin_commit_def Let_def interrupted_def stuck_def settings_def expire_lock_def field_def map_of_hset)
  have "begin_transition a c = Inr (init, target) \<Longrightarrow> \<not> init" for init target
    using c assms(2) by (auto simp: begin_transition_def Let_def special_kind_def split: if_splits)
  then show ?thesis
    using assms c commit
    by (auto simp: lua_begin_recovery_def locked_def control_absent_def Let_def split: option.split sum.split prod.split)
qed

lemma interrupted_begin:
  assumes "interrupted (settings c)"
  shows "interrupted (settings (snd (begin_recovery_with_lock net now prefix r w [] NORMAL [] 0 own d tok c)))"
  unfolding begin_recovery_with_lock_def
proof (rule redis_call_settings [where P = interrupted])
  fix a assume "begin_request prefix r w [] NORMAL [] 0 own d tok = Inr a"
  then have "ba_kind a = NORMAL"
    by (auto simp: begin_request_def check_err_def bind_result_Inr split: option.splits)
  then show "interrupted (settings (fst (lua_begin_recovery a now c)))" by (rule interrupted_begin_script [OF assms])
qed (rule assms)

lemma interrupted_observed:
  assumes "interrupted (settings c)"
  shows "fst (observe_ready_fence net prefix r w c) \<noteq> Inr f" "snd (observe_ready_fence net prefix r w c) = c"
proof -
  have "map_of (control c) ''state'' = Some ''RECOVERING''" using assms by (simp add: interrupted_def settings_def)
  then have "read_control c \<in> {Inl NOT_READY, Inl CORRUPT}"
    by (simp add: read_control_def hmget_def control_fields_def Let_def)
  then obtain code where code: "read_control c = Inl code" "code \<in> {NOT_READY, CORRUPT}" by auto
  have run: "lua_observe_ready w c = (c, [code])" using code(1) by (simp add: lua_observe_ready_def)
  show "fst (observe_ready_fence net prefix r w c) \<noteq> Inr f"
    using run code(2) by (cases net)
      (auto simp: observe_ready_fence_def redis_call_def run_runtime_script_def redis_runtime_result_error_def redis_script_error_def
        check_err_def wraps_def split: sum.split)
  show "snd (observe_ready_fence net prefix r w c) = c"
    using redis_call_state [of net _ "\<lambda>_. lua_observe_ready w" _ c] run unfolding observe_ready_fence_def by auto
qed

subsection \<open>Attempts\<close>

lemma stuck_mark_triple:
  fixes N H prefix side base before assumes P: "undisturbed P side" and stuck: "\<And>s. P s \<Longrightarrow> stuck s"
  defines "env \<equiv> redis_env N H prefix side base"
  shows "triple (\<lambda>_. run_inv P before) (run_inv P before) (mark_pass env cf f PassKnownTenants 1 0) (\<lambda>_ _. False)"
proof -
  have "fst (mark_recovery_pass N (rs_net side x) (rs_now side x) prefix r f PassKnownTenants 1 True 0 c) \<noteq> Inr u
      \<and> P (settings (snd (mark_recovery_pass N (rs_net side x) (rs_now side x) prefix r f PassKnownTenants 1 True 0 c)))"
    if w: "P (settings c)" for c x r u
  proof
    note mark = stuck_mark [OF stuck [OF w], of N f "''1''" "format_uint 0" "rs_now side x"]
    show "fst (mark_recovery_pass N (rs_net side x) (rs_now side x) prefix r f PassKnownTenants 1 True 0 c) \<noteq> Inr u"
    proof
      assume "fst (mark_recovery_pass N (rs_net side x) (rs_now side x) prefix r f PassKnownTenants 1 True 0 c) = Inr u"
      then obtain d where "mark_recovery_pass N (rs_net side x) (rs_now side x) prefix r f PassKnownTenants 1 True 0 c = (Inr u, d)"
        by (metis prod.collapse)
      from redis_call_ok [OF this [unfolded mark_recovery_pass_def]] mark(2) show False
        by (auto simp: pass_prefix_def)
    qed
    show "P (settings (snd (mark_recovery_pass N (rs_net side x) (rs_now side x) prefix r f PassKnownTenants 1 True 0 c)))"
      unfolding mark_recovery_pass_def
      by (rule redis_call_settings [where P = P]) (use w mark(1) in \<open>simp_all add: pass_prefix_def\<close>)
  qed
  then have mark: "triple (\<lambda>_. run_inv P before) (run_inv P before)
      (invoke (co_mark_pass (en_coord env) (rc_key cf) f PassKnownTenants 1 True 0) (RMarkPass (rc_key cf) f PassKnownTenants 1 True 0))
      (\<lambda>_ _. False)"
    unfolding env_def env_rest(22) redis_coord_def rec_coord.simps run_inv_def
    using P by (intro triple_post [OF triple_redis [where J = "\<lambda>c. P (settings c)" and E = "\<lambda>_ c. P (settings c)" and Q = "\<lambda>_ _. False"]])
      (auto simp: undisturbed_def on_coord_def dest: arg_cong [where f = fst] arg_cong [where f = snd], (metis fst_conv snd_conv)+)
  have renew: "triple (\<lambda>_. run_inv P before) (run_inv P before) (coord_renew env (rc_key cf) f) (\<lambda>_. run_inv P before)"
    unfolding env_def by (rule env_coord_keeps(1) [OF P, unfolded keeps_def])
  show ?thesis
    unfolding mark_pass_def recovery_mutation_def
    by (intro triple_seq [OF renew] triple_seq [OF mark]) (simp add: triple_def)
qed

text \<open>Programs that never return a value, and keep an invariant while they try\<close>

lemma keeps_ends: "keeps I m \<Longrightarrow> triple (\<lambda>_. I) I m (\<lambda>_. I)"
  by (simp add: keeps_def)

lemma never_keeps: "triple (\<lambda>_. I) I m (\<lambda>_ _. False) \<Longrightarrow> keeps I m"
  unfolding keeps_def by (erule triple_post) simp_all

lemma never_seq:
  "triple (\<lambda>_. I) I m (\<lambda>_ _. False) \<Longrightarrow> triple (\<lambda>_. I) I (seq m g) (\<lambda>_ _. False)"
  "keeps I m' \<Longrightarrow> (\<And>x. triple (\<lambda>_. I) I (k x) (\<lambda>_ _. False)) \<Longrightarrow> triple (\<lambda>_. I) I (seq m' k) (\<lambda>_ _. False)"
  by (auto intro!: triple_seq [OF keeps_ends] elim!: triple_seq simp: triple_def [of _ "\<lambda>_. False"])

lemma attempt_never:
  assumes m: "triple (\<lambda>_. I) I m (\<lambda>_ _. False)" and k: "\<And>e. triple (\<lambda>_. I) I (k (Inl e)) Q"
  shows "triple (\<lambda>_. I) I (seq (attempt m) k) Q"
proof (rule triple_seq)
  show "triple (\<lambda>_. I) I (attempt m) (\<lambda>r s. I s \<and> (\<exists>e. r = Inl e))"
    by (rule triple_attempt) (use m in \<open>auto elim!: triple_post split: option.split\<close>)
  show "triple (\<lambda>_. I) (\<lambda>s. I s \<and> (\<exists>e. r = Inl e)) (k r) Q" for r
    using k by (cases r) (auto simp: triple_def)
qed

lemma stuck_run:
  fixes N H prefix side base before assumes P: "undisturbed P side" and stuck: "\<And>s. P s \<Longrightarrow> stuck s"
  defines "env \<equiv> redis_env N H prefix side base" and "W \<equiv> run_inv P before"
  shows "triple (\<lambda>_. W) W (run_recovery H n env cf f) (\<lambda>_ _. False)"
proof -
  note calls = env_coord_keeps [OF P, where N = N and H = H and prefix = prefix and base = base and before = before, folded env_def W_def]
  note rest = env_rest_keeps [where N = N and H = H and prefix = prefix and side = side and base = base and P = P and before = before,
    folded env_def W_def]
  note passes = passes_keep [OF P, where N = N and H = H and prefix = prefix and base = base and before = before, folded env_def W_def]
  have mark: "triple (\<lambda>_. W) W (mark_pass env cf f PassKnownTenants 1 0) (\<lambda>_ _. False)"
    unfolding env_def W_def by (rule stuck_mark_triple [OF P stuck])
  have high_water: "keeps W (recovery_high_water env cf f)"
    unfolding env_def W_def by (rule high_water_keeps [OF P]) (simp add: stuck stuck_high_water)
  have known: "triple (\<lambda>_. W) W (restore_known_recovery n env cf f hw 1) (\<lambda>_ _. False)" for hw
    unfolding restore_known_recovery_def by (intro never_seq(2) [OF passes(5)] mark)
  have body: "triple (\<lambda>_. W) W (rebuild_body H n env cf f) (\<lambda>_ _. False)"
    unfolding rebuild_body_def
    by (intro never_seq(2) [OF passes(1)] never_seq(2) [OF passes(3)] never_seq(2) [OF high_water] never_seq(2) [OF passes(4)]
        never_seq(1) [OF known] never_seq(2) keeping calls)
  have renewal: "triple (\<lambda>_. W) W (with_recovery_renewal env (rc_key cf) f (rebuild_body H n env cf f)) (\<lambda>_ _. False)"
    unfolding with_recovery_renewal_def
    by (intro never_seq(2) [OF calls(1)] attempt_never [OF body] never_seq(2) [OF rest(4)]) (simp add: of_result_def triple_err)
  show ?thesis
    unfolding run_recovery_def
    by (intro never_seq(2) keeping never_seq(1) [OF renewal])
qed


lemma rebuilt_stuck: "rebuilt s \<Longrightarrow> stuck s"
  by (simp add: rebuilt_def stuck_def pass_clean_def pass_prefix_def)

lemma rebuilt_finishable: "rebuilt (settings d) \<Longrightarrow> rf_kind f = NORMAL \<Longrightarrow> finish_progress f now d = None"
  by (simp add: rebuilt_def pass_clean_def settings_def finish_progress_def field_progress pass_prefix_def)

text \<open>C20: a rebuild can be completed, but not repeated. After a \<open>RunRecovery\<close> that returned without an error the marks of
  all three passes are what the finish of a normal recovery demands, and until it is finished the resource is in the state above:
  another \<open>RunRecovery\<close> of the same recovery, of any coordinator and under any fence, never returns without an error. Other
  processes are assumed to leave control and progress alone.\<close>

theorem rebuild_completes_once:
  assumes "bystanders side" and "bystanders side'"
    and "run_state (run_recovery H n (redis_env N H prefix side base) cf f) ((c, x), l) = (Ret u, ((d, y), l'))"
    and "run_state (run_recovery H' n' (redis_env N' H' prefix' side' base') cf' f') ((d, y'), k) = (r, t)"
  shows "(rf_kind f = NORMAL \<longrightarrow> finish_progress f now d = None \<and> interrupted (settings d)) \<and> (\<forall>v. r \<noteq> Ret v)"
proof -
  have "run_inv (\<lambda>_. True) l ((c, x), l)" by (simp add: closed_since_def)
  from tripleD [OF run_rebuilt [OF assms(1)] this assms(3)]
  have d: "fenced_by f (settings d)" "rebuilt (settings d)" by (simp_all add: run_inv_def on_coord_def)
  then have "run_inv stuck k ((d, y'), k)" by (simp add: rebuilt_stuck closed_since_def)
  from tripleD [OF stuck_run [OF bystanders_undisturbed [OF assms(2)], of stuck k] this assms(4)]
  have "r \<noteq> Ret v" for v by (auto split: outcome.splits)
  with d rebuilt_finishable [OF d(2)] rebuilt_stuck [OF d(2)] show ?thesis
    by (simp add: interrupted_def fenced_by_def)
qed

lemma keeps_begin_parts:
  fixes N H prefix side base before assumes P: "undisturbed interrupted side"
  defines "env \<equiv> redis_env N H prefix side base" and "W \<equiv> run_inv interrupted before"
  shows "keeps W (begin_normal_recovery env r w)"
proof -
  note calls = env_coord_keeps [OF P, where N = N and H = H and prefix = prefix and base = base and before = before, folded env_def W_def]
  note rest = env_rest_keeps [where N = N and H = H and prefix = prefix and side = side and base = base and P = interrupted and before = before,
    folded env_def W_def]
  have start: "keeps W (invoke (co_begin (en_coord env) r w own d) (RBegin r w own d))" for r w own d
    unfolding env_def W_def env_rest(22) redis_coord_def rec_coord.simps run_inv_def
    by (rule keeps_redis) (use P in \<open>simp_all add: undisturbed_def interrupted_begin\<close>)
  show ?thesis
    unfolding begin_normal_recovery_def with_start_fence_def begin_body_def begin_locked_def inspect_start_def session_read_def
      acquire_raw_lock_def renew_raw_lock_def check_raw_lock_def release_raw_lock_def
    by (intro keeping calls rest start)
qed

lemma interrupted_observe_triple:
  fixes N H prefix side base before assumes P: "undisturbed interrupted side"
  defines "env \<equiv> redis_env N H prefix side base" and "W \<equiv> run_inv interrupted before"
  shows "triple (\<lambda>_. W) W (invoke (co_observe (en_coord env) r w) (RObserve r w)) (\<lambda>_ _. False)"
proof -
  have "observe_ready_fence (rs_net side x) prefix r w c \<noteq> (Inr f, d)"
    "observe_ready_fence (rs_net side x) prefix r w c = (Inl ss, d) \<Longrightarrow> interrupted (settings d)"
    if "interrupted (settings c)" for c d x f ss
    using interrupted_observed [OF that, of "rs_net side x" prefix r w] that by (metis fst_conv snd_conv)+
  then show ?thesis
    unfolding env_def W_def env_rest(22) redis_coord_def rec_coord.simps run_inv_def
    using P by (intro triple_post [OF triple_redis [where J = "\<lambda>c. interrupted (settings c)" and E = "\<lambda>_ c. interrupted (settings c)" and Q = "\<lambda>_ _. False"]])
      (auto simp: undisturbed_def on_coord_def)
qed

lemma never_handle:
  "triple (\<lambda>_. I) I m (\<lambda>_ _. False) \<Longrightarrow> (\<And>e. triple (\<lambda>_. I) I (h e) (\<lambda>_ _. False)) \<Longrightarrow> triple (\<lambda>_. I) I (handle m h) (\<lambda>_ _. False)"
  by (rule triple_handle [where R = "\<lambda>_. I"]) (auto elim!: triple_post split: option.split)

text \<open>C21: a normal recovery that was interrupted after its last pass over the known tenants is never completed by another attempt.
  If the resource is recovering normally with a marked known pass of a cycle beyond the first, and the other processes keep it so, then
  the startup barrier over the Redis client gives no READY fence and opens no gate, and the resource is still recovering normally
  with such a marked pass when it returns, whatever the network, the clock, MySQL, RabbitMQ and the journal do: \<open>RunRecovery\<close>
  marks that pass with cycle 1 again, which the script refuses. The epoch, the lock and the coordination keys may change.\<close>

theorem interrupted_recovery_never_ready:
  assumes "\<And>x c. interrupted (settings c) \<Longrightarrow> interrupted (settings (rs_meddle side x c))" and "interrupted (settings c)"
    and "run_state (ensure_resource_ready H n (redis_env N H prefix side base) cf writer) ((c, x), l) = (r, ((d, y), l'))"
  shows "(\<forall>f. r \<noteq> Ret f) \<and> interrupted (settings d) \<and> (\<exists>es. l' = l @ es \<and> (\<forall>r f e. (ROpen r f, e) \<notin> set es))"
proof -
  define env where "env = redis_env N H prefix side base"
  define W :: "(coord \<times> 'a) \<times> rec_event list \<Rightarrow> bool" where "W = run_inv interrupted l"
  have P: "undisturbed interrupted side" using assms(1) by (simp add: undisturbed_def)
  note rest = env_rest_keeps [where N = N and H = H and prefix = prefix and side = side and base = base and P = interrupted and before = l,
    folded env_def W_def]
  note start = keeps_begin_parts [OF P, where N = N and H = H and prefix = prefix and base = base and before = l, folded env_def W_def]
  note run = stuck_run [OF P interrupted_stuck, where N = N and H = H and prefix = prefix and base = base and before = l, folded env_def W_def]
  have observe: "triple (\<lambda>_. W) W (observe_ready env r w) (\<lambda>_ _. False)" for r w
    unfolding observe_ready_def env_def W_def by (rule interrupted_observe_triple [OF P])
  have rebuild: "triple (\<lambda>_. W) W (rebuild_resource H n env cf writer) (\<lambda>_ _. False)"
    unfolding rebuild_resource_def by (intro never_seq(2) [OF start] never_seq(1) [OF run])
  have join: "triple (\<lambda>_. W) W (join_or_rebuild H n env cf writer j) (\<lambda>_ _. False)" for j
    unfolding join_or_rebuild_def Let_def
    by (rule attempt_never [OF observe]) (auto simp: triple_err rebuild)
  have close: "keeps W (close_resource env (rc_key cf))"
    unfolding close_resource_def by (auto intro!: keeping rest split: option.split)
  have probe: "keeps W (probe_topology env (rc_key cf))" and read: "keeps W (read_journal env (rc_key cf) writer)"
    unfolding probe_topology_def read_journal_def by (intro keeping rest)+
  have signal: "keeps W (tell (RHealth m))" for m unfolding W_def by (intro keeping) simp
  have "triple (\<lambda>_. W) W (ensure_resource_ready H n env cf writer) (\<lambda>_ _. False)"
    unfolding ensure_resource_ready_def
    by (intro never_seq(2) [OF signal] never_seq(2) [OF close] never_seq(2) [OF probe] never_seq(2) [OF read] never_seq(2) keeping
        never_handle triple_if join triple_err) assumption+
  from tripleD [OF this _ assms(3) [folded env_def]] assms(2)
  show ?thesis by (fastforce simp: W_def closed_since_def opens_def split: outcome.splits)
qed

end
