(* ===== verification/Fq_Recovery_Types.thy ===== *)
theory Fq_Recovery_Types
  imports Fq_Recovery_Wedge
begin

text \<open>
  The progress of a recovery is a hash of typed fields: cycles and differences are decimal \<^verbatim>\<open>int64\<close> values,
  flags are \<open>0\<close> or \<open>1\<close>. Every fenced script checks the types first. Which marks keep them.
\<close>

lemma set_progress_fields:
  "control (set_progress fs c) = control c" "recovery_lock (set_progress fs c) = recovery_lock c"
  "wrong_type (set_progress fs c) = wrong_type c"
  "prog (set_progress fs c) k = (case map_of (rev fs) k of None \<Rightarrow> prog c k | Some v \<Rightarrow> v)"
  by (simp_all add: set_progress_def prog_def map_of_hset split: option.split)

lemma set_progress_readable:
  assumes "progress_readable c"
  shows "progress_readable (set_progress fs c)" "progress_exists (set_progress fs c)"
proof -
  have "map_of (progress c) k \<noteq> None \<Longrightarrow> map_of (progress (set_progress fs c)) k \<noteq> None" for k
    by (simp add: set_progress_def map_of_hset split: option.split)
  then have all: "list_all (\<lambda>k. map_of (progress (set_progress fs c)) k \<noteq> None) progress_fields"
    using assms unfolding progress_readable_def list_all_iff by blast
  then show "progress_readable (set_progress fs c)"
    using assms by (simp add: progress_readable_def set_progress_fields)
  from all have "map_of (progress (set_progress fs c)) ''epoch'' \<noteq> None" by (simp add: progress_fields_def)
  then show "progress_exists (set_progress fs c)" by (auto simp: progress_exists_def)
qed

lemma set_progress_checks:
  "recovery_fence_control N f (set_progress fs c) = recovery_fence_control N f c" "raw_lock now own (set_progress fs c) = raw_lock now own c"
proof -
  have "ctl (set_progress fs c) = ctl c" "control_absent (set_progress fs c) = control_absent c"
    "control_readable (set_progress fs c) = control_readable c"
    by (simp_all add: ctl_def fun_eq_iff set_progress_fields control_absent_def control_readable_def)
  then show "recovery_fence_control N f (set_progress fs c) = recovery_fence_control N f c"
    by (simp only: recovery_fence_control_def)
  show "raw_lock now own (set_progress fs c) = raw_lock now own c" by (simp add: raw_lock_def lock_at_def set_progress_fields)
qed

text \<open>A mark leaves every field of the fence check but its own three as they are.\<close>

lemma mark_checked:
  fixes q :: recovery_pass and cycle complete diff :: string
  assumes c: "check_recovery N now f c = None" and hw: "prog c ''high_water'' \<noteq> []"
  defines "fs \<equiv> [(pass_prefix q @ ''_cycle'', cycle), (pass_prefix q @ ''_complete'', complete), (pass_prefix q @ ''_diff'', diff)]"
  shows "check_recovery N now f (set_progress fs c) =
    (if fq_uint cycle False \<and> fq_uint diff False \<and> fq_bool complete \<and> \<not> (complete = ''1'' \<and> cycle = ''0'') then None else Some CORRUPT)"
proof -
  let ?d = "set_progress fs c"
  note parts = check_recovery_parts [OF c]
  have p: "prog ?d = (prog c)(pass_prefix q @ ''_cycle'' := cycle, pass_prefix q @ ''_complete'' := complete, pass_prefix q @ ''_diff'' := diff)"
    by (rule ext) (cases q; simp add: fs_def set_progress_fields pass_prefix_def)
  have facts: "progress_readable c" "prog c ''epoch'' = rf_epoch f" "prog c ''operation_kind'' = rf_kind f" "prog c ''operation_id'' = rf_operation f"
    "common_progress_ok (prog c)" "rf_kind f = NORMAL \<or> special_kind (rf_kind f)"
    "special_progress_ok (rf_kind f) (rf_operation f) (rf_writer f) (prog c)"
    using parts(3) by (auto simp: recovery_fence_progress_def split: if_splits)
  have same: "prog ?d k = prog c k" if "k \<notin> fst ` set fs" for k
    using that unfolding p by (simp add: fs_def)
  have others: "prog ?d ''repair_high_water'' = prog c ''repair_high_water''"
    "prog ?d ''repair_complete'' = prog c ''repair_complete''"
    "prog ?d ''rebind_original_writer'' = prog c ''rebind_original_writer''"
    "prog ?d ''rebind_target_writer'' = prog c ''rebind_target_writer''"
    "prog ?d ''force_not_before_ms'' = prog c ''force_not_before_ms''"
    "prog ?d ''force_delete_complete'' = prog c ''force_delete_complete''"
    "prog ?d ''epoch'' = prog c ''epoch''"
    "prog ?d ''operation_kind'' = prog c ''operation_kind''"
    "prog ?d ''operation_id'' = prog c ''operation_id''"
    by (rule same; cases q; simp add: fs_def pass_prefix_def)+
  have special: "special_progress_ok (rf_kind f) (rf_operation f) (rf_writer f) (prog ?d)"
    using facts(7) special_progress_cong [OF others(1-6)] by simp
  have ids: "prog ?d ''epoch'' = rf_epoch f" "prog ?d ''operation_kind'' = rf_kind f" "prog ?d ''operation_id'' = rf_operation f"
    using others(7-9) facts(2-4) by simp_all
  have "common_progress_ok (prog ?d) \<longleftrightarrow> fq_uint cycle False \<and> fq_uint diff False \<and> fq_bool complete \<and> \<not> (complete = ''1'' \<and> cycle = ''0'')"
    using facts(5) hw by (cases q) (auto simp: common_progress_ok_def p pass_prefix_def)
  with special ids facts(6) set_progress_readable [OF facts(1), of fs] parts(1,2)
  show ?thesis by (auto simp: check_recovery_def recovery_fence_progress_def set_progress_checks)
qed

lemma fq_uint_format_iff: "fq_uint (format_uint n) False \<longleftrightarrow> n \<le> max_int64"
proof (cases "n = 0")
  case True
  then show ?thesis by (simp add: format_uint_zero fq_uint_def is_digit_def)
next
  case False
  then have "format_uint n \<noteq> ''0''" using digits_value_format_uint [of n] digits_value_format_uint [of 0] format_uint_zero by metis
  then have "fq_uint (format_uint n) False = fq_uint (format_uint n) True" by (simp add: fq_uint_def)
  then show ?thesis using False positive_int64_format [of n] positive_int64_value(3) [of "format_uint n"]
    by (auto simp: fq_uint_positive digits_value_format_uint)
qed

text \<open>C22: the types of the progress and \<open>MarkRecoveryPass\<close>. A mark with a cycle of at most \<open>MaxInt64\<close> leaves a resource
  whose fence check still passes. The client also accepts the cycles above, up to \<open>MaxUint64\<close>, which is where \<open>RunRecovery\<close>
  stops counting: such a mark is answered OK, and unless it repeats the stored one, the fence check reports the resource as
  corrupt from then on.\<close>

theorem marks_keep_types:
  assumes "mark_recovery_pass N net now prefix resource f pass cycle complete diff c = (Inr u, d)" and "diff < 2 ^ 63"
  shows "(unat cycle \<le> max_int64 \<longrightarrow> check_recovery N now f d = None)
    \<and> (unat cycle > max_int64 \<longrightarrow> d = c \<or> check_recovery N now f d = Some CORRUPT)"
proof -
  let ?cycle = "format_uint (unat cycle)" and ?b = "if complete then ''1'' else ''0''" and ?diff = "format_uint (nat diff)"
  have ok: "cycle \<noteq> 0" "lua_mark_pass N f (pass_prefix pass) ?cycle ?b ?diff now c = (d, [OK])"
    using redis_call_ok [OF assms(1) [unfolded mark_recovery_pass_def]]
    by (auto simp: check_err_def fail_when_def wraps_def split: if_splits)
  note run = recovery_fenced_run [OF ok(2) [unfolded lua_mark_pass_def]]
  have hw: "prog c ''high_water'' \<noteq> []" and cases: "d = c \<or> d = set_progress [(pass_prefix pass @ ''_cycle'', ?cycle),
      (pass_prefix pass @ ''_complete'', ?b), (pass_prefix pass @ ''_diff'', ?diff)] c"
    using run(2) by (auto simp: Let_def split: if_splits)
  have "?cycle \<noteq> ''0''" using ok(1) digits_value_format_uint [of "unat cycle"] digits_value_format_uint [of 0] format_uint_zero
    by (metis unat_eq_0)
  moreover have "fq_bool ?b" by (simp add: fq_bool_def)
  moreover have "fq_uint ?diff False" using assms(2) by (simp add: fq_uint_format_iff max_int64_def nat_less_iff)
  ultimately show ?thesis
    using cases run(1) mark_checked [OF run(1) hw, of pass ?cycle ?b ?diff] by (auto simp: fq_uint_format_iff)
qed

end
