(* ===== verification/Fq_Recovery_Ends.thy ===== *)
theory Fq_Recovery_Ends
  imports Fq_Recovery_Redis Fq_Recovery_Barrier Fq_Resv_Props
begin

text \<open>
  The page loops of a rebuild and of READY reconciliation end, over sources that page by key.
\<close>

subsection \<open>Programs that end\<close>

definition ends :: "('s, 'a outcome) state \<Rightarrow> ('a \<Rightarrow> bool) \<Rightarrow> bool" where
  "ends m R \<longleftrightarrow> triple (\<lambda>e _. e \<noteq> None) (\<lambda>_. True) m (\<lambda>x _. R x)"

named_theorems ending \<open>programs that end\<close>

lemma ends_not_cut: "ends m R \<Longrightarrow> fst (run_state m s) \<noteq> Cut"
  unfolding ends_def by (cases "run_state m s") (auto dest: tripleD)

lemma ends_seq: "ends m R \<Longrightarrow> (\<And>x. R x \<Longrightarrow> ends (f x) Q) \<Longrightarrow> ends (seq m f) Q"
  unfolding ends_def
proof (erule triple_seq)
  fix x assume "R x \<Longrightarrow> triple (\<lambda>e _. e \<noteq> None) (\<lambda>_. True) (f x) (\<lambda>x _. Q x)" for x
  then show "triple (\<lambda>e _. e \<noteq> None) (\<lambda>_. R x) (f x) (\<lambda>x _. Q x)" by (cases "R x") (simp_all add: triple_def)
qed

lemma ends_any: "ends m R \<Longrightarrow> ends m (\<lambda>_. True)"
  unfolding ends_def by (erule triple_post) simp_all

lemma ends_intros [ending]:
  "R x \<Longrightarrow> ends (ret x) R" "ends (err e) R" "ends (raise er) (\<lambda>_. True)" "ends (of_result r) (\<lambda>_. True)"
  "ends (invoke op cl) (\<lambda>_. True)" "ends (sense op2) (\<lambda>_. True)" "ends (tell cl) (\<lambda>_. True)"
  unfolding ends_def
  by (auto intro!: triples triple_invoke triple_sense triple_tell)

lemma ends_branches [ending]:
  "(b \<Longrightarrow> ends m Q) \<Longrightarrow> (\<not> b \<Longrightarrow> ends n Q) \<Longrightarrow> ends (if b then m else n) Q"
  "(\<And>x y. ends (g x y) Q) \<Longrightarrow> ends (case p of (x, y) \<Rightarrow> g x y) Q"
  by (simp_all split: prod.split)

lemma ends_then [ending]: "ends m (\<lambda>_. True) \<Longrightarrow> (\<And>x. ends (f x) Q) \<Longrightarrow> ends (seq m f) Q"
  by (erule ends_seq) simp

lemma ends_each [ending]: "(\<And>x. ends (f x) (\<lambda>_. True)) \<Longrightarrow> ends (each f xs) (\<lambda>_. True)"
  by (induction xs) (simp_all add: ending)

lemma ends_parts [ending]:
  "ends (coord_renew env r f) (\<lambda>_. True)" "ends m (\<lambda>_. True) \<Longrightarrow> ends (recovery_mutation env r f m) (\<lambda>_. True)"
  "ends m (\<lambda>_. True) \<Longrightarrow> ends (recovery_rabbit_call env r f m) (\<lambda>_. True)"
  "ends (record_page env n) (\<lambda>_. True)" "ends (ready_check env r g) (\<lambda>_. True)"
  "ends m (\<lambda>_. True) \<Longrightarrow> ends (ready_rabbit_call env r g m) (\<lambda>_. True)"
  "ends (mark_pass env cf f q cycle d) (\<lambda>_. True)" "ends (range_map env xs) (\<lambda>_. True)"
  unfolding coord_renew_def recovery_mutation_def recovery_rabbit_call_def record_page_def ready_check_def ready_rabbit_call_def
    mark_pass_def range_map_def
  by (intro ending; simp)+

subsection \<open>Sources that page by key\<close>

text \<open>\<open>rank\<close> counts what is left after a cursor: the cursor of an unfinished page has less after it than the cursor it was asked for.\<close>

definition keyset :: "(string \<Rightarrow> nat) \<Rightarrow> (string \<Rightarrow> ('w, 'a recovery_page result) state) \<Rightarrow> bool" where
  "keyset rank fetch \<longleftrightarrow> (\<forall>after w p v. run_state (fetch after) w = (Inr p, v) \<longrightarrow> \<not> page_done p \<longrightarrow> rank (page_next p) < rank after)"

definition advances :: "(string \<Rightarrow> nat) \<Rightarrow> string \<Rightarrow> 'a recovery_page \<Rightarrow> bool" where
  "advances rank after p \<longleftrightarrow> (\<not> page_done p \<longrightarrow> rank (page_next p) < rank after)"

lemma ends_fetch: "keyset rank fetch \<Longrightarrow> ends (invoke (fetch after) cl) (advances rank after)"
  unfolding ends_def keyset_def advances_def by (rule triple_invoke) auto

lemma ends_source_page: "ends fetch R \<Longrightarrow> ends (source_page env cf f vi ok after fetch) R"
  unfolding source_page_def by (intro ending ends_seq [of fetch]) auto

lemma page_loop_ends:
  assumes "\<And>n a st. (\<And>a' st'. rank a' < rank a \<Longrightarrow> ends (loop n a' st') (\<lambda>_. True)) \<Longrightarrow> ends (loop (Suc n) a st) (\<lambda>_. True)"
    and "rank after < (n :: nat)"
  shows "ends (loop n after st) (\<lambda>_. True)"
  using assms(2) by (induction n arbitrary: after st) (auto intro: assms(1))

text \<open>Every page loop asks for a page, works on its items, and goes on behind the cursor of the page.\<close>

lemma source_pages_end:
  fixes cf defines "sz \<equiv> reconcile_page_size cf"
  assumes fuel: "rank after < n"
  shows "keyset rank (\<lambda>a. so_known (en_source env) hw a sz) \<Longrightarrow> ends (restore_known_pages n env cf f hw after) (\<lambda>_. True)"
    "keyset rank (\<lambda>a. so_known (en_source env) hw a sz) \<Longrightarrow> ends (reconcile_ready_known n env cf g hw after) (\<lambda>_. True)"
    "keyset rank (\<lambda>a. so_dispatched (en_source env) hw a sz) \<Longrightarrow> ends (restore_dispatched_pages n env cf f hw after) (\<lambda>_. True)"
    "keyset rank (\<lambda>a. so_dispatched (en_source env) hw a sz) \<Longrightarrow> ends (reconcile_ready_dispatched n env cf g hw after) (\<lambda>_. True)"
    "keyset rank (\<lambda>a. so_running (en_source env) hw a sz) \<Longrightarrow> ends (restore_running_pages H n env cf f hw after held) (\<lambda>_. True)"
    "keyset rank (\<lambda>a. so_running (en_source env) hw a sz) \<Longrightarrow> ends (load_canonical_pages H n env cf f hw after m) (\<lambda>_. True)"
    "keyset rank (\<lambda>a. so_running (en_source env) hw a sz) \<Longrightarrow> ends (ready_canonical_pages H n env cf g hw after m) (\<lambda>_. True)"
proof -
  have leases: "ends (restore_leases H env cf f held rs) (\<lambda>_. True)" for held rs
    by (induction rs arbitrary: held) (auto intro!: ending)
  note rest = ending leases
  show "ends (restore_known_pages n env cf f hw after) (\<lambda>_. True)" if "keyset rank (\<lambda>a. so_known (en_source env) hw a sz)"
    by (rule page_loop_ends [where rank = rank and loop = "\<lambda>n a _. restore_known_pages n env cf f hw a", OF _ fuel], unfold restore_known_pages.simps list_known_recovery_page_def sz_def [symmetric])
      (intro ends_seq [OF ends_source_page [OF ends_fetch [OF that]]] rest; simp add: advances_def)
  show "ends (reconcile_ready_known n env cf g hw after) (\<lambda>_. True)" if "keyset rank (\<lambda>a. so_known (en_source env) hw a sz)"
    by (rule page_loop_ends [where rank = rank and loop = "\<lambda>n a _. reconcile_ready_known n env cf g hw a", OF _ fuel], unfold reconcile_ready_known.simps sz_def [symmetric])
      (intro ends_seq [OF ends_fetch [OF that]] rest; simp add: advances_def)
  show "ends (restore_dispatched_pages n env cf f hw after) (\<lambda>_. True)" if "keyset rank (\<lambda>a. so_dispatched (en_source env) hw a sz)"
    by (rule page_loop_ends [where rank = rank and loop = "\<lambda>n a _. restore_dispatched_pages n env cf f hw a", OF _ fuel], unfold restore_dispatched_pages.simps list_dispatched_recovery_page_def sz_def [symmetric])
      (intro ends_seq [OF ends_source_page [OF ends_fetch [OF that]]] rest; simp add: advances_def)
  show "ends (reconcile_ready_dispatched n env cf g hw after) (\<lambda>_. True)" if "keyset rank (\<lambda>a. so_dispatched (en_source env) hw a sz)"
    by (rule page_loop_ends [where rank = rank and loop = "\<lambda>n a _. reconcile_ready_dispatched n env cf g hw a", OF _ fuel], unfold reconcile_ready_dispatched.simps sz_def [symmetric])
      (intro ends_seq [OF ends_fetch [OF that]] rest; simp add: advances_def)
  show "ends (restore_running_pages H n env cf f hw after held) (\<lambda>_. True)" if "keyset rank (\<lambda>a. so_running (en_source env) hw a sz)"
    by (rule page_loop_ends [where rank = rank and loop = "\<lambda>n a held. restore_running_pages H n env cf f hw a held", OF _ fuel], unfold restore_running_pages.simps list_running_recovery_page_def sz_def [symmetric])
      (intro ends_seq [OF ends_source_page [OF ends_fetch [OF that]]] rest; simp add: advances_def)
  show "ends (load_canonical_pages H n env cf f hw after m) (\<lambda>_. True)" if "keyset rank (\<lambda>a. so_running (en_source env) hw a sz)"
    by (rule page_loop_ends [where rank = rank and loop = "\<lambda>n a m. load_canonical_pages H n env cf f hw a m", OF _ fuel], unfold load_canonical_pages.simps list_running_recovery_page_def sz_def [symmetric])
      (intro ends_seq [OF ends_source_page [OF ends_fetch [OF that]]] rest; simp add: advances_def)
  show "ends (ready_canonical_pages H n env cf g hw after m) (\<lambda>_. True)" if "keyset rank (\<lambda>a. so_running (en_source env) hw a sz)"
    by (rule page_loop_ends [where rank = rank and loop = "\<lambda>n a m. ready_canonical_pages H n env cf g hw a m", OF _ fuel], unfold ready_canonical_pages.simps sz_def [symmetric])
      (intro ends_seq [OF ends_fetch [OF that]] rest; simp add: advances_def)
qed

subsection \<open>Reservations\<close>

text \<open>The coordinator lists its reservations in filled pages: an unfinished page has an item. Each item is a new token,
  and there are at most as many as the global limit.\<close>

definition filled :: "(string \<Rightarrow> ('w, 'a recovery_page result) state) \<Rightarrow> bool" where
  "filled fetch \<longleftrightarrow> (\<forall>after w p v. run_state (fetch after) w = (Inr p, v) \<longrightarrow> \<not> page_done p \<longrightarrow> page_items p \<noteq> [])"

definition has_items :: "'a recovery_page \<Rightarrow> bool" where
  "has_items p \<longleftrightarrow> (\<not> page_done p \<longrightarrow> page_items p \<noteq> [])"

lemma ends_filled: "filled fetch \<Longrightarrow> ends (invoke (fetch after) cl) has_items"
  unfolding ends_def filled_def has_items_def by (rule triple_invoke) auto

lemma add_stored_bound:
  "add_stored cf rs m = Inr m' \<Longrightarrow> int (length m) \<le> rc_global cf \<Longrightarrow> length m' = length m + length rs \<and> int (length m') \<le> rc_global cf"
proof (induction rs arbitrary: m)
  case (Cons r rs)
  then have "add_stored cf rs (m @ [(ref_stable_token r, r)]) = Inr m'" "int (length m) < rc_global cf" by (auto split: if_splits)
  with Cons.IH [of "m @ [(ref_stable_token r, r)]"] show ?case by auto
qed simp

lemma ends_add_stored:
  "ends (of_result (add_stored cf rs m)) (\<lambda>m'. add_stored cf rs m = Inr m')"
  unfolding of_result_def by (cases "add_stored cf rs m") (simp_all add: ends_intros)

lemma stored_pages_end:
  fixes cf defines "sz \<equiv> reconcile_page_size cf"
  assumes "int (length m) \<le> rc_global cf" "nat (rc_global cf) - length m + 1 < n"
  shows "filled (\<lambda>a. co_list_stable (en_coord env) (rc_key cf) f a sz) \<Longrightarrow> ends (load_stored_pages n env cf f after m) (\<lambda>_. True)"
    "filled (\<lambda>a. co_list_ready (en_coord env) (rc_key cf) g a sz) \<Longrightarrow> ends (ready_stored_pages n env cf g after m) (\<lambda>_. True)"
proof -
  have next_page: "int (length m') \<le> rc_global cf \<and> nat (rc_global cf) - length m' + 1 < n"
    if "add_stored cf (page_items p) m = Inr m'" "has_items p" "\<not> page_done p" "int (length m) \<le> rc_global cf"
      "nat (rc_global cf) - length m + 1 < Suc n" for p m m' n
    using add_stored_bound [OF that(1)] that(2-5) by (cases "page_items p") (auto simp: has_items_def)
  show "ends (load_stored_pages n env cf f after m) (\<lambda>_. True)" if filled: "filled (\<lambda>a. co_list_stable (en_coord env) (rc_key cf) f a sz)"
    using assms(2,3)
  proof (induction n arbitrary: after m)
    case (Suc n)
    show ?case unfolding load_stored_pages.simps sz_def [symmetric]
      by (intro ends_seq [OF ends_filled [OF filled]] ends_seq [OF ends_add_stored] ending; simp) (use Suc next_page in blast)
  qed simp
  show "ends (ready_stored_pages n env cf g after m) (\<lambda>_. True)" if filled: "filled (\<lambda>a. co_list_ready (en_coord env) (rc_key cf) g a sz)"
    using assms(2,3)
  proof (induction n arbitrary: after m)
    case (Suc n)
    show ?case unfolding ready_stored_pages.simps sz_def [symmetric]
      by (intro ends_seq [OF ends_filled [OF filled]] ends_seq [OF ends_add_stored] ending; simp) (use Suc next_page in blast)
  qed simp
qed

text \<open>The listings of the Redis client are filled.\<close>

lemma redis_filled:
  assumes "\<And>x a c p d. op x a c = (Inr p, d) \<Longrightarrow> \<not> page_done p \<Longrightarrow> page_items p \<noteq> []"
  shows "filled (\<lambda>a. redis_op side (\<lambda>x. op x a))"
  unfolding filled_def redis_op_def using assms by (force split: prod.splits)

lemma recovery_listing_filled:
  "list_recovery_stable_inflight N H net now prefix resource f cursor limit c = (Inr p, d) \<Longrightarrow> \<not> page_done p \<Longrightarrow> page_items p \<noteq> []"
  by (auto simp: list_recovery_stable_inflight_def redis_call_def parse_recovery_page_def check_err_def Let_def
      split: sum.splits prod.splits list.splits option.splits if_splits)

lemma reservation_rows_nonempty: "parse_reservation_rows (r # rows) = Some items \<Longrightarrow> items \<noteq> []"
  by (cases "r # rows" rule: parse_reservation_rows.cases) (auto split: option.splits if_splits simp: Let_def)

lemma list_stable_reply:
  assumes "lua_list_stable H epoch writer cursor n pre resource c = (d, OK # dr # nx # cnt # rows)" "dr = ''0''" "0 < n"
  shows "cnt = format_uint n"
  using assms
  by (auto simp: lua_list_stable_def fenced_def Let_def split: if_splits option.splits)

lemma stable_page_parts:
  assumes "parse_stable_page cursor limit values = Inr p" "\<not> page_done p"
  obtains nx cnt rows m where "values = OK # ''0'' # nx # cnt # rows" "parse_int64 cnt = Some m" "int (length rows) = m * 3"
    "parse_reservation_rows rows = Some (page_items p)" "0 < limit" "limit \<le> max_recovery_page_size"
  using assms
  by (auto simp: parse_stable_page_def check_err_def redis_runtime_result_error_def Let_def validate_page_def validate_page_limit_def
      as_sentinel_def fail_when_def split: list.splits option.splits if_splits)

lemma ready_listing_filled:
  assumes "list_ready_stable H net prefix resource fence cursor limit c = (Inr p, d)" "\<not> page_done p"
  shows "page_items p \<noteq> []"
proof -
  obtain k vs where run: "run_runtime_script net (lua_list_stable H (fence_epoch fence) (fence_writer fence) cursor (nat limit)
      (tenant_key_prefix k) resource) c = (Inr vs, d)" and parse: "parse_stable_page cursor limit vs = Inr p"
    using assms(1) by (auto simp: list_ready_stable_def redis_call_def split: sum.splits prod.splits)
  obtain nx cnt rows m where parts: "vs = OK # ''0'' # nx # cnt # rows" "parse_int64 cnt = Some m" "int (length rows) = m * 3"
    "parse_reservation_rows rows = Some (page_items p)" and limit: "0 < limit" "limit \<le> max_recovery_page_size"
    using stable_page_parts [OF parse assms(2)] by metis
  from run parts(1) have "cnt = format_uint (nat limit)"
    using list_stable_reply limit(1) by (fastforce simp: run_runtime_script_def split: transport.splits prod.splits)
  with parts(2) limit have "m = limit"
    using parse_int64_format [of "nat limit"] by (simp add: max_recovery_page_size_def)
  with parts(3) limit(1) obtain r rs where "rows = r # rs" by (cases rows) auto
  with parts(4) reservation_rows_nonempty show ?thesis by blast
qed

subsection \<open>The passes over the Redis client\<close>

lemma keyset_rest: "keyset rank fetch \<Longrightarrow> keyset rank (\<lambda>a. on_rest (fetch a))"
  unfolding keyset_def on_rest_def by (force split: prod.splits)

text \<open>C23: termination of the passes. Let MySQL page by key: the cursor of an unfinished page has less after it than the cursor the page
  was asked for. Then every pass of a rebuild over MySQL, every pass of the reconciliation of a READY resource over MySQL, and both
  reconciliations of the reservations in Redis against MySQL end, within as many pages as \<open>rank\<close> counts behind the empty cursor and as
  the global limit has reservations: over any Redis, whatever other processes do to it, each returns or fails, and is not still
  asking for pages when its fuel is used up. No assumption on the pages of Redis is needed: the Redis client lists reservations in filled
  pages, and the coordinator refuses to collect more than the limit.\<close>

theorem recovery_passes_end:
  assumes env: "env = redis_env N H prefix side base"
    and "keyset rank (\<lambda>a. so_known (en_source base) hw a (reconcile_page_size cf))"
    and "keyset rank (\<lambda>a. so_dispatched (en_source base) hw a (reconcile_page_size cf))"
    and "keyset rank (\<lambda>a. so_running (en_source base) hw a (reconcile_page_size cf))"
    and "rank [] < n" and "0 \<le> rc_global cf" and "nat (rc_global cf) + 1 < n"
  shows "fst (run_state (restore_known_recovery n env cf f hw cycle) s) \<noteq> Cut
    \<and> fst (run_state (restore_running_recovery H n env cf f hw) s) \<noteq> Cut
    \<and> fst (run_state (restore_dispatched_recovery n env cf f hw cycle) s) \<noteq> Cut
    \<and> fst (run_state (reconcile_recovery_stable H n env cf f hw) s) \<noteq> Cut
    \<and> fst (run_state (reconcile_ready_known n env cf g hw []) s) \<noteq> Cut
    \<and> fst (run_state (reconcile_ready_stable H n env cf g hw) s) \<noteq> Cut
    \<and> fst (run_state (reconcile_ready_dispatched n env cf g hw []) s) \<noteq> Cut"
proof -
  have sources: "keyset rank (\<lambda>a. so_known (en_source env) hw a (reconcile_page_size cf))"
    "keyset rank (\<lambda>a. so_dispatched (en_source env) hw a (reconcile_page_size cf))"
    "keyset rank (\<lambda>a. so_running (en_source env) hw a (reconcile_page_size cf))"
    using assms(2-4) by (auto simp: env redis_env_simps intro: keyset_rest)
  have listings: "filled (\<lambda>a. co_list_stable (en_coord env) (rc_key cf) f a (reconcile_page_size cf))"
    "filled (\<lambda>a. co_list_ready (en_coord env) (rc_key cf) g a (reconcile_page_size cf))"
    by (auto simp: env redis_env_simps redis_coord_def intro!: redis_filled dest: recovery_listing_filled ready_listing_filled)
  note mysql = source_pages_end [where rank = rank and after = "[]" and n = n, OF assms(5)]
  have stored: "ends (load_stored_pages n env cf f [] []) (\<lambda>_. True)" "ends (ready_stored_pages n env cf g [] []) (\<lambda>_. True)"
    using stored_pages_end [of "[]" cf n] listings assms(6,7) by auto
  have "ends (restore_known_recovery n env cf f hw cycle) (\<lambda>_. True)"
    unfolding restore_known_recovery_def by (intro ending mysql(1) sources)
  moreover have "ends (restore_running_recovery H n env cf f hw) (\<lambda>_. True)"
    unfolding restore_running_recovery_def by (rule mysql(5) [OF sources(3)])
  moreover have "ends (restore_dispatched_recovery n env cf f hw cycle) (\<lambda>_. True)"
    unfolding restore_dispatched_recovery_def by (intro ending mysql(3) sources)
  moreover have "ends (reconcile_recovery_stable H n env cf f hw) (\<lambda>_. True)"
    unfolding reconcile_recovery_stable_def Let_def by (intro ending mysql(6) sources stored; simp)
  moreover have "ends (reconcile_ready_stable H n env cf g hw) (\<lambda>_. True)"
    unfolding reconcile_ready_stable_def Let_def by (intro ending mysql(7) sources stored; simp)
  ultimately show ?thesis
    using mysql(2) [OF sources(1)] mysql(4) [OF sources(2)] by (intro conjI ends_not_cut [where R = "\<lambda>_. True"])
qed

end
