(* ===== verification/Fq_Recovery_Samples.thy ===== *)
theory Fq_Recovery_Samples
  imports Fq_Recovery_Props
begin

text \<open>
  Concrete recoveries on which the properties of recovery are applied.
\<close>

subsection \<open>Sample recoveries\<close>

definition sample_lock :: string where "sample_lock = replicate 32 CHR ''2''"
definition sample_new_epoch :: string where "sample_new_epoch = replicate 32 CHR ''1''"

lemma sample_recovery_hexes: "lower_hex 32 sample_lock" "lower_hex 32 sample_new_epoch" "sample_lock \<noteq> []"
  by (simp_all add: sample_lock_def sample_new_epoch_def lower_hex_def is_lower_hex_char_def list_all_iff)

definition sample_version :: "string \<Rightarrow> bool" where "sample_version v \<longleftrightarrow> v = ''1''"

definition locked_start :: coord where
  "locked_start = two_waiting\<lparr> recovery_lock := LockHeld sample_lock (Some 20000) \<rparr>"

definition sample_args :: "string \<Rightarrow> string \<Rightarrow> int \<Rightarrow> begin_args" where
  "sample_args kind operation force = \<lparr> ba_owner = sample_lock, ba_epoch = sample_new_epoch, ba_ttl = 30000, ba_kind = kind,
     ba_operation = operation, ba_writer_a = sample_writer, ba_writer_b = [], ba_force_not_before = format_uint (nat force) \<rparr>"

lemma sample_duration: "redis_duration_ms 30000000000 = Inr 30000"
  by (simp add: redis_duration_ms_def max_resource_duration_def)

lemma sample_begin_request:
  "begin_request ''bk:'' ''rag'' sample_writer [] NORMAL [] 0 sample_lock 30000000000 (Some sample_new_epoch) = Inr (sample_args NORMAL [] 0)"
  "begin_request ''bk:'' ''rag'' sample_writer [] FORCE_REBUILD sample_lock 5000 sample_lock 30000000000 (Some sample_new_epoch)
     = Inr (sample_args FORCE_REBUILD sample_lock 5000)"
  using sample_recovery_hexes sample_hexes
  by (simp_all add: begin_request_def sample_names_valid sample_keyspaces sample_duration next_epoch_def validate_writer_def
      validate_recovery_lock_def sample_args_def sample_fence_def special_kind_def)

lemma locked_start_checks:
  "raw_lock 1000 sample_lock locked_start = None" "\<not> control_absent locked_start" "begin_control_error locked_start = None"
  "begin_transition (sample_args NORMAL [] 0) locked_start = Inr (True, sample_writer)"
proof -
  have u: "fq_uint ''1'' True" by code_simp
  have c: "ctl locked_start ''state'' = ''READY''" "ctl locked_start ''operation_kind'' = ''NONE''" "ctl locked_start ''operation_id'' = []"
    "ctl locked_start ''epoch'' = replicate 32 CHR ''0''" "ctl locked_start ''protocol_version'' = ''1''"
    "ctl locked_start ''writer_fingerprint'' = replicate 64 CHR ''a''" "ctl locked_start ''last_completed_operation_id'' = []"
    "ctl locked_start ''last_completed_operation_kind'' = ''NONE''"
    by (simp_all add: ctl_def locked_start_def two_waiting_def sample_start_def sample_control_def)
  have rd: "control_readable locked_start" "\<not> progress_exists locked_start"
    by (simp_all add: control_readable_def progress_exists_def locked_start_def two_waiting_def sample_start_def sample_control_def control_fields_def)
  show "raw_lock 1000 sample_lock locked_start = None"
    using sample_recovery_hexes by (simp add: raw_lock_def lock_at_def locked_start_def lock_ttl_ok_def)
  show "\<not> control_absent locked_start" by (simp add: control_absent_def locked_start_def two_waiting_def sample_start_def sample_control_def)
  show "begin_control_error locked_start = None"
    using rd c u sample_hexes by (simp add: begin_control_error_def Let_def last_completed_ok_def)
  show "begin_transition (sample_args NORMAL [] 0) locked_start = Inr (True, sample_writer)"
    using rd c by (simp add: begin_transition_def Let_def sample_args_def sample_fence_def)
qed

definition recovering :: coord where
  "recovering = begin_commit (sample_args NORMAL [] 0) 1000 True sample_writer [] ''NONE'' locked_start"

definition recovering_fence :: recovery_fence where
  "recovering_fence = \<lparr> rf_epoch = sample_new_epoch, rf_writer = sample_writer, rf_owner = sample_lock, rf_kind = NORMAL, rf_operation = [] \<rparr>"

lemma recovering_begun:
  "lua_begin_recovery (sample_args NORMAL [] 0) 1000 locked_start = (recovering, [OK, sample_new_epoch, sample_writer])"
proof -
  have lc: "ctl locked_start ''last_completed_operation_id'' = []" "ctl locked_start ''last_completed_operation_kind'' = ''NONE''"
    by (simp_all add: ctl_def locked_start_def two_waiting_def sample_start_def sample_control_def)
  have a: "ba_owner (sample_args NORMAL [] 0) = sample_lock" "ba_kind (sample_args NORMAL [] 0) = NORMAL"
    "ba_operation (sample_args NORMAL [] 0) = []" "ba_epoch (sample_args NORMAL [] 0) = sample_new_epoch"
    by (simp_all add: sample_args_def)
  show ?thesis
    using locked_start_checks a lc by (simp add: lua_begin_recovery_def locked_def recovering_def)
qed

lemma sample_fences_valid: "validate_recovery_fence recovering_fence = None"
  using sample_recovery_hexes sample_hexes
  by (simp add: validate_recovery_fence_def recovering_fence_def resource_fence_of_def validate_fence_def sample_fence_def)

lemma recovering_begin:
  "begin_recovery_with_lock Delivered 1000 ''bk:'' ''rag'' sample_writer [] NORMAL [] 0 sample_lock 30000000000 (Some sample_new_epoch)
     locked_start = (Inr recovering_fence, recovering)"
proof -
  have "redis_runtime_result_error [OK, sample_new_epoch, sample_writer] = None" by (simp add: redis_runtime_result_error_def)
  then show ?thesis
    using sample_fences_valid
    unfolding begin_recovery_with_lock_def redis_call_delivered [OF sample_begin_request(1)] recovering_begun
    by (simp add: recovering_fence_def sample_args_def)
qed

theorem begin_takes_over_witness:
  "check_recovery sample_version 30999 recovering_fence recovering = None \<and> check_ready sample_epoch sample_writer recovering \<noteq> OK"
proof -
  have "sample_version ''1''" by (simp add: sample_version_def)
  from begin_takes_over [where N = sample_version, OF recovering_begin _ this] sample_duration show ?thesis by simp
qed

lemma recovering_checked: "check_recovery sample_version 2000 recovering_fence recovering = None"
proof -
  have "sample_version ''1''" by (simp add: sample_version_def)
  from begun_facts(3) [where N = sample_version, OF recovering_begin _ this _ sample_duration] show ?thesis by simp
qed

lemma sample_mutation_keys:
  "mutation_keys ''bk:'' ''rag'' recovering_fence = Inr (keys_of_root ''bk:fair:{rag}:'')"
  "lock_keys ''bk:'' ''rag'' (rf_owner recovering_fence) = Inr (keys_of_root ''bk:fair:{rag}:'')"
  using sample_recovery_hexes sample_fences_valid
  by (simp_all add: mutation_keys_def lock_keys_def sample_keyspaces sample_names_valid validate_recovery_call_def
      validate_recovery_lock_def recovering_fence_def)

theorem fence_implies_snapshot_witness:
  "\<exists>s. inspect_recovery_start sample_version Delivered 2000 ''bk:'' ''rag'' sample_lock recovering = (Inr (Some s), recovering)
     \<and> cs_state s = ''RECOVERING'' \<and> cs_epoch s = sample_new_epoch"
  using fence_implies_snapshot [where N = sample_version, OF recovering_checked sample_mutation_keys(2)]
  by (auto simp: recovering_fence_def)

theorem begin_overrides_nothing_witness:
  "raw_lock 1000 sample_lock locked_start = None \<and> ctl locked_start ''state'' = ''READY''
     \<and> ctl locked_start ''writer_fingerprint'' = sample_writer"
proof -
  have "ctl locked_start ''state'' = ''READY''"
    by (simp add: ctl_def locked_start_def two_waiting_def sample_start_def sample_control_def)
  then show ?thesis
    using begin_overrides_nothing [OF recovering_begin locked_start_checks(2)] by simp
qed

text \<open>A state with the same control, progress and lock passes the same fences.\<close>

lemma check_recovery_cong:
  assumes "control d = control c" "progress d = progress c" "recovery_lock d = recovery_lock c"
    and "KControl \<in> wrong_type d \<longleftrightarrow> KControl \<in> wrong_type c" "KProgress \<in> wrong_type d \<longleftrightarrow> KProgress \<in> wrong_type c"
  shows "check_recovery N now f d = check_recovery N now f c"
proof -
  have "prog d = prog c" "ctl d = ctl c" using assms(1,2) by (simp_all add: prog_def ctl_def fun_eq_iff)
  moreover have "raw_lock now (rf_owner f) d = raw_lock now (rf_owner f) c" using assms(3) by (simp add: raw_lock_def lock_at_def)
  moreover have "control_absent d = control_absent c" "control_readable d = control_readable c" "progress_exists d = progress_exists c"
    "progress_readable d = progress_readable c"
    using assms by (simp_all add: control_absent_def control_readable_def progress_exists_def progress_readable_def)
  ultimately show ?thesis by (simp only: check_recovery_def recovery_fence_control_def recovery_fence_progress_def)
qed

definition sample_inflight_key :: string where
  "sample_inflight_key = ''bk:fair:{rag}:inflight:tenant:'' @ hex_digest ''123456''"

definition rubble :: coord where
  "rubble = recovering\<lparr> wrong_type := {KRing, KTenantInflight sample_inflight_key} \<rparr>"

lemma rubble_checks:
  "check_recovery sample_version 2000 recovering_fence rubble = None"
  "check_recovery sample_version 2000 recovering_fence (fold del_key rebuilt_keys rubble) = None"
  "wrong_type (fold del_key rebuilt_keys rubble) = {KTenantInflight sample_inflight_key}"
proof -
  have w: "wrong_type recovering = {}"
    by (simp add: recovering_def begin_frame(2) locked_start_def two_waiting_def sample_start_def)
  show a: "check_recovery sample_version 2000 recovering_fence rubble = None"
    using check_recovery_cong [of rubble recovering sample_version 2000 recovering_fence] recovering_checked w by (simp add: rubble_def)
  show c: "wrong_type (fold del_key rebuilt_keys rubble) = {KTenantInflight sample_inflight_key}"
    by (auto simp: rebuilt_keys_def del_key_def rubble_def Let_def)
  have "control (fold del_key rebuilt_keys rubble) = control rubble" "progress (fold del_key rebuilt_keys rubble) = progress rubble"
    "recovery_lock (fold del_key rebuilt_keys rubble) = recovery_lock rubble"
    using del_keys_control [of rebuilt_keys rubble] by (simp_all add: rebuilt_keys_def)
  then show "check_recovery sample_version 2000 recovering_fence (fold del_key rebuilt_keys rubble) = None"
    using check_recovery_cong [of "fold del_key rebuilt_keys rubble" rubble sample_version 2000 recovering_fence] a c
    by (simp add: rubble_def)
qed

subsection \<open>Rebuilding\<close>

lemma rubble_reset:
  "reset_resource sample_version Delivered 2000 ''bk:'' ''rag'' recovering_fence rubble = (Inr (), fold del_key rebuilt_keys rubble)"
proof -
  have "zcard (processing_turns rubble) = 0" "zcard (provisional rubble) = 0" "KProcessingTurns \<notin> wrong_type rubble"
    "KProvisional \<notin> wrong_type rubble"
    by (simp_all add: rubble_def recovering_def begin_commit_def expire_lock_def Let_def locked_start_def two_waiting_def
        sample_start_def zcard_def)
  then have "lua_reset_resource sample_version recovering_fence 2000 rubble = (fold del_key rebuilt_keys rubble, [OK])"
    using rubble_checks(1) by (simp add: lua_reset_resource_def recovery_fenced_def)
  then show ?thesis
    unfolding reset_resource_def redis_call_delivered [OF sample_mutation_keys(1)] by simp
qed

lemma sample_key_owned:
  "validate_key_ref sample_inflight_key = None" "redis_owned_key (keys_of_root ''bk:fair:{rag}:'') sample_inflight_key"
  "named_key (keys_of_root ''bk:fair:{rag}:'') sample_inflight_key = Some (KTenantInflight sample_inflight_key)"
proof -
  have k: "sample_inflight_key = ''bk:fair:{rag}:inflight:tenant:'' @ replicate 63 CHR ''0'' @ ''a''"
    by (simp add: sample_inflight_key_def hex_digest_def)
  have p: "list_all (\<lambda>c. 32 \<le> byte_of c \<and> byte_of c \<le> 126) sample_inflight_key"
    unfolding k by (simp add: list_all_iff)
  then have "\<not> list_ex (\<lambda>r. r = 0 \<or> is_control r) (map byte_of sample_inflight_key)"
    using printable_not_control [OF p] by (auto simp: list_ex_iff list_all_iff)
  moreover have "sample_inflight_key \<noteq> []" "length sample_inflight_key \<le> max_redis_key_bytes"
    by (simp_all add: k max_redis_key_bytes_def)
  ultimately show "validate_key_ref sample_inflight_key = None"
    using printable_runes [OF p] by (simp add: validate_key_ref_def valid_utf8_def)
  show "redis_owned_key (keys_of_root ''bk:fair:{rag}:'') sample_inflight_key"
    by (simp add: redis_owned_key_def keys_of_root_def k)
  show "named_key (keys_of_root ''bk:fair:{rag}:'') sample_inflight_key = Some (KTenantInflight sample_inflight_key)"
    by (simp add: named_key_def keys_of_root_def keyspace_all_def k tenant_key_prefix_def)
qed

lemma rubble_delete:
  "delete_pages sample_version ''bk:'' ''rag'' recovering_fence [(Delivered, 2000, [sample_inflight_key])] (fold del_key rebuilt_keys rubble)
     = Some (del_key (KTenantInflight sample_inflight_key) (fold del_key rebuilt_keys rubble))"
proof -
  let ?c = "fold del_key rebuilt_keys rubble" and ?k = "keys_of_root ''bk:fair:{rag}:''"
  have call: "validate_recovery_call ''rag'' recovering_fence = None"
    by (simp add: validate_recovery_call_def sample_names_valid sample_fences_valid)
  have own: "take (length (ks_root ?k)) sample_inflight_key = ks_root ?k" "sample_inflight_key \<noteq> ks_control ?k"
    "sample_inflight_key \<noteq> ks_recovery_lock ?k" "sample_inflight_key \<noteq> ks_progress ?k"
    using sample_key_owned(2) by (simp_all add: redis_owned_key_def)
  have "lua_delete_owned sample_version recovering_fence ?k [sample_inflight_key] 2000 ?c
      = (del_key (KTenantInflight sample_inflight_key) ?c, [OK])"
    using rubble_checks(2) own by (simp add: lua_delete_owned_def recovery_fenced_def del_named_def sample_key_owned(3))
  moreover have "check_err (validate_recovery_call ''rag'' recovering_fence)
         (check_err (fail_when (int (length [sample_inflight_key]) > max_recovery_page_size) (wraps ErrInvalidModel))
           (bind_result (build_redis_keyspace ''bk:'' ''rag'') (\<lambda>k.
              check_err (fail_when (list_ex (\<lambda>s. validate_key_ref s \<noteq> None \<or> \<not> redis_owned_key k s) [sample_inflight_key]) (wraps ErrInvalidModel))
                (check_err (validate_recovery_call ''rag'' recovering_fence) (Inr (k, rev (remdups (rev [sample_inflight_key]))))))))
      = Inr (?k, [sample_inflight_key])"
    using call sample_key_owned by (simp add: sample_keyspaces max_recovery_page_size_def)
  note args = redis_call_delivered [OF this]
  ultimately have "delete_owned_resource_keys sample_version Delivered 2000 ''bk:'' ''rag'' recovering_fence [sample_inflight_key] ?c
      = (Inr (), del_key (KTenantInflight sample_inflight_key) ?c)"
    unfolding delete_owned_resource_keys_def args by simp
  then show ?thesis by simp
qed

theorem recovery_rebuilds_coordination_witness:
  "ready_inv hex_digest ''bk:'' ''rag'' (run_resource sample_version hex_digest ''bk:'' ''rag''
     [ReadyEvent sample_fence Delivered 2000 (CallActivate ''u1''), RecoveryEvent Delivered 2000 (RecRestoreActive recovering_fence ''user2'')]
     (del_key (KTenantInflight sample_inflight_key) (fold del_key rebuilt_keys rubble)))"
proof -
  let ?k = "keys_of_root ''bk:fair:{rag}:''" and ?c = "fold del_key rebuilt_keys rubble"
  have "key_present key ?c \<longrightarrow> key \<in> {KControl, KProgress} \<or> key = KTenantInflight sample_inflight_key" for key
    using rubble_checks(3)
    by (cases key) (auto simp: key_present_def rebuilt_keys_def del_key_def Let_def rubble_def recovering_def begin_commit_def
        expire_lock_def locked_start_def two_waiting_def sample_start_def)
  then have covered: "\<forall>key. key_present key ?c \<longrightarrow> key \<in> {KControl, KProgress}
      \<or> (\<exists>(net, now, refs)\<in>set [(Delivered, 2000 :: int, [sample_inflight_key])]. \<exists>s\<in>set refs. named_key ?k s = Some key)"
    using sample_key_owned(3) by auto
  have safe: "list_all (epoch_safe {}) [ReadyEvent sample_fence Delivered 2000 (CallActivate ''u1''),
      RecoveryEvent Delivered 2000 (RecRestoreActive recovering_fence ''user2'')]"
    by (simp add: deletes_under_def)
  show ?thesis
    using recovery_rebuilds_coordination [OF hex_digest_hex sample_keyspaces(1) rubble_reset rubble_delete covered _ safe] by simp
qed

subsection \<open>Replaying and finishing\<close>

definition replayable :: coord where
  "replayable = begin_commit (sample_args NORMAL [] 0) 1000 True sample_writer sample_lock FORCE_REBUILD locked_start"

lemma sample_args_facts:
  "begin_args_ok (sample_args NORMAL [] 0)" "begin_target (sample_args NORMAL [] 0) = sample_writer"
  "ba_kind (sample_args NORMAL [] 0) = NORMAL" "ba_operation (sample_args NORMAL [] 0) = []" "ba_owner (sample_args k op n) = sample_lock"
  using sample_recovery_hexes sample_hexes
  by (simp_all add: begin_args_ok_def begin_target_def sample_args_def sample_fence_def)

lemma replayable_checks:
  "begin_control_error replayable = None" "raw_lock 2000 sample_lock replayable = None" "\<not> control_absent replayable"
  "begin_transition (sample_args FORCE_REBUILD sample_lock 5000) replayable = Inr (True, sample_writer)"
  "ctl replayable ''last_completed_operation_id'' = sample_lock" "ctl replayable ''last_completed_operation_kind'' = FORCE_REBUILD"
proof -
  note args = sample_args_facts
  have w: "KControl \<notin> wrong_type locked_start" by (simp add: locked_start_def two_waiting_def sample_start_def)
  have "last_completed_ok sample_lock FORCE_REBUILD"
    using sample_recovery_hexes by (simp add: last_completed_ok_def special_kind_def)
  note control = begun_control_passes [where N = sample_version and now = 1000 and i = True, OF args(1) this _ _ w]
  note progress = fresh_progress_passes [OF args(1), of 1000 sample_lock FORCE_REBUILD locked_start]
  show "begin_control_error replayable = None"
    using control progress args by (intro fence_accepts_begin [of sample_version]) (auto simp: replayable_def sample_version_def)
  have "raw_lock 1000 (ba_owner (sample_args NORMAL [] 0)) locked_start = None" using locked_start_checks(1) args by simp
  from begun_lock [OF this args(1)] show "raw_lock 2000 sample_lock replayable = None"
    by (simp add: replayable_def sample_args_def)
  note m = begin_control_fields [of "sample_args NORMAL [] 0" 1000 True sample_writer sample_lock FORCE_REBUILD locked_start, folded replayable_def]
  have "control replayable \<noteq> []" using m by (auto simp: fun_eq_iff dest: spec [of _ "''epoch''"])
  then show "\<not> control_absent replayable" by (simp add: control_absent_def)
  have c: "ctl replayable ''state'' = ''RECOVERING''" "ctl replayable ''operation_kind'' = NORMAL" "ctl replayable ''operation_id'' = []"
    "ctl replayable ''writer_fingerprint'' = sample_writer"
    by (simp_all add: ctl_def m args)
  then show "begin_transition (sample_args FORCE_REBUILD sample_lock 5000) replayable = Inr (True, sample_writer)"
    by (simp add: begin_transition_def Let_def sample_args_def)
  show "ctl replayable ''last_completed_operation_id'' = sample_lock" "ctl replayable ''last_completed_operation_kind'' = FORCE_REBUILD"
    by (simp_all add: ctl_def m)
qed

definition wedged :: coord where
  "wedged = begin_commit (sample_args FORCE_REBUILD sample_lock 5000) 2000 True sample_writer sample_lock FORCE_REBUILD replayable"

definition wedged_fence :: recovery_fence where
  "wedged_fence = \<lparr> rf_epoch = sample_new_epoch, rf_writer = sample_writer, rf_owner = sample_lock, rf_kind = FORCE_REBUILD,
     rf_operation = sample_lock \<rparr>"

lemma replay_begins:
  "begin_recovery_with_lock Delivered 2000 ''bk:'' ''rag'' sample_writer [] FORCE_REBUILD sample_lock 5000 sample_lock 30000000000
     (Some sample_new_epoch) replayable = (Inr wedged_fence, wedged)"
proof -
  have a: "ba_owner (sample_args FORCE_REBUILD sample_lock 5000) = sample_lock" "ba_kind (sample_args FORCE_REBUILD sample_lock 5000) = FORCE_REBUILD"
    "ba_operation (sample_args FORCE_REBUILD sample_lock 5000) = sample_lock"
    "ba_epoch (sample_args FORCE_REBUILD sample_lock 5000) = sample_new_epoch"
    by (simp_all add: sample_args_def)
  have "lua_begin_recovery (sample_args FORCE_REBUILD sample_lock 5000) 2000 replayable = (wedged, [OK, sample_new_epoch, sample_writer])"
    using replayable_checks a sample_recovery_hexes(3)
    by (simp add: lua_begin_recovery_def locked_def wedged_def special_kind_def)
  moreover have "redis_runtime_result_error [OK, sample_new_epoch, sample_writer] = None" by (simp add: redis_runtime_result_error_def)
  moreover have "validate_recovery_fence wedged_fence = None"
    using sample_recovery_hexes sample_hexes
    by (simp add: validate_recovery_fence_def wedged_fence_def resource_fence_of_def validate_fence_def sample_fence_def special_kind_def)
  ultimately show ?thesis
    unfolding begin_recovery_with_lock_def redis_call_delivered [OF sample_begin_request(2)]
    by (simp add: wedged_fence_def sample_args_def)
qed

theorem replayed_rebuild_wedges_witness:
  "ctl replayable ''operation_kind'' = NORMAL \<and> check_recovery sample_version 2000 wedged_fence wedged \<noteq> None"
proof -
  have "fst (last_completed replayable) = sample_lock"
    using replayable_checks(3,5) by (simp add: last_completed_def)
  from replayed_rebuild_wedges [OF replay_begins _ this] show ?thesis by blast
qed

definition completed :: coord where
  "completed = recovering\<lparr> progress := hset [(''high_water'', ''h1''), (''known_cycle'', ''1''), (''known_complete'', ''1''),
     (''dispatched_cycle'', ''1''), (''dispatched_complete'', ''1''), (''running_cycle'', ''1''), (''running_complete'', ''1'')]
     (progress recovering) \<rparr>"

lemma completed_checks:
  "check_recovery sample_version 2000 recovering_fence completed = None" "finish_state completed = None"
  "finish_progress recovering_fence 2000 completed = None"
proof -
  note args = sample_args_facts
  note f = fresh_progress_fields [of "sample_args NORMAL [] 0" 1000 "[]" "''NONE''" locked_start,
      unfolded args(2) args(3,4), folded recovering_def]
  have m: "map_of (progress completed) = (map_of (progress recovering))(''high_water'' \<mapsto> ''h1'', ''known_cycle'' \<mapsto> ''1'',
      ''known_complete'' \<mapsto> ''1'', ''dispatched_cycle'' \<mapsto> ''1'', ''dispatched_complete'' \<mapsto> ''1'', ''running_cycle'' \<mapsto> ''1'',
      ''running_complete'' \<mapsto> ''1'')"
    by (rule ext) (simp add: completed_def map_of_hset)
  have p: "prog completed ''epoch'' = sample_new_epoch" "prog completed ''operation_kind'' = NORMAL" "prog completed ''operation_id'' = []"
    "prog completed ''high_water'' = ''h1''" "prog completed ''known_cycle'' = ''1''" "prog completed ''known_complete'' = ''1''"
    "prog completed ''known_diff'' = ''0''" "prog completed ''dispatched_cycle'' = ''1''" "prog completed ''dispatched_complete'' = ''1''"
    "prog completed ''dispatched_diff'' = ''0''" "prog completed ''running_cycle'' = ''1''" "prog completed ''running_complete'' = ''1''"
    "prog completed ''running_diff'' = ''0''" "prog completed ''repair_high_water'' = []" "prog completed ''repair_complete'' = ''0''"
    "prog completed ''rebind_original_writer'' = []" "prog completed ''rebind_target_writer'' = []"
    "prog completed ''force_not_before_ms'' = []" "prog completed ''force_delete_complete'' = ''0''"
    by (simp_all add: prog_def m f) (simp_all add: sample_args_def)
  have u: "fq_uint ''1'' False" "fq_uint ''0'' False" "lua_fq_high_water ''h1''" by code_simp+
  have wt: "wrong_type completed = {}"
    by (simp add: completed_def recovering_def begin_frame(2) locked_start_def two_waiting_def sample_start_def)
  have "progress completed \<noteq> []" using m by (auto simp: fun_eq_iff dest: spec [of _ "''high_water''"])
  moreover have "progress_readable completed" using wt by (simp add: progress_readable_def progress_fields_def m f)
  ultimately have pr: "recovery_fence_progress recovering_fence completed = None"
    using u by (simp add: recovery_fence_progress_def progress_exists_def common_progress_ok_def special_progress_ok_def
        recovering_fence_def fq_bool_def p)
  have same: "control completed = control recovering" "recovery_lock completed = recovery_lock recovering"
    "KControl \<notin> wrong_type recovering"
    using wt by (simp_all add: completed_def)
  have "ctl completed = ctl recovering" by (simp add: ctl_def fun_eq_iff same)
  then have "recovery_fence_control sample_version recovering_fence completed = recovery_fence_control sample_version recovering_fence recovering"
    using wt same by (simp add: recovery_fence_control_def control_absent_def control_readable_def)
  then have ctl: "recovery_fence_control sample_version recovering_fence completed = None"
    using check_recovery_parts(2) [OF recovering_checked] by simp
  have "raw_lock 2000 (rf_owner recovering_fence) completed = raw_lock 2000 (rf_owner recovering_fence) recovering"
    by (simp add: raw_lock_def lock_at_def same)
  then have lock: "raw_lock 2000 (rf_owner recovering_fence) completed = None"
    using check_recovery_parts(1) [OF recovering_checked] by simp
  from pr ctl lock show "check_recovery sample_version 2000 recovering_fence completed = None"
    by (simp add: check_recovery_def)
  show "finish_progress recovering_fence 2000 completed = None"
    by (simp add: finish_progress_def p recovering_fence_def)
  have one: "fq_uint ''1'' True" by code_simp
  have "completed = two_waiting\<lparr> control := control completed, progress := progress completed, recovery_lock := recovery_lock completed \<rparr>"
    by (simp add: completed_def recovering_def begin_commit_def expire_lock_def Let_def locked_start_def two_waiting_def sample_start_def)
  then obtain ct pg lk where st: "completed = two_waiting\<lparr> control := ct, progress := pg, recovery_lock := lk \<rparr>" by blast
  show "finish_state completed = None"
    using one by (simp add: st finish_state_def two_waiting_def sample_start_def zcard_def)
qed

theorem finish_only_complete_witness:
  "check_ready sample_new_epoch sample_writer (finish_commit recovering_fence completed) = OK"
proof -
  have v: "sample_version ''1''" by (simp add: sample_version_def)
  have n: "map_of (control completed) ''state'' = Some ''RECOVERING''" using check_recovery_readable(4) [OF completed_checks(1)] .
  then have "finished_already sample_version recovering_fence completed = None"
    using check_recovery_readable(1) [OF completed_checks(1)] by (simp add: finished_already_def Let_def)
  with completed_checks have "lua_finish_recovery sample_version recovering_fence 2000 completed = (finish_commit recovering_fence completed, [OK])"
    by (simp add: lua_finish_recovery_def recovery_fenced_def)
  then have fin: "finish_recovery sample_version Delivered 2000 ''bk:'' ''rag'' recovering_fence completed
      = (Inr (), finish_commit recovering_fence completed)"
    unfolding finish_recovery_def redis_call_delivered [OF sample_mutation_keys(1)] by simp
  have ns: "map_of (control completed) ''state'' \<noteq> Some ''READY''" using n by simp
  have "rf_epoch recovering_fence = sample_new_epoch" "rf_writer recovering_fence = sample_writer" by (simp_all add: recovering_fence_def)
  with finish_only_complete [where N = sample_version, OF fin ns v] show ?thesis by simp
qed

end
