(* ===== verification/Fq_Recovery_Calm.thy ===== *)
theory Fq_Recovery_Calm
  imports Fq_Recovery_Types Fq_Recovery_Ends Fq_Recovery_Samples Fq_Scheduler_Props
begin

text \<open>
  A complete rebuild: over a Redis that answers, with no tenants in MySQL and no reservations in Redis. It is the
  concrete input of the theorems about rebuilds.
\<close>

subsection \<open>The environment\<close>

definition calm_side :: "unit redis_side" where
  "calm_side = \<lparr> rs_net = \<lambda>_. Delivered, rs_now = \<lambda>_. 2000, rs_meddle = \<lambda>_ c. c, rs_token = \<lambda>_. Some sample_new_epoch,
     rs_scan = \<lambda>_ _ _. Inr ([], 0), rs_next = id \<rparr>"

abbreviation say :: "'a \<Rightarrow> (unit, 'a) state" where "say x \<equiv> State_Monad.return x"

definition empty_page :: "'a recovery_page" where "empty_page = \<lparr> page_items = [], page_next = [], page_done = True \<rparr>"

definition calm_base :: "unit rec_env" where
  "calm_base = \<lparr> en_options = \<lparr> ro_lock_ttl = 30000000000, ro_renew = 1, ro_cleanup = 1, ro_operation = 1, ro_backoff_initial = 1,
       ro_backoff_max = 1 \<rparr>,
     en_runtime = None,
     en_rabbit = \<lparr> rb_prober = True, rb_probe = \<lambda>r. say (Inr (r, 0)), rb_topology = \<lambda>_ _. say (Inr ()), rb_depth = \<lambda>_ _. say (Inr 0) \<rparr>,
     en_source = \<lparr> so_high_water = say (Inr ''h1''), so_known = \<lambda>_ _ _. say (Inr empty_page), so_dispatched = \<lambda>_ _ _. say (Inr empty_page),
       so_running = \<lambda>_ _ _. say (Inr empty_page) \<rparr>,
     en_journal = \<lparr> jo_read = \<lambda>_ _. say (Inr None), jo_enter = \<lambda>_ _. say (Inr ()), jo_session = say (Inr None),
       jo_exit = \<lambda>e. say (case e of None \<Rightarrow> Inr () | Some ss \<Rightarrow> Inl ss), jo_complete = \<lambda>r. say (Inr r) \<rparr>,
     en_coord = undefined, en_token = say (Inr sample_lock), en_wait = \<lambda>_. say (Inr ()),
     en_elapsed = say (2 ^ 60), en_context = say None, en_renewals = say (Inr ()), en_order = \<lambda>n. say [0..<n] \<rparr>"

definition calm_env :: "(coord \<times> unit) rec_env" where
  "calm_env = redis_env sample_version hex_digest ''bk:'' calm_side calm_base"

text \<open>States with a given progress, whose fence check passes, and without reservations or turns\<close>

definition calm :: "(string \<times> string) list \<Rightarrow> coord \<Rightarrow> bool" where
  "calm p c \<longleftrightarrow> progress c = p \<and> control c = control completed \<and> check_recovery sample_version 2000 recovering_fence c = None \<and> wrong_type c = {}
     \<and> provisional c = [] \<and> processing_turns c = [] \<and> stable_index c = []"

definition calmly :: "(string \<times> string) list \<Rightarrow> (coord \<times> unit) \<times> rec_event list \<Rightarrow> bool" where
  "calmly p s = calm p (fst (fst s))"

lemma calm_fenced: "calm p c \<Longrightarrow> recovery_fenced sample_version 2000 recovering_fence body c = body c"
  by (simp add: calm_def recovery_fenced_def)

lemma calm_lock:
  assumes "calm p c"
  shows "calm p (expire_lock 32000 c)"
proof -
  have c: "check_recovery sample_version 2000 recovering_fence c = None" using assms by (simp add: calm_def)
  have "raw_lock 2000 (rf_owner recovering_fence) (expire_lock 32000 c) = None"
    using check_recovery_parts(1) [OF c]
    by (auto simp: raw_lock_def lock_at_def expire_lock_def lock_ttl_ok_def split: lock_value.splits option.splits if_splits)
  moreover have "ctl (expire_lock 32000 c) = ctl c" "prog (expire_lock 32000 c) = prog c" "control_absent (expire_lock 32000 c) = control_absent c"
    "control_readable (expire_lock 32000 c) = control_readable c" "progress_exists (expire_lock 32000 c) = progress_exists c"
    "progress_readable (expire_lock 32000 c) = progress_readable c"
    by (simp_all add: expire_lock_def ctl_def prog_def fun_eq_iff control_absent_def control_readable_def progress_exists_def progress_readable_def)
  then have "recovery_fence_control sample_version recovering_fence (expire_lock 32000 c) = None"
    "recovery_fence_progress recovering_fence (expire_lock 32000 c) = None"
    using check_recovery_parts(2,3) [OF c] by (simp_all only: recovery_fence_control_def recovery_fence_progress_def)
  ultimately show ?thesis using assms by (simp add: calm_def check_recovery_def expire_lock_def)
qed

lemma calm_calls:
  "validate_recovery_call ''rag'' recovering_fence = None" "redis_duration_ms 30000000000 = Inr 30000" "validate_page_limit 100 = None"
  "build_redis_keyspace ''bk:'' ''rag'' = Inr (keys_of_root ''bk:fair:{rag}:'')"
  using sample_fences_valid
  by (simp_all add: validate_recovery_call_def sample_names_valid sample_duration sample_keyspaces validate_page_limit_def
      max_recovery_page_size_def)

lemma calm_renew:
  "calm p c \<Longrightarrow> \<exists>d. renew_recovery sample_version Delivered 2000 ''bk:'' ''rag'' recovering_fence 30000000000 c = (Inr (), d) \<and> calm p d"
  using calm_lock [of p c] by (simp add: renew_recovery_def calm_calls sample_mutation_keys redis_call_delivered lua_renew_recovery_def calm_fenced)

lemma no_expired: "zexpired now n [] = []"
  by (simp add: zexpired_def zmembers_def)

lemma cursor_empty: "validate_cursor [] = None"
  by code_simp

lemma no_failure: "check_err (fail_when False e) r = r"
  by (simp add: check_err_def fail_when_def)

lemma empty_page_ok: "validate_page vi \<lparr> page_items = [], page_next = [], page_done = True \<rparr> [] 100 = None"
  by (simp add: validate_page_def cursor_empty calm_calls fail_when_def)

lemma zero_reply: "parse_int64 ''0'' = Some 0"
  by code_simp

lemma calm_reap:
  assumes "calm p c"
  shows "recovery_reap_expired sample_version hex_digest Delivered 2000 ''bk:'' ''rag'' recovering_fence 100 c
     = (Inr \<lparr> removed_provisionals = 0, removed_turns = 0, remaining_provisionals = 0, remaining_turns = 0 \<rparr>, c)"
proof -
  have "lua_recovery_reap sample_version hex_digest recovering_fence 100 pre ''rag'' 2000 c = (c, [OK, ''0'', ''0'', ''0'', ''0''])" for pre
    using assms by (simp add: lua_recovery_reap_def calm_fenced [OF assms] calm_def no_expired types_ok_def zcard_def format_uint_zero Let_def
        recovery_reap_keys_def)
  then show ?thesis
    by (simp add: recovery_reap_expired_def calm_calls redis_call_delivered parse_cleanup_def redis_runtime_result_error_def zero_reply
        validate_cleanup_def)
qed

lemma calm_reset:
  assumes "calm p c"
  shows "\<exists>d. reset_resource sample_version Delivered 2000 ''bk:'' ''rag'' recovering_fence c = (Inr (), d) \<and> calm p d"
proof -
  let ?d = "fold del_key rebuilt_keys c"
  have same: "control ?d = control c \<and> progress ?d = progress c \<and> recovery_lock ?d = recovery_lock c" "wrong_type ?d = {}"
    "provisional ?d = []" "processing_turns ?d = []" "stable_index ?d = []"
    using assms del_keys_control [of rebuilt_keys c]
    by (simp_all add: rebuilt_keys_def del_key_def calm_def)
  then have "calm p ?d"
    using assms check_recovery_cong [of ?d c sample_version 2000 recovering_fence] by (simp add: calm_def)
  then show ?thesis
    by (simp add: reset_resource_def sample_mutation_keys redis_call_delivered lua_reset_resource_def calm_fenced [OF assms]
        assms [unfolded calm_def] zcard_def)
qed

lemma calm_list_owned:
  "calm p c \<Longrightarrow> list_owned_resource_keys sample_version Delivered 2000 (\<lambda>_ _. Inr ([], 0)) ''bk:'' ''rag'' recovering_fence [] 100 c
     = (Inr empty_page, c)"
  by (simp add: list_owned_resource_keys_def calm_calls redis_call_delivered lua_check_recovery_def calm_fenced owned_page_def
      parse_scan_cursor_def empty_page_def empty_page_ok cursor_empty no_failure Let_def)

lemma calm_delete_owned:
  "calm p c \<Longrightarrow> delete_owned_resource_keys sample_version Delivered 2000 ''bk:'' ''rag'' recovering_fence [] c = (Inr (), c)"
  by (simp add: delete_owned_resource_keys_def calm_calls redis_call_delivered lua_delete_owned_def calm_fenced max_recovery_page_size_def)

lemma calm_list_stable:
  assumes "calm p c"
  shows "list_recovery_stable_inflight sample_version hex_digest Delivered 2000 ''bk:'' ''rag'' recovering_fence [] 100 c
     = (Inr empty_page, c)"
proof -
  have "lua_list_recovery_stable sample_version recovering_fence [] 100 pre 2000 c = (c, [OK, ''0''])" for pre
    using assms by (simp add: lua_list_recovery_stable_def calm_fenced [OF assms] calm_def types_ok_def zcard_def zrange_lex_def Let_def)
  then show ?thesis
    by (simp add: list_recovery_stable_inflight_def calm_calls redis_call_delivered parse_recovery_page_def redis_runtime_result_error_def
        empty_page_def empty_page_ok cursor_empty no_failure Let_def)
qed

definition mark_fields :: "recovery_pass \<Rightarrow> string \<Rightarrow> (string \<times> string) list" where
  "mark_fields q cycle = [(pass_prefix q @ ''_cycle'', cycle), (pass_prefix q @ ''_complete'', ''1''), (pass_prefix q @ ''_diff'', ''0'')]"

definition marked :: "(string \<times> string) list \<Rightarrow> recovery_pass \<Rightarrow> string \<Rightarrow> bool" where
  "marked p q cycle \<longleftrightarrow> field p ''high_water'' \<noteq> [] \<and> field p (pass_prefix q @ ''_cycle'') = cycle
     \<and> field p (pass_prefix q @ ''_complete'') = ''1'' \<and> field p (pass_prefix q @ ''_diff'') = ''0''"

lemma calm_field: "calm p c \<Longrightarrow> prog c k = field p k"
  by (auto simp: calm_def field_progress)

lemma formats: "format_uint (Suc 0) = ''1''" "format_uint 2 = ''2''" "fq_uint ''2'' False" "fq_uint ''0'' False"
  by code_simp+

lemma lua_number_format: "n < 2 ^ 53 \<Longrightarrow> lua_number (format_uint n) = n"
  by (simp add: lua_number_def digits_value_format_uint lua_double_small)

lemma numerals: "format_uint (Suc 0) = ''1''" "format_uint 2 = ''2''" "lua_number ''1'' = 1" "lua_number ''2'' = 2"
  "fq_uint ''2'' False" "fq_uint ''0'' False"
  using formats lua_number_format [of 1] lua_number_format [of 2] by simp_all

lemma calm_mark_again:
  assumes "calm p c" "marked p q ''1''"
  shows "mark_recovery_pass sample_version Delivered 2000 ''bk:'' ''rag'' recovering_fence q 1 True 0 c = (Inr (), c)"
proof -
  have "pass_prefix q \<in> {''known'', ''dispatched'', ''running''}" by (cases q) (simp_all add: pass_prefix_def)
  then show ?thesis
    using assms(2) by (simp add: mark_recovery_pass_def sample_mutation_keys redis_call_delivered no_failure lua_mark_pass_def
      calm_fenced [OF assms(1)] calm_field [OF assms(1)] marked_def numerals format_uint_zero Let_def)
qed

lemma calm_mark_next:
  assumes "calm p c" "marked p q ''1''"
  shows "\<exists>d. mark_recovery_pass sample_version Delivered 2000 ''bk:'' ''rag'' recovering_fence q 2 True 0 c = (Inr (), d)
    \<and> calm (hset (mark_fields q ''2'') p) d"
proof -
  have pre: "pass_prefix q \<in> {''known'', ''dispatched'', ''running''}" by (cases q) (simp_all add: pass_prefix_def)
  have c: "check_recovery sample_version 2000 recovering_fence c = None" "prog c ''high_water'' \<noteq> []"
    using assms by (simp_all add: calm_def calm_field [OF assms(1)] marked_def)
  let ?d = "set_progress (mark_fields q ''2'') c"
  have "check_recovery sample_version 2000 recovering_fence ?d = None"
    using mark_checked [OF c, of q "''2''" "''1''" "''0''"] by (simp add: mark_fields_def numerals fq_bool_def)
  then have "calm (hset (mark_fields q ''2'') p) ?d"
    using assms(1) by (simp add: calm_def set_progress_def)
  moreover have "mark_recovery_pass sample_version Delivered 2000 ''bk:'' ''rag'' recovering_fence q 2 True 0 c = (Inr (), ?d)"
    using assms(2) pre by (simp add: mark_recovery_pass_def sample_mutation_keys redis_call_delivered no_failure lua_mark_pass_def
      calm_fenced [OF assms(1)] calm_field [OF assms(1)] marked_def numerals format_uint_zero Let_def mark_fields_def)
  ultimately show ?thesis by blast
qed

lemma marked_other: "q' \<noteq> q \<Longrightarrow> marked p q' n \<Longrightarrow> marked (hset (mark_fields q m) p) q' n"
  using pass_fields_distinct(1) [of q' q] pass_fields_distinct(1) [of q q'] pass_fields_distinct(2) [of q]
  by (auto simp: marked_def field_def map_of_hset mark_fields_def)

subsection \<open>The run\<close>

text \<open>\<open>steps p m y p'\<close>: from a calm state with progress \<open>p\<close> the program returns \<open>y\<close>, in a calm state with progress \<open>p'\<close>.\<close>

definition steps :: "(string \<times> string) list \<Rightarrow> (coord \<times> unit, 'a) rec \<Rightarrow> 'a \<Rightarrow> (string \<times> string) list \<Rightarrow> bool" where
  "steps p m y p' \<longleftrightarrow> (\<forall>s. calmly p s \<longrightarrow> (\<exists>t. run_state m s = (Ret y, t) \<and> calmly p' t))"

lemma steps_seq: "steps p m y p' \<Longrightarrow> steps p' (f y) z q \<Longrightarrow> steps p (seq m f) z q"
  by (fastforce simp: steps_def seq_def bind_run)

lemma steps_attempt: "steps p m y p' \<Longrightarrow> steps p (attempt m) (Inr y) p'"
  by (fastforce simp: steps_def attempt_def bind_run ret_def)

lemma steps_ret: "steps p (ret y) y p"
  by (simp add: steps_def ret_def)

lemma steps_raise: "e = None \<Longrightarrow> steps p (raise e) () p"
  by (simp add: steps_def raise_def ret_def)

lemma steps_of_result: "steps p (of_result (Inr y)) y p"
  by (simp add: steps_def of_result_def ret_def)

lemma steps_op:
  assumes "\<And>c. calm p c \<Longrightarrow> \<exists>d. op () c = (Inr y, d) \<and> calm p' d"
  shows "steps p (invoke (redis_op calm_side op) cl) y p'"
  unfolding steps_def calmly_def
proof (intro allI impI)
  fix s :: "(coord \<times> unit) \<times> rec_event list"
  obtain c l where s: "s = ((c, ()), l)" by (metis prod.collapse unit.exhaust)
  assume "calm p (fst (fst s))"
  then obtain d where "op () c = (Inr y, d)" "calm p' d" using assms [of c] s by auto
  then have "run_state (invoke (redis_op calm_side op) cl) s = (Ret y, ((d, ()), l @ [(cl, None)]))"
    by (simp add: s invoke_def redis_op_def calm_side_def)
  with \<open>calm p' d\<close> show "\<exists>t. run_state (invoke (redis_op calm_side op) cl) s = (Ret y, t) \<and> calm p' (fst (fst t))" by simp
qed

lemma steps_rest:
  "steps p (invoke (on_rest (say (Inr y))) cl) y p" "steps p (sense (on_rest (say z))) z p" "steps p (tell cl) () p"
  by (auto simp: steps_def calmly_def invoke_def sense_def tell_def on_rest_def)

lemma calm_env_simps:
  "en_coord calm_env = redis_coord sample_version hex_digest ''bk:'' calm_side" "en_options calm_env = en_options calm_base"
  "ro_lock_ttl (en_options calm_base) = 30000000000" "en_runtime calm_env = None" "en_elapsed calm_env = on_rest (say (2 ^ 60))"
  "en_renewals calm_env = on_rest (say (Inr ()))" "so_known (en_source calm_env) h a n = on_rest (say (Inr empty_page))"
  "so_dispatched (en_source calm_env) h a n = on_rest (say (Inr empty_page))"
  "so_running (en_source calm_env) h a n = on_rest (say (Inr empty_page))" "en_order calm_env m = on_rest (say [0..<m])"
  by (simp_all add: calm_env_def redis_env_simps calm_base_def)

lemma calm_sides: "rs_net calm_side x = Delivered" "rs_now calm_side x = 2000" "rs_scan calm_side x = (\<lambda>_ _. Inr ([], 0))"
  by (simp_all add: calm_side_def)

lemmas calm_op_simps = calm_env_simps redis_coord_def rec_coord.simps calm_sides

lemma steps_renew: "steps p (coord_renew calm_env ''rag'' recovering_fence) () p"
  unfolding coord_renew_def calm_op_simps by (rule steps_op) (rule calm_renew)

lemma steps_mutation: "steps p m y p' \<Longrightarrow> steps p (recovery_mutation calm_env ''rag'' recovering_fence m) y p'"
  unfolding recovery_mutation_def by (rule steps_seq [OF steps_renew], erule steps_seq, rule steps_seq [OF steps_renew steps_ret])

lemma steps_page: "steps p (record_page calm_env n) () p"
  unfolding record_page_def by (rule steps_seq [OF steps_rest(3) steps_rest(3)])

lemma sample_config_fields: "rc_key sample_config = ''rag''" "reconcile_page_size sample_config = 100" "rc_global sample_config = 2"
  "publish_attempt_timeout sample_config = 15000000000"
  by (simp_all add: sample_config_def)

lemma empty_page_fields: "page_items empty_page = []" "page_done empty_page = True" "validate_page vi empty_page [] 100 = None"
  by (simp_all add: empty_page_def empty_page_ok)

lemma steps_drain: "steps p (drain_attempts calm_env sample_config) () p"
  unfolding drain_attempts_def calm_env_simps option.case sample_config_fields
  by (rule steps_seq [OF steps_raise [OF sample_config_valid]], rule steps_seq [OF steps_ret], rule steps_seq [OF steps_rest(2)])
    (simp add: i64_def steps_ret)

lemma steps_leases: "steps p (drain_recovery_leases 1 calm_env sample_config recovering_fence) () p"
proof -
  let ?r = "\<lparr> removed_provisionals = 0, removed_turns = 0, remaining_provisionals = 0, remaining_turns = 0 \<rparr>"
  have "steps p (reap_once calm_env sample_config recovering_fence) ?r p"
    unfolding reap_once_def sample_config_fields calm_op_simps
    by (rule steps_seq [OF steps_mutation [OF steps_op [where y = ?r]] steps_seq [OF steps_raise steps_ret]])
      (auto simp: calm_reap join_err_def validate_cleanup_def fail_when_def)
  then show ?thesis by (simp add: steps_seq steps_ret)
qed

lemma steps_reset:
  "steps p (recovery_mutation calm_env ''rag'' recovering_fence
     (invoke (co_reset (en_coord calm_env) ''rag'' recovering_fence) (RReset ''rag'' recovering_fence))) () p"
  unfolding calm_op_simps by (rule steps_mutation, rule steps_op) (rule calm_reset)

lemma steps_delete: "steps p (delete_owned_pages 1 calm_env sample_config recovering_fence []) () p"
proof -
  have list: "steps p (invoke (co_list_owned (en_coord calm_env) ''rag'' recovering_fence [] 100) cl) empty_page p" for cl
    unfolding calm_op_simps by (rule steps_op) (simp add: calm_list_owned)
  have delete: "steps p (recovery_mutation calm_env ''rag'' recovering_fence
      (invoke (co_delete_owned (en_coord calm_env) ''rag'' recovering_fence []) cl)) () p" for cl
    unfolding calm_op_simps by (rule steps_mutation, rule steps_op) (simp add: calm_delete_owned)
  show ?thesis
    unfolding One_nat_def delete_owned_pages.simps sample_config_fields
    by (rule steps_seq, rule steps_renew, rule steps_seq, rule list, rule steps_seq, rule steps_raise, simp add: empty_page_fields join_err_def,
        unfold empty_page_fields if_True, rule steps_seq, rule delete, rule steps_seq, rule steps_page, rule steps_ret)
qed

lemma steps_source:
  "steps p (source_page calm_env sample_config recovering_fence vi ok [] (invoke (on_rest (say (Inr empty_page))) cl)) empty_page p"
  unfolding source_page_def sample_config_fields
  by (rule steps_seq, rule steps_renew, rule steps_seq, rule steps_rest(1), rule steps_seq, rule steps_raise,
      simp add: join_err_def empty_page_fields, rule steps_seq, rule steps_raise, simp add: empty_page_fields fail_when_def,
      rule steps_seq, rule steps_renew, rule steps_ret)

lemma steps_lists:
  "steps p (list_known_recovery_page calm_env sample_config recovering_fence hw []) empty_page p"
  "steps p (list_running_recovery_page calm_env sample_config recovering_fence hw []) empty_page p"
  "steps p (list_dispatched_recovery_page calm_env sample_config recovering_fence hw []) empty_page p"
  unfolding list_known_recovery_page_def list_running_recovery_page_def list_dispatched_recovery_page_def calm_env_simps
  by (rule steps_source)+

lemma steps_pages:
  "steps p (restore_known_pages 1 calm_env sample_config recovering_fence hw []) () p"
  "steps p (restore_dispatched_pages 1 calm_env sample_config recovering_fence hw []) () p"
  "steps p (restore_running_recovery hex_digest 1 calm_env sample_config recovering_fence hw) () p"
  "steps p (load_canonical_pages hex_digest 1 calm_env sample_config recovering_fence hw [] []) [] p"
  unfolding restore_running_recovery_def One_nat_def restore_known_pages.simps restore_dispatched_pages.simps restore_running_pages.simps
    load_canonical_pages.simps
  by (rule steps_seq [OF steps_lists(1)] steps_seq [OF steps_lists(2)] steps_seq [OF steps_lists(3)];
      simp add: empty_page_fields steps_seq [OF steps_ret] steps_seq [OF steps_of_result] steps_seq [OF steps_page] steps_ret)+

lemma steps_marks:
  "marked p q ''1'' \<Longrightarrow> steps p (mark_pass calm_env sample_config recovering_fence q 1 0) () p"
  "marked p q ''1'' \<Longrightarrow> steps p (mark_pass calm_env sample_config recovering_fence q 2 0) () (hset (mark_fields q ''2'') p)"
  unfolding mark_pass_def sample_config_fields calm_op_simps
  by (rule steps_mutation, rule steps_op, simp add: calm_mark_again calm_mark_next)+

lemma steps_stored: "steps p (load_stored_pages 1 calm_env sample_config recovering_fence [] []) [] p"
proof -
  have list: "steps p (invoke (co_list_stable (en_coord calm_env) ''rag'' recovering_fence [] 100) cl) empty_page p" for cl
    unfolding calm_op_simps by (rule steps_op) (simp add: calm_list_stable)
  show ?thesis
    unfolding One_nat_def load_stored_pages.simps sample_config_fields
    by (rule steps_seq, rule steps_renew, rule steps_seq, rule list, rule steps_seq, rule steps_raise, simp add: empty_page_fields join_err_def,
        unfold empty_page_fields if_True add_stored.simps, rule steps_seq, rule steps_of_result, rule steps_seq, rule steps_renew,
        rule steps_seq, rule steps_page, rule steps_ret)
qed

lemma steps_order: "steps p (range_map calm_env []) [] p"
  unfolding range_map_def calm_env_simps
  by (rule steps_seq, rule steps_rest(2)) (simp add: in_order_def steps_ret)

lemma steps_stable: "steps p (reconcile_recovery_stable hex_digest 1 calm_env sample_config recovering_fence hw) 0 p"
  unfolding reconcile_recovery_stable_def
  by (rule steps_seq, rule steps_pages(4), rule steps_seq, rule steps_stored, rule steps_seq, rule steps_order)
    (simp add: stale_refs_def missing_leases_def, rule steps_seq, rule steps_ret, rule steps_seq, rule steps_order,
      simp, rule steps_seq, rule steps_ret, rule steps_seq, rule steps_rest(3), rule steps_ret)

lemma steps_inspect:
  fixes p
  defines "c0 \<equiv> completed\<lparr> progress := p \<rparr>"
  shows "steps p (inspect_recovery_fence calm_env ''rag'' recovering_fence) (stored_progress recovering_fence c0) p"
proof -
  let ?snap = "\<lparr> cs_state = ''RECOVERING'', cs_epoch = rf_epoch recovering_fence, cs_version = 1, cs_writer = rf_writer recovering_fence,
    cs_kind = rf_kind recovering_fence, cs_operation = rf_operation recovering_fence, cs_last_id = ctl c0 ''last_completed_operation_id'',
    cs_last_kind = ctl c0 ''last_completed_operation_kind'', cs_progress = Some (stored_progress recovering_fence c0) \<rparr>"
  have "steps p (invoke (co_inspect (en_coord calm_env) ''rag'' (rf_owner recovering_fence)) (RInspect ''rag'' (rf_owner recovering_fence)))
      (Some ?snap) p"
    unfolding calm_op_simps
  proof (rule steps_op)
    fix c assume c: "calm p c"
    then have "prog c = prog c0" "ctl c = ctl c0" by (simp_all add: calm_def c0_def prog_def ctl_def fun_eq_iff)
    then have "stored_progress recovering_fence c = stored_progress recovering_fence c0"
      "ctl c ''last_completed_operation_id'' = ctl c0 ''last_completed_operation_id''"
      "ctl c ''last_completed_operation_kind'' = ctl c0 ''last_completed_operation_kind''"
      by (simp_all add: stored_progress_def pass_of_def)
    with inspected_snapshot [OF _ sample_mutation_keys(2), of sample_version 2000 c] c
    show "\<exists>d. inspect_recovery_start sample_version Delivered 2000 ''bk:'' ''rag'' (rf_owner recovering_fence) c = (Inr (Some ?snap), d) \<and> calm p d"
      by (auto simp: calm_def)
  qed
  then show ?thesis
    unfolding inspect_recovery_fence_def
    by (intro steps_seq [OF steps_renew]) (erule steps_seq, simp, rule steps_seq, rule steps_renew, rule steps_ret)
qed

lemma steps_high_water:
  assumes "field p ''high_water'' = ''h1''"
  shows "steps p (recovery_high_water calm_env sample_config recovering_fence) ''h1'' p"
proof -
  have hw: "rp_high_water (stored_progress recovering_fence (completed\<lparr> progress := p \<rparr>)) = ''h1''"
    using assms by (simp add: stored_progress_def prog_def field_def)
  have "validate_high_water ''h1'' = None" by code_simp
  with hw show ?thesis
    unfolding recovery_high_water_def sample_config_fields
    by - (rule steps_seq, rule steps_inspect, rule steps_seq, simp, rule steps_ret, rule steps_seq, rule steps_raise, simp add: join_err_def, simp add: steps_ret)
qed

lemma steps_rebuild:
  assumes "field p ''high_water'' = ''h1''" and m: "marked p PassKnownTenants ''1''" "marked p PassDispatched ''1''" "marked p PassRunning ''1''"
  shows "steps p (rebuild_body hex_digest 1 calm_env sample_config recovering_fence) ()
    (hset (mark_fields PassDispatched ''2'') (hset (mark_fields PassKnownTenants ''2'') p))"
proof -
  have converge: "steps p (converge_running hex_digest 1 1 calm_env sample_config recovering_fence ''h1'' 1) 1 p"
    unfolding One_nat_def converge_running.simps
    by (rule steps_seq, rule steps_stable [unfolded One_nat_def], rule steps_seq, rule steps_marks(1) [OF m(3)]) (simp add: steps_ret)
  have known1: "steps p (restore_known_recovery 1 calm_env sample_config recovering_fence ''h1'' 1) () p"
    and dispatched1: "steps p (restore_dispatched_recovery 1 calm_env sample_config recovering_fence ''h1'' 1) () p"
    unfolding restore_known_recovery_def restore_dispatched_recovery_def
    by (rule steps_seq, rule steps_pages(1), rule steps_marks(1), rule m(1))
      (rule steps_seq, rule steps_pages(2), rule steps_marks(1), rule m(2))
  let ?p = "hset (mark_fields PassKnownTenants ''2'') p"
  have last: "steps p (restore_known_recovery 1 calm_env sample_config recovering_fence ''h1'' 2) () ?p"
    "steps ?p (restore_dispatched_recovery 1 calm_env sample_config recovering_fence ''h1'' 2) () (hset (mark_fields PassDispatched ''2'') ?p)"
    unfolding restore_known_recovery_def restore_dispatched_recovery_def
    by (rule steps_seq, rule steps_pages(1), rule steps_marks(2), rule m(1))
      (rule steps_seq, rule steps_pages(2), rule steps_marks(2), rule marked_other, simp, rule m(2))
  have two: "(1 :: 64 word) + 1 = 2" "(1 :: 64 word) \<noteq> - 1" by simp_all
  show ?thesis
    unfolding rebuild_body_def sample_config_fields
    by (rule steps_seq, rule steps_drain, rule steps_seq, rule steps_leases, rule steps_seq, rule steps_high_water, rule assms,
        rule steps_seq, rule steps_reset, rule steps_seq, rule steps_delete, rule steps_seq, rule known1, rule steps_seq, rule steps_pages,
        rule steps_seq, rule dispatched1, rule steps_seq, rule converge)
      (simp only: two if_False, rule steps_seq, rule last(1), rule last(2))
qed

lemma steps_run:
  assumes "steps p (rebuild_body hex_digest 1 calm_env sample_config recovering_fence) () q"
  shows "steps p (run_recovery hex_digest 1 calm_env sample_config recovering_fence) () q"
proof -
  have fence: "as_sentinel ErrInvalidModel (validate_recovery_fence recovering_fence) = None"
    by (simp add: sample_fences_valid)
  show ?thesis
    unfolding run_recovery_def with_recovery_renewal_def sample_config_fields calm_env_simps
    by (rule steps_seq, rule steps_raise, rule sample_config_valid, rule steps_seq, rule steps_raise, rule fence, rule steps_seq, rule steps_seq,
        rule steps_renew, rule steps_seq, rule steps_attempt, rule assms, rule steps_seq, rule steps_rest(1), rule steps_of_result,
        rule steps_seq, rule steps_rest(3), rule steps_rest(3))
qed

subsection \<open>Witnesses\<close>

lemma completed_marks: "marked (progress completed) q ''1''" "field (progress completed) ''high_water'' = ''h1''"
proof -
  have m: "map_of (progress completed) = (map_of (progress recovering))(''high_water'' \<mapsto> ''h1'', ''known_cycle'' \<mapsto> ''1'',
      ''known_complete'' \<mapsto> ''1'', ''dispatched_cycle'' \<mapsto> ''1'', ''dispatched_complete'' \<mapsto> ''1'', ''running_cycle'' \<mapsto> ''1'',
      ''running_complete'' \<mapsto> ''1'')"
    by (rule ext) (simp add: completed_def map_of_hset)
  note f = fresh_progress_fields [of "sample_args NORMAL [] 0" 1000 "[]" "''NONE''" locked_start,
      unfolded sample_args_facts(2-4), folded recovering_def]
  show "marked (progress completed) q ''1''"
    by (cases q) (simp_all add: marked_def field_def m f pass_prefix_def)
  show "field (progress completed) ''high_water'' = ''h1''" by (simp add: field_def m)
qed

definition emptied :: coord where
  "emptied = completed\<lparr> provisional := [], processing_turns := [], stable_index := [] \<rparr>"

lemma emptied_calm: "calm (progress completed) emptied"
proof -
  have wt: "wrong_type completed = {}"
    by (simp add: completed_def recovering_def begin_frame(2) locked_start_def two_waiting_def sample_start_def)
  have "check_recovery sample_version 2000 recovering_fence emptied = None"
    using check_recovery_cong [of emptied completed] completed_checks(1) by (simp add: emptied_def)
  then show ?thesis by (simp add: calm_def emptied_def wt)
qed

lemma calm_bystanders: "bystanders calm_side"
  by (simp add: bystanders_def calm_side_def)

lemma rebuild_returns:
  obtains d l where "run_state (run_recovery hex_digest 1 calm_env sample_config recovering_fence) ((emptied, ()), []) = (Ret (), ((d, ()), l))"
proof -
  note run = steps_run [OF steps_rebuild [OF completed_marks(2) completed_marks(1) completed_marks(1) completed_marks(1)]]
  have "calmly (progress completed) ((emptied, ()), [])" using emptied_calm by (simp add: calmly_def)
  with run obtain t where "run_state (run_recovery hex_digest 1 calm_env sample_config recovering_fence) ((emptied, ()), []) = (Ret (), t)"
    unfolding steps_def by blast
  then show thesis using that by (metis prod.collapse unit.exhaust)
qed

theorem rebuild_completes_once_witness:
  "\<exists>d l. run_state (run_recovery hex_digest 1 calm_env sample_config recovering_fence) ((emptied, ()), []) = (Ret (), ((d, ()), l))
     \<and> interrupted (settings d)
     \<and> (\<forall>v. fst (run_state (run_recovery hex_digest 1 calm_env sample_config recovering_fence) ((d, ()), [])) \<noteq> Ret v)"
proof -
  obtain d l where run: "run_state (run_recovery hex_digest 1 calm_env sample_config recovering_fence) ((emptied, ()), []) = (Ret (), ((d, ()), l))"
    by (rule rebuild_returns)
  obtain r t where again: "run_state (run_recovery hex_digest 1 calm_env sample_config recovering_fence) ((d, ()), []) = (r, t)"
    by (metis prod.exhaust)
  from rebuild_completes_once [OF calm_bystanders calm_bystanders run [unfolded calm_env_def] again [unfolded calm_env_def]] run again
  show ?thesis by (auto simp: recovering_fence_def)
qed

theorem interrupted_recovery_never_ready_witness:
  "\<exists>d. interrupted (settings d)
     \<and> (\<forall>f. fst (run_state (ensure_resource_ready hex_digest 1 calm_env sample_config sample_writer) ((d, ()), [])) \<noteq> Ret f)"
proof -
  obtain d l where run: "run_state (run_recovery hex_digest 1 calm_env sample_config recovering_fence) ((emptied, ()), []) = (Ret (), ((d, ()), l))"
    by (rule rebuild_returns)
  have "run_inv (\<lambda>_. True) [] ((emptied, ()), [])" by (simp add: closed_since_def)
  from tripleD [OF run_rebuilt [OF calm_bystanders] this run [unfolded calm_env_def]]
  have d: "interrupted (settings d)"
    by (simp add: run_inv_def on_coord_def interrupted_def fenced_by_def rebuilt_stuck recovering_fence_def)
  obtain r t where "run_state (ensure_resource_ready hex_digest 1 calm_env sample_config sample_writer) ((d, ()), []) = (r, t)"
    by (metis prod.exhaust)
  moreover obtain e y k where "t = ((e, y), k)" by (metis prod.collapse)
  ultimately have "run_state (ensure_resource_ready hex_digest 1 (redis_env sample_version hex_digest ''bk:'' calm_side calm_base) sample_config
      sample_writer) ((d, ()), []) = (r, ((e, y), k))" by (simp add: calm_env_def)
  from interrupted_recovery_never_ready [OF _ d this] d this show ?thesis by (auto simp: calm_side_def calm_env_def)
qed

theorem marks_keep_types_witness:
  "\<exists>d. mark_recovery_pass sample_version Delivered 2000 ''bk:'' ''rag'' recovering_fence PassKnownTenants (2 ^ 63) True 0 emptied = (Inr (), d)
     \<and> check_recovery sample_version 2000 recovering_fence d = Some CORRUPT"
proof -
  have big: "unat (2 ^ 63 :: 64 word) = 2 ^ 63" "(2 ^ 63 :: 64 word) \<noteq> 0" by simp_all
  note calm = emptied_calm and marks = completed_marks(1) [of PassKnownTenants]
  define d where "d = set_progress [(''known_cycle'', format_uint (2 ^ 63)), (''known_complete'', ''1''), (''known_diff'', ''0'')] emptied"
  have "2 \<le> lua_number (format_uint (2 ^ 63))"
    using lua_double_at_least_two [of "2 ^ 63"] by (simp add: lua_number_def digits_value_format_uint)
  then have mark: "mark_recovery_pass sample_version Delivered 2000 ''bk:'' ''rag'' recovering_fence PassKnownTenants (2 ^ 63) True 0 emptied = (Inr (), d)"
    using marks by (simp add: mark_recovery_pass_def sample_mutation_keys redis_call_delivered no_failure lua_mark_pass_def big d_def
      calm_fenced [OF calm] calm_field [OF calm] marked_def numerals format_uint_zero Let_def pass_prefix_def)
  have "prog emptied ''known_cycle'' = ''1''" using marks by (simp add: marked_def calm_field [OF calm] pass_prefix_def)
  moreover have "prog d ''known_cycle'' = format_uint (2 ^ 63)" by (simp add: d_def set_progress_fields)
  moreover have "format_uint (2 ^ 63) \<noteq> ''1''" using digits_value_format_uint [of "2 ^ 63"] digits_value_format_uint [of "Suc 0"] formats(1) by auto
  ultimately have "d \<noteq> emptied" by metis
  with marks_keep_types [OF mark] mark show ?thesis by (simp add: big max_int64_def)
qed

subsection \<open>A MySQL of two pages of tenants\<close>

definition two_pages :: "string \<Rightarrow> string recovery_page" where
  "two_pages after =
     (if after = [] then \<lparr> page_items = [''tenant-a''], page_next = ''tenant-a'', page_done = False \<rparr>
      else \<lparr> page_items = [''tenant-b''], page_next = [], page_done = True \<rparr>)"

definition paging_base :: "unit rec_env" where
  "paging_base = calm_base\<lparr> en_source := (en_source calm_base)\<lparr> so_known := \<lambda>_ after _. say (Inr (two_pages after)) \<rparr> \<rparr>"

definition pages_left :: "string \<Rightarrow> nat" where
  "pages_left after = (if after = [] then 1 else 0)"

lemma paging_sources:
  "keyset pages_left (\<lambda>a. so_known (en_source paging_base) hw a sz)" "keyset pages_left (\<lambda>a. so_dispatched (en_source paging_base) hw a sz)"
  "keyset pages_left (\<lambda>a. so_running (en_source paging_base) hw a sz)"
  by (auto simp: keyset_def paging_base_def calm_base_def two_pages_def pages_left_def empty_page_def)

theorem recovery_passes_end_witness:
  "fst (run_state (restore_known_recovery 4 (redis_env sample_version hex_digest ''bk:'' calm_side paging_base) sample_config
     recovering_fence ''h1'' 1) ((emptied, ()), [])) \<noteq> Cut"
proof -
  have "rc_global sample_config = 2" by (rule sample_config_fields)
  with recovery_passes_end [OF refl paging_sources, of 4 sample_config] show ?thesis
    by (simp add: pages_left_def)
qed

end
