(* ===== verification/Fq_Journal_Store.thy ===== *)
theory Fq_Journal_Store
  imports Fq_Journal "HOL-Library.State_Monad"
begin

text \<open>
  The operation journal in MySQL (\<^verbatim>\<open>store/fairqueue_operation.go\<close>): one row per resource, changed by
  compare-and-swap. The state is the row of one resource with a world of which the code sees what its statements
  return: faults of the connection, the clock of the server, whether a commit is acknowledged and whether it is
  applied, and what other sessions commit before a statement. From the \<open>UPDATE\<close> or \<open>INSERT\<close> of a transaction to its
  end the row is locked.
\<close>

subsection \<open>Records\<close>

text \<open>\<open>FairQueueOperationRecord\<close> has the fields of \<open>operation_record\<close>; the kinds and phases are those strings.\<close>

record proposal =
  pr_resource :: string
  pr_id :: string
  pr_kind :: string
  pr_current :: string
  pr_original :: string
  pr_target :: string
  pr_force :: "(int \<times> bool) option"

definition store_resource_ok :: "string \<Rightarrow> bool" where
  "store_resource_ok r \<longleftrightarrow> r \<noteq> [] \<and> length r \<le> 120 \<and> \<not> has_surrounding_space r \<and> resource_pattern r"

definition store_high_water_ok :: "string \<Rightarrow> bool" where
  "store_high_water_ok h \<longleftrightarrow> h \<noteq> [] \<and> length h \<le> 191 \<and> \<not> has_surrounding_space h
     \<and> list_all (\<lambda>c. 32 \<le> byte_of c \<and> byte_of c \<le> 126) h"

definition store_force_ok :: "(int \<times> bool) option \<Rightarrow> bool" where
  "store_force_ok v \<longleftrightarrow> (case v of None \<Rightarrow> False | Some (t, utc) \<Rightarrow> t \<noteq> go_zero_time \<and> utc \<and> (t mod 1000000000) mod 1000000 = 0)"

definition store_proposal_ok :: "proposal \<Rightarrow> bool" where
  "store_proposal_ok p \<longleftrightarrow>
     store_resource_ok (pr_resource p) \<and> lower_hex 32 (pr_id p) \<and> lower_hex 64 (pr_current p) \<and>
     (if pr_kind p = RABBIT_REPAIR then pr_original p = [] \<and> pr_target p = [] \<and> pr_force p = None
      else if pr_kind p = WRITER_REBIND then
        lower_hex 64 (pr_original p) \<and> lower_hex 64 (pr_target p) \<and> pr_original p \<noteq> pr_target p \<and> pr_current p = pr_target p
          \<and> pr_force p = None
      else if pr_kind p = FORCE_REBUILD then pr_original p = [] \<and> pr_target p = [] \<and> store_force_ok (pr_force p)
      else False)"

definition proposal_of :: "operation_record \<Rightarrow> proposal" where
  "proposal_of r = \<lparr> pr_resource = op_resource r, pr_id = op_id r, pr_kind = op_kind r, pr_current = op_current_writer r,
     pr_original = op_original_writer r, pr_target = op_target_writer r, pr_force = op_force_not_before r \<rparr>"

definition store_record_ok :: "operation_record \<Rightarrow> bool" where
  "store_record_ok r \<longleftrightarrow>
     store_proposal_ok (proposal_of r) \<and> op_version r > 0 \<and> op_created r \<noteq> go_zero_time \<and> op_updated r \<noteq> go_zero_time
     \<and> op_updated r \<ge> op_created r \<and> op_phase r \<in> {ACTIVE, READY_COMMITTED, COMPLETED}
     \<and> (case op_repair_high_water r of None \<Rightarrow> True | Some h \<Rightarrow> store_high_water_ok h)
     \<and> (if op_kind r = RABBIT_REPAIR then \<not> op_force_complete r \<and> (op_repair_complete r \<longrightarrow> op_repair_high_water r \<noteq> None)
        else if op_kind r = WRITER_REBIND then op_repair_high_water r = None \<and> \<not> op_repair_complete r \<and> \<not> op_force_complete r
        else op_repair_high_water r = None \<and> \<not> op_repair_complete r)
     \<and> (op_phase r \<noteq> ACTIVE \<longrightarrow>
          (op_kind r = RABBIT_REPAIR \<longrightarrow> op_repair_high_water r \<noteq> None \<and> op_repair_complete r)
          \<and> (op_kind r = FORCE_REBUILD \<longrightarrow> op_force_complete r))"

text \<open>\<open>normalizeFairQueueMySQLTime\<close>: UTC, cut to microseconds\<close>

definition mysql_time :: "int \<times> bool \<Rightarrow> int \<times> bool" where
  "mysql_time v = (fst v - fst v mod 1000, True)"

definition equal_time :: "(int \<times> bool) option \<Rightarrow> (int \<times> bool) option \<Rightarrow> bool" where
  "equal_time a b \<longleftrightarrow> map_option mysql_time a = map_option mysql_time b"

definition normalize_proposal :: "proposal \<Rightarrow> proposal" where
  "normalize_proposal p = p\<lparr> pr_force := map_option mysql_time (pr_force p) \<rparr>"

definition proposal_matches :: "proposal \<Rightarrow> operation_record \<Rightarrow> bool" where
  "proposal_matches p r \<longleftrightarrow> pr_resource p = op_resource r \<and> pr_id p = op_id r \<and> pr_kind p = op_kind r
     \<and> pr_current p = op_current_writer r \<and> pr_original p = op_original_writer r \<and> pr_target p = op_target_writer r
     \<and> equal_time (pr_force p) (op_force_not_before r)"

definition same_identity :: "operation_record \<Rightarrow> operation_record \<Rightarrow> bool" where
  "same_identity e r \<longleftrightarrow> op_resource e = op_resource r \<and> op_id e = op_id r \<and> op_kind e = op_kind r
     \<and> op_current_writer e = op_current_writer r \<and> op_original_writer e = op_original_writer r
     \<and> op_target_writer e = op_target_writer r \<and> equal_time (op_force_not_before e) (op_force_not_before r)"

definition phase_rank :: "string \<Rightarrow> nat" where
  "phase_rank p = (if p = ACTIVE then 1 else if p = READY_COMMITTED then 2 else if p = COMPLETED then 3 else 0)"

definition monotonic_from :: "operation_record \<Rightarrow> operation_record \<Rightarrow> bool" where
  "monotonic_from e r \<longleftrightarrow> same_identity e r \<and> op_version r \<ge> op_version e \<and> phase_rank (op_phase r) \<ge> phase_rank (op_phase e)
     \<and> (op_repair_high_water e \<noteq> None \<longrightarrow> op_repair_high_water r = op_repair_high_water e)
     \<and> (op_repair_complete e \<longrightarrow> op_repair_complete r) \<and> (op_force_complete e \<longrightarrow> op_force_complete r)"

definition cas_matches :: "operation_record \<Rightarrow> operation_record \<Rightarrow> bool" where
  "cas_matches a b \<longleftrightarrow> same_identity a b \<and> op_phase a = op_phase b \<and> op_repair_high_water a = op_repair_high_water b
     \<and> op_repair_complete a = op_repair_complete b \<and> op_force_complete a = op_force_complete b \<and> op_version a = op_version b"

subsection \<open>Statements\<close>

text \<open>Errors of the store; those of the driver carry the sentinels of the context.\<close>

datatype store_err = StoreWriterMismatch | StoreUnsafe | StoreStartLock | StoreInvalid | StoreConflict | StoreFair sentinel

type_synonym 'a stored = "store_err list + 'a"

record 'w sql_env =
  sq_verify :: "('w, store_err list option) state"
  sq_fault :: "('w, sentinel list option) state"
  sq_others :: "'w \<Rightarrow> operation_record option \<Rightarrow> operation_record option"
  sq_now :: "'w \<Rightarrow> int"
  sq_commit :: "('w, bool \<times> bool) state"
  sq_enter :: "string \<Rightarrow> ('w, store_err list option) state"
  sq_leave :: "store_err list option \<Rightarrow> ('w, store_err list option) state"

type_synonym ('w, 'a) sql = "(operation_record option \<times> 'w, 'a stored) state"

definition yields :: "'a \<Rightarrow> ('w, 'a) sql" where
  "yields x = State_Monad.return (Inr x)"

definition no :: "store_err list \<Rightarrow> ('w, 'a) sql" where
  "no e = State_Monad.return (Inl e)"

definition andalso :: "('w, 'a) sql \<Rightarrow> ('a \<Rightarrow> ('w, 'b) sql) \<Rightarrow> ('w, 'b) sql" where
  "andalso m f = State_Monad.bind m (\<lambda>r. case r of Inl e \<Rightarrow> no e | Inr x \<Rightarrow> f x)"

text \<open>\<open>verifyExpectedWriter\<close>, and what happens when a pinned connection is taken and given back\<close>

definition outside :: "('w, store_err list option) state \<Rightarrow> ('w, unit) sql" where
  "outside op = State (\<lambda>(row, w). case run_state op w of (e, w') \<Rightarrow> (case e of None \<Rightarrow> Inr () | Some es \<Rightarrow> Inl es, (row, w')))"

text \<open>A statement outside a transaction comes after whatever others have committed.\<close>

definition statement :: "'w sql_env \<Rightarrow> (int \<Rightarrow> operation_record option \<Rightarrow> 'a stored) \<Rightarrow> ('w, 'a) sql" where
  "statement env f = State (\<lambda>(row, w). case run_state (sq_fault env) w of (fault, w') \<Rightarrow>
     let row' = sq_others env w row
     in (case fault of Some e \<Rightarrow> Inl (map StoreFair e) | None \<Rightarrow> f (sq_now env w) row', (row', w')))"

definition held :: "'w sql_env \<Rightarrow> 'a stored \<Rightarrow> ('w, 'a) sql" where
  "held env r = State (\<lambda>(row, w). case run_state (sq_fault env) w of (fault, w') \<Rightarrow>
     (case fault of Some e \<Rightarrow> Inl (map StoreFair e) | None \<Rightarrow> r, (row, w')))"

definition scan_record :: "operation_record \<Rightarrow> operation_record stored" where
  "scan_record r = (if store_record_ok r then Inr r else Inl [StoreInvalid])"

definition read_operation :: "'w sql_env \<Rightarrow> ('w, operation_record option) sql" where
  "read_operation env = statement env (\<lambda>_ row. case row of None \<Rightarrow> Inr None | Some r \<Rightarrow> map_sum id Some (scan_record r))"

definition commit :: "'w sql_env \<Rightarrow> operation_record \<Rightarrow> ('w, operation_record) sql" where
  "commit env new = State (\<lambda>(row, w). case run_state (sq_commit env) w of ((acknowledged, applied), w') \<Rightarrow>
     (if acknowledged then Inr new else Inl [StoreUnsafe], (if acknowledged \<or> applied then Some new else row, w')))"

text \<open>A transaction that writes the row: \<open>None\<close> if the statement matched no row. \<open>accept\<close> is what the row read back must satisfy.\<close>

definition write_tx ::
  "'w sql_env \<Rightarrow> (int \<Rightarrow> operation_record option \<Rightarrow> operation_record option stored) \<Rightarrow> (operation_record \<Rightarrow> bool)
   \<Rightarrow> ('w, operation_record option) sql" where
  "write_tx env change accept =
     andalso (held env (Inr ())) (\<lambda>_.
     andalso (statement env change) (\<lambda>written. case written of
       None \<Rightarrow> yields None
     | Some new \<Rightarrow>
         andalso (outside (sq_verify env)) (\<lambda>_.
         andalso (State_Monad.bind (held env (scan_record new)) (\<lambda>r. case r of
             Inl e \<Rightarrow> no (StoreConflict # e)
           | Inr rec \<Rightarrow> if accept rec then yields rec else no [StoreConflict])) (\<lambda>rec.
         andalso (outside (sq_verify env)) (\<lambda>_.
         andalso (commit env rec) (\<lambda>rec. yields (Some rec)))))))"

subsection \<open>Compare and swap\<close>

definition expected_where :: "operation_record \<Rightarrow> operation_record \<Rightarrow> bool" where
  "expected_where e r \<longleftrightarrow> op_resource r = op_resource e \<and> op_id r = op_id e \<and> op_kind r = op_kind e \<and> op_phase r = op_phase e
     \<and> op_current_writer r = op_current_writer e \<and> op_original_writer r = op_original_writer e
     \<and> op_target_writer r = op_target_writer e \<and> op_repair_high_water r = op_repair_high_water e
     \<and> op_repair_complete r = op_repair_complete e
     \<and> map_option fst (op_force_not_before r) = map_option (fst \<circ> mysql_time) (op_force_not_before e)
     \<and> op_force_complete r = op_force_complete e \<and> op_version r = op_version e"

definition valid_outcome :: "operation_record \<Rightarrow> operation_record \<Rightarrow> bool" where
  "valid_outcome e r \<longleftrightarrow> monotonic_from e r \<or> (op_phase e = COMPLETED \<and> op_resource r = op_resource e \<and> op_id r \<noteq> op_id e)"

text \<open>The server refuses a version that does not fit into 64 bits.\<close>

definition bump :: "int \<Rightarrow> (operation_record \<Rightarrow> operation_record) \<Rightarrow> operation_record \<Rightarrow> operation_record option stored" where
  "bump now assign r =
     (if op_version r \<ge> int max_int64 then Inl []
      else Inr (Some (assign (r\<lparr> op_version := op_version r + 1, op_updated := now \<rparr>))))"

definition update_expected ::
  "'w sql_env \<Rightarrow> string \<Rightarrow> operation_record \<Rightarrow> (int \<Rightarrow> operation_record \<Rightarrow> operation_record) \<Rightarrow> (operation_record \<Rightarrow> bool)
   \<Rightarrow> ('w, operation_record) sql" where
  "update_expected env writer expected assign desired =
     (let done = (\<lambda>r. desired r \<and> valid_outcome expected r)
      in if \<not> store_record_ok expected \<or> op_current_writer expected \<noteq> writer then no [StoreInvalid]
         else
           andalso (outside (sq_verify env)) (\<lambda>_.
           andalso (read_operation env) (\<lambda>found. case found of
             None \<Rightarrow> no [StoreConflict]
           | Some current \<Rightarrow>
               if done current then yields current
               else if \<not> cas_matches expected current then no [StoreConflict]
               else
                 andalso (write_tx env
                   (\<lambda>now row. case row of
                      Some r \<Rightarrow> if expected_where expected r then bump now (assign now) r else Inr None
                    | None \<Rightarrow> Inr None) done) (\<lambda>written. case written of
                   Some r \<Rightarrow> yields r
                 | None \<Rightarrow>
                     State_Monad.bind (read_operation env) (\<lambda>r. case r of
                       Inl e \<Rightarrow> no (StoreConflict # e)
                     | Inr (Some r) \<Rightarrow> if done r then yields r else no [StoreConflict]
                     | Inr None \<Rightarrow> no [StoreConflict])))))"

text \<open>\<open>insertProposal\<close>; a row that is there already is a duplicate key.\<close>

definition insert_proposal :: "'w sql_env \<Rightarrow> proposal \<Rightarrow> ('w, operation_record) sql" where
  "insert_proposal env p =
     andalso (outside (sq_verify env)) (\<lambda>_.
     andalso (write_tx env
       (\<lambda>now row. case row of
          Some _ \<Rightarrow> Inl []
        | None \<Rightarrow> Inr (Some \<lparr> op_resource = pr_resource p, op_id = pr_id p, op_kind = pr_kind p, op_phase = ACTIVE,
            op_current_writer = pr_current p, op_original_writer = pr_original p, op_target_writer = pr_target p,
            op_repair_high_water = None, op_repair_complete = False, op_force_not_before = map_option mysql_time (pr_force p),
            op_force_complete = False, op_version = 1, op_created = now, op_updated = now \<rparr>)) (\<lambda>_. True)) (\<lambda>written. case written of
       Some r \<Rightarrow> yields r
     | None \<Rightarrow> no [StoreConflict]))"

text \<open>A deferred check whose error joins the one of the body\<close>

definition deferring :: "('w, 'a) sql \<Rightarrow> (store_err list option \<Rightarrow> ('w, store_err list option) state) \<Rightarrow> ('w, 'a) sql" where
  "deferring m check =
     State_Monad.bind m (\<lambda>r.
     State_Monad.bind (outside (check (case r of Inl e \<Rightarrow> Some e | Inr _ \<Rightarrow> None))) (\<lambda>q. State_Monad.return (
       case (r, q) of (Inr x, Inr _) \<Rightarrow> Inr x | (Inl e, Inr _) \<Rightarrow> Inl e | (Inr _, Inl s) \<Rightarrow> Inl s | (Inl e, Inl s) \<Rightarrow> Inl (e @ s))))"

subsection \<open>The operations of a session\<close>

definition session_read_row :: "'w sql_env \<Rightarrow> string \<Rightarrow> ('w, operation_record option) sql" where
  "session_read_row env resource =
     (if \<not> store_resource_ok resource then no [StoreInvalid]
      else andalso (outside (sq_verify env)) (\<lambda>_. deferring (read_operation env) (\<lambda>_. sq_verify env)))"

definition replace_completed :: "proposal \<Rightarrow> int \<Rightarrow> operation_record \<Rightarrow> operation_record" where
  "replace_completed p now r = r\<lparr> op_id := pr_id p, op_kind := pr_kind p, op_phase := ACTIVE, op_current_writer := pr_current p,
     op_original_writer := pr_original p, op_target_writer := pr_target p, op_repair_high_water := None, op_repair_complete := False,
     op_force_not_before := map_option mysql_time (pr_force p), op_force_complete := False, op_created := now \<rparr>"

definition begin_row ::
  "'w sql_env \<Rightarrow> string \<Rightarrow> string \<Rightarrow> operation_record option \<Rightarrow> proposal \<Rightarrow> ('w, operation_record) sql" where
  "begin_row env resource writer expected p0 =
     (if \<not> store_proposal_ok p0 \<or> pr_resource p0 \<noteq> resource \<or> pr_current p0 \<noteq> writer then no [StoreInvalid]
      else let p = normalize_proposal p0 in
        andalso (read_operation env) (\<lambda>found.
          let resumable = (case found of None \<Rightarrow> False | Some c \<Rightarrow> proposal_matches p c \<and> op_phase c \<noteq> COMPLETED)
          in case expected of
               None \<Rightarrow> (case found of None \<Rightarrow> insert_proposal env p | Some c \<Rightarrow> if resumable then yields c else no [StoreConflict])
             | Some e \<Rightarrow>
                 if \<not> store_record_ok e then no [StoreInvalid]
                 else (case found of
                     None \<Rightarrow> no [StoreConflict]
                   | Some c \<Rightarrow>
                       if \<not> cas_matches c e then (if resumable then yields c else no [StoreConflict])
                       else if op_phase c \<noteq> COMPLETED then (if proposal_matches p c then yields c else no [StoreConflict])
                       else if pr_id p = op_id c then no [StoreConflict]
                       else update_expected env writer c (replace_completed p)
                              (\<lambda>r. proposal_matches p r \<and> op_phase r = ACTIVE))))"

definition session_begin_row ::
  "'w sql_env \<Rightarrow> string \<Rightarrow> string \<Rightarrow> operation_record option \<Rightarrow> proposal \<Rightarrow> ('w, operation_record) sql" where
  "session_begin_row env resource writer expected p =
     andalso (outside (sq_verify env)) (\<lambda>_. deferring (begin_row env resource writer expected p) (\<lambda>_. sq_verify env))"

subsection \<open>The operations of the store\<close>

text \<open>\<open>withFairQueueExpectedWriterConn\<close>\<close>

definition with_writer_conn :: "'w sql_env \<Rightarrow> string \<Rightarrow> ('w, 'a) sql \<Rightarrow> ('w, 'a) sql" where
  "with_writer_conn env writer body =
     (if \<not> lower_hex 64 writer then no [StoreWriterMismatch]
      else andalso (outside (sq_enter env writer)) (\<lambda>_. deferring body (sq_leave env)))"

definition store_read :: "'w sql_env \<Rightarrow> string \<Rightarrow> string \<Rightarrow> ('w, operation_record option) sql" where
  "store_read env resource writer =
     (if \<not> store_resource_ok resource \<or> \<not> lower_hex 64 writer then no [StoreInvalid]
      else with_writer_conn env writer (read_operation env))"

definition mutate_operation ::
  "'w sql_env \<Rightarrow> operation_record \<Rightarrow> (operation_record \<Rightarrow> operation_record) \<Rightarrow> (operation_record \<Rightarrow> bool) \<Rightarrow> ('w, operation_record) sql" where
  "mutate_operation env expected assign desired =
     with_writer_conn env (op_current_writer expected)
       (update_expected env (op_current_writer expected) expected (\<lambda>_. assign) (\<lambda>r. op_id r = op_id expected \<and> desired r))"

definition set_repair_high_water :: "'w sql_env \<Rightarrow> operation_record \<Rightarrow> string \<Rightarrow> ('w, operation_record) sql" where
  "set_repair_high_water env expected h =
     (if op_kind expected \<noteq> RABBIT_REPAIR \<or> op_phase expected \<noteq> ACTIVE
         \<or> (op_repair_high_water expected \<noteq> None \<and> op_repair_high_water expected \<noteq> Some h) \<or> \<not> store_high_water_ok h
      then no [StoreInvalid]
      else mutate_operation env expected (\<lambda>r. r\<lparr> op_repair_high_water := Some h \<rparr>) (\<lambda>r. op_repair_high_water r = Some h))"

definition mark_repair_pass :: "'w sql_env \<Rightarrow> operation_record \<Rightarrow> ('w, operation_record) sql" where
  "mark_repair_pass env expected =
     (if op_kind expected \<noteq> RABBIT_REPAIR \<or> op_phase expected \<noteq> ACTIVE \<or> op_repair_high_water expected = None then no [StoreInvalid]
      else mutate_operation env expected (\<lambda>r. r\<lparr> op_repair_complete := True \<rparr>) op_repair_complete)"

definition mark_delete_pass :: "'w sql_env \<Rightarrow> operation_record \<Rightarrow> ('w, operation_record) sql" where
  "mark_delete_pass env expected =
     (if op_kind expected \<noteq> FORCE_REBUILD \<or> op_phase expected \<noteq> ACTIVE \<or> op_force_not_before expected = None then no [StoreInvalid]
      else mutate_operation env expected (\<lambda>r. r\<lparr> op_force_complete := True \<rparr>) op_force_complete)"

definition operation_ready :: "operation_record \<Rightarrow> bool" where
  "operation_ready r \<longleftrightarrow> op_phase r = ACTIVE \<and>
     (if op_kind r = RABBIT_REPAIR then op_repair_high_water r \<noteq> None \<and> op_repair_complete r
      else if op_kind r = WRITER_REBIND then True
      else if op_kind r = FORCE_REBUILD then op_force_not_before r \<noteq> None \<and> op_force_complete r
      else False)"

definition commit_ready :: "'w sql_env \<Rightarrow> operation_record \<Rightarrow> ('w, operation_record) sql" where
  "commit_ready env expected =
     (if op_phase expected = ACTIVE \<and> \<not> operation_ready expected then no [StoreInvalid]
      else if op_phase expected \<notin> {ACTIVE, READY_COMMITTED, COMPLETED} then no [StoreInvalid]
      else mutate_operation env expected (\<lambda>r. r\<lparr> op_phase := READY_COMMITTED \<rparr>)
             (\<lambda>r. phase_rank (op_phase r) \<ge> phase_rank READY_COMMITTED))"

definition complete_operation :: "'w sql_env \<Rightarrow> operation_record \<Rightarrow> ('w, operation_record) sql" where
  "complete_operation env expected =
     (if op_phase expected \<notin> {READY_COMMITTED, COMPLETED} then no [StoreInvalid]
      else mutate_operation env expected (\<lambda>r. r\<lparr> op_phase := COMPLETED \<rparr>) (\<lambda>r. op_phase r = COMPLETED))"

end
