(* ===== verification/Fq_Journal_Props.thy ===== *)
theory Fq_Journal_Props
  imports Fq_Journal_Store
begin

text \<open>
  What the journal guarantees, however sessions interleave: the history of its row.
\<close>

subsection \<open>The history of the row\<close>

definition fresh :: "operation_record \<Rightarrow> bool" where
  "fresh r \<longleftrightarrow> op_phase r = ACTIVE \<and> op_repair_high_water r = None \<and> \<not> op_repair_complete r \<and> \<not> op_force_complete r"

inductive journal_step :: "operation_record option \<Rightarrow> operation_record option \<Rightarrow> bool" where
  started: "fresh r \<Longrightarrow> op_version r = 1 \<Longrightarrow> store_record_ok r \<Longrightarrow> journal_step None (Some r)"
| replaced: "op_phase r = COMPLETED \<Longrightarrow> fresh r' \<Longrightarrow> op_resource r' = op_resource r \<Longrightarrow> op_id r' \<noteq> op_id r
    \<Longrightarrow> op_version r' = op_version r + 1 \<Longrightarrow> store_record_ok r' \<Longrightarrow> journal_step (Some r) (Some r')"
| advanced: "monotonic_from r r' \<Longrightarrow> op_version r' = op_version r + 1 \<Longrightarrow> store_record_ok r'
    \<Longrightarrow> (op_phase r, op_phase r') \<in> {(ACTIVE, ACTIVE), (ACTIVE, READY_COMMITTED), (READY_COMMITTED, COMPLETED)}
    \<Longrightarrow> journal_step (Some r) (Some r')"

inductive_cases journal_step_Some: "journal_step (Some r) row"

abbreviation journal_path :: "operation_record option \<Rightarrow> operation_record option \<Rightarrow> bool" where
  "journal_path \<equiv> journal_step\<^sup>*\<^sup>*"

text \<open>What others commit is a path as well.\<close>

definition shared :: "'w sql_env \<Rightarrow> bool" where
  "shared env \<longleftrightarrow> (\<forall>w row. journal_path row (sq_others env w row))"

subsection \<open>Programs that follow the history\<close>

text \<open>\<open>h\<close> is the row at the start. Conditions on rows are kept along paths.\<close>

definition follows :: "operation_record option \<Rightarrow> (operation_record option \<Rightarrow> bool) \<Rightarrow> ('w, 'a) sql
   \<Rightarrow> ('a \<Rightarrow> operation_record option \<Rightarrow> bool) \<Rightarrow> bool" where
  "follows h P m Q \<longleftrightarrow> (\<forall>row w r row' w'. journal_path h row \<longrightarrow> P row \<longrightarrow> run_state m (row, w) = (r, (row', w')) \<longrightarrow>
     journal_path h row' \<and> (\<forall>x. r = Inr x \<longrightarrow> Q x row'))"

definition lasting :: "(operation_record option \<Rightarrow> bool) \<Rightarrow> bool" where
  "lasting P \<longleftrightarrow> (\<forall>row row'. P row \<longrightarrow> journal_path row row' \<longrightarrow> P row')"

lemma followsI:
  "(\<And>row w r row' w'. journal_path h row \<Longrightarrow> P row \<Longrightarrow> run_state m (row, w) = (r, (row', w')) \<Longrightarrow>
     journal_path h row' \<and> (\<forall>x. r = Inr x \<longrightarrow> Q x row')) \<Longrightarrow> follows h P m Q"
  by (simp add: follows_def)

lemma followsD:
  "follows h P m Q \<Longrightarrow> journal_path h row \<Longrightarrow> P row \<Longrightarrow> run_state m (row, w) = (r, (row', w')) \<Longrightarrow>
     journal_path h row' \<and> (\<forall>x. r = Inr x \<longrightarrow> Q x row')"
  unfolding follows_def by blast

lemma follows_ok: "(\<And>row. P row \<Longrightarrow> Q x row) \<Longrightarrow> follows h P (yields x) Q"
  by (auto simp: follows_def yields_def)

lemma follows_no: "follows h P (no e) Q"
  by (auto simp: follows_def no_def)

lemma follows_andalso:
  assumes "follows h P m R" and "\<And>x. follows h (R x) (f x) Q"
  shows "follows h P (andalso m f) Q"
proof (rule followsI)
  fix row w r row' w'
  assume start: "journal_path h row" "P row" and run: "run_state (andalso m f) (row, w) = (r, (row', w'))"
  obtain q row1 w1 where m: "run_state m (row, w) = (q, (row1, w1))" by (metis prod.exhaust)
  note mid = followsD [OF assms(1) start m]
  show "journal_path h row' \<and> (\<forall>x. r = Inr x \<longrightarrow> Q x row')"
  proof (cases q)
    case (Inl e)
    with run m mid show ?thesis by (auto simp: andalso_def no_def)
  next
    case (Inr x)
    then have "run_state (f x) (row1, w1) = (r, (row', w'))" using run m by (simp add: andalso_def)
    with mid Inr followsD [OF assms(2)] show ?thesis by blast
  qed
qed

lemma follows_outside: "(\<And>row. P row \<Longrightarrow> Q () row) \<Longrightarrow> follows h P (outside op) Q"
  by (rule followsI) (auto simp: outside_def split: prod.splits option.splits)

text \<open>A statement finds the row that others have left; the other steps of a transaction find it as it was.\<close>

lemma follows_statement:
  assumes "shared env" and "lasting P" and "\<And>now row x. P row \<Longrightarrow> journal_path h row \<Longrightarrow> f now row = Inr x \<Longrightarrow> Q x row"
  shows "follows h P (statement env f) Q"
proof (rule followsI)
  fix row w r row' w'
  assume start: "journal_path h row" "P row" and run: "run_state (statement env f) (row, w) = (r, (row', w'))"
  obtain fault v where fault: "run_state (sq_fault env) w = (fault, v)" by fastforce
  with run have row': "row' = sq_others env w row" and r: "\<And>x. r = Inr x \<Longrightarrow> f (sq_now env w) row' = Inr x"
    by (auto simp: statement_def Let_def split: option.splits)
  from row' assms(1) have path: "journal_path row row'" by (simp add: shared_def)
  with assms(2) start(2) have "P row'" by (auto simp: lasting_def)
  with r assms(3) path start(1) have "\<forall>x. r = Inr x \<longrightarrow> Q x row'" by (metis rtranclp_trans)
  with path start(1) show "journal_path h row' \<and> (\<forall>x. r = Inr x \<longrightarrow> Q x row')" by (meson rtranclp_trans)
qed

lemma follows_read:
  assumes "shared env" and "lasting P" and "P None \<Longrightarrow> Q None None"
    and "\<And>r. P (Some r) \<Longrightarrow> store_record_ok r \<Longrightarrow> journal_path h (Some r) \<Longrightarrow> Q (Some r) (Some r)"
  shows "follows h P (read_operation env) Q"
  unfolding read_operation_def
  using assms(3,4) by (intro follows_statement [OF assms(1,2)]) (auto simp: scan_record_def split: option.splits if_splits)

lemma follows_held: "(\<And>row x. P row \<Longrightarrow> r = Inr x \<Longrightarrow> Q x row) \<Longrightarrow> follows h P (held env r) Q"
  by (rule followsI) (auto simp: held_def split: prod.splits option.splits)

lemma follows_commit:
  "(\<And>row. P row \<Longrightarrow> journal_step row (Some new)) \<Longrightarrow> follows h P (commit env new) (\<lambda>r row. r = new \<and> row = Some new \<and> journal_path h row)"
  by (rule followsI) (auto simp: commit_def split: prod.splits if_splits intro: rtranclp.rtrancl_into_rtrancl)

lemma follows_bind:
  assumes "follows h P m R" and "\<And>x. follows h (R x) (f (Inr x)) Q" and "\<And>e. follows h (\<lambda>_. True) (f (Inl e)) Q"
  shows "follows h P (State_Monad.bind m f) Q"
proof (rule followsI)
  fix row w r row' w'
  assume start: "journal_path h row" "P row" and run: "run_state (State_Monad.bind m f) (row, w) = (r, (row', w'))"
  obtain q row1 w1 where m: "run_state m (row, w) = (q, (row1, w1))" by (metis prod.exhaust)
  then have f: "run_state (f q) (row1, w1) = (r, (row', w'))" using run by simp
  show "journal_path h row' \<and> (\<forall>x. r = Inr x \<longrightarrow> Q x row')"
    using followsD [OF assms(1) start m] f by (cases q) (auto dest: followsD [OF assms(2)] followsD [OF assms(3)])
qed

lemma follows_weaken: "follows h P m Q \<Longrightarrow> (\<And>row. P' row \<Longrightarrow> P row) \<Longrightarrow> (\<And>x row. Q x row \<Longrightarrow> Q' x row) \<Longrightarrow> follows h P' m Q'"
  unfolding follows_def by blast

text \<open>The path has led from \<open>h\<close> through a record.\<close>

definition passed :: "operation_record option \<Rightarrow> operation_record \<Rightarrow> operation_record option \<Rightarrow> bool" where
  "passed h r row \<longleftrightarrow> journal_path h (Some r) \<and> journal_path (Some r) row"

lemma lasting_intros: "lasting (\<lambda>_. b)" "lasting (passed h r)" "lasting P \<Longrightarrow> lasting Q \<Longrightarrow> lasting (\<lambda>row. P row \<and> Q row)"
  by (auto simp: lasting_def passed_def)

text \<open>A transaction: the row is written where it was found.\<close>

lemma follows_write:
  assumes "shared env" and "lasting P"
    and "\<And>now row new. P row \<Longrightarrow> change now row = Inr (Some new) \<Longrightarrow> store_record_ok new \<Longrightarrow> accept new \<Longrightarrow> journal_step row (Some new)"
  shows "follows h P (write_tx env change accept) (\<lambda>x row. case x of None \<Rightarrow> P row
    | Some r \<Rightarrow> (\<exists>now old. change now old = Inr (Some r)) \<and> store_record_ok r \<and> accept r \<and> passed h r row)"
proof -
  let ?S = "\<lambda>new row. store_record_ok new \<longrightarrow> accept new \<longrightarrow> journal_step row (Some new)"
  let ?C = "\<lambda>new. \<exists>now old. change now old = Inr (Some new)"
  let ?Q = "\<lambda>x row. case x of None \<Rightarrow> P row | Some r \<Rightarrow> ?C r \<and> store_record_ok r \<and> accept r \<and> passed h r row"
  have writing: "follows h (\<lambda>row. (?C new \<and> store_record_ok new \<and> accept new) \<and> ?S new row)
      (andalso (outside (sq_verify env)) (\<lambda>_. andalso (commit env new) (\<lambda>rec. yields (Some rec)))) ?Q" for new
  proof (cases "?C new \<and> store_record_ok new \<and> accept new")
    case True
    show ?thesis
      by (rule follows_andalso [OF follows_outside [where Q = "\<lambda>_. ?S new"]], simp,
          rule follows_andalso [OF follows_commit follows_ok]) (use True in \<open>auto simp: passed_def\<close>)
  next
    case False
    then have "\<not> ((?C new \<and> store_record_ok new \<and> accept new) \<and> ?S new row)" for row by blast
    then show ?thesis unfolding follows_def by blast
  qed
  have scanned: "follows h (\<lambda>row. ?C new \<and> ?S new row) (State_Monad.bind (held env (scan_record new)) (\<lambda>r. case r of
      Inl e \<Rightarrow> no (StoreConflict # e) | Inr rec \<Rightarrow> if accept rec then yields rec else no [StoreConflict]))
    (\<lambda>rec row. (?C rec \<and> store_record_ok rec \<and> accept rec) \<and> ?S rec row)" for new
    by (rule follows_bind [OF follows_held [where Q = "\<lambda>rec row. (?C rec \<and> store_record_ok rec) \<and> ?S rec row"]])
      (auto simp: scan_record_def follows_no intro: follows_ok split: if_splits)
  have found: "follows h P (statement env change) (\<lambda>x row. case x of None \<Rightarrow> P row | Some new \<Rightarrow> ?C new \<and> ?S new row)"
    by (rule follows_statement [OF assms(1,2)]) (auto split: option.split intro: assms(3))
  show ?thesis
    unfolding write_tx_def
  proof (rule follows_andalso [OF follows_held [where Q = "\<lambda>_. P"]], simp, rule follows_andalso [OF found])
    fix x
    show "follows h (\<lambda>row. case x of None \<Rightarrow> P row | Some new \<Rightarrow> ?C new \<and> ?S new row) (case x of None \<Rightarrow> yields None | Some new \<Rightarrow>
        andalso (outside (sq_verify env)) (\<lambda>_.
        andalso (State_Monad.bind (held env (scan_record new)) (\<lambda>r. case r of
            Inl e \<Rightarrow> no (StoreConflict # e) | Inr rec \<Rightarrow> if accept rec then yields rec else no [StoreConflict])) (\<lambda>rec.
        andalso (outside (sq_verify env)) (\<lambda>_. andalso (commit env rec) (\<lambda>rec. yields (Some rec)))))) ?Q"
    proof (cases x)
      case (Some new)
      show ?thesis unfolding Some option.case
        by (rule follows_andalso [OF follows_outside [where Q = "\<lambda>_ row. ?C new \<and> ?S new row"]], simp,
            rule follows_andalso [OF scanned], rule writing)
    qed (simp add: follows_ok)
  qed
qed

subsection \<open>Compare and swap\<close>

lemma follows_update:
  assumes "shared env"
    and "\<And>now r current. store_record_ok expected \<Longrightarrow> cas_matches expected current \<Longrightarrow> \<not> (desired current \<and> valid_outcome expected current)
      \<Longrightarrow> expected_where expected r \<Longrightarrow> store_record_ok (assign now (r\<lparr> op_version := op_version r + 1, op_updated := now \<rparr>))
      \<Longrightarrow> valid_outcome expected (assign now (r\<lparr> op_version := op_version r + 1, op_updated := now \<rparr>))
      \<Longrightarrow> desired (assign now (r\<lparr> op_version := op_version r + 1, op_updated := now \<rparr>))
      \<Longrightarrow> journal_step (Some r) (Some (assign now (r\<lparr> op_version := op_version r + 1, op_updated := now \<rparr>)))"
  shows "follows h (\<lambda>_. True) (update_expected env writer expected assign desired)
    (\<lambda>r row. store_record_ok r \<and> desired r \<and> valid_outcome expected r \<and> passed h r row)"
proof (cases "\<not> store_record_ok expected \<or> op_current_writer expected \<noteq> writer")
  case True
  then show ?thesis by (simp add: update_expected_def follows_no)
next
  case False
  let ?done = "\<lambda>r. desired r \<and> valid_outcome expected r"
  let ?Q = "\<lambda>r row. store_record_ok r \<and> desired r \<and> valid_outcome expected r \<and> passed h r row"
  have read: "follows h (\<lambda>_. True) (read_operation env)
      (\<lambda>x row. case x of None \<Rightarrow> True | Some r \<Rightarrow> store_record_ok r \<and> passed h r row)"
    by (rule follows_read [OF assms(1)]) (auto simp: lasting_intros passed_def)
  have write_row: "follows h (\<lambda>_. True) (write_tx env
        (\<lambda>now row. case row of Some r \<Rightarrow> if expected_where expected r then bump now (assign now) r else Inr None | None \<Rightarrow> Inr None) ?done)
      (\<lambda>x row. case x of None \<Rightarrow> True | Some r \<Rightarrow> ?Q r row)"
    if "cas_matches expected current" "\<not> ?done current" for current
    using follows_write [OF assms(1) lasting_intros(1) [where b = True], of
        "\<lambda>now row. case row of Some r \<Rightarrow> if expected_where expected r then bump now (assign now) r else Inr None | None \<Rightarrow> Inr None" ?done h]
      assms(2) [OF _ that] False
    by (fastforce intro: follows_weaken simp: bump_def split: option.splits if_splits)
  have again: "follows h (\<lambda>_. True) (State_Monad.bind (read_operation env) (\<lambda>r. case r of
      Inl e \<Rightarrow> no (StoreConflict # e) | Inr (Some r) \<Rightarrow> if ?done r then yields r else no [StoreConflict] | Inr None \<Rightarrow> no [StoreConflict])) ?Q"
    by (rule follows_bind [OF read]) (auto simp: follows_no split: option.split intro: follows_ok)
  have swap: "follows h (\<lambda>row. store_record_ok current \<and> passed h current row) (if ?done current then yields current
      else if \<not> cas_matches expected current then no [StoreConflict]
      else andalso (write_tx env
          (\<lambda>now row. case row of Some r \<Rightarrow> if expected_where expected r then bump now (assign now) r else Inr None | None \<Rightarrow> Inr None) ?done)
        (\<lambda>written. case written of Some r \<Rightarrow> yields r | None \<Rightarrow> State_Monad.bind (read_operation env) (\<lambda>r. case r of
            Inl e \<Rightarrow> no (StoreConflict # e)
          | Inr (Some r) \<Rightarrow> if ?done r then yields r else no [StoreConflict] | Inr None \<Rightarrow> no [StoreConflict]))) ?Q" for current
  proof -
    have "follows h (\<lambda>_. True) (andalso (write_tx env
          (\<lambda>now row. case row of Some r \<Rightarrow> if expected_where expected r then bump now (assign now) r else Inr None | None \<Rightarrow> Inr None) ?done)
        (\<lambda>written. case written of Some r \<Rightarrow> yields r | None \<Rightarrow> State_Monad.bind (read_operation env) (\<lambda>r. case r of
            Inl e \<Rightarrow> no (StoreConflict # e)
          | Inr (Some r) \<Rightarrow> if ?done r then yields r else no [StoreConflict] | Inr None \<Rightarrow> no [StoreConflict]))) ?Q"
      if "cas_matches expected current" "\<not> ?done current"
      by (rule follows_andalso [OF write_row [OF that]]) (auto split: option.split intro: follows_ok again)
    then show ?thesis by (auto intro: follows_ok follows_no follows_weaken)
  qed
  show ?thesis
    unfolding update_expected_def Let_def if_not_P [OF False]
  proof (rule follows_andalso [OF follows_outside [where Q = "\<lambda>_ _. True"]], simp, rule follows_andalso [OF read])
    fix found
    show "follows h (\<lambda>row. case found of None \<Rightarrow> True | Some r \<Rightarrow> store_record_ok r \<and> passed h r row) (case found of
        None \<Rightarrow> no [StoreConflict]
      | Some current \<Rightarrow> if ?done current then yields current
          else if \<not> cas_matches expected current then no [StoreConflict]
          else andalso (write_tx env
              (\<lambda>now row. case row of Some r \<Rightarrow> if expected_where expected r then bump now (assign now) r else Inr None | None \<Rightarrow> Inr None) ?done)
            (\<lambda>written. case written of Some r \<Rightarrow> yields r | None \<Rightarrow> State_Monad.bind (read_operation env) (\<lambda>r. case r of
                Inl e \<Rightarrow> no (StoreConflict # e)
              | Inr (Some r) \<Rightarrow> if ?done r then yields r else no [StoreConflict] | Inr None \<Rightarrow> no [StoreConflict]))) ?Q"
      by (cases found) (simp_all only: option.case follows_no swap)
  qed
qed


lemma expected_identity: "expected_where e r \<Longrightarrow> same_identity r r' \<Longrightarrow> same_identity e r'"
  by (cases "op_force_not_before e"; cases "op_force_not_before r")
    (auto simp: expected_where_def same_identity_def equal_time_def mysql_time_def)

lemma same_identity_refl: "same_identity r r"
  by (simp add: same_identity_def equal_time_def)

lemma cas_done: "cas_matches e r \<Longrightarrow> monotonic_from e r"
  by (auto simp: cas_matches_def monotonic_from_def)

lemma follows_deferring: "follows h P m Q \<Longrightarrow> follows h P (deferring m check) Q"
proof (rule followsI)
  fix row w r row' w'
  assume m: "follows h P m Q" and start: "journal_path h row" "P row" and run: "run_state (deferring m check) (row, w) = (r, (row', w'))"
  obtain q row1 w1 where first: "run_state m (row, w) = (q, (row1, w1))" by (metis prod.exhaust)
  with run have "row' = row1" "\<And>x. r = Inr x \<Longrightarrow> q = Inr x"
    by (auto simp: deferring_def outside_def split: prod.splits option.splits sum.splits)
  with followsD [OF m start first] show "journal_path h row' \<and> (\<forall>x. r = Inr x \<longrightarrow> Q x row')" by auto
qed

lemma follows_conn: "follows h (\<lambda>_. True) m Q \<Longrightarrow> follows h (\<lambda>_. True) (with_writer_conn env writer m) Q"
  unfolding with_writer_conn_def
  by (auto intro!: follows_no follows_andalso [OF follows_outside [where Q = "\<lambda>_ _. True"]] follows_deferring)

lemma follows_if: "(b \<Longrightarrow> follows h P m Q) \<Longrightarrow> (\<not> b \<Longrightarrow> follows h P n Q) \<Longrightarrow> follows h P (if b then m else n) Q"
  by simp

text \<open>A change of the row that is a step, where the row matches the expected one\<close>

lemma follows_mutate:
  assumes "shared env"
    and "\<And>now r current. cas_matches expected current \<Longrightarrow> \<not> (op_id current = op_id expected \<and> desired current \<and> valid_outcome expected current)
      \<Longrightarrow> expected_where expected r \<Longrightarrow> store_record_ok (assign (r\<lparr> op_version := op_version r + 1, op_updated := now \<rparr>))
      \<Longrightarrow> journal_step (Some r) (Some (assign (r\<lparr> op_version := op_version r + 1, op_updated := now \<rparr>)))"
  shows "follows h (\<lambda>_. True) (mutate_operation env expected assign desired)
    (\<lambda>r row. store_record_ok r \<and> monotonic_from expected r \<and> desired r \<and> passed h r row)"
  unfolding mutate_operation_def
  by (rule follows_conn, rule follows_weaken [OF follows_update [OF assms(1)]]) (auto intro: assms(2) simp: valid_outcome_def)

lemma expected_parts:
  "expected_where e r \<Longrightarrow> op_phase r = op_phase e \<and> op_repair_high_water r = op_repair_high_water e"
  by (simp add: expected_where_def)

lemma cas_parts:
  "cas_matches e c \<Longrightarrow> op_id c = op_id e \<and> op_phase c = op_phase e \<and> valid_outcome e c"
  by (auto simp: cas_matches_def monotonic_from_def valid_outcome_def same_identity_def)

lemma bumped_steps:
  fixes r now defines "b \<equiv> r\<lparr> op_version := op_version r + 1, op_updated := now \<rparr>"
  shows "op_phase r = ACTIVE \<Longrightarrow> op_repair_high_water r \<in> {None, Some hw} \<Longrightarrow> store_record_ok (b\<lparr> op_repair_high_water := Some hw \<rparr>)
      \<Longrightarrow> journal_step (Some r) (Some (b\<lparr> op_repair_high_water := Some hw \<rparr>))"
    "op_phase r = ACTIVE \<Longrightarrow> store_record_ok (b\<lparr> op_repair_complete := True \<rparr>) \<Longrightarrow> journal_step (Some r) (Some (b\<lparr> op_repair_complete := True \<rparr>))"
    "op_phase r = ACTIVE \<Longrightarrow> store_record_ok (b\<lparr> op_force_complete := True \<rparr>) \<Longrightarrow> journal_step (Some r) (Some (b\<lparr> op_force_complete := True \<rparr>))"
    "op_phase r = ACTIVE \<Longrightarrow> store_record_ok (b\<lparr> op_phase := READY_COMMITTED \<rparr>) \<Longrightarrow> journal_step (Some r) (Some (b\<lparr> op_phase := READY_COMMITTED \<rparr>))"
    "op_phase r = READY_COMMITTED \<Longrightarrow> store_record_ok (b\<lparr> op_phase := COMPLETED \<rparr>) \<Longrightarrow> journal_step (Some r) (Some (b\<lparr> op_phase := COMPLETED \<rparr>))"
  unfolding b_def
  by (rule journal_step.advanced; auto simp: monotonic_from_def same_identity_def equal_time_def phase_rank_def)+

lemma operations_follow:
  assumes "shared env"
  shows "follows h (\<lambda>_. True) (set_repair_high_water env expected hw)
      (\<lambda>r row. store_record_ok r \<and> monotonic_from expected r \<and> op_repair_high_water r = Some hw \<and> passed h r row)"
    "follows h (\<lambda>_. True) (mark_repair_pass env expected)
      (\<lambda>r row. store_record_ok r \<and> monotonic_from expected r \<and> op_repair_complete r \<and> passed h r row)"
    "follows h (\<lambda>_. True) (mark_delete_pass env expected)
      (\<lambda>r row. store_record_ok r \<and> monotonic_from expected r \<and> op_force_complete r \<and> passed h r row)"
    "follows h (\<lambda>_. True) (commit_ready env expected)
      (\<lambda>r row. store_record_ok r \<and> monotonic_from expected r \<and> phase_rank (op_phase r) \<ge> phase_rank READY_COMMITTED \<and> passed h r row)"
    "follows h (\<lambda>_. True) (complete_operation env expected)
      (\<lambda>r row. store_record_ok r \<and> monotonic_from expected r \<and> op_phase r = COMPLETED \<and> passed h r row)"
  unfolding set_repair_high_water_def mark_repair_pass_def mark_delete_pass_def commit_ready_def complete_operation_def
  by (intro follows_if follows_no follows_mutate [OF assms] bumped_steps;
      (drule cas_parts expected_parts)+; auto simp: phase_rank_def)+

subsection \<open>Beginning\<close>

lemma mysql_time_idem: "mysql_time (mysql_time v) = mysql_time v"
  by (simp add: mysql_time_def)

lemma equal_time_normalized: "equal_time v (map_option mysql_time v)"
  by (cases v) (simp_all add: equal_time_def mysql_time_idem)

lemma follows_insert:
  assumes "shared env"
  shows "follows h (\<lambda>_. True) (insert_proposal env p) (\<lambda>r row. store_record_ok r \<and> proposal_matches p r \<and> op_phase r = ACTIVE \<and> passed h r row)"
  unfolding insert_proposal_def
  by (rule follows_andalso [OF follows_outside [where Q = "\<lambda>_ _. True"]], simp,
      rule follows_andalso [OF follows_write [OF assms lasting_intros(1) [where b = True]]])
    (auto simp: proposal_matches_def equal_time_normalized fresh_def follows_no split: option.splits
      intro!: follows_ok journal_step.started)

lemma follows_begin:
  assumes "shared env"
  shows "follows h (\<lambda>_. True) (session_begin_row env resource writer expected p)
    (\<lambda>r row. store_record_ok r \<and> proposal_matches (normalize_proposal p) r \<and> op_phase r \<noteq> COMPLETED \<and> passed h r row)"
proof -
  let ?p = "normalize_proposal p"
  let ?Q = "\<lambda>r row. store_record_ok r \<and> proposal_matches ?p r \<and> op_phase r \<noteq> COMPLETED \<and> passed h r row"
  have replace: "follows h (\<lambda>_. True) (update_expected env writer c (replace_completed ?p) (\<lambda>r. proposal_matches ?p r \<and> op_phase r = ACTIVE)) ?Q"
    if "op_phase c = COMPLETED" "pr_id ?p \<noteq> op_id c" for c
    by (rule follows_weaken [OF follows_update [OF assms]])
      (use that in \<open>auto simp: replace_completed_def expected_where_def fresh_def intro: journal_step.replaced\<close>)
  have read: "follows h (\<lambda>_. True) (read_operation env) (\<lambda>x row. case x of None \<Rightarrow> True | Some r \<Rightarrow> store_record_ok r \<and> passed h r row)"
    by (rule follows_read [OF assms]) (auto simp: lasting_intros passed_def)
  have "follows h (\<lambda>_. True) (begin_row env resource writer expected p) ?Q"
    unfolding begin_row_def Let_def
  proof (intro follows_if follows_no, rule follows_andalso [OF read])
    fix found
    show "follows h (\<lambda>row. case found of None \<Rightarrow> True | Some r \<Rightarrow> store_record_ok r \<and> passed h r row) (case expected of
        None \<Rightarrow> (case found of None \<Rightarrow> insert_proposal env ?p | Some c \<Rightarrow> if
          (case found of None \<Rightarrow> False | Some c \<Rightarrow> proposal_matches ?p c \<and> op_phase c \<noteq> COMPLETED) then yields c else no [StoreConflict])
      | Some e \<Rightarrow> if \<not> store_record_ok e then no [StoreInvalid] else (case found of None \<Rightarrow> no [StoreConflict]
        | Some c \<Rightarrow> if \<not> cas_matches c e then (if (case found of None \<Rightarrow> False | Some c \<Rightarrow> proposal_matches ?p c \<and> op_phase c \<noteq> COMPLETED)
              then yields c else no [StoreConflict])
            else if op_phase c \<noteq> COMPLETED then (if proposal_matches ?p c then yields c else no [StoreConflict])
            else if pr_id ?p = op_id c then no [StoreConflict]
            else update_expected env writer c (replace_completed ?p) (\<lambda>r. proposal_matches ?p r \<and> op_phase r = ACTIVE))) ?Q"
    proof (cases found)
      case None
      then show ?thesis
        by (cases expected) (auto intro: follows_no follows_weaken [OF follows_insert [OF assms]])
    next
      case (Some c)
      show ?thesis unfolding Some option.case
        by (cases expected; simp only: option.case; intro follows_if follows_no follows_ok; auto intro: follows_weaken [OF replace])
    qed
  qed
  then show ?thesis
    unfolding session_begin_row_def by (intro follows_andalso [OF follows_outside [where Q = "\<lambda>_ _. True"]] follows_deferring) simp_all
qed

subsection \<open>What the journal promises\<close>

datatype journal_op =
    JBegin string string "operation_record option" proposal
  | JSetRepair operation_record string | JMarkRepair operation_record | JMarkDelete operation_record
  | JCommit operation_record | JComplete operation_record

fun journal_run :: "'w sql_env \<Rightarrow> journal_op \<Rightarrow> ('w, operation_record) sql" where
  "journal_run env (JBegin resource writer expected p) = session_begin_row env resource writer expected p"
| "journal_run env (JSetRepair e h) = set_repair_high_water env e h"
| "journal_run env (JMarkRepair e) = mark_repair_pass env e"
| "journal_run env (JMarkDelete e) = mark_delete_pass env e"
| "journal_run env (JCommit e) = commit_ready env e"
| "journal_run env (JComplete e) = complete_operation env e"

fun promised :: "journal_op \<Rightarrow> operation_record \<Rightarrow> bool" where
  "promised (JBegin resource writer expected p) r \<longleftrightarrow> proposal_matches (normalize_proposal p) r \<and> op_phase r \<noteq> COMPLETED"
| "promised (JSetRepair e h) r \<longleftrightarrow> monotonic_from e r \<and> op_repair_high_water r = Some h"
| "promised (JMarkRepair e) r \<longleftrightarrow> monotonic_from e r \<and> op_repair_complete r"
| "promised (JMarkDelete e) r \<longleftrightarrow> monotonic_from e r \<and> op_force_complete r"
| "promised (JCommit e) r \<longleftrightarrow> monotonic_from e r \<and> op_phase r \<in> {READY_COMMITTED, COMPLETED}"
| "promised (JComplete e) r \<longleftrightarrow> monotonic_from e r \<and> op_phase r = COMPLETED"

lemma journal_run_follows:
  assumes "shared env"
  shows "follows h (\<lambda>_. True) (journal_run env op) (\<lambda>r row. store_record_ok r \<and> promised op r \<and> passed h r row)"
proof -
  have "phase_rank READY_COMMITTED \<le> phase_rank q \<longleftrightarrow> q \<in> {READY_COMMITTED, COMPLETED}" for q by (auto simp: phase_rank_def)
  then show ?thesis
    using follows_begin [OF assms] operations_follow [OF assms]
    by (cases op) (auto elim!: follows_weaken)
qed

text \<open>C27: the journal is linearizable. Whatever other sessions commit before each statement, and whatever the connection and the commits
  do, the row moves along steps that create an operation, advance it, or replace a completed one. An operation that
  succeeds returns a valid record which fulfils its contract, and which was the row at a moment of the call: the path
  from the row before to the row after leads through it.\<close>

theorem journal_linearizes:
  assumes "shared env" and "run_state (journal_run env op) (row, w) = (res, (row', w'))"
  shows "journal_path row row' \<and> (\<forall>r. res = Inr r \<longrightarrow>
    store_record_ok r \<and> promised op r \<and> journal_path row (Some r) \<and> journal_path (Some r) row')"
  using followsD [OF journal_run_follows [OF assms(1)] _ _ assms(2), of row] by (auto simp: passed_def)

lemma step_version: "journal_step (Some r) row \<Longrightarrow> \<exists>r'. row = Some r' \<and> op_version r' = op_version r + 1 \<and>
    (monotonic_from r r' \<or> op_phase r = COMPLETED)"
  by (erule journal_step_Some) auto

lemma monotonic_trans: "monotonic_from a b \<Longrightarrow> monotonic_from b c \<Longrightarrow> monotonic_from a c"
  by (auto simp: monotonic_from_def same_identity_def equal_time_def)

lemma monotonic_refl: "monotonic_from r r"
  by (simp add: monotonic_from_def same_identity_refl)

lemma path_keeps:
  assumes "journal_path (Some r) row"
  shows "\<exists>r'. row = Some r' \<and> op_version r \<le> op_version r' \<and> (op_version r' = op_version r \<longrightarrow> r' = r) \<and>
    (monotonic_from r r' \<or> (\<exists>c. op_phase c = COMPLETED \<and> monotonic_from r c \<and> journal_path (Some r) (Some c) \<and> journal_path (Some c) row))"
  using assms
proof (induction row)
  case base
  then show ?case by (auto intro: monotonic_refl)
next
  case (step mid last)
  then obtain r1 where mid: "mid = Some r1" "op_version r \<le> op_version r1"
    and past: "monotonic_from r r1 \<or> (\<exists>c. op_phase c = COMPLETED \<and> monotonic_from r c \<and> journal_path (Some r) (Some c) \<and> journal_path (Some c) mid)"
    by blast
  obtain r2 where r2: "last = Some r2" "op_version r2 = op_version r1 + 1" "monotonic_from r1 r2 \<or> op_phase r1 = COMPLETED"
    using step_version step.hyps(2) mid(1) by blast
  have "monotonic_from r r2 \<or> (\<exists>c. op_phase c = COMPLETED \<and> monotonic_from r c \<and> journal_path (Some r) (Some c) \<and> journal_path (Some c) last)"
  proof (cases "\<exists>c. op_phase c = COMPLETED \<and> monotonic_from r c \<and> journal_path (Some r) (Some c) \<and> journal_path (Some c) mid")
    case True
    then show ?thesis using step.hyps(2) by (meson rtranclp.rtrancl_into_rtrancl)
  next
    case False
    with past have "monotonic_from r r1" by blast
    with r2(3) step.hyps mid(1) show ?thesis by (meson monotonic_trans r_into_rtranclp)
  qed
  with mid(2) r2 show ?case by auto
qed

text \<open>C28: the journal never regresses. While an operation is not completed, no call of any session, successful or not, replaces it, moves its
  phase back, takes one of its marks back, or changes its identity: after the call the row holds the same
  operation, at least as far, or the operation has been completed in between. Versions only grow, and a version is one
  record.\<close>

theorem journal_never_regresses:
  assumes "shared env" and "run_state (journal_run env op) (Some r, w) = (res, (row', w'))"
  shows "\<exists>r'. row' = Some r' \<and> op_version r \<le> op_version r' \<and> (op_version r' = op_version r \<longrightarrow> r' = r) \<and>
    (monotonic_from r r' \<or> (\<exists>c. op_phase c = COMPLETED \<and> monotonic_from r c \<and> journal_path (Some r) (Some c) \<and> journal_path (Some c) row'))"
proof (rule path_keeps)
  show "journal_path (Some r) row'"
    using followsD [OF journal_run_follows [OF assms(1)] _ _ assms(2), of "Some r"] by auto
qed

subsection \<open>The validators of the two packages\<close>

lemma store_resource_iff: "store_resource_ok r \<longleftrightarrow> validate_resource r = None"
proof -
  have "\<not> has_surrounding_space r" if "resource_pattern r"
  proof -
    from that obtain c cs where r: "r = c # cs" "is_alnum_lower c" "list_all is_ident_char cs"
      unfolding resource_pattern_def by (cases r) auto
    then have all: "list_all is_ident_char r" by (simp add: is_ident_char_def)
    have chars: "is_ident_char d \<Longrightarrow> 33 \<le> byte_of d \<and> byte_of d \<le> 126" for d
      by (auto simp: is_ident_char_def is_alnum_lower_def is_digit_def)
    with all have "list_all (\<lambda>d. 32 \<le> byte_of d \<and> byte_of d \<le> 126) r" by (fastforce simp: list_all_iff)
    moreover have "is_ident_char (hd r)" "is_ident_char (last r)" using all r(1) by (auto simp: list_all_iff)
    then have "byte_of (hd r) \<noteq> 32" "byte_of (last r) \<noteq> 32" using chars by fastforce+
    ultimately show ?thesis using printable_surrounding_space by simp
  qed
  then show ?thesis
    by (auto simp: store_resource_ok_def validate_resource_None resource_pattern_def split: list.splits)
qed

lemma store_high_water_iff: "store_high_water_ok h \<longleftrightarrow> validate_high_water h = None"
  using printable_surrounding_space [of h]
  by (auto simp: store_high_water_ok_def high_water_go_lua_agree lua_fq_high_water_def list_all_iff not_less)

text \<open>C29: the validators of \<^verbatim>\<open>store\<close> and of \<^verbatim>\<open>fairqueue\<close> accept the same journal records: no record that one package writes is
  refused by the other.\<close>

theorem journal_validators_agree: "store_record_ok r \<longleftrightarrow> validate_persisted r = None"
proof -
  have force: "store_force_ok v \<longleftrightarrow> valid_force_not_before v" for v
    by (auto simp: store_force_ok_def valid_force_not_before_def mod_mod_cancel split: option.splits)
  have "store_proposal_ok (proposal_of r) \<longleftrightarrow> validate_immutable r = None"
    by (cases "op_force_not_before r"; cases "op_kind r = FORCE_REBUILD")
      (auto simp: store_proposal_ok_def proposal_of_def validate_immutable_def store_resource_iff force special_kind_def fail_when_None
        first_err_None split: if_splits)
  then show ?thesis
    by (auto simp: store_record_ok_def validate_persisted_def store_high_water_iff fail_when_None first_err_None as_sentinel_None
        validate_immutable_def special_kind_def split: option.splits if_splits)
qed

end
