(* ===== verification/Fq_Journal_Rag.thy ===== *)
theory Fq_Journal_Rag
  imports Fq_Journal_Props
begin

text \<open>
  The journal as the coordinators see it (\<^verbatim>\<open>rag/fair_queue.go\<close>): the adapter between the operation journal of
  \<^verbatim>\<open>store\<close> and the interface of \<^verbatim>\<open>fairqueue\<close>.
\<close>

subsection \<open>Errors and records\<close>

definition fair_sentinels :: "store_err list \<Rightarrow> sentinel list" where
  "fair_sentinels es = List.map_filter (\<lambda>e. case e of StoreFair s \<Rightarrow> Some s | _ \<Rightarrow> None) es"

text \<open>The errors of tasks and documents that the function maps too do not come from the journal.\<close>

definition map_store_error :: "store_err list \<Rightarrow> sentinel list" where
  "map_store_error es =
     (if StoreWriterMismatch \<in> set es \<or> StoreUnsafe \<in> set es then ErrAuthoritativeWriterMismatch # fair_sentinels es
      else if StoreInvalid \<in> set es then ErrInvalidOperationRecord # fair_sentinels es
      else fair_sentinels es)"

definition map_persisted_error :: "store_err list \<Rightarrow> sentinel list" where
  "map_persisted_error es =
     (let m = map_store_error es in if ErrInvalidOperationRecord \<in> set m then ErrAuthoritativeStateCorrupt # m else m)"

definition fair_from_store :: "operation_record \<Rightarrow> operation_record result" where
  "fair_from_store r =
     (if \<not> special_kind (op_kind r) \<or> op_phase r \<notin> {ACTIVE, READY_COMMITTED, COMPLETED} then Inl [ErrInvalidOperationRecord]
      else check_err (map_option ((#) ErrInvalidOperationRecord) (validate_persisted r)) (Inr r))"

definition store_from_fair :: "operation_record \<Rightarrow> operation_record result" where
  "store_from_fair r =
     check_err (validate_persisted r)
       (if \<not> special_kind (op_kind r) \<or> op_phase r \<notin> {ACTIVE, READY_COMMITTED, COMPLETED} then Inl [ErrInvalidOperationRecord]
        else Inr r)"

definition proposal_from_fair :: "operation_record \<Rightarrow> proposal result" where
  "proposal_from_fair r =
     check_err (validate_proposal r)
       (if \<not> special_kind (op_kind r) then Inl [ErrInvalidOperationRecord] else Inr (proposal_of r))"

definition same_rag_identity :: "operation_record \<Rightarrow> operation_record \<Rightarrow> bool" where
  "same_rag_identity a b \<longleftrightarrow> op_resource a = op_resource b \<and> op_id a = op_id b \<and> op_kind a = op_kind b
     \<and> op_current_writer a = op_current_writer b \<and> op_original_writer a = op_original_writer b
     \<and> op_target_writer a = op_target_writer b
     \<and> map_option fst (op_force_not_before a) = map_option fst (op_force_not_before b)"

definition validate_boundary :: "string \<Rightarrow> string \<Rightarrow> goerr" where
  "validate_boundary resource writer =
     first_err [map_option ((#) ErrInvalidOperationRecord) (validate_resource resource),
       fail_when (\<not> lower_hex 64 writer) (Some [ErrAuthoritativeWriterMismatch, ErrInvalidModel])]"

subsection \<open>Operations\<close>

type_synonym ('w, 'a) journal_call = "(operation_record option \<times> 'w, 'a result) state"

definition mapped :: "('w, 'a) sql \<Rightarrow> ('a \<Rightarrow> 'b result) \<Rightarrow> ('w, 'b) journal_call" where
  "mapped m f = State_Monad.bind m (\<lambda>r. State_Monad.return (
     case r of Inl es \<Rightarrow> Inl (map_persisted_error es) | Inr x \<Rightarrow> f x))"

definition converted :: "operation_record \<Rightarrow> (operation_record \<Rightarrow> bool) \<Rightarrow> operation_record result" where
  "converted r accept =
     (case fair_from_store r of
        Inl e \<Rightarrow> Inl (map_persisted_error (map StoreFair e))
      | Inr c \<Rightarrow> if accept c then Inr c else Inl [ErrAuthoritativeStateCorrupt])"

definition converted_found ::
  "string \<Rightarrow> string \<Rightarrow> operation_record option \<Rightarrow> operation_record option result" where
  "converted_found resource writer found =
     (case found of
        None \<Rightarrow> Inr None
      | Some r \<Rightarrow> map_sum id Some (converted r (\<lambda>c. op_resource c = resource \<and> op_current_writer c = writer)))"

definition rag_read :: "'w sql_env \<Rightarrow> string \<Rightarrow> string \<Rightarrow> ('w, operation_record option) journal_call" where
  "rag_read env resource writer =
     (case validate_boundary resource writer of
        Some e \<Rightarrow> State_Monad.return (Inl e)
      | None \<Rightarrow> mapped (store_read env resource writer) (converted_found resource writer))"

definition rag_session_read :: "'w sql_env \<Rightarrow> string \<Rightarrow> string \<Rightarrow> ('w, operation_record option) journal_call" where
  "rag_session_read env resource writer = mapped (session_read_row env resource) (converted_found resource writer)"

definition rag_session_begin ::
  "'w sql_env \<Rightarrow> string \<Rightarrow> string \<Rightarrow> operation_record option \<Rightarrow> operation_record \<Rightarrow> ('w, operation_record) journal_call" where
  "rag_session_begin env resource writer expected p =
     (if op_resource p \<noteq> resource \<or> op_current_writer p \<noteq> writer then State_Monad.return (Inl [ErrInvalidOperationRecord])
      else case (case expected of None \<Rightarrow> Inr None | Some e \<Rightarrow> map_sum id Some (store_from_fair e)) of
          Inl e \<Rightarrow> State_Monad.return (Inl e)
        | Inr expected \<Rightarrow>
            (case proposal_from_fair p of
               Inl e \<Rightarrow> State_Monad.return (Inl e)
             | Inr q \<Rightarrow>
                 mapped (session_begin_row env resource writer expected q)
                   (\<lambda>r. converted r (\<lambda>c. same_rag_identity c p \<and> op_phase c = ACTIVE))))"

definition rag_mutate ::
  "(operation_record \<Rightarrow> ('w, operation_record) sql) \<Rightarrow> operation_record \<Rightarrow> ('w, operation_record) journal_call" where
  "rag_mutate f expected =
     (case store_from_fair expected of
        Inl e \<Rightarrow> State_Monad.return (Inl e)
      | Inr e \<Rightarrow> mapped (f e) (\<lambda>r. converted r (\<lambda>c. same_rag_identity c expected \<and> op_version c \<ge> op_version expected)))"

definition rag_set_repair_high_water :: "'w sql_env \<Rightarrow> operation_record \<Rightarrow> string \<Rightarrow> ('w, operation_record) journal_call" where
  "rag_set_repair_high_water env expected h = rag_mutate (\<lambda>e. set_repair_high_water env e h) expected"

definition rag_mark_repair_pass :: "'w sql_env \<Rightarrow> operation_record \<Rightarrow> ('w, operation_record) journal_call" where
  "rag_mark_repair_pass env = rag_mutate (mark_repair_pass env)"

definition rag_mark_delete_pass :: "'w sql_env \<Rightarrow> operation_record \<Rightarrow> ('w, operation_record) journal_call" where
  "rag_mark_delete_pass env = rag_mutate (mark_delete_pass env)"

definition rag_commit_ready :: "'w sql_env \<Rightarrow> operation_record \<Rightarrow> ('w, operation_record) journal_call" where
  "rag_commit_ready env = rag_mutate (commit_ready env)"

definition rag_complete :: "'w sql_env \<Rightarrow> operation_record \<Rightarrow> ('w, operation_record) journal_call" where
  "rag_complete env = rag_mutate (complete_operation env)"

subsection \<open>A committed operation\<close>

lemma settled_read:
  assumes "\<And>w. sq_others env w (Some r) = Some r" and "run_state (read_operation env) (Some r, w) = (q, (row', w'))"
  shows "row' = Some r \<and> (\<forall>x. q = Inr x \<longrightarrow> x = Some r)"
  using assms by (auto simp: read_operation_def statement_def scan_record_def Let_def split: prod.splits option.splits if_splits)

lemma andalso_cases:
  assumes "run_state (andalso m f) s = (q, t)"
  obtains e where "run_state m s = (Inl e, t)" "q = Inl e"
  | x u where "run_state m s = (Inr x, u)" "run_state (f x) u = (q, t)"
proof -
  obtain p u where "run_state m s = (p, u)" by (cases "run_state m s")
  with assms that show ?thesis by (cases p) (simp_all add: andalso_def no_def)
qed

lemma outside_row: "run_state (outside op) (row, w) = (q, (row', w')) \<Longrightarrow> row' = row"
  by (auto simp: outside_def split: prod.splits)

lemma deferring_cases:
  assumes "run_state (deferring m check) (row, w) = (q, (row', w'))"
  obtains p w1 where "run_state m (row, w) = (p, (row', w1))" "\<And>x. q = Inr x \<Longrightarrow> p = Inr x"
proof -
  obtain p row1 w1 where m: "run_state m (row, w) = (p, (row1, w1))" by (metis prod.exhaust)
  with assms have "row' = row1" "\<And>x. q = Inr x \<Longrightarrow> p = Inr x"
    by (auto simp: deferring_def outside_def split: prod.splits option.splits sum.splits)
  with m that show ?thesis by blast
qed

lemma committed_begin_row:
  assumes others: "\<And>w. sq_others env w (Some r) = Some r" and "op_phase r \<noteq> COMPLETED"
    and "run_state (begin_row env resource writer expected p) (Some r, w) = (q, (row', w'))"
  shows "row' = Some r \<and> (\<forall>x. q = Inr x \<longrightarrow> x = r)"
proof (cases "\<not> store_proposal_ok p \<or> pr_resource p \<noteq> resource \<or> pr_current p \<noteq> writer")
  case True
  with assms(3) show ?thesis by (auto simp: begin_row_def no_def)
next
  case False
  note run = assms(3) [unfolded begin_row_def Let_def if_not_P [OF False]]
  show ?thesis using run
  proof (cases rule: andalso_cases)
    case (1 e)
    then show ?thesis using settled_read [OF others] by blast
  next
    case (2 found u)
    obtain row1 w1 where u: "u = (row1, w1)" by fastforce
    with settled_read [OF others] 2(1) have "row1 = Some r" "found = Some r" by blast+
    with 2(2) u assms(2) show ?thesis by (auto simp: yields_def no_def split: option.splits if_splits)
  qed
qed

lemma mapped_run:
  "run_state (mapped m f) s = (case run_state m s of (r, t) \<Rightarrow> (case r of Inl es \<Rightarrow> Inl (map_persisted_error es) | Inr x \<Rightarrow> f x, t))"
  by (simp add: mapped_def split: prod.split)

text \<open>C30: the journal adapter cannot resume a committed operation. The store returns an unfinished operation to a \<open>BeginSpecial\<close> that matches
  it, in either phase, and the coordinators ask for it after an interruption between \<open>CommitReady\<close> and
  \<open>FinishRecovery\<close>; but the adapter takes anything that is not \<open>ACTIVE\<close> as corrupt. While other sessions leave
  such a row alone, no \<open>BeginSpecial\<close>, of this or of any other operation, succeeds, and the row stays.\<close>

theorem committed_operation_not_resumed:
  assumes "op_phase r = READY_COMMITTED" and "\<And>w. sq_others env w (Some r) = Some r"
    and "run_state (rag_session_begin env resource writer expected p) (Some r, w) = (res, (row', w'))"
  shows "(\<exists>e. res = Inl e) \<and> row' = Some r"
proof -
  have unfinished: "op_phase r \<noteq> COMPLETED" using assms(1) by simp
  have conv: "\<exists>e. converted r (\<lambda>c. same_rag_identity c p \<and> op_phase c = ACTIVE) = Inl e" 
    using assms(1) by (auto simp: converted_def fair_from_store_def check_err_def split: option.splits if_splits)
  have "row' = Some r \<and> (\<forall>x. q = Inr x \<longrightarrow> x = r)"
    if run: "run_state (session_begin_row env resource writer ex pr) (Some r, w) = (q, (row', w'))" for ex pr q
    using run unfolding session_begin_row_def
  proof (cases rule: andalso_cases)
    case (1 e)
    then show ?thesis using outside_row by (metis Inl_Inr_False)
  next
    case (2 x u)
    obtain row1 w1 where u: "u = (row1, w1)" by fastforce
    with 2(1) have "row1 = Some r" using outside_row by metis
    with 2(2) u obtain p1 w2 where "run_state (begin_row env resource writer ex pr) (Some r, w1) = (p1, (row', w2))" "\<And>x. q = Inr x \<Longrightarrow> p1 = Inr x"
      by (metis deferring_cases)
    with committed_begin_row [OF assms(2) unfinished this(1)] show ?thesis by blast
  qed
  note begun = this
  show ?thesis
  proof (cases "(op_resource p \<noteq> resource \<or> op_current_writer p \<noteq> writer) \<or> (\<exists>e. res = Inl e \<and> row' = Some r)")
    case True
    with assms(3) show ?thesis by (auto simp: rag_session_begin_def)
  next
    case False
    then obtain ex q x v where "run_state (session_begin_row env resource writer ex q) (Some r, w) = (v, (row', w'))"
      "res = (case v of Inl es \<Rightarrow> Inl (map_persisted_error es) | Inr x \<Rightarrow> converted x (\<lambda>c. same_rag_identity c p \<and> op_phase c = ACTIVE))"
      using assms(3)
      by (auto simp: rag_session_begin_def mapped_run split: sum.splits prod.splits; metis)
    with begun [OF this(1)] conv show ?thesis by (cases v) auto
  qed
qed

end
