(* ===== verification/Fq_Journal_Samples.thy ===== *)
theory Fq_Journal_Samples
  imports Fq_Journal_Rag Fq_Recovery_Samples
begin

text \<open>
  A concrete journal on which its properties are applied: one session, and a server without faults.
\<close>

definition calm_sql :: "unit sql_env" where
  "calm_sql = \<lparr> sq_verify = State_Monad.return None, sq_fault = State_Monad.return None, sq_others = (\<lambda>_ row. row), sq_now = (\<lambda>_. 5000),
     sq_commit = State_Monad.return (True, True), sq_enter = (\<lambda>_. State_Monad.return None), sq_leave = (\<lambda>_. State_Monad.return None) \<rparr>"

definition rebind_record :: "string \<Rightarrow> int \<Rightarrow> operation_record" where
  "rebind_record phase version = \<lparr> op_resource = ''rag'', op_id = sample_new_epoch, op_kind = WRITER_REBIND, op_phase = phase,
     op_current_writer = sample_writer, op_original_writer = replicate 64 CHR ''b'', op_target_writer = sample_writer,
     op_repair_high_water = None, op_repair_complete = False, op_force_not_before = None, op_force_complete = False,
     op_version = version, op_created = 5000, op_updated = 5000 \<rparr>"

definition rebind_proposal :: operation_record where
  "rebind_proposal = (rebind_record [] 0)\<lparr> op_created := go_zero_time, op_updated := go_zero_time \<rparr>"

lemma calm_sql_shared: "shared calm_sql"
  by (simp add: shared_def calm_sql_def)

lemma rebind_record_ok:
  "phase \<in> {ACTIVE, READY_COMMITTED, COMPLETED} \<Longrightarrow> 0 < version \<Longrightarrow> store_record_ok (rebind_record phase version)"
  using sample_hexes sample_recovery_hexes sample_names_valid(1)
  by (auto simp: journal_validators_agree rebind_record_def validate_persisted_def validate_immutable_def sample_fence_def fail_when_def
      go_zero_time_def special_kind_def)

lemmas calm_run = journal_run.simps session_begin_row_def begin_row_def update_expected_def insert_proposal_def write_tx_def andalso_def outside_def
  read_operation_def statement_def held_def commit_def scan_record_def deferring_def yields_def no_def Let_def mutate_operation_def with_writer_conn_def
  commit_ready_def bump_def

lemma rebind_proposal_ok: "store_proposal_ok (proposal_of (rebind_record phase version))"
  using rebind_record_ok [of ACTIVE 1] by (simp add: store_record_ok_def proposal_of_def rebind_record_def)

lemma rebind_commits:
  "run_state (journal_run calm_sql (JCommit (rebind_record ACTIVE 1))) (Some (rebind_record ACTIVE 1), ())
     = (Inr (rebind_record READY_COMMITTED 2), (Some (rebind_record READY_COMMITTED 2), ()))"
proof -
  let ?a = "rebind_record ACTIVE 1" and ?c = "rebind_record READY_COMMITTED 2"
  have new: "?a\<lparr> op_version := 2, op_updated := 5000, op_phase := READY_COMMITTED \<rparr> = ?c"
    by (simp add: rebind_record_def)
  have fields: "op_phase ?a = ACTIVE" "op_version ?a = 1" "op_kind ?a = WRITER_REBIND" "op_id ?a = op_id ?c" "op_phase ?c = READY_COMMITTED"
    "op_current_writer ?a = sample_writer" by (simp_all add: rebind_record_def)
  have swap: "expected_where ?a ?a" "cas_matches ?a ?a" "valid_outcome ?a ?c" "phase_rank READY_COMMITTED = 2" "phase_rank ACTIVE = 1"
    "phase_rank COMPLETED = 3"
    by (simp_all add: rebind_record_def expected_where_def cas_matches_def same_identity_def equal_time_def valid_outcome_def monotonic_from_def
        phase_rank_def)
  have "lower_hex 64 sample_writer" using sample_hexes by (simp add: sample_fence_def)
  then show ?thesis
    using rebind_record_ok [of ACTIVE 1] rebind_record_ok [of READY_COMMITTED 2] new fields swap
    by (simp add: calm_run calm_sql_def operation_ready_def max_int64_def)
qed

theorem journal_linearizes_witness:
  "journal_path (Some (rebind_record ACTIVE 1)) (Some (rebind_record READY_COMMITTED 2))
     \<and> promised (JCommit (rebind_record ACTIVE 1)) (rebind_record READY_COMMITTED 2)"
  using journal_linearizes [OF calm_sql_shared rebind_commits] by blast

theorem journal_never_regresses_witness:
  "op_version (rebind_record ACTIVE 1) \<le> op_version (rebind_record READY_COMMITTED 2)
     \<and> (\<exists>r'. Some (rebind_record READY_COMMITTED 2) = Some r' \<and> op_version (rebind_record ACTIVE 1) \<le> op_version r')"
  using journal_never_regresses [OF calm_sql_shared rebind_commits] by auto

lemma store_resumes:
  "run_state (session_begin_row calm_sql ''rag'' sample_writer (Some (rebind_record READY_COMMITTED 2)) (proposal_of rebind_proposal))
     (Some (rebind_record READY_COMMITTED 2), ()) = (Inr (rebind_record READY_COMMITTED 2), (Some (rebind_record READY_COMMITTED 2), ()))"
proof -
  let ?c = "rebind_record READY_COMMITTED 2"
  have "proposal_of rebind_proposal = proposal_of ?c" "normalize_proposal (proposal_of ?c) = proposal_of ?c"
    "pr_resource (proposal_of ?c) = ''rag''" "pr_current (proposal_of ?c) = sample_writer" "proposal_matches (proposal_of ?c) ?c"
    "cas_matches ?c ?c" "op_phase ?c = READY_COMMITTED"
    by (simp_all add: rebind_proposal_def rebind_record_def proposal_of_def normalize_proposal_def proposal_matches_def cas_matches_def
        same_identity_def equal_time_def)
  then show ?thesis
    using rebind_proposal_ok [of READY_COMMITTED 2] rebind_record_ok [of READY_COMMITTED 2]
    by (simp add: calm_run calm_sql_def)
qed

theorem committed_operation_not_resumed_witness:
  "\<exists>e. fst (run_state (rag_session_begin calm_sql ''rag'' sample_writer (Some (rebind_record READY_COMMITTED 2)) rebind_proposal)
     (Some (rebind_record READY_COMMITTED 2), ())) = Inl e"
proof -
  define out where "out = run_state (rag_session_begin calm_sql ''rag'' sample_writer (Some (rebind_record READY_COMMITTED 2)) rebind_proposal)
     (Some (rebind_record READY_COMMITTED 2), ())"
  then have run: "run_state (rag_session_begin calm_sql ''rag'' sample_writer (Some (rebind_record READY_COMMITTED 2)) rebind_proposal)
     (Some (rebind_record READY_COMMITTED 2), ()) = (fst out, (fst (snd out), snd (snd out)))" by (simp only: prod.collapse)
  have "op_phase (rebind_record READY_COMMITTED 2) = READY_COMMITTED" by (simp add: rebind_record_def)
  moreover have "sq_others calm_sql w row = row" for w row by (simp add: calm_sql_def)
  ultimately show ?thesis using committed_operation_not_resumed [OF _ _ run] by (simp add: out_def)
qed

end
