(* ===== verification/Fq_Operators.thy ===== *)
theory Fq_Operators
  imports Fq_Recovery_Barrier
begin

text \<open>
  The operators of special recoveries (\<^verbatim>\<open>recovery_operators.go\<close>): the rebind of a resource to another writer and the
  forced rebuild of its Redis state. They run the rebuild of the recovery coordinator under an operation of the journal.
\<close>

subsection \<open>Options, reports\<close>

record operator_options =
  oo_config :: resource_config
  oo_lock_ttl :: int
  oo_renew :: int
  oo_delay :: int

definition validate_operator_options :: "operator_options \<Rightarrow> goerr" where
  "validate_operator_options o1 =
     first_err [
       validate_resource_config (oo_config o1),
       first_err (map (\<lambda>v. fail_when (v \<le> 0 \<or> v > max_resource_duration) plain_err) [oo_lock_ttl o1, oo_renew o1, oo_delay o1]),
       fail_when (oo_renew o1 \<ge> oo_lock_ttl o1) plain_err,
       fail_when (oo_delay o1 < recovery_drain_timeout (oo_config o1)) plain_err]"

record writer_readiness =
  wr_writer :: string
  wr_schema :: bool
  wr_owner_violations :: int
  wr_generation_violations :: int

definition validate_readiness :: "writer_readiness \<Rightarrow> goerr" where
  "validate_readiness r =
     first_err [validate_writer (wr_writer r),
       fail_when (wr_owner_violations r < 0 \<or> wr_generation_violations r < 0) (wraps ErrInvalidModel)]"

definition writer_ready :: "writer_readiness \<Rightarrow> bool" where
  "writer_ready r \<longleftrightarrow> validate_readiness r = None \<and> wr_schema r \<and> wr_owner_violations r = 0 \<and> wr_generation_violations r = 0"

record op_summary =
  sm_present :: bool
  sm_kind :: string
  sm_phase :: string

definition validate_summary :: "op_summary \<Rightarrow> goerr" where
  "validate_summary s =
     (if \<not> sm_present s then fail_when (sm_kind s \<noteq> [] \<or> sm_phase s \<noteq> []) (wraps ErrInvalidModel)
      else first_err [fail_when (\<not> special_kind (sm_kind s)) (wraps ErrInvalidModel),
        fail_when (sm_phase s \<notin> {ACTIVE, READY_COMMITTED, COMPLETED}) (wraps ErrInvalidModel)])"

record rebind_report =
  br_resource :: string
  br_expected_old :: string
  br_target :: string
  br_readiness :: writer_readiness
  br_running :: int
  br_operation :: op_summary

definition validate_rebind_report :: "rebind_report \<Rightarrow> goerr" where
  "validate_rebind_report r =
     first_err [validate_resource (br_resource r),
       fail_when (\<not> lower_hex 64 (br_expected_old r)) (wraps ErrInvalidModel),
       validate_writer (br_target r),
       fail_when (br_expected_old r = br_target r) (wraps ErrInvalidModel),
       validate_readiness (br_readiness r),
       fail_when (wr_writer (br_readiness r) \<noteq> br_target r \<or> br_running r < 0) (wraps ErrInvalidModel),
       validate_summary (br_operation r)]"

record force_report =
  fr_resource :: string
  fr_writer :: string
  fr_present :: bool
  fr_state :: string
  fr_kind :: string
  fr_standalone :: bool
  fr_current :: bool
  fr_rabbit :: bool
  fr_count :: int
  fr_pages :: int
  fr_operation :: op_summary

definition validate_force_report :: "force_report \<Rightarrow> goerr" where
  "validate_force_report r =
     first_err [validate_resource (fr_resource r), validate_writer (fr_writer r),
       fail_when (fr_count r < 0 \<or> fr_pages r < 0) (wraps ErrInvalidModel),
       (if \<not> fr_present r then fail_when (fr_state r \<noteq> [] \<or> fr_kind r \<noteq> []) (wraps ErrInvalidModel)
        else if fr_state r = ''READY'' then fail_when (fr_kind r \<noteq> ''NONE'') (wraps ErrInvalidModel)
        else if fr_state r = ''RECOVERING'' then
          fail_when (fr_kind r \<noteq> NORMAL \<and> \<not> special_kind (fr_kind r)) (wraps ErrInvalidModel)
        else wraps ErrInvalidModel),
       validate_summary (fr_operation r)]"

text \<open>\<open>RedisTopology\<close>: its mode and whether it is a writable primary. A deadline is the observed time of Redis and the time
  before which nothing is destroyed, each with whether its location is UTC.\<close>

type_synonym redis_topology = "string \<times> bool"

definition validate_topology :: "redis_topology \<Rightarrow> goerr" where
  "validate_topology t = fail_when (fst t \<notin> {''standalone'', ''cluster''}) (wraps ErrInvalidModel)"

definition supports_fair_queue :: "redis_topology \<Rightarrow> bool" where
  "supports_fair_queue t \<longleftrightarrow> fst t = ''standalone'' \<and> snd t"

type_synonym force_deadline = "(int \<times> bool) \<times> (int \<times> bool)"

definition validate_deadline :: "force_deadline \<Rightarrow> int \<Rightarrow> goerr" where
  "validate_deadline d delay =
     (case new_force_rebuild_deadline (fst (fst d)) delay of
        Inl _ \<Rightarrow> wraps ErrInvalidModel
      | Inr (observed, not_before) \<Rightarrow>
          fail_when (\<not> snd (fst d) \<or> \<not> snd (snd d) \<or> fst (fst d) \<noteq> observed \<or> fst (snd d) \<noteq> not_before) (wraps ErrInvalidModel))"

subsection \<open>Environment\<close>

text \<open>\<open>oe_rec\<close> is the recovery coordinator that rebuilds, with the clients both share; its source of recovery pages is the one
  given to the operator. The others are the verifiers of the truth sources, the inspection of Redis, the source
  of a rebind, the session and journal calls for special operations, and the calls of the Redis coordinator for them.\<close>

record 'w op_env =
  oe_rec :: "'w rec_env"
  oe_options :: operator_options
  oe_current_writer :: "string \<Rightarrow> ('w, (string \<times> bool) result) state"
  oe_rabbit_truth :: "string \<Rightarrow> ('w, bool result) state"
  oe_topology :: "('w, redis_topology result) state"
  oe_control :: "string \<Rightarrow> ('w, control_snapshot option result) state"
  oe_identity :: "('w, string result) state"
  oe_readiness :: "('w, writer_readiness result) state"
  oe_count :: "('w, int result) state"
  oe_begin_special :: "operation_record option \<Rightarrow> operation_record \<Rightarrow> ('w, operation_record result) state"
  oe_commit :: "operation_record \<Rightarrow> ('w, operation_record result) state"
  oe_mark_delete :: "operation_record \<Rightarrow> ('w, operation_record result) state"
  oe_deadline :: "string \<Rightarrow> string \<Rightarrow> int \<Rightarrow> ('w, force_deadline result) state"
  oe_begin_rebind :: "string \<Rightarrow> string \<Rightarrow> string \<Rightarrow> string \<Rightarrow> string \<Rightarrow> int \<Rightarrow> ('w, recovery_fence result) state"
  oe_begin_force :: "string \<Rightarrow> string \<Rightarrow> string \<Rightarrow> int \<Rightarrow> string \<Rightarrow> int \<Rightarrow> ('w, recovery_fence result) state"
  oe_force_deleted :: "string \<Rightarrow> recovery_fence \<Rightarrow> ('w, unit result) state"

abbreviation oe_ttl :: "'w op_env \<Rightarrow> int" where "oe_ttl env \<equiv> oo_lock_ttl (oe_options env)"
abbreviation oe_config :: "'w op_env \<Rightarrow> resource_config" where "oe_config env \<equiv> oo_config (oe_options env)"

definition check_context :: "'w op_env \<Rightarrow> ('w, unit) rec" where
  "check_context env = seq (sense (en_context (oe_rec env))) raise"

definition check_resource :: "'w op_env \<Rightarrow> string \<Rightarrow> ('w, unit) rec" where
  "check_resource env resource = raise (fail_when (resource \<noteq> rc_key (oe_config env)) (wraps ErrInvalidModel))"

definition op_next_token :: "'w op_env \<Rightarrow> ('w, string) rec" where
  "op_next_token env =
     seq (handle (invoke (en_token (oe_rec env)) RToken) (\<lambda>_. err [ErrDependencyUnavailable])) (\<lambda>token.
     seq (raise (fail_when (\<not> lower_hex 32 token) (wraps ErrCoordinationCorrupt))) (\<lambda>_. ret token))"

definition op_renew_lock :: "'w op_env \<Rightarrow> string \<Rightarrow> string \<Rightarrow> ('w, unit) rec" where
  "op_renew_lock env resource lock = invoke (co_renew_lock (en_coord (oe_rec env)) resource lock (oe_ttl env)) (RRenewLock resource lock (oe_ttl env))"

definition op_renew :: "'w op_env \<Rightarrow> string \<Rightarrow> recovery_fence \<Rightarrow> ('w, unit) rec" where
  "op_renew env resource f = invoke (co_renew (en_coord (oe_rec env)) resource f (oe_ttl env)) (RRenew resource f (oe_ttl env))"

text \<open>\<open>operationSummary\<close> and \<open>readOperation\<close>\<close>

definition operation_summary :: "operation_record option \<Rightarrow> string \<Rightarrow> string \<Rightarrow> op_summary result" where
  "operation_summary found resource writer =
     (case found of
        None \<Rightarrow> Inr \<lparr> sm_present = False, sm_kind = [], sm_phase = [] \<rparr>
      | Some r \<Rightarrow>
          if validate_persisted r \<noteq> None \<or> op_resource r \<noteq> resource \<or> op_current_writer r \<noteq> writer then Inl [ErrCoordinationCorrupt]
          else Inr \<lparr> sm_present = True, sm_kind = op_kind r, sm_phase = op_phase r \<rparr>)"

definition read_summary :: "'w op_env \<Rightarrow> string \<Rightarrow> string \<Rightarrow> ('w, op_summary) rec" where
  "read_summary env resource writer =
     seq (invoke (jo_read (en_journal (oe_rec env)) resource writer) (RRead resource writer)) (\<lambda>found.
       of_result (operation_summary found resource writer))"

subsection \<open>Rebind: check\<close>

definition read_readiness :: "'w op_env \<Rightarrow> ('w, writer_readiness) rec" where
  "read_readiness env = invoke (oe_readiness env) OReadiness"

definition check_writer_rebind :: "'w op_env \<Rightarrow> string \<Rightarrow> string \<Rightarrow> ('w, rebind_report) rec" where
  "check_writer_rebind env resource expected_old =
     seq (check_context env) (\<lambda>_.
     seq (raise (as_sentinel ErrInvalidModel (validate_resource resource))) (\<lambda>_.
     seq (raise (validate_writer expected_old)) (\<lambda>_.
     seq (invoke (oe_identity env) OIdentity) (\<lambda>target.
     seq (raise (fail_when (validate_writer target \<noteq> None \<or> target = expected_old) (wraps ErrAuthoritativeWriterMismatch))) (\<lambda>_.
     seq (read_readiness env) (\<lambda>readiness.
     seq (raise (fail_when (validate_readiness readiness \<noteq> None \<or> wr_writer readiness \<noteq> target) (wraps ErrAuthoritativeWriterMismatch))) (\<lambda>_.
     seq (invoke (oe_count env) OCountRunning) (\<lambda>running.
     seq (raise (fail_when (running < 0) (wraps ErrInvalidModel))) (\<lambda>_.
     seq (read_summary env resource target) (\<lambda>summary.
     let report = \<lparr> br_resource = resource, br_expected_old = expected_old, br_target = target, br_readiness = readiness,
                    br_running = running, br_operation = summary \<rparr>
     in seq (raise (validate_rebind_report report)) (\<lambda>_. ret report)))))))))))"

definition operator_check_rebind :: "'w op_env \<Rightarrow> string \<Rightarrow> string \<Rightarrow> ('w, rebind_report) rec" where
  "operator_check_rebind env resource expected_old =
     seq (check_context env) (\<lambda>_. seq (check_resource env resource) (\<lambda>_. check_writer_rebind env resource expected_old))"

subsection \<open>Starting a special operation\<close>

text \<open>\<open>operatorStartResult\<close>\<close>

record start_result =
  sr_record :: operation_record
  sr_fence :: recovery_fence
  sr_terminal :: bool

definition zero_record :: operation_record where
  "zero_record = \<lparr> op_resource = [], op_id = [], op_kind = [], op_phase = [], op_current_writer = [], op_original_writer = [],
     op_target_writer = [], op_repair_high_water = None, op_repair_complete = False, op_force_not_before = None,
     op_force_complete = False, op_version = 0, op_created = go_zero_time, op_updated = go_zero_time \<rparr>"

definition zero_start :: start_result where
  "zero_start = \<lparr> sr_record = zero_record,
     sr_fence = \<lparr> rf_epoch = [], rf_writer = [], rf_owner = [], rf_kind = [], rf_operation = [] \<rparr>, sr_terminal = False \<rparr>"

text \<open>The callback of \<open>withStartLocks\<close>: its result, and its error joined with that of the release of the lock\<close>

definition op_release_lock :: "'w op_env \<Rightarrow> string \<Rightarrow> string \<Rightarrow> ('w, unit) rec" where
  "op_release_lock env resource lock = invoke (co_release_lock (en_coord (oe_rec env)) resource lock) (RReleaseLock resource lock)"

definition start_under_lock ::
  "'w op_env \<Rightarrow> string \<Rightarrow> string \<Rightarrow> (string \<Rightarrow> control_snapshot option \<Rightarrow> ('w, start_result) rec) \<Rightarrow> ('w, start_result option \<times> goerr) rec" where
  "start_under_lock env resource own f =
     seq (attempt (invoke (co_acquire (en_coord (oe_rec env)) resource own (oe_ttl env)) (RAcquire resource own (oe_ttl env)))) (\<lambda>r. case r of
       Inl e \<Rightarrow> ret (None, Some e)
     | Inr lock \<Rightarrow>
         seq (attempt
           (seq (check_raw_lock (oe_rec env) resource lock) (\<lambda>_.
            seq (invoke (co_inspect (en_coord (oe_rec env)) resource lock) (RInspect resource lock)) (\<lambda>snap.
            seq (raise (fail_when (case snap of None \<Rightarrow> False | Some s \<Rightarrow> validate_snapshot s \<noteq> None) (wraps ErrCoordinationCorrupt))) (\<lambda>_.
              f lock snap))))) (\<lambda>r.
           if (case r of Inl _ \<Rightarrow> False | Inr res \<Rightarrow> \<not> sr_terminal res) then ret (case r of Inl e \<Rightarrow> (None, Some e) | Inr res \<Rightarrow> (Some res, None))
           else
             seq (attempt (op_release_lock env resource lock)) (\<lambda>q.
               ret (case r of Inl _ \<Rightarrow> None | Inr res \<Rightarrow> Some res, errors_join [err_of r, err_of q]))))"

definition with_start_locks ::
  "'w op_env \<Rightarrow> string \<Rightarrow> string \<Rightarrow> (string \<Rightarrow> control_snapshot option \<Rightarrow> ('w, start_result) rec) \<Rightarrow> ('w, start_result) rec" where
  "with_start_locks env resource writer f =
     seq (op_next_token env) (\<lambda>own.
     seq (with_start_fence (oe_rec env) resource writer (start_under_lock env resource own f)) (\<lambda>captured.
       ret (case captured of None \<Rightarrow> zero_start | Some res \<Rightarrow> res)))"

definition read_start_record :: "'w op_env \<Rightarrow> string \<Rightarrow> string \<Rightarrow> ('w, operation_record option) rec" where
  "read_start_record env resource writer =
     seq (session_read (oe_rec env)) (\<lambda>found.
     seq (of_result (operation_summary found resource writer)) (\<lambda>_. ret found))"

definition record_unfinished :: "operation_record option \<Rightarrow> bool" where
  "record_unfinished found \<longleftrightarrow> (case found of None \<Rightarrow> False | Some r \<Rightarrow> op_phase r \<noteq> COMPLETED)"

definition control_terminal :: "control_snapshot option \<Rightarrow> string \<Rightarrow> string \<Rightarrow> string \<Rightarrow> bool" where
  "control_terminal snap writer operation kind \<longleftrightarrow>
     (case snap of None \<Rightarrow> False | Some s \<Rightarrow>
        cs_state s = ''READY'' \<and> cs_kind s = ''NONE'' \<and> cs_writer s = writer \<and> cs_last_id s = operation \<and> cs_last_kind s = kind)"

definition complete_terminal :: "'w op_env \<Rightarrow> operation_record \<Rightarrow> ('w, start_result) rec" where
  "complete_terminal env r =
     (if op_phase r = READY_COMMITTED then
        seq (invoke (jo_complete (en_journal (oe_rec env)) r) (RComplete r)) (\<lambda>completed.
        seq (raise (fail_when (validate_persisted completed \<noteq> None \<or> op_phase completed \<noteq> COMPLETED \<or> op_id completed \<noteq> op_id r)
               (wraps ErrCoordinationCorrupt))) (\<lambda>_.
          ret (zero_start\<lparr> sr_record := completed, sr_terminal := True \<rparr>)))
      else ret (zero_start\<lparr> sr_record := r, sr_terminal := True \<rparr>))"

definition complete_terminal_with_lock :: "'w op_env \<Rightarrow> string \<Rightarrow> string \<Rightarrow> operation_record \<Rightarrow> ('w, start_result) rec" where
  "complete_terminal_with_lock env resource lock r =
     seq (if op_phase r = READY_COMMITTED
          then seq (op_renew_lock env resource lock) (\<lambda>_. check_raw_lock (oe_rec env) resource lock) else ret ()) (\<lambda>_.
       complete_terminal env r)"

definition begin_special ::
  "'w op_env \<Rightarrow> string \<Rightarrow> operation_record option \<Rightarrow> operation_record \<Rightarrow> (operation_record \<Rightarrow> ('w, recovery_fence) rec)
   \<Rightarrow> ('w, start_result) rec" where
  "begin_special env lock expected p begin_fence =
     seq (raise (validate_proposal p)) (\<lambda>_.
     seq (op_renew_lock env (op_resource p) lock) (\<lambda>_.
     seq (check_raw_lock (oe_rec env) (op_resource p) lock) (\<lambda>_.
     seq (invoke (oe_begin_special env expected p) (OBeginSpecial expected p)) (\<lambda>r.
     seq (raise (fail_when (validate_persisted r \<noteq> None \<or> op_resource r \<noteq> op_resource p \<or> op_id r \<noteq> op_id p \<or> op_kind r \<noteq> op_kind p
            \<or> op_current_writer r \<noteq> op_current_writer p \<or> op_phase r = COMPLETED) (wraps ErrCoordinationCorrupt))) (\<lambda>_.
     seq (check_raw_lock (oe_rec env) (op_resource p) lock) (\<lambda>_.
     seq (begin_fence r) (\<lambda>f.
     seq (raise (fail_when (validate_recovery_fence f \<noteq> None \<or> rf_kind f \<noteq> op_kind r \<or> rf_operation f \<noteq> op_id r \<or> rf_owner f \<noteq> lock
            \<or> rf_writer f \<noteq> op_current_writer r) (wraps ErrCoordinationCorrupt))) (\<lambda>_.
       ret \<lparr> sr_record = r, sr_fence = f, sr_terminal = False \<rparr>))))))))"

text \<open>The id of the operation: that of the record it resumes, or a new token that differs from it\<close>

definition fresh_operation :: "'w op_env \<Rightarrow> operation_record option \<Rightarrow> ('w, string) rec" where
  "fresh_operation env found =
     seq (op_next_token env) (\<lambda>token.
     seq (raise (fail_when (case found of None \<Rightarrow> False | Some r \<Rightarrow> token = op_id r) (wraps ErrCoordinationCorrupt))) (\<lambda>_. ret token))"

subsection \<open>Rebind: apply\<close>

definition writer_record_matches :: "operation_record \<Rightarrow> string \<Rightarrow> string \<Rightarrow> bool" where
  "writer_record_matches r expected_old target \<longleftrightarrow> op_kind r = WRITER_REBIND \<and> op_current_writer r = target
     \<and> op_original_writer r = expected_old \<and> op_target_writer r = target"

text \<open>\<open>writerStartAllowed\<close>: whether the operation has ended already, and whether it resumes that of the journal\<close>

definition writer_start_allowed ::
  "control_snapshot option \<Rightarrow> operation_record option \<Rightarrow> string \<Rightarrow> string \<Rightarrow> (bool \<times> bool) result" where
  "writer_start_allowed snap found expected_old target =
     (let matching = (case found of None \<Rightarrow> False | Some r \<Rightarrow> writer_record_matches r expected_old target);
          phase = (case found of None \<Rightarrow> [] | Some r \<Rightarrow> op_phase r);
          operation = (case found of None \<Rightarrow> [] | Some r \<Rightarrow> op_id r);
          unfinished = record_unfinished found
      in if matching \<and> phase \<in> {READY_COMMITTED, COMPLETED} \<and> control_terminal snap target operation WRITER_REBIND
         then Inr (True, False)
         else if unfinished \<and> \<not> matching then Inl operator_required
         else case snap of
             None \<Rightarrow> if matching \<and> unfinished then Inr (False, True) else Inl operator_required
           | Some s \<Rightarrow>
               if cs_state s = ''READY'' \<and> cs_writer s = expected_old then
                 (if \<not> unfinished then Inr (False, False)
                  else if matching \<and> phase = ACTIVE then
                    (if cs_last_id s = operation then Inl [ErrCoordinationCorrupt] else Inr (False, True))
                  else Inl operator_required)
               else if cs_state s = ''RECOVERING'' \<and> cs_kind s = WRITER_REBIND \<and> matching \<and> unfinished
                 \<and> cs_writer s = target \<and> cs_operation s = operation then
                 (case cs_progress s of
                    None \<Rightarrow> Inl [ErrCoordinationCorrupt]
                  | Some p \<Rightarrow> if rp_rebind p \<noteq> Some (expected_old, target) then Inl [ErrCoordinationCorrupt] else Inr (False, True))
               else Inl operator_required)"

definition recheck_writer :: "'w op_env \<Rightarrow> string \<Rightarrow> string \<Rightarrow> ('w, unit) rec" where
  "recheck_writer env expected_old target =
     seq (invoke (oe_identity env) OIdentity) (\<lambda>identity.
     seq (raise (fail_when (validate_writer identity \<noteq> None \<or> identity \<noteq> target \<or> identity = expected_old)
            (wraps ErrAuthoritativeWriterMismatch))) (\<lambda>_.
     seq (read_readiness env) (\<lambda>readiness.
     seq (raise (fail_when (wr_writer readiness \<noteq> identity \<or> \<not> writer_ready readiness) (wraps ErrResourceNotReady))) (\<lambda>_.
     seq (invoke (oe_count env) OCountRunning) (\<lambda>running.
       raise (fail_when (running \<noteq> 0) (wraps ErrResourceNotReady)))))))"

definition writer_proposal :: "string \<Rightarrow> string \<Rightarrow> string \<Rightarrow> string \<Rightarrow> operation_record" where
  "writer_proposal resource operation expected_old target =
     zero_record\<lparr> op_resource := resource, op_id := operation, op_kind := WRITER_REBIND, op_current_writer := target,
       op_original_writer := expected_old, op_target_writer := target \<rparr>"

definition start_writer_rebind :: "'w op_env \<Rightarrow> string \<Rightarrow> string \<Rightarrow> string \<Rightarrow> ('w, start_result) rec" where
  "start_writer_rebind env resource expected_old target =
     with_start_locks env resource target (\<lambda>lock snap.
       seq (read_start_record env resource target) (\<lambda>found.
       seq (recheck_writer env expected_old target) (\<lambda>_.
       seq (of_result (writer_start_allowed snap found expected_old target)) (\<lambda>(terminal, resume).
         let current = (case found of None \<Rightarrow> zero_record | Some r \<Rightarrow> r)
         in if terminal then complete_terminal_with_lock env resource lock current
            else
              seq (if resume then ret (op_id current) else fresh_operation env found) (\<lambda>operation.
              begin_special env lock found (writer_proposal resource operation expected_old target)
                (\<lambda>r. invoke (oe_begin_rebind env resource expected_old target (op_id r) lock (oe_ttl env))
                        (OBeginRebind resource expected_old target (op_id r) lock (oe_ttl env))))))))"

subsection \<open>Finishing a special operation\<close>

definition op_renewals :: "'w op_env \<Rightarrow> string \<Rightarrow> recovery_fence \<Rightarrow> ('w, unit) rec" where
  "op_renewals env resource f = seq (op_renew_lock env resource (rf_owner f)) (\<lambda>_. op_renew env resource f)"

definition commit_special :: "'w op_env \<Rightarrow> operation_record \<Rightarrow> ('w, operation_record) rec" where
  "commit_special env r =
     seq (invoke (oe_commit env r) (OCommitReady r)) (\<lambda>committed.
     seq (raise (fail_when (validate_persisted committed \<noteq> None \<or> op_phase committed \<noteq> READY_COMMITTED \<or> op_id committed \<noteq> op_id r)
            (wraps ErrCoordinationCorrupt))) (\<lambda>_. ret committed))"

definition complete_special :: "'w op_env \<Rightarrow> operation_record \<Rightarrow> ('w, unit) rec" where
  "complete_special env r =
     seq (invoke (jo_complete (en_journal (oe_rec env)) r) (RComplete r)) (\<lambda>completed.
       raise (fail_when (validate_persisted completed \<noteq> None \<or> op_phase completed \<noteq> COMPLETED \<or> op_id completed \<noteq> op_id r)
         (wraps ErrCoordinationCorrupt)))"

definition finish_special ::
  "(string \<Rightarrow> string) \<Rightarrow> nat \<Rightarrow> 'w op_env \<Rightarrow> start_result \<Rightarrow> ('w, unit) rec \<Rightarrow> ('w, unit) rec" where
  "finish_special H n env res revalidate =
     (if sr_terminal res then ret ()
      else
        seq (run_recovery H n (oe_rec env) (oe_config env) (sr_fence res)) (\<lambda>_.
        seq revalidate (\<lambda>_.
        seq (op_renewals env (op_resource (sr_record res)) (sr_fence res)) (\<lambda>_.
        seq (commit_special env (sr_record res)) (\<lambda>committed.
        seq revalidate (\<lambda>_.
        seq (op_renewals env (op_resource (sr_record res)) (sr_fence res)) (\<lambda>_.
        seq (coordinator_finish (oe_rec env) (oe_config env) (sr_fence res)) (\<lambda>ready.
        seq (raise (fail_when (validate_fence ready \<noteq> None \<or> fence_writer ready \<noteq> rf_writer (sr_fence res))
               (wraps ErrCoordinationCorrupt))) (\<lambda>_.
          complete_special env committed)))))))))"

text \<open>The deferred telemetry of an apply. The two kinds of attestation are those of the command line.\<close>

definition with_apply_telemetry :: "string \<Rightarrow> ('w, unit) rec \<Rightarrow> ('w, unit) rec" where
  "with_apply_telemetry resource m =
     seq (attempt m) (\<lambda>r.
     let outcome = (if errors_is (err_of r) ErrFenceMismatch then ''fence_lost'' else if err_of r \<noteq> None then ''error'' else ''completed'')
     in seq (if validate_resource resource = None then tell (RTelemetry SigRecovery outcome 0) else ret ()) (\<lambda>_. of_result r))"

record rebind_attestation =
  ra_fenced :: bool
  ra_stopped :: bool
  ra_authoritative :: bool

definition validate_rebind_attestation :: "rebind_attestation \<Rightarrow> goerr" where
  "validate_rebind_attestation a =
     fail_when (\<not> ra_fenced a \<or> \<not> ra_stopped a \<or> \<not> ra_authoritative a) (wraps ErrOperatorConfirmation)"

definition apply_writer_rebind ::
  "(string \<Rightarrow> string) \<Rightarrow> nat \<Rightarrow> 'w op_env \<Rightarrow> string \<Rightarrow> string \<Rightarrow> rebind_attestation \<Rightarrow> ('w, unit) rec" where
  "apply_writer_rebind H n env resource expected_old a =
     with_apply_telemetry resource
       (seq (check_context env) (\<lambda>_.
        seq (check_resource env resource) (\<lambda>_.
        seq (raise (validate_rebind_attestation a)) (\<lambda>_.
        seq (check_writer_rebind env resource expected_old) (\<lambda>report.
        seq (raise (fail_when (\<not> writer_ready (br_readiness report) \<or> br_running report \<noteq> 0) (wraps ErrResourceNotReady))) (\<lambda>_.
        seq (start_writer_rebind env resource expected_old (br_target report)) (\<lambda>res.
          finish_special H n env res (recheck_writer env expected_old (br_target report)))))))))"

subsection \<open>Forced rebuild: check\<close>

text \<open>\<open>forceSafetyFacts\<close>\<close>

record safety_facts =
  sf_writer :: string
  sf_current :: bool
  sf_rabbit :: bool
  sf_standalone :: bool

definition inspect_force_safety :: "'w op_env \<Rightarrow> string \<Rightarrow> ('w, safety_facts) rec" where
  "inspect_force_safety env resource =
     seq (answered (oe_current_writer env resource) (OWriter resource) (\<lambda>a. SawWriter (fst a) (snd a))) (\<lambda>(writer, current).
     seq (raise (as_sentinel ErrAuthoritativeWriterMismatch (validate_writer writer))) (\<lambda>_.
     seq (answered (oe_rabbit_truth env resource) (ORabbit resource) SawRabbit) (\<lambda>rabbit.
     seq (answered (oe_topology env) OTopology (\<lambda>a. SawTopology (fst a) (snd a))) (\<lambda>topology.
     seq (raise (validate_topology topology)) (\<lambda>_.
       ret \<lparr> sf_writer = writer, sf_current = current, sf_rabbit = rabbit, sf_standalone = supports_fair_queue topology \<rparr>)))))"

text \<open>\<open>addReportPage\<close>: the counts of items and pages\<close>

definition add_report_page :: "int \<times> int \<Rightarrow> nat \<Rightarrow> (int \<times> int) result" where
  "add_report_page t n =
     (if fst t > int max_int64 - int n \<or> snd t = int max_int64 then Inl [ErrInvalidModel] else Inr (fst t + int n, snd t + 1))"

fun scan_pages ::
  "nat \<Rightarrow> ('a \<Rightarrow> goerr) \<Rightarrow> int \<Rightarrow> (string \<Rightarrow> ('w, 'a recovery_page) rec) \<Rightarrow> int \<times> int \<Rightarrow> string \<Rightarrow> ('w, int \<times> int) rec" where
  "scan_pages 0 ok limit fetch t after = cut"
| "scan_pages (Suc n) ok limit fetch t after =
     seq (fetch after) (\<lambda>page.
     seq (raise (validate_page ok page after limit)) (\<lambda>_.
     seq (of_result (add_report_page t (length (page_items page)))) (\<lambda>t'.
       if page_done page then ret t' else scan_pages n ok limit fetch t' (page_next page))))"

definition scan_recovery_source :: "nat \<Rightarrow> 'w op_env \<Rightarrow> int \<Rightarrow> ('w, int \<times> int) rec" where
  "scan_recovery_source n env limit =
     (let so = en_source (oe_rec env)
      in seq (invoke (so_high_water so) RCapture) (\<lambda>hw.
         seq (raise (validate_high_water hw)) (\<lambda>_.
         seq (scan_pages n validate_tenant_id limit (\<lambda>after. invoke (so_known so hw after limit) (RKnown hw after limit)) (0, 0) []) (\<lambda>t.
         seq (scan_pages n validate_dispatched_ref limit (\<lambda>after. invoke (so_dispatched so hw after limit) (RDispatched hw after limit)) t []) (\<lambda>t.
           scan_pages n validate_running_lease limit (\<lambda>after. invoke (so_running so hw after limit) (RRunning hw after limit)) t [])))))"

definition inspect_control_for_report :: "'w op_env \<Rightarrow> string \<Rightarrow> ('w, control_snapshot option) rec" where
  "inspect_control_for_report env resource =
     seq (invoke (oe_control env resource) (OControl resource)) (\<lambda>snap.
     seq (raise (fail_when (case snap of None \<Rightarrow> False | Some s \<Rightarrow> validate_snapshot s \<noteq> None) (wraps ErrCoordinationCorrupt))) (\<lambda>_.
       ret snap))"

definition check_redis_force_rebuild :: "nat \<Rightarrow> 'w op_env \<Rightarrow> string \<Rightarrow> ('w, force_report) rec" where
  "check_redis_force_rebuild n env resource =
     seq (check_context env) (\<lambda>_.
     seq (check_resource env resource) (\<lambda>_.
     seq (inspect_force_safety env resource) (\<lambda>facts.
     seq (read_summary env resource (sf_writer facts)) (\<lambda>summary.
     seq (inspect_control_for_report env resource) (\<lambda>snap.
     seq (scan_recovery_source n env (reconcile_page_size (oe_config env))) (\<lambda>(total, pages).
     let report = \<lparr> fr_resource = resource, fr_writer = sf_writer facts, fr_present = snap \<noteq> None,
                    fr_state = (case snap of None \<Rightarrow> [] | Some s \<Rightarrow> cs_state s),
                    fr_kind = (case snap of None \<Rightarrow> [] | Some s \<Rightarrow> cs_kind s),
                    fr_standalone = sf_standalone facts, fr_current = sf_current facts, fr_rabbit = sf_rabbit facts,
                    fr_count = total, fr_pages = pages, fr_operation = summary \<rparr>
     in seq (raise (validate_force_report report)) (\<lambda>_. ret report)))))))"

subsection \<open>Forced rebuild: apply\<close>

definition force_record_matches :: "operation_record \<Rightarrow> string \<Rightarrow> bool" where
  "force_record_matches r writer \<longleftrightarrow> op_kind r = FORCE_REBUILD \<and> op_current_writer r = writer \<and> valid_force_not_before (op_force_not_before r)"

definition unix_ms :: "(int \<times> bool) option \<Rightarrow> int" where
  "unix_ms v = (case v of None \<Rightarrow> 0 | Some (t, _) \<Rightarrow> t div 1000000)"

definition force_start_allowed ::
  "control_snapshot option \<Rightarrow> operation_record option \<Rightarrow> string \<Rightarrow> (bool \<times> bool) result" where
  "force_start_allowed snap found writer =
     (let matching = (case found of None \<Rightarrow> False | Some r \<Rightarrow> force_record_matches r writer);
          current = (case found of None \<Rightarrow> zero_record | Some r \<Rightarrow> r);
          unfinished = record_unfinished found
      in if matching \<and> op_phase current \<in> {READY_COMMITTED, COMPLETED} \<and> control_terminal snap writer (op_id current) (op_kind current)
         then Inr (True, False)
         else if unfinished \<and> \<not> matching then Inl operator_required
         else case snap of
             None \<Rightarrow> if matching \<and> unfinished then Inr (False, True) else Inl operator_required
           | Some s \<Rightarrow>
               if cs_state s = ''RECOVERING'' \<and> cs_kind s = NORMAL \<and> cs_writer s = writer \<and> \<not> unfinished then Inr (False, False)
               else if cs_state s = ''RECOVERING'' \<and> cs_kind s = NORMAL \<and> cs_writer s = writer \<and> matching \<and> op_phase current = ACTIVE
                 then Inr (False, True)
               else if cs_state s = ''RECOVERING'' \<and> cs_kind s = FORCE_REBUILD \<and> matching \<and> unfinished \<and> cs_writer s = writer
                 \<and> cs_operation s = op_id current then
                 (case cs_progress s of
                    None \<Rightarrow> Inl [ErrCoordinationCorrupt]
                  | Some p \<Rightarrow>
                      (case rp_force p of
                         None \<Rightarrow> Inl [ErrCoordinationCorrupt]
                       | Some (not_before, deleted) \<Rightarrow>
                           if not_before \<noteq> unix_ms (op_force_not_before current) then Inl [ErrCoordinationCorrupt]
                           else if deleted \<and> \<not> op_force_complete current then Inl [ErrCoordinationCorrupt]
                           else Inr (False, True)))
               else Inl operator_required)"

definition recheck_force_safety :: "'w op_env \<Rightarrow> string \<Rightarrow> string \<Rightarrow> ('w, unit) rec" where
  "recheck_force_safety env resource writer =
     seq (inspect_force_safety env resource) (\<lambda>facts.
       raise (first_err [
         fail_when (sf_writer facts \<noteq> writer \<or> \<not> sf_current facts) (wraps ErrAuthoritativeWriterMismatch),
         fail_when (\<not> sf_rabbit facts) (wraps ErrResourceNotReady),
         fail_when (\<not> sf_standalone facts) (wraps ErrUnsupportedTopology)]))"

text \<open>\<open>ComputeForceRebuildDeadlineWithLock\<close> with the check of its result\<close>

definition observe_deadline :: "'w op_env \<Rightarrow> string \<Rightarrow> string \<Rightarrow> ('w, force_deadline) rec" where
  "observe_deadline env resource lock =
     seq (answered (oe_deadline env resource lock (oo_delay (oe_options env))) (ODeadline resource lock (oo_delay (oe_options env)))
         (\<lambda>d. SawTime (fst (fst d)))) (\<lambda>d.
     seq (raise (validate_deadline d (oo_delay (oe_options env)))) (\<lambda>_. ret d))"

definition force_proposal :: "string \<Rightarrow> string \<Rightarrow> string \<Rightarrow> int \<times> bool \<Rightarrow> operation_record" where
  "force_proposal resource operation writer not_before =
     zero_record\<lparr> op_resource := resource, op_id := operation, op_kind := FORCE_REBUILD, op_current_writer := writer,
       op_force_not_before := Some not_before \<rparr>"

definition start_force_rebuild :: "'w op_env \<Rightarrow> string \<Rightarrow> string \<Rightarrow> ('w, start_result) rec" where
  "start_force_rebuild env resource writer =
     with_start_locks env resource writer (\<lambda>lock snap.
       seq (read_start_record env resource writer) (\<lambda>found.
       seq (recheck_force_safety env resource writer) (\<lambda>_.
       seq (of_result (force_start_allowed snap found writer)) (\<lambda>(terminal, resume).
         let current = (case found of None \<Rightarrow> zero_record | Some r \<Rightarrow> r)
         in if terminal then complete_terminal_with_lock env resource lock current
            else
              seq (if resume then ret (op_id current, case op_force_not_before current of None \<Rightarrow> (go_zero_time, True) | Some t \<Rightarrow> t)
                   else
                     seq (fresh_operation env found) (\<lambda>operation.
                     seq (observe_deadline env resource lock) (\<lambda>d. ret (operation, snd d)))) (\<lambda>(operation, not_before).
              begin_special env lock found (force_proposal resource operation writer not_before)
                (\<lambda>r. invoke (oe_begin_force env resource writer (op_id r) (unix_ms (op_force_not_before r)) lock (oe_ttl env))
                        (OBeginForce resource writer (op_id r) (unix_ms (op_force_not_before r)) lock (oe_ttl env))))))))"

text \<open>The wait until Redis has passed the deadline. \<open>time.Sub\<close> saturates, which the minimum hides.\<close>

fun wait_for_force_deadline :: "nat \<Rightarrow> 'w op_env \<Rightarrow> string \<Rightarrow> recovery_fence \<Rightarrow> int \<Rightarrow> ('w, unit) rec" where
  "wait_for_force_deadline 0 env resource f not_before = cut"
| "wait_for_force_deadline (Suc n) env resource f not_before =
     seq (op_renew_lock env resource (rf_owner f)) (\<lambda>_.
     seq (observe_deadline env resource (rf_owner f)) (\<lambda>d.
       if fst (fst d) \<ge> not_before then ret ()
       else let wait = min (not_before - fst (fst d)) (oo_renew (oe_options env))
            in seq (invoke (en_wait (oe_rec env) wait) (RWait wait)) (\<lambda>_. wait_for_force_deadline n env resource f not_before)))"

text \<open>One pass over the owned keys, with whether it has found any; passes are repeated until one finds none.\<close>

fun force_delete_pages :: "nat \<Rightarrow> 'w op_env \<Rightarrow> string \<Rightarrow> recovery_fence \<Rightarrow> bool \<Rightarrow> string \<Rightarrow> ('w, bool) rec" where
  "force_delete_pages 0 env resource f found after = cut"
| "force_delete_pages (Suc n) env resource f found after =
     (let limit = reconcile_page_size (oe_config env); co = en_coord (oe_rec env)
      in seq (op_renew_lock env resource (rf_owner f)) (\<lambda>_.
         seq (invoke (co_list_owned co resource f after limit) (RListOwned resource f after limit)) (\<lambda>page.
         seq (raise (validate_page validate_key_ref page after limit)) (\<lambda>_.
         seq (if page_items page = [] then ret ()
              else invoke (co_delete_owned co resource f (page_items page)) (RDeleteOwned resource f (page_items page))) (\<lambda>_.
         let found' = (found \<or> page_items page \<noteq> [])
         in if page_done page then ret found' else force_delete_pages n env resource f found' (page_next page))))))"

fun delete_force_owned_keys :: "nat \<Rightarrow> nat \<Rightarrow> 'w op_env \<Rightarrow> string \<Rightarrow> recovery_fence \<Rightarrow> ('w, unit) rec" where
  "delete_force_owned_keys 0 n env resource f = cut"
| "delete_force_owned_keys (Suc k) n env resource f =
     seq (force_delete_pages n env resource f False []) (\<lambda>found.
       if found then delete_force_owned_keys k n env resource f else ret ())"

definition apply_force_delete_pass :: "nat \<Rightarrow> 'w op_env \<Rightarrow> string \<Rightarrow> start_result \<Rightarrow> ('w, start_result) rec" where
  "apply_force_delete_pass n env resource res =
     (case (sr_terminal res, op_force_not_before (sr_record res)) of
        (False, Some not_before) \<Rightarrow>
          let recheck = recheck_force_safety env resource (op_current_writer (sr_record res))
          in seq (wait_for_force_deadline n env resource (sr_fence res) (fst not_before)) (\<lambda>_.
             seq recheck (\<lambda>_.
             seq (delete_force_owned_keys n n env resource (sr_fence res)) (\<lambda>_.
             seq recheck (\<lambda>_.
             seq (if op_phase (sr_record res) = ACTIVE then
                    seq (invoke (oe_mark_delete env (sr_record res)) (OMarkDelete (sr_record res))) (\<lambda>r.
                    seq (raise (fail_when (validate_persisted r \<noteq> None \<or> \<not> op_force_complete r \<or> op_id r \<noteq> op_id (sr_record res))
                           (wraps ErrCoordinationCorrupt))) (\<lambda>_. ret r))
                  else ret (sr_record res)) (\<lambda>r.
             seq (invoke (oe_force_deleted env resource (sr_fence res)) (OForceDeleted resource (sr_fence res))) (\<lambda>_.
               ret (res\<lparr> sr_record := r \<rparr>)))))))
      | _ \<Rightarrow> err [ErrInvalidRecoveryState])"

definition apply_redis_force_rebuild ::
  "(string \<Rightarrow> string) \<Rightarrow> nat \<Rightarrow> 'w op_env \<Rightarrow> string \<Rightarrow> bool \<Rightarrow> ('w, unit) rec" where
  "apply_redis_force_rebuild H n env resource discard =
     with_apply_telemetry resource
       (seq (check_context env) (\<lambda>_.
        seq (check_resource env resource) (\<lambda>_.
        seq (raise (fail_when (\<not> discard) (wraps ErrOperatorConfirmation))) (\<lambda>_.
        seq (inspect_force_safety env resource) (\<lambda>facts.
        seq (raise (first_err [
               fail_when (\<not> sf_current facts) (wraps ErrAuthoritativeWriterMismatch),
               fail_when (\<not> sf_rabbit facts) (wraps ErrResourceNotReady),
               fail_when (\<not> sf_standalone facts) (wraps ErrUnsupportedTopology)])) (\<lambda>_.
        seq (start_force_rebuild env resource (sf_writer facts)) (\<lambda>res.
          if sr_terminal res then ret ()
          else
            seq (apply_force_delete_pass n env resource res) (\<lambda>res.
              finish_special H n env res (recheck_force_safety env resource (op_current_writer (sr_record res)))))))))))"

subsection \<open>The journal and a normal recovery\<close>

definition validate_normal_recovery_journal :: "operation_record option \<Rightarrow> control_snapshot option \<Rightarrow> string \<Rightarrow> goerr" where
  "validate_normal_recovery_journal found snap writer =
     first_err [
       (case snap of None \<Rightarrow> None | Some s \<Rightarrow> as_sentinel ErrCoordinationCorrupt (validate_snapshot s)),
       (case found of
          None \<Rightarrow> None
        | Some r \<Rightarrow>
            if validate_persisted r \<noteq> None \<or> op_current_writer r \<noteq> writer then Some operator_required
            else if op_phase r = ACTIVE then Some operator_required
            else if op_phase r = READY_COMMITTED then
              fail_when (\<not> control_terminal snap writer (op_id r) (op_kind r)) (Some operator_required)
            else if op_phase r = COMPLETED then None else Some operator_required)]"

end
