(* ===== verification/Fq_Repair.thy ===== *)
theory Fq_Repair
  imports Fq_Operators
begin

text \<open>
  The repair after a loss of the broker (\<^verbatim>\<open>rabbit_disaster_repair.go\<close>): every task that a broker was to deliver is armed again in
  MySQL, under a fenced operation of the journal, and the resource is rebuilt.
\<close>

subsection \<open>Options, environment\<close>

text \<open>\<open>RabbitDisasterRepairOptions\<close>: the lock TTL and the renew interval\<close>

definition repair_with_defaults :: "int \<times> int \<Rightarrow> (int \<times> int) result" where
  "repair_with_defaults v =
     (let ttl = (if fst v = 0 then 30 * 1000000000 else fst v);
          renew = (if snd v = 0 then 10 * 1000000000 else snd v)
      in if ttl \<le> 0 \<or> ttl > max_resource_duration \<or> renew \<le> 0 \<or> renew \<ge> ttl then Inl [ErrInvalidModel] else Inr (ttl, renew))"

text \<open>The repair with its clients. \<open>rr_rec\<close> is the recovery coordinator with the clients both share; \<open>rr_renewals\<close> is
  the result of the renewals in the background, which the code reads when it stops them.\<close>

record 'w repair_env =
  rr_rec :: "'w rec_env"
  rr_config :: resource_config
  rr_writer :: string
  rr_ttl :: int
  rr_capture :: "('w, string result) state"
  rr_candidates :: "string \<Rightarrow> string \<Rightarrow> int \<Rightarrow> ('w, dispatch_candidate recovery_page result) state"
  rr_rearm :: "dispatch_candidate \<Rightarrow> ('w, (dispatch_candidate \<times> bool) result) state"
  rr_begin_special :: "operation_record option \<Rightarrow> operation_record \<Rightarrow> ('w, operation_record result) state"
  rr_set_high_water :: "operation_record \<Rightarrow> string \<Rightarrow> ('w, operation_record result) state"
  rr_mark_pass :: "operation_record \<Rightarrow> ('w, operation_record result) state"
  rr_commit :: "operation_record \<Rightarrow> ('w, operation_record result) state"
  rr_begin_repair :: "string \<Rightarrow> string \<Rightarrow> string \<Rightarrow> string \<Rightarrow> int \<Rightarrow> ('w, recovery_fence result) state"
  rr_mirror_high_water :: "string \<Rightarrow> recovery_fence \<Rightarrow> string \<Rightarrow> ('w, unit result) state"
  rr_mirror_done :: "string \<Rightarrow> recovery_fence \<Rightarrow> ('w, unit result) state"
  rr_renewals :: "('w, unit result) state"

abbreviation rr_key :: "'w repair_env \<Rightarrow> string" where "rr_key env \<equiv> rc_key (rr_config env)"

definition repair_context :: "'w repair_env \<Rightarrow> ('w, unit) rec" where
  "repair_context env = seq (sense (en_context (rr_rec env))) raise"

definition repair_renew :: "'w repair_env \<Rightarrow> recovery_fence \<Rightarrow> ('w, unit) rec" where
  "repair_renew env f = invoke (co_renew (en_coord (rr_rec env)) (rr_key env) f (rr_ttl env)) (RRenew (rr_key env) f (rr_ttl env))"

definition repair_check_lock :: "'w repair_env \<Rightarrow> string \<Rightarrow> ('w, unit) rec" where
  "repair_check_lock env lock = check_raw_lock (rr_rec env) (rr_key env) lock"

definition renew_and_check :: "'w repair_env \<Rightarrow> string \<Rightarrow> ('w, unit) rec" where
  "renew_and_check env lock =
     seq (invoke (co_renew_lock (en_coord (rr_rec env)) (rr_key env) lock (rr_ttl env)) (RRenewLock (rr_key env) lock (rr_ttl env))) (\<lambda>_.
       repair_check_lock env lock)"

definition next_identity :: "'w repair_env \<Rightarrow> ('w, string) rec" where
  "next_identity env =
     seq (invoke (en_token (rr_rec env)) RToken) (\<lambda>token.
     seq (raise (fail_when (\<not> lower_hex 32 token) (wraps ErrInvalidModel))) (\<lambda>_. ret token))"

text \<open>\<open>releaseLockBounded\<close>: a lock that is none is not released, and an error is dropped.\<close>

definition release_bounded :: "'w repair_env \<Rightarrow> string \<Rightarrow> ('w, unit) rec" where
  "release_bounded env lock =
     (if validate_recovery_lock lock \<noteq> None then ret ()
      else handle (invoke (co_release_lock (en_coord (rr_rec env)) (rr_key env) lock) (RReleaseLock (rr_key env) lock)) (\<lambda>_. ret ()))"

subsection \<open>Scanning the candidates\<close>

definition candidate_ok :: "'w repair_env \<Rightarrow> dispatch_candidate \<Rightarrow> goerr" where
  "candidate_ok env c =
     fail_when (validate_candidate c \<noteq> None \<or> msg_resource (cand_message c) \<noteq> rr_key env
         \<or> \<not> config_task_ok (rr_config env) (msg_task_id (cand_message c))) (wraps ErrInvalidRecoveryPage)"

fun scan_candidates ::
  "nat \<Rightarrow> 'w repair_env \<Rightarrow> string \<Rightarrow> ('w, unit) rec \<Rightarrow> (dispatch_candidate \<Rightarrow> ('w, unit) rec) \<Rightarrow> int \<times> int \<Rightarrow> string
   \<Rightarrow> ('w, int \<times> int) rec" where
  "scan_candidates 0 env hw around visit t after = cut"
| "scan_candidates (Suc n) env hw around visit t after =
     (let limit = reconcile_page_size (rr_config env)
      in seq (repair_context env) (\<lambda>_.
         seq around (\<lambda>_.
         seq (invoke (rr_candidates env hw after limit) (OCandidates hw after limit)) (\<lambda>page.
         seq (raise (validate_page validate_candidate page after limit)) (\<lambda>_.
         seq (raise (fail_when (int (length (page_items page)) > int max_int64 - fst t \<or> snd t = int max_int64) (wraps ErrInvalidRecoveryState))) (\<lambda>_.
         seq (each (\<lambda>c. seq (raise (candidate_ok env c)) (\<lambda>_. visit c)) (page_items page)) (\<lambda>_.
         seq around (\<lambda>_.
         let t' = (fst t + int (length (page_items page)), snd t + 1)
         in if page_done page then ret t' else scan_candidates n env hw around visit t' (page_next page)))))))))"

definition repair_summary :: "operation_record option \<Rightarrow> string \<Rightarrow> string \<Rightarrow> op_summary result" where
  "repair_summary found resource writer =
     (case found of
        None \<Rightarrow> Inr \<lparr> sm_present = False, sm_kind = [], sm_phase = [] \<rparr>
      | Some r \<Rightarrow>
          if validate_persisted r \<noteq> None \<or> op_resource r \<noteq> resource then Inl [ErrInvalidOperationRecord]
          else if op_current_writer r \<noteq> writer then Inl [ErrAuthoritativeWriterMismatch]
          else Inr \<lparr> sm_present = True, sm_kind = op_kind r, sm_phase = op_phase r \<rparr>)"

record repair_report =
  rpt_resource :: string
  rpt_writer :: string
  rpt_count :: int
  rpt_pages :: int
  rpt_operation :: op_summary

definition validate_repair_report :: "repair_report \<Rightarrow> goerr" where
  "validate_repair_report r =
     first_err [validate_resource (rpt_resource r), validate_writer (rpt_writer r),
       fail_when (rpt_count r < 0 \<or> rpt_pages r < 0) (wraps ErrInvalidModel), validate_summary (rpt_operation r)]"

definition capture_repair_high_water :: "'w repair_env \<Rightarrow> ('w, string) rec" where
  "capture_repair_high_water env =
     seq (invoke (rr_capture env) OCaptureRepair) (\<lambda>hw.
     seq (raise (as_sentinel ErrInvalidRecoveryState (validate_high_water hw))) (\<lambda>_. ret hw))"

definition repair_check :: "nat \<Rightarrow> 'w repair_env \<Rightarrow> ('w, repair_report) rec" where
  "repair_check n env =
     seq (repair_context env) (\<lambda>_.
     seq (invoke (jo_read (en_journal (rr_rec env)) (rr_key env) (rr_writer env)) (RRead (rr_key env) (rr_writer env))) (\<lambda>found.
     seq (of_result (repair_summary found (rr_key env) (rr_writer env))) (\<lambda>summary.
     seq (capture_repair_high_water env) (\<lambda>hw.
     seq (scan_candidates n env hw (ret ()) (\<lambda>_. ret ()) (0, 0) []) (\<lambda>(total, pages).
     let report = \<lparr> rpt_resource = rr_key env, rpt_writer = rr_writer env, rpt_count = total, rpt_pages = pages, rpt_operation = summary \<rparr>
     in seq (raise (validate_repair_report report)) (\<lambda>_. ret report))))))"

subsection \<open>Beginning\<close>

text \<open>\<open>validateBeginControl\<close>: whether the operation has ended already\<close>

definition begin_control :: "'w repair_env \<Rightarrow> control_snapshot option \<Rightarrow> string \<Rightarrow> operation_record option \<Rightarrow> bool result" where
  "begin_control env snap operation found =
     (let phase = (case found of None \<Rightarrow> [] | Some r \<Rightarrow> op_phase r)
      in case snap of
           None \<Rightarrow> if phase \<in> {ACTIVE, READY_COMMITTED} then Inr False else Inl operator_required
         | Some s \<Rightarrow>
             check_err (join_err ErrCoordinationCorrupt (validate_snapshot s))
               (if cs_writer s \<noteq> rr_writer env then Inl [ErrAuthoritativeWriterMismatch]
                else if cs_state s = ''READY'' then
                  (if phase = [] \<and> cs_last_id s = operation then Inl [ErrCoordinationCorrupt]
                   else if phase = READY_COMMITTED then
                     (if cs_last_id s = operation \<and> cs_last_kind s = RABBIT_REPAIR then Inr True
                      else Inl [ErrRecoveryOperatorRequired, ErrResourceNotReady, ErrInvalidRecoveryState])
                   else if phase = ACTIVE \<and> cs_last_id s = operation then
                     Inl [ErrRecoveryOperatorRequired, ErrResourceNotReady, ErrInvalidRecoveryState]
                   else Inr False)
                else if cs_state s = ''RECOVERING'' then
                  (if phase \<notin> {ACTIVE, READY_COMMITTED} \<or> cs_kind s \<noteq> RABBIT_REPAIR \<or> cs_operation s \<noteq> operation
                   then Inl operator_required
                   else case (found, Option.bind (cs_progress s) rp_repair) of
                       (Some r, Some (hw, done)) \<Rightarrow>
                         (case op_repair_high_water r of
                            None \<Rightarrow> if hw \<noteq> [] then Inl [ErrCoordinationCorrupt]
                                    else if done \<and> \<not> op_repair_complete r then Inl [ErrCoordinationCorrupt] else Inr False
                          | Some h \<Rightarrow> if hw \<noteq> [] \<and> hw \<noteq> h then Inl [ErrCoordinationCorrupt]
                                      else if done \<and> \<not> op_repair_complete r then Inl [ErrCoordinationCorrupt] else Inr False)
                     | _ \<Rightarrow> Inl [ErrCoordinationCorrupt])
                else Inl [ErrInvalidRecoveryState]))"

text \<open>\<open>rabbitRepairStart\<close> and \<open>planStart\<close>\<close>

record repair_start =
  rs_record :: operation_record
  rs_expected :: "operation_record option"
  rs_proposal :: operation_record
  rs_terminal :: bool

definition repair_proposal :: "'w repair_env \<Rightarrow> string \<Rightarrow> operation_record" where
  "repair_proposal env operation =
     zero_record\<lparr> op_resource := rr_key env, op_id := operation, op_kind := RABBIT_REPAIR, op_current_writer := rr_writer env \<rparr>"

definition repair_found_ok :: "'w repair_env \<Rightarrow> operation_record option \<Rightarrow> goerr" where
  "repair_found_ok env found =
     (case found of
        None \<Rightarrow> None
      | Some r \<Rightarrow> first_err [
          fail_when (validate_persisted r \<noteq> None \<or> op_resource r \<noteq> rr_key env) (wraps ErrInvalidOperationRecord),
          fail_when (op_current_writer r \<noteq> rr_writer env) (wraps ErrAuthoritativeWriterMismatch),
          fail_when (op_phase r \<noteq> COMPLETED \<and> op_kind r \<noteq> RABBIT_REPAIR) (Some operator_required)])"

definition plan_start :: "'w repair_env \<Rightarrow> operation_record option \<Rightarrow> control_snapshot option \<Rightarrow> ('w, repair_start) rec" where
  "plan_start env found snap =
     seq (raise (repair_found_ok env found)) (\<lambda>_.
       case (record_unfinished found, found) of
         (True, Some r) \<Rightarrow>
           seq (of_result (begin_control env snap (op_id r) (Some r))) (\<lambda>terminal.
             ret \<lparr> rs_record = r, rs_expected = Some r, rs_proposal = repair_proposal env (op_id r), rs_terminal = terminal \<rparr>)
       | _ \<Rightarrow>
           seq (next_identity env) (\<lambda>operation.
           seq (raise (fail_when (case found of None \<Rightarrow> False | Some r \<Rightarrow> operation = op_id r) (wraps ErrCoordinationCorrupt))) (\<lambda>_.
           seq (of_result (begin_control env snap operation None)) (\<lambda>_.
             ret \<lparr> rs_record = zero_record, rs_expected = found, rs_proposal = repair_proposal env operation, rs_terminal = False \<rparr>))))"

definition journal_record_ok :: "'w repair_env \<Rightarrow> operation_record \<Rightarrow> string \<Rightarrow> string \<Rightarrow> goerr" where
  "journal_record_ok env r operation phase =
     fail_when (validate_persisted r \<noteq> None \<or> op_resource r \<noteq> rr_key env \<or> op_id r \<noteq> operation \<or> op_kind r \<noteq> RABBIT_REPAIR
         \<or> op_current_writer r \<noteq> rr_writer env \<or> op_phase r \<noteq> phase) (wraps ErrInvalidOperationRecord)"

text \<open>\<open>rabbitRepairBegin\<close> and \<open>beginWithStartFence\<close>\<close>

record repair_begin =
  rg_lock :: string
  rg_fence :: recovery_fence
  rg_record :: operation_record
  rg_terminal :: bool

definition zero_begin :: repair_begin where
  "zero_begin = \<lparr> rg_lock = [], rg_fence = sr_fence zero_start, rg_record = zero_record, rg_terminal = False \<rparr>"

definition complete_repair :: "'w repair_env \<Rightarrow> string \<Rightarrow> operation_record \<Rightarrow> ('w, repair_begin) rec" where
  "complete_repair env lock r =
     seq (renew_and_check env lock) (\<lambda>_.
     seq (invoke (jo_complete (en_journal (rr_rec env)) r) (RComplete r)) (\<lambda>completed.
     seq (repair_check_lock env lock) (\<lambda>_.
     seq (raise (journal_record_ok env completed (op_id r) COMPLETED)) (\<lambda>_.
       ret (zero_begin\<lparr> rg_lock := lock, rg_record := completed, rg_terminal := True \<rparr>)))))"

definition inspect_repair_start :: "'w repair_env \<Rightarrow> string \<Rightarrow> ('w, control_snapshot option) rec" where
  "inspect_repair_start env lock = invoke (co_inspect (en_coord (rr_rec env)) (rr_key env) lock) (RInspect (rr_key env) lock)"

definition begin_repair :: "'w repair_env \<Rightarrow> string \<Rightarrow> repair_start \<Rightarrow> ('w, repair_begin) rec" where
  "begin_repair env lock start =
     seq (raise (as_sentinel ErrInvalidOperationRecord (validate_proposal (rs_proposal start)))) (\<lambda>_.
     seq (renew_and_check env lock) (\<lambda>_.
     seq (invoke (rr_begin_special env (rs_expected start) (rs_proposal start)) (OBeginSpecial (rs_expected start) (rs_proposal start))) (\<lambda>r.
     let phase = (case rs_expected start of None \<Rightarrow> ACTIVE | Some e \<Rightarrow> if op_phase e = READY_COMMITTED then READY_COMMITTED else ACTIVE)
     in seq (raise (journal_record_ok env r (op_id (rs_proposal start)) phase)) (\<lambda>_.
     seq (repair_check_lock env lock) (\<lambda>_.
     seq (inspect_repair_start env lock) (\<lambda>snap.
     seq (of_result (begin_control env snap (op_id r) (Some r))) (\<lambda>_.
     seq (invoke (rr_begin_repair env (rr_key env) (rr_writer env) (op_id r) lock (rr_ttl env))
            (OBeginRepair (rr_key env) (rr_writer env) (op_id r) lock (rr_ttl env))) (\<lambda>f.
     seq (raise (fail_when (validate_recovery_fence f \<noteq> None \<or> rf_kind f \<noteq> RABBIT_REPAIR \<or> rf_operation f \<noteq> op_id r
            \<or> rf_writer f \<noteq> rr_writer env \<or> rf_owner f \<noteq> lock) (wraps ErrCoordinationCorrupt))) (\<lambda>_.
       ret \<lparr> rg_lock = lock, rg_fence = f, rg_record = r, rg_terminal = False \<rparr>)))))))))"

definition begin_with_lock :: "'w repair_env \<Rightarrow> string \<Rightarrow> ('w, repair_begin) rec" where
  "begin_with_lock env lock =
     seq (renew_and_check env lock) (\<lambda>_.
     seq (inspect_repair_start env lock) (\<lambda>snap.
     seq (session_read (rr_rec env)) (\<lambda>found.
     seq (plan_start env found snap) (\<lambda>start.
       if rs_terminal start then complete_repair env lock (rs_record start) else begin_repair env lock start))))"

definition begin_with_start_fence :: "'w repair_env \<Rightarrow> ('w, repair_begin \<times> goerr) rec" where
  "begin_with_start_fence env =
     seq (attempt (seq (next_identity env) (\<lambda>own.
            invoke (co_acquire (en_coord (rr_rec env)) (rr_key env) own (rr_ttl env)) (RAcquire (rr_key env) own (rr_ttl env))))) (\<lambda>r. case r of
       Inl e \<Rightarrow> ret (zero_begin, Some e)
     | Inr lock \<Rightarrow>
         seq (attempt (begin_with_lock env lock)) (\<lambda>r. ret (case r of
           Inl e \<Rightarrow> (zero_begin\<lparr> rg_lock := lock \<rparr>, Some e) | Inr b \<Rightarrow> (b, None))))"

text \<open>\<open>WithStartFence\<close> with the variable the callback assigns, and its error\<close>

definition start_repair :: "'w repair_env \<Rightarrow> ('w, repair_begin \<times> goerr) rec" where
  "start_repair env =
     (let jo = en_journal (rr_rec env)
      in seq (attempt (invoke (jo_enter jo (rr_key env) (rr_writer env)) (REnter (rr_key env) (rr_writer env)))) (\<lambda>r. case r of
           Inl e \<Rightarrow> ret (zero_begin, Some e)
         | Inr _ \<Rightarrow>
             seq (begin_with_start_fence env) (\<lambda>(b, e).
             seq (attempt (invoke (jo_exit jo e) (RExit e))) (\<lambda>q. ret (b, err_of q)))))"

subsection \<open>The pass over the tasks of the broker\<close>

definition same_repair_identity :: "message \<Rightarrow> message \<Rightarrow> bool" where
  "same_repair_identity m u \<longleftrightarrow> msg_version u = msg_version m \<and> msg_resource u = msg_resource m \<and> msg_tenant u = msg_tenant m
     \<and> msg_task_type u = msg_task_type m \<and> msg_task_id u = msg_task_id m
     \<and> dt_resource (msg_token u) = dt_resource (msg_token m) \<and> dt_task_id (msg_token u) = dt_task_id (msg_token m)"

definition rearm_candidate :: "'w repair_env \<Rightarrow> dispatch_candidate \<Rightarrow> ('w, unit) rec" where
  "rearm_candidate env c =
     seq (invoke (rr_rearm env c) (ORearm c)) (\<lambda>(updated, changed).
       if \<not> changed then ret ()
       else raise (fail_when (candidate_ok env updated \<noteq> None \<or> \<not> same_repair_identity (cand_message c) (cand_message updated)
              \<or> dt_generation (msg_token (cand_message updated)) \<le> dt_generation (msg_token (cand_message c)))
              (wraps ErrInvalidRecoveryState)))"

definition set_high_water_step :: "'w repair_env \<Rightarrow> recovery_fence \<Rightarrow> operation_record \<Rightarrow> ('w, operation_record) rec" where
  "set_high_water_step env f r =
     (if op_repair_high_water r \<noteq> None then ret r
      else
        seq (repair_renew env f) (\<lambda>_.
        seq (capture_repair_high_water env) (\<lambda>hw.
        seq (repair_renew env f) (\<lambda>_.
        seq (invoke (rr_set_high_water env r hw) (OSetRepair r hw)) (\<lambda>u.
        seq (raise (fail_when (journal_record_ok env u (rf_operation f) ACTIVE \<noteq> None \<or> op_repair_high_water u \<noteq> Some hw \<or> op_repair_complete u)
               (wraps ErrInvalidOperationRecord))) (\<lambda>_. ret u))))))"

definition rearm_step :: "nat \<Rightarrow> 'w repair_env \<Rightarrow> recovery_fence \<Rightarrow> operation_record \<Rightarrow> string \<Rightarrow> ('w, operation_record) rec" where
  "rearm_step n env f r hw =
     (if op_repair_complete r then ret r
      else
        seq (scan_candidates n env hw (repair_renew env f) (rearm_candidate env) (0, 0) []) (\<lambda>_.
        seq (invoke (rr_mark_pass env r) (OMarkRepair r)) (\<lambda>u.
        seq (raise (fail_when (journal_record_ok env u (rf_operation f) ACTIVE \<noteq> None \<or> \<not> op_repair_complete u
               \<or> op_repair_high_water u \<noteq> Some hw) (wraps ErrInvalidOperationRecord))) (\<lambda>_. ret u))))"

definition run_repair_pass :: "nat \<Rightarrow> 'w repair_env \<Rightarrow> recovery_fence \<Rightarrow> operation_record \<Rightarrow> ('w, operation_record) rec" where
  "run_repair_pass n env f r0 =
     seq (set_high_water_step env f r0) (\<lambda>r. case op_repair_high_water r of
       None \<Rightarrow> err [ErrInvalidOperationRecord]
     | Some hw \<Rightarrow>
         seq (raise (as_sentinel ErrInvalidOperationRecord (validate_high_water hw))) (\<lambda>_.
         seq (invoke (rr_mirror_high_water env (rr_key env) f hw) (ORepairHighWater (rr_key env) f hw)) (\<lambda>_.
         seq (rearm_step n env f r hw) (\<lambda>u.
         seq (raise (fail_when (\<not> op_repair_complete u) (wraps ErrInvalidOperationRecord))) (\<lambda>_.
         seq (invoke (rr_mirror_done env (rr_key env) f) (ORepairDone (rr_key env) f)) (\<lambda>_. ret u))))))"

subsection \<open>Apply\<close>

text \<open>An error while the renewals run is joined with theirs.\<close>

definition renewing :: "'w repair_env \<Rightarrow> ('w, 'a) rec \<Rightarrow> ('w, 'a) rec" where
  "renewing env m =
     seq (attempt m) (\<lambda>r. case r of
       Inr x \<Rightarrow> ret x
     | Inl e \<Rightarrow> seq (attempt (invoke (rr_renewals env) RRenewals)) (\<lambda>q. err (e @ (case q of Inl x \<Rightarrow> x | Inr _ \<Rightarrow> []))))"

definition repair_body ::
  "(string \<Rightarrow> string) \<Rightarrow> nat \<Rightarrow> 'w repair_env \<Rightarrow> recovery_fence \<Rightarrow> operation_record \<Rightarrow> ('w, operation_record) rec" where
  "repair_body H n env f r0 =
     seq (drain_attempts (rr_rec env) (rr_config env)) (\<lambda>_.
     seq (run_repair_pass n env f r0) (\<lambda>r.
     seq (run_recovery H n (rr_rec env) (rr_config env) f) (\<lambda>_.
     seq (repair_renew env f) (\<lambda>_.
     seq (if op_phase r = ACTIVE then
            seq (invoke (rr_commit env r) (OCommitReady r)) (\<lambda>u.
            seq (raise (journal_record_ok env u (rf_operation f) READY_COMMITTED)) (\<lambda>_. ret u))
          else ret r) (\<lambda>u.
     seq (raise (fail_when (op_phase u \<noteq> READY_COMMITTED) (wraps ErrInvalidOperationRecord))) (\<lambda>_.
     seq (repair_renew env f) (\<lambda>_. ret u)))))))"

definition repair_work :: "(string \<Rightarrow> string) \<Rightarrow> nat \<Rightarrow> 'w repair_env \<Rightarrow> repair_begin \<Rightarrow> ('w, unit) rec" where
  "repair_work H n env b =
     seq (renewing env (repair_body H n env (rg_fence b) (rg_record b))) (\<lambda>r.
     seq (invoke (rr_renewals env) RRenewals) (\<lambda>_.
     seq (coordinator_finish (rr_rec env) (rr_config env) (rg_fence b)) (\<lambda>ready.
     seq (raise (fail_when (validate_fence ready \<noteq> None \<or> fence_writer ready \<noteq> rr_writer env) (wraps ErrCoordinationCorrupt))) (\<lambda>_.
     seq (invoke (jo_complete (en_journal (rr_rec env)) r) (RComplete r)) (\<lambda>completed.
       raise (journal_record_ok env completed (rf_operation (rg_fence b)) COMPLETED))))))"

text \<open>The attestation of the command line: the old broker is isolated, and the publishers are paused.\<close>

definition repair_apply :: "(string \<Rightarrow> string) \<Rightarrow> nat \<Rightarrow> 'w repair_env \<Rightarrow> bool \<times> bool \<Rightarrow> ('w, unit) rec" where
  "repair_apply H n env a =
     seq (repair_context env) (\<lambda>_.
     seq (raise (fail_when (\<not> fst a \<or> \<not> snd a) (wraps ErrOperatorConfirmation))) (\<lambda>_.
     seq (start_repair env) (\<lambda>(b, e). case e of
       Some ss \<Rightarrow> seq (release_bounded env (rg_lock b)) (\<lambda>_. err ss)
     | None \<Rightarrow>
         seq (attempt (if rg_terminal b then ret () else repair_work H n env b)) (\<lambda>r.
         seq (release_bounded env (rg_lock b)) (\<lambda>_. of_result r)))))"

end
