(* ===== verification/Fq_Operators_Props.thy ===== *)
theory Fq_Operators_Props
  imports Fq_Repair Fq_Recovery_Retry
begin

text \<open>
  Properties of the operators of special recoveries, over all environments: the order of their calls, their confirmation,
  and their lock.
\<close>

subsection \<open>Calls of a rebuild\<close>

fun call_fence :: "rec_call \<Rightarrow> recovery_fence option" where
  "call_fence (RRenew _ f _) = Some f"
| "call_fence (RReap _ f _) = Some f"
| "call_fence (RSetHighWater _ f _) = Some f"
| "call_fence (RReset _ f) = Some f"
| "call_fence (RListOwned _ f _ _) = Some f"
| "call_fence (RDeleteOwned _ f _) = Some f"
| "call_fence (RRestoreKnown _ f _) = Some f"
| "call_fence (RRestoreActive _ f _) = Some f"
| "call_fence (RRestoreInflight _ f _ _ _) = Some f"
| "call_fence (RListStable _ f _ _) = Some f"
| "call_fence (RDeleteStable _ f _) = Some f"
| "call_fence (RMarkPass _ f _ _ _ _) = Some f"
| "call_fence (RFinish _ f) = Some f"
| "call_fence (OForceDeleted _ f) = Some f"
| "call_fence (ORepairHighWater _ f _) = Some f"
| "call_fence (ORepairDone _ f) = Some f"
| "call_fence _ = None"

fun journal_write :: "rec_call \<Rightarrow> bool" where
  "journal_write (RComplete _) = True"
| "journal_write (RFinish _ _) = True"
| "journal_write (OBeginSpecial _ _) = True"
| "journal_write (OCommitReady _) = True"
| "journal_write (OMarkDelete _) = True"
| "journal_write (OSetRepair _ _) = True"
| "journal_write (OMarkRepair _) = True"
| "journal_write (OBeginRebind _ _ _ _ _ _) = True"
| "journal_write (OBeginForce _ _ _ _ _ _) = True"
| "journal_write (OBeginRepair _ _ _ _ _) = True"
| "journal_write (ORearm _) = True"
| "journal_write (OForceDeleted _ _) = True"
| "journal_write _ = False"

definition grows :: "recovery_fence \<Rightarrow> (rec_event list \<Rightarrow> bool) \<Rightarrow> bool" where
  "grows f J \<longleftrightarrow> (\<forall>l c e. J l \<longrightarrow> call_fence c \<in> {None, Some f} \<longrightarrow> \<not> journal_write c \<longrightarrow> J (l @ [(c, e)]))"

abbreviation stays :: "(rec_event list \<Rightarrow> bool) \<Rightarrow> ('w, 'a) rec \<Rightarrow> bool" where
  "stays J m \<equiv> keeps (\<lambda>s. J (snd s)) m"

lemma stays_sense [keeping]: "stays J (sense op)"
  unfolding keeps_def by (rule triple_sense) simp

lemma stays_call:
  assumes "grows f J" and "call_fence c \<in> {None, Some f}" and "\<not> journal_write c"
  shows "stays J (invoke op c)" "stays J (tell c)"
proof -
  have "J (l @ [(c, e)])" if "J l" for l e using assms that unfolding grows_def by blast
  then show "stays J (invoke op c)" "stays J (tell c)"
    unfolding keeps_def by (auto intro!: triple_invoke triple_tell)
qed

lemma stays_range_map [keeping]: "stays J (range_map env xs)"
  unfolding range_map_def by (intro keeping)

lemma rebuild_stays:
  assumes "grows f J"
  shows "stays J (drain_attempts env cf)"
    "stays J (reap_once env cf f)"
    "stays J (drain_recovery_leases n env cf f)"
    "stays J (recovery_high_water env cf f)"
    "stays J (delete_owned_pages n env cf f after)"
    "stays J (restore_known_pages n env cf f hw after)"
    "stays J (restore_running_pages H n env cf f hw after held)"
    "stays J (restore_dispatched_pages n env cf f hw after)"
    "stays J (reconcile_recovery_stable H n env cf f hw)"
    "stays J (mark_pass env cf f p cycle diff)"
    "stays J (coord_renew env r f)"
proof -
  note call = stays_call [OF assms]
  show renew: "stays J (coord_renew env r f)" for r
    unfolding coord_renew_def by (intro call) simp_all
  have page: "stays J (record_page env k)" for k
    unfolding record_page_def by (intro keeping call) simp_all
  note parts = renew page call keeping
  show "stays J (drain_attempts env cf)"
    unfolding drain_attempts_def Let_def by (cases "en_runtime env") (auto intro!: parts)
  show reap: "stays J (reap_once env cf f)"
    unfolding reap_once_def by (intro parts; simp)
  show "stays J (drain_recovery_leases n env cf f)"
    by (induction n) (auto intro!: parts reap)
  show "stays J (recovery_high_water env cf f)"
    unfolding recovery_high_water_def inspect_recovery_fence_def capture_recovery_high_water_def by (intro parts; simp)
  show "stays J (delete_owned_pages n env cf f after)"
    by (induction n arbitrary: after) (auto intro!: parts)
  show "stays J (restore_known_pages n env cf f hw after)"
    by (induction n arbitrary: after) (auto simp: list_known_recovery_page_def intro!: parts)
  have leases: "stays J (restore_leases H env cf f held rs)" for held rs
    by (induction rs arbitrary: held) (auto intro!: parts)
  show "stays J (restore_running_pages H n env cf f hw after held)"
    by (induction n arbitrary: after held) (auto simp: list_running_recovery_page_def intro!: parts leases)
  show "stays J (restore_dispatched_pages n env cf f hw after)"
    by (induction n arbitrary: after) (auto simp: list_dispatched_recovery_page_def intro!: parts)
  have canon: "stays J (load_canonical_pages H n env cf f hw after m)" for after m
    by (induction n arbitrary: after m) (auto simp: list_running_recovery_page_def intro!: parts)
  have stored: "stays J (load_stored_pages n env cf f after m)" for after m
    by (induction n arbitrary: after m) (auto intro!: parts)
  show "stays J (reconcile_recovery_stable H n env cf f hw)"
    unfolding reconcile_recovery_stable_def Let_def by (intro parts canon stored; simp)
  show "stays J (mark_pass env cf f p cycle diff)"
    unfolding mark_pass_def by (intro parts; simp)
qed

lemma rebuild_body_stays:
  assumes "grows f J"
  shows "stays J (rebuild_body H n env cf f)"
proof -
  note call = stays_call [OF assms] and parts = rebuild_stays [OF assms] keeping
  have converge: "stays J (converge_running H n k env cf f hw cycle)" for k hw cycle
    by (induction k arbitrary: cycle) (auto intro!: parts)
  show ?thesis
    unfolding rebuild_body_def restore_known_recovery_def restore_running_recovery_def restore_dispatched_recovery_def
    by (intro parts converge call; simp)
qed

text \<open>Only a rebuild that has succeeded reports a complete pass.\<close>

lemma run_recovery_reports:
  assumes "grows f J"
  shows "triple (\<lambda>_ s. J (snd s)) (\<lambda>s. J (snd s)) (run_recovery H n env cf f) (\<lambda>_ s. J (snd s) \<and> (RHealth PassComplete, None) \<in> set (snd s))"
proof -
  note call = stays_call [OF assms]
  have body: "stays J (with_recovery_renewal env (rc_key cf) f (rebuild_body H n env cf f))"
    unfolding with_recovery_renewal_def by (intro keeping rebuild_stays [OF assms] rebuild_body_stays [OF assms] call; simp)
  have last: "triple (\<lambda>_ s. J (snd s)) (\<lambda>s. J (snd s)) (tell (RHealth PassComplete)) (\<lambda>_ s. J (snd s) \<and> (RHealth PassComplete, None) \<in> set (snd s))"
    using assms by (auto intro!: triple_tell simp: grows_def)
  have "stays J (raise e)" "stays J (tell (RHealth Converged))" for e
    by (intro keeping call; simp)+
  then show ?thesis
    using body last unfolding run_recovery_def keeps_def by (blast intro: triple_seq)
qed

subsection \<open>The order of calls\<close>

text \<open>The operation, kind and lock of a call that begins a recovery\<close>

fun begin_of :: "rec_call \<Rightarrow> (string \<times> string \<times> string) option" where
  "begin_of (OBeginRebind _ _ _ i lock _) = Some (i, WRITER_REBIND, lock)"
| "begin_of (OBeginForce _ _ i _ lock _) = Some (i, FORCE_REBUILD, lock)"
| "begin_of (OBeginRepair _ _ i lock _) = Some (i, RABBIT_REPAIR, lock)"
| "begin_of _ = None"

definition fence_begun :: "recovery_fence \<Rightarrow> rec_event list \<Rightarrow> bool" where
  "fence_begun f h \<longleftrightarrow> (\<exists>c. (c, None) \<in> set h \<and> begin_of c = Some (rf_operation f, rf_kind f, rf_owner f))"

definition journalled :: "string \<Rightarrow> string \<Rightarrow> rec_event list \<Rightarrow> bool" where
  "journalled i kind h \<longleftrightarrow> (\<exists>e p. (OBeginSpecial e p, None) \<in> set h \<and> op_id p = i \<and> op_kind p = kind)"

definition pass_done :: "rec_event list \<Rightarrow> bool" where
  "pass_done h \<longleftrightarrow> (RHealth PassComplete, None) \<in> set h"

definition ready_committed :: "rec_event list \<Rightarrow> bool" where
  "ready_committed h \<longleftrightarrow> (\<exists>r. (OCommitReady r, None) \<in> set h)
     \<or> (\<exists>e p. (OBeginSpecial (Some e) p, None) \<in> set h \<and> op_phase e = READY_COMMITTED)"

definition redis_finished :: "rec_event list \<Rightarrow> bool" where
  "redis_finished h \<longleftrightarrow> (\<exists>r f. (RFinish r f, None) \<in> set h)"

text \<open>At some point \<open>P\<close> held, and after it the calls \<open>C\<close> succeeded, and none that \<open>N\<close> excludes was made.\<close>

definition since :: "(rec_call \<Rightarrow> bool) \<Rightarrow> (rec_event list \<Rightarrow> bool) \<Rightarrow> rec_call set \<Rightarrow> rec_event list \<Rightarrow> bool" where
  "since N P C h \<longleftrightarrow> (\<exists>g k. h = g @ k \<and> P g \<and> (\<forall>x\<in>set k. N (fst x)) \<and> (\<forall>c\<in>C. (c, None) \<in> set k))"

abbreviation afterwards :: "(rec_event list \<Rightarrow> bool) \<Rightarrow> rec_call set \<Rightarrow> rec_event list \<Rightarrow> bool" where
  "afterwards \<equiv> since (\<lambda>_. True)"

text \<open>The begin of a forced rebuild for this fence carries the deadline in milliseconds. Its safety facts are the answers that its
  writer is the current one, that RabbitMQ holds the truth, and that Redis is a writable standalone primary.\<close>

definition begun_until :: "recovery_fence \<Rightarrow> int \<Rightarrow> rec_event list \<Rightarrow> bool" where
  "begun_until f ms h \<longleftrightarrow> (\<exists>r t. (OBeginForce r (rf_writer f) (rf_operation f) ms (rf_owner f) t, None) \<in> set h)"

definition safety :: "string \<Rightarrow> rec_call set \<Rightarrow> bool" where
  "safety w C \<longleftrightarrow> (\<exists>top. supports_fair_queue top \<and> C = {SawWriter w True, SawRabbit True, SawTopology (fst top) (snd top)})"

definition deadline_checked :: "recovery_fence \<Rightarrow> rec_event list \<Rightarrow> bool" where
  "deadline_checked f h \<longleftrightarrow>
     (\<exists>ms t C. ms * 1000000 \<le> t \<and> safety (rf_writer f) C \<and> afterwards (afterwards (begun_until f ms) {SawTime t}) C h)"

fun destroys :: "rec_call \<Rightarrow> bool" where
  "destroys (RReset _ _) = True"
| "destroys (RDeleteOwned _ _ _) = True"
| "destroys _ = False"

text \<open>The safety facts have been seen again since the last call that destroys.\<close>

definition rechecked :: "recovery_fence \<Rightarrow> rec_event list \<Rightarrow> bool" where
  "rechecked f h \<longleftrightarrow> (\<exists>C. safety (rf_writer f) C \<and> since (\<lambda>c. \<not> destroys c) (\<lambda>_. True) C h)"

definition mirrored :: "rec_event list \<Rightarrow> bool" where
  "mirrored h \<longleftrightarrow> (\<exists>r f hw. (ORepairHighWater r f hw, None) \<in> set h)"

definition touches :: "rec_call \<Rightarrow> bool" where
  "touches c \<longleftrightarrow> call_fence c \<noteq> None \<or> journal_write c"

definition untouched :: "rec_event list \<Rightarrow> bool" where
  "untouched h \<longleftrightarrow> (\<forall>x\<in>set h. \<not> touches (fst x))"

definition operator_order :: "rec_event list \<Rightarrow> rec_event \<Rightarrow> bool" where
  "operator_order h x \<longleftrightarrow>
     (\<forall>f. call_fence (fst x) = Some f \<longrightarrow> fence_begun f h)
     \<and> (\<forall>i kind lock. begin_of (fst x) = Some (i, kind, lock) \<longrightarrow> journalled i kind h)
     \<and> (case fst x of
          RReset _ f \<Rightarrow> rf_kind f = FORCE_REBUILD \<longrightarrow> deadline_checked f h
        | RDeleteOwned _ f _ \<Rightarrow> rf_kind f = FORCE_REBUILD \<longrightarrow> deadline_checked f h
        | OMarkDelete _ \<Rightarrow> (\<exists>f. rf_kind f = FORCE_REBUILD \<and> deadline_checked f h \<and> rechecked f h)
        | OForceDeleted _ f \<Rightarrow> deadline_checked f h \<and> rechecked f h
        | ORearm _ \<Rightarrow> mirrored h
        | OCommitReady _ \<Rightarrow> pass_done h
        | RFinish _ _ \<Rightarrow> pass_done h \<and> ready_committed h
        | RComplete _ \<Rightarrow> redis_finished h \<or> untouched h
        | _ \<Rightarrow> True)"

abbreviation orderly :: "rec_event list \<Rightarrow> bool" where
  "orderly \<equiv> guarded operator_order []"

definition grown :: "(rec_event list \<Rightarrow> bool) \<Rightarrow> bool" where
  "grown P \<longleftrightarrow> (\<forall>l k. P l \<longrightarrow> P (l @ k))"

lemma since_appends:
  assumes "since N P C l" and "\<forall>x\<in>set k. N (fst x)"
  shows "since N P C (l @ k)"
proof -
  obtain g j where "l = g @ j" "P g" "\<forall>x\<in>set j. N (fst x)" "\<forall>c\<in>C. (c, None) \<in> set j" using assms(1) unfolding since_def by blast
  with assms(2) have "l @ k = g @ (j @ k) \<and> P g \<and> (\<forall>x\<in>set (j @ k). N (fst x)) \<and> (\<forall>c\<in>C. (c, None) \<in> set (j @ k))" by auto
  then show ?thesis unfolding since_def by blast
qed

lemma since_starts: "P l \<Longrightarrow> since N P {} l"
  unfolding since_def by (intro exI [of _ l] exI [of _ "[]"]) simp

lemma since_adds:
  assumes "since N P C l" and "N c"
  shows "since N P (insert c C) (l @ [(c, None)])"
proof -
  obtain g j where "l = g @ j" "P g" "\<forall>x\<in>set j. N (fst x)" "\<forall>c\<in>C. (c, None) \<in> set j" using assms(1) unfolding since_def by blast
  with assms(2) have "l @ [(c, None)] = g @ (j @ [(c, None)]) \<and> P g \<and> (\<forall>x\<in>set (j @ [(c, None)]). N (fst x))
    \<and> (\<forall>d\<in>insert c C. (d, None) \<in> set (j @ [(c, None)]))" by auto
  then show ?thesis unfolding since_def by blast
qed

lemma grown_after: "grown (afterwards P C)"
  by (simp add: grown_def since_appends)

lemma grown_deadline: "grown (deadline_checked f)"
  using grown_after unfolding grown_def deadline_checked_def by blast

lemma grown_facts: "grown (fence_begun f)" "grown pass_done" "grown ready_committed" "grown redis_finished" "grown mirrored"
  "grown (journalled i kind)" "grown (\<lambda>l. x \<in> set l)" "grown (\<lambda>_. b)" "grown (begun_until f ms)"
  unfolding grown_def begun_until_def fence_begun_def pass_done_def ready_committed_def redis_finished_def mirrored_def journalled_def set_append Un_iff
  by blast+

lemma grown_both: "grown P \<Longrightarrow> grown Q \<Longrightarrow> grown (\<lambda>l. P l \<and> Q l)" "grown P \<Longrightarrow> grown (\<lambda>l. b \<longrightarrow> P l)"
  by (simp_all add: grown_def)

text \<open>Calls that touch neither the journal nor the state of the resource keep every fact.\<close>

definition placid :: "(rec_event list \<Rightarrow> bool) \<Rightarrow> bool" where
  "placid J \<longleftrightarrow> (\<forall>l c e. J l \<longrightarrow> \<not> touches c \<longrightarrow> J (l @ [(c, e)]))"

lemma begin_of_journal: "begin_of c = Some v \<Longrightarrow> journal_write c"
  by (cases c) simp_all

lemma order_untouching: "\<not> touches c \<Longrightarrow> operator_order h (c, e)"
  using begin_of_journal [of c] by (cases c) (auto simp: operator_order_def touches_def)

lemma placid_untouched: "placid (\<lambda>l. orderly l \<and> untouched l)"
  by (auto simp: placid_def untouched_def order_untouching)

lemma placid_grown: "grown P \<Longrightarrow> placid (\<lambda>l. orderly l \<and> P l)"
  by (auto simp: placid_def grown_def order_untouching)

lemma grows_fence:
  assumes "grown P"
  shows "grows f (\<lambda>l. orderly l \<and> fence_begun f l \<and> (rf_kind f = FORCE_REBUILD \<longrightarrow> deadline_checked f l) \<and> P l)"
proof -
  have "operator_order l (c, e)" if "fence_begun f l" "rf_kind f = FORCE_REBUILD \<longrightarrow> deadline_checked f l" "call_fence c \<in> {None, Some f}" "\<not> journal_write c"
    for l c e using that begin_of_journal [of c] by (cases c) (auto simp: operator_order_def)
  then show ?thesis
    using assms grown_facts(1) [of f] grown_deadline [of f] unfolding grows_def grown_def by (auto simp: guarded_append)
qed

subsection \<open>Stages\<close>

abbreviation stage ::
  "(rec_event list \<Rightarrow> bool) \<Rightarrow> ('w, 'a) rec \<Rightarrow> ('a \<Rightarrow> rec_event list \<Rightarrow> bool) \<Rightarrow> bool" where
  "stage P m Q \<equiv> triple (\<lambda>_ s. orderly (snd s)) (\<lambda>s. orderly (snd s) \<and> P (snd s)) m (\<lambda>x s. orderly (snd s) \<and> Q x (snd s))"

lemma stage_invoke:
  assumes "\<And>l e. P l \<Longrightarrow> operator_order l (c, e)" and "\<And>l x. P l \<Longrightarrow> Q x (l @ [(c, None)])"
  shows "stage P (invoke op c) Q"
  using assms by (auto intro!: triple_invoke)

lemma stage_both: "stage P m Q \<Longrightarrow> stage P' m Q' \<Longrightarrow> stage (\<lambda>l. P l \<and> P' l) m (\<lambda>x l. Q x l \<and> Q' x l)"
  by (rule tripleI) (fastforce dest: tripleD split: outcome.splits)

lemma stage_stays: "stays (\<lambda>l. orderly l \<and> P l) m \<Longrightarrow> stage P m (\<lambda>_. P)"
  unfolding keeps_def by (erule triple_post) simp_all

lemma stage_weaken: "stage P m Q \<Longrightarrow> (\<And>l. P' l \<Longrightarrow> P l) \<Longrightarrow> (\<And>x l. Q x l \<Longrightarrow> Q' x l) \<Longrightarrow> stage P' m Q'"
  by (rule tripleI) (fastforce dest: tripleD split: outcome.splits)

lemma stage_ret: "(\<And>l. P l \<Longrightarrow> Q x l) \<Longrightarrow> stage P (ret x) Q"
  by (auto intro!: triples)

lemma stage_err: "stage P (err e) Q"
  by (auto intro!: triples)

lemma stage_then: "stage P m R \<Longrightarrow> (\<And>x. stage (R x) (f x) Q) \<Longrightarrow> stage P (seq m f) Q"
  by (rule triple_seq)

lemma stage_check: "(e = None \<Longrightarrow> stage P (f ()) Q) \<Longrightarrow> stage P (seq (raise e) f) Q"
  by (cases e) (simp_all add: seq_def raise_def ret_def err_def triple_def)

lemma stage_result: "(\<And>x. r = Inr x \<Longrightarrow> stage P (f x) Q) \<Longrightarrow> stage P (seq (of_result r) f) Q"
  by (cases r) (simp_all add: seq_def of_result_def ret_def err_def triple_def)

lemma stage_raise: "stage P (raise e) (\<lambda>_ l. P l \<and> e = None)"
  by (auto intro!: triples)

lemma stage_of_result: "stage P (of_result r) (\<lambda>x l. P l \<and> r = Inr x)"
  by (auto intro!: triples)

lemma stage_attempt: "stage P m Q \<Longrightarrow> stage P (attempt m) (\<lambda>r l. case r of Inl _ \<Rightarrow> True | Inr x \<Rightarrow> Q x l)"
  by (rule triple_attempt, erule triple_post) (auto split: option.splits)

lemma placid_call:
  assumes "placid J" and "\<not> touches c"
  shows "stays J (invoke op c)" "stays J (tell c)"
  using assms unfolding keeps_def placid_def by (auto intro!: triple_invoke triple_tell)

lemma placid_answered:
  assumes "placid J" and "\<not> touches c" and "\<And>x. \<not> touches (saw x)"
  shows "stays J (answered op c saw)"
proof -
  have "J (l @ [(saw x, None)])" if "J l" for l x using assms(1,3) that unfolding placid_def by blast
  then show ?thesis
    unfolding answered_def keeps_def
    by (intro triple_seq [OF placid_call(1) [OF assms(1,2), unfolded keeps_def]]) (auto simp: triple_def)
qed

lemma touches_simps [simp]:
  "\<not> touches (SawWriter w b)" "\<not> touches (SawRabbit b)" "\<not> touches (SawTopology m b)" "\<not> touches (SawTime t)"
  "\<not> touches OIdentity" "\<not> touches OReadiness" "\<not> touches OCountRunning" "\<not> touches (OWriter r)" "\<not> touches (ORabbit r)"
  "\<not> touches OTopology" "\<not> touches (OControl r)" "\<not> touches RToken" "\<not> touches (RRead r w)" "\<not> touches RSession"
  "\<not> touches (ODeadline r k d)" "\<not> touches (RRenewLock r k d)" "\<not> touches (RCheckLock r k)" "\<not> touches (RReleaseLock r k)"
  "\<not> touches (RAcquire r k d)" "\<not> touches (RInspect r k)" "\<not> touches (REnter r w)" "\<not> touches (RExit e)" "\<not> touches RRenewals"
  "\<not> touches (RTelemetry g o' n)" "\<not> touches OCaptureRepair" "\<not> touches (OCandidates h a n)" "\<not> touches (RWait d)" "\<not> touches (RObserve r w)"
  "\<not> touches RCapture" "\<not> touches (RKnown h a n)" "\<not> touches (RDispatched h a n)" "\<not> touches (RRunning h a n)"
  by (simp_all add: touches_def)

text \<open>Programs that touch nothing\<close>

lemma placid_programs:
  assumes "placid J"
  shows "stays J (check_context env)" "stays J (check_resource env r)" "stays J (op_next_token env)" "stays J (read_readiness env)"
    "stays J (read_summary env r w)" "stays J (check_writer_rebind env r old)" "stays J (read_start_record env r w)"
    "stays J (recheck_writer env old target)" "stays J (fresh_operation env found)" "stays J (inspect_force_safety env r)"
    "stays J (recheck_force_safety env r w)" "stays J (observe_deadline env r lock)" "stays J (op_renew_lock env r lock)"
    "stays J (check_raw_lock renv r lock)" "stays J (op_release_lock env r lock)"
proof -
  note call = placid_call [OF assms] keeping
  show c: "stays J (check_context env)" unfolding check_context_def by (intro call)
  show "stays J (check_resource env r)" unfolding check_resource_def by (intro call)
  show token: "stays J (op_next_token env)" unfolding op_next_token_def by (intro call; simp)
  show ready: "stays J (read_readiness env)" unfolding read_readiness_def by (intro call; simp)
  show summary: "stays J (read_summary env r w)" for r w unfolding read_summary_def by (intro call; simp)
  show "stays J (check_writer_rebind env r old)" unfolding check_writer_rebind_def Let_def by (intro c ready summary call; simp)
  show "stays J (read_start_record env r w)" unfolding read_start_record_def session_read_def by (intro call; simp)
  show "stays J (recheck_writer env old target)" unfolding recheck_writer_def by (intro ready call; simp)
  show "stays J (fresh_operation env found)" unfolding fresh_operation_def by (intro token call)
  show safety: "stays J (inspect_force_safety env r)" unfolding inspect_force_safety_def by (intro placid_answered [OF assms] call; simp)
  show "stays J (recheck_force_safety env r w)" unfolding recheck_force_safety_def by (intro safety call)
  show "stays J (observe_deadline env r lock)" unfolding observe_deadline_def by (intro placid_answered [OF assms] call; simp)
  show "stays J (op_renew_lock env r lock)" unfolding op_renew_lock_def by (intro call; simp)
  show "stays J (check_raw_lock renv r lock)" unfolding check_raw_lock_def by (intro call; simp)
  show "stays J (op_release_lock env r lock)" unfolding op_release_lock_def by (intro call; simp)
qed

subsection \<open>Starting\<close>

definition settled :: "rec_event list \<Rightarrow> bool" where
  "settled h \<longleftrightarrow> untouched h \<or> (\<exists>r. (RComplete r, None) \<in> set h)"

definition special_started :: "string \<Rightarrow> start_result \<Rightarrow> rec_event list \<Rightarrow> bool" where
  "special_started kind res h \<longleftrightarrow> (if sr_terminal res then settled h
     else fence_begun (sr_fence res) h \<and> rf_kind (sr_fence res) = kind \<and>
       (kind = FORCE_REBUILD \<longrightarrow> rf_writer (sr_fence res) = op_current_writer (sr_record res)
          \<and> begun_until (sr_fence res) (unix_ms (op_force_not_before (sr_record res))) h))"

lemma placid_settled: "placid (\<lambda>l. orderly l \<and> settled l)"
  using placid_untouched placid_grown [OF grown_facts(7)] unfolding placid_def settled_def by simp blast

lemma placid_started: "placid (\<lambda>l. orderly l \<and> special_started kind res l)"
proof (cases "sr_terminal res")
  case True
  then show ?thesis using placid_settled by (simp add: special_started_def)
next
  case False
  have "grown (\<lambda>l. fence_begun (sr_fence res) l \<and> rf_kind (sr_fence res) = kind \<and>
      (kind = FORCE_REBUILD \<longrightarrow> rf_writer (sr_fence res) = op_current_writer (sr_record res)
         \<and> begun_until (sr_fence res) (unix_ms (op_force_not_before (sr_record res))) l))"
    by (intro grown_both grown_facts)
  then show ?thesis using placid_grown False by (simp add: special_started_def)
qed

lemma begin_special_stage:
  assumes "\<And>r. \<exists>op c. begin_fence r = invoke op c \<and> begin_of c = Some (op_id r, op_kind p, lock) \<and> call_fence c = None
    \<and> (op_kind p = FORCE_REBUILD \<longrightarrow>
         (\<exists>k t. c = OBeginForce k (op_current_writer p) (op_id r) (unix_ms (op_force_not_before r)) lock t))"
  shows "stage P (begin_special env lock expected p begin_fence) (special_started (op_kind p))"
proof -
  define begun where "begun r l \<longleftrightarrow> (\<exists>c. (c, None) \<in> set l \<and> begin_of c = Some (op_id r, op_kind p, lock)
    \<and> (op_kind p = FORCE_REBUILD \<longrightarrow>
         (\<exists>k t. c = OBeginForce k (op_current_writer p) (op_id r) (unix_ms (op_force_not_before r)) lock t)))" for r :: operation_record and l :: "rec_event list"
  have order: "operator_order l (c, e)" if "begin_of c = Some (op_id r, op_kind p, lock)" "call_fence c = None" "journalled (op_id r) (op_kind p) l" for l c e r
    using that by (cases c) (auto simp: operator_order_def)
  have begin_call: "stage (journalled (op_id r) (op_kind p)) (begin_fence r) (\<lambda>f. begun r)" for r
  proof -
    obtain op c where c: "begin_fence r = invoke op c" "begin_of c = Some (op_id r, op_kind p, lock)" "call_fence c = None"
      "op_kind p = FORCE_REBUILD \<longrightarrow> (\<exists>k t. c = OBeginForce k (op_current_writer p) (op_id r) (unix_ms (op_force_not_before r)) lock t)"
      using assms [of r] by blast
    have "begun r (l @ [(c, None)])" for l unfolding begun_def using c(2,4) by (intro exI [of _ c]) simp
    then show ?thesis using order [OF c(2,3)] unfolding c(1) by (intro stage_invoke)
  qed
  have lock: "stage Q (check_raw_lock (oe_rec env) k lock) (\<lambda>_. Q)" "stage Q (op_renew_lock env k lock) (\<lambda>_. Q)" if "grown Q" for Q k
    by (rule stage_stays [OF placid_programs(14) [OF placid_grown [OF that]]], rule stage_stays [OF placid_programs(13) [OF placid_grown [OF that]]])
  note any = grown_facts(8) [of True] and journal = grown_facts(6)
  have "stage (\<lambda>_. True) (begin_special env lock expected p begin_fence) (special_started (op_kind p))"
    unfolding begin_special_def
  proof (rule stage_check, rule stage_then [OF lock(2) [OF any]], rule stage_then [OF lock(1) [OF any]], rule stage_then)
    show "stage (\<lambda>_. True) (invoke (oe_begin_special env expected p) (OBeginSpecial expected p)) (\<lambda>_. journalled (op_id p) (op_kind p))"
      by (rule stage_invoke) (auto simp: operator_order_def journalled_def)
    show "stage (journalled (op_id p) (op_kind p)) (seq (raise (fail_when (validate_persisted r \<noteq> None \<or> op_resource r \<noteq> op_resource p
        \<or> op_id r \<noteq> op_id p \<or> op_kind r \<noteq> op_kind p \<or> op_current_writer r \<noteq> op_current_writer p \<or> op_phase r = COMPLETED) (wraps ErrCoordinationCorrupt)))
      (\<lambda>_. seq (check_raw_lock (oe_rec env) (op_resource p) lock) (\<lambda>_. seq (begin_fence r) (\<lambda>f.
        seq (raise (fail_when (validate_recovery_fence f \<noteq> None \<or> rf_kind f \<noteq> op_kind r \<or> rf_operation f \<noteq> op_id r \<or> rf_owner f \<noteq> lock
          \<or> rf_writer f \<noteq> op_current_writer r) (wraps ErrCoordinationCorrupt))) (\<lambda>_.
        ret \<lparr> sr_record = r, sr_fence = f, sr_terminal = False \<rparr>))))) (special_started (op_kind p))" for r
    proof (rule stage_check, rule stage_then [OF lock(1) [OF journal]], rule stage_then)
      assume "fail_when (validate_persisted r \<noteq> None \<or> op_resource r \<noteq> op_resource p \<or> op_id r \<noteq> op_id p \<or> op_kind r \<noteq> op_kind p
        \<or> op_current_writer r \<noteq> op_current_writer p \<or> op_phase r = COMPLETED) (wraps ErrCoordinationCorrupt) = None"
      then have r: "op_id r = op_id p" "op_kind r = op_kind p" "op_current_writer r = op_current_writer p" by (auto simp: fail_when_def wraps_def split: if_splits)
      show "stage (journalled (op_id p) (op_kind p)) (begin_fence r) (\<lambda>f. begun r)"
        using begin_call [of r] r by simp
      show "stage (begun r)
        (seq (raise (fail_when (validate_recovery_fence f \<noteq> None \<or> rf_kind f \<noteq> op_kind r \<or> rf_operation f \<noteq> op_id r \<or> rf_owner f \<noteq> lock
          \<or> rf_writer f \<noteq> op_current_writer r) (wraps ErrCoordinationCorrupt))) (\<lambda>_.
        ret \<lparr> sr_record = r, sr_fence = f, sr_terminal = False \<rparr>)) (special_started (op_kind p))" for f
        using r by (intro stage_check stage_ret)
          (fastforce simp: begun_def special_started_def fence_begun_def begun_until_def fail_when_def wraps_def split: if_splits)
    qed
  qed
  then show ?thesis by (rule stage_weaken) simp_all
qed

lemma complete_terminal_stage: "stage untouched (complete_terminal_with_lock env r lock x) (\<lambda>res l. sr_terminal res \<and> settled l)"
proof -
  have complete: "stage untouched (invoke op (RComplete x)) (\<lambda>_. settled)" for op :: "('a, 'c result) state"
    by (rule stage_invoke) (auto simp: operator_order_def settled_def)
  show ?thesis
    unfolding complete_terminal_with_lock_def complete_terminal_def
    by (intro stage_then [OF stage_stays, where P = untouched] stage_then [OF complete] stage_check stage_ret triple_if keeping
        placid_programs(13,14) placid_untouched)
      (auto simp: settled_def)
qed

text \<open>The start fence reports the error of its callback.\<close>

definition faithful_fence :: "'w rec_journal \<Rightarrow> bool" where
  "faithful_fence jo \<longleftrightarrow> (\<forall>e w x. fst (run_state (jo_exit jo (Some e)) w) \<noteq> Inr x)"

definition start_captured :: "string \<Rightarrow> start_result option \<times> goerr \<Rightarrow> rec_event list \<Rightarrow> bool" where
  "start_captured kind r h \<longleftrightarrow> (snd r = None \<longrightarrow> (\<exists>res. fst r = Some res \<and> special_started kind res h))"

lemma start_under_lock_stage:
  assumes "\<And>lock snap. stage untouched (f lock snap) (special_started kind)"
  shows "stage untouched (start_under_lock env r own f) (start_captured kind)"
proof -
  have call: "stage untouched (invoke op c) (\<lambda>_. untouched)" if "\<not> touches c" for c and op :: "('a, 'c result) state"
    by (rule stage_stays [OF placid_call(1) [OF placid_untouched that]])
  have check: "stage untouched (check_raw_lock (oe_rec env) r lock) (\<lambda>_. untouched)" for lock
    by (rule stage_stays [OF placid_programs(14) [OF placid_untouched]])
  have release: "stage (special_started kind res) (attempt (op_release_lock env r lock)) (\<lambda>_. special_started kind res)" for res lock
    by (rule stage_stays, intro keeping placid_programs(15) placid_started)
  have release': "stage (\<lambda>_. True) (attempt (op_release_lock env r lock)) (\<lambda>_ _. True)" for lock
    by (rule stage_stays, intro keeping placid_programs(15) placid_grown grown_facts)
  have body: "stage untouched (attempt (seq (check_raw_lock (oe_rec env) r lock) (\<lambda>_.
      seq (invoke (co_inspect (en_coord (oe_rec env)) r lock) (RInspect r lock)) (\<lambda>snap. seq (raise (e snap)) (\<lambda>_. f lock snap)))))
      (\<lambda>x l. case x of Inl _ \<Rightarrow> True | Inr res \<Rightarrow> special_started kind res l)" for lock e
    by (intro stage_attempt stage_then [OF check] stage_then [OF call] stage_check assms) simp
  show ?thesis
    unfolding start_under_lock_def
  proof (rule stage_then, rule stage_attempt, rule call)
    show "\<not> touches (RAcquire r own (oe_ttl env))" by simp
    show "stage (\<lambda>l. case x of Inl _ \<Rightarrow> True | Inr _ \<Rightarrow> untouched l) (case x of Inl e \<Rightarrow> ret (None, Some e) | Inr lock \<Rightarrow>
         seq (attempt
           (seq (check_raw_lock (oe_rec env) r lock) (\<lambda>_.
            seq (invoke (co_inspect (en_coord (oe_rec env)) r lock) (RInspect r lock)) (\<lambda>snap.
            seq (raise (fail_when (case snap of None \<Rightarrow> False | Some s \<Rightarrow> validate_snapshot s \<noteq> None) (wraps ErrCoordinationCorrupt))) (\<lambda>_.
              f lock snap))))) (\<lambda>x.
           if (case x of Inl _ \<Rightarrow> False | Inr res \<Rightarrow> \<not> sr_terminal res) then ret (case x of Inl e \<Rightarrow> (None, Some e) | Inr res \<Rightarrow> (Some res, None))
           else
             seq (attempt (op_release_lock env r lock)) (\<lambda>q.
               ret (case x of Inl _ \<Rightarrow> None | Inr res \<Rightarrow> Some res, errors_join [err_of x, err_of q])))) (start_captured kind)" for x
    proof (cases x)
      case (Inl e)
      show ?thesis unfolding Inl sum.case by (rule stage_ret) (simp add: start_captured_def)
    next
      case (Inr lock)
      show ?thesis unfolding Inr sum.case
      proof (rule stage_then [OF body])
        show "stage (\<lambda>l. case y of Inl _ \<Rightarrow> True | Inr res \<Rightarrow> special_started kind res l)
          (if (case y of Inl _ \<Rightarrow> False | Inr res \<Rightarrow> \<not> sr_terminal res) then ret (case y of Inl e \<Rightarrow> (None, Some e) | Inr res \<Rightarrow> (Some res, None))
           else seq (attempt (op_release_lock env r lock)) (\<lambda>q.
               ret (case y of Inl _ \<Rightarrow> None | Inr res \<Rightarrow> Some res, errors_join [err_of y, err_of q]))) (start_captured kind)" for y
        proof (cases y)
          case (Inl e)
          show ?thesis unfolding Inl sum.case if_False
            by (intro stage_then [OF release'] stage_ret) (simp add: start_captured_def err_of_def)
        next
          case (Inr res)
          then show ?thesis
            by (cases "sr_terminal res"; simp; (intro stage_then [OF release] stage_ret | intro stage_ret)) (simp_all add: start_captured_def)
        qed
      qed
    qed
  qed
qed

lemma with_start_locks_stage:
  assumes "\<And>lock snap. stage untouched (f lock snap) (special_started kind)" and exit: "faithful_fence (en_journal (oe_rec env))"
  shows "stage untouched (with_start_locks env r w f) (special_started kind)"
proof -
  have call: "stage untouched (invoke op c) (\<lambda>_. untouched)" if "\<not> touches c" for c and op :: "('a, 'c result) state"
    by (rule stage_stays [OF placid_call(1) [OF placid_untouched that]])
  have token: "stage untouched (op_next_token env) (\<lambda>_. untouched)"
    by (rule stage_stays [OF placid_programs(3) [OF placid_untouched]])
  have last: "stage (start_captured kind (captured, e)) (invoke (jo_exit (en_journal (oe_rec env)) e) (RExit e))
      (\<lambda>_ l. \<exists>res. captured = Some res \<and> special_started kind res l)" for captured e
  proof (cases e)
    case None
    have "stage (special_started kind res) (invoke op (RExit None)) (\<lambda>_. special_started kind res)" for res and op :: "('a, unit result) state"
      by (rule stage_stays [OF placid_call(1) [OF placid_started]]) simp
    then show ?thesis using None unfolding start_captured_def by (cases captured) (auto simp: triple_def)
  next
    case (Some ss)
    then show ?thesis using exit unfolding faithful_fence_def
      by (intro triple_invoke) (auto simp: operator_order_def dest: arg_cong [where f = fst])
  qed
  have after_exit: "stage (start_captured kind (captured, e)) (seq (invoke (jo_exit (en_journal (oe_rec env)) e) (RExit e)) (\<lambda>_. ret captured))
      (\<lambda>captured l. \<exists>res. captured = Some res \<and> special_started kind res l)" for captured e
    by (rule stage_then [OF last], rule stage_ret)
  have fence: "stage untouched (with_start_fence (oe_rec env) r w (start_under_lock env r own f))
      (\<lambda>captured l. \<exists>res. captured = Some res \<and> special_started kind res l)" for own
    unfolding with_start_fence_def
    by (rule stage_then [OF call], simp, rule stage_then [OF start_under_lock_stage [OF assms(1)]], rule triple_prod, simp only:, rule after_exit)
  show ?thesis
    unfolding with_start_locks_def by (rule stage_then [OF token], rule stage_then [OF fence], rule stage_ret) auto
qed

lemma untouched_programs:
  "stage untouched (read_start_record env r w) (\<lambda>_. untouched)" "stage untouched (recheck_writer env old target) (\<lambda>_. untouched)"
  "stage untouched (recheck_force_safety env r w) (\<lambda>_. untouched)" "stage untouched (fresh_operation env found) (\<lambda>_. untouched)"
  "stage untouched (observe_deadline env r lock) (\<lambda>_. untouched)" "stage untouched (check_context env) (\<lambda>_. untouched)"
  "stage untouched (check_writer_rebind env r old) (\<lambda>_. untouched)" "stage untouched (inspect_force_safety env r) (\<lambda>_. untouched)"
  "stage untouched (check_resource env r) (\<lambda>_. untouched)"
  by (rule stage_stays, rule placid_programs [OF placid_untouched])+

lemma start_stages:
  assumes "faithful_fence (en_journal (oe_rec env))"
  shows "stage untouched (start_writer_rebind env r old target) (special_started WRITER_REBIND)"
    and "stage untouched (start_force_rebuild env r w) (special_started FORCE_REBUILD)"
proof -
  have terminal: "stage untouched (complete_terminal_with_lock env r lock x) (special_started kind)" for lock x kind
    by (rule stage_weaken [OF complete_terminal_stage]) (simp_all add: special_started_def)
  have rebind: "stage untouched (begin_special env lock found (writer_proposal r i old target)
      (\<lambda>x. invoke (oe_begin_rebind env r old target (op_id x) lock (oe_ttl env)) (OBeginRebind r old target (op_id x) lock (oe_ttl env))))
      (special_started WRITER_REBIND)" for lock found i
    using begin_special_stage [of "\<lambda>x. invoke (oe_begin_rebind env r old target (op_id x) lock (oe_ttl env)) (OBeginRebind r old target (op_id x) lock (oe_ttl env))"
        "writer_proposal r i old target" lock] by (fastforce simp: writer_proposal_def)
  have operation: "stage untouched (if resume then ret i else fresh_operation env found) (\<lambda>_. untouched)" for resume i found
    by (intro triple_if stage_ret untouched_programs)
  show "stage untouched (start_writer_rebind env r old target) (special_started WRITER_REBIND)"
    unfolding start_writer_rebind_def Let_def
    by (rule with_start_locks_stage [OF _ assms], rule stage_then [OF untouched_programs(1)], rule stage_then [OF untouched_programs(2)],
        rule stage_result, rule triple_prod, rule triple_if, rule terminal, rule stage_then [OF operation], rule rebind)
  have force: "stage untouched (begin_special env lock found (force_proposal r i w t)
      (\<lambda>x. invoke (oe_begin_force env r w (op_id x) (unix_ms (op_force_not_before x)) lock (oe_ttl env))
        (OBeginForce r w (op_id x) (unix_ms (op_force_not_before x)) lock (oe_ttl env))))
      (special_started FORCE_REBUILD)" for lock found i t
    using begin_special_stage [of "\<lambda>x. invoke (oe_begin_force env r w (op_id x) (unix_ms (op_force_not_before x)) lock (oe_ttl env))
        (OBeginForce r w (op_id x) (unix_ms (op_force_not_before x)) lock (oe_ttl env))"
        "force_proposal r i w t" lock] by (fastforce simp: force_proposal_def)
  have deadline: "stage untouched (if resume then ret (op_id x, t) else seq (fresh_operation env found) (\<lambda>i. seq (observe_deadline env r lock) (\<lambda>d. ret (i, snd d))))
     (\<lambda>_. untouched)" for resume x t found lock
    by (intro triple_if stage_ret stage_then [OF untouched_programs(4)] stage_then [OF untouched_programs(5)])
  show "stage untouched (start_force_rebuild env r w) (special_started FORCE_REBUILD)"
    unfolding start_force_rebuild_def Let_def
    by (rule with_start_locks_stage [OF _ assms], rule stage_then [OF untouched_programs(1)], rule stage_then [OF untouched_programs(3)],
        rule stage_result, rule triple_prod, rule triple_if, rule terminal, rule stage_then [OF deadline], rule triple_prod, rule force)
qed

subsection \<open>Finishing\<close>

definition cleared :: "recovery_fence \<Rightarrow> rec_event list \<Rightarrow> bool" where
  "cleared f h \<longleftrightarrow> fence_begun f h \<and> (rf_kind f = FORCE_REBUILD \<longrightarrow> deadline_checked f h)"

lemma grown_cleared: "grown (cleared f)"
  unfolding cleared_def by (intro grown_both grown_facts grown_deadline)

lemma grows_cleared: "grown P \<Longrightarrow> grows f (\<lambda>l. orderly l \<and> cleared f l \<and> P l)"
  using grows_fence [of P f] by (simp add: cleared_def conj_assoc)

lemma fenced_call: "call_fence c = Some f \<Longrightarrow> \<not> journal_write c \<Longrightarrow> grown P \<Longrightarrow> stage (\<lambda>l. cleared f l \<and> P l) (invoke op c) (\<lambda>_ l. cleared f l \<and> P l)"
  by (rule stage_stays [OF stays_call(1) [OF grows_cleared]]) simp_all

lemma placid_stage: "grown P \<Longrightarrow> (\<And>J. placid J \<Longrightarrow> stays J m) \<Longrightarrow> stage P m (\<lambda>_. P)"
  by (rule stage_stays) (blast intro: placid_grown)

lemma coordinator_finish_stage:
  "stage (\<lambda>l. cleared f l \<and> pass_done l \<and> ready_committed l) (coordinator_finish env cf f) (\<lambda>_. redis_finished)"
proof -
  have both: "grown (\<lambda>l. pass_done l \<and> ready_committed l)" by (intro grown_both grown_facts)
  have finish: "stage (\<lambda>l. cleared f l \<and> pass_done l \<and> ready_committed l) (invoke op (RFinish r f)) (\<lambda>_. redis_finished)"
    for r and op :: "('a, unit result) state"
    by (rule stage_invoke) (auto simp: operator_order_def cleared_def redis_finished_def)
  have observe: "stage redis_finished (observe_ready env r w) (\<lambda>_. redis_finished)" for r w
    unfolding observe_ready_def by (rule placid_stage [OF grown_facts(4)], rule placid_call(1)) simp_all
  show ?thesis
    unfolding coordinator_finish_def
    by (rule stage_check, rule stage_then [OF stage_stays [OF rebuild_stays(2) [OF grows_cleared [OF both]]]], rule stage_check,
        rule stage_then [OF finish], rule stage_then [OF observe], rule triple_if, rule stage_err, rule stage_ret)
qed

lemma finish_special_stage:
  assumes "\<And>J. placid J \<Longrightarrow> stays J revalidate"
  shows "stage (\<lambda>l. if sr_terminal res then settled l else cleared (sr_fence res) l) (finish_special H n env res revalidate) (\<lambda>_. settled)"
proof (cases "sr_terminal res")
  case True
  show ?thesis unfolding finish_special_def by (simp only: True if_True) (rule stage_ret)
next
  case False
  let ?f = "sr_fence res"
  note anything = grown_facts(8) [of True]
  have again: "stage (\<lambda>l. cleared ?f l \<and> P l) revalidate (\<lambda>_ l. cleared ?f l \<and> P l)" if "grown P" for P
    by (rule placid_stage [OF grown_both(1) [OF grown_cleared that] assms])
  have renewals: "stage (\<lambda>l. cleared ?f l \<and> P l) (op_renewals env r ?f) (\<lambda>_ l. cleared ?f l \<and> P l)" if P: "grown P" for P r
    unfolding op_renewals_def op_renew_def
    by (rule stage_then [OF placid_stage [OF grown_both(1) [OF grown_cleared P] placid_programs(13)]], assumption, rule fenced_call [OF _ _ P]) simp_all
  have run: "stage (\<lambda>l. cleared ?f l \<and> True) (run_recovery H n (oe_rec env) (oe_config env) ?f) (\<lambda>_ l. cleared ?f l \<and> pass_done l)"
    using run_recovery_reports [OF grows_cleared [OF anything]] by (rule triple_post) (simp_all add: pass_done_def)
  have commit: "stage (\<lambda>l. cleared ?f l \<and> pass_done l) (commit_special env x) (\<lambda>_ l. cleared ?f l \<and> pass_done l \<and> ready_committed l)" for x
    unfolding commit_special_def
    by (rule stage_then [OF stage_invoke [where Q = "\<lambda>_ l. cleared ?f l \<and> pass_done l \<and> ready_committed l"]])
      (use grown_cleared [of ?f] grown_facts(2) in \<open>auto simp: operator_order_def grown_def ready_committed_def intro!: stage_check stage_ret\<close>)
  have finish: "stage (\<lambda>l. cleared ?f l \<and> pass_done l \<and> ready_committed l) (coordinator_finish (oe_rec env) (oe_config env) ?f) (\<lambda>_. redis_finished)"
    by (rule coordinator_finish_stage)
  have complete: "stage redis_finished (complete_special env x) (\<lambda>_. settled)" for x
    unfolding complete_special_def
    by (rule stage_then [OF stage_invoke [where Q = "\<lambda>_. settled"]], simp add: operator_order_def, force simp: settled_def,
        rule stage_weaken [OF stage_raise [where P = settled]]) simp_all
  have both: "grown (\<lambda>l. pass_done l \<and> ready_committed l)" by (intro grown_both grown_facts)
  have "stage (\<lambda>l. cleared ?f l \<and> True) (finish_special H n env res revalidate) (\<lambda>_. settled)"
    unfolding finish_special_def if_not_P [OF False]
    by (rule stage_then [OF run], rule stage_then [OF again [OF grown_facts(2)]], rule stage_then [OF renewals [OF grown_facts(2)]],
        rule stage_then [OF commit], rule stage_then [OF again [OF both]], rule stage_then [OF renewals [OF both]],
        rule stage_then [OF finish], rule stage_check, rule complete)
  then show ?thesis using False by simp
qed

text \<open>The pass that deletes the owned keys of a forced rebuild\<close>

lemma answered_stage:
  assumes "\<not> touches c" and "\<And>x. \<not> touches (saw x)" and "\<And>d. \<not> touches d \<Longrightarrow> N d"
  shows "stage (since N P C) (answered op c saw) (\<lambda>x. since N P (insert (saw x) C))"
proof -
  have call: "stage (since N P C) (invoke op c) (\<lambda>_. since N P C)"
    by (rule stage_invoke) (use assms in \<open>simp_all add: order_untouching since_appends\<close>)
  have note': "stage (since N P C) (State (\<lambda>(w, l). (Ret x, (w, l @ [(saw x, None)])))) (\<lambda>x. since N P (insert (saw x) C))" for x
    using assms by (auto simp: triple_def order_untouching since_adds)
  show ?thesis unfolding answered_def by (rule stage_then [OF call note'])
qed

lemma observe_stage:
  "stage (begun_until f ms) (observe_deadline env r lock) (\<lambda>d. afterwards (begun_until f ms) {SawTime (fst (fst d))})"
  unfolding observe_deadline_def
  by (rule stage_weaken [where P = "afterwards (begun_until f ms) {}"], rule stage_then [OF answered_stage], simp_all)
    (rule stage_check, rule stage_ret, assumption, rule since_starts)

lemma wait_stage:
  assumes "ms * 1000000 \<le> t"
  shows "stage (begun_until f ms) (wait_for_force_deadline n env r f t)
    (\<lambda>_ l. \<exists>u. ms * 1000000 \<le> u \<and> afterwards (begun_until f ms) {SawTime u} l)"
proof (induction n)
  case 0
  then show ?case by (auto intro!: triples)
next
  case (Suc n)
  have lock: "stage (begun_until f ms) (op_renew_lock env r (rf_owner f)) (\<lambda>_. begun_until f ms)"
    by (rule placid_stage [OF grown_facts(9) placid_programs(13)])
  have wait: "stage (begun_until f ms) (invoke op (RWait d)) (\<lambda>_. begun_until f ms)" for d and op :: "('a, unit result) state"
    by (rule placid_stage [OF grown_facts(9)], rule placid_call(1)) simp_all
  have begun: "begun_until f ms l" if "afterwards (begun_until f ms) C l" for C l
    using that grown_facts(9) [of f ms] unfolding since_def grown_def by blast
  have more: "stage (begun_until f ms) (seq (invoke op (RWait d)) (\<lambda>_. wait_for_force_deadline n env r f t))
      (\<lambda>_ l. \<exists>u. ms * 1000000 \<le> u \<and> afterwards (begun_until f ms) {SawTime u} l)" for d and op :: "('a, unit result) state"
    by (rule stage_then [OF wait Suc.IH])
  have decide: "stage (afterwards (begun_until f ms) {SawTime (fst (fst d))})
      (if fst (fst d) \<ge> t then ret ()
       else seq (invoke (en_wait (oe_rec env) x) (RWait x)) (\<lambda>_. wait_for_force_deadline n env r f t))
      (\<lambda>_ l. \<exists>u. ms * 1000000 \<le> u \<and> afterwards (begun_until f ms) {SawTime u} l)" for d :: force_deadline and x
  proof (cases "fst (fst d) \<ge> t")
    case True
    show ?thesis unfolding if_P [OF True] by (rule stage_ret, intro exI [of _ "fst (fst d)"] conjI order_trans [OF assms True])
  next
    case False
    show ?thesis unfolding if_not_P [OF False] by (rule stage_weaken [OF more], erule begun)
  qed
  show ?case
    unfolding wait_for_force_deadline.simps Let_def
    by (rule stage_then [OF lock], rule stage_then [OF observe_stage decide])
qed

lemma inspect_stage:
  assumes "\<And>d. \<not> touches d \<Longrightarrow> N d"
  shows "stage P (inspect_force_safety env r) (\<lambda>facts l. \<exists>top. sf_standalone facts = supports_fair_queue top
    \<and> since N P {SawWriter (sf_writer facts) (sf_current facts), SawRabbit (sf_rabbit facts), SawTopology (fst top) (snd top)} l)"
proof -
  note see = answered_stage [where N = N, OF _ _ assms]
  have "stage (since N P {}) (inspect_force_safety env r) (\<lambda>facts l. \<exists>top. sf_standalone facts = supports_fair_queue top
    \<and> since N P {SawWriter (sf_writer facts) (sf_current facts), SawRabbit (sf_rabbit facts), SawTopology (fst top) (snd top)} l)"
    unfolding inspect_force_safety_def
    by (rule stage_then [OF see], simp, simp, assumption, rule triple_prod, simp only: prod.sel, rule stage_check,
        rule stage_then [OF see], simp, simp, assumption, rule stage_then [OF see], simp, simp, assumption, rule stage_check, rule stage_ret)
      (auto simp: insert_commute, blast)
  then show ?thesis by (rule stage_weaken) (simp_all add: since_starts)
qed

lemma recheck_stage:
  assumes "\<And>d. \<not> touches d \<Longrightarrow> N d"
  shows "stage P (recheck_force_safety env r w) (\<lambda>_ l. \<exists>C. safety w C \<and> since N P C l)"
  unfolding recheck_force_safety_def
proof (rule stage_then [OF inspect_stage [OF assms]], assumption)
  fix facts
  show "stage (\<lambda>l. \<exists>top. sf_standalone facts = supports_fair_queue top
      \<and> since N P {SawWriter (sf_writer facts) (sf_current facts), SawRabbit (sf_rabbit facts), SawTopology (fst top) (snd top)} l)
    (raise (first_err [
         fail_when (sf_writer facts \<noteq> w \<or> \<not> sf_current facts) (wraps ErrAuthoritativeWriterMismatch),
         fail_when (\<not> sf_rabbit facts) (wraps ErrResourceNotReady),
         fail_when (\<not> sf_standalone facts) (wraps ErrUnsupportedTopology)]))
    (\<lambda>_ l. \<exists>C. safety w C \<and> since N P C l)"
    by (rule stage_weaken [OF stage_raise], assumption)
      (auto simp: safety_def fail_when_def wraps_def split: if_splits)
qed

lemma delete_stages:
  assumes "rf_kind f = FORCE_REBUILD"
  shows "stage (cleared f) (force_delete_pages n env r f found after) (\<lambda>_. cleared f)"
    and "stage (cleared f) (delete_force_owned_keys k n env r f) (\<lambda>_. cleared f)"
proof -
  note clear = grows_cleared [OF grown_facts(8) [of True], of f, simplified]
  have pages: "stays (\<lambda>l. orderly l \<and> cleared f l) (force_delete_pages n env r f found after)" for found after
    by (induction n arbitrary: found after) (auto simp: op_renew_lock_def Let_def intro!: keeping stays_call [OF clear])
  show "stage (cleared f) (force_delete_pages n env r f found after) (\<lambda>_. cleared f)"
    by (rule stage_stays [OF pages])
  show "stage (cleared f) (delete_force_owned_keys k n env r f) (\<lambda>_. cleared f)"
    by (rule stage_stays, induction k) (auto intro!: keeping pages)
qed

lemma cleared_late:
  assumes "rf_kind f = FORCE_REBUILD" and "safety (rf_writer f) C"
    and "afterwards (\<lambda>l. \<exists>u. ms * 1000000 \<le> u \<and> afterwards (begun_until f ms) {SawTime u} l) C l"
  shows "cleared f l"
proof -
  obtain g k u where l: "l = g @ k" "ms * 1000000 \<le> u" "afterwards (begun_until f ms) {SawTime u} g" "\<forall>c\<in>C. (c, None) \<in> set k"
    using assms(3) unfolding since_def by blast
  have "deadline_checked f l"
    unfolding deadline_checked_def using l assms(2) unfolding since_def [of _ "since N P D" for N P D] by blast
  moreover have "begun_until f ms g" using l(3) grown_facts(9) [of f ms] unfolding since_def grown_def by blast
  then have "fence_begun f g" using assms(1) unfolding begun_until_def fence_begun_def by (metis begin_of.simps(2))
  then have "fence_begun f l" using grown_facts(1) [of f] l(1) unfolding grown_def by blast
  ultimately show ?thesis by (simp add: cleared_def)
qed

text \<open>After the deletion: the facts are seen again, the journal and Redis are told.\<close>

lemma untouching_keeps: "\<not> touches c \<Longrightarrow> \<not> destroys c"
  by (cases c) (simp_all add: touches_def)

lemma force_end_stages:
  assumes "rf_kind f = FORCE_REBUILD"
  shows "rf_writer f = w \<Longrightarrow> stage (cleared f) (recheck_force_safety env r w) (\<lambda>_ l. cleared f l \<and> rechecked f l)"
    and "stage (\<lambda>l. cleared f l \<and> rechecked f l) (if op_phase x = ACTIVE then
        seq (invoke (oe_mark_delete env x) (OMarkDelete x)) (\<lambda>y.
          seq (raise (fail_when (validate_persisted y \<noteq> None \<or> \<not> op_force_complete y \<or> op_id y \<noteq> op_id x) (wraps ErrCoordinationCorrupt)))
            (\<lambda>_. ret y)) else ret x) (\<lambda>_ l. cleared f l \<and> rechecked f l)"
    and "stage (\<lambda>l. cleared f l \<and> rechecked f l) (invoke op (OForceDeleted r f)) (\<lambda>_. cleared f)"
proof -
  have appends: "rechecked f (l @ [(c, e)])" if "rechecked f l" "\<not> destroys c" for l c e
    using that since_appends [where N = "\<lambda>c. \<not> destroys c" and k = "[(c, e)]"] unfolding rechecked_def by fastforce
  have keep: "stage (cleared f) (recheck_force_safety env r w) (\<lambda>_. cleared f)"
    by (rule placid_stage [OF grown_cleared placid_programs(11)])
  have see: "stage (\<lambda>_. True) (recheck_force_safety env r w) (\<lambda>_ l. \<exists>C. safety w C \<and> since (\<lambda>c. \<not> destroys c) (\<lambda>_. True) C l)"
    by (rule recheck_stage) (rule untouching_keeps)
  show "stage (cleared f) (recheck_force_safety env r w) (\<lambda>_ l. cleared f l \<and> rechecked f l)" if "rf_writer f = w"
    using stage_both [OF keep see] that by (simp add: rechecked_def)
  have mark: "stage (\<lambda>l. cleared f l \<and> rechecked f l) (invoke op (OMarkDelete x)) (\<lambda>_ l. cleared f l \<and> rechecked f l)"
    for op :: "('a, operation_record result) state"
    by (rule stage_invoke) (use assms grown_cleared [of f] appends in \<open>auto simp: operator_order_def grown_def cleared_def\<close>)
  show "stage (\<lambda>l. cleared f l \<and> rechecked f l) (if op_phase x = ACTIVE then
        seq (invoke (oe_mark_delete env x) (OMarkDelete x)) (\<lambda>y.
          seq (raise (fail_when (validate_persisted y \<noteq> None \<or> \<not> op_force_complete y \<or> op_id y \<noteq> op_id x) (wraps ErrCoordinationCorrupt)))
            (\<lambda>_. ret y)) else ret x) (\<lambda>_ l. cleared f l \<and> rechecked f l)"
    by (intro triple_if stage_then [OF mark] stage_check stage_ret)
  show "stage (\<lambda>l. cleared f l \<and> rechecked f l) (invoke op (OForceDeleted r f)) (\<lambda>_. cleared f)"
    by (rule stage_invoke) (use assms grown_cleared [of f] in \<open>auto simp: operator_order_def grown_def cleared_def\<close>)
qed

lemma force_pass_stage:
  "stage (special_started FORCE_REBUILD res) (apply_force_delete_pass n env r res) (\<lambda>res' l. \<not> sr_terminal res' \<and> cleared (sr_fence res') l)"
proof (cases "(sr_terminal res, op_force_not_before (sr_record res))")
  case (Pair terminal not_before)
  show ?thesis
  proof (cases "terminal \<or> not_before = None")
    case True
    with Pair have "apply_force_delete_pass n env r res = err [ErrInvalidRecoveryState]"
      unfolding apply_force_delete_pass_def by (auto split: bool.splits option.splits)
    then show ?thesis by (simp only:) (rule stage_err)
  next
    case False
    then obtain t where t: "not_before = Some t" "\<not> terminal" by auto
    with Pair have res: "\<not> sr_terminal res" "op_force_not_before (sr_record res) = Some t" by auto
    let ?f = "sr_fence res" and ?w = "op_current_writer (sr_record res)"
    show ?thesis
    proof (cases "rf_kind ?f = FORCE_REBUILD")
      case False
      with res show ?thesis by (simp add: special_started_def triple_def)
    next
      case kind: True
      have live: "sr_terminal res = False" using res by simp
      let ?ms = "unix_ms (Some t)"
      let ?late = "\<lambda>l. \<exists>u. ?ms * 1000000 \<le> u \<and> afterwards (begun_until ?f ?ms) {SawTime u} l"
      show ?thesis
      proof (cases "rf_writer ?f = ?w")
        case False
        with res kind show ?thesis by (simp add: special_started_def triple_def)
      next
        case writer: True
        have late: "?ms * 1000000 \<le> fst t" by (cases t) (simp add: unix_ms_def minus_mod_eq_div_mult [symmetric])
        have waited: "stage (special_started FORCE_REBUILD res) (wait_for_force_deadline n env r ?f (fst t)) (\<lambda>_. ?late)"
          by (rule stage_weaken [OF wait_stage [OF late]]) (use res in \<open>auto simp: special_started_def\<close>)
        have recheck: "stage ?late (recheck_force_safety env r ?w) (\<lambda>_. cleared ?f)"
          by (rule stage_weaken [OF recheck_stage [where N = "\<lambda>_. True" and P = ?late]])
            (use cleared_late [OF kind] writer in \<open>auto simp del: split_paired_Ex\<close>)
        note final = force_end_stages [OF kind]
        show ?thesis
          unfolding apply_force_delete_pass_def res prod.case option.case Let_def live bool.case
          by (rule stage_then [OF waited], rule stage_then [OF recheck], rule stage_then [OF delete_stages(2) [OF kind]],
              rule stage_then [OF final(1) [OF writer]], rule stage_then [OF final(2)], rule stage_then [OF final(3)], rule stage_ret) (use res in simp)
      qed
    qed
  qed
qed

subsection \<open>Apply\<close>

lemma telemetry_stage:
  assumes "stage untouched m (\<lambda>_. settled)"
  shows "stage untouched (with_apply_telemetry r m) (\<lambda>_. settled)"
proof -
  have tell: "stage (\<lambda>l. case x of Inl _ \<Rightarrow> True | Inr _ \<Rightarrow> settled l)
      (if validate_resource r = None then tell (RTelemetry SigRecovery outcome 0) else ret ())
      (\<lambda>_ l. case x of Inl _ \<Rightarrow> True | Inr _ \<Rightarrow> settled l)" for x :: "unit result" and outcome
  proof -
    have "placid (\<lambda>l. orderly l \<and> (case x of Inl _ \<Rightarrow> True | Inr _ \<Rightarrow> settled l))"
      using placid_settled placid_grown [OF grown_facts(8) [of True]] by (cases x) simp_all
    then show ?thesis by (intro stage_stays keeping placid_call(2)) simp_all
  qed
  have last: "stage (\<lambda>l. case x of Inl _ \<Rightarrow> True | Inr _ \<Rightarrow> settled l) (of_result x) (\<lambda>_. settled)" for x :: "unit result"
    by (cases x) (auto intro!: triples)
  show ?thesis
    unfolding with_apply_telemetry_def Let_def
    by (rule stage_then [OF stage_attempt [OF assms]], rule stage_then [OF tell], rule last)
qed

lemma apply_stages:
  assumes "faithful_fence (en_journal (oe_rec env))"
  shows "stage untouched (apply_writer_rebind H n env r old a) (\<lambda>_. settled)"
    and "stage untouched (apply_redis_force_rebuild H n env r discard) (\<lambda>_. settled)"
proof -
  have rebind: "stage (special_started WRITER_REBIND res) (finish_special H n env res (recheck_writer env old target)) (\<lambda>_. settled)" for res target
    by (rule stage_weaken [OF finish_special_stage [OF placid_programs(8)]]) (auto simp: special_started_def cleared_def split: if_splits)
  show "stage untouched (apply_writer_rebind H n env r old a) (\<lambda>_. settled)"
    unfolding apply_writer_rebind_def
    by (rule telemetry_stage, rule stage_then [OF untouched_programs(6)], rule stage_then [OF untouched_programs(9)], rule stage_check,
        rule stage_then [OF untouched_programs(7)], rule stage_check, rule stage_then [OF start_stages(1) [OF assms]], rule rebind)
  have force: "stage (\<lambda>l. \<not> sr_terminal res \<and> cleared (sr_fence res) l)
      (finish_special H n env res (recheck_force_safety env r (op_current_writer (sr_record res)))) (\<lambda>_. settled)" for res
    by (rule stage_weaken [OF finish_special_stage [OF placid_programs(11)]]) auto
  have skip: "stage (special_started FORCE_REBUILD res) (ret ()) (\<lambda>_. settled)" if "sr_terminal res" for res
    using that by (intro stage_ret) (simp add: special_started_def)
  show "stage untouched (apply_redis_force_rebuild H n env r discard) (\<lambda>_. settled)"
    unfolding apply_redis_force_rebuild_def
    by (rule telemetry_stage, rule stage_then [OF untouched_programs(6)], rule stage_then [OF untouched_programs(9)], rule stage_check,
        rule stage_then [OF untouched_programs(8)], rule stage_check, rule stage_then [OF start_stages(2) [OF assms]], rule triple_if,
        rule skip, assumption, rule stage_then [OF force_pass_stage], rule force)
qed

subsection \<open>The repair\<close>

definition repair_started :: "repair_begin \<Rightarrow> rec_event list \<Rightarrow> bool" where
  "repair_started b h \<longleftrightarrow> (if rg_terminal b then settled h
     else fence_begun (rg_fence b) h \<and> rf_kind (rg_fence b) = RABBIT_REPAIR \<and> (op_phase (rg_record b) = READY_COMMITTED \<longrightarrow> ready_committed h))"

lemma placid_repair_started: "placid (\<lambda>l. orderly l \<and> repair_started b l)"
proof (cases "rg_terminal b")
  case True
  then show ?thesis using placid_settled by (simp add: repair_started_def)
next
  case False
  have "grown (\<lambda>l. fence_begun (rg_fence b) l \<and> rf_kind (rg_fence b) = RABBIT_REPAIR \<and> (op_phase (rg_record b) = READY_COMMITTED \<longrightarrow> ready_committed l))"
    by (intro grown_both grown_facts)
  then show ?thesis using placid_grown False by (simp add: repair_started_def)
qed

lemma repair_programs:
  assumes "placid J"
  shows "stays J (repair_context env)" "stays J (repair_check_lock env lock)" "stays J (renew_and_check env lock)"
    "stays J (next_identity env)" "stays J (release_bounded env lock)" "stays J (capture_repair_high_water env)"
    "stays J (inspect_repair_start env lock)" "stays J (session_read renv)"
proof -
  note call = placid_call [OF assms] keeping
  show "stays J (repair_context env)" unfolding repair_context_def by (intro call)
  show check: "stays J (repair_check_lock env lock)" unfolding repair_check_lock_def by (rule placid_programs(14) [OF assms])
  show "stays J (renew_and_check env lock)" unfolding renew_and_check_def by (intro check call; simp)
  show "stays J (next_identity env)" unfolding next_identity_def by (intro call; simp)
  show "stays J (release_bounded env lock)" unfolding release_bounded_def by (intro call; simp)
  show "stays J (capture_repair_high_water env)" unfolding capture_repair_high_water_def by (intro call; simp)
  show "stays J (inspect_repair_start env lock)" unfolding inspect_repair_start_def by (intro call; simp)
  show "stays J (session_read renv)" unfolding session_read_def by (intro call; simp)
qed

lemma plan_start_stage:
  "stage untouched (plan_start env found snap) (\<lambda>start l. untouched l \<and> op_kind (rs_proposal start) = RABBIT_REPAIR)"
proof -
  have token: "stage untouched (next_identity env) (\<lambda>_. untouched)"
    by (rule stage_stays [OF repair_programs(4) [OF placid_untouched]])
  have resume: "stage untouched (seq (of_result (begin_control env snap (op_id r) (Some r))) (\<lambda>terminal.
      ret \<lparr> rs_record = r, rs_expected = Some r, rs_proposal = repair_proposal env (op_id r), rs_terminal = terminal \<rparr>))
      (\<lambda>start l. untouched l \<and> op_kind (rs_proposal start) = RABBIT_REPAIR)" for r
    by (rule stage_result, rule stage_ret) (simp add: repair_proposal_def)
  have fresh: "stage untouched (seq (next_identity env) (\<lambda>operation.
           seq (raise (e operation)) (\<lambda>_.
           seq (of_result (begin_control env snap operation None)) (\<lambda>_.
             ret \<lparr> rs_record = zero_record, rs_expected = found, rs_proposal = repair_proposal env operation, rs_terminal = False \<rparr>))))
      (\<lambda>start l. untouched l \<and> op_kind (rs_proposal start) = RABBIT_REPAIR)" for e
    by (rule stage_then [OF token], rule stage_check, rule stage_result, rule stage_ret) (simp add: repair_proposal_def)
  show ?thesis
  proof (cases "record_unfinished found")
    case True
    then obtain r where r: "found = Some r" by (cases found) (auto simp: record_unfinished_def)
    with True have "record_unfinished (Some r) = True" by simp
    then show ?thesis unfolding plan_start_def r by (simp only: prod.case bool.case option.case) (rule stage_check, rule resume)
  next
    case False
    then show ?thesis unfolding plan_start_def by (simp only: prod.case bool.case) (rule stage_check, rule fresh)
  qed
qed

lemma begin_repair_stage:
  assumes kind: "op_kind (rs_proposal start) = RABBIT_REPAIR"
  shows "stage untouched (begin_repair env lock start) repair_started"
proof -
  let ?E = "rs_expected start" and ?p = "rs_proposal start"
  define Q :: "rec_event list \<Rightarrow> bool" where "Q = (\<lambda>l. (OBeginSpecial ?E ?p, None) \<in> set l)"
  have Q: "grown Q" unfolding Q_def by (rule grown_facts)
  have renew: "stage untouched (renew_and_check env lock) (\<lambda>_. untouched)"
    by (rule stage_stays [OF repair_programs(3) [OF placid_untouched]])
  have special: "stage untouched (invoke op (OBeginSpecial ?E ?p)) (\<lambda>_. Q)" for op :: "('a, operation_record result) state"
    by (rule stage_invoke) (simp_all add: operator_order_def Q_def)
  have lock: "stage Q (repair_check_lock env lock) (\<lambda>_. Q)" and inspect: "stage Q (inspect_repair_start env lock) (\<lambda>_. Q)"
    by (rule placid_stage [OF Q repair_programs(2)], assumption, rule placid_stage [OF Q repair_programs(7)], assumption)
  define R :: "operation_record \<Rightarrow> rec_event list \<Rightarrow> bool" where "R = (\<lambda>r l. Q l \<and> (\<exists>c. (c, None) \<in> set l \<and> begin_of c = Some (op_id r, RABBIT_REPAIR, lock)))"
  have begin_call: "stage Q (invoke op (OBeginRepair k w (op_id r) lock t)) (\<lambda>_. R r)" if "op_id r = op_id ?p"
    for r k w t and op :: "('a, recovery_fence result) state"
  proof (rule stage_invoke)
    show "operator_order l (OBeginRepair k w (op_id r) lock t, e)" if "Q l" for l e
      using that \<open>op_id r = op_id ?p\<close> kind unfolding Q_def operator_order_def journalled_def by auto
    show "R r (l @ [(OBeginRepair k w (op_id r) lock t, None)])" if "Q l" for l
      using that unfolding R_def Q_def by (intro conjI exI [of _ "OBeginRepair k w (op_id r) lock t"]) simp_all
  qed
  show ?thesis
    unfolding begin_repair_def Let_def
  proof (rule stage_check, rule stage_then [OF renew], rule stage_then [OF special], rule stage_check, rule stage_then [OF lock],
      rule stage_then [OF inspect], rule stage_result, rule stage_then, rule begin_call, goal_cases)
    case (1 u r)
    then show ?case by (auto simp: journal_record_ok_def fail_when_def wraps_def split: if_splits)
  next
    case (2 u r)
    then have phase: "op_phase r = (case ?E of None \<Rightarrow> ACTIVE | Some e \<Rightarrow> if op_phase e = READY_COMMITTED then READY_COMMITTED else ACTIVE)"
      by (auto simp: journal_record_ok_def fail_when_def wraps_def split: if_splits)
    show ?case
    proof (rule stage_check, rule stage_ret)
      fix f l
      assume "fail_when (validate_recovery_fence f \<noteq> None \<or> rf_kind f \<noteq> RABBIT_REPAIR \<or> rf_operation f \<noteq> op_id r
          \<or> rf_writer f \<noteq> rr_writer env \<or> rf_owner f \<noteq> lock) (wraps ErrCoordinationCorrupt) = None" and "R r l"
      moreover from this have "ready_committed l" if "op_phase r = READY_COMMITTED"
        using phase that unfolding ready_committed_def R_def Q_def by (auto split: option.splits if_splits)
      ultimately show "repair_started \<lparr> rg_lock = lock, rg_fence = f, rg_record = r, rg_terminal = False \<rparr> l"
        by (auto simp: repair_started_def fence_begun_def R_def fail_when_def wraps_def split: if_splits)
    qed
  qed
qed

lemma begin_with_lock_stage: "stage untouched (begin_with_lock env lock) repair_started"
proof -
  have untouched: "stage untouched (renew_and_check env lock) (\<lambda>_. untouched)" "stage untouched (inspect_repair_start env lock) (\<lambda>_. untouched)"
    "stage untouched (session_read (rr_rec env)) (\<lambda>_. untouched)" "stage settled (repair_check_lock env lock) (\<lambda>_. settled)"
    by (rule stage_stays, rule repair_programs [OF placid_untouched] repair_programs [OF placid_settled])+
  have complete: "stage untouched (invoke op (RComplete r)) (\<lambda>_. settled)" for r and op :: "('a, operation_record result) state"
    by (rule stage_invoke) (auto simp: operator_order_def settled_def)
  have terminal: "stage untouched (complete_repair env lock r) repair_started" for r
    unfolding complete_repair_def
    by (rule stage_then [OF untouched(1)], rule stage_then [OF complete], rule stage_then [OF untouched(4)], rule stage_check, rule stage_ret)
      (simp add: repair_started_def)
  have either: "stage (\<lambda>l. untouched l \<and> op_kind (rs_proposal start) = RABBIT_REPAIR)
      (if rs_terminal start then complete_repair env lock (rs_record start) else begin_repair env lock start) repair_started" for start
  proof (cases "op_kind (rs_proposal start) = RABBIT_REPAIR")
    case True
    show ?thesis
      by (simp only: True simp_thms) (rule triple_if, rule terminal, rule begin_repair_stage [OF True])
  next
    case False
    then show ?thesis by (simp add: triple_def)
  qed
  show ?thesis
    unfolding begin_with_lock_def
    by (rule stage_then [OF untouched(1)], rule stage_then [OF untouched(2)], rule stage_then [OF untouched(3)], rule stage_then [OF plan_start_stage],
        rule either)
qed

lemma start_repair_stage:
  assumes "faithful_fence (en_journal (rr_rec env))"
  shows "stage untouched (start_repair env) (\<lambda>(b, e) l. e = None \<longrightarrow> repair_started b l)"
proof -
  let ?P = "\<lambda>(b, e) l. e = None \<longrightarrow> repair_started b l"
  have call: "stage untouched (attempt (invoke op c)) (\<lambda>r l. case r of Inl _ \<Rightarrow> True | Inr _ \<Rightarrow> untouched l)" if "\<not> touches c"
    for c and op :: "('a, 'c result) state"
    by (rule stage_attempt, rule stage_stays [OF placid_call(1) [OF placid_untouched that]])
  have placid: "placid (\<lambda>l. orderly l \<and> ?P x l)" for x
    using placid_repair_started [of "fst x"] placid_grown [OF grown_facts(8) [of True]] by (cases "snd x") (auto simp: case_prod_unfold)
  have acquire: "stage untouched (attempt (seq (next_identity env) (\<lambda>own. invoke (op own) (RAcquire k own t))))
      (\<lambda>r l. case r of Inl _ \<Rightarrow> True | Inr _ \<Rightarrow> untouched l)" for k t and op :: "string \<Rightarrow> ('a, string result) state"
    by (rule stage_attempt, rule stage_then [OF stage_stays [OF repair_programs(4) [OF placid_untouched]]],
        rule stage_stays [OF placid_call(1) [OF placid_untouched]]) simp
  have body: "stage untouched (begin_with_start_fence env) ?P"
    unfolding begin_with_start_fence_def
  proof (rule stage_then [OF acquire], rule triple_sum, goal_cases)
    case (1 x e)
    then show ?case by (simp only: sum.case) (rule stage_ret, simp)
  next
    case (2 x lock)
    then show ?case
      by (simp only: sum.case) (rule stage_then [OF stage_attempt [OF begin_with_lock_stage]], rule stage_ret, auto split: sum.splits)
  qed
  have exit: "stage (?P (b, e)) (attempt (invoke (jo_exit (en_journal (rr_rec env)) e) (RExit e)))
      (\<lambda>q l. err_of q = None \<longrightarrow> repair_started b l)" for b e
  proof (cases e)
    case None
    have "stage (?P (b, e)) (invoke op (RExit e)) (\<lambda>_. ?P (b, e))" for op :: "('a, unit result) state"
      by (rule stage_stays [OF placid_call(1) [OF placid]]) simp
    from stage_attempt [OF this] show ?thesis
      by (rule stage_weaken) (use None in \<open>auto simp: err_of_def split: sum.splits\<close>)
  next
    case (Some ss)
    have "stage (\<lambda>_. True) (invoke (jo_exit (en_journal (rr_rec env)) e) (RExit e)) (\<lambda>_ _. False)"
      using assms Some unfolding faithful_fence_def
      by (intro triple_invoke) (auto simp: operator_order_def dest: arg_cong [where f = fst])
    from stage_attempt [OF this] show ?thesis
      by (rule stage_weaken) (auto simp: err_of_def split: sum.splits)
  qed
  have last: "stage (?P x) (case x of (b, e) \<Rightarrow> seq (attempt (invoke (jo_exit (en_journal (rr_rec env)) e) (RExit e))) (\<lambda>q. ret (b, err_of q))) ?P" for x
    by (cases x, simp only: prod.case) (rule stage_then [OF exit [unfolded prod.case]], rule stage_ret, simp)
  show ?thesis
    unfolding start_repair_def Let_def
  proof (rule stage_then [OF call], simp, rule triple_sum, goal_cases)
    case (1 x e)
    then show ?case by (simp only: sum.case) (rule stage_ret, simp)
  next
    case (2 x u)
    then show ?case by (simp only: sum.case) (rule stage_then [OF body], rule last)
  qed
qed

lemma stage_each: "(\<And>c. stage P (g c) (\<lambda>_. P)) \<Longrightarrow> stage P (each g cs) (\<lambda>_. P)"
proof (induction cs)
  case Nil
  show ?case unfolding each.simps by (rule stage_ret)
next
  case (Cons c cs)
  show ?case unfolding each.simps by (rule stage_then [OF Cons.prems], rule Cons.IH, rule Cons.prems)
qed

text \<open>The repair under its fence\<close>

lemma journal_writes_stage:
  assumes "journal_write c" and "call_fence c = None" and "\<And>h e. operator_order h (c, e)" and "grown P"
  shows "stage P (invoke op c) (\<lambda>_. P)"
  by (rule stage_invoke) (use assms(3,4) in \<open>auto simp: grown_def\<close>)

definition committed_as :: "operation_record \<Rightarrow> rec_event list \<Rightarrow> bool" where
  "committed_as r h \<longleftrightarrow> (op_phase r = READY_COMMITTED \<longrightarrow> ready_committed h)"

lemma repair_pass_stage:
  assumes "rf_kind f \<noteq> FORCE_REBUILD"
  shows "stage (\<lambda>l. cleared f l \<and> committed_as r0 l) (run_repair_pass n env f r0) (\<lambda>r l. cleared f l \<and> committed_as r l)"
proof -
  have G: "grown (\<lambda>l. cleared f l \<and> committed_as r l)" for r
    unfolding committed_as_def by (intro grown_both grown_cleared grown_facts)
  have C: "grown (committed_as r)" for r unfolding committed_as_def by (intro grown_both grown_facts)
  have renew: "stage (\<lambda>l. cleared f l \<and> P l) (repair_renew env f) (\<lambda>_ l. cleared f l \<and> P l)" if "grown P" for P
    unfolding repair_renew_def by (rule fenced_call [OF _ _ that]) simp_all
  have capture: "stage P (capture_repair_high_water env) (\<lambda>_. P)" if "grown P" for P
    by (rule placid_stage [OF that repair_programs(6)])
  have set: "stage P (invoke op (OSetRepair r hw)) (\<lambda>_. P)" if "grown P" for P r hw and op :: "('a, operation_record result) state"
    by (rule journal_writes_stage [OF _ _ _ that]) (simp_all add: operator_order_def)
  have active: "committed_as u l" if "journal_record_ok env u i ACTIVE = None" for u i l
    using that by (auto simp: journal_record_ok_def committed_as_def fail_when_def wraps_def split: if_splits)
  have first: "stage (\<lambda>l. cleared f l \<and> committed_as r0 l) (set_high_water_step env f r0) (\<lambda>r l. cleared f l \<and> committed_as r l)"
    unfolding set_high_water_step_def
  proof (rule triple_if, rule stage_ret, assumption, rule stage_then [OF renew [OF C]], rule stage_then [OF capture [OF G]],
      rule stage_then [OF renew [OF C]], rule stage_then [OF set [OF G]], rule stage_check, rule stage_ret, goal_cases)
    case (1 _ hw _ u l)
    then show ?case using active [of u "rf_operation f"] by (auto simp: fail_when_def wraps_def split: if_splits)
  qed
  define M where "M = (\<lambda>r l. mirrored l \<and> committed_as r l)"
  have M: "grown (M r)" for r unfolding M_def by (intro grown_both grown_facts C)
  have mirror: "stage (\<lambda>l. cleared f l \<and> committed_as r l) (invoke op (ORepairHighWater k f hw)) (\<lambda>_ l. cleared f l \<and> M r l)"
    for r k hw and op :: "('a, unit result) state"
    by (rule stage_invoke)
      (use G [of r] in \<open>auto simp: operator_order_def cleared_def M_def mirrored_def grown_def\<close>)
  have rearm: "stage (\<lambda>l. cleared f l \<and> M r l) (rearm_candidate env c) (\<lambda>_ l. cleared f l \<and> M r l)" for r c
  proof -
    have "stage (\<lambda>l. cleared f l \<and> M r l) (invoke op (ORearm c)) (\<lambda>_ l. cleared f l \<and> M r l)" for op :: "('a, (dispatch_candidate \<times> bool) result) state"
      by (rule stage_invoke) (use M [of r] grown_cleared [of f] in \<open>auto simp: operator_order_def M_def grown_def\<close>)
    then show ?thesis
      unfolding rearm_candidate_def
      by (rule stage_then) (rule triple_prod, rule triple_if, rule stage_ret, assumption, rule stage_weaken [OF stage_raise [where P = "\<lambda>l. cleared f l \<and> M r l"]], simp_all)
  qed
  have scan: "stage (\<lambda>l. cleared f l \<and> M r l) (scan_candidates k env hw (repair_renew env f) (rearm_candidate env) t after)
      (\<lambda>_ l. cleared f l \<and> M r l)" for k r hw t after
  proof (induction k arbitrary: t after)
    case 0
    then show ?case by (auto intro!: triples)
  next
    case (Suc k)
    have J: "grown (\<lambda>l. cleared f l \<and> M r l)" by (intro grown_both grown_cleared M)
    have alive: "stage (\<lambda>l. cleared f l \<and> M r l) (repair_context env) (\<lambda>_ l. cleared f l \<and> M r l)"
      by (rule placid_stage [OF J repair_programs(1)])
    have page: "stage (\<lambda>l. cleared f l \<and> M r l) (invoke op (OCandidates hw after limit)) (\<lambda>_ l. cleared f l \<and> M r l)"
      for limit and op :: "('a, dispatch_candidate recovery_page result) state"
      by (rule placid_stage [OF J], rule placid_call(1)) simp_all
    have visit: "stage (\<lambda>l. cleared f l \<and> M r l) (seq (raise (candidate_ok env c)) (\<lambda>_. rearm_candidate env c)) (\<lambda>_ l. cleared f l \<and> M r l)" for c
      by (rule stage_check, rule rearm)
    show ?case
      unfolding scan_candidates.simps Let_def
      by (rule stage_then [OF alive], rule stage_then [OF renew [OF M]], rule stage_then [OF page], rule stage_check, rule stage_check,
          rule stage_then [OF stage_each [OF visit]], rule stage_then [OF renew [OF M]], rule triple_if, rule stage_ret, assumption, rule Suc.IH)
  qed
  have mark: "stage (\<lambda>l. cleared f l \<and> M r l) (invoke op (OMarkRepair x)) (\<lambda>_ l. cleared f l \<and> M r l)" for r x and op :: "('a, operation_record result) state"
    by (rule journal_writes_stage) (simp_all add: operator_order_def grown_both grown_cleared M)
  have second: "stage (\<lambda>l. cleared f l \<and> M r l) (rearm_step n env f r hw) (\<lambda>u l. cleared f l \<and> committed_as u l)" for r hw
    unfolding rearm_step_def
  proof (rule triple_if, rule stage_ret, goal_cases)
    case (1 l)
    then show ?case by (simp add: M_def)
  next
    case 2
    show ?case
    proof (rule stage_then [OF scan], rule stage_then [OF mark], rule stage_check, rule stage_ret, goal_cases)
      case (1 _ u l)
      then show ?case using active [of u "rf_operation f"] by (auto simp: fail_when_def wraps_def split: if_splits)
    qed
  qed
  have done_: "stage (\<lambda>l. cleared f l \<and> committed_as u l) (invoke op (ORepairDone k f)) (\<lambda>_ l. cleared f l \<and> committed_as u l)"
    for u k and op :: "('a, unit result) state"
    by (rule fenced_call [OF _ _ C]) simp_all
  show ?thesis
    unfolding run_repair_pass_def
    by (rule stage_then [OF first], rule triple_option, rule stage_err, rule stage_check, rule stage_then [OF mirror],
        rule stage_then [OF second], rule stage_check, rule stage_then [OF done_], rule stage_ret)
qed

lemma repair_body_stage:
  assumes "rf_kind f \<noteq> FORCE_REBUILD"
  shows "stage (\<lambda>l. cleared f l \<and> committed_as r0 l) (repair_body H n env f r0) (\<lambda>_ l. cleared f l \<and> pass_done l \<and> ready_committed l)"
proof -
  have C: "grown (committed_as r)" for r unfolding committed_as_def by (intro grown_both grown_facts)
  have CP: "grown (\<lambda>l. committed_as r l \<and> pass_done l)" for r by (intro grown_both grown_facts C)
  have both: "grown (\<lambda>l. pass_done l \<and> ready_committed l)" by (intro grown_both grown_facts)
  have renew: "stage (\<lambda>l. cleared f l \<and> P l) (repair_renew env f) (\<lambda>_ l. cleared f l \<and> P l)" if "grown P" for P
    unfolding repair_renew_def by (rule fenced_call [OF _ _ that]) simp_all
  have drain: "stage (\<lambda>l. cleared f l \<and> committed_as r l) (drain_attempts (rr_rec env) cf) (\<lambda>_ l. cleared f l \<and> committed_as r l)" for r cf
    by (rule stage_stays [OF rebuild_stays(1) [OF grows_cleared [OF C]]])
  have run: "stage (\<lambda>l. cleared f l \<and> committed_as r l) (run_recovery H n (rr_rec env) cf f) (\<lambda>_ l. cleared f l \<and> committed_as r l \<and> pass_done l)" for r cf
    using run_recovery_reports [OF grows_cleared [OF C]] by (rule triple_post) (simp_all add: pass_done_def)
  have commit: "stage (\<lambda>l. cleared f l \<and> committed_as r l \<and> pass_done l) (invoke op (OCommitReady r)) (\<lambda>_ l. cleared f l \<and> pass_done l \<and> ready_committed l)"
    for r and op :: "('a, operation_record result) state"
    by (rule stage_invoke)
      (use grown_cleared [of f] grown_facts(2) in \<open>auto simp: operator_order_def grown_def ready_committed_def\<close>)
  have committed: "stage (\<lambda>l. cleared f l \<and> committed_as r l \<and> pass_done l)
      (if op_phase r = ACTIVE then seq (invoke (rr_commit env r) (OCommitReady r)) (\<lambda>u. seq (raise (journal_record_ok env u (rf_operation f) READY_COMMITTED)) (\<lambda>_. ret u))
       else ret r) (\<lambda>u l. cleared f l \<and> pass_done l \<and> committed_as u l)" for r
    by (rule triple_if, rule stage_then [OF commit], rule stage_check, rule stage_ret, simp add: committed_as_def, rule stage_ret, simp)
  have last: "stage (\<lambda>l. cleared f l \<and> pass_done l \<and> committed_as u l)
      (seq (raise (fail_when (op_phase u \<noteq> READY_COMMITTED) (wraps ErrInvalidOperationRecord))) (\<lambda>_. seq (repair_renew env f) (\<lambda>_. ret u)))
      (\<lambda>_ l. cleared f l \<and> pass_done l \<and> ready_committed l)" for u
  proof (rule stage_check)
    assume "fail_when (op_phase u \<noteq> READY_COMMITTED) (wraps ErrInvalidOperationRecord) = None"
    then have u: "op_phase u = READY_COMMITTED" by (simp add: fail_when_def wraps_def split: if_splits)
    have "stage (\<lambda>l. cleared f l \<and> pass_done l \<and> ready_committed l) (seq (repair_renew env f) (\<lambda>_. ret u))
      (\<lambda>_ l. cleared f l \<and> pass_done l \<and> ready_committed l)"
      by (rule stage_then [OF renew [OF both]], rule stage_ret)
    then show "stage (\<lambda>l. cleared f l \<and> pass_done l \<and> committed_as u l) (seq (repair_renew env f) (\<lambda>_. ret u))
      (\<lambda>_ l. cleared f l \<and> pass_done l \<and> ready_committed l)"
      using u by (simp add: committed_as_def)
  qed
  show ?thesis
    unfolding repair_body_def
    by (rule stage_then [OF drain], rule stage_then [OF repair_pass_stage [OF assms]], rule stage_then [OF run], rule stage_then [OF renew [OF CP]],
        rule stage_then [OF committed], rule last)
qed

lemma repair_apply_stage:
  assumes "faithful_fence (en_journal (rr_rec env))"
  shows "stage untouched (repair_apply H n env a) (\<lambda>_. settled)"
proof -
  have alive: "stage untouched (repair_context env) (\<lambda>_. untouched)"
    by (rule stage_stays [OF repair_programs(1) [OF placid_untouched]])
  have release: "stage P (release_bounded env lock) (\<lambda>_. P)" if "placid (\<lambda>l. orderly l \<and> P l)" for P lock
    by (rule stage_stays [OF repair_programs(5) [OF that]])
  have settled_or: "placid (\<lambda>l. orderly l \<and> (case r of Inl _ \<Rightarrow> True | Inr _ \<Rightarrow> settled l))" for r :: "unit result"
    using placid_settled placid_grown [OF grown_facts(8) [of True]] by (cases r) simp_all
  have failed: "stage (\<lambda>l. (Some ss :: goerr) = None \<longrightarrow> repair_started b l) (seq (release_bounded env (rg_lock b)) (\<lambda>_. err ss)) (\<lambda>_. settled)" for ss b
  proof -
    have "stage (\<lambda>_. True) (seq (release_bounded env (rg_lock b)) (\<lambda>_. err ss)) (\<lambda>_. settled)"
      by (rule stage_then [OF release [OF placid_grown [OF grown_facts(8) [of True]]]], rule stage_err)
    then show ?thesis by (rule stage_weaken) simp_all
  qed
  have work: "stage (repair_started b) (if rg_terminal b then ret () else repair_work H n env b) (\<lambda>_. settled)" for b
  proof (cases "rg_terminal b")
    case True
    show ?thesis by (simp only: True if_True) (rule stage_ret, simp add: repair_started_def True)
  next
    case live: False
    let ?f = "rg_fence b"
    have renewals: "stage (\<lambda>l. cleared ?f l \<and> pass_done l \<and> ready_committed l) (invoke op RRenewals) (\<lambda>_ l. cleared ?f l \<and> pass_done l \<and> ready_committed l)"
      for op :: "('a, unit result) state"
      by (rule placid_stage, intro grown_both grown_cleared grown_facts, rule placid_call(1)) simp_all
    have any_renewals: "stage (\<lambda>_. True) (attempt (invoke op RRenewals)) (\<lambda>_ _. True)" for op :: "('a, unit result) state"
      by (rule stage_stays, intro keeping placid_call(1) placid_grown grown_facts) simp
    have complete: "stage redis_finished (invoke op (RComplete x)) (\<lambda>_. settled)" for x and op :: "('a, operation_record result) state"
      by (rule stage_invoke) (auto simp: operator_order_def settled_def)
    have "stage (\<lambda>l. cleared ?f l \<and> committed_as (rg_record b) l) (repair_work H n env b) (\<lambda>_. settled)" if "rf_kind ?f \<noteq> FORCE_REBUILD"
    proof -
      have body: "stage (\<lambda>l. cleared ?f l \<and> committed_as (rg_record b) l) (renewing env (repair_body H n env ?f (rg_record b)))
          (\<lambda>_ l. cleared ?f l \<and> pass_done l \<and> ready_committed l)"
        unfolding renewing_def
      proof (rule stage_then [OF stage_attempt [OF repair_body_stage [OF that]]], rule triple_sum, goal_cases)
        case (1 x e)
        then show ?case by (simp only: sum.case) (rule stage_then [OF any_renewals], rule stage_err)
      next
        case (2 x y)
        then show ?case by (simp only: sum.case) (rule stage_ret)
      qed
      show ?thesis
        unfolding repair_work_def
        by (rule stage_then [OF body], rule stage_then [OF renewals], rule stage_then [OF coordinator_finish_stage], rule stage_check,
            rule stage_then [OF complete], rule stage_weaken [OF stage_raise [where P = settled]]) simp_all
    qed
    then show ?thesis using live
      by (cases "rf_kind ?f = RABBIT_REPAIR") (simp_all add: repair_started_def cleared_def committed_as_def triple_def)
  qed
  have last: "stage (\<lambda>l. (None :: goerr) = None \<longrightarrow> repair_started b l)
      (seq (attempt (if rg_terminal b then ret () else repair_work H n env b)) (\<lambda>r. seq (release_bounded env (rg_lock b)) (\<lambda>_. of_result r)))
      (\<lambda>_. settled)" for b
  proof (simp only: simp_thms, rule stage_then [OF stage_attempt [OF work]], rule stage_then [OF release [OF settled_or]], goal_cases)
    case (1 r)
    then show ?case by (cases r) (auto intro!: triples)
  qed
  show ?thesis
    unfolding repair_apply_def
  proof (rule stage_then [OF alive], rule stage_check, rule stage_then [OF start_repair_stage [OF assms]], rule triple_prod, goal_cases)
    case (1 _ x b e)
    note x = 1(2)
    show ?case
    proof (cases e)
      case None
      show ?thesis unfolding x None prod.case option.case by (rule last)
    next
      case (Some ss)
      show ?thesis unfolding x Some prod.case option.case by (rule failed)
    qed
  qed
qed

subsection \<open>Checks, confirmation and order\<close>

lemma scan_pages_stay: "placid J \<Longrightarrow> (\<And>after. stays J (fetch after)) \<Longrightarrow> stays J (scan_pages n ok limit fetch t after)"
  by (induction n arbitrary: t after) (auto intro!: keeping)

lemma scan_candidates_stay:
  "placid J \<Longrightarrow> stays J around \<Longrightarrow> (\<And>c. stays J (visit c)) \<Longrightarrow> stays J (scan_candidates n env hw around visit t after)"
  by (induction n arbitrary: t after) (auto simp: Let_def intro!: keeping repair_programs(1) placid_call(1))

text \<open>The checks of the operators write neither the journal nor the state of the resource.\<close>

lemma checks_touch_nothing:
  assumes "placid J"
  shows "stays J (operator_check_rebind env r old)" "stays J (check_redis_force_rebuild n env r)" "stays J (repair_check n renv)"
proof -
  note call = placid_call [OF assms] keeping and parts = placid_programs [OF assms] repair_programs [OF assms]
  show "stays J (operator_check_rebind env r old)" unfolding operator_check_rebind_def by (intro parts call)
  have control: "stays J (inspect_control_for_report env r)" unfolding inspect_control_for_report_def by (intro call; simp)
  have source: "stays J (scan_recovery_source n env limit)" for limit
    unfolding scan_recovery_source_def Let_def by (intro call scan_pages_stay assms; simp)
  show "stays J (check_redis_force_rebuild n env r)"
    unfolding check_redis_force_rebuild_def Let_def by (intro parts control source call)
  show "stays J (repair_check n renv)"
    unfolding repair_check_def Let_def by (intro parts scan_candidates_stay assms call; simp)
qed

text \<open>C26: An operator does nothing without its confirmation. If the attestation of a rebind, the confirmation that a forced rebuild
  may discard the state of Redis, or the attestation of a repair is not complete, the operator returns an error, and none of
  its calls, whatever they return, writes the journal, begins a recovery or changes the state of the resource.\<close>

theorem operators_need_confirmation:
  assumes "\<not> (ra_fenced a \<and> ra_stopped a \<and> ra_authoritative a)" and "\<not> discard" and "\<not> (fst b \<and> snd b)"
    and "m \<in> {apply_writer_rebind H n env r old a, apply_redis_force_rebuild H n env r discard, repair_apply H n renv b}"
    and "run_state m (w, []) = (x, (w', l))"
  shows "(\<exists>e. x = Err e) \<and> untouched l"
proof -
  let ?E = "\<lambda>e (s :: 'a \<times> rec_event list). (e :: goerr) \<noteq> None \<and> untouched (snd s)" and ?I = "\<lambda>s :: 'a \<times> rec_event list. untouched (snd s)"
  have deny: "triple ?E ?I (seq (raise e) f) (\<lambda>_ _. False)" if "e \<noteq> None"
    for e and f :: "unit \<Rightarrow> ('a, unit) rec" using that by (cases e) (simp_all add: seq_def raise_def err_def triple_def)
  have raise: "triple ?E ?I (raise e) (\<lambda>_. ?I)" for e by (auto intro!: triples)
  have "triple ?E ?I (seq (sense op) raise) (\<lambda>_. ?I)" for op :: "('a, goerr) state"
    by (rule triple_seq [OF triple_sense [where Q = "\<lambda>_. ?I"] raise]) simp
  then have alive: "triple ?E ?I (check_context env) (\<lambda>_. ?I)" "triple ?E ?I (check_resource env r) (\<lambda>_. ?I)"
    "triple ?E ?I (repair_context renv) (\<lambda>_. ?I)"
    using raise by (simp_all add: check_context_def check_resource_def repair_context_def)
  have telemetry: "triple ?E ?I (with_apply_telemetry r p) (\<lambda>_ _. False)" if p: "triple ?E ?I p (\<lambda>_ _. False)" for p :: "('a, unit) rec"
  proof -
    have fails: "triple ?E ?I (attempt p) (\<lambda>x s. untouched (snd s) \<and> (\<exists>e. x = Inl e))"
      by (rule triple_attempt, rule triple_post [OF p]) (auto split: option.splits)
    have report: "triple ?E (\<lambda>s. untouched (snd s) \<and> (\<exists>e. x = Inl e))
        (if validate_resource r = None then tell (RTelemetry SigRecovery out 0) else ret ()) (\<lambda>_ s. untouched (snd s) \<and> (\<exists>e. x = Inl e))"
      for x :: "unit result" and out
      by (auto intro!: triples triple_tell simp: untouched_def)
    show ?thesis
      unfolding with_apply_telemetry_def Let_def
      by (rule triple_seq [OF fails], rule triple_seq [OF report]) (auto intro!: triples)
  qed
  have "triple ?E ?I m (\<lambda>_ _. False)"
    using assms(4)
  proof (elim insertE emptyE)
    assume "m = apply_writer_rebind H n env r old a"
    then show ?thesis
      unfolding apply_writer_rebind_def
      by (simp only:, intro telemetry triple_seq [OF alive(1)] triple_seq [OF alive(2)] deny)
        (use assms(1) in \<open>simp add: validate_rebind_attestation_def fail_when_def wraps_def\<close>)
  next
    assume "m = apply_redis_force_rebuild H n env r discard"
    then show ?thesis
      unfolding apply_redis_force_rebuild_def
      by (simp only:, intro telemetry triple_seq [OF alive(1)] triple_seq [OF alive(2)] deny)
        (use assms(2) in \<open>simp add: fail_when_def wraps_def\<close>)
  next
    assume "m = repair_apply H n renv b"
    then show ?thesis
      unfolding repair_apply_def
      by (simp only:, intro triple_seq [OF alive(3)] deny) (use assms(3) in \<open>simp add: fail_when_def wraps_def\<close>)
  qed
  from tripleD [OF this _ assms(5)] show ?thesis by (cases x) (auto simp: untouched_def)
qed

text \<open>C24: The operators of special recoveries act in order, whatever their clients answer. Every call that changes the state of
  the resource is fenced by a recovery that a call before it has begun; a recovery is only begun for an operation that
  has been written to the journal. A forced rebuild destroys nothing before, after it was begun, Redis has shown a time at or past
  the deadline of that begin, and after that the answers have come that its writer is the current one, that RabbitMQ holds the
  truth and that Redis is a writable standalone primary; and the same answers have come again since its last deletion before the journal or
  Redis is told that the deletion is complete. A repair arms a task only after its high water is in Redis. READY is committed to the
  journal only after a complete pass, Redis is made READY only after that, and the operation is completed only after
  Redis is READY, or when it had been before. An operator that returns without an error has completed its operation or touched nothing.\<close>

theorem operators_act_in_order:
  assumes "faithful_fence (en_journal (oe_rec env))" and "faithful_fence (en_journal (rr_rec renv))"
    and "m \<in> {apply_writer_rebind H n env r old a, apply_redis_force_rebuild H n env r discard, repair_apply H n renv b}"
    and "run_state m (w, []) = (x, (w', l))"
  shows "guarded operator_order [] l \<and> (x = Ret () \<longrightarrow> settled l)"
proof -
  have "stage untouched m (\<lambda>_. settled)"
    using assms(3) apply_stages [OF assms(1)] repair_apply_stage [OF assms(2)] by blast
  from tripleD [OF this _ assms(4)] show ?thesis by (cases x) (auto simp: untouched_def)
qed

end
