(* ===== verification/Fq_Operators_Start.thy ===== *)
theory Fq_Operators_Start
  imports Fq_Repair Fq_Recovery_Retry
begin

text \<open>
  The operators against Redis: the inspection of the control without its lock (\<^verbatim>\<open>recovery_operators.go\<close>), and what the
  decisions of the operators mean for the script that begins a recovery.
\<close>

subsection \<open>Inspection of the control\<close>

text \<open>\<open>redisInspectRecoveryControlScript\<close>\<close>

definition lua_inspect_control :: "(string \<Rightarrow> bool) \<Rightarrow> script" where
  "lua_inspect_control N c = (c,
     if control_absent c then (if progress_exists c then [CORRUPT] else [OK, ''0''])
     else if \<not> control_readable c then [CORRUPT]
     else
       let kind = ctl c ''operation_kind''; operation = ctl c ''operation_id'';
           head = [OK, ''1'', ctl c ''state'', ctl c ''epoch'', ctl c ''protocol_version'', ctl c ''writer_fingerprint'',
             kind, operation, ctl c ''last_completed_operation_id'', ctl c ''last_completed_operation_kind'']
       in if \<not> N (ctl c ''protocol_version'') \<or> \<not> lower_hex 32 (ctl c ''epoch'') \<or> \<not> lower_hex 64 (ctl c ''writer_fingerprint'')
            \<or> \<not> last_completed_ok (ctl c ''last_completed_operation_id'') (ctl c ''last_completed_operation_kind'')
          then [CORRUPT]
          else if ctl c ''protocol_version'' \<noteq> ''1'' then [FENCE]
          else if ctl c ''state'' = ''READY'' then
            (if kind \<noteq> ''NONE'' \<or> operation \<noteq> [] \<or> progress_exists c then [CORRUPT] else head)
          else if ctl c ''state'' \<noteq> ''RECOVERING'' \<or> kind = ''NONE'' \<or> \<not> progress_exists c then [CORRUPT]
          else if kind \<noteq> NORMAL \<and> ctl c ''last_completed_operation_id'' = operation then [CORRUPT]
          else if \<not> progress_readable c then [CORRUPT]
          else if prog c ''epoch'' \<noteq> ctl c ''epoch'' \<or> prog c ''operation_kind'' \<noteq> kind
            \<or> prog c ''operation_id'' \<noteq> operation then [CORRUPT]
          else head @ map (prog c) progress_fields)"

definition inspect_recovery_control ::
  "(string \<Rightarrow> bool) \<Rightarrow> transport \<Rightarrow> string \<Rightarrow> string \<Rightarrow> control_snapshot option coord_op" where
  "inspect_recovery_control N net prefix resource =
     redis_call net (check_err (as_sentinel ErrInvalidModel (validate_resource resource)) (build_redis_keyspace prefix resource))
       (\<lambda>_. lua_inspect_control N) (\<lambda>_. parse_recovery_snapshot)"

lemma inspections_agree: "lua_inspect_recovery N own now = locked now own (lua_inspect_control N)"
  unfolding lua_inspect_recovery_def by (rule arg_cong [where f = "locked now own"]) (rule ext, simp add: lua_inspect_control_def)

subsection \<open>What an inspected control is\<close>

definition shows_control :: "coord \<Rightarrow> control_snapshot \<Rightarrow> bool" where
  "shows_control c s \<longleftrightarrow> \<not> control_absent c \<and> control_readable c \<and> ctl c ''protocol_version'' = ''1'' \<and> lower_hex 32 (ctl c ''epoch'')
     \<and> lower_hex 64 (ctl c ''writer_fingerprint'')
     \<and> last_completed_ok (ctl c ''last_completed_operation_id'') (ctl c ''last_completed_operation_kind'')
     \<and> cs_state s = ctl c ''state'' \<and> cs_writer s = ctl c ''writer_fingerprint'' \<and> cs_kind s = ctl c ''operation_kind''
     \<and> cs_operation s = ctl c ''operation_id'' \<and> cs_last_id s = ctl c ''last_completed_operation_id''
     \<and> validate_snapshot s = None
     \<and> (cs_state s = ''READY'' \<longrightarrow> \<not> progress_exists c)
     \<and> (cs_state s = ''RECOVERING'' \<and> cs_kind s \<noteq> NORMAL \<longrightarrow> cs_last_id s \<noteq> cs_operation s)
     \<and> (\<forall>p. cs_progress s = Some p \<longrightarrow>
          (\<forall>x. rp_rebind p = Some x \<longrightarrow> x = (prog c ''rebind_original_writer'', prog c ''rebind_target_writer''))
          \<and> (\<forall>n b. rp_force p = Some (n, b) \<longrightarrow> parse_int64 (prog c ''force_not_before_ms'') = Some n))"

lemma head_nth:
  assumes "reply = [a0, a1, a2, a3, a4, a5, a6, a7, a8, a9] @ map (prog c) progress_fields"
  shows "length reply = 29" "reply ! 25 = prog c ''rebind_original_writer''" "reply ! 26 = prog c ''rebind_target_writer''"
    "reply ! 27 = prog c ''force_not_before_ms''"
  by (simp_all add: assms progress_fields_def nth_append)

lemma read_special_shows:
  assumes "read_special k values = Some (r, b, f)" and "length values = 29"
  shows "b = Some x \<Longrightarrow> x = (values ! 25, values ! 26)" "f = Some (n, d) \<Longrightarrow> parse_int64 (values ! 27) = Some n"
  using assms by (auto simp: read_special_def reply_string_def reply_int64_def split: if_splits option.splits)

lemma inspected_control:
  assumes "parse_recovery_snapshot (snd (lua_inspect_control N c)) = Inr snap"
  shows "case snap of None \<Rightarrow> control_absent c \<and> \<not> progress_exists c | Some s \<Rightarrow> shows_control c s"
proof -
  let ?kind = "ctl c ''operation_kind''" and ?operation = "ctl c ''operation_id''"
  let ?head = "[OK, ''1'', ctl c ''state'', ctl c ''epoch'', ctl c ''protocol_version'', ctl c ''writer_fingerprint'',
     ?kind, ?operation, ctl c ''last_completed_operation_id'', ctl c ''last_completed_operation_kind'']"
  have bad: "parse_recovery_snapshot [CORRUPT] \<noteq> Inr snap" "parse_recovery_snapshot [FENCE] \<noteq> Inr snap"
    by (simp_all add: parse_recovery_snapshot_def redis_runtime_result_error_def)
  have one: "parse_int64 ''1'' = Some 1" by code_simp
  show ?thesis
  proof (cases "control_absent c")
    case True
    with assms bad show ?thesis
      by (auto simp: lua_inspect_control_def parse_recovery_snapshot_def redis_runtime_result_error_def split: if_splits)
  next
    case present: False
    have base: "control_readable c" "lower_hex 32 (ctl c ''epoch'')" "lower_hex 64 (ctl c ''writer_fingerprint'')"
      "last_completed_ok (ctl c ''last_completed_operation_id'') (ctl c ''last_completed_operation_kind'')" "ctl c ''protocol_version'' = ''1''"
      using assms bad present by (auto simp: lua_inspect_control_def Let_def split: if_splits)
    show ?thesis
    proof (cases "ctl c ''state'' = ''READY''")
      case True
      with assms bad present base have quiet: "\<not> progress_exists c" and reply: "snd (lua_inspect_control N c) = ?head"
        by (auto simp: lua_inspect_control_def Let_def split: if_splits)
      from assms obtain s where "snap = Some s" "cs_state s = ''READY''" "cs_writer s = ctl c ''writer_fingerprint''" "cs_kind s = ?kind"
          "cs_operation s = ?operation" "cs_last_id s = ctl c ''last_completed_operation_id''" "cs_progress s = None" "validate_snapshot s = None"
        unfolding reply using True base(5) one
        by (auto simp: parse_recovery_snapshot_def redis_runtime_result_error_def Let_def split: if_splits)
      then show ?thesis using base present quiet True by (simp add: shows_control_def)
    next
      case False
      define reply where "reply = ?head @ map (prog c) progress_fields"
      have recovering: "ctl c ''state'' = ''RECOVERING''" "?kind = NORMAL \<or> ctl c ''last_completed_operation_id'' \<noteq> ?operation"
        and out: "snd (lua_inspect_control N c) = reply"
        using assms bad present base False by (auto simp: lua_inspect_control_def Let_def reply_def split: if_splits)
      note nth = head_nth [OF reply_def]
      have at: "reply ! 0 = OK" "reply ! 1 = ''1''" "reply ! 2 = ctl c ''state''" "reply ! 4 = ''1''" "reply ! 5 = ctl c ''writer_fingerprint''" "reply ! 6 = ?kind"
        "reply ! 7 = ?operation" "reply ! 8 = ctl c ''last_completed_operation_id''" by (simp_all add: reply_def base(5))
      have ok: "redis_runtime_result_error reply = None" by (simp add: reply_def redis_runtime_result_error_def)
      from assms [unfolded out] obtain s p r b f where "snap = Some s" "cs_state s = ctl c ''state''" "cs_writer s = ctl c ''writer_fingerprint''"
          "cs_kind s = ?kind" "cs_operation s = ?operation" "cs_last_id s = ctl c ''last_completed_operation_id''" "validate_snapshot s = None"
          "cs_progress s = Some p" "read_special (reply ! 11) reply = Some (r, b, f)" "rp_rebind p = b" "rp_force p = f"
        using ok at nth(1) False one
        by (auto simp: parse_recovery_snapshot_def Let_def split: if_splits option.splits prod.splits)
      then show ?thesis using base present recovering read_special_shows [of "reply ! 11" reply r b f] nth
        by (auto simp: shows_control_def)
    qed
  qed
qed

subsection \<open>Decisions\<close>

text \<open>The decision of an operator that goes on to begin a recovery with the arguments \<open>a\<close>: it resumes the operation of the journal, or takes
  an id that differs from that of the last completed operation. A repair begins after its record has been written.\<close>

definition operation_chosen :: "begin_args \<Rightarrow> control_snapshot option \<Rightarrow> operation_record option \<Rightarrow> bool \<Rightarrow> bool" where
  "operation_chosen a snap found resume \<longleftrightarrow> lower_hex 32 (ba_operation a) \<and>
     (if resume then (\<exists>r. found = Some r \<and> ba_operation a = op_id r)
      else (\<forall>s. snap = Some s \<longrightarrow> cs_last_id s \<noteq> ba_operation a))"

definition begin_decided :: "'w repair_env \<Rightarrow> begin_args \<Rightarrow> control_snapshot option \<Rightarrow> operation_record option \<Rightarrow> bool" where
  "begin_decided env a snap found \<longleftrightarrow>
     (if ba_kind a = WRITER_REBIND then
        (\<exists>resume. writer_start_allowed snap found (ba_writer_a a) (ba_writer_b a) = Inr (False, resume) \<and> operation_chosen a snap found resume)
      else if ba_kind a = FORCE_REBUILD then
        (\<exists>resume. force_start_allowed snap found (ba_writer_a a) = Inr (False, resume) \<and> operation_chosen a snap found resume
           \<and> (resume \<longrightarrow> (\<exists>r. found = Some r \<and> unix_ms (op_force_not_before r) > 0
                \<and> ba_force_not_before a = format_uint (nat (unix_ms (op_force_not_before r))))))
      else ba_kind a = RABBIT_REPAIR \<and> ba_writer_a a = rr_writer env
        \<and> (\<exists>r. found = Some r \<and> op_phase r \<in> {ACTIVE, READY_COMMITTED} \<and> op_id r = ba_operation a \<and> lower_hex 32 (op_id r)
             \<and> begin_control env snap (op_id r) found = Inr False))"

lemma recovering_shape:
  assumes "validate_snapshot s = None" and "cs_state s = ''RECOVERING''"
  shows "if cs_kind s = NORMAL then cs_operation s = [] else special_kind (cs_kind s) \<and> lower_hex 32 (cs_operation s)"
proof -
  from assms obtain p where "cs_progress s = Some p" "rp_kind p = cs_kind s" "rp_operation p = cs_operation s" "validate_progress p = None"
    by (auto simp: validate_snapshot_def wraps_def split: option.splits if_splits)
  then show ?thesis by (auto simp: validate_progress_def fail_when_def wraps_def split: if_splits)
qed

lemma shown_control_ok:
  assumes "shows_control c s" and "ctl c ''state'' = ''RECOVERING'' \<Longrightarrow> canonical_progress c"
  shows "begin_control_error c = None"
proof -
  have one: "fq_uint ''1'' True" by code_simp
  have s: "control_readable c" "lower_hex 32 (ctl c ''epoch'')" "lower_hex 64 (ctl c ''writer_fingerprint'')"
    "last_completed_ok (ctl c ''last_completed_operation_id'') (ctl c ''last_completed_operation_kind'')" "ctl c ''protocol_version'' = ''1''"
    "cs_state s = ctl c ''state''" "cs_kind s = ctl c ''operation_kind''" "cs_operation s = ctl c ''operation_id''" "validate_snapshot s = None"
    "cs_last_id s = ctl c ''last_completed_operation_id''"
    "cs_state s = ''RECOVERING'' \<and> cs_kind s \<noteq> NORMAL \<longrightarrow> cs_last_id s \<noteq> cs_operation s"
    using assms(1) unfolding shows_control_def by blast+
  have states: "cs_state s = ''READY'' \<or> cs_state s = ''RECOVERING''" using s(9) by (auto simp: validate_snapshot_def wraps_def split: if_splits)
  then show ?thesis
  proof
    assume "cs_state s = ''READY''"
    then show ?thesis using s one by (simp add: begin_control_error_def validate_snapshot_def fail_when_def wraps_def Let_def split: if_splits)
  next
    assume r: "cs_state s = ''RECOVERING''"
    from recovering_shape [OF s(9) r]
    have shape: "if ctl c ''operation_kind'' = NORMAL then ctl c ''operation_id'' = []
        else special_kind (ctl c ''operation_kind'') \<and> lower_hex 32 (ctl c ''operation_id'')"
      and state: "ctl c ''state'' = ''RECOVERING''"
      and last: "ctl c ''operation_kind'' = NORMAL \<or> ctl c ''last_completed_operation_id'' \<noteq> ctl c ''operation_id''"
      using s r by auto
    have kinds: "\<not> (if ctl c ''operation_kind'' = NORMAL then ctl c ''operation_id'' \<noteq> []
        else \<not> special_kind (ctl c ''operation_kind'') \<or> \<not> lower_hex 32 (ctl c ''operation_id''))"
      "\<not> (ctl c ''operation_kind'' \<noteq> NORMAL \<and> ctl c ''last_completed_operation_id'' = ctl c ''operation_id'')"
      using shape last by (simp_all split: if_splits)
    show ?thesis
      unfolding begin_control_error_def Let_def if_not_P [OF kinds(1)] if_not_P [OF kinds(2)] state
      using assms(2) [OF state] s(1-5) one by simp
  qed
qed

lemma rebind_transition:
  assumes "shows_control c s" and kind: "ba_kind a = WRITER_REBIND"
    and "writer_start_allowed (Some s) found (ba_writer_a a) (ba_writer_b a) = Inr (False, resume)" and "operation_chosen a (Some s) found resume"
  shows "\<exists>i. begin_transition a c = Inr (i, ba_writer_b a)"
proof -
  have s: "cs_state s = ctl c ''state''" "cs_kind s = ctl c ''operation_kind''" "cs_operation s = ctl c ''operation_id''"
    "cs_writer s = ctl c ''writer_fingerprint''" "cs_last_id s = ctl c ''last_completed_operation_id''"
    "cs_state s = ''READY'' \<longrightarrow> \<not> progress_exists c \<and> cs_kind s = ''NONE'' \<and> cs_operation s = []"
    "\<And>p x. cs_progress s = Some p \<Longrightarrow> rp_rebind p = Some x \<Longrightarrow> x = (prog c ''rebind_original_writer'', prog c ''rebind_target_writer'')"
    using assms(1) by (auto simp: shows_control_def validate_snapshot_def fail_when_def wraps_def split: if_splits)
  from assms(3) consider "cs_state s = ''READY''" "cs_writer s = ba_writer_a a" "resume \<longrightarrow> (\<exists>r. found = Some r \<and> cs_last_id s \<noteq> op_id r)"
    | r p where "cs_state s = ''RECOVERING''" "cs_kind s = WRITER_REBIND" "cs_writer s = ba_writer_b a" "found = Some r" "cs_operation s = op_id r"
        "cs_progress s = Some p" "rp_rebind p = Some (ba_writer_a a, ba_writer_b a)" "resume"
    by (auto simp: writer_start_allowed_def Let_def record_unfinished_def operator_required_def split: if_splits option.splits)
  then show ?thesis
  proof cases
    case 1
    then have "cs_last_id s \<noteq> ba_operation a" using assms(4) by (auto simp: operation_chosen_def split: if_splits)
    then have c: "ctl c ''state'' = ''READY''" "ctl c ''operation_kind'' = ''NONE''" "ctl c ''operation_id'' = []" "\<not> progress_exists c"
      "ctl c ''writer_fingerprint'' = ba_writer_a a" "ctl c ''last_completed_operation_id'' \<noteq> ba_operation a"
      using 1 s(1-6) by auto
    then have "begin_transition a c = Inr (True, ba_writer_b a)" using kind by (simp add: begin_transition_def Let_def)
    then show ?thesis by blast
  next
    case 2
    then have "ba_operation a = op_id r" using assms(4) by (auto simp: operation_chosen_def)
    then have c: "ctl c ''state'' = ''RECOVERING''" "ctl c ''operation_kind'' = WRITER_REBIND" "ctl c ''operation_id'' = ba_operation a"
      "ctl c ''writer_fingerprint'' = ba_writer_b a" "prog c ''rebind_original_writer'' = ba_writer_a a" "prog c ''rebind_target_writer'' = ba_writer_b a"
      using 2 s(1-4) s(7) [OF 2(6,7)] by auto
    then have "begin_transition a c = Inr (False, ba_writer_b a)" using kind by (simp add: begin_transition_def Let_def)
    then show ?thesis by blast
  qed
qed

lemma format_parsed_uint:
  assumes "fq_uint v True" and "parse_int64 v = Some n"
  shows "v = format_uint (nat n)"
proof -
  have v: "v \<noteq> []" "list_all is_digit v" "length v > 1 \<longrightarrow> hd v \<noteq> CHR ''0''" "v \<noteq> ''0''"
    using assms(1) by (auto simp: fq_uint_def split: if_splits)
  then have "hd v \<noteq> CHR ''0''" by (cases v; cases "tl v") auto
  with v have "format_uint (digits_value v) = v" by (intro format_uint_digits_value)
  with assms(2) fq_uint_read(1) [OF assms(1)] show ?thesis by (auto simp del: fq_uint_read)
qed

lemma allowed_last:
  assumes "(if b1 then Inr (True, False) else if b2 then Inl e else if b3 then Inr (False, False) else if b4 then Inr (False, True)
     else if b5 then x else Inl e) = Inr (False, resume)"
  shows "\<not> b3 \<Longrightarrow> \<not> b4 \<Longrightarrow> b5" "\<not> b3 \<Longrightarrow> \<not> b4 \<Longrightarrow> x = Inr (False, resume)"
  using assms by (simp_all split: if_splits)

lemma force_transition:
  assumes "shows_control c s" and kind: "ba_kind a = FORCE_REBUILD" and canon: "ctl c ''state'' = ''RECOVERING'' \<Longrightarrow> canonical_progress c"
    and "force_start_allowed (Some s) found (ba_writer_a a) = Inr (False, resume)" and "operation_chosen a (Some s) found resume"
    and ms: "resume \<Longrightarrow> \<exists>r. found = Some r \<and> ba_force_not_before a = format_uint (nat (unix_ms (op_force_not_before r)))"
  shows "\<exists>i. begin_transition a c = Inr (i, ba_writer_a a)"
proof -
  have s: "cs_state s = ctl c ''state''" "cs_kind s = ctl c ''operation_kind''" "cs_operation s = ctl c ''operation_id''"
    "cs_writer s = ctl c ''writer_fingerprint''"
    "\<And>p n b. cs_progress s = Some p \<Longrightarrow> rp_force p = Some (n, b) \<Longrightarrow> parse_int64 (prog c ''force_not_before_ms'') = Some n"
    "validate_snapshot s = None"
    using assms(1) unfolding shows_control_def by blast+
  note shape = recovering_shape [OF s(6)]
  from assms(4) consider "cs_state s = ''RECOVERING''" "cs_kind s = NORMAL" "cs_writer s = ba_writer_a a"
    | r p n b where "cs_state s = ''RECOVERING''" "cs_kind s = FORCE_REBUILD" "cs_writer s = ba_writer_a a" "found = Some r" "cs_operation s = op_id r"
        "cs_progress s = Some p" "rp_force p = Some (n, b)" "n = unix_ms (op_force_not_before r)" "resume"
  proof (cases "cs_state s = ''RECOVERING'' \<and> cs_kind s = NORMAL \<and> cs_writer s = ba_writer_a a")
    case True
    then show ?thesis using that(1) by blast
  next
    case other: False
    obtain r where r: "found = Some r"
      using assms(4) other by (cases found) (auto simp: force_start_allowed_def Let_def record_unfinished_def operator_required_def split: if_splits)
    let ?last = "case cs_progress s of None \<Rightarrow> Inl [ErrCoordinationCorrupt]
                  | Some p \<Rightarrow>
                      (case rp_force p of
                         None \<Rightarrow> Inl [ErrCoordinationCorrupt]
                       | Some (not_before, deleted) \<Rightarrow>
                           if not_before \<noteq> unix_ms (op_force_not_before r) then Inl [ErrCoordinationCorrupt]
                           else if deleted \<and> \<not> op_force_complete r then Inl [ErrCoordinationCorrupt]
                           else Inr (False, True))"
    have "cs_state s = ''RECOVERING'' \<and> cs_kind s = FORCE_REBUILD \<and> force_record_matches r (ba_writer_a a) \<and> record_unfinished (Some r)
        \<and> cs_writer s = ba_writer_a a \<and> cs_operation s = op_id r" and p: "?last = Inr (False, resume)"
      using allowed_last [OF assms(4) [unfolded force_start_allowed_def Let_def r option.case]] other by blast+
    moreover from p obtain q n b where "cs_progress s = Some q" "rp_force q = Some (n, b)" "n = unix_ms (op_force_not_before r)" "resume"
      by (cases "cs_progress s") (auto split: option.splits if_splits)
    ultimately show ?thesis using that(2) r by blast
  qed
  then show ?thesis
  proof cases
    case 1
    then have c: "ctl c ''state'' = ''RECOVERING''" "ctl c ''operation_kind'' = NORMAL" "ctl c ''operation_id'' = []"
      "ctl c ''writer_fingerprint'' = ba_writer_a a"
      using s(1-4) shape by auto
    then have "begin_transition a c = Inr (True, ba_writer_a a)" using kind by (simp add: begin_transition_def Let_def)
    then show ?thesis by blast
  next
    case 2
    then have op: "ba_operation a = op_id r" "ba_force_not_before a = format_uint (nat n)" using assms(5) ms by (auto simp: operation_chosen_def)
    have c: "ctl c ''state'' = ''RECOVERING''" "ctl c ''operation_kind'' = FORCE_REBUILD" "ctl c ''operation_id'' = ba_operation a"
      "ctl c ''writer_fingerprint'' = ba_writer_a a"
      using 2 s(1-4) op by auto
    have "canonical_progress c" by (rule canon) (rule c)
    then have "fq_uint (prog c ''force_not_before_ms'') True"
      using c(2) by (auto simp: canonical_progress_def special_progress_ok_def Let_def)
    then have "prog c ''force_not_before_ms'' = ba_force_not_before a" using format_parsed_uint s(5) [OF 2(6,7)] op(2) by simp
    then have "begin_transition a c = Inr (False, ba_writer_a a)" using c kind by (simp add: begin_transition_def Let_def)
    then show ?thesis by blast
  qed
qed

lemma repair_transition:
  assumes "shows_control c s" and kind: "ba_kind a = RABBIT_REPAIR" and "ba_writer_a a = rr_writer env" "op_phase r \<in> {ACTIVE, READY_COMMITTED}"
    and "op_id r = ba_operation a" and "begin_control env (Some s) (op_id r) (Some r) = Inr False"
  shows "\<exists>i. begin_transition a c = Inr (i, ba_writer_a a)"
proof -
  have s: "cs_state s = ctl c ''state''" "cs_kind s = ctl c ''operation_kind''" "cs_operation s = ctl c ''operation_id''"
    "cs_writer s = ctl c ''writer_fingerprint''" "cs_last_id s = ctl c ''last_completed_operation_id''"
    "cs_state s = ''READY'' \<longrightarrow> \<not> progress_exists c \<and> cs_kind s = ''NONE'' \<and> cs_operation s = []"
    using assms(1) by (auto simp: shows_control_def validate_snapshot_def fail_when_def wraps_def split: if_splits)
  from assms(4,6) consider "cs_state s = ''READY''" "cs_writer s = rr_writer env" "cs_last_id s \<noteq> op_id r"
    | "cs_state s = ''RECOVERING''" "cs_writer s = rr_writer env" "cs_kind s = RABBIT_REPAIR" "cs_operation s = op_id r"
    by (auto simp: begin_control_def Let_def operator_required_def split: if_splits option.splits prod.splits)
  then show ?thesis
  proof cases
    case 1
    then have "ctl c ''state'' = ''READY''" "ctl c ''operation_kind'' = ''NONE''" "ctl c ''operation_id'' = []" "\<not> progress_exists c"
      "ctl c ''writer_fingerprint'' = ba_writer_a a" "ctl c ''last_completed_operation_id'' \<noteq> ba_operation a"
      using s assms(3,5) by auto
    then have "begin_transition a c = Inr (True, ba_writer_a a)" using kind by (simp add: begin_transition_def Let_def)
    then show ?thesis by blast
  next
    case 2
    then have "ctl c ''state'' = ''RECOVERING''" "ctl c ''operation_kind'' = RABBIT_REPAIR" "ctl c ''operation_id'' = ba_operation a"
      "ctl c ''writer_fingerprint'' = ba_writer_a a"
      using s assms(3,5) by auto
    then have "begin_transition a c = Inr (False, ba_writer_a a)" using kind by (simp add: begin_transition_def Let_def)
    then show ?thesis by blast
  qed
qed

text \<open>C25: Redis accepts what the operators decide. An operator inspects the control under the raw lock and decides to begin or to resume a special
  operation, of any of the three kinds. As long as the lock is held, and the progress of a recovery is as
  the scripts write it, the script that begins the recovery then succeeds on that state: it never refuses an operation that has been
  written to the journal.\<close>

theorem special_start_accepted:
  assumes "raw_lock now (ba_owner a) c = None" and "parse_recovery_snapshot (snd (lua_inspect_control N c)) = Inr snap"
    and "ctl c ''state'' = ''RECOVERING'' \<Longrightarrow> canonical_progress c" and "begin_decided env a snap found"
  shows "\<exists>d. lua_begin_recovery a now c = (d, [OK, ba_epoch a, if ba_kind a = WRITER_REBIND then ba_writer_b a else ba_writer_a a])"
proof -
  let ?target = "if ba_kind a = WRITER_REBIND then ba_writer_b a else ba_writer_a a"
  have kind: "ba_kind a = WRITER_REBIND \<or> ba_kind a = FORCE_REBUILD \<or> ba_kind a = RABBIT_REPAIR" "ba_operation a \<noteq> []"
    using assms(4) by (auto simp: begin_decided_def operation_chosen_def lower_hex_def split: if_splits)
  then have special: "special_kind (ba_kind a)" "ba_kind a \<noteq> NORMAL" by (auto simp: special_kind_def)
  show ?thesis
  proof (cases snap)
    case None
    with inspected_control [OF assms(2)] have "control_absent c" "\<not> progress_exists c" by simp_all
    with special kind(2) show ?thesis by (simp add: lua_begin_recovery_def locked_def assms(1) Let_def)
  next
    case (Some s)
    with inspected_control [OF assms(2)] have s: "shows_control c s" by simp
    have "\<exists>i. begin_transition a c = Inr (i, ?target)"
      using kind(1)
    proof (elim disjE)
      assume k: "ba_kind a = WRITER_REBIND"
      with assms(4) obtain resume where "writer_start_allowed (Some s) found (ba_writer_a a) (ba_writer_b a) = Inr (False, resume)"
        "operation_chosen a (Some s) found resume" unfolding Some begin_decided_def if_P [OF k] by blast
      from rebind_transition [OF s k this] k show ?thesis by simp
    next
      assume k: "ba_kind a = FORCE_REBUILD"
      then have other: "ba_kind a \<noteq> WRITER_REBIND" by simp
      with assms(4) obtain resume where r: "force_start_allowed (Some s) found (ba_writer_a a) = Inr (False, resume)"
        "operation_chosen a (Some s) found resume"
        "resume \<Longrightarrow> \<exists>r. found = Some r \<and> ba_force_not_before a = format_uint (nat (unix_ms (op_force_not_before r)))"
        unfolding Some begin_decided_def if_not_P [OF other] if_P [OF k] by blast
      from force_transition [OF s k assms(3) r] k show ?thesis by simp
    next
      assume k: "ba_kind a = RABBIT_REPAIR"
      then have others: "ba_kind a \<noteq> WRITER_REBIND" "ba_kind a \<noteq> FORCE_REBUILD" by simp_all
      with assms(4) obtain r where "ba_writer_a a = rr_writer env" "op_phase r \<in> {ACTIVE, READY_COMMITTED}" "op_id r = ba_operation a"
        "begin_control env (Some s) (op_id r) (Some r) = Inr False"
        unfolding Some begin_decided_def if_not_P [OF others(1)] if_not_P [OF others(2)] by blast
      from repair_transition [OF s k this] k show ?thesis by simp
    qed
    then obtain i where i: "begin_transition a c = Inr (i, ?target)" by blast
    have "\<not> control_absent c" using s by (simp add: shows_control_def)
    with special kind(2) shown_control_ok [OF s assms(3)] i show ?thesis
      by (simp only: lua_begin_recovery_def locked_def assms(1) Let_def option.case if_False prod.case sum.case) simp
  qed
qed

end
