(* ===== verification/Fq_Operators_Samples.thy ===== *)
theory Fq_Operators_Samples
  imports Fq_Operators_Props Fq_Operators_Start Fq_Recovery_Calm Fq_Journal_Samples
begin

text \<open>
  Concrete operators on which their properties are applied: a rebind that has been committed to the journal and whose last step, the
  completion of its operation, was lost. It is applied again.
\<close>

definition ended_control :: control_snapshot where
  "ended_control = \<lparr> cs_state = ''READY'', cs_epoch = sample_epoch, cs_version = 1, cs_writer = sample_writer, cs_kind = ''NONE'',
     cs_operation = [], cs_last_id = sample_new_epoch, cs_last_kind = WRITER_REBIND, cs_progress = None \<rparr>"

definition ended_rec :: "unit rec_env" where
  "ended_rec = calm_base\<lparr> en_token := say (Inr sample_lock),
     en_journal := (en_journal calm_base)\<lparr> jo_read := \<lambda>_ _. say (Inr (Some (rebind_record READY_COMMITTED 2))),
       jo_session := say (Inr (Some (rebind_record READY_COMMITTED 2))), jo_complete := \<lambda>r. say (Inr (rebind_record COMPLETED 3)) \<rparr>,
     en_coord := (undefined :: unit rec_coord)\<lparr> co_acquire := \<lambda>_ own _. say (Inr own), co_check_lock := \<lambda>_ _. say (Inr ()),
       co_renew_lock := \<lambda>_ _ _. say (Inr ()), co_release_lock := \<lambda>_ _. say (Inr ()), co_inspect := \<lambda>_ _. say (Inr (Some ended_control)) \<rparr> \<rparr>"

definition ended_env :: "unit op_env" where
  "ended_env = (undefined :: unit op_env)\<lparr> oe_rec := ended_rec,
     oe_options := \<lparr> oo_config = sample_config, oo_lock_ttl = 30000000000, oo_renew = 1, oo_delay = 1 \<rparr>,
     oe_identity := say (Inr sample_writer),
     oe_readiness := say (Inr \<lparr> wr_writer = sample_writer, wr_schema = True, wr_owner_violations = 0, wr_generation_violations = 0 \<rparr>),
     oe_count := say (Inr 0) \<rparr>"

definition old_writer :: string where "old_writer = replicate 64 CHR ''b''"

text \<open>Over clients without a state of their own, a program that returns does so from every log.\<close>

definition gives :: "('w, 'a) rec \<Rightarrow> 'a \<Rightarrow> bool" where
  "gives m x \<longleftrightarrow> (\<forall>s. \<exists>t. run_state m s = (Ret x, t))"

lemma gives_bind:
  assumes "gives m x" and "\<And>s. \<exists>t. run_state (k (Ret x)) s = (Ret y, t)"
  shows "gives (State_Monad.bind m k) y"
  unfolding gives_def
proof
  fix s
  obtain t where "run_state m s = (Ret x, t)" using assms(1) unfolding gives_def by blast
  then show "\<exists>t. run_state (State_Monad.bind m k) s = (Ret y, t)" using assms(2) by (simp add: bind_run)
qed

lemma gives_compose:
  "gives m x \<Longrightarrow> gives (f x) y \<Longrightarrow> gives (seq m f) y"
  unfolding seq_def by (erule gives_bind) (simp only: outcome.case gives_def)

lemma gives_results: "gives m x \<Longrightarrow> gives (attempt m) (Inr x)" "gives m x \<Longrightarrow> gives (handle m g) x"
  unfolding attempt_def handle_def by (erule gives_bind, simp add: ret_def)+

lemma gives_steps:
  "gives (ret x) x" "e = None \<Longrightarrow> gives (raise e) ()" "gives (of_result (Inr x)) x" "gives (invoke (say (Inr x)) c) x"
  "gives (sense (say z)) z" "gives (tell c) ()"
  by (auto simp: gives_def ret_def raise_def of_result_def invoke_def sense_def tell_def)

lemmas gives_intros = gives_compose gives_steps gives_results

lemma ended_simps [simp]:
  "en_context (oe_rec ended_env) = say None" "rc_key (oe_config ended_env) = ''rag''" "oe_identity ended_env = say (Inr sample_writer)"
  "oe_count ended_env = say (Inr 0)"
  "oe_readiness ended_env = say (Inr \<lparr> wr_writer = sample_writer, wr_schema = True, wr_owner_violations = 0, wr_generation_violations = 0 \<rparr>)"
  "jo_read (en_journal (oe_rec ended_env)) r w = say (Inr (Some (rebind_record READY_COMMITTED 2)))"
  "jo_session (en_journal (oe_rec ended_env)) = say (Inr (Some (rebind_record READY_COMMITTED 2)))"
  "jo_complete (en_journal (oe_rec ended_env)) x = say (Inr (rebind_record COMPLETED 3))"
  "jo_enter (en_journal (oe_rec ended_env)) r w = say (Inr ())" "jo_exit (en_journal (oe_rec ended_env)) None = say (Inr ())"
  "en_token (oe_rec ended_env) = say (Inr sample_lock)"
  "co_acquire (en_coord (oe_rec ended_env)) r own d = say (Inr own)" "co_check_lock (en_coord (oe_rec ended_env)) r k = say (Inr ())"
  "co_renew_lock (en_coord (oe_rec ended_env)) r k d = say (Inr ())" "co_release_lock (en_coord (oe_rec ended_env)) r k = say (Inr ())"
  "co_inspect (en_coord (oe_rec ended_env)) r k = say (Inr (Some ended_control))"
  by (simp_all add: ended_env_def ended_rec_def calm_base_def sample_config_def)

lemma sample_writers: "lower_hex 64 sample_writer" "lower_hex 64 old_writer" "sample_writer \<noteq> old_writer"
  using sample_hexes by (simp_all add: sample_fence_def old_writer_def)

lemma ended_records:
  "validate_persisted (rebind_record READY_COMMITTED 2) = None" "validate_persisted (rebind_record COMPLETED 3) = None"
  using rebind_record_ok [of READY_COMMITTED 2] rebind_record_ok [of COMPLETED 3] by (simp_all add: journal_validators_agree)

definition ended_report :: rebind_report where
  "ended_report = \<lparr> br_resource = ''rag'', br_expected_old = old_writer, br_target = sample_writer,
     br_readiness = \<lparr> wr_writer = sample_writer, wr_schema = True, wr_owner_violations = 0, wr_generation_violations = 0 \<rparr>,
     br_running = 0, br_operation = \<lparr> sm_present = True, sm_kind = WRITER_REBIND, sm_phase = READY_COMMITTED \<rparr> \<rparr>"

lemma ended_summary:
  "operation_summary (Some (rebind_record READY_COMMITTED 2)) ''rag'' sample_writer
     = Inr \<lparr> sm_present = True, sm_kind = WRITER_REBIND, sm_phase = READY_COMMITTED \<rparr>"
  using ended_records by (simp add: operation_summary_def rebind_record_def)

lemma ended_steps:
  "validate_writer sample_writer = None" "validate_writer old_writer = None" "validate_resource ''rag'' = None"
  using sample_writers sample_names_valid by (simp_all add: validate_writer_def fail_when_def)

lemma ended_check: "gives (check_writer_rebind ended_env ''rag'' old_writer) ended_report"
proof -
  have v: "lower_hex 64 old_writer" "sample_writer \<noteq> old_writer" using sample_writers by simp_all
  note gives = gives_intros(1) [OF gives_intros(1)] gives_intros(1) gives_intros(2-9)
  have ctx: "gives (check_context ended_env) ()"
    unfolding check_context_def ended_simps by (rule gives_intros(1), rule gives_intros, rule gives_intros) simp
  have ready: "gives (read_readiness ended_env)
      \<lparr> wr_writer = sample_writer, wr_schema = True, wr_owner_violations = 0, wr_generation_violations = 0 \<rparr>"
    unfolding read_readiness_def ended_simps by (rule gives_intros)
  have summary: "gives (read_summary ended_env ''rag'' sample_writer) \<lparr> sm_present = True, sm_kind = WRITER_REBIND, sm_phase = READY_COMMITTED \<rparr>"
    unfolding read_summary_def ended_simps by (rule gives_intros(1), rule gives_intros, simp only: ended_summary, rule gives_intros)
  have valid: "validate_rebind_report ended_report = None"
    using v by (simp add: validate_rebind_report_def ended_report_def ended_steps fail_when_def validate_readiness_def validate_summary_def special_kind_def)
  show ?thesis
    unfolding check_writer_rebind_def Let_def ended_simps
    by (rule gives_intros(1), rule ctx, rule gives_intros(1), rule gives_intros, simp add: ended_steps,
        rule gives_intros(1), rule gives_intros, simp add: ended_steps, rule gives_intros(1), rule gives_intros,
        rule gives_intros(1), rule gives_intros, simp add: ended_steps v fail_when_def, rule gives_intros(1), rule ready,
        rule gives_intros(1), rule gives_intros, simp add: ended_steps fail_when_def validate_readiness_def,
        rule gives_intros(1), rule gives_intros, rule gives_intros(1), rule gives_intros, simp add: fail_when_def,
        rule gives_intros(1), rule summary, rule gives_intros(1), rule gives_intros, fold ended_report_def, rule valid, rule gives_intros)
qed

definition completed_start :: start_result where
  "completed_start = zero_start\<lparr> sr_record := rebind_record COMPLETED 3, sr_terminal := True \<rparr>"

lemma ended_terminal:
  "writer_start_allowed (Some ended_control) (Some (rebind_record READY_COMMITTED 2)) old_writer sample_writer = Inr (True, False)"
  by (simp add: writer_start_allowed_def writer_record_matches_def control_terminal_def ended_control_def rebind_record_def old_writer_def)

lemma ended_start: "gives (start_writer_rebind ended_env ''rag'' old_writer sample_writer) completed_start"
proof -
  note bind = gives_compose and steps = gives_steps
  have token: "gives (op_next_token ended_env) sample_lock"
    unfolding op_next_token_def ended_simps
    by (rule bind, rule gives_results, rule steps, rule bind, rule steps, simp add: sample_recovery_hexes fail_when_def, rule steps)
  have found: "gives (read_start_record ended_env ''rag'' sample_writer) (Some (rebind_record READY_COMMITTED 2))"
    unfolding read_start_record_def session_read_def ended_simps
    by (rule bind, rule steps, rule bind, simp only: ended_summary, rule steps, rule steps)
  have recheck: "gives (recheck_writer ended_env old_writer sample_writer) ()"
    unfolding recheck_writer_def read_readiness_def ended_simps
    by (rule bind, rule steps, rule bind, rule steps, use sample_writers(3) in \<open>simp add: ended_steps fail_when_def\<close>, rule bind, rule steps,
        rule bind, rule steps, simp add: fail_when_def writer_ready_def validate_readiness_def ended_steps, rule bind, rule steps, rule steps,
        simp add: fail_when_def)
  have phases: "op_phase (rebind_record READY_COMMITTED 2) = READY_COMMITTED" "op_phase (rebind_record COMPLETED 3) = COMPLETED"
    "op_id (rebind_record READY_COMMITTED 2) = op_id (rebind_record COMPLETED 3)" by (simp_all add: rebind_record_def)
  have complete: "gives (complete_terminal_with_lock ended_env ''rag'' sample_lock (rebind_record READY_COMMITTED 2)) completed_start"
    unfolding complete_terminal_with_lock_def complete_terminal_def op_renew_lock_def check_raw_lock_def ended_simps if_P [OF phases(1)] completed_start_def
    by (rule bind, rule bind, rule steps, rule steps, rule bind, rule steps, rule bind, rule steps,
        simp add: ended_records phases fail_when_def, rule steps)
  have decide: "gives (start_under_lock ended_env ''rag'' sample_lock (\<lambda>lock snap.
       seq (read_start_record ended_env ''rag'' sample_writer) (\<lambda>found.
       seq (recheck_writer ended_env old_writer sample_writer) (\<lambda>_.
       seq (of_result (writer_start_allowed snap found old_writer sample_writer)) (\<lambda>(terminal, resume).
         if terminal then complete_terminal_with_lock ended_env ''rag'' lock (case found of None \<Rightarrow> zero_record | Some r \<Rightarrow> r)
            else k lock found resume))))) (Some completed_start, None)" for k
  proof -
    have ended: "sr_terminal completed_start" by (simp add: completed_start_def)
    have "sample_new_epoch \<noteq> []" by (simp add: sample_new_epoch_def)
    then have valid: "validate_snapshot ended_control = None"
      using sample_writers(1) sample_recovery_hexes(2) sample_hexes
      by (simp add: validate_snapshot_def ended_control_def sample_fence_def validate_writer_def special_kind_def fail_when_def)
    show ?thesis
      unfolding start_under_lock_def check_raw_lock_def op_release_lock_def ended_simps
      by (rule bind, rule gives_results, rule steps, simp only: sum.case, rule bind, rule gives_results, rule bind, rule steps, rule bind, rule steps,
          rule bind, rule steps, simp add: valid fail_when_def, rule bind, rule found, rule bind, rule recheck, rule bind,
          simp only: ended_terminal, rule steps, simp only: prod.case if_True option.case, rule complete)
        (simp only: sum.case ended not_True_eq_False if_False, rule bind, rule gives_results, rule steps, simp add: err_of_def, rule steps)
  qed
  show ?thesis
    unfolding start_writer_rebind_def Let_def with_start_locks_def with_start_fence_def ended_simps
    by (rule bind, rule token, rule bind, rule bind, rule steps, rule bind, rule decide, simp only: prod.case ended_simps, rule bind, rule steps,
        rule steps) (simp, rule steps)
qed

lemma ended_apply:
  "gives (apply_writer_rebind hex_digest 1 ended_env ''rag'' old_writer \<lparr> ra_fenced = True, ra_stopped = True, ra_authoritative = True \<rparr>) ()"
proof -
  have ctx: "gives (check_context ended_env) ()"
    unfolding check_context_def ended_simps by (rule gives_intros(1), rule gives_intros, rule gives_intros) simp
  have target: "br_target ended_report = sample_writer" "sr_terminal completed_start" by (simp_all add: ended_report_def completed_start_def)
  show ?thesis
    unfolding apply_writer_rebind_def with_apply_telemetry_def Let_def finish_special_def check_resource_def ended_simps
    by (rule gives_compose, rule gives_results, rule gives_compose, rule ctx, rule gives_compose, rule gives_steps, simp add: fail_when_def,
        rule gives_compose, rule gives_steps, simp add: fail_when_def validate_rebind_attestation_def, rule gives_compose, rule ended_check,
        rule gives_compose, rule gives_steps, simp add: fail_when_def ended_report_def writer_ready_def validate_readiness_def ended_steps,
        rule gives_compose, unfold target, rule ended_start, simp only: target if_True, rule gives_steps)
      (rule gives_compose, simp only: ended_steps if_True refl, rule gives_steps, rule gives_steps)
qed

lemma ended_faithful: "faithful_fence (en_journal ended_rec)"
  by (simp add: faithful_fence_def ended_rec_def calm_base_def)

text \<open>The repair shares the clients.\<close>

definition ended_repair :: "unit repair_env" where
  "ended_repair = (undefined :: unit repair_env)\<lparr> rr_rec := ended_rec, rr_config := sample_config, rr_writer := sample_writer \<rparr>"

theorem operators_act_in_order_witness:
  "\<exists>l. run_state (apply_writer_rebind hex_digest 1 ended_env ''rag'' old_writer
       \<lparr> ra_fenced = True, ra_stopped = True, ra_authoritative = True \<rparr>) ((), []) = (Ret (), ((), l))
     \<and> guarded operator_order [] l \<and> settled l"
proof -
  let ?a = "\<lparr> ra_fenced = True, ra_stopped = True, ra_authoritative = True \<rparr>"
  obtain u l where run: "run_state (apply_writer_rebind hex_digest 1 ended_env ''rag'' old_writer ?a) ((), []) = (Ret (), (u, l))"
    using ended_apply unfolding gives_def by (metis prod.collapse)
  have "guarded operator_order [] l \<and> (Ret () = Ret () \<longrightarrow> settled l)"
  proof (rule operators_act_in_order [where env = ended_env and renv = ended_repair, OF _ _ insertI1 run])
    show "faithful_fence (en_journal (oe_rec ended_env))" "faithful_fence (en_journal (rr_rec ended_repair))"
      by (simp_all add: ended_env_def ended_repair_def ended_faithful)
  qed
  with run show ?thesis by simp
qed

theorem operators_need_confirmation_witness:
  "\<exists>e l. run_state (apply_writer_rebind hex_digest 1 ended_env ''rag'' old_writer
       \<lparr> ra_fenced = True, ra_stopped = False, ra_authoritative = True \<rparr>) ((), []) = (Err e, ((), l)) \<and> untouched l"
proof -
  let ?a = "\<lparr> ra_fenced = True, ra_stopped = False, ra_authoritative = True \<rparr>"
  obtain x u l where run: "run_state (apply_writer_rebind hex_digest 1 ended_env ''rag'' old_writer ?a) ((), []) = (x, (u, l))"
    by (metis prod.collapse)
  have "(\<exists>e. x = Err e) \<and> untouched l"
    by (rule operators_need_confirmation [where a = ?a and discard = False and b = "(True, False)" and env = ended_env and renv = ended_repair,
          OF _ _ _ insertI1 run]) simp_all
  with run show ?thesis by auto
qed

subsection \<open>A rebind that begins\<close>

text \<open>The resource is READY under the old writer and its journal is empty; the lock is held.\<close>

definition starting_args :: begin_args where
  "starting_args = (sample_args WRITER_REBIND sample_new_epoch 0)\<lparr> ba_writer_b := old_writer \<rparr>"

definition starting_control :: control_snapshot where
  "starting_control = \<lparr> cs_state = ''READY'', cs_epoch = sample_epoch, cs_version = 1, cs_writer = sample_writer, cs_kind = ''NONE'',
     cs_operation = [], cs_last_id = [], cs_last_kind = ''NONE'', cs_progress = None \<rparr>"

lemma starting_inspected: "parse_recovery_snapshot (snd (lua_inspect_control sample_version locked_start)) = Inr (Some starting_control)"
proof -
  have one: "parse_int64 ''1'' = Some 1" by code_simp
  have c: "ctl locked_start ''state'' = ''READY''" "ctl locked_start ''operation_kind'' = ''NONE''" "ctl locked_start ''operation_id'' = []"
    "ctl locked_start ''epoch'' = sample_epoch" "ctl locked_start ''protocol_version'' = ''1''"
    "ctl locked_start ''writer_fingerprint'' = sample_writer" "ctl locked_start ''last_completed_operation_id'' = []"
    "ctl locked_start ''last_completed_operation_kind'' = ''NONE''"
    by (simp_all add: ctl_def locked_start_def two_waiting_def sample_start_def sample_control_def sample_fence_def)
  have rd: "control_readable locked_start" "\<not> progress_exists locked_start"
    by (simp_all add: control_readable_def progress_exists_def locked_start_def two_waiting_def sample_start_def sample_control_def control_fields_def)
  have hex: "lower_hex 32 sample_epoch" "lower_hex 64 sample_writer" using sample_hexes by (simp_all add: sample_fence_def)
  have valid: "validate_snapshot starting_control = None"
    using hex by (simp add: validate_snapshot_def starting_control_def validate_writer_def fail_when_def)
  show ?thesis
    using rd c hex one valid locked_start_checks(2)
    by (simp add: lua_inspect_control_def Let_def sample_version_def last_completed_ok_def parse_recovery_snapshot_def
        redis_runtime_result_error_def starting_control_def)
qed

theorem special_start_accepted_witness:
  "\<exists>d. lua_begin_recovery starting_args 1000 locked_start = (d, [OK, sample_new_epoch, old_writer])"
proof -
  have decided: "begin_decided ended_repair starting_args (Some starting_control) None"
    using sample_recovery_hexes
    by (auto simp: begin_decided_def starting_args_def sample_args_def writer_start_allowed_def starting_control_def record_unfinished_def
        operation_chosen_def sample_new_epoch_def)
  have "raw_lock 1000 (ba_owner starting_args) locked_start = None"
    using locked_start_checks(1) by (simp add: starting_args_def sample_args_def)
  moreover have "ctl locked_start ''state'' \<noteq> ''RECOVERING''"
    by (simp add: ctl_def locked_start_def two_waiting_def sample_start_def sample_control_def)
  ultimately show ?thesis
    using special_start_accepted [OF _ starting_inspected _ decided] by (simp add: starting_args_def sample_args_def)
qed

end
