(* ===== verification/Spec2Isabelle.thy ===== *)
theory Spec2Isabelle
  imports Fq_Prepare Fq_Resv_Props Fq_Scheduler_Props Fq_Dispatcher_Props Fq_Runtime_Props Fq_Worker_Props Fq_Recovery_Calm Fq_Journal_Samples Fq_Operators_Samples
begin

text \<open>
  A model of the fair-queue engine of bkcrab, the Go package \<^verbatim>\<open>src/internal/fairqueue\<close>, and the
  theorems that make it correct.

  \<^bold>\<open>The program.\<close> Tasks of many tenants share one resource (the RAG indexer is one). MySQL holds the
  tasks, RabbitMQ one queue per tenant, Redis the coordination state: a ring of active tenants,
  processing turns, and capacity reservations. For each resource the \<^emph>\<open>dispatcher\<close> publishes pending
  tasks to the tenants' queues, marks them and activates the tenant; the \<^emph>\<open>scheduler\<close> reserves a
  local worker, takes the next turn of the ring, reserves capacity, fetches one delivery and hands
  it to a \<^emph>\<open>worker\<close>, which prepares it (claiming the task in MySQL), binds its reservation to the
  claim, acknowledges the delivery and runs the task. \<^emph>\<open>Recovery\<close> rebuilds Redis from MySQL under an
  epoch; every other operation is fenced by the epoch and the identity of the MySQL writer, and
  gates in front of dispatcher and scheduler are closed and drained before recovery starts.

  \<^bold>\<open>Conventions.\<close> A Go string is a list of bytes (\<open>char list\<close>), an \<open>error\<close> is nil or the set of
  sentinels \<open>errors.Is\<close> finds in it (\<open>goerr\<close>), a Go result with an error is a sum, \<open>int64\<close>
  durations are integers with the wrap-around written out (\<open>i64\<close>), \<open>uint64\<close> counters are
  \<open>64 word\<close>. Lua scripts are atomic functions \<open>coord \<Rightarrow> coord \<times> reply\<close> with the clock as an argument; the
  Go methods around them are functions that also take what the network does (\<open>transport\<close>: a call
  can be executed with its reply lost). Code outside the repository is a parameter: SHA-256 (\<open>H\<close>),
  the JSON lexer (\<open>J\<close>), and the clients of the control loops, which are arbitrary state
  transformers on a world that the code cannot see, so that a theorem covers all their answers,
  errors, delays and panics. Goroutines are sequences of critical sections.

  \<^bold>\<open>The theories.\<close>

  \<^item> \<open>Fq_Base\<close>: error values, bytes, decimal notation. \<open>Fq_Effects\<close>: programs that log their calls, with
    a weakest-precondition calculus; 64-bit durations and the backoff functions.
  \<^item> \<open>Fq_Text\<close>, \<open>Fq_Names\<close>, \<open>Fq_Config\<close> (\<^verbatim>\<open>config.go\<close>, \<^verbatim>\<open>policy.go\<close>): validators, derived names and
    tokens, resource configurations, the registry, and the reservation policy.
  \<^item> \<open>Fq_Message\<close>, \<open>Fq_Prepare\<close> (\<^verbatim>\<open>model.go\<close>): wire messages with the strict JSON decoder; prepare
    requests and results, which decide the fate of a delivery.
  \<^item> \<open>Fq_Store\<close>, \<open>Fq_Keys\<close>, \<open>Fq_Coord\<close> (\<^verbatim>\<open>redis.go\<close>, \<^verbatim>\<open>redis_runtime.go\<close>): the state of a resource in
    Redis, its keys, the READY fence, and the Go side of a script call.
  \<^item> \<open>Fq_Turns\<close>, \<open>Fq_Reservations\<close>, \<open>Fq_Ready\<close> (\<^verbatim>\<open>redis_runtime.go\<close>): the scripts for the ring,
    for reservations and for expiry. \<open>Fq_Resv_Inv\<close> has the reservation invariant; \<open>Fq_Reach\<close> the
    states reachable by any interleaving of calls, clocks and network failures; \<open>Fq_Ready_Props\<close> and
    \<open>Fq_Resv_Props\<close> the properties: consistency, refinement of a fair queue, bounded
    waiting, no lost activation, exactly-once settlement, the admission policy, exact release, renewal
    and expiry. \<open>Fq_Samples\<close> holds concrete states for witnesses.
  \<^item> \<open>Fq_Scheduler\<close>, \<open>Fq_Scheduler_Props\<close> (\<^verbatim>\<open>scheduler.go\<close>): an attempt gives back all it took,
    and it fits into the drain timeout of recovery.
  \<^item> \<open>Fq_Gate\<close> (\<^verbatim>\<open>dispatcher.go\<close>): the publisher gate as interleaved critical sections. The locale
    \<open>drain_service\<close> is the contract of a counter with a drain channel; the gate and the
    three counters of \<open>Fq_Runtime_Props\<close> are its interpretations.
  \<^item> \<open>Fq_Dispatcher\<close>, \<open>Fq_Dispatcher_Props\<close> (\<^verbatim>\<open>dispatcher.go\<close>): publication of a candidate, page
    scans and the loops, composed with the gate under interference of other goroutines.
  \<^item> \<open>Fq_Runtime\<close>, \<open>Fq_Runtime_Props\<close> (\<^verbatim>\<open>runtime.go\<close>): registration, worker admission, drain channels,
    fatal failures and shutdown, as interleaved critical sections.
  \<^item> \<open>Fq_Worker\<close>, \<open>Fq_Worker_Props\<close> (\<^verbatim>\<open>runtime.go\<close>): \<open>executeWorker\<close> over adapters that may panic.

  \<^item> \<open>Fq_Recovery_Data\<close>, \<open>Fq_Recovery_Begin\<close>, \<open>Fq_Recovery_Scripts\<close>, \<open>Fq_Recovery_Ops\<close>
    (\<^verbatim>\<open>redis.go\<close>, \<^verbatim>\<open>model.go\<close>): the recovery lock, the fence over control and progress, the scripts that
    begin, rebuild and finish a recovery, and the client methods around them. \<open>Fq_Recovery_Inv\<close> and \<open>Fq_Recovery_Reach\<close>
    have the invariants of a resource under recovery and its reachable states; \<open>Fq_Recovery_Begin_Props\<close> and \<open>Fq_Recovery_Props\<close>
    show what a begin takes over and never overrides, that a reset with its delete passes rebuilds consistent coordination, and that only a
    complete recovery finishes. \<open>Fq_Recovery_Samples\<close> holds concrete recoveries.
  \<^item> \<open>Fq_Journal\<close> (\<^verbatim>\<open>model.go\<close>): the records of special operations with their validators.
    \<open>Fq_Journal_Store\<close> (\<^verbatim>\<open>src/internal/store/fairqueue_operation.go\<close>) is the MySQL row under statements of other sessions, faults and lost
    commits, \<open>Fq_Journal_Rag\<close> (\<^verbatim>\<open>src/internal/rag/fair_queue.go\<close>) the adapter between the two packages. \<open>Fq_Journal_Props\<close> refines the
    operations to a life cycle of the row, and shows that the validators agree. \<open>Fq_Journal_Samples\<close> has witnesses.
  \<^item> \<open>Fq_Recovery_Env\<close>, \<open>Fq_Recovery_Run\<close>, \<open>Fq_Recovery_Barrier\<close> (\<^verbatim>\<open>recovery.go\<close>): the recovery coordinator. Its clients
    are arbitrary state transformers (\<open>rec_env\<close>), its programs log every call with its error, and the answers on which the operators decide to destroy. \<open>Fq_Recovery_Run\<close> is the rebuild,
    \<open>Fq_Recovery_Barrier\<close> the reconciliation of a READY resource, the startup barrier and the loop.
    \<open>Fq_Recovery_Logic\<close> is a Hoare logic for them. \<open>Fq_Recovery_Redis\<close> runs the coordinator against the scripts, with other clients
    meddling between its calls; \<open>Fq_Recovery_Retry\<close>, \<open>Fq_Recovery_Wedge\<close>, \<open>Fq_Recovery_Types\<close> and \<open>Fq_Recovery_Ends\<close> show what a
    rebuild leaves in Redis, that one that was interrupted or repeated can never finish, the bounds of the stored marks, and that
    every pass ends. \<open>Fq_Recovery_Calm\<close> is a complete rebuild on a concrete Redis.
  \<^item> \<open>Fq_Operators\<close> (\<^verbatim>\<open>recovery_operators.go\<close>), \<open>Fq_Repair\<close> (\<^verbatim>\<open>rabbit_disaster_repair.go\<close>): the operators of special recoveries, rebind of
    the MySQL writer, forced rebuild of Redis, and repair after a loss of the broker: checks, start under the fence of the
    journal, apply. \<open>Fq_Operators_Props\<close> shows the order of their calls, that a forced rebuild destroys only past its deadline and
    on safe answers, and that they do nothing unconfirmed, over all answers of their clients; \<open>Fq_Operators_Start\<close> has the inspection script, and shows that Redis begins every operation
    the operators decide to begin. \<open>Fq_Operators_Samples\<close> has a concrete operator.

  \<^bold>\<open>Bounds.\<close> The scripts are total, and the loops of scheduler and dispatcher are folds over the finite list of iterations that an
  execution makes, whose length is arbitrary. The loops of recovery and of the operators take fuel, and running out of it is an
  outcome of its own (\<open>Cut\<close>), which no theorem takes for a result. \<open>recovery_passes_end\<close> shows that the passes over MySQL do not
  run out with one more than the number of keys that a keyset cursor has left, and those over the
  reservations with the global limit and two more; the other loops (the drain of leases, the convergence of the running tasks, the wait
  for the deadline and the repeated delete passes of a forced rebuild) end when the other clients and the clock let them, and their theorems hold for any fuel.
  Redis reads numbers with \<open>tonumber\<close>, which also accepts forms no client writes: for the protocol version of the control this is a parameter
  (\<open>N\<close>), of which the theorems assume that it accepts \<^verbatim>\<open>1\<close>. The theorems on running ids
  assume fewer than \<open>2^64\<close> tasks begun in one process.

  \<^bold>\<open>Not modelled.\<close> The construction of the Redis client with its topology and health probes, the RabbitMQ client (\<^verbatim>\<open>rabbit.go\<close>), which is a
  thin layer over an AMQP library, telemetry and health reporting, which no operation reads back, and goroutine
  orchestration (\<open>Runtime.Run\<close>, the shutdown sequence, the heartbeat of a running task; a renewal in the background is
  the result the code reads when it stops it). Of the stores and the RAG package only the journal is modelled: the rest is SQL, whose answers
  are arbitrary here. Agent, gateway, setup and web are outside this development.
\<close>

end
